(* ===== verification/Prelude.thy ===== *)
theory Prelude
  imports Main "HOL-Library.Mapping" "HOL-Library.List_Lexorder"
    "HOL-Library.Monad_Syntax" "HOL-Library.Word"
begin

text \<open>
  Shared vocabulary of the development: collections of simplification rules, Rust's
  hash maps as \<open>mapping\<close>s with the entry operations the program uses, loops that may
  panic as folds in the option monad, and the list lemmas several components need.

  A Rust \<open>HashMap\<close> or \<open>DashMap\<close> is a value of \<open>('k, 'v) mapping\<close>; an absent key
  and a key with an empty vector are different states, as they are in the program.
  \<open>None\<close> as the result of an operation of the option monad is a panic
  (a failed \<open>assert!\<close>) of the Rust code.
\<close>

named_theorems map_simps \<open>lookups in updated hash maps\<close>
named_theorems post_simps \<open>posting lists\<close>

section \<open>Hash maps\<close>

type_synonym ('k, 'v) hmap = "('k, 'v) mapping"

text \<open>The posting list of a key, empty where the key is absent:
  \<open>m.get(k).cloned().unwrap_or_default()\<close>.\<close>

definition postings :: "('k, 'v list) hmap \<Rightarrow> 'k \<Rightarrow> 'v list" where
  "postings m k = (case Mapping.lookup m k of None \<Rightarrow> [] | Some vs \<Rightarrow> vs)"

text \<open>\<open>m.entry(k).or_default()\<close> followed by an update of the vector.\<close>

definition entry_modify :: "'k \<Rightarrow> ('v list \<Rightarrow> 'v list) \<Rightarrow> ('k, 'v list) hmap \<Rightarrow> ('k, 'v list) hmap" where
  "entry_modify k f m = Mapping.update k (f (postings m k)) m"

text \<open>\<open>if let Some(mut vs) = m.get_mut(k) { ... }\<close>: no entry is created.\<close>

definition get_mut_modify :: "'k \<Rightarrow> ('v \<Rightarrow> 'v) \<Rightarrow> ('k, 'v) hmap \<Rightarrow> ('k, 'v) hmap" where
  "get_mut_modify k f m =
     (case Mapping.lookup m k of None \<Rightarrow> m | Some v \<Rightarrow> Mapping.update k (f v) m)"

text \<open>\<open>for mut e in m.iter_mut() { e.value_mut().retain(p) }\<close>: keys stay, even those whose
  vector becomes empty.\<close>

definition retain_values :: "('v \<Rightarrow> bool) \<Rightarrow> ('k, 'v list) hmap \<Rightarrow> ('k, 'v list) hmap" where
  "retain_values p m = Mapping.map_values (\<lambda>_ vs. filter p vs) m"

text \<open>\<open>m.retain(|_, vs| { vs.retain(p); !vs.is_empty() })\<close>: keys whose vector becomes empty
  are removed.\<close>

definition retain_nonempty :: "('v \<Rightarrow> bool) \<Rightarrow> ('k, 'v list) hmap \<Rightarrow> ('k, 'v list) hmap" where
  "retain_nonempty p m = Mapping.filter (\<lambda>_ vs. vs \<noteq> []) (retain_values p m)"

text \<open>The keys of a map in increasing order.\<close>

definition sorted_keys :: "('k::linorder, 'v) hmap \<Rightarrow> 'k list" where
  "sorted_keys m = Mapping.ordered_keys m"

text \<open>The entries of a map in key order; Rust iterates them in an order it does not specify.\<close>

definition entries_of :: "('k::linorder, 'v) hmap \<Rightarrow> ('k \<times> 'v) list" where
  "entries_of m = map (\<lambda>k. (k, the (Mapping.lookup m k))) (sorted_keys m)"

lemma lookup_empty_map [simp, map_simps]: "Mapping.lookup Mapping.empty k = None"
  by (simp add: lookup_empty)

lemma lookup_update_map [simp, map_simps]:
  "Mapping.lookup (Mapping.update k v m) k' = (if k = k' then Some v else Mapping.lookup m k')"
  by (simp add: lookup_update')

lemma lookup_delete_map [simp, map_simps]:
  "Mapping.lookup (Mapping.delete k m) k' = (if k = k' then None else Mapping.lookup m k')"
  by (simp add: lookup_delete)

lemma lookup_filter_map [simp, map_simps]:
  "Mapping.lookup (Mapping.filter p m) k =
     (case Mapping.lookup m k of None \<Rightarrow> None | Some v \<Rightarrow> if p k v then Some v else None)"
  by (simp add: lookup_filter)

lemma lookup_entry_modify [map_simps]:
  "Mapping.lookup (entry_modify k f m) k' =
     (if k = k' then Some (f (postings m k)) else Mapping.lookup m k')"
  by (simp add: entry_modify_def)

lemma lookup_get_mut_modify [map_simps]:
  "Mapping.lookup (get_mut_modify k f m) k' =
     (if k = k' then map_option f (Mapping.lookup m k) else Mapping.lookup m k')"
  by (simp add: get_mut_modify_def split: option.splits)

lemma lookup_retain_values [map_simps]:
  "Mapping.lookup (retain_values p m) k = map_option (filter p) (Mapping.lookup m k)"
  by (simp add: retain_values_def lookup_map_values)

lemma lookup_retain_nonempty [map_simps]:
  "Mapping.lookup (retain_nonempty p m) k =
     (if filter p (postings m k) = [] then None else Some (filter p (postings m k)))"
  by (auto simp: retain_nonempty_def lookup_retain_values postings_def split: option.splits)

lemma postings_empty [simp, post_simps]: "postings Mapping.empty k = []"
  by (simp add: postings_def)

lemma postings_entry_modify [post_simps]:
  "postings (entry_modify k f m) k' = (if k = k' then f (postings m k) else postings m k')"
  by (simp add: postings_def lookup_entry_modify)

lemma postings_get_mut_filter [post_simps]:
  "postings (get_mut_modify k (filter p) m) k' =
     (if k = k' then filter p (postings m k) else postings m k')"
  by (simp add: postings_def lookup_get_mut_modify split: option.splits)

lemma postings_retain_values [post_simps]:
  "postings (retain_values p m) k = filter p (postings m k)"
  by (simp add: postings_def lookup_retain_values split: option.splits)

lemma postings_retain_nonempty [post_simps]:
  "postings (retain_nonempty p m) k = filter p (postings m k)"
  by (simp add: postings_def [of "retain_nonempty p m"] lookup_retain_nonempty)

lemma set_sorted_keys: "finite (Mapping.keys m) \<Longrightarrow> set (sorted_keys m) = Mapping.keys m"
  by (simp add: sorted_keys_def Mapping.ordered_keys_def)

lemma sorted_sorted_keys [simp]: "sorted (sorted_keys m)"
  by (simp add: sorted_keys_def Mapping.ordered_keys_def)

lemma distinct_sorted_keys [simp]: "distinct (sorted_keys m)"
  by (simp add: sorted_keys_def Mapping.ordered_keys_def)

section \<open>Loops that may panic\<close>

text \<open>\<open>for x in xs { s = f(x, s) }\<close> where \<open>f\<close> may panic.\<close>

fun fold_opt :: "('a \<Rightarrow> 's \<Rightarrow> 's option) \<Rightarrow> 'a list \<Rightarrow> 's \<Rightarrow> 's option" where
  "fold_opt f [] s = Some s"
| "fold_opt f (x # xs) s = Option.bind (f x s) (fold_opt f xs)"

lemma fold_opt_append:
  "fold_opt f (xs @ ys) s = Option.bind (fold_opt f xs s) (fold_opt f ys)"
proof (induction xs arbitrary: s)
  case Nil
  then show ?case by simp
next
  case (Cons x xs)
  then show ?case by (cases "f x s") simp_all
qed

text \<open>An invariant of the body is an invariant of the loop.\<close>

lemma fold_opt_invariant:
  assumes "fold_opt f xs s = Some s'" and "I s"
    and "\<And>x s s'. x \<in> set xs \<Longrightarrow> I s \<Longrightarrow> f x s = Some s' \<Longrightarrow> I s'"
  shows "I s'"
  using assms
proof (induction xs arbitrary: s)
  case Nil
  then show ?case by simp
next
  case (Cons x xs)
  then obtain t where t: "f x s = Some t" and rest: "fold_opt f xs t = Some s'"
    by (auto simp: bind_eq_Some_conv)
  have "I t" using Cons.prems(2) t Cons.prems(3) [of x] by simp
  moreover have "\<And>y s s'. y \<in> set xs \<Longrightarrow> I s \<Longrightarrow> f y s = Some s' \<Longrightarrow> I s'"
    using Cons.prems(3) by auto
  ultimately show ?case using Cons.IH rest by blast
qed

text \<open>A loop whose body never panics under an invariant never panics.\<close>

lemma fold_opt_total:
  assumes "I s"
    and "\<And>x s. x \<in> set xs \<Longrightarrow> I s \<Longrightarrow> \<exists>s'. f x s = Some s' \<and> I s'"
  shows "\<exists>s'. fold_opt f xs s = Some s' \<and> I s'"
  using assms
proof (induction xs arbitrary: s)
  case Nil
  then show ?case by simp
next
  case (Cons x xs)
  from Cons.prems(2) [of x s] Cons.prems(1) obtain t where t: "f x s = Some t" "I t"
    by auto
  have "\<exists>s'. fold_opt f xs t = Some s' \<and> I s'"
    by (rule Cons.IH [OF t(2)]) (use Cons.prems(2) in auto)
  then show ?case using t by simp
qed

lemma fold_opt_Some:
  "(\<And>x s. x \<in> set xs \<Longrightarrow> f x s = Some (g x s)) \<Longrightarrow> fold_opt f xs s = Some (fold g xs s)"
  by (induction xs arbitrary: s) simp_all

section \<open>Lists\<close>

text \<open>\<open>for x in new { if !old.contains(&x) { old.push(x) } }\<close>.\<close>

fun push_new :: "'a list \<Rightarrow> 'a list \<Rightarrow> 'a list" where
  "push_new old [] = old"
| "push_new old (x # xs) = push_new (if x \<in> set old then old else old @ [x]) xs"

lemma set_push_new [simp]: "set (push_new old new) = set old \<union> set new"
  by (induction old new rule: push_new.induct) auto

lemma distinct_push_new: "distinct old \<Longrightarrow> distinct (push_new old new)"
  by (induction old new rule: push_new.induct) auto

lemma filter_push_new_none:
  "(\<And>x. x \<in> set new \<Longrightarrow> \<not> p x) \<Longrightarrow> filter p (push_new old new) = filter p old"
  by (induction old new rule: push_new.induct) auto

text \<open>Vectors grouped by key in first-seen order: the \<open>HashMap<K, Vec<V>>\<close> a
  loop of \<open>map.entry(k).or_default().push(v)\<close> builds, as an association list.\<close>

fun al_push :: "'k \<Rightarrow> 'v \<Rightarrow> ('k \<times> 'v list) list \<Rightarrow> ('k \<times> 'v list) list" where
  "al_push k v [] = [(k, [v])]"
| "al_push k v ((k', vs) # m) = (if k = k' then (k', vs @ [v]) # m else (k', vs) # al_push k v m)"

definition al_get :: "('k \<times> 'v list) list \<Rightarrow> 'k \<Rightarrow> 'v list" where
  "al_get m k = (case map_of m k of None \<Rightarrow> [] | Some vs \<Rightarrow> vs)"

definition group_by_key :: "('k \<times> 'v) list \<Rightarrow> ('k \<times> 'v list) list" where
  "group_by_key kvs = fold (\<lambda>(k, v). al_push k v) kvs []"

lemma fst_set_al_push [simp]: "fst ` set (al_push k v m) = insert k (fst ` set m)"
  by (induction k v m rule: al_push.induct) auto

lemma distinct_al_push: "distinct (map fst m) \<Longrightarrow> distinct (map fst (al_push k v m))"
  by (induction k v m rule: al_push.induct) (auto simp: image_iff)

lemma al_get_al_push: "al_get (al_push k v m) k' = al_get m k' @ (if k = k' then [v] else [])"
  by (induction k v m rule: al_push.induct) (auto simp: al_get_def)

lemma group_by_key_aux:
  assumes "distinct (map fst m)"
  shows "distinct (map fst (fold (\<lambda>(k, v). al_push k v) kvs m)) \<and>
    al_get (fold (\<lambda>(k, v). al_push k v) kvs m) k
      = al_get m k @ map snd (filter (\<lambda>kv. fst kv = k) kvs)"
  using assms
  by (induction kvs arbitrary: m) (auto simp: distinct_al_push al_get_al_push)

lemma distinct_group_by_key [simp]: "distinct (map fst (group_by_key kvs))"
  using group_by_key_aux [of "[]" kvs] unfolding group_by_key_def by simp

lemma al_get_group_by_key:
  "al_get (group_by_key kvs) k = map snd (filter (\<lambda>kv. fst kv = k) kvs)"
  using group_by_key_aux [of "[]" kvs k] by (simp add: group_by_key_def al_get_def)

lemma al_get_member:
  "distinct (map fst m) \<Longrightarrow> (k, vs) \<in> set m \<Longrightarrow> al_get m k = vs"
  by (simp add: al_get_def)

lemma al_get_absent: "k \<notin> fst ` set m \<Longrightarrow> al_get m k = []"
  by (simp add: al_get_def map_of_eq_None_iff [THEN iffD2])

text \<open>Applying one entry update per key of a map with distinct keys is a pointwise update.\<close>

lemma postings_fold_entry_modify:
  assumes "distinct (map fst c)"
  shows "postings (fold (\<lambda>(k, vs). entry_modify k (\<lambda>old. g old (h vs))) c m) k =
    (if k \<in> fst ` set c then g (postings m k) (h (al_get c k)) else postings m k)"
  using assms
proof (induction c arbitrary: m)
  case Nil
  then show ?case by simp
next
  case (Cons kv c)
  obtain k' vs where kv: "kv = (k', vs)" by (cases kv)
  with Cons.prems have fresh: "k' \<notin> fst ` set c" by simp
  have "al_get (kv # c) k = (if k = k' then vs else al_get c k)"
    by (simp add: kv al_get_def)
  moreover have "postings (fold (\<lambda>(k, vs). entry_modify k (\<lambda>old. g old (h vs))) c
      (entry_modify k' (\<lambda>old. g old (h vs)) m)) k =
    (if k \<in> fst ` set c then g (postings (entry_modify k' (\<lambda>old. g old (h vs)) m) k) (h (al_get c k))
     else postings (entry_modify k' (\<lambda>old. g old (h vs)) m) k)"
    by (rule Cons.IH) (use Cons.prems in simp)
  ultimately show ?case
    using fresh by (auto simp: kv postings_entry_modify)
qed

end
