(* ===== verification/Rust_Str.thy ===== *)
theory Rust_Str
  imports Prelude
begin

text \<open>
  Rust's \<open>char\<close> and \<open>str\<close>, as far as the program uses them.

  A \<open>char\<close> is its Unicode scalar value, a natural number; a \<open>str\<close> is the list of its
  scalar values, so \<open>s.chars()\<close> is the list itself. String literals of the source are
  written \<open>lit ''...''\<close>. Byte lengths and UTF-16 lengths are computed from the
  scalar values, as the encodings define them. Rust's byte offsets into a string are modelled by
  scalar-value indices where the code only slices with them, and by byte offsets where the
  offset itself is the result.

  Classification of ASCII characters and of white space is given in full; that of the other
  characters comes from the Unicode Character Database compiled into the standard library, and
  is the parameter \<open>U\<close> of the definitions that ask for it.
\<close>

named_theorems str_simps \<open>facts about the string operations\<close>

type_synonym rchar = nat
type_synonym str = "rchar list"

definition lit :: "string \<Rightarrow> str" where
  "lit s = map of_char s"

abbreviation ch :: "char \<Rightarrow> rchar" where
  "ch c \<equiv> of_char c"

lemma lit_Nil [simp]: "lit [] = []"
  by (simp add: lit_def)

lemma lit_Cons [simp]: "lit (c # s) = of_char c # lit s"
  by (simp add: lit_def)

section \<open>Characters\<close>

record ucd =
  u_alphabetic :: "rchar \<Rightarrow> bool"
  u_alphanumeric :: "rchar \<Rightarrow> bool"
  u_uppercase :: "rchar \<Rightarrow> bool"
  u_lowercase :: "rchar \<Rightarrow> bool"
  u_to_lowercase :: "str \<Rightarrow> str"
  u_to_uppercase :: "rchar \<Rightarrow> str"

text \<open>A database in which every classified character is ASCII, for evaluation.\<close>

definition ascii_ucd :: ucd where
  "ascii_ucd = \<lparr>u_alphabetic = (\<lambda>_. False), u_alphanumeric = (\<lambda>_. False), u_uppercase = (\<lambda>_. False),
     u_lowercase = (\<lambda>_. False), u_to_lowercase = (\<lambda>s. s), u_to_uppercase = (\<lambda>c. [c])\<rparr>"

definition is_ascii_char :: "rchar \<Rightarrow> bool" where
  "is_ascii_char c \<longleftrightarrow> c < 128"

definition is_ascii_upper :: "rchar \<Rightarrow> bool" where
  "is_ascii_upper c \<longleftrightarrow> 65 \<le> c \<and> c \<le> 90"

definition is_ascii_lower :: "rchar \<Rightarrow> bool" where
  "is_ascii_lower c \<longleftrightarrow> 97 \<le> c \<and> c \<le> 122"

definition is_ascii_digit :: "rchar \<Rightarrow> bool" where
  "is_ascii_digit c \<longleftrightarrow> 48 \<le> c \<and> c \<le> 57"

definition is_ascii_alphanumeric :: "rchar \<Rightarrow> bool" where
  "is_ascii_alphanumeric c \<longleftrightarrow> is_ascii_upper c \<or> is_ascii_lower c \<or> is_ascii_digit c"

definition to_ascii_lower :: "rchar \<Rightarrow> rchar" where
  "to_ascii_lower c = (if is_ascii_upper c then c + 32 else c)"

definition is_alphabetic :: "ucd \<Rightarrow> rchar \<Rightarrow> bool" where
  "is_alphabetic U c = (if is_ascii_char c then is_ascii_upper c \<or> is_ascii_lower c else u_alphabetic U c)"

definition is_alphanumeric :: "ucd \<Rightarrow> rchar \<Rightarrow> bool" where
  "is_alphanumeric U c = (if is_ascii_char c then is_ascii_alphanumeric c else u_alphanumeric U c)"

definition is_uppercase :: "ucd \<Rightarrow> rchar \<Rightarrow> bool" where
  "is_uppercase U c = (if is_ascii_char c then is_ascii_upper c else u_uppercase U c)"

definition is_lowercase :: "ucd \<Rightarrow> rchar \<Rightarrow> bool" where
  "is_lowercase U c = (if is_ascii_char c then is_ascii_lower c else u_lowercase U c)"

lemmas ascii_class_defs = is_alphabetic_def is_alphanumeric_def is_ascii_char_def is_ascii_alphanumeric_def
  is_ascii_upper_def is_ascii_lower_def is_ascii_digit_def is_uppercase_def is_lowercase_def

text \<open>\<open>char::to_uppercase\<close>.\<close>

definition char_to_uppercase :: "ucd \<Rightarrow> rchar \<Rightarrow> str" where
  "char_to_uppercase U c =
     (if is_ascii_char c then [if is_ascii_lower c then c - 32 else c] else u_to_uppercase U c)"

text \<open>The \<open>White_Space\<close> property of Unicode.\<close>

definition is_whitespace :: "rchar \<Rightarrow> bool" where
  "is_whitespace c \<longleftrightarrow> (9 \<le> c \<and> c \<le> 13) \<or> c = 32 \<or> c = 133 \<or> c = 160 \<or> c = 5760
     \<or> (8192 \<le> c \<and> c \<le> 8202) \<or> c = 8232 \<or> c = 8233 \<or> c = 8239 \<or> c = 8287 \<or> c = 12288"

definition len_utf8 :: "rchar \<Rightarrow> nat" where
  "len_utf8 c = (if c < 128 then 1 else if c < 2048 then 2 else if c < 65536 then 3 else 4)"

definition len_utf16 :: "rchar \<Rightarrow> nat" where
  "len_utf16 c = (if c < 65536 then 1 else 2)"

lemma len_utf8_pos [simp]: "0 < len_utf8 c"
  by (simp add: len_utf8_def)

lemma len_utf16_pos [simp]: "0 < len_utf16 c"
  by (simp add: len_utf16_def)

text \<open>\<open>s.len()\<close>, and the UTF-8 bytes of a string, \<open>s.bytes()\<close>.\<close>

definition utf8_len :: "str \<Rightarrow> nat" where
  "utf8_len s = sum_list (map len_utf8 s)"

definition utf16_len :: "str \<Rightarrow> nat" where
  "utf16_len s = sum_list (map len_utf16 s)"

definition encode_char :: "rchar \<Rightarrow> nat list" where
  "encode_char c =
     (if c < 128 then [c]
      else if c < 2048 then [192 + c div 64, 128 + c mod 64]
      else if c < 65536 then [224 + c div 4096, 128 + c div 64 mod 64, 128 + c mod 64]
      else [240 + c div 262144, 128 + c div 4096 mod 64, 128 + c div 64 mod 64, 128 + c mod 64])"

definition utf8_bytes :: "str \<Rightarrow> nat list" where
  "utf8_bytes s = concat (map encode_char s)"

lemma utf8_len_simps [simp]:
  "utf8_len [] = 0"
  "utf8_len (c # s) = len_utf8 c + utf8_len s"
  "utf8_len (s @ t) = utf8_len s + utf8_len t"
  by (simp_all add: utf8_len_def)

lemma utf16_len_simps [simp]:
  "utf16_len [] = 0"
  "utf16_len (c # s) = len_utf16 c + utf16_len s"
  "utf16_len (s @ t) = utf16_len s + utf16_len t"
  by (simp_all add: utf16_len_def)

lemma length_encode_char: "length (encode_char c) = len_utf8 c"
  by (simp add: encode_char_def len_utf8_def)

lemma length_utf8_bytes: "length (utf8_bytes s) = utf8_len s"
  by (induction s) (simp_all add: utf8_bytes_def length_encode_char)

definition is_ascii_str :: "str \<Rightarrow> bool" where
  "is_ascii_str s = list_all is_ascii_char s"

definition to_lowercase :: "ucd \<Rightarrow> str \<Rightarrow> str" where
  "to_lowercase U s = (if is_ascii_str s then map to_ascii_lower s else u_to_lowercase U s)"

section \<open>Searching\<close>

definition starts_with :: "str \<Rightarrow> str \<Rightarrow> bool" where
  "starts_with s p = (take (length p) s = p)"

definition ends_with :: "str \<Rightarrow> str \<Rightarrow> bool" where
  "ends_with s p = starts_with (rev s) (rev p)"

definition strip_prefix :: "str \<Rightarrow> str \<Rightarrow> str option" where
  "strip_prefix s p = (if starts_with s p then Some (drop (length p) s) else None)"

fun find_sub :: "str \<Rightarrow> str \<Rightarrow> nat option" where
  "find_sub [] p = (if p = [] then Some 0 else None)"
| "find_sub (c # s) p =
     (if starts_with (c # s) p then Some 0 else map_option Suc (find_sub s p))"

definition contains_sub :: "str \<Rightarrow> str \<Rightarrow> bool" where
  "contains_sub s p = (find_sub s p \<noteq> None)"

fun find_char :: "(rchar \<Rightarrow> bool) \<Rightarrow> str \<Rightarrow> nat option" where
  "find_char p [] = None"
| "find_char p (c # s) = (if p c then Some 0 else map_option Suc (find_char p s))"

definition rfind_char :: "(rchar \<Rightarrow> bool) \<Rightarrow> str \<Rightarrow> nat option" where
  "rfind_char p s = map_option (\<lambda>i. length s - 1 - i) (find_char p (rev s))"

lemma starts_with_append [str_simps]: "starts_with (p @ s) p"
  by (simp add: starts_with_def)

lemma starts_with_iff: "starts_with s p \<longleftrightarrow> (\<exists>t. s = p @ t)"
  by (metis append_eq_conv_conj starts_with_def)

lemma ends_with_iff: "ends_with s p \<longleftrightarrow> (\<exists>t. s = t @ p)"
proof
  assume "ends_with s p"
  then obtain t where "rev s = rev p @ t" by (auto simp: ends_with_def starts_with_iff)
  then have "s = rev t @ p" by (metis rev_append rev_rev_ident)
  then show "\<exists>t. s = t @ p" ..
next
  assume "\<exists>t. s = t @ p"
  then show "ends_with s p" by (auto simp: ends_with_def starts_with_iff)
qed

lemma strip_prefix_Some: "strip_prefix s p = Some t \<longleftrightarrow> s = p @ t"
  by (auto simp: strip_prefix_def starts_with_iff)

text \<open>\<open>find\<close> returns the first occurrence.\<close>

lemma find_sub_Some:
  "find_sub s p = Some i \<Longrightarrow> starts_with (drop i s) p \<and> i \<le> length s
     \<and> (\<forall>j<i. \<not> starts_with (drop j s) p)"
proof (induction s arbitrary: i)
  case Nil
  then show ?case by (simp add: starts_with_def split: if_splits)
next
  case (Cons c s)
  show ?case
  proof (cases "starts_with (c # s) p")
    case True
    with Cons.prems show ?thesis by simp
  next
    case False
    with Cons.prems obtain k where k: "find_sub s p = Some k" "i = Suc k" by auto
    from Cons.IH [OF k(1)] False show ?thesis
      by (auto simp: k(2) less_Suc_eq_0_disj)
  qed
qed

lemma find_sub_None: "find_sub s p = None \<Longrightarrow> \<not> starts_with (drop j s) p"
proof (induction s arbitrary: j)
  case Nil
  then show ?case by (auto simp: starts_with_def split: if_splits)
next
  case (Cons c s)
  then show ?case by (cases j) (auto split: if_splits)
qed

lemma contains_sub_iff: "contains_sub s p \<longleftrightarrow> (\<exists>a b. s = a @ p @ b)"
proof
  assume "contains_sub s p"
  then obtain i where "find_sub s p = Some i" by (auto simp: contains_sub_def)
  then have "starts_with (drop i s) p" by (simp add: find_sub_Some)
  then obtain b where "drop i s = p @ b" by (auto simp: starts_with_iff)
  then have "s = take i s @ p @ b" by (metis append_take_drop_id)
  then show "\<exists>a b. s = a @ p @ b" by blast
next
  assume "\<exists>a b. s = a @ p @ b"
  then obtain a b where s: "s = a @ p @ b" by blast
  then have "starts_with (drop (length a) s) p" by (simp add: starts_with_append)
  then show "contains_sub s p" using find_sub_None by (auto simp: contains_sub_def)
qed

lemma find_char_Some:
  "find_char p s = Some i \<Longrightarrow> i < length s \<and> p (s ! i) \<and> (\<forall>j<i. \<not> p (s ! j))"
proof (induction s arbitrary: i)
  case Nil
  then show ?case by simp
next
  case (Cons c s)
  then show ?case
    by (cases "p c") (auto simp: less_Suc_eq_0_disj)
qed

lemma find_char_None: "find_char p s = None \<longleftrightarrow> (\<forall>c\<in>set s. \<not> p c)"
  by (induction s) auto

lemma rfind_char_Some:
  assumes "rfind_char p s = Some i"
  shows "i < length s \<and> p (s ! i) \<and> (\<forall>j. i < j \<and> j < length s \<longrightarrow> \<not> p (s ! j))"
proof -
  from assms obtain k where k: "find_char p (rev s) = Some k" and i: "i = length s - 1 - k"
    by (auto simp: rfind_char_def)
  from find_char_Some [OF k] have kl: "k < length s" and pk: "p (rev s ! k)"
    and least: "\<forall>j<k. \<not> p (rev s ! j)" by auto
  have "\<not> p (s ! j)" if j: "i < j" "j < length s" for j
  proof -
    have "length s - Suc j < k" using j i kl by arith
    with least have "\<not> p (rev s ! (length s - Suc j))" by blast
    then show ?thesis using j by (simp add: rev_nth)
  qed
  moreover have "s ! i = rev s ! k" using kl by (simp add: i rev_nth)
  ultimately show ?thesis using kl pk i by auto
qed

lemma rfind_char_None: "rfind_char p s = None \<longleftrightarrow> (\<forall>c\<in>set s. \<not> p c)"
  by (simp add: rfind_char_def find_char_None)

section \<open>Trimming and splitting\<close>

definition trim_start :: "str \<Rightarrow> str" where
  "trim_start s = dropWhile is_whitespace s"

definition trim_end_matches :: "(rchar \<Rightarrow> bool) \<Rightarrow> str \<Rightarrow> str" where
  "trim_end_matches p s = rev (dropWhile p (rev s))"

definition trim_end :: "str \<Rightarrow> str" where
  "trim_end s = trim_end_matches is_whitespace s"

definition trim :: "str \<Rightarrow> str" where
  "trim s = trim_end (trim_start s)"

text \<open>\<open>s.split(c)\<close>: the parts between occurrences of \<open>c\<close>, at least one.\<close>

fun split_on :: "rchar \<Rightarrow> str \<Rightarrow> str list" where
  "split_on c [] = [[]]"
| "split_on c (d # s) =
     (if d = c then [] # split_on c s
      else (case split_on c s of [] \<Rightarrow> [[d]] | w # ws \<Rightarrow> (d # w) # ws))"

definition last_part :: "rchar \<Rightarrow> str \<Rightarrow> str" where
  "last_part c s = last (split_on c s)"

text \<open>\<open>s.split_once(c)\<close>.\<close>

definition split_once :: "rchar \<Rightarrow> str \<Rightarrow> (str \<times> str) option" where
  "split_once c s =
     map_option (\<lambda>i. (take i s, drop (Suc i) s)) (find_char (\<lambda>d. d = c) s)"

text \<open>\<open>s.split_whitespace()\<close>.\<close>

fun split_ws_aux :: "str \<Rightarrow> str \<Rightarrow> str list" where
  "split_ws_aux w [] = (if w = [] then [] else [w])"
| "split_ws_aux w (c # s) =
     (if is_whitespace c then (if w = [] then split_ws_aux [] s else w # split_ws_aux [] s)
      else split_ws_aux (w @ [c]) s)"

definition split_whitespace :: "str \<Rightarrow> str list" where
  "split_whitespace s = split_ws_aux [] s"

text \<open>\<open>parts.join(sep)\<close>.\<close>

fun join :: "str \<Rightarrow> str list \<Rightarrow> str" where
  "join sep [] = []"
| "join sep [w] = w"
| "join sep (w # ws) = w @ sep @ join sep ws"

text \<open>\<open>s.lines()\<close>: parts ended by a line feed, without it and without a carriage return
  before it; an empty part after the last line feed is no line.\<close>

definition strip_cr :: "str \<Rightarrow> str" where
  "strip_cr w = (if w \<noteq> [] \<and> last w = 13 then butlast w else w)"

definition str_lines :: "str \<Rightarrow> str list" where
  "str_lines s =
     (let parts = split_on 10 s
      in map strip_cr (butlast parts) @ (if last parts = [] then [] else [last parts]))"

lemma split_on_not_Nil [simp]: "split_on c s \<noteq> []"
  by (induction c s rule: split_on.induct) (auto split: list.splits)

lemma join_split_on: "join [c] (split_on c s) = s"
proof (induction c s rule: split_on.induct)
  case (1 c)
  then show ?case by simp
next
  case (2 c d s)
  obtain w ws where ws: "split_on c s = w # ws" by (cases "split_on c s") auto
  with 2 show ?case by (cases ws) auto
qed

lemma split_on_parts: "w \<in> set (split_on c s) \<Longrightarrow> c \<notin> set w"
  by (induction c s arbitrary: w rule: split_on.induct)
     (auto split: list.splits if_splits)

lemma split_on_no_sep: "c \<notin> set s \<Longrightarrow> split_on c s = [s]"
  by (induction s) auto

lemma split_on_append_sep: "split_on c (s @ c # t) = split_on c s @ split_on c t"
proof (induction s)
  case Nil
  then show ?case by simp
next
  case (Cons d s)
  obtain w ws where "split_on c s = w # ws" by (cases "split_on c s") auto
  with Cons show ?case by simp
qed

lemma last_part_append_sep: "c \<notin> set t \<Longrightarrow> last_part c (s @ c # t) = t"
  by (simp add: last_part_def split_on_append_sep split_on_no_sep)

lemma last_part_no_sep: "c \<notin> set s \<Longrightarrow> last_part c s = s"
  by (simp add: last_part_def split_on_no_sep)

lemma last_part_no_char: "c \<notin> set (last_part c s)"
  by (rule split_on_parts [of _ _ s]) (simp add: last_part_def)

lemma split_once_Some: "split_once c s = Some (a, b) \<longleftrightarrow> s = a @ c # b \<and> c \<notin> set a"
proof
  assume "split_once c s = Some (a, b)"
  then obtain i where i: "find_char (\<lambda>d. d = c) s = Some i" "a = take i s" "b = drop (Suc i) s"
    by (auto simp: split_once_def)
  with find_char_Some [OF i(1)] have "i < length s" "s ! i = c" "\<forall>j<i. s ! j \<noteq> c" by auto
  then show "s = a @ c # b \<and> c \<notin> set a"
    by (auto simp: i(2,3) in_set_conv_nth id_take_nth_drop [symmetric])
next
  assume r: "s = a @ c # b \<and> c \<notin> set a"
  then have "find_char (\<lambda>d. d = c) s = Some (length a)"
  proof -
    have "find_char (\<lambda>d. d = c) (a @ c # b) = Some (length a)" if "c \<notin> set a" for a
      using that by (induction a) auto
    then show ?thesis using r by simp
  qed
  with r show "split_once c s = Some (a, b)" by (simp add: split_once_def)
qed

lemma split_once_None: "split_once c s = None \<longleftrightarrow> c \<notin> set s"
  by (auto simp: split_once_def find_char_None)

lemma trim_start_idem [simp]: "trim_start (trim_start s) = trim_start s"
  by (simp add: trim_start_def)

lemma trim_start_suffix: "\<exists>w. s = w @ trim_start s \<and> list_all is_whitespace w"
  by (rule exI [of _ "takeWhile is_whitespace s"])
     (auto simp: trim_start_def list_all_iff dest: set_takeWhileD)

lemma trim_end_matches_prefix: "\<exists>w. s = trim_end_matches p s @ w \<and> list_all p w"
proof -
  have "rev s = takeWhile p (rev s) @ dropWhile p (rev s)" by simp
  then have "s = rev (dropWhile p (rev s)) @ rev (takeWhile p (rev s))"
    by (metis rev_append rev_rev_ident)
  then show ?thesis
    by (intro exI [of _ "rev (takeWhile p (rev s))"])
       (auto simp: trim_end_matches_def list_all_iff dest: set_takeWhileD)
qed

lemma trim_end_matches_last:
  assumes "trim_end_matches p s \<noteq> []"
  shows "\<not> p (last (trim_end_matches p s))"
proof -
  from assms have "dropWhile p (rev s) \<noteq> []" by (simp add: trim_end_matches_def)
  then show ?thesis by (simp add: trim_end_matches_def last_rev hd_dropWhile)
qed

lemma trim_end_matches_idem: "trim_end_matches p (trim_end_matches p s) = trim_end_matches p s"
  by (simp add: trim_end_matches_def)

section \<open>Formatted numbers\<close>

text \<open>\<open>{n}\<close>, \<open>{n:04}\<close> and \<open>{w:016x}\<close>.\<close>

fun decimal :: "nat \<Rightarrow> str" where
  "decimal n = (if n < 10 then [48 + n] else decimal (n div 10) @ [48 + n mod 10])"

declare decimal.simps [simp del]

definition zero_padded :: "nat \<Rightarrow> str \<Rightarrow> str" where
  "zero_padded w s = replicate (w - length s) 48 @ s"

definition hex_digit :: "nat \<Rightarrow> rchar" where
  "hex_digit d = (if d < 10 then 48 + d else 87 + d)"

definition hex16 :: "64 word \<Rightarrow> str" where
  "hex16 w = map (\<lambda>i. hex_digit (unat w div 16 ^ (15 - i) mod 16)) [0..<16]"

text \<open>The number a row of digits stands for.\<close>

definition digits_value :: "str \<Rightarrow> nat" where
  "digits_value s = foldl (\<lambda>v c. 10 * v + (c - 48)) 0 s"

lemma digits_value_decimal [simp]: "digits_value (decimal n) = n"
proof (induction n rule: decimal.induct)
  case (1 n)
  then show ?case by (subst decimal.simps) (auto simp: digits_value_def)
qed

lemma digits_value_padded [simp]: "digits_value (zero_padded w s) = digits_value s"
proof -
  have "foldl (\<lambda>v c. 10 * v + (c - 48)) 0 (replicate k (48 :: nat)) = 0" for k :: nat
    by (induction k) auto
  then show ?thesis by (simp add: zero_padded_def digits_value_def)
qed

lemma zero_padded_decimal_inj: "zero_padded w (decimal m) = zero_padded w (decimal n) \<Longrightarrow> m = n"
  by (metis digits_value_padded digits_value_decimal)

end
