(* ===== verification/Rust_Path.thy ===== *)
theory Rust_Path
  imports Rust_Str
begin

text \<open>
  \<open>std::path\<close> on Unix, as far as the program uses it. A path is the list of its
  components: Rust compares, hashes and prefixes paths by components, so repeated separators
  and inner \<open>.\<close> components make no difference.
\<close>

datatype component = RootDir | CurDir | ParentDir | Normal str

type_synonym path = "component list"

definition component_of :: "str \<Rightarrow> component" where
  "component_of w = (if w = lit ''..'' then ParentDir else Normal w)"

text \<open>\<open>Path::new(s).components()\<close>.\<close>

definition path_of_str :: "str \<Rightarrow> path" where
  "path_of_str s =
     (let parts = split_on (ch CHR ''/'') s;
          rooted = (s \<noteq> [] \<and> hd s = ch CHR ''/'');
          names = filter (\<lambda>w. w \<noteq> [] \<and> w \<noteq> lit ''.'') parts
      in (if rooted then [RootDir]
          else if hd parts = lit ''.'' then [CurDir] else [])
         @ map component_of names)"

fun component_str :: "component \<Rightarrow> str" where
  "component_str RootDir = []"
| "component_str CurDir = lit ''.''"
| "component_str ParentDir = lit ''..''"
| "component_str (Normal w) = w"

text \<open>\<open>path.to_string_lossy()\<close> of a path in normal form.\<close>

definition path_to_str :: "path \<Rightarrow> str" where
  "path_to_str p =
     (if p = [RootDir] then lit ''/'' else join (lit ''/'') (map component_str p))"

definition path_is_absolute :: "path \<Rightarrow> bool" where
  "path_is_absolute p \<longleftrightarrow> p \<noteq> [] \<and> hd p = RootDir"

definition path_join :: "path \<Rightarrow> path \<Rightarrow> path" where
  "path_join base p =
     (if path_is_absolute p \<or> base = [] then p else base @ filter (\<lambda>c. c \<noteq> CurDir) p)"

definition path_starts_with :: "path \<Rightarrow> path \<Rightarrow> bool" where
  "path_starts_with p base = (take (length base) p = base)"

definition path_parent :: "path \<Rightarrow> path option" where
  "path_parent p = (if p = [] \<or> last p = RootDir then None else Some (butlast p))"

text \<open>\<open>path.file_stem()\<close>: the file name up to its last dot, unless that dot is its first
  character.\<close>

definition name_stem :: "str \<Rightarrow> str" where
  "name_stem w =
     (case rfind_char (\<lambda>c. c = ch CHR ''.'') w of
        None \<Rightarrow> w
      | Some i \<Rightarrow> if i = 0 then w else take i w)"

definition path_file_stem :: "path \<Rightarrow> str option" where
  "path_file_stem p =
     (case p of [] \<Rightarrow> None
      | _ \<Rightarrow> (case last p of Normal w \<Rightarrow> Some (name_stem w) | _ \<Rightarrow> None))"

lemma path_parent_shorter: "path_parent p = Some q \<Longrightarrow> length q < length p"
  by (auto simp: path_parent_def split: if_splits)

lemma path_parent_prefix: "path_parent p = Some q \<Longrightarrow> path_starts_with p q"
  by (auto simp: path_parent_def path_starts_with_def butlast_conv_take split: if_splits)

lemma path_starts_with_refl [simp]: "path_starts_with p p"
  by (simp add: path_starts_with_def)

lemma path_starts_with_trans:
  "path_starts_with p q \<Longrightarrow> path_starts_with q r \<Longrightarrow> path_starts_with p r"
  unfolding path_starts_with_def
  by (metis length_take min.absorb_iff2 min.cobounded1 take_take)

lemma name_stem_prefix: "starts_with w (name_stem w)"
  by (auto simp: name_stem_def starts_with_def min_def split: option.splits)

lemma name_stem_nonempty: "w \<noteq> [] \<Longrightarrow> name_stem w \<noteq> []"
  by (auto simp: name_stem_def split: option.splits)

end
