(* ===== verification/Str_Ext.thy ===== *)
theory Str_Ext
  imports Rust_Str
begin

text \<open>
  The string helpers of \<^verbatim>\<open>src/str_ext.rs\<close>: the trait \<open>StrExt\<close> on \<open>str\<close> and
  \<open>is_id_char\<close>. The definitions keep the source's names. The lemmas say what each helper
  returns on every input; those the other components use are collected in \<open>str_simps\<close>.
\<close>

definition is_id_char :: "ucd \<Rightarrow> rchar \<Rightarrow> bool" where
  "is_id_char U c \<longleftrightarrow> is_alphanumeric U c \<or> c = ch CHR ''_''"

definition starts_with_uppercase :: "ucd \<Rightarrow> str \<Rightarrow> bool" where
  "starts_with_uppercase U s = (case s of [] \<Rightarrow> False | c # _ \<Rightarrow> is_uppercase U c)"

definition starts_with_lowercase :: "ucd \<Rightarrow> str \<Rightarrow> bool" where
  "starts_with_lowercase U s = (case s of [] \<Rightarrow> False | c # _ \<Rightarrow> is_lowercase U c)"

definition ident_prefix :: "ucd \<Rightarrow> str \<Rightarrow> str" where
  "ident_prefix U s = takeWhile (is_id_char U) s"

definition dotted_ident_prefix :: "ucd \<Rightarrow> str \<Rightarrow> str" where
  "dotted_ident_prefix U s = takeWhile (\<lambda>c. is_id_char U c \<or> c = ch CHR ''.'') s"

definition bare_type_name :: "ucd \<Rightarrow> str \<Rightarrow> str option" where
  "bare_type_name U s =
     (let name = dotted_ident_prefix U (trim_start s) in if name = [] then None else Some name)"

definition last_segment :: "str \<Rightarrow> str" where
  "last_segment s = last_part (ch CHR ''.'') s"

definition is_nullable :: "str \<Rightarrow> bool" where
  "is_nullable s = ends_with (trim_end s) (lit ''?'')"

definition strip_nullable :: "str \<Rightarrow> str" where
  "strip_nullable s = trim_end_matches (\<lambda>c. c = ch CHR ''?'') s"

definition strip_variance :: "str \<Rightarrow> str" where
  "strip_variance s =
     (let trimmed = trim_start s
      in case strip_prefix trimmed (lit ''out '') of
           Some r \<Rightarrow> trim_start r
         | None \<Rightarrow> (case strip_prefix trimmed (lit ''in '') of
               Some r \<Rightarrow> trim_start r
             | None \<Rightarrow> trimmed))"

text \<open>The last fallback of the chain is the whole receiver, not the part before the brace.\<close>

definition decl_prefix :: "str \<Rightarrow> str" where
  "decl_prefix s =
     (let before_brace = (case split_once (ch CHR ''{'') s of Some (l, _) \<Rightarrow> l | None \<Rightarrow> s)
      in case split_once (ch CHR ''='') before_brace of Some (l, _) \<Rightarrow> l | None \<Rightarrow> s)"

text \<open>The index of the first character at or after a UTF-16 column.\<close>

fun utf16_char_index :: "str \<Rightarrow> nat \<Rightarrow> nat \<Rightarrow> nat \<Rightarrow> nat" where
  "utf16_char_index [] cu col i = i"
| "utf16_char_index (c # s) cu col i =
     (if cu \<ge> col then i else utf16_char_index s (cu + len_utf16 c) col (Suc i))"

text \<open>\<open>while ws > 0 && is_word(chars[ws - 1]) { ws -= 1 }\<close>.\<close>

fun scan_left :: "(rchar \<Rightarrow> bool) \<Rightarrow> str \<Rightarrow> nat \<Rightarrow> nat" where
  "scan_left p s 0 = 0"
| "scan_left p s (Suc ws) = (if p (s ! ws) then scan_left p s ws else Suc ws)"

text \<open>\<open>while we < chars.len() && is_word(chars[we]) { we += 1 }\<close>.\<close>

function scan_right :: "(rchar \<Rightarrow> bool) \<Rightarrow> str \<Rightarrow> nat \<Rightarrow> nat" where
  "scan_right p s we =
     (if we < length s \<and> p (s ! we) then scan_right p s (Suc we) else we)"
  by pat_completeness auto
termination
  by (relation "measure (\<lambda>(p, s, we). length s - we)") auto

declare scan_right.simps [simp del]

definition word_at_utf16_col :: "ucd \<Rightarrow> str \<Rightarrow> nat \<Rightarrow> str" where
  "word_at_utf16_col U s utf16_col =
     (let col = utf16_char_index s 0 utf16_col 0;
          is_word = (\<lambda>c. is_alphanumeric U c \<or> c = ch CHR ''_'');
          ws = scan_left is_word s col;
          we = scan_right is_word s col
      in take (we - ws) (drop ws s))"

section \<open>Identifiers and segments\<close>

lemma ident_prefix_id_chars: "c \<in> set (ident_prefix U s) \<Longrightarrow> is_id_char U c"
  by (auto simp: ident_prefix_def dest: set_takeWhileD)

lemma ident_prefix_all: "list_all (is_id_char U) s \<Longrightarrow> ident_prefix U s = s"
  by (simp add: ident_prefix_def list_all_iff takeWhile_eq_all_conv)

lemma dot_not_id_char [simp]: "\<not> is_id_char U 46"
  by (simp add: is_id_char_def is_alphanumeric_def is_ascii_char_def is_ascii_alphanumeric_def
      is_ascii_upper_def is_ascii_lower_def is_ascii_digit_def)

lemma last_segment_no_dot: "ch CHR ''.'' \<notin> set s \<Longrightarrow> last_segment s = s"
  by (simp add: last_segment_def last_part_no_sep)

lemma last_segment_qualified:
  "ch CHR ''.'' \<notin> set name \<Longrightarrow> last_segment (pkg @ lit ''.'' @ name) = name"
  using last_part_append_sep [of "ch CHR ''.''" name pkg] by (simp add: last_segment_def)

lemma last_segment_idem: "last_segment (last_segment s) = last_segment s"
  by (rule last_segment_no_dot) (simp add: last_segment_def last_part_no_char)

section \<open>Nullability\<close>

lemma question_not_whitespace [simp]: "\<not> is_whitespace 63"
  by (simp add: is_whitespace_def)

lemma ends_with_single: "ends_with s [c] \<longleftrightarrow> s \<noteq> [] \<and> last s = c"
  by (cases s rule: rev_cases) (auto simp: ends_with_def starts_with_def)

lemma trim_end_no_trailing_ws: "s \<noteq> [] \<Longrightarrow> \<not> is_whitespace (last s) \<Longrightarrow> trim_end s = s"
  by (cases s rule: rev_cases) (auto simp: trim_end_def trim_end_matches_def)

lemma strip_nullable_idem: "strip_nullable (strip_nullable s) = strip_nullable s"
  by (simp add: strip_nullable_def trim_end_matches_idem)

lemma strip_nullable_question [str_simps]: "strip_nullable (s @ lit ''?'') = strip_nullable s"
  by (simp add: strip_nullable_def trim_end_matches_def)

text \<open>Where the text ends in no white space, stripping leaves a non-nullable type.\<close>

lemma strip_nullable_not_nullable_aux:
  assumes "trim_end (strip_nullable s) = strip_nullable s"
  shows "\<not> is_nullable (strip_nullable s)"
  using assms trim_end_matches_last [of "\<lambda>c. c = 63" s]
  by (auto simp: is_nullable_def ends_with_single strip_nullable_def)

section \<open>The identifier at a cursor\<close>

lemma utf16_char_index_bounds: "i \<le> utf16_char_index s cu col i \<and> utf16_char_index s cu col i \<le> i + length s"
proof (induction s cu col i rule: utf16_char_index.induct)
  case (1 cu col i)
  then show ?case by simp
next
  case (2 c s cu col i)
  then show ?case by (cases "cu \<ge> col") auto
qed

text \<open>The character index of a column: the first index whose prefix has at least that many
  UTF-16 code units.\<close>

lemma utf16_char_index_least:
  "(\<forall>j. i + j < utf16_char_index s cu col i \<longrightarrow> cu + utf16_len (take j s) < col)
   \<and> (\<forall>k. utf16_char_index s cu col i = i + k \<and> k < length s \<longrightarrow> col \<le> cu + utf16_len (take k s))"
proof (induction s cu col i rule: utf16_char_index.induct)
  case (1 cu col i)
  then show ?case by simp
next
  case (2 c s cu col i)
  show ?case
  proof (cases "cu \<ge> col")
    case True
    then show ?thesis by simp
  next
    case False
    let ?k = "utf16_char_index s (cu + len_utf16 c) col (Suc i)"
    have ge: "Suc i \<le> ?k" using utf16_char_index_bounds by blast
    note ih = "2.IH" [OF False]
    have "cu + utf16_len (take j (c # s)) < col" if "i + j < ?k" for j
      using that ih False by (cases j) (auto simp: add.assoc)
    moreover have "col \<le> cu + utf16_len (take k (c # s))" if "?k = i + k" "k < length (c # s)" for k
      using that ih ge by (cases k) (auto simp: add.assoc)
    ultimately show ?thesis using False by simp
  qed
qed

lemma scan_left_bounds: "scan_left p s k \<le> k"
  by (induction k) auto

lemma scan_left_word: "scan_left p s k \<le> j \<Longrightarrow> j < k \<Longrightarrow> p (s ! j)"
  by (induction k) (auto split: if_splits simp: less_Suc_eq)

lemma scan_left_maximal: "0 < scan_left p s k \<Longrightarrow> \<not> p (s ! (scan_left p s k - 1))"
  by (induction k) auto

lemma scan_left_numeral:
  "scan_left p s (numeral v) =
     (if p (s ! pred_numeral v) then scan_left p s (pred_numeral v) else numeral v)"
  by (simp add: numeral_eq_Suc)

lemma scan_right_step: "k < length s \<Longrightarrow> p (s ! k) \<Longrightarrow> scan_right p s k = scan_right p s (Suc k)"
  using scan_right.simps [of p s k] by argo

lemma scan_right_stop: "\<not> (k < length s \<and> p (s ! k)) \<Longrightarrow> scan_right p s k = k"
  using scan_right.simps [of p s k] by argo

text \<open>The right end of the scan: it is at or after the start, everything between is a word
  character, and it is the end of the text or no word character.\<close>

lemma scan_right_props:
  "k \<le> scan_right p s k \<and> (k \<le> length s \<longrightarrow> scan_right p s k \<le> length s)
   \<and> (\<forall>j. k \<le> j \<and> j < scan_right p s k \<longrightarrow> p (s ! j))
   \<and> (scan_right p s k < length s \<longrightarrow> \<not> p (s ! scan_right p s k))"
proof (induction p s k rule: scan_right.induct)
  case (1 p s k)
  show ?case
  proof (cases "k < length s \<and> p (s ! k)")
    case True
    note ih = "1.IH" [OF True]
    have eq: "scan_right p s k = scan_right p s (Suc k)" using True scan_right_step by blast
    have "p (s ! j)" if "k \<le> j" "j < scan_right p s (Suc k)" for j
      using that ih True by (cases "j = k") auto
    then show ?thesis unfolding eq using ih True by auto
  next
    case False
    then have "scan_right p s k = k" by (rule scan_right_stop)
    with False show ?thesis by auto
  qed
qed

text \<open>The word at a column: the run of word characters around the cursor's character index,
  with neither neighbour a word character.\<close>

lemma word_at_utf16_col_eq:
  fixes U s n
  defines "p \<equiv> is_id_char U" and "k \<equiv> utf16_char_index s 0 n 0"
  shows "\<exists>a b. a \<le> k \<and> k \<le> b \<and> b \<le> length s \<and> word_at_utf16_col U s n = take (b - a) (drop a s)
    \<and> (\<forall>j. a \<le> j \<and> j < b \<longrightarrow> p (s ! j)) \<and> (0 < a \<longrightarrow> \<not> p (s ! (a - 1)))
    \<and> (b < length s \<longrightarrow> \<not> p (s ! b))"
proof -
  let ?a = "scan_left p s k" and ?b = "scan_right p s k"
  have p: "(\<lambda>c. is_alphanumeric U c \<or> c = ch CHR ''_'') = p"
    by (simp add: p_def is_id_char_def fun_eq_iff)
  have k: "k \<le> length s" using utf16_char_index_bounds [of 0 s 0 n] by (simp add: k_def)
  have "word_at_utf16_col U s n = take (?b - ?a) (drop ?a s)"
    unfolding word_at_utf16_col_def Let_def k_def [symmetric] p ..
  moreover have "p (s ! j)" if "?a \<le> j" "j < ?b" for j
    using that scan_left_word [of p s k j] scan_right_props [of k p s] by (cases "j < k") auto
  ultimately show ?thesis
    using scan_left_bounds [of p s k] scan_right_props [of k p s] k scan_left_maximal [of p s k]
    by (intro exI [of _ ?a] exI [of _ ?b]) simp
qed

section \<open>Properties\<close>

text \<open>The word at an LSP position is the maximal run of identifier characters around the
  cursor: \<open>k\<close> is the first character index at or after the UTF-16 column, the word reaches from
  \<open>a\<close> to \<open>b\<close> around it, all of it identifier characters, and it can be extended on neither
  side.\<close>

theorem word_at_utf16_col_maximal:
  "\<exists>k a b. a \<le> k \<and> k \<le> b \<and> b \<le> length s
    \<and> (\<forall>j<k. utf16_len (take j s) < n) \<and> (k < length s \<longrightarrow> n \<le> utf16_len (take k s))
    \<and> word_at_utf16_col U s n = take (b - a) (drop a s)
    \<and> (\<forall>j. a \<le> j \<and> j < b \<longrightarrow> is_id_char U (s ! j))
    \<and> (0 < a \<longrightarrow> \<not> is_id_char U (s ! (a - 1)))
    \<and> (b < length s \<longrightarrow> \<not> is_id_char U (s ! b))"
proof -
  let ?k = "utf16_char_index s 0 n 0"
  have "(\<forall>j<?k. utf16_len (take j s) < n) \<and> (?k < length s \<longrightarrow> n \<le> utf16_len (take ?k s))"
    using utf16_char_index_least [of 0 s 0 n] by simp
  with word_at_utf16_col_eq [of s n U] show ?thesis by blast
qed

theorem word_at_utf16_col_maximal_witness:
  "word_at_utf16_col ascii_ucd (lit ''val foo = 1'') 5 = lit ''foo''
   \<and> (\<exists>k a b. a \<le> k \<and> k \<le> b \<and> b \<le> length (lit ''val foo = 1'')
       \<and> word_at_utf16_col ascii_ucd (lit ''val foo = 1'') 5 = take (b - a) (drop a (lit ''val foo = 1'')))"
proof (rule conjI)
  let ?p = "\<lambda>c. is_alphanumeric ascii_ucd c \<or> c = ch CHR ''_''"
  have p: "?p (ch CHR ''o'')" "?p (ch CHR ''f'')" "\<not> ?p (ch CHR '' '')"
    by (simp_all add: ascii_class_defs)
  then have "scan_left ?p (lit ''val foo = 1'') 5 = 4" "scan_right ?p (lit ''val foo = 1'') 5 = 7"
    by (simp_all add: scan_left_numeral scan_right_step scan_right_stop)
  moreover have "utf16_char_index (lit ''val foo = 1'') 0 5 0 = 5" by (simp add: len_utf16_def)
  ultimately show "word_at_utf16_col ascii_ucd (lit ''val foo = 1'') 5 = lit ''foo''"
    by (simp only: word_at_utf16_col_def Let_def) simp
  show "\<exists>k a b. a \<le> k \<and> k \<le> b \<and> b \<le> length (lit ''val foo = 1'')
      \<and> word_at_utf16_col ascii_ucd (lit ''val foo = 1'') 5 = take (b - a) (drop a (lit ''val foo = 1''))"
    using word_at_utf16_col_maximal [of "lit ''val foo = 1''" 5 ascii_ucd] by blast
qed

end
