(* ===== verification/Text_Utils.thy ===== *)
theory Text_Utils
  imports Str_Ext
begin

text \<open>
  The text helpers of \<^verbatim>\<open>src/text_utils.rs\<close>: case-insensitive matching, whole-word
  search and replacement (the core of highlight, references and rename), keyword tables, and
  the column conversions between tree-sitter's UTF-8 bytes and LSP's UTF-16 units.

  Whole-word search is related to a reference definition by tokens: a text is cut into maximal
  runs of identifier characters and single other characters, and a whole-word occurrence of an
  identifier is a token equal to it.
\<close>

section \<open>Case-insensitive matching\<close>

text \<open>\<open>bytes.windows(n)\<close> for a positive \<open>n\<close>.\<close>

definition byte_windows :: "nat \<Rightarrow> nat list \<Rightarrow> nat list list" where
  "byte_windows n bs = map (\<lambda>i. take n (drop i bs)) [0..<length bs + 1 - n]"

definition lower_bytes_match :: "nat list \<Rightarrow> nat list \<Rightarrow> bool" where
  "lower_bytes_match as bs = list_all (\<lambda>(a, b). to_ascii_lower a = b) (zip as bs)"

definition contains_ignore_ascii_case :: "ucd \<Rightarrow> str \<Rightarrow> str \<Rightarrow> bool" where
  "contains_ignore_ascii_case U haystack needle =
     (if needle = [] then True
      else if is_ascii_str haystack then
        (let nb = utf8_len needle
         in if nb > utf8_len haystack then False
            else list_ex (\<lambda>w. lower_bytes_match w (utf8_bytes needle))
                   (byte_windows nb (utf8_bytes haystack)))
      else contains_sub (to_lowercase U haystack) needle)"

definition starts_with_ignore_ascii_case :: "ucd \<Rightarrow> str \<Rightarrow> str \<Rightarrow> bool" where
  "starts_with_ignore_ascii_case U haystack p =
     (if p = [] then True
      else if is_ascii_str haystack then
        (let nb = utf8_len p
         in if nb > utf8_len haystack then False
            else lower_bytes_match (take nb (utf8_bytes haystack)) (utf8_bytes p))
      else starts_with (to_lowercase U haystack) p)"

section \<open>Whole words\<close>

text \<open>
  The iterator \<open>word_byte_offsets(line, word)\<close>, run to its end: \<open>pre\<close> is the part of the
  line already searched. The search resumes behind each match, whole word or not. An empty
  word makes the iterator run for ever: the result is \<open>None\<close> then.
\<close>

partial_function (option) word_offsets_from :: "ucd \<Rightarrow> str \<Rightarrow> str \<Rightarrow> str \<Rightarrow> nat list option" where
  "word_offsets_from U word pre rest =
     (case find_sub rest word of
        None \<Rightarrow> Some []
      | Some rel \<Rightarrow>
          (let before = pre @ take rel rest;
               after = drop (rel + length word) rest;
               before_ok = (before = [] \<or> \<not> is_id_char U (last before));
               after_ok = (after = [] \<or> \<not> is_id_char U (hd after))
           in Option.bind (word_offsets_from U word (before @ word) after)
                (\<lambda>os. Some (if before_ok \<and> after_ok then utf8_len before # os else os))))"

definition word_byte_offsets :: "ucd \<Rightarrow> str \<Rightarrow> str \<Rightarrow> nat list option" where
  "word_byte_offsets U line word = word_offsets_from U word [] line"

definition utf16_column :: "str \<Rightarrow> nat" where
  "utf16_column text = utf16_len text"

text \<open>The inner loop of \<open>whole_word_replace_file\<close> from index \<open>j\<close>; \<open>prev\<close> is
  \<open>chars[j - 1]\<close>.\<close>

function replace_from :: "ucd \<Rightarrow> str \<Rightarrow> str \<Rightarrow> rchar option \<Rightarrow> str \<Rightarrow> str" where
  "replace_from U word replacement prev [] = []"
| "replace_from U word replacement prev (c # cs) =
     (let before_ok = (case prev of None \<Rightarrow> True | Some p \<Rightarrow> \<not> is_id_char U p);
          after = drop (length word) (c # cs);
          after_ok = (after = [] \<or> \<not> is_id_char U (hd after))
      in if word \<noteq> [] \<and> starts_with (c # cs) word \<and> before_ok \<and> after_ok
         then replacement @ replace_from U word replacement (Some (last word)) after
         else c # replace_from U word replacement (Some c) cs)"
  by pat_completeness auto
termination
  by (relation "measure (\<lambda>(U, word, replacement, prev, cs). length cs)") auto

definition replace_line :: "ucd \<Rightarrow> str \<Rightarrow> str \<Rightarrow> str \<Rightarrow> str" where
  "replace_line U word replacement line =
     (if starts_with (trim_start line) (lit ''import '')
         \<or> starts_with (trim_start line) (lit ''package '')
      then line
      else replace_from U word replacement None line)"

definition whole_word_replace_file :: "ucd \<Rightarrow> str list \<Rightarrow> str \<Rightarrow> str \<Rightarrow> str" where
  "whole_word_replace_file U lines word replacement =
     (if word = [] then join [10] lines
      else join [10] (map (replace_line U word replacement) lines))"

section \<open>Keyword tables\<close>

definition KOTLIN_KEYWORDS :: "str list" where
  "KOTLIN_KEYWORDS = map lit
   [''abstract'', ''actual'', ''annotation'', ''as'', ''break'', ''by'', ''catch'',
    ''class'', ''companion'', ''const'', ''constructor'', ''continue'', ''crossinline'',
    ''data'', ''delegate'', ''do'', ''dynamic'', ''else'', ''enum'', ''expect'',
    ''external'', ''false'', ''field'', ''file'', ''final'', ''finally'', ''for'', ''fun'',
    ''get'', ''if'', ''import'', ''in'', ''infix'', ''init'', ''inline'', ''inner'',
    ''interface'', ''internal'', ''is'', ''it'', ''lateinit'', ''noinline'', ''null'',
    ''object'', ''open'', ''operator'', ''out'', ''override'', ''package'', ''param'',
    ''private'', ''property'', ''protected'', ''public'', ''receiver'', ''reified'',
    ''return'', ''sealed'', ''set'', ''setparam'', ''super'', ''suspend'', ''tailrec'',
    ''this'', ''throw'', ''true'', ''try'', ''typealias'', ''typeof'', ''val'', ''value'',
    ''var'', ''vararg'', ''when'', ''where'', ''while'']"

definition KOTLIN_BUILTIN_TYPES :: "str list" where
  "KOTLIN_BUILTIN_TYPES = map lit
   [''Any'', ''Array'', ''Boolean'', ''BooleanArray'', ''Byte'', ''ByteArray'', ''Char'',
    ''CharArray'', ''CharSequence'', ''Cloneable'', ''Comparable'', ''Double'',
    ''DoubleArray'', ''Enum'', ''Float'', ''FloatArray'', ''Int'', ''IntArray'',
    ''Iterable'', ''Iterator'', ''List'', ''ListIterator'', ''Long'', ''LongArray'',
    ''Map'', ''MutableCollection'', ''MutableIterable'', ''MutableIterator'',
    ''MutableList'', ''MutableListIterator'', ''MutableMap'', ''MutableSet'', ''Nothing'',
    ''Number'', ''Pair'', ''Set'', ''Short'', ''ShortArray'', ''String'', ''Throwable'',
    ''Triple'', ''Unit'', ''AutoCloseable'', ''Class'', ''Error'', ''Exception'',
    ''IllegalArgumentException'', ''IllegalStateException'', ''IndexOutOfBoundsException'',
    ''NullPointerException'', ''Object'', ''RuntimeException'', ''Runnable'',
    ''StringBuilder'', ''Thread'', ''UnsupportedOperationException'']"

definition JAVA_EXTRA_KEYWORDS :: "str list" where
  "JAVA_EXTRA_KEYWORDS = map lit
   [''assert'', ''boolean'', ''byte'', ''case'', ''char'', ''default'', ''double'',
    ''extends'', ''float'', ''goto'', ''implements'', ''instanceof'', ''int'', ''long'',
    ''native'', ''new'', ''short'', ''static'', ''strictfp'', ''switch'', ''synchronized'',
    ''throws'', ''transient'', ''void'', ''volatile'']"

text \<open>\<open>slice::binary_search\<close>: halve the window while it holds more than one element, then
  compare.\<close>

function bisect :: "'a::linorder list \<Rightarrow> 'a \<Rightarrow> nat \<Rightarrow> nat \<Rightarrow> nat" where
  "bisect xs x base sz =
     (if sz \<le> 1 then base
      else let half = sz div 2; mid = base + half
           in bisect xs x (if xs ! mid > x then base else mid) (sz - half))"
  by pat_completeness auto
termination
  by (relation "measure (\<lambda>(xs, x, base, sz). sz)") auto

declare bisect.simps [simp del]

definition binary_search :: "'a::linorder list \<Rightarrow> 'a \<Rightarrow> nat option" where
  "binary_search xs x =
     (if xs = [] then None
      else let i = bisect xs x 0 (length xs) in if xs ! i = x then Some i else None)"

definition is_keyword_for_file :: "str \<Rightarrow> str \<Rightarrow> bool" where
  "is_keyword_for_file name file_path =
     (if binary_search KOTLIN_KEYWORDS name \<noteq> None then True
      else ends_with file_path (lit ''.java'') \<and> binary_search JAVA_EXTRA_KEYWORDS name \<noteq> None)"

section \<open>Declarations\<close>

definition REFERENCE_DECLARATION_KEYWORDS :: "str list" where
  "REFERENCE_DECLARATION_KEYWORDS = map lit
   [''class '', ''interface '', ''object '', ''fun '', ''val '', ''var '', ''typealias '',
    ''enum class '', ''enum '', ''struct '', ''protocol '', ''func '', ''let '',
    ''extension '']"

text \<open>The byte behind the match is an ASCII identifier byte; the first byte of a non-ASCII
  character is not.\<close>

definition is_declaration_of :: "str \<Rightarrow> str \<Rightarrow> bool" where
  "is_declaration_of content name =
     list_ex (\<lambda>kw.
       let p = kw @ name
       in case find_sub content p of
            None \<Rightarrow> False
          | Some idx \<Rightarrow>
              (case drop (idx + length p) content of
                 [] \<Rightarrow> True
               | c # _ \<Rightarrow> \<not> is_ascii_alphanumeric c \<and> c \<noteq> ch CHR ''_''))
     REFERENCE_DECLARATION_KEYWORDS"


section \<open>Lemmas on case-insensitive matching\<close>

lemma utf8_ascii [str_simps]: "is_ascii_str s \<Longrightarrow> utf8_bytes s = s \<and> utf8_len s = length s"
  by (induction s)
     (auto simp: utf8_bytes_def encode_char_def is_ascii_str_def is_ascii_char_def len_utf8_def)

lemma encode_char_non_ascii: "\<not> is_ascii_char c \<Longrightarrow> \<exists>b\<in>set (encode_char c). 128 \<le> b"
  by (auto simp: encode_char_def is_ascii_char_def)

lemma utf8_bytes_non_ascii: "\<not> is_ascii_str s \<Longrightarrow> \<exists>b\<in>set (utf8_bytes s). 128 \<le> b"
  using encode_char_non_ascii by (fastforce simp: utf8_bytes_def is_ascii_str_def list_all_iff)

lemma to_ascii_lower_ascii: "is_ascii_char c \<Longrightarrow> to_ascii_lower c < 128"
  by (simp add: to_ascii_lower_def is_ascii_char_def is_ascii_upper_def)

lemma map_lower_ascii: "is_ascii_str s \<Longrightarrow> c \<in> set (map to_ascii_lower s) \<Longrightarrow> c < 128"
  using to_ascii_lower_ascii by (auto simp: is_ascii_str_def list_all_iff)

lemma lower_bytes_match_iff:
  "length as = length bs \<Longrightarrow> lower_bytes_match as bs \<longleftrightarrow> map to_ascii_lower as = bs"
  by (induction as bs rule: list_induct2) (auto simp: lower_bytes_match_def)

lemma windows_match_iff:
  assumes "bs \<noteq> []"
  shows "list_ex (\<lambda>w. lower_bytes_match w bs) (byte_windows (length bs) hs)
    \<longleftrightarrow> (\<exists>i. i + length bs \<le> length hs
          \<and> starts_with (drop i (map to_ascii_lower hs)) bs)"
proof -
  have "lower_bytes_match (take (length bs) (drop i hs)) bs
      \<longleftrightarrow> starts_with (drop i (map to_ascii_lower hs)) bs"
    if "i + length bs \<le> length hs" for i
    using that by (subst lower_bytes_match_iff) (auto simp: starts_with_def take_map drop_map)
  moreover have "i < length hs + 1 - length bs \<longleftrightarrow> i + length bs \<le> length hs" for i
    using assms by (cases bs) auto
  ultimately show ?thesis
    unfolding byte_windows_def list_ex_iff set_map set_upt by (auto 0 3)
qed

lemma starts_with_length: "starts_with s p \<Longrightarrow> length p \<le> length s"
  by (auto simp: starts_with_iff)

lemma contains_sub_ex_index:
  assumes "p \<noteq> []"
  shows "contains_sub s p \<longleftrightarrow> (\<exists>i. i + length p \<le> length s \<and> starts_with (drop i s) p)"
proof
  assume "contains_sub s p"
  then obtain a b where "s = a @ p @ b" by (auto simp: contains_sub_iff)
  then show "\<exists>i. i + length p \<le> length s \<and> starts_with (drop i s) p"
    by (intro exI [of _ "length a"]) (simp add: starts_with_append)
next
  assume "\<exists>i. i + length p \<le> length s \<and> starts_with (drop i s) p"
  then show "contains_sub s p"
    unfolding contains_sub_def using find_sub_None by blast
qed

lemma not_contains_foreign: "c \<in> set p \<Longrightarrow> c \<notin> set s \<Longrightarrow> \<not> contains_sub s p"
  by (auto simp: contains_sub_iff)

lemma contains_ignore_ascii_eq:
  assumes asc: "is_ascii_str haystack" and ne: "needle \<noteq> []"
  shows "contains_ignore_ascii_case U haystack needle
    \<longleftrightarrow> contains_sub (map to_ascii_lower haystack) (utf8_bytes needle)"
proof -
  let ?low = "map to_ascii_lower haystack" and ?nb = "utf8_bytes needle"
  have nb: "?nb \<noteq> []"
    using ne by (cases needle) (auto simp: utf8_bytes_def encode_char_def)
  have "contains_ignore_ascii_case U haystack needle
      \<longleftrightarrow> (\<exists>i. i + length ?nb \<le> length haystack \<and> starts_with (drop i ?low) ?nb)"
    using asc ne windows_match_iff [OF nb, of haystack]
    by (auto simp: contains_ignore_ascii_case_def Let_def utf8_ascii [OF asc] length_utf8_bytes [symmetric])
  also have "\<dots> \<longleftrightarrow> contains_sub ?low ?nb"
    by (simp add: contains_sub_ex_index [OF nb])
  finally show ?thesis .
qed

lemma ascii_contains_needle:
  assumes asc: "is_ascii_str haystack"
  shows "contains_sub (map to_ascii_lower haystack) (utf8_bytes needle)
    \<longleftrightarrow> contains_sub (map to_ascii_lower haystack) needle"
proof (cases "is_ascii_str needle")
  case True
  then show ?thesis by (simp add: utf8_ascii)
next
  case False
  then obtain b where b: "b \<in> set (utf8_bytes needle)" "128 \<le> b"
    using utf8_bytes_non_ascii by blast
  from False obtain c where c: "c \<in> set needle" "128 \<le> c"
    by (auto simp: is_ascii_str_def is_ascii_char_def list_all_iff)
  show ?thesis
    using not_contains_foreign [OF b(1)] not_contains_foreign [OF c(1)]
      map_lower_ascii [OF asc] b(2) c(2) by (meson not_less)
qed

section \<open>Lemmas on whole-word search\<close>

definition ident_word :: "ucd \<Rightarrow> str \<Rightarrow> bool" where
  "ident_word U w \<longleftrightarrow> w \<noteq> [] \<and> list_all (is_id_char U) w"

text \<open>Position \<open>i\<close> of a text holds the word, with no identifier character on either side.\<close>

definition whole_word_at :: "ucd \<Rightarrow> str \<Rightarrow> str \<Rightarrow> nat \<Rightarrow> bool" where
  "whole_word_at U s w i \<longleftrightarrow> starts_with (drop i s) w
     \<and> (i = 0 \<or> \<not> is_id_char U (s ! (i - 1)))
     \<and> (length s \<le> i + length w \<or> \<not> is_id_char U (s ! (i + length w)))"

definition whole_words_between :: "ucd \<Rightarrow> str \<Rightarrow> str \<Rightarrow> nat \<Rightarrow> nat \<Rightarrow> nat list" where
  "whole_words_between U s w a b = filter (whole_word_at U s w) [a..<b]"

lemma whole_words_between_none:
  "(\<And>i. a \<le> i \<Longrightarrow> i < b \<Longrightarrow> \<not> whole_word_at U s w i) \<Longrightarrow> whole_words_between U s w a b = []"
  by (simp add: whole_words_between_def filter_empty_conv)

lemma whole_words_between_split:
  "a \<le> m \<Longrightarrow> m \<le> b \<Longrightarrow>
    whole_words_between U s w a b = whole_words_between U s w a m @ whole_words_between U s w m b"
  unfolding whole_words_between_def filter_append [symmetric]
  by (metis le_Suc_ex upt_add_eq_append)

lemma whole_words_between_one:
  "whole_words_between U s w a (Suc a) = (if whole_word_at U s w a then [a] else [])"
  by (simp add: whole_words_between_def)

text \<open>Inside an occurrence of an identifier no whole word starts: an identifier character stands
  before it.\<close>

lemma no_whole_word_inside:
  assumes occ: "starts_with (drop p s) w" and id: "ident_word U w"
    and i: "p < i" "i < p + length w"
  shows "\<not> whole_word_at U s w' i"
proof -
  obtain t where t: "drop p s = w @ t" using occ by (auto simp: starts_with_iff)
  have len: "p + length w \<le> length s"
    using arg_cong [OF t, of length] id i by (simp add: ident_word_def)
  have "s ! (i - 1) = drop p s ! (i - 1 - p)" using i len by simp
  also have "\<dots> = w ! (i - 1 - p)"
  proof -
    have "i - 1 - p < length w" using i by arith
    then show ?thesis by (simp add: t nth_append)
  qed
  finally have "is_id_char U (s ! (i - 1))"
    using id i by (simp add: ident_word_def list_all_length)
  then show ?thesis using i by (simp add: whole_word_at_def)
qed

lemma word_offsets_from_None:
  "find_sub rest word = None \<Longrightarrow> word_offsets_from U word pre rest = Some []"
  by (subst word_offsets_from.simps) simp

lemma word_offsets_from_Some:
  "find_sub rest word = Some rel \<Longrightarrow> word_offsets_from U word pre rest =
     Option.bind (word_offsets_from U word ((pre @ take rel rest) @ word) (drop (rel + length word) rest))
       (\<lambda>os. Some (if (pre @ take rel rest = [] \<or> \<not> is_id_char U (last (pre @ take rel rest)))
            \<and> (drop (rel + length word) rest = [] \<or> \<not> is_id_char U (hd (drop (rel + length word) rest)))
          then utf8_len (pre @ take rel rest) # os else os))"
  by (subst word_offsets_from.simps) (simp only: option.simps Let_def)

text \<open>The guards of the iterator at a match are those of \<open>whole_word_at\<close>.\<close>

lemma match_guards:
  "whole_word_at U (before @ w @ after) w (length before)
    \<longleftrightarrow> (before = [] \<or> \<not> is_id_char U (last before)) \<and> (after = [] \<or> \<not> is_id_char U (hd after))"
proof -
  have "(before @ w @ after) ! (length before - 1) = last before" if "before \<noteq> []"
    using that by (simp add: nth_append last_conv_nth)
  moreover have "(before @ w @ after) ! (length before + length w) = hd after" if "after \<noteq> []"
    using that by (simp add: nth_append hd_conv_nth)
  moreover have "length (before @ w @ after) \<le> length before + length w \<longleftrightarrow> after = []" by simp
  ultimately show ?thesis
    unfolding whole_word_at_def
    by (auto simp: starts_with_append)
qed

lemma word_offsets_from_eq:
  assumes id: "ident_word U word"
  shows "word_offsets_from U word pre rest =
    Some (map (\<lambda>i. utf8_len (take i (pre @ rest)))
      (whole_words_between U (pre @ rest) word (length pre) (Suc (length (pre @ rest)))))"
proof (induction "length rest" arbitrary: pre rest rule: less_induct)
  case less
  let ?s = "pre @ rest" and ?n = "Suc (length (pre @ rest))"
  have shift: "starts_with (drop i ?s) word \<longleftrightarrow> starts_with (drop (i - length pre) rest) word"
    if "length pre \<le> i" for i
    using that by simp
  show ?case
  proof (cases "find_sub rest word")
    case None
    then have "\<not> whole_word_at U ?s word i" if "length pre \<le> i" for i
      using find_sub_None [OF None, of "i - length pre"] shift [OF that] by (simp add: whole_word_at_def)
    then show ?thesis
      by (simp add: word_offsets_from_None [OF None] whole_words_between_none)
  next
    case (Some rel)
    define before where "before = pre @ take rel rest"
    define after where "after = drop (rel + length word) rest"
    note occ = find_sub_Some [OF Some]
    from occ obtain t where "drop rel rest = word @ t" by (auto simp: starts_with_iff)
    then have rest: "drop rel rest = word @ after"
      by (metis after_def add.commute append_eq_conv_conj drop_drop)
    then have s: "?s = before @ word @ after"
      unfolding before_def by (metis append.assoc append_take_drop_id)
    let ?p = "length before" and ?q = "length before + length word"
    have p: "?p = length pre + rel" using occ by (simp add: before_def)
    have len: "length after < length rest"
      using arg_cong [OF rest, of length] id occ by (cases word) (auto simp: ident_word_def)
    have pq: "Suc ?p \<le> ?q" "?q \<le> ?n"
      using id arg_cong [OF s, of length] by (auto simp: ident_word_def Suc_le_eq)
    have "whole_words_between U ?s word (length pre) ?p = []"
    proof (rule whole_words_between_none)
      fix i assume "length pre \<le> i" "i < ?p"
      then show "\<not> whole_word_at U ?s word i"
        using occ p shift by (auto simp: whole_word_at_def)
    qed
    moreover have "whole_words_between U ?s word (Suc ?p) ?q = []"
    proof (rule whole_words_between_none)
      fix i assume "Suc ?p \<le> i" "i < ?q"
      then show "\<not> whole_word_at U ?s word i"
        by (intro no_whole_word_inside [OF _ id, of ?p]) (simp_all add: s starts_with_append)
    qed
    ultimately have split: "whole_words_between U ?s word (length pre) ?n =
        (if whole_word_at U ?s word ?p then [?p] else []) @ whole_words_between U ?s word ?q ?n"
      using p pq whole_words_between_split [of "length pre" ?p ?n U ?s word]
        whole_words_between_split [of ?p "Suc ?p" ?n U ?s word]
        whole_words_between_split [of "Suc ?p" ?q ?n U ?s word]
      by (simp add: whole_words_between_one)
    have ih: "word_offsets_from U word (before @ word) after =
        Some (map (\<lambda>i. utf8_len (take i ?s)) (whole_words_between U ?s word ?q ?n))"
      using less.hyps [OF len, of "before @ word"] by (simp add: s)
    have "utf8_len (take ?p ?s) = utf8_len before" by (simp add: s)
    moreover have "whole_word_at U ?s word ?p \<longleftrightarrow>
        (before = [] \<or> \<not> is_id_char U (last before)) \<and> (after = [] \<or> \<not> is_id_char U (hd after))"
      unfolding s by (rule match_guards)
    ultimately show ?thesis
      unfolding split word_offsets_from_Some [OF Some] before_def [symmetric] after_def [symmetric] ih
      by simp
  qed
qed

section \<open>Lemmas on whole-word replacement\<close>

text \<open>The reference: a text is cut into maximal identifiers and single other characters.\<close>

function tokens :: "ucd \<Rightarrow> str \<Rightarrow> str list" where
  "tokens U [] = []"
| "tokens U (c # cs) =
     (if is_id_char U c
      then (c # takeWhile (is_id_char U) cs) # tokens U (dropWhile (is_id_char U) cs)
      else [c] # tokens U cs)"
  by pat_completeness auto
termination
  by (relation "measure (\<lambda>(U, s). length s)") (auto simp: le_imp_less_Suc length_dropWhile_le)

definition subst_token :: "str \<Rightarrow> str \<Rightarrow> str \<Rightarrow> str" where
  "subst_token w v t = (if t = w then v else t)"

definition replace_tokens :: "ucd \<Rightarrow> str \<Rightarrow> str \<Rightarrow> str \<Rightarrow> str" where
  "replace_tokens U w v s = concat (map (subst_token w v) (tokens U s))"

lemma concat_tokens: "concat (tokens U s) = s"
  by (induction U s rule: tokens.induct) auto

lemma ident_word_Cons: "ident_word U w \<Longrightarrow> \<exists>c cs. w = c # cs \<and> is_id_char U c"
  by (cases w) (auto simp: ident_word_def)

lemma replace_tokens_nonid:
  assumes "ident_word U w" and "\<not> is_id_char U c"
  shows "replace_tokens U w v (c # cs) = c # replace_tokens U w v cs"
  using assms by (auto simp: replace_tokens_def subst_token_def ident_word_def)

text \<open>At the start of a run of identifier characters the word stands whole exactly where it is
  the run.\<close>

lemma run_match:
  assumes "ident_word U w" and "is_id_char U c"
  shows "(starts_with (c # cs) w \<and> (drop (length w) (c # cs) = []
            \<or> \<not> is_id_char U (hd (drop (length w) (c # cs)))))
    \<longleftrightarrow> w = c # takeWhile (is_id_char U) cs"
    (is "?l \<longleftrightarrow> ?r")
proof
  assume l: ?l
  then obtain t where t: "c # cs = w @ t" by (auto simp: starts_with_iff)
  with l have "t = [] \<or> \<not> is_id_char U (hd t)" by simp
  then have "takeWhile (is_id_char U) t = []" by (cases t) auto
  then have "takeWhile (is_id_char U) (w @ t) = w"
    using assms(1) by (auto simp: ident_word_def list_all_iff takeWhile_append2)
  then show ?r using assms(2) t by (metis takeWhile.simps(2))
next
  assume r: ?r
  then have split: "c # cs = w @ dropWhile (is_id_char U) cs" by simp
  have "dropWhile (is_id_char U) cs = [] \<or> \<not> is_id_char U (hd (dropWhile (is_id_char U) cs))"
    using hd_dropWhile by blast
  then show ?l unfolding split by (simp add: starts_with_append)
qed

lemma replace_from_step:
  "replace_from U w v prev (c # cs) =
     (if w \<noteq> [] \<and> starts_with (c # cs) w
         \<and> (case prev of None \<Rightarrow> True | Some p \<Rightarrow> \<not> is_id_char U p)
         \<and> (drop (length w) (c # cs) = [] \<or> \<not> is_id_char U (hd (drop (length w) (c # cs))))
      then v @ replace_from U w v (Some (last w)) (drop (length w) (c # cs))
      else c # replace_from U w v (Some c) cs)"
  by (simp only: replace_from.simps Let_def)

declare replace_from.simps(2) [simp del]

lemma replace_from_eq_aux:
  assumes id: "ident_word U w"
  shows "(prev = None \<or> \<not> is_id_char U (the prev) \<longrightarrow>
      replace_from U w v prev cs = replace_tokens U w v cs)
    \<and> (prev \<noteq> None \<and> is_id_char U (the prev) \<longrightarrow>
      replace_from U w v prev cs = takeWhile (is_id_char U) cs
        @ replace_tokens U w v (dropWhile (is_id_char U) cs))"
proof (induction "length cs" arbitrary: prev cs rule: less_induct)
  case less
  show ?case
  proof (cases cs)
    case Nil
    then show ?thesis by (simp add: replace_tokens_def)
  next
    case (Cons c ds)
    have ih: "(p = None \<or> \<not> is_id_char U (the p) \<longrightarrow>
          replace_from U w v p xs = replace_tokens U w v xs)
        \<and> (p \<noteq> None \<and> is_id_char U (the p) \<longrightarrow>
          replace_from U w v p xs = takeWhile (is_id_char U) xs
            @ replace_tokens U w v (dropWhile (is_id_char U) xs))"
      if "length xs \<le> length ds" for p xs
      using less.hyps [of xs p] that Cons by simp
    have copy: "c # replace_from U w v (Some c) ds =
        (if is_id_char U c then takeWhile (is_id_char U) cs
            @ replace_tokens U w v (dropWhile (is_id_char U) cs)
         else replace_tokens U w v cs)"
      using ih [of ds "Some c"] replace_tokens_nonid [OF id] by (simp add: Cons)
    have fresh: "replace_from U w v prev cs = replace_tokens U w v cs"
      if prev: "prev = None \<or> \<not> is_id_char U (the prev)"
    proof -
      have before: "case prev of None \<Rightarrow> True | Some p \<Rightarrow> \<not> is_id_char U p"
        using prev by (auto split: option.splits)
      show ?thesis
      proof (cases "is_id_char U c \<and> w = c # takeWhile (is_id_char U) ds")
        case True
        have rest: "drop (length w) (c # ds) = dropWhile (is_id_char U) ds"
          using True by (metis append_eq_conv_conj append_Cons takeWhile_dropWhile_id)
        have last: "is_id_char U (last w)" using id by (auto simp: ident_word_def list_all_iff)
        have "takeWhile (is_id_char U) (dropWhile (is_id_char U) ds) = []"
          using hd_dropWhile [of "is_id_char U" ds] by (auto simp: takeWhile_eq_Nil_iff)
        then have "replace_from U w v (Some (last w)) (dropWhile (is_id_char U) ds)
            = replace_tokens U w v (dropWhile (is_id_char U) ds)"
          using ih [OF length_dropWhile_le, of "Some (last w)" "is_id_char U"] last
          by (simp add: dropWhile_eq_self_iff takeWhile_eq_Nil_iff)
        moreover have "starts_with (c # ds) w \<and> (drop (length w) (c # ds) = []
            \<or> \<not> is_id_char U (hd (drop (length w) (c # ds))))"
          using run_match [OF id, of c ds] True by blast
        moreover have "w \<noteq> []" using id by (simp add: ident_word_def)
        ultimately have "replace_from U w v prev cs
            = v @ replace_tokens U w v (dropWhile (is_id_char U) ds)"
          unfolding Cons replace_from_step using before rest by simp
        moreover have "replace_tokens U w v cs
            = v @ replace_tokens U w v (dropWhile (is_id_char U) ds)"
          using True by (simp add: Cons replace_tokens_def subst_token_def)
        ultimately show ?thesis by simp
      next
        case False
        have no: "\<not> (starts_with (c # ds) w \<and> (drop (length w) (c # ds) = []
            \<or> \<not> is_id_char U (hd (drop (length w) (c # ds)))))"
        proof (cases "is_id_char U c")
          case True
          then show ?thesis using run_match [OF id True, of ds] False by simp
        next
          case False
          then show ?thesis using ident_word_Cons [OF id] by (auto simp: starts_with_iff)
        qed
        then have "replace_from U w v prev cs = c # replace_from U w v (Some c) ds"
          unfolding Cons replace_from_step by argo
        also have "\<dots> = replace_tokens U w v cs"
          using False unfolding copy
          by (auto simp: Cons replace_tokens_def subst_token_def)
        finally show ?thesis .
      qed
    qed
    moreover have "replace_from U w v prev cs = takeWhile (is_id_char U) cs
        @ replace_tokens U w v (dropWhile (is_id_char U) cs)"
      if prev: "prev \<noteq> None" "is_id_char U (the prev)"
    proof -
      have "replace_from U w v prev cs = c # replace_from U w v (Some c) ds"
        unfolding Cons replace_from_step using prev by auto
      then show ?thesis unfolding copy by (simp add: Cons)
    qed
    ultimately show ?thesis by blast
  qed
qed

lemma replace_from_eq_tokens:
  "ident_word U w \<Longrightarrow> replace_from U w v None cs = replace_tokens U w v cs"
  using replace_from_eq_aux [of U w None v cs] by simp

lemma tokens_run:
  assumes "ident_word U t" and "rest = [] \<or> \<not> is_id_char U (hd rest)"
  shows "tokens U (t @ rest) = t # tokens U rest"
proof -
  obtain c cs where t: "t = c # cs" "is_id_char U c" using assms(1) ident_word_Cons by blast
  have run: "takeWhile (is_id_char U) (cs @ rest) = cs" "dropWhile (is_id_char U) (cs @ rest) = rest"
    using assms t
    by (auto simp: ident_word_def list_all_iff takeWhile_append2 dropWhile_append2
        takeWhile_eq_Nil_iff dropWhile_eq_self_iff)
  show ?thesis using t run by simp
qed

lemma replace_tokens_hd:
  assumes "ident_word U w" and "s = [] \<or> \<not> is_id_char U (hd s)"
  shows "replace_tokens U w v s = [] \<or> \<not> is_id_char U (hd (replace_tokens U w v s))"
  using assms by (cases s) (auto simp: replace_tokens_nonid, simp add: replace_tokens_def)

text \<open>Replacing an identifier by an identifier neither joins nor splits tokens.\<close>

lemma tokens_replace_tokens:
  assumes w: "ident_word U w" and v: "ident_word U v"
  shows "tokens U (replace_tokens U w v s) = map (subst_token w v) (tokens U s)"
proof (induction "length s" arbitrary: s rule: less_induct)
  case less
  show ?case
  proof (cases s)
    case Nil
    then show ?thesis by (simp add: replace_tokens_def)
  next
    case (Cons c cs)
    show ?thesis
    proof (cases "is_id_char U c")
      case False
      have "tokens U (replace_tokens U w v cs) = map (subst_token w v) (tokens U cs)"
        using less Cons by simp
      moreover have "subst_token w v [c] = [c]"
        using False w by (auto simp: subst_token_def ident_word_def)
      ultimately show ?thesis using False by (simp add: Cons replace_tokens_nonid [OF w])
    next
      case True
      let ?t = "c # takeWhile (is_id_char U) cs" and ?r = "dropWhile (is_id_char U) cs"
      have t: "ident_word U ?t"
        using True by (auto simp: ident_word_def list_all_iff dest: set_takeWhileD)
      have sub: "ident_word U (subst_token w v ?t)" using t v by (simp add: subst_token_def)
      have r: "?r = [] \<or> \<not> is_id_char U (hd ?r)" using hd_dropWhile by blast
      have ih: "tokens U (replace_tokens U w v ?r) = map (subst_token w v) (tokens U ?r)"
        by (rule less.hyps) (simp add: Cons le_imp_less_Suc length_dropWhile_le)
      have "replace_tokens U w v s = subst_token w v ?t @ replace_tokens U w v ?r"
        using True by (simp add: Cons replace_tokens_def)
      then have "tokens U (replace_tokens U w v s)
          = subst_token w v ?t # tokens U (replace_tokens U w v ?r)"
        using tokens_run [OF sub replace_tokens_hd [OF w r]] by simp
      then show ?thesis using True ih by (simp add: Cons)
    qed
  qed
qed

lemma replace_tokens_undo:
  assumes "ident_word U w" and "ident_word U v" and "v \<notin> set (tokens U s)"
  shows "replace_tokens U v w (replace_tokens U w v s) = s"
proof -
  have "map (subst_token v w) (map (subst_token w v) (tokens U s)) = tokens U s"
    unfolding map_map using assms(3) by (auto simp: subst_token_def intro!: map_idI)
  then show ?thesis
    unfolding replace_tokens_def [of U v w]
    using tokens_replace_tokens [OF assms(1,2), of s] concat_tokens [of U s] by simp
qed

text \<open>The import test of \<open>replace_line\<close> on the tokens of a line.\<close>

definition blank_token :: "str \<Rightarrow> bool" where
  "blank_token t \<longleftrightarrow> (\<exists>c. t = [c] \<and> is_whitespace c)"

definition spaces_separate :: "ucd \<Rightarrow> bool" where
  "spaces_separate U \<longleftrightarrow> (\<forall>c. is_whitespace c \<longrightarrow> \<not> is_id_char U c)"

lemma tokens_trim_start:
  assumes "spaces_separate U"
  shows "tokens U (trim_start s) = dropWhile blank_token (tokens U s)"
proof (induction s)
  case Nil
  then show ?case by (simp add: trim_start_def)
next
  case (Cons c s)
  show ?case
  proof (cases "is_whitespace c")
    case True
    then show ?thesis
      using Cons assms by (auto simp: trim_start_def spaces_separate_def blank_token_def)
  next
    case False
    then show ?thesis by (auto simp: trim_start_def blank_token_def)
  qed
qed

lemma starts_with_keyword_tokens:
  assumes kw: "ident_word U kw" and sp: "spaces_separate U"
  shows "starts_with s (kw @ [32]) \<longleftrightarrow> (\<exists>r. tokens U s = kw # [32] # r)"
proof
  have nonid: "\<not> is_id_char U 32"
    using sp by (simp add: spaces_separate_def is_whitespace_def)
  assume "starts_with s (kw @ [32])"
  then obtain r where "s = kw @ (32 # r)" by (auto simp: starts_with_iff)
  then show "\<exists>r. tokens U s = kw # [32] # r"
    using tokens_run [OF kw, of "32 # r"] nonid by simp
next
  assume "\<exists>r. tokens U s = kw # [32] # r"
  then obtain r where "tokens U s = kw # [32] # r" ..
  then have "s = (kw @ [32]) @ concat r"
    using concat_tokens [of U s] by simp
  then show "starts_with s (kw @ [32])" by (metis starts_with_append)
qed

lemma subst_token_space: "ident_word U w \<Longrightarrow> ident_word U v \<Longrightarrow> spaces_separate U \<Longrightarrow>
    blank_token (subst_token w v t) = blank_token t"
  by (auto simp: subst_token_def blank_token_def spaces_separate_def ident_word_def)

lemma keyword_line_replaced:
  assumes w: "ident_word U w" and v: "ident_word U v" and kw: "ident_word U kw" "kw \<noteq> v"
    and sp: "spaces_separate U"
    and line: "starts_with (trim_start (replace_tokens U w v s)) (kw @ [32])"
  shows "starts_with (trim_start s) (kw @ [32])"
proof -
  have nonid: "\<not> is_id_char U 32"
    using sp by (simp add: spaces_separate_def is_whitespace_def)
  have "blank_token \<circ> subst_token w v = blank_token"
    using subst_token_space [OF w v sp] by (simp add: fun_eq_iff)
  then have "tokens U (trim_start (replace_tokens U w v s))
      = map (subst_token w v) (tokens U (trim_start s))"
    by (simp add: tokens_trim_start [OF sp] tokens_replace_tokens [OF w v] dropWhile_map)
  with line obtain r where r: "map (subst_token w v) (tokens U (trim_start s)) = kw # [32] # r"
    using starts_with_keyword_tokens [OF kw(1) sp] by metis
  then obtain a b r' where ab: "tokens U (trim_start s) = a # b # r'"
    "subst_token w v a = kw" "subst_token w v b = [32]"
    by (auto simp: map_eq_Cons_conv)
  have "a = kw" using ab(2) kw(2) by (auto simp: subst_token_def split: if_splits)
  moreover have "b = [32]"
    using ab(3) v nonid by (auto simp: subst_token_def ident_word_def split: if_splits)
  ultimately show ?thesis using ab(1) starts_with_keyword_tokens [OF kw(1) sp] by blast
qed

section \<open>Lemmas on keyword tables\<close>

lemma bisect_done: "sz \<le> 1 \<Longrightarrow> bisect xs x base sz = base"
  using bisect.simps [of xs x base sz] by argo

lemma bisect_step:
  "\<not> sz \<le> 1 \<Longrightarrow> bisect xs x base sz =
     bisect xs x (if xs ! (base + sz div 2) > x then base else base + sz div 2) (sz - sz div 2)"
  using bisect.simps [of xs x base sz] by (simp only: if_False Let_def)

text \<open>The window always holds every index of the element looked for.\<close>

lemma bisect_finds:
  assumes "sorted xs" and "base \<le> i" and "i < base + sz" and "base + sz \<le> length xs" and "xs ! i = x"
  shows "bisect xs x base sz < length xs \<and> xs ! bisect xs x base sz = x"
  using assms
proof (induction xs x base sz arbitrary: i rule: bisect.induct)
  case (1 xs x base sz)
  show ?case
  proof (cases "sz \<le> 1")
    case True
    then have "i = base" "base < length xs" using "1.prems" by auto
    then show ?thesis using "1.prems"(5) by (simp add: bisect_done [OF True])
  next
    case False
    let ?mid = "base + sz div 2"
    let ?b = "if xs ! ?mid > x then base else ?mid"
    have mid: "?mid < base + sz" using False by simp
    have "\<exists>k. ?b \<le> k \<and> k < ?b + (sz - sz div 2) \<and> xs ! k = x"
    proof (cases "xs ! ?mid > x")
      case True
      have "i < ?mid"
      proof (rule ccontr)
        assume "\<not> i < ?mid"
        then have "xs ! ?mid \<le> xs ! i"
          using "1.prems" by (intro sorted_nth_mono) auto
        then show False using True "1.prems"(5) by simp
      qed
      then show ?thesis using True "1.prems" by (intro exI [of _ i]) auto
    next
      case False
      show ?thesis
      proof (cases "i < ?mid")
        case True
        then have "xs ! i \<le> xs ! ?mid"
          using "1.prems" mid by (intro sorted_nth_mono) auto
        then have "xs ! ?mid = x" using False "1.prems"(5) by simp
        then show ?thesis using False mid by (intro exI [of _ ?mid]) auto
      next
        case ge: False
        then show ?thesis using False "1.prems" by (intro exI [of _ i]) auto
      qed
    qed
    then obtain k where k: "?b \<le> k" "k < ?b + (sz - sz div 2)" "xs ! k = x" by blast
    have "?b + (sz - sz div 2) \<le> length xs" using "1.prems"(4) by auto
    from "1.IH" [OF False refl refl "1.prems"(1) k(1,2) this k(3)]
    show ?thesis unfolding bisect_step [OF False] .
  qed
qed

lemma bisect_bound: "base + sz \<le> length xs \<Longrightarrow> 0 < sz \<Longrightarrow> bisect xs x base sz < length xs"
proof (induction xs x base sz rule: bisect.induct)
  case (1 xs x base sz)
  show ?case
  proof (cases "sz \<le> 1")
    case True
    then show ?thesis using "1.prems" by (simp add: bisect_done)
  next
    case False
    have "(if xs ! (base + sz div 2) > x then base else base + sz div 2) + (sz - sz div 2) \<le> length xs"
      using "1.prems"(1) by auto
    from "1.IH" [OF False refl refl this] False show ?thesis
      unfolding bisect_step [OF False] by simp
  qed
qed

lemma binary_search_iff:
  assumes "sorted xs"
  shows "binary_search xs x \<noteq> None \<longleftrightarrow> x \<in> set xs"
proof
  assume "binary_search xs x \<noteq> None"
  then have "xs \<noteq> []" "xs ! bisect xs x 0 (length xs) = x"
    by (auto simp: binary_search_def Let_def split: if_splits)
  then show "x \<in> set xs"
    using bisect_bound [of 0 "length xs" xs x] by (metis add_0 length_greater_0_conv nth_mem order_refl)
next
  assume "x \<in> set xs"
  then obtain i where "i < length xs" "xs ! i = x" by (auto simp: in_set_conv_nth)
  with bisect_finds [OF assms, of 0 i "length xs" x]
  show "binary_search xs x \<noteq> None" by (auto simp: binary_search_def Let_def)
qed

lemma sorted_keyword_tables: "sorted KOTLIN_KEYWORDS" "sorted JAVA_EXTRA_KEYWORDS"
  by (simp_all only: KOTLIN_KEYWORDS_def JAVA_EXTRA_KEYWORDS_def list.map lit_Cons lit_Nil
      sorted2 sorted1 of_char_Char) simp_all

section \<open>Properties\<close>

text \<open>The byte-window fast path for ASCII haystacks and the Unicode fallback are one function:
  the lower-cased haystack contains the needle, whatever the needle is.\<close>

theorem contains_ignore_ascii_case_correct:
  "contains_ignore_ascii_case U haystack needle
     \<longleftrightarrow> contains_sub (to_lowercase U haystack) needle"
proof (cases "needle = []")
  case True
  have "contains_sub s []" for s
    unfolding contains_sub_def by (cases s) (simp_all add: starts_with_def)
  with True show ?thesis by (simp add: contains_ignore_ascii_case_def)
next
  case False
  show ?thesis
  proof (cases "is_ascii_str haystack")
    case True
    then show ?thesis
      by (simp add: contains_ignore_ascii_eq [OF True False] ascii_contains_needle to_lowercase_def)
  next
    case non_ascii: False
    with False show ?thesis by (simp add: contains_ignore_ascii_case_def)
  qed
qed

text \<open>Without progress the iterator does not come to an end, whatever it has found.\<close>

lemma find_sub_Nil [simp]: "find_sub s [] = Some 0"
  by (cases s) (simp_all add: starts_with_def)

lemma word_offsets_from_nonempty: "word_offsets_from U word pre rest = Some os \<Longrightarrow> word \<noteq> []"
proof (erule word_offsets_from.raw_induct [where P = "\<lambda>_ word _ _ _. word \<noteq> []", rotated])
  fix f word U pre rest os
  assume IH: "\<And>U word pre rest os. f U word pre rest = Some os \<Longrightarrow> word \<noteq> []"
    and step: "(case find_sub rest word of None \<Rightarrow> Some []
      | Some rel \<Rightarrow>
          let before = pre @ take rel rest; after = drop (rel + length word) rest;
              before_ok = before = [] \<or> \<not> is_id_char U (last before);
              after_ok = after = [] \<or> \<not> is_id_char U (hd after)
          in Option.bind (f U word (before @ word) after)
               (\<lambda>os. Some (if before_ok \<and> after_ok then utf8_len before # os else os))) = Some os"
  show "word \<noteq> []"
  proof
    assume w: "word = []"
    with step have "f U [] pre rest \<noteq> None" by (auto simp: Let_def bind_eq_Some_conv)
    with IH show False by blast
  qed
qed

lemma word_offsets_from_ends: "word \<noteq> [] \<Longrightarrow> word_offsets_from U word pre rest \<noteq> None"
proof (induction "length rest" arbitrary: pre rest rule: less_induct)
  case less
  show ?case
  proof (cases "find_sub rest word")
    case None
    then show ?thesis by (subst word_offsets_from.simps) simp
  next
    case (Some rel)
    then have "starts_with (drop rel rest) word" using find_sub_Some by blast
    then have "take (length word) (drop rel rest) = word" by (simp add: starts_with_def)
    then have "drop rel rest \<noteq> []" using less.prems by (metis take_Nil)
    then have "length (drop (rel + length word) rest) < length rest" using less.prems by (cases word) auto
    from less.hyps [OF this less.prems] show ?thesis
      using Some by (simp add: word_offsets_from_Some bind_eq_Some_conv)
  qed
qed

text \<open>C36 Collecting the offsets of a word in a line comes to an end for exactly the words that are not empty:
  each match moves the search on by the length of the word, whole word or not; the empty word is found again
  at the same place for ever.\<close>

theorem word_byte_offsets_terminates: "word_byte_offsets U line word \<noteq> None \<longleftrightarrow> word \<noteq> []"
  using word_offsets_from_nonempty word_offsets_from_ends by (fastforce simp: word_byte_offsets_def)

text \<open>C37 For an identifier, \<open>word_byte_offsets\<close> ends and yields exactly the byte offsets of the
  positions where the identifier stands as a whole word, in increasing order: resuming the search
  behind a match that was no whole word loses none.\<close>

theorem word_byte_offsets_exact:
  assumes "ident_word U word"
  shows "word_byte_offsets U line word =
    Some (map (\<lambda>i. utf8_len (take i line)) (filter (whole_word_at U line word) [0..<Suc (length line)]))"
  using word_offsets_from_eq [OF assms, of "[]" line]
  by (simp add: word_byte_offsets_def whole_words_between_def)

theorem word_byte_offsets_exact_witness:
  "word_byte_offsets ascii_ucd (lit ''foo food foo'') (lit ''foo'') = Some [0, 9]"
  by (subst word_byte_offsets_exact)
     (simp_all add: ident_word_def is_id_char_def is_alphanumeric_def is_ascii_char_def
        is_ascii_alphanumeric_def is_ascii_upper_def is_ascii_lower_def is_ascii_digit_def
        whole_word_at_def starts_with_def len_utf8_def ascii_ucd_def upt_rec nth_Cons')

text \<open>Renaming a line replaces exactly the tokens equal to the old name: outside import and
  package lines the result is the line with each maximal identifier equal to the word replaced,
  and nothing else changed.\<close>

theorem replace_line_tokens:
  assumes "ident_word U word"
  shows "replace_line U word replacement line =
    (if starts_with (trim_start line) (lit ''import '') \<or> starts_with (trim_start line) (lit ''package '')
     then line
     else concat (map (\<lambda>t. if t = word then replacement else t) (tokens U line)))"
  using replace_from_eq_tokens [OF assms]
  by (simp add: replace_line_def replace_tokens_def subst_token_def [abs_def])

theorem replace_line_tokens_witness:
  "replace_line ascii_ucd (lit ''x'') (lit ''y'') (lit ''x + xx'') = lit ''y + xx''"
  by (subst replace_line_tokens)
     (simp_all add: ident_word_def is_id_char_def is_alphanumeric_def is_ascii_char_def
        is_ascii_alphanumeric_def is_ascii_upper_def is_ascii_lower_def is_ascii_digit_def
        starts_with_def trim_start_def is_whitespace_def)

text \<open>A rename can be undone: if the new name is an identifier that does not occur in the line
  and is neither \<open>import\<close> nor \<open>package\<close>, renaming back restores the line. Without the last
  condition a renamed line could be taken for an import line and stay as it is.\<close>

theorem replace_line_undo:
  assumes "ident_word U old" and "ident_word U new" and "new \<notin> set (tokens U line)"
    and "new \<noteq> lit ''import''" and "new \<noteq> lit ''package''"
    and "ident_word U (lit ''import'')" and "ident_word U (lit ''package'')"
    and "spaces_separate U"
  shows "replace_line U new old (replace_line U old new line) = line"
proof (cases "starts_with (trim_start line) (lit ''import '')
    \<or> starts_with (trim_start line) (lit ''package '')")
  case True
  then have "replace_line U old new line = line" by (simp add: replace_line_def)
  with True show ?thesis by (simp add: replace_line_def)
next
  case False
  then have line: "replace_line U old new line = replace_tokens U old new line"
    using replace_from_eq_tokens [OF assms(1)] by (simp add: replace_line_def)
  have "\<not> starts_with (trim_start (replace_tokens U old new line)) (kw @ [32])"
    if "ident_word U kw" "kw \<noteq> new" "\<not> starts_with (trim_start line) (kw @ [32])" for kw
    using keyword_line_replaced [OF assms(1,2) that(1,2) assms(8)] that(3) by blast
  from this [of "lit ''import''"] this [of "lit ''package''"]
  have "replace_line U new old (replace_tokens U old new line)
      = replace_tokens U new old (replace_tokens U old new line)"
    using False assms(4-7) replace_from_eq_tokens [OF assms(2)] by (simp add: replace_line_def)
  then show ?thesis
    unfolding line using replace_tokens_undo [OF assms(1-3)] by simp
qed

theorem replace_line_undo_witness:
  "replace_line ascii_ucd (lit ''y'') (lit ''x'')
     (replace_line ascii_ucd (lit ''x'') (lit ''y'') (lit ''x + xx'')) = lit ''x + xx''"
  by (rule replace_line_undo)
     (simp_all add: ident_word_def is_id_char_def is_alphanumeric_def is_ascii_char_def
        is_ascii_alphanumeric_def is_ascii_upper_def is_ascii_lower_def is_ascii_digit_def
        spaces_separate_def is_whitespace_def ascii_ucd_def)

text \<open>The keyword tables are sorted, so the binary searches of \<open>is_keyword_for_file\<close> decide
  membership.\<close>

theorem is_keyword_for_file_correct:
  "is_keyword_for_file name file_path \<longleftrightarrow>
     name \<in> set KOTLIN_KEYWORDS
     \<or> (ends_with file_path (lit ''.java'') \<and> name \<in> set JAVA_EXTRA_KEYWORDS)"
  using binary_search_iff [OF sorted_keyword_tables(1), of name]
    binary_search_iff [OF sorted_keyword_tables(2), of name]
  unfolding is_keyword_for_file_def by argo

end
