(* ===== verification/Types.thy ===== *)
theory Types
  imports Text_Utils Rust_Path
begin

text \<open>
  The data model of \<^verbatim>\<open>src/types.rs\<close> and the language providers of
  \<^verbatim>\<open>src/language/\<close>: symbols, imports, the data kept per file, the result of parsing one
  file, and the two append-only tables that intern file URIs and JAR paths.

  An LSP \<open>Url\<close> is its serialization. \<open>u32\<close> lines and columns on which the code only compares
  and subtracts with saturation are natural numbers; the interned ids, which the code creates by a
  truncating cast, are 32-bit words. The two interning tables satisfy the interface
  \<open>interner\<close>, whose consequences are proved once.
\<close>

section \<open>LSP types\<close>

type_synonym url = str

datatype position = Position (pos_line: nat) (pos_character: nat)

instantiation position :: linorder
begin

definition less_eq_position :: "position \<Rightarrow> position \<Rightarrow> bool" where
  "less_eq_position p q \<longleftrightarrow> pos_line p < pos_line q
     \<or> (pos_line p = pos_line q \<and> pos_character p \<le> pos_character q)"

definition less_position :: "position \<Rightarrow> position \<Rightarrow> bool" where
  "less_position p q \<longleftrightarrow> pos_line p < pos_line q
     \<or> (pos_line p = pos_line q \<and> pos_character p < pos_character q)"

instance
  by standard
    (auto simp: less_eq_position_def less_position_def position.expand)

end

datatype lsp_range = Rng (r_start: position) (r_end: position)

datatype location = Location (loc_uri: url) (loc_range: lsp_range)

datatype symbol_kind = SK_FILE | SK_MODULE | SK_NAMESPACE | SK_PACKAGE | SK_CLASS | SK_METHOD
  | SK_PROPERTY | SK_FIELD | SK_CONSTRUCTOR | SK_ENUM | SK_INTERFACE | SK_FUNCTION | SK_VARIABLE
  | SK_CONSTANT | SK_STRING | SK_NUMBER | SK_BOOLEAN | SK_ARRAY | SK_OBJECT | SK_KEY | SK_NULL
  | SK_ENUM_MEMBER | SK_STRUCT | SK_EVENT | SK_OPERATOR | SK_TYPE_PARAMETER

section \<open>Source sets and languages\<close>

datatype source_set = Main | Test | Library

datatype language = Kotlin | Java | Swift

definition LANGUAGE_ALL :: "language list" where
  "LANGUAGE_ALL = [Java, Swift, Kotlin]"

fun language_id :: "language \<Rightarrow> str" where
  "language_id Kotlin = lit ''kotlin''"
| "language_id Java = lit ''java''"
| "language_id Swift = lit ''swift''"

fun file_extensions :: "language \<Rightarrow> str list" where
  "file_extensions Kotlin = [lit ''kt'', lit ''kts'']"
| "file_extensions Java = [lit ''java'']"
| "file_extensions Swift = [lit ''swift'']"

definition from_path :: "str \<Rightarrow> language" where
  "from_path path =
     (case find (\<lambda>lang. list_ex (\<lambda>ext. ends_with path (lit ''.'' @ ext)) (file_extensions lang))
        LANGUAGE_ALL of
        Some lang \<Rightarrow> lang
      | None \<Rightarrow> Kotlin)"

definition needs_semicolons :: "language \<Rightarrow> bool" where
  "needs_semicolons lang \<longleftrightarrow> lang = Java"

fun is_override_declaration :: "language \<Rightarrow> str \<Rightarrow> str \<Rightarrow> bool" where
  "is_override_declaration Kotlin line method_name =
     (contains_sub line (lit ''override'') \<and> contains_sub line (lit ''fun '')
      \<and> is_declaration_of line method_name)"
| "is_override_declaration Java line method_name = is_declaration_of line method_name"
| "is_override_declaration Swift line method_name = False"

fun detail_is_override :: "language \<Rightarrow> str \<Rightarrow> bool" where
  "detail_is_override Kotlin detail = contains_sub detail (lit ''override'')"
| "detail_is_override Java detail = True"
| "detail_is_override Swift detail = False"

fun val_keyword :: "language \<Rightarrow> str" where
  "val_keyword Swift = lit ''let''"
| "val_keyword Kotlin = lit ''val''"
| "val_keyword Java = lit ''val''"

fun symbol_kw :: "symbol_kind \<Rightarrow> str" where
  "symbol_kw SK_CLASS = lit ''class''"
| "symbol_kw SK_INTERFACE = lit ''interface''"
| "symbol_kw SK_FUNCTION = lit ''fun''"
| "symbol_kw SK_METHOD = lit ''fun''"
| "symbol_kw SK_VARIABLE = lit ''var''"
| "symbol_kw SK_CONSTANT = lit ''val''"
| "symbol_kw SK_OBJECT = lit ''object''"
| "symbol_kw SK_TYPE_PARAMETER = lit ''typealias''"
| "symbol_kw SK_ENUM = lit ''enum class''"
| "symbol_kw SK_FIELD = lit ''field''"
| "symbol_kw _ = lit ''symbol''"

definition symbol_keyword :: "language \<Rightarrow> symbol_kind \<Rightarrow> str" where
  "symbol_keyword lang kind =
     (let kw = symbol_kw kind
      in if lang = Swift
         then (if kw = lit ''fun'' then lit ''func'' else if kw = lit ''val'' then lit ''let'' else kw)
         else kw)"

section \<open>Symbols\<close>

datatype visibility = Public | Internal | Protected | Private

record cold_fields =
  cf_type_params :: "str list"
  cf_extension_receiver :: str
  cf_extension_receiver_type :: str
  cf_doc :: str

definition pack_cold_fields :: "str list \<Rightarrow> str \<Rightarrow> str \<Rightarrow> str \<Rightarrow> cold_fields option" where
  "pack_cold_fields tps recv recv_type doc_text =
     (if tps = [] \<and> recv = [] \<and> recv_type = [] \<and> doc_text = [] then None
      else Some \<lparr>cf_type_params = tps, cf_extension_receiver = recv,
                 cf_extension_receiver_type = recv_type, cf_doc = doc_text\<rparr>)"

record symbol_entry =
  se_name :: str
  se_kind :: symbol_kind
  se_visibility :: visibility
  se_range :: lsp_range
  se_selection_range :: lsp_range
  se_detail :: str
  se_params :: str
  se_param_counts :: "8 word \<times> 8 word"
  se_container :: "str option"
  se_cold :: "cold_fields option"
  se_trailing_lambda :: bool
  se_deprecated :: bool

definition selection_start :: "symbol_entry \<Rightarrow> nat" where
  "selection_start s = pos_line (r_start (se_selection_range s))"

definition arity_for_call_shape_check :: "symbol_entry \<Rightarrow> (8 word \<times> 8 word) option" where
  "arity_for_call_shape_check s =
     (if se_kind s \<notin> {SK_FUNCTION, SK_METHOD, SK_CONSTRUCTOR, SK_OPERATOR} then None
      else if contains_sub (se_params s) (lit ''vararg '')
           \<or> contains_sub (se_params s) (lit ''vararg'' @ [9]) then None
      else Some (se_param_counts s))"

definition is_companion_object :: "symbol_entry \<Rightarrow> bool" where
  "is_companion_object s =
     (if se_kind s \<noteq> SK_OBJECT then False
      else let toks = split_whitespace (se_detail s)
           in list_ex (\<lambda>(a, b). a = lit ''companion'' \<and> b = lit ''object'') (zip toks (tl toks)))"

definition type_params :: "symbol_entry \<Rightarrow> str list" where
  "type_params s = (case se_cold s of None \<Rightarrow> [] | Some c \<Rightarrow> cf_type_params c)"

definition extension_receiver :: "symbol_entry \<Rightarrow> str" where
  "extension_receiver s = (case se_cold s of None \<Rightarrow> [] | Some c \<Rightarrow> cf_extension_receiver c)"

definition extension_receiver_type :: "symbol_entry \<Rightarrow> str" where
  "extension_receiver_type s =
     (case se_cold s of None \<Rightarrow> [] | Some c \<Rightarrow> cf_extension_receiver_type c)"

definition declared_extension_receiver :: "symbol_entry \<Rightarrow> str" where
  "declared_extension_receiver s =
     (if extension_receiver_type s = [] then extension_receiver s else extension_receiver_type s)"

definition symbol_doc :: "symbol_entry \<Rightarrow> str" where
  "symbol_doc s = (case se_cold s of None \<Rightarrow> [] | Some c \<Rightarrow> cf_doc c)"

record extension_entry =
  ee_file_uri :: str
  ee_name :: str
  ee_kind :: symbol_kind
  ee_detail :: str
  ee_visibility :: visibility
  ee_package :: "str option"
  ee_trailing_lambda :: bool
  ee_deprecated :: bool
  ee_container :: "str option"

section \<open>Imports\<close>

record import_entry =
  ie_full_path :: str
  ie_local_name :: str
  ie_is_star :: bool

definition covers :: "import_entry \<Rightarrow> str \<Rightarrow> str \<Rightarrow> bool" where
  "covers i def_pkg symbol_name =
     (if ie_is_star i then ie_full_path i = def_pkg
      else if ie_local_name i \<noteq> symbol_name then False
      else if ie_full_path i = def_pkg @ lit ''.'' @ symbol_name then True
      else (case strip_prefix (ie_full_path i) def_pkg of
              Some rest \<Rightarrow>
                (case strip_prefix rest (lit ''.'') of
                   Some rest' \<Rightarrow> rest' = symbol_name \<or> ends_with rest' (lit ''.'' @ symbol_name)
                 | None \<Rightarrow> False)
            | None \<Rightarrow> False))"

section \<open>Files\<close>

record syntax_error =
  sx_range :: lsp_range
  sx_message :: str

record file_data =
  fd_symbols :: "symbol_entry list"
  fd_imports :: "import_entry list"
  fd_package :: "str option"
  fd_lines :: "str list"
  fd_source_set :: source_set
  fd_declared_names :: "str list"
  fd_supers :: "(nat \<times> str \<times> str list) list"
  fd_rhs_types :: "(nat \<times> str \<times> str) list"
  fd_method_call_rhs :: "(nat \<times> str \<times> str \<times> str) list"
  fd_field_access_rhs :: "(nat \<times> str \<times> str \<times> str) list"
  fd_type_annotations :: "(nat \<times> str \<times> str) list"
  fd_syntax_errors :: "syntax_error list"

definition default_file_data :: file_data where
  "default_file_data = \<lparr>fd_symbols = [], fd_imports = [], fd_package = None, fd_lines = [],
     fd_source_set = Main, fd_declared_names = [], fd_supers = [], fd_rhs_types = [],
     fd_method_call_rhs = [], fd_field_access_rhs = [], fd_type_annotations = [],
     fd_syntax_errors = []\<rparr>"

text \<open>\<open>iter.min_by_key(f)\<close>: the first element of least key.\<close>

definition min_by_key :: "('a \<Rightarrow> 'b::linorder) \<Rightarrow> 'a list \<Rightarrow> 'a option" where
  "min_by_key f xs = (if xs = [] then None else Some (arg_min_list f xs))"

definition CLASS_KINDS :: "symbol_kind list" where
  "CLASS_KINDS = [SK_CLASS, SK_INTERFACE, SK_STRUCT, SK_ENUM, SK_OBJECT]"

definition start_line :: "symbol_entry \<Rightarrow> nat" where
  "start_line s = pos_line (r_start (se_range s))"

definition end_line :: "symbol_entry \<Rightarrow> nat" where
  "end_line s = pos_line (r_end (se_range s))"

definition containing_class_at :: "file_data \<Rightarrow> nat \<Rightarrow> str option" where
  "containing_class_at d line =
     map_option se_name
       (min_by_key (\<lambda>s. end_line s - start_line s)
         (filter (\<lambda>s. start_line s \<le> line \<and> line \<le> end_line s)
           (filter (\<lambda>s. se_kind s \<in> set CLASS_KINDS) (fd_symbols d))))"

record file_index_result =
  fr_uri :: url
  fr_data :: file_data
  fr_supertypes :: "(str \<times> location) list"
  fr_content_hash :: "64 word"
  fr_error :: "str option"

record index_stats =
  st_cache_hits :: nat
  st_files_parsed :: nat
  st_symbols_extracted :: nat

record workspace_index_result =
  wr_files :: "file_index_result list"
  wr_stats :: index_stats
  wr_workspace_root :: path
  wr_aborted :: bool
  wr_complete_scan :: bool

section \<open>Lemmas\<close>

lemma pack_cold_fields_accessors:
  assumes "se_cold s = pack_cold_fields tps recv recv_type doc_text"
  shows "type_params s = tps" "extension_receiver s = recv"
    "extension_receiver_type s = recv_type" "symbol_doc s = doc_text"
  using assms
  by (auto simp: pack_cold_fields_def type_params_def extension_receiver_def
      extension_receiver_type_def symbol_doc_def)

lemma min_by_key_None: "min_by_key f xs = None \<longleftrightarrow> xs = []"
  by (simp add: min_by_key_def)

lemma min_by_key_Some: "min_by_key f xs = Some x \<Longrightarrow> x \<in> set xs \<and> (\<forall>y\<in>set xs. f x \<le> f y)"
  by (auto simp: min_by_key_def arg_min_list_in f_arg_min_list_f split: if_splits)

definition class_at :: "file_data \<Rightarrow> nat \<Rightarrow> symbol_entry \<Rightarrow> bool" where
  "class_at d line s \<longleftrightarrow> s \<in> set (fd_symbols d) \<and> se_kind s \<in> set CLASS_KINDS
     \<and> start_line s \<le> line \<and> line \<le> end_line s"

lemma containing_class_at_cases:
  "(containing_class_at d line = None \<and> (\<forall>s. \<not> class_at d line s))
   \<or> (\<exists>s. class_at d line s \<and> containing_class_at d line = Some (se_name s)
        \<and> (\<forall>s'. class_at d line s' \<longrightarrow> end_line s - start_line s \<le> end_line s' - start_line s'))"
proof (cases "min_by_key (\<lambda>s. end_line s - start_line s)
    (filter (\<lambda>s. start_line s \<le> line \<and> line \<le> end_line s)
      (filter (\<lambda>s. se_kind s \<in> set CLASS_KINDS) (fd_symbols d)))")
  case None
  then show ?thesis
    by (auto simp: containing_class_at_def min_by_key_None filter_empty_conv class_at_def)
next
  case (Some s)
  from min_by_key_Some [OF this]
  have "class_at d line s"
    "\<forall>s'. class_at d line s' \<longrightarrow> end_line s - start_line s \<le> end_line s' - start_line s'"
    by (auto simp: class_at_def)
  then show ?thesis using Some by (auto simp: containing_class_at_def)
qed

text \<open>Two declarations that share a line nest, as syntax tree nodes on separate lines do.\<close>

definition nested_classes :: "file_data \<Rightarrow> bool" where
  "nested_classes d \<longleftrightarrow> (\<forall>s s' line. class_at d line s \<longrightarrow> class_at d line s' \<longrightarrow>
     (start_line s \<le> start_line s' \<and> end_line s' \<le> end_line s)
     \<or> (start_line s' \<le> start_line s \<and> end_line s \<le> end_line s'))"

section \<open>Properties\<close>

text \<open>\<open>containing_class_at\<close> names the innermost class: where class declarations nest, it
  returns the name of a class around the line whose lines lie within those of every other class
  around it, and \<open>None\<close> exactly where the line lies in no class.\<close>

theorem containing_class_at_innermost:
  assumes "nested_classes d"
  shows "case containing_class_at d line of
      None \<Rightarrow> \<forall>s. \<not> class_at d line s
    | Some n \<Rightarrow> \<exists>s. class_at d line s \<and> se_name s = n
        \<and> (\<forall>s'. class_at d line s' \<longrightarrow> start_line s' \<le> start_line s \<and> end_line s \<le> end_line s')"
  using containing_class_at_cases [of d line]
proof (elim disjE exE conjE)
  fix s assume s: "class_at d line s" "containing_class_at d line = Some (se_name s)"
    and least: "\<forall>s'. class_at d line s' \<longrightarrow> end_line s - start_line s \<le> end_line s' - start_line s'"
  have "start_line s' \<le> start_line s \<and> end_line s \<le> end_line s'" if s': "class_at d line s'" for s'
  proof -
    have nest: "(start_line s \<le> start_line s' \<and> end_line s' \<le> end_line s)
        \<or> (start_line s' \<le> start_line s \<and> end_line s \<le> end_line s')"
      using assms s(1) s' unfolding nested_classes_def by blast
    have "end_line s - start_line s \<le> end_line s' - start_line s'" using least s' by blast
    moreover have "start_line s' \<le> end_line s'" "start_line s \<le> end_line s"
      using s' s(1) by (auto simp: class_at_def)
    ultimately show ?thesis using nest by linarith
  qed
  with s show ?thesis by auto
qed auto

definition example_class :: "string \<Rightarrow> nat \<Rightarrow> nat \<Rightarrow> symbol_entry" where
  "example_class name a b = \<lparr>se_name = lit name, se_kind = SK_CLASS, se_visibility = Public,
     se_range = Rng (Position a 0) (Position b 0), se_selection_range = Rng (Position a 6) (Position a 7),
     se_detail = [], se_params = [], se_param_counts = (0, 0), se_container = None, se_cold = None,
     se_trailing_lambda = False, se_deprecated = False\<rparr>"

theorem containing_class_at_innermost_witness:
  "\<exists>d. containing_class_at d 3 = Some (lit ''B'')
    \<and> (case containing_class_at d 3 of None \<Rightarrow> False
       | Some n \<Rightarrow> \<exists>s. class_at d 3 s \<and> se_name s = n)"
proof -
  let ?d = "default_file_data\<lparr>fd_symbols := [example_class ''A'' 1 9, example_class ''B'' 2 4]\<rparr>"
  have nested: "nested_classes ?d"
    by (auto simp: nested_classes_def class_at_def example_class_def start_line_def end_line_def)
  have "containing_class_at ?d 3 = Some (lit ''B'')"
    by (simp add: containing_class_at_def min_by_key_def example_class_def start_line_def
        end_line_def CLASS_KINDS_def)
  with containing_class_at_innermost [OF nested, of 3] show ?thesis by (intro exI [of _ ?d]) auto
qed

text \<open>An import covers a symbol of a package exactly where it is the star import of the
  package, or imports the symbol under its own name from the package, directly or through
  enclosing classes.\<close>

theorem covers_iff:
  "covers i def_pkg name \<longleftrightarrow>
     (if ie_is_star i then ie_full_path i = def_pkg
      else ie_local_name i = name
        \<and> (ie_full_path i = def_pkg @ lit ''.'' @ name
           \<or> (\<exists>outer. ie_full_path i = def_pkg @ lit ''.'' @ outer @ lit ''.'' @ name)))"
proof -
  have "(case strip_prefix full pkg of
            Some rest \<Rightarrow> (case strip_prefix rest (lit ''.'') of
               Some rest' \<Rightarrow> rest' = name \<or> ends_with rest' (lit ''.'' @ name) | None \<Rightarrow> False)
          | None \<Rightarrow> False)
      \<longleftrightarrow> (full = pkg @ lit ''.'' @ name \<or> (\<exists>outer. full = pkg @ lit ''.'' @ outer @ lit ''.'' @ name))"
    for full pkg
  proof (cases "strip_prefix full pkg")
    case None
    then have "full \<noteq> pkg @ t" for t by (simp add: strip_prefix_Some [symmetric])
    with None show ?thesis by simp
  next
    case (Some rest)
    then have full: "full = pkg @ rest" by (simp add: strip_prefix_Some)
    show ?thesis
    proof (cases "strip_prefix rest (lit ''.'')")
      case None
      then have "rest \<noteq> lit ''.'' @ t" for t by (metis option.distinct(1) strip_prefix_Some)
      with Some None full show ?thesis by simp
    next
      case (Some rest')
      then have "rest = lit ''.'' @ rest'" by (simp add: strip_prefix_Some)
      with Some \<open>strip_prefix full pkg = Some rest\<close> full show ?thesis
        by (simp add: ends_with_iff)
    qed
  qed
  then show ?thesis unfolding covers_def by auto
qed

end
