(* ===== verification/Interning.thy ===== *)
theory Interning
  imports Types
begin

text \<open>
  The interning tables \<open>FileTable\<close> and \<open>JarTable\<close> of \<^verbatim>\<open>src/types.rs\<close>. Interning is the
  fast read followed by the critical section under the write lock, which looks the key up again; the
  two steps are separate definitions, so that interleavings of several threads can be stated. A
  full table panics (\<open>None\<close>).

  The locale \<open>interner\<close> is the contract the index relies on: ids resolve to what they were made
  from, for ever, and equal keys get equal ids. Both tables satisfy it.
\<close>

section \<open>The tables\<close>

datatype file_id = FileId (file_no: "32 word")

record symbol_loc =
  sl_file :: file_id
  sl_range :: lsp_range

record file_table =
  ft_by_id :: "url list"
  ft_by_uri :: "(str, file_id) hmap"

definition ft_new :: file_table where
  "ft_new = \<lparr>ft_by_id = [], ft_by_uri = Mapping.empty\<rparr>"

definition ft_intern_locked :: "file_table \<Rightarrow> url \<Rightarrow> (file_table \<times> file_id) option" where
  "ft_intern_locked t uri =
     (case Mapping.lookup (ft_by_uri t) uri of
        Some existing \<Rightarrow> Some (t, existing)
      | None \<Rightarrow>
          if length (ft_by_id t) < 2 ^ 32
          then (let fid = FileId (of_nat (length (ft_by_id t)))
                in Some (t\<lparr>ft_by_id := ft_by_id t @ [uri],
                           ft_by_uri := Mapping.update uri fid (ft_by_uri t)\<rparr>, fid))
          else None)"

definition ft_intern :: "file_table \<Rightarrow> url \<Rightarrow> (file_table \<times> file_id) option" where
  "ft_intern t uri =
     (case Mapping.lookup (ft_by_uri t) uri of
        Some existing \<Rightarrow> Some (t, existing)
      | None \<Rightarrow> ft_intern_locked t uri)"

definition ft_url :: "file_table \<Rightarrow> file_id \<Rightarrow> url option" where
  "ft_url t fid =
     (if unat (file_no fid) < length (ft_by_id t) then Some (ft_by_id t ! unat (file_no fid)) else None)"

definition ft_location :: "file_table \<Rightarrow> symbol_loc \<Rightarrow> location option" where
  "ft_location t loc = map_option (\<lambda>u. Location u (sl_range loc)) (ft_url t (sl_file loc))"

datatype jar_id = JarId (jar_no: "32 word")

record jar_table =
  jt_by_id :: "str list"
  jt_by_path :: "(str, jar_id) hmap"

definition jt_new :: jar_table where
  "jt_new = \<lparr>jt_by_id = [], jt_by_path = Mapping.empty\<rparr>"

definition jt_intern_locked :: "jar_table \<Rightarrow> str \<Rightarrow> (jar_table \<times> jar_id) option" where
  "jt_intern_locked t p =
     (case Mapping.lookup (jt_by_path t) p of
        Some existing \<Rightarrow> Some (t, existing)
      | None \<Rightarrow>
          if length (jt_by_id t) < 2 ^ 32
          then (let jid = JarId (of_nat (length (jt_by_id t)))
                in Some (t\<lparr>jt_by_id := jt_by_id t @ [p],
                           jt_by_path := Mapping.update p jid (jt_by_path t)\<rparr>, jid))
          else None)"

definition jt_intern :: "jar_table \<Rightarrow> str \<Rightarrow> (jar_table \<times> jar_id) option" where
  "jt_intern t p =
     (case Mapping.lookup (jt_by_path t) p of
        Some existing \<Rightarrow> Some (t, existing)
      | None \<Rightarrow> jt_intern_locked t p)"

definition jt_path :: "jar_table \<Rightarrow> jar_id \<Rightarrow> str option" where
  "jt_path t jid =
     (if unat (jar_no jid) < length (jt_by_id t) then Some (jt_by_id t ! unat (jar_no jid)) else None)"

section \<open>Tables in general\<close>

text \<open>A vector of keys and a map that is its inverse.\<close>

definition table_wf :: "str list \<Rightarrow> (str \<Rightarrow> 32 word option) \<Rightarrow> bool" where
  "table_wf ids lk \<longleftrightarrow> length ids \<le> 2 ^ 32
     \<and> (\<forall>u w. lk u = Some w \<longleftrightarrow> unat w < length ids \<and> ids ! unat w = u)"

lemma table_wf_empty: "table_wf [] (\<lambda>_. None)"
  by (simp add: table_wf_def)

lemma unat_of_nat_index: "n < 2 ^ 32 \<Longrightarrow> unat (of_nat n :: 32 word) = n"
  by (simp add: unat_of_nat take_bit_nat_eq_self)

lemma table_wf_push:
  assumes wf: "table_wf ids lk" and fresh: "lk u = None" and room: "length ids < 2 ^ 32"
  shows "table_wf (ids @ [u]) (lk(u \<mapsto> of_nat (length ids)))"
proof -
  have notin: "u \<notin> set ids"
  proof
    assume "u \<in> set ids"
    then obtain k where k: "k < length ids" "ids ! k = u" by (auto simp: in_set_conv_nth)
    then have "lk u = Some (of_nat k)"
      using wf room unat_of_nat_index [of k] by (simp add: table_wf_def)
    with fresh show False by simp
  qed
  have new: "unat (of_nat (length ids) :: 32 word) = length ids"
    using room by (rule unat_of_nat_index)
  have "(lk(u \<mapsto> of_nat (length ids))) v = Some w
      \<longleftrightarrow> unat w < length (ids @ [u]) \<and> (ids @ [u]) ! unat w = v" for v w
  proof (cases "v = u")
    case True
    have "of_nat (length ids) = w \<longleftrightarrow> unat w = length ids"
      using new by (metis word_unat_eq_iff)
    moreover have "unat w < length ids \<Longrightarrow> ids ! unat w \<noteq> u" using notin nth_mem by fastforce
    ultimately show ?thesis using True by (auto simp: nth_append less_Suc_eq)
  next
    case False
    then show ?thesis using wf by (auto simp: table_wf_def nth_append less_Suc_eq)
  qed
  then show ?thesis using room by (simp add: table_wf_def)
qed

definition ft_wf :: "file_table \<Rightarrow> bool" where
  "ft_wf t \<longleftrightarrow> table_wf (ft_by_id t) (\<lambda>u. map_option file_no (Mapping.lookup (ft_by_uri t) u))"

definition jt_wf :: "jar_table \<Rightarrow> bool" where
  "jt_wf t \<longleftrightarrow> table_wf (jt_by_id t) (\<lambda>u. map_option jar_no (Mapping.lookup (jt_by_path t) u))"

section \<open>The contract\<close>

fun intern_all :: "('t \<Rightarrow> str \<Rightarrow> ('t \<times> 'i) option) \<Rightarrow> str list \<Rightarrow> 't \<Rightarrow> ('t \<times> 'i list) option" where
  "intern_all f [] t = Some (t, [])"
| "intern_all f (u # us) t =
     Option.bind (f t u) (\<lambda>(t', i). Option.bind (intern_all f us t') (\<lambda>(t'', is). Some (t'', i # is)))"

locale interner =
  fixes intern :: "'t \<Rightarrow> str \<Rightarrow> ('t \<times> 'i) option"
    and resolve :: "'t \<Rightarrow> 'i \<Rightarrow> str option"
    and wf :: "'t \<Rightarrow> bool"
  assumes intern_wf: "wf t \<Longrightarrow> intern t u = Some (t', i) \<Longrightarrow> wf t'"
    and intern_resolve: "wf t \<Longrightarrow> intern t u = Some (t', i) \<Longrightarrow> resolve t' i = Some u"
    and intern_stable: "wf t \<Longrightarrow> intern t u = Some (t', i) \<Longrightarrow> resolve t j = Some v \<Longrightarrow> resolve t' j = Some v"
    and intern_known: "wf t \<Longrightarrow> resolve t i = Some u \<Longrightarrow> intern t u = Some (t, i)"
begin

lemma resolve_inj: "wf t \<Longrightarrow> resolve t i = Some u \<Longrightarrow> resolve t j = Some u \<Longrightarrow> i = j"
  by (metis intern_known option.inject prod.inject)

lemma intern_idempotent: "wf t \<Longrightarrow> intern t u = Some (t', i) \<Longrightarrow> intern t' u = Some (t', i)"
  using intern_wf intern_resolve intern_known by blast

lemma intern_all_props:
  "wf t \<Longrightarrow> intern_all intern us t = Some (t', is) \<Longrightarrow>
    wf t' \<and> map (resolve t') is = map Some us
    \<and> (\<forall>j v. resolve t j = Some v \<longrightarrow> resolve t' j = Some v)"
proof (induction us arbitrary: t "is")
  case Nil
  then show ?case by simp
next
  case (Cons u us)
  then obtain t1 i is' where i: "intern t u = Some (t1, i)"
    and rest: "intern_all intern us t1 = Some (t', is')" and "is = i # is'"
    by (auto simp: bind_eq_Some_conv)
  note ih = Cons.IH [OF intern_wf [OF Cons.prems(1) i] rest]
  have "resolve t' i = Some u" using ih intern_resolve [OF Cons.prems(1) i] by blast
  then show ?case using ih intern_stable [OF Cons.prems(1) i] \<open>is = i # is'\<close> by simp
qed

text \<open>Two keys of a sequence get the same id exactly if they are equal.\<close>

lemma intern_all_inj:
  assumes "wf t" and "intern_all intern us t = Some (t', is)" and "a < length us" and "b < length us"
  shows "length is = length us \<and> (is ! a = is ! b \<longleftrightarrow> us ! a = us ! b)"
proof -
  note p = intern_all_props [OF assms(1,2)]
  have len: "length is = length us" using p by (metis length_map)
  have "resolve t' (is ! k) = Some (us ! k)" if "k < length us" for k
    using p that len by (metis nth_map)
  then show ?thesis
    using assms(3,4) len resolve_inj p by (metis option.inject)
qed

end

lemma ft_intern_eq: "ft_intern t u = ft_intern_locked t u"
  by (simp add: ft_intern_def ft_intern_locked_def split: option.splits)

lemma jt_intern_eq: "jt_intern t u = jt_intern_locked t u"
  by (simp add: jt_intern_def jt_intern_locked_def split: option.splits)

lemma ft_url_wf:
  assumes "ft_wf t"
  shows "ft_url t i = Some u \<longleftrightarrow> Mapping.lookup (ft_by_uri t) u = Some i"
proof -
  have "map_option file_no (Mapping.lookup (ft_by_uri t) u) = Some (file_no i)
      \<longleftrightarrow> Mapping.lookup (ft_by_uri t) u = Some i"
    by (auto intro: file_id.expand)
  then show ?thesis using assms unfolding ft_wf_def table_wf_def ft_url_def by auto
qed

lemma jt_path_wf:
  assumes "jt_wf t"
  shows "jt_path t i = Some u \<longleftrightarrow> Mapping.lookup (jt_by_path t) u = Some i"
proof -
  have "map_option jar_no (Mapping.lookup (jt_by_path t) u) = Some (jar_no i)
      \<longleftrightarrow> Mapping.lookup (jt_by_path t) u = Some i"
    by (auto intro: jar_id.expand)
  then show ?thesis using assms unfolding jt_wf_def table_wf_def jt_path_def by auto
qed

text \<open>What interning returns: the known id and the table as it was, or a new last entry.\<close>

lemma ft_intern_cases:
  assumes "ft_intern t u = Some (t', i)"
  obtains "Mapping.lookup (ft_by_uri t) u = Some i" "t' = t"
  | "Mapping.lookup (ft_by_uri t) u = None" "length (ft_by_id t) < 2 ^ 32"
    "i = FileId (of_nat (length (ft_by_id t)))"
    "t' = t\<lparr>ft_by_id := ft_by_id t @ [u], ft_by_uri := Mapping.update u i (ft_by_uri t)\<rparr>"
  using assms unfolding ft_intern_eq ft_intern_locked_def Let_def
  by (auto split: option.splits if_split_asm)

lemma jt_intern_cases:
  assumes "jt_intern t u = Some (t', i)"
  obtains "Mapping.lookup (jt_by_path t) u = Some i" "t' = t"
  | "Mapping.lookup (jt_by_path t) u = None" "length (jt_by_id t) < 2 ^ 32"
    "i = JarId (of_nat (length (jt_by_id t)))"
    "t' = t\<lparr>jt_by_id := jt_by_id t @ [u], jt_by_path := Mapping.update u i (jt_by_path t)\<rparr>"
  using assms unfolding jt_intern_eq jt_intern_locked_def Let_def
  by (auto split: option.splits if_split_asm)

lemma ft_wf_new: "ft_wf ft_new"
  by (simp add: ft_wf_def ft_new_def table_wf_empty)

lemma jt_wf_new: "jt_wf jt_new"
  by (simp add: jt_wf_def jt_new_def table_wf_empty)

lemma ft_intern_wf: "ft_wf t \<Longrightarrow> ft_intern t u = Some (t', i) \<Longrightarrow> ft_wf t'"
proof (erule ft_intern_cases)
  assume wf: "ft_wf t" and new: "Mapping.lookup (ft_by_uri t) u = None"
    "length (ft_by_id t) < 2 ^ 32" "i = FileId (of_nat (length (ft_by_id t)))"
    and t': "t' = t\<lparr>ft_by_id := ft_by_id t @ [u], ft_by_uri := Mapping.update u i (ft_by_uri t)\<rparr>"
  have "(\<lambda>v. map_option file_no (Mapping.lookup (ft_by_uri t') v))
      = (\<lambda>v. map_option file_no (Mapping.lookup (ft_by_uri t) v))(u \<mapsto> of_nat (length (ft_by_id t)))"
    by (auto simp: t' new)
  then show "ft_wf t'"
    using table_wf_push [of "ft_by_id t"] wf new by (simp add: ft_wf_def t')
qed simp

lemma jt_intern_wf: "jt_wf t \<Longrightarrow> jt_intern t u = Some (t', i) \<Longrightarrow> jt_wf t'"
proof (erule jt_intern_cases)
  assume wf: "jt_wf t" and new: "Mapping.lookup (jt_by_path t) u = None"
    "length (jt_by_id t) < 2 ^ 32" "i = JarId (of_nat (length (jt_by_id t)))"
    and t': "t' = t\<lparr>jt_by_id := jt_by_id t @ [u], jt_by_path := Mapping.update u i (jt_by_path t)\<rparr>"
  have "(\<lambda>v. map_option jar_no (Mapping.lookup (jt_by_path t') v))
      = (\<lambda>v. map_option jar_no (Mapping.lookup (jt_by_path t) v))(u \<mapsto> of_nat (length (jt_by_id t)))"
    by (auto simp: t' new)
  then show "jt_wf t'"
    using table_wf_push [of "jt_by_id t"] wf new by (simp add: jt_wf_def t')
qed simp

lemma ft_url_stable: "ft_intern t u = Some (t', i) \<Longrightarrow> ft_url t j = Some v \<Longrightarrow> ft_url t' j = Some v"
  by (erule ft_intern_cases) (auto simp: ft_url_def nth_append split: if_split_asm)

lemma jt_path_stable: "jt_intern t u = Some (t', i) \<Longrightarrow> jt_path t j = Some v \<Longrightarrow> jt_path t' j = Some v"
  by (erule jt_intern_cases) (auto simp: jt_path_def nth_append split: if_split_asm)

lemma ft_intern_lookup: "ft_intern t u = Some (t', i) \<Longrightarrow> Mapping.lookup (ft_by_uri t') u = Some i"
  by (erule ft_intern_cases) auto

lemma jt_intern_lookup: "jt_intern t u = Some (t', i) \<Longrightarrow> Mapping.lookup (jt_by_path t') u = Some i"
  by (erule jt_intern_cases) auto

interpretation files: interner ft_intern ft_url ft_wf
proof
  show "ft_wf t \<Longrightarrow> ft_intern t u = Some (t', i) \<Longrightarrow> ft_wf t'" for t u t' i
    by (rule ft_intern_wf)
  show "ft_wf t \<Longrightarrow> ft_intern t u = Some (t', i) \<Longrightarrow> ft_url t' i = Some u" for t u t' i
    using ft_intern_wf ft_intern_lookup ft_url_wf by blast
  show "ft_wf t \<Longrightarrow> ft_intern t u = Some (t', i) \<Longrightarrow> ft_url t j = Some v \<Longrightarrow> ft_url t' j = Some v"
    for t u t' i j v by (rule ft_url_stable)
  show "ft_wf t \<Longrightarrow> ft_url t i = Some u \<Longrightarrow> ft_intern t u = Some (t, i)" for t i u
    by (simp add: ft_url_wf ft_intern_def)
qed

interpretation jars: interner jt_intern jt_path jt_wf
proof
  show "jt_wf t \<Longrightarrow> jt_intern t u = Some (t', i) \<Longrightarrow> jt_wf t'" for t u t' i
    by (rule jt_intern_wf)
  show "jt_wf t \<Longrightarrow> jt_intern t u = Some (t', i) \<Longrightarrow> jt_path t' i = Some u" for t u t' i
    using jt_intern_wf jt_intern_lookup jt_path_wf by blast
  show "jt_wf t \<Longrightarrow> jt_intern t u = Some (t', i) \<Longrightarrow> jt_path t j = Some v \<Longrightarrow> jt_path t' j = Some v"
    for t u t' i j v by (rule jt_path_stable)
  show "jt_wf t \<Longrightarrow> jt_path t i = Some u \<Longrightarrow> jt_intern t u = Some (t, i)" for t i u
    by (simp add: jt_path_wf jt_intern_def)
qed

section \<open>Racing threads\<close>

text \<open>
  The state of several threads interning into one table: the table, the keys of the threads that
  have missed in the fast read and not yet entered the critical section, and what has been
  returned.
\<close>

record intern_race =
  ra_table :: file_table
  ra_waiting :: "url list"
  ra_returned :: "(url \<times> file_id) list"

inductive race_step :: "intern_race \<Rightarrow> intern_race \<Rightarrow> bool" where
  fast_hit: "Mapping.lookup (ft_by_uri (ra_table r)) u = Some i \<Longrightarrow>
     race_step r (r\<lparr>ra_returned := (u, i) # ra_returned r\<rparr>)"
| fast_miss: "Mapping.lookup (ft_by_uri (ra_table r)) u = None \<Longrightarrow>
     race_step r (r\<lparr>ra_waiting := u # ra_waiting r\<rparr>)"
| locked: "u \<in> set (ra_waiting r) \<Longrightarrow> ft_intern_locked (ra_table r) u = Some (t, i) \<Longrightarrow>
     race_step r (r\<lparr>ra_table := t, ra_waiting := remove1 u (ra_waiting r),
                    ra_returned := (u, i) # ra_returned r\<rparr>)"

definition race_start :: intern_race where
  "race_start = \<lparr>ra_table = ft_new, ra_waiting = [], ra_returned = []\<rparr>"

definition race_inv :: "intern_race \<Rightarrow> bool" where
  "race_inv r \<longleftrightarrow> ft_wf (ra_table r)
     \<and> (\<forall>(u, i)\<in>set (ra_returned r). ft_url (ra_table r) i = Some u)"

lemma race_step_inv: "race_step r r' \<Longrightarrow> race_inv r \<Longrightarrow> race_inv r'"
proof (induction rule: race_step.induct)
  case (fast_hit r u i)
  then show ?case by (auto simp: race_inv_def ft_url_wf)
next
  case (fast_miss r u)
  then show ?case by (simp add: race_inv_def)
next
  case (locked u r t i)
  then have i: "ft_intern (ra_table r) u = Some (t, i)" by (simp add: ft_intern_eq)
  have wf: "ft_wf (ra_table r)" using locked by (simp add: race_inv_def)
  show ?case
    using locked.prems files.intern_wf [OF wf i] files.intern_resolve [OF wf i]
      files.intern_stable [OF wf i]
    by (auto simp: race_inv_def)
qed

lemma race_reachable_inv: "race_step\<^sup>*\<^sup>* race_start r \<Longrightarrow> race_inv r"
proof (induction rule: rtranclp_induct)
  case base
  then show ?case by (simp add: race_inv_def race_start_def ft_wf_new)
next
  case (step y z)
  then show ?case by (blast intro: race_step_inv)
qed

section \<open>Properties\<close>

text \<open>C10 Interning is free of races: however the fast reads and critical sections of any number of
  threads interleave, every returned id resolves to the URI it was returned for, and two calls
  return the same id exactly if they were made for the same URI.\<close>

theorem intern_race_free:
  assumes "race_step\<^sup>*\<^sup>* race_start r"
    and "(u, i) \<in> set (ra_returned r)" and "(v, j) \<in> set (ra_returned r)"
  shows "ft_url (ra_table r) i = Some u \<and> (u = v \<longleftrightarrow> i = j)"
proof -
  have inv: "race_inv r" by (rule race_reachable_inv [OF assms(1)])
  then have "ft_url (ra_table r) i = Some u" "ft_url (ra_table r) j = Some v"
    using assms(2,3) by (auto simp: race_inv_def)
  then show ?thesis
    using files.resolve_inj [of "ra_table r" i u j] inv by (auto simp: race_inv_def)
qed

text \<open>Two threads race for one URI: both miss, both enter the critical section.\<close>

theorem intern_race_free_witness:
  "\<exists>r. race_step\<^sup>*\<^sup>* race_start r \<and> length (ra_returned r) = 2
     \<and> (\<forall>ui\<in>set (ra_returned r). \<forall>vj\<in>set (ra_returned r).
          ft_url (ra_table r) (snd ui) = Some (fst ui) \<and> snd ui = snd vj)"
proof -
  let ?u = "lit ''u''"
  let ?t = "ft_new\<lparr>ft_by_id := [?u], ft_by_uri := Mapping.update ?u (FileId 0) Mapping.empty\<rparr>"
  let ?r = "\<lparr>ra_table = ?t, ra_waiting = [], ra_returned = [(?u, FileId 0), (?u, FileId 0)]\<rparr>"
  have s1: "race_step race_start (race_start\<lparr>ra_waiting := [?u]\<rparr>)"
    using fast_miss [of race_start ?u] by (simp add: race_start_def ft_new_def)
  have s2: "race_step (race_start\<lparr>ra_waiting := [?u]\<rparr>) (race_start\<lparr>ra_waiting := [?u, ?u]\<rparr>)"
    using fast_miss [of "race_start\<lparr>ra_waiting := [?u]\<rparr>" ?u] by (simp add: race_start_def ft_new_def)
  have s3: "race_step (race_start\<lparr>ra_waiting := [?u, ?u]\<rparr>)
      \<lparr>ra_table = ?t, ra_waiting = [?u], ra_returned = [(?u, FileId 0)]\<rparr>"
    using locked [of ?u "race_start\<lparr>ra_waiting := [?u, ?u]\<rparr>" ?t "FileId 0"]
    by (simp add: race_start_def ft_new_def ft_intern_locked_def Let_def)
  have s4: "race_step \<lparr>ra_table = ?t, ra_waiting = [?u], ra_returned = [(?u, FileId 0)]\<rparr> ?r"
    using locked [of ?u "\<lparr>ra_table = ?t, ra_waiting = [?u], ra_returned = [(?u, FileId 0)]\<rparr>" ?t "FileId 0"]
    by (simp add: ft_new_def ft_intern_locked_def Let_def)
  have reach: "race_step\<^sup>*\<^sup>* race_start ?r"
    using s1 s2 s3 s4 by (meson converse_rtranclp_into_rtranclp rtranclp.rtrancl_refl)
  show ?thesis
    using reach intern_race_free [OF reach, of ?u "FileId 0" ?u "FileId 0"]
    by (intro exI [of _ ?r]) simp
qed

text \<open>Interning a sequence of JAR paths keeps every id given out before, and gives two paths of
  the sequence the same id exactly if they are equal; every id resolves to its path.\<close>

theorem jar_interning:
  assumes "jt_wf t" and "intern_all jt_intern ps t = Some (t', is)"
    and "a < length ps" and "b < length ps"
  shows "map (jt_path t') is = map Some ps \<and> (is ! a = is ! b \<longleftrightarrow> ps ! a = ps ! b)
    \<and> jt_wf t' \<and> (\<forall>j v. jt_path t j = Some v \<longrightarrow> jt_path t' j = Some v)"
  using jars.intern_all_props [OF assms(1,2)] jars.intern_all_inj [OF assms] by blast

theorem jar_interning_witness:
  "\<exists>t' is. intern_all jt_intern [lit ''a'', lit ''b'', lit ''a''] jt_new = Some (t', is)
     \<and> is ! 0 = is ! 2 \<and> is ! 0 \<noteq> is ! 1"
proof -
  obtain t' "is" where r: "intern_all jt_intern [lit ''a'', lit ''b'', lit ''a''] jt_new = Some (t', is)"
    by (simp add: jt_intern_def jt_intern_locked_def jt_new_def Let_def)
  have "is ! 0 = is ! 2" "is ! 0 \<noteq> is ! 1"
    using jar_interning [OF jt_wf_new r, of 0 2] jar_interning [OF jt_wf_new r, of 0 1] by simp_all
  with r show ?thesis by blast
qed

end
