(* ===== verification/Contributions.thy ===== *)
theory Contributions
  imports Types "HOL-Library.AList"
begin

text \<open>
  What one file adds to the index, and what it owned before: the pure functions of
  \<^verbatim>\<open>src/indexer/apply.rs\<close>, with \<open>build_qualified_keys\<close> of \<^verbatim>\<open>src/indexer/cache.rs\<close>
  and the URI helpers of \<^verbatim>\<open>src/path_util.rs\<close> (on Unix) they call.

  The \<open>url\<close> crate and the tree-sitter parsers are not part of the repository's logic modelled here:
  they are the fields of \<open>externals\<close>. \<open>Url::parse\<close> and the like return \<open>None\<close> for
  \<open>Err\<close>. The hash maps of \<open>FileContributions\<close> are association lists with distinct keys.
\<close>

record externals =
  x_url_parse :: "str \<Rightarrow> url option"
  x_url_to_file_path :: "url \<Rightarrow> path option"
  x_url_from_file_path :: "path \<Rightarrow> url option"
  x_url_path :: "url \<Rightarrow> str"
  x_url_scheme :: "url \<Rightarrow> str"
  x_url_cannot_be_a_base :: "url \<Rightarrow> bool"
  x_parse :: "language \<Rightarrow> str \<Rightarrow> file_data"
  x_parse_live :: "str \<Rightarrow> language \<Rightarrow> bool"
  x_jar_sources_dir :: path

section \<open>URI helpers\<close>

text \<open>\<open>path.to_string_lossy()\<close> on Unix; the argument is the path as it was written.\<close>

definition to_forward_slash :: "str \<Rightarrow> str" where
  "to_forward_slash p = p"

definition uri_path_stem :: "str \<Rightarrow> str option" where
  "uri_path_stem p =
     (let l = last_part (ch CHR ''/'') p
      in if l = [] then None
         else (let stem = (case rfind_char (\<lambda>c. c = ch CHR ''.'') l of
                             Some 0 \<Rightarrow> l
                           | Some dot \<Rightarrow> take dot l
                           | None \<Rightarrow> l)
               in if stem = [] then None else Some stem))"

definition file_stem_from_uri :: "externals \<Rightarrow> url \<Rightarrow> str option" where
  "file_stem_from_uri X uri =
     (case Option.bind (x_url_to_file_path X uri) path_file_stem of
        Some stem \<Rightarrow> Some stem
      | None \<Rightarrow> uri_path_stem (x_url_path X uri))"

definition path_from_uri :: "externals \<Rightarrow> url \<Rightarrow> path option" where
  "path_from_uri X uri =
     (case x_url_to_file_path X uri of
        Some p \<Rightarrow> Some p
      | None \<Rightarrow>
          if x_url_scheme X uri \<noteq> lit ''file'' \<or> x_url_cannot_be_a_base X uri then None
          else if x_url_path X uri = [] then None
          else Some (path_of_str (x_url_path X uri)))"

section \<open>Source sets\<close>

definition is_test_source_set :: "str \<Rightarrow> bool" where
  "is_test_source_set uri =
     (case find_sub uri (lit ''/src/'') of
        None \<Rightarrow> False
      | Some i \<Rightarrow>
          (let after = drop (i + length (lit ''/src/'')) uri;
               rest = (case find_sub after (lit ''/src/'') of None \<Rightarrow> after | Some j \<Rightarrow> take j after);
               segment = takeWhile (\<lambda>c. c \<noteq> ch CHR ''/'') rest
           in if segment = lit ''testFixtures'' then False
              else starts_with segment (lit ''test'') \<or> starts_with segment (lit ''androidTest'')
                \<or> ends_with segment (lit ''Test'')))"

definition classify_source_set :: "str \<Rightarrow> str list \<Rightarrow> source_set" where
  "classify_source_set uri source_paths =
     (if list_ex (\<lambda>sp. contains_sub uri (to_forward_slash sp)) source_paths then Library
      else if is_test_source_set uri then Test
      else Main)"

definition resolve_source_paths :: "str list \<Rightarrow> path \<Rightarrow> path list" where
  "resolve_source_paths raw_paths workspace_root =
     map (\<lambda>s. let p = path_of_str s
              in if path_is_absolute p then p else path_join workspace_root p) raw_paths"

section \<open>Content hash\<close>

unbundle bit_operations_syntax

definition hash_step :: "nat \<Rightarrow> 64 word \<Rightarrow> 64 word" where
  "hash_step b h = (h XOR of_nat b) * 0x100000001b3"

definition hash_str :: "str \<Rightarrow> 64 word" where
  "hash_str s = fold hash_step (utf8_bytes s) 0xcbf29ce484222325"

section \<open>What a file contributes\<close>

definition derive_supertypes :: "url \<Rightarrow> file_data \<Rightarrow> (str \<times> location) list" where
  "derive_supertypes uri d =
     concat (map (\<lambda>s.
       if se_kind s \<notin> set CLASS_KINDS then []
       else map (\<lambda>(_, super_name, _). (super_name, Location uri (se_selection_range s)))
              (filter (\<lambda>(l, _, _). l = selection_start s) (fd_supers d)))
     (fd_symbols d))"

definition build_qualified_keys :: "file_data \<Rightarrow> str option \<Rightarrow> (str \<times> lsp_range) list" where
  "build_qualified_keys d file_stem =
     (case fd_package d of
        None \<Rightarrow> []
      | Some pkg \<Rightarrow>
          concat (map (\<lambda>symbol.
            (if se_container symbol = None
             then [(pkg @ lit ''.'' @ se_name symbol, se_selection_range symbol)] else [])
            @ (case file_stem of
                 None \<Rightarrow> []
               | Some stem \<Rightarrow>
                   if stem \<noteq> se_name symbol
                   then [(pkg @ lit ''.'' @ stem @ lit ''.'' @ se_name symbol, se_selection_range symbol)]
                   else []))
          (fd_symbols d)))"

record file_contributions =
  fc_definitions :: "(str \<times> location list) list"
  fc_qualified :: "(str \<times> location) list"
  fc_packages :: "(str \<times> str list) list"
  fc_subtypes :: "(str \<times> location list) list"
  fc_extensions :: "(str \<times> extension_entry list) list"
  fc_file_data :: "str \<times> file_data"
  fc_content_hash :: "str \<times> 64 word"

record stale_keys =
  sk_definition_names :: "str list"
  sk_qualified_keys :: "str list"
  sk_package :: "str option"

text \<open>\<open>iter.collect::<HashMap<_, _>>()\<close>: the last value of a key stays.\<close>

definition collect_map :: "('k \<times> 'v) list \<Rightarrow> ('k \<times> 'v) list" where
  "collect_map kvs = fold (\<lambda>(k, v). AList.update k v) kvs []"

definition extension_entry_of :: "url \<Rightarrow> file_data \<Rightarrow> symbol_entry \<Rightarrow> extension_entry" where
  "extension_entry_of uri d s = \<lparr>ee_file_uri = uri, ee_name = se_name s, ee_kind = se_kind s,
     ee_detail = se_detail s, ee_visibility = se_visibility s, ee_package = fd_package d,
     ee_trailing_lambda = se_trailing_lambda s, ee_deprecated = se_deprecated s,
     ee_container = se_container s\<rparr>"

definition contributions_from_data ::
  "externals \<Rightarrow> url \<Rightarrow> file_data \<Rightarrow> 64 word \<Rightarrow> (str \<times> location) list \<Rightarrow> file_contributions" where
  "contributions_from_data X uri d content_hash supertypes =
     \<lparr>fc_definitions = group_by_key
        (map (\<lambda>s. (se_name s, Location uri (se_selection_range s))) (fd_symbols d)),
      fc_qualified = collect_map
        (map (\<lambda>(key, r). (key, Location uri r)) (build_qualified_keys d (file_stem_from_uri X uri))),
      fc_packages = (case fd_package d of None \<Rightarrow> [] | Some pkg \<Rightarrow> [(pkg, [uri])]),
      fc_subtypes = group_by_key supertypes,
      fc_extensions = group_by_key
        (map (\<lambda>s. (extension_receiver s, extension_entry_of uri d s))
          (filter (\<lambda>s. extension_receiver s \<noteq> []) (fd_symbols d))),
      fc_file_data = (uri, d),
      fc_content_hash = (uri, content_hash)\<rparr>"

definition file_contributions_of :: "externals \<Rightarrow> file_index_result \<Rightarrow> file_contributions" where
  "file_contributions_of X r =
     contributions_from_data X (fr_uri r) (fr_data r) (fr_content_hash r) (fr_supertypes r)"

definition visible_outside :: "symbol_entry \<Rightarrow> bool" where
  "visible_outside s \<longleftrightarrow> se_visibility s \<notin> {Private, Internal}"

definition strip_library_private_symbols ::
  "file_index_result list \<Rightarrow> url set \<Rightarrow> file_index_result list" where
  "strip_library_private_symbols rs library_uris =
     map (\<lambda>r. if fr_uri r \<in> library_uris
              then r\<lparr>fr_data := (fr_data r)\<lparr>fd_symbols := filter visible_outside (fd_symbols (fr_data r))\<rparr>\<rparr>
              else r) rs"

definition stale_keys_for :: "externals \<Rightarrow> url \<Rightarrow> file_data \<Rightarrow> stale_keys" where
  "stale_keys_for X uri old_data =
     \<lparr>sk_definition_names = map se_name (fd_symbols old_data),
      sk_qualified_keys = map fst (build_qualified_keys old_data (file_stem_from_uri X uri)),
      sk_package = fd_package old_data\<rparr>"

definition parse_by_extension :: "externals \<Rightarrow> str \<Rightarrow> str \<Rightarrow> file_data" where
  "parse_by_extension X p content = x_parse X (from_path p) content"

definition parse_file :: "externals \<Rightarrow> url \<Rightarrow> str \<Rightarrow> file_index_result" where
  "parse_file X uri content =
     (let d = parse_by_extension X (x_url_path X uri) content
      in \<lparr>fr_uri = uri, fr_data = d, fr_supertypes = derive_supertypes uri d,
          fr_content_hash = hash_str content, fr_error = None\<rparr>)"

section \<open>Lemmas on the content hash\<close>

lemma hash_prime_inverse: "(0x100000001b3 :: 64 word) * 0xce965057aff6957b = 1"
  by simp

lemma hash_mult_inject:
  fixes a b :: "64 word"
  assumes "a * 0x100000001b3 = b * 0x100000001b3"
  shows "a = b"
proof -
  have "a * 0x100000001b3 * 0xce965057aff6957b = b * 0x100000001b3 * 0xce965057aff6957b"
    using assms by simp
  then show ?thesis by (simp only: mult.assoc hash_prime_inverse mult_1_right)
qed

lemma word_xor_inject: "(a XOR c = b XOR c) = (a = (b :: 64 word))"
proof
  assume "a XOR c = b XOR c"
  then have "(a XOR c) XOR c = (b XOR c) XOR c" by simp
  then show "a = b" by (simp only: word_bw_assocs(3)) simp
qed simp

lemma hash_step_inject: "hash_step x h = hash_step x k \<longleftrightarrow> h = k"
  unfolding hash_step_def using hash_mult_inject word_xor_inject by metis

lemma fold_hash_step_inject: "fold hash_step bs h = fold hash_step bs k \<longleftrightarrow> h = k"
  by (induction bs arbitrary: h k) (simp_all add: hash_step_inject)

lemma hash_step_byte_inject:
  assumes "hash_step x h = hash_step y h" and "x < 256" and "y < 256"
  shows "x = y"
proof -
  have "h XOR of_nat x = h XOR of_nat y"
    using assms(1) unfolding hash_step_def by (rule hash_mult_inject)
  then have "of_nat x XOR h = of_nat y XOR h" by (simp only: word_bw_comms(3))
  then have "(of_nat x :: 64 word) = of_nat y" by (simp only: word_xor_inject)
  then have "unat (of_nat x :: 64 word) = unat (of_nat y :: 64 word)" by simp
  then show ?thesis using assms(2,3) by (simp add: unat_of_nat take_bit_nat_eq_self)
qed

lemma encode_char_bytes: "c < 1114112 \<Longrightarrow> b \<in> set (encode_char c) \<Longrightarrow> b < 256"
  by (auto simp: encode_char_def split: if_split_asm)

section \<open>Lemmas on contributions\<close>

lemma collect_map_aux:
  "distinct (map fst m) \<Longrightarrow> distinct (map fst (fold (\<lambda>(k, v). AList.update k v) kvs m))
    \<and> map_of (fold (\<lambda>(k, v). AList.update k v) kvs m) = map_of m ++ map_of (rev kvs)"
proof (induction kvs arbitrary: m)
  case Nil
  then show ?case by simp
next
  case (Cons kv kvs)
  obtain k v where kv: "kv = (k, v)" by (cases kv)
  have "distinct (map fst (AList.update k v m))" using Cons.prems by (simp add: distinct_update)
  from Cons.IH [OF this] show ?case
    by (simp add: kv update_conv' map_add_upd_left fun_upd_def map_add_def)
       (auto simp: fun_eq_iff split: option.splits)
qed

lemma distinct_collect_map [simp]: "distinct (map fst (collect_map kvs))"
  using collect_map_aux [of "[]" kvs] by (simp add: collect_map_def)

lemma map_of_collect_map: "map_of (collect_map kvs) = map_of (rev kvs)"
  using collect_map_aux [of "[]" kvs] by (simp add: collect_map_def)

lemma keys_collect_map: "fst ` set (collect_map kvs) = fst ` set kvs"
proof -
  have "dom (map_of (collect_map kvs)) = dom (map_of (rev kvs))" by (simp add: map_of_collect_map)
  then show ?thesis by (simp add: dom_map_of_conv_image_fst)
qed

lemma set_collect_map: "set (collect_map kvs) \<subseteq> set kvs"
proof
  fix kv assume kv: "kv \<in> set (collect_map kvs)"
  have "(fst kv, snd kv) \<in> set (collect_map kvs)" using kv by simp
  then have "map_of (collect_map kvs) (fst kv) = Some (snd kv)"
    by (rule map_of_is_SomeI [OF distinct_collect_map])
  then show "kv \<in> set kvs" using map_of_SomeD [of "rev kvs" "fst kv" "snd kv"]
    by (simp add: map_of_collect_map)
qed

lemma keys_group_by_key: "fst ` set (group_by_key kvs) = fst ` set kvs"
proof -
  have "fst ` set (fold (\<lambda>(k, v). al_push k v) kvs m) = fst ` set m \<union> fst ` set kvs" for m
    by (induction kvs arbitrary: m) (simp_all add: case_prod_beta)
  then show ?thesis by (simp add: group_by_key_def)
qed

section \<open>Properties\<close>

text \<open>A change of one byte is always noticed: texts whose UTF-8 encodings differ in exactly one
  byte have different content hashes, so \<open>index_content\<close> indexes such an edit again.\<close>

theorem hash_str_one_byte:
  assumes "utf8_bytes s = a @ x # b" and "utf8_bytes t = a @ y # b"
    and "x \<noteq> y" and "x < 256" and "y < 256"
  shows "hash_str s \<noteq> hash_str t"
  using assms hash_step_byte_inject [of x _ y]
  by (auto simp: hash_str_def fold_hash_step_inject)

theorem hash_str_one_byte_witness:
  "hash_str (lit ''val a = 1'') \<noteq> hash_str (lit ''val a = 2'')"
  by (rule hash_str_one_byte [where a = "lit ''val a = ''" and b = "[]" and x = 49 and y = 50])
     (simp_all add: utf8_bytes_def encode_char_def)

text \<open>What is removed for a file is what was added for it: the keys \<open>stale_keys_for\<close> computes
  from a file's data are exactly the definition names, qualified names and package of its
  contributions.\<close>

theorem stale_keys_match_contributions:
  "set (sk_definition_names (stale_keys_for X uri d)) = fst ` set (fc_definitions (contributions_from_data X uri d h supers))
   \<and> set (sk_qualified_keys (stale_keys_for X uri d)) = fst ` set (fc_qualified (contributions_from_data X uri d h supers))
   \<and> fst ` set (fc_packages (contributions_from_data X uri d h supers)) = set_option (sk_package (stale_keys_for X uri d))"
  by (cases "fd_package d")
     (simp_all add: stale_keys_for_def contributions_from_data_def keys_group_by_key keys_collect_map
        image_image case_prod_beta)

lemma of_char_slash: "(ch CHR ''/'' :: nat) = 47"
  by simp

lemma if_bool_eq_conj_not: "(if x = y then False else b) = (x \<noteq> y \<and> b)"
  by simp

text \<open>Test sources are recognised by the directory below the first \<open>/src/\<close> of a URI: a
  path component \<open>test...\<close>, \<open>androidTest...\<close> or \<open>...Test\<close> is a test set unless it is
  \<open>testFixtures\<close>.\<close>

theorem is_test_source_set_component:
  assumes "find_sub uri (lit ''/src/'') = Some i" and "drop (i + 5) uri = seg @ lit ''/'' @ rest"
    and "ch CHR ''/'' \<notin> set seg"
  shows "is_test_source_set uri \<longleftrightarrow> seg \<noteq> lit ''testFixtures''
    \<and> (starts_with seg (lit ''test'') \<or> starts_with seg (lit ''androidTest'') \<or> ends_with seg (lit ''Test''))"
proof -
  let ?after = "seg @ lit ''/'' @ rest"
  have all: "\<forall>c\<in>set seg. c \<noteq> 47" using assms(3) by auto
  have tw: "takeWhile (\<lambda>c. c \<noteq> 47) (seg @ 47 # z) = seg" for z
    using all by (simp add: takeWhile_append2)
  have "takeWhile (\<lambda>c. c \<noteq> 47) (case find_sub ?after (lit ''/src/'') of None \<Rightarrow> ?after | Some j \<Rightarrow> take j ?after) = seg"
  proof (cases "find_sub ?after (lit ''/src/'')")
    case None
    then show ?thesis using tw by simp
  next
    case (Some j)
    have "starts_with (drop j ?after) (lit ''/src/'')" using find_sub_Some [OF Some] by blast
    then obtain z where z: "drop j ?after = 47 # z" by (auto simp: starts_with_iff)
    have "length seg \<le> j"
    proof (rule ccontr)
      assume "\<not> length seg \<le> j"
      then have j: "j < length seg" by simp
      have "47 = drop j ?after ! 0" by (simp only: z nth_Cons_0)
      also have "\<dots> = seg ! j" using j by (simp add: nth_append)
      finally show False using j all nth_mem by metis
    qed
    then obtain k where "j = length seg + k" by (metis le_Suc_ex)
    then show ?thesis using Some all by (cases k) (simp_all add: takeWhile_append2 takeWhile_eq_all_conv)
  qed
  then have seg: "takeWhile (\<lambda>c. c \<noteq> ch CHR ''/'')
      (case find_sub ?after (lit ''/src/'') of None \<Rightarrow> ?after | Some j \<Rightarrow> take j ?after) = seg"
    by (simp only: of_char_slash)
  have after: "drop (i + length (lit ''/src/'')) uri = ?after"
    using assms(2) by (simp add: numeral_eq_Suc)
  show ?thesis
    unfolding is_test_source_set_def assms(1) option.case Let_def after seg by (rule if_bool_eq_conj_not)
qed

theorem is_test_source_set_component_witness:
  "is_test_source_set (lit ''/src/testDemo/A'')"
proof -
  have "find_sub (lit ''/src/testDemo/A'') (lit ''/src/'') = Some 0" by (simp add: starts_with_def)
  moreover have "drop (0 + 5) (lit ''/src/testDemo/A'') = lit ''testDemo'' @ lit ''/'' @ lit ''A''" by simp
  moreover have "ch CHR ''/'' \<notin> set (lit ''testDemo'')" by simp
  moreover have "lit ''testDemo'' \<noteq> lit ''testFixtures''" by simp
  moreover have "starts_with (lit ''testDemo'') (lit ''test'')" by (simp add: starts_with_def)
  ultimately show ?thesis using is_test_source_set_component by blast
qed

end
