(* ===== verification/Jar_Types.thy ===== *)
theory Jar_Types
  imports Interning "HOL-Library.Word"
begin

text \<open>
  The data of the JAR pipeline: \<open>SidecarSymbol\<close> of \<^verbatim>\<open>src/sidecar.rs\<close>, the entry of the JAR
  symbol cache and its save throttle (\<^verbatim>\<open>src/indexer/jar_cache.rs\<close>) and the entries of the
  JAR manifest (\<^verbatim>\<open>src/indexer/jar_manifest_cache.rs\<close>). An \<open>Instant\<close> is a number of
  milliseconds.
\<close>

record sidecar_symbol =
  sd_name :: str
  sd_kind :: str
  sd_container :: str
  sd_detail :: str
  sd_doc :: str
  sd_type_params :: "str list"
  sd_extension_receiver_type :: str
  sd_trailing_lambda :: bool
  sd_deprecated :: bool
  sd_pkg :: str
  sd_top_level :: bool
  sd_supers :: "str list"

record jar_cache_entry =
  jc_mtime_secs :: "64 word"
  jc_mtime_nanos :: "32 word"
  jc_file_size :: "64 word"
  jc_symbols :: "sidecar_symbol list"

record jar_cache_throttle =
  th_pending_entries :: nat
  th_last_save :: "nat option"

definition throttle_new :: jar_cache_throttle where
  "throttle_new = \<lparr>th_pending_entries = 0, th_last_save = None\<rparr>"

record jar_manifest_name =
  mn_name :: str
  mn_kind :: str
  mn_container :: "str option"
  mn_package :: "str option"
  mn_extension_receiver :: "str option"

record jar_manifest_entry =
  me_mtime_secs :: "64 word"
  me_mtime_nanos :: "32 word"
  me_file_size :: "64 word"
  me_names :: "jar_manifest_name list"

end
