(* ===== verification/Index_State.thy ===== *)
theory Index_State
  imports Jar_Types Contributions
begin

text \<open>
  The state of the server's index: \<open>Indexer\<close> of \<^verbatim>\<open>src/indexer.rs\<close>, with
  \<^verbatim>\<open>src/indexer/workspace_root.rs\<close> and \<^verbatim>\<open>src/indexer/jar_phase.rs\<close>, its operations that
  read, reset and look up, but do not apply a file.

  The record has the fields those operations and the apply phase use. Caches of which only presence
  and removal matter are sets of their keys. Atomic counters are 64-bit words.
\<close>

section \<open>Workspace root\<close>

record workspace_root =
  ws_path :: "path option"
  ws_generation :: "64 word"

definition ws_new :: workspace_root where
  "ws_new = \<lparr>ws_path = None, ws_generation = 0\<rparr>"

definition ws_set :: "path \<Rightarrow> workspace_root \<Rightarrow> workspace_root" where
  "ws_set root w = w\<lparr>ws_path := Some root, ws_generation := ws_generation w + 1\<rparr>"

definition bump_generation :: "workspace_root \<Rightarrow> workspace_root" where
  "bump_generation w = w\<lparr>ws_generation := ws_generation w + 1\<rparr>"

section \<open>JAR phase\<close>

datatype jar_phase = JarUnavailable | JarPending | JarInProgress | JarReady nat | JarFailed str

definition is_loading :: "jar_phase \<Rightarrow> bool" where
  "is_loading p \<longleftrightarrow> p \<in> {JarPending, JarInProgress}"

text \<open>\<open>GradleMeta\<close> of \<^verbatim>\<open>src/gradle_cache.rs\<close>.\<close>

record gradle_meta =
  gm_group :: str
  gm_artifact :: str
  gm_version :: str

section \<open>The index\<close>

text \<open>A live tree is represented by the content it was parsed from, an ignore matcher by the
  arguments it was built from.\<close>

record indexer =
  ix_files :: "(str, file_data) hmap"
  ix_definitions :: "(str, symbol_loc list) hmap"
  ix_qualified :: "(str, symbol_loc) hmap"
  ix_file_table :: file_table
  ix_packages :: "(str, file_id list) hmap"
  ix_workspace_root :: workspace_root
  ix_content_hashes :: "(str, 64 word) hmap"
  ix_parse_count :: "64 word"
  ix_completion_cache :: "str set"
  ix_live_lines :: "(str, str list) hmap"
  ix_subtypes :: "(str, symbol_loc list) hmap"
  ix_bare_name_cache :: "str list"
  ix_bare_names_dirty :: bool
  ix_last_completion :: "(str \<times> str) option"
  ix_this_ext_ancestor_cache :: "str set"
  ix_completion_epoch :: "64 word"
  ix_indexing_in_progress :: bool
  ix_pending_reindex :: bool
  ix_pending_reindex_root :: "path option"
  ix_pending_reindex_max :: nat
  ix_workspace_pinned :: bool
  ix_last_scan_complete :: bool
  ix_source_paths_raw :: "str list"
  ix_workspace_source_roots :: "str list"
  ix_library_uris :: "str set"
  ix_extracted_jar_sources :: "(str, str) hmap"
  ix_importable_fqns :: "(str, str list) hmap"
  ix_sig_cache :: "(str \<times> str, str option) hmap"
  ix_sig_fast_cache :: "(str \<times> str, str option) hmap"
  ix_enrichment_seen :: "str set"
  ix_jar_phase :: jar_phase
  ix_jar_sidecar_alive :: bool
  ix_extension_by_receiver :: "(str, extension_entry list) hmap"
  ix_jar_files :: "(str, file_data) hmap"
  ix_jar_definitions :: "(str, location list) hmap"
  ix_jar_uri_to_defs :: "(str, str list) hmap"
  ix_jar_qualified :: "(str, jar_id) hmap"
  ix_jar_bare_names :: "(str, jar_id list) hmap"
  ix_jar_extension_receivers :: "(str, jar_id list) hmap"
  ix_jar_symbol_packages :: "(str, str list) hmap"
  ix_materialized :: "jar_id set"
  ix_materialization_failed :: "jar_id set"
  ix_live_trees :: "(str, str) hmap"
  ix_repair_candidates :: "str set"
  ix_ignore_matcher :: "(str list \<times> path) option"
  ix_module_dependencies :: "(path, gradle_meta set) hmap"
  ix_scheduled_paths :: "(str, 64 word) hmap"
  ix_parse_tasks_completed :: nat
  ix_parse_tasks_total :: nat
  ix_jar_table :: jar_table
  ix_jar_symbol_cache :: "(str, jar_cache_entry) hmap option"
  ix_jar_cache_throttle :: jar_cache_throttle

definition MAX_BY_NAME_DEFS :: nat where
  "MAX_BY_NAME_DEFS = 64"

text \<open>\<open>Indexer::new\<close>; the argument says whether the sidecar process was launched.\<close>

definition indexer_new :: "bool \<Rightarrow> indexer" where
  "indexer_new sidecar =
     \<lparr>ix_files = Mapping.empty, ix_definitions = Mapping.empty, ix_qualified = Mapping.empty,
      ix_file_table = ft_new, ix_packages = Mapping.empty, ix_workspace_root = ws_new,
      ix_content_hashes = Mapping.empty, ix_parse_count = 0, ix_completion_cache = {},
      ix_live_lines = Mapping.empty, ix_subtypes = Mapping.empty, ix_bare_name_cache = [],
      ix_bare_names_dirty = True, ix_last_completion = None, ix_this_ext_ancestor_cache = {},
      ix_completion_epoch = 0, ix_indexing_in_progress = False, ix_pending_reindex = False,
      ix_pending_reindex_root = None, ix_pending_reindex_max = 0, ix_workspace_pinned = False,
      ix_last_scan_complete = False, ix_source_paths_raw = [], ix_workspace_source_roots = [],
      ix_library_uris = {}, ix_extracted_jar_sources = Mapping.empty,
      ix_importable_fqns = Mapping.empty, ix_sig_cache = Mapping.empty, ix_sig_fast_cache = Mapping.empty,
      ix_enrichment_seen = {}, ix_jar_phase = (if sidecar then JarPending else JarUnavailable),
      ix_jar_sidecar_alive = sidecar, ix_extension_by_receiver = Mapping.empty,
      ix_jar_files = Mapping.empty, ix_jar_definitions = Mapping.empty,
      ix_jar_uri_to_defs = Mapping.empty, ix_jar_qualified = Mapping.empty,
      ix_jar_bare_names = Mapping.empty, ix_jar_extension_receivers = Mapping.empty,
      ix_jar_symbol_packages = Mapping.empty, ix_materialized = {}, ix_materialization_failed = {},
      ix_live_trees = Mapping.empty, ix_repair_candidates = {}, ix_ignore_matcher = None,
      ix_module_dependencies = Mapping.empty, ix_scheduled_paths = Mapping.empty,
      ix_parse_tasks_completed = 0, ix_parse_tasks_total = 0, ix_jar_table = jt_new,
      ix_jar_symbol_cache = None, ix_jar_cache_throttle = throttle_new\<rparr>"

definition library_file :: "indexer \<Rightarrow> file_id \<Rightarrow> bool" where
  "library_file ix fid =
     (case ft_url (ix_file_table ix) fid of None \<Rightarrow> False | Some u \<Rightarrow> u \<in> ix_library_uris ix)"

text \<open>Everything of the workspace goes, library entries stay.\<close>

definition reset_index_state :: "indexer \<Rightarrow> indexer" where
  "reset_index_state ix =
     (let is_library = (\<lambda>uri. uri \<in> ix_library_uris ix);
          files' = Mapping.filter (\<lambda>uri _. is_library uri) (ix_files ix)
      in ix\<lparr>ix_files := files',
            ix_definitions := retain_nonempty (\<lambda>l. library_file ix (sl_file l)) (ix_definitions ix),
            ix_qualified := Mapping.filter (\<lambda>_ l. library_file ix (sl_file l)) (ix_qualified ix),
            ix_packages := retain_nonempty (library_file ix) (ix_packages ix),
            ix_subtypes := retain_nonempty (\<lambda>l. library_file ix (sl_file l)) (ix_subtypes ix),
            ix_content_hashes := Mapping.filter (\<lambda>uri _. is_library uri) (ix_content_hashes ix),
            ix_completion_cache := {},
            ix_extension_by_receiver :=
              retain_nonempty (\<lambda>e. is_library (ee_file_uri e)) (ix_extension_by_receiver ix),
            ix_library_uris := {u \<in> ix_library_uris ix. Mapping.lookup files' u \<noteq> None},
            ix_bare_name_cache := [],
            ix_importable_fqns := Mapping.empty,
            ix_last_completion := None,
            ix_this_ext_ancestor_cache := {},
            ix_completion_epoch := ix_completion_epoch ix + 1,
            ix_sig_cache := Mapping.empty,
            ix_sig_fast_cache := Mapping.empty,
            ix_enrichment_seen := {},
            ix_bare_names_dirty := True\<rparr>)"

definition set_live_lines :: "url \<Rightarrow> str \<Rightarrow> indexer \<Rightarrow> indexer" where
  "set_live_lines uri content ix =
     ix\<lparr>ix_live_lines := Mapping.update uri (str_lines content) (ix_live_lines ix)\<rparr>"

definition mem_lines_for :: "indexer \<Rightarrow> str \<Rightarrow> str list option" where
  "mem_lines_for ix uri =
     (case Mapping.lookup (ix_live_lines ix) uri of
        Some live \<Rightarrow> Some live
      | None \<Rightarrow> map_option fd_lines (Mapping.lookup (ix_files ix) uri))"

definition file_data_for :: "indexer \<Rightarrow> str \<Rightarrow> file_data option" where
  "file_data_for ix uri =
     (case Mapping.lookup (ix_files ix) uri of
        Some d \<Rightarrow> Some d
      | None \<Rightarrow> Mapping.lookup (ix_jar_files ix) uri)"

definition subtypes_of :: "indexer \<Rightarrow> str \<Rightarrow> location list" where
  "subtypes_of ix name =
     List.map_filter (ft_location (ix_file_table ix)) (postings (ix_subtypes ix) name)"

definition clear_jar_index :: "indexer \<Rightarrow> indexer" where
  "clear_jar_index ix =
     ix\<lparr>ix_library_uris := ix_library_uris ix - Mapping.keys (ix_jar_files ix),
        ix_jar_files := Mapping.empty,
        ix_jar_definitions := Mapping.empty,
        ix_bare_names_dirty := True,
        ix_jar_uri_to_defs := Mapping.empty,
        ix_jar_phase := (if ix_jar_sidecar_alive ix then JarPending else JarUnavailable)\<rparr>"

definition jar_qualified_or_bare_has_candidate :: "indexer \<Rightarrow> str \<Rightarrow> bool" where
  "jar_qualified_or_bare_has_candidate ix name \<longleftrightarrow>
     Mapping.lookup (ix_jar_bare_names ix) name \<noteq> None
     \<or> Mapping.lookup (ix_jar_qualified ix) name \<noteq> None"

definition location_key :: "location \<Rightarrow> str \<times> position" where
  "location_key l = (loc_uri l, r_start (loc_range l))"

text \<open>The sort is unstable in the program; the model keeps ties in their order.\<close>

definition location_le :: "location \<Rightarrow> location \<Rightarrow> bool" where
  "location_le a b \<longleftrightarrow> loc_uri a < loc_uri b
     \<or> (loc_uri a = loc_uri b \<and> r_start (loc_range a) \<le> r_start (loc_range b))"

fun insert_location :: "location \<Rightarrow> location list \<Rightarrow> location list" where
  "insert_location a [] = [a]"
| "insert_location a (b # bs) = (if location_le a b then a # b # bs else b # insert_location a bs)"

definition sort_locations :: "location list \<Rightarrow> location list" where
  "sort_locations ls = foldr insert_location ls []"

definition workspace_def_candidates :: "indexer \<Rightarrow> str \<Rightarrow> location list" where
  "workspace_def_candidates ix name =
     (case Mapping.lookup (ix_definitions ix) name of
        None \<Rightarrow> []
      | Some locations \<Rightarrow>
          take MAX_BY_NAME_DEFS (sort_locations
            (List.map_filter (\<lambda>l. case ft_url (ix_file_table ix) (sl_file l) of
                 None \<Rightarrow> None
               | Some u \<Rightarrow> if u \<in> ix_library_uris ix then None else Some (Location u (sl_range l)))
             locations)))"

definition find_in_workspace_defs :: "indexer \<Rightarrow> str \<Rightarrow> (location \<Rightarrow> 'a option) \<Rightarrow> 'a option" where
  "find_in_workspace_defs ix name f =
     (case List.map_filter f (workspace_def_candidates ix name) of [] \<Rightarrow> None | x # _ \<Rightarrow> Some x)"

definition is_library_uri :: "indexer \<Rightarrow> url \<Rightarrow> bool" where
  "is_library_uri ix uri \<longleftrightarrow> uri \<in> ix_library_uris ix"

definition record_extracted_jar_source :: "url \<Rightarrow> url \<Rightarrow> indexer \<Rightarrow> indexer" where
  "record_extracted_jar_source extracted_uri jar_source_uri ix =
     ix\<lparr>ix_extracted_jar_sources := Mapping.update extracted_uri jar_source_uri (ix_extracted_jar_sources ix)\<rparr>"

definition original_jar_source_uri :: "externals \<Rightarrow> indexer \<Rightarrow> url \<Rightarrow> url option" where
  "original_jar_source_uri X ix uri =
     Option.bind (Mapping.lookup (ix_extracted_jar_sources ix) uri) (x_url_parse X)"

text \<open>\<open>effective_rg_root\<close> of \<^verbatim>\<open>src/rg.rs\<close> walks the file system; its result is an argument.\<close>

definition scoped_source_roots :: "indexer \<Rightarrow> path option \<Rightarrow> str list" where
  "scoped_source_roots ix effective_root =
     (case (effective_root, ws_path (ix_workspace_root ix)) of
        (Some e, Some w) \<Rightarrow> if e = w then ix_workspace_source_roots ix else []
      | _ \<Rightarrow> [])"

definition remove_live_lines :: "url \<Rightarrow> indexer \<Rightarrow> indexer" where
  "remove_live_lines uri ix = ix\<lparr>ix_live_lines := Mapping.delete uri (ix_live_lines ix)\<rparr>"

text \<open>\<^verbatim>\<open>src/indexer/live_tree.rs\<close> and \<^verbatim>\<open>live_tree_impl.rs\<close>: the grammar of a path,
  and the live trees of open files.\<close>

definition lang_for_path :: "str \<Rightarrow> language option" where
  "lang_for_path p =
     (case from_path p of
        Swift \<Rightarrow> if ends_with p (lit ''.swift'') then Some Swift else None
      | Java \<Rightarrow> if ends_with p (lit ''.java'') then Some Java else None
      | Kotlin \<Rightarrow> if ends_with p (lit ''.kt'') \<or> ends_with p (lit ''.kts'') then Some Kotlin else None)"

definition store_live_tree :: "externals \<Rightarrow> url \<Rightarrow> str \<Rightarrow> indexer \<Rightarrow> indexer" where
  "store_live_tree X uri content ix =
     (let parsed = (case lang_for_path (x_url_path X uri) of
                      None \<Rightarrow> False
                    | Some lang \<Rightarrow> x_parse_live X content lang)
      in ix\<lparr>ix_live_trees := (if parsed then Mapping.update uri content (ix_live_trees ix)
                               else Mapping.delete uri (ix_live_trees ix)),
            ix_repair_candidates := ix_repair_candidates ix - {uri}\<rparr>)"

definition remove_live_tree :: "url \<Rightarrow> indexer \<Rightarrow> indexer" where
  "remove_live_tree uri ix =
     ix\<lparr>ix_live_trees := Mapping.delete uri (ix_live_trees ix),
        ix_repair_candidates := ix_repair_candidates ix - {uri}\<rparr>"

definition remove_indexed_file :: "url \<Rightarrow> indexer \<Rightarrow> indexer" where
  "remove_indexed_file uri ix = ix\<lparr>ix_files := Mapping.delete uri (ix_files ix)\<rparr>"

definition invalidate_completion_cache :: "indexer \<Rightarrow> indexer" where
  "invalidate_completion_cache ix =
     ix\<lparr>ix_last_completion := None, ix_this_ext_ancestor_cache := {},
        ix_completion_epoch := ix_completion_epoch ix + 1\<rparr>"

definition note_jar_symbols_populated :: "indexer \<Rightarrow> indexer" where
  "note_jar_symbols_populated ix = invalidate_completion_cache (ix\<lparr>ix_bare_names_dirty := True\<rparr>)"

section \<open>Lemmas on candidates\<close>

lemma location_le_total: "location_le a b \<or> location_le b a"
  by (auto simp: location_le_def)

lemma location_le_trans: "location_le a b \<Longrightarrow> location_le b c \<Longrightarrow> location_le a c"
  by (auto simp: location_le_def)

lemma mset_insert_location: "set (insert_location a bs) = insert a (set bs)"
  by (induction a bs rule: insert_location.induct) auto

lemma sorted_insert_location:
  "sorted_wrt location_le bs \<Longrightarrow> sorted_wrt location_le (insert_location a bs)"
proof (induction a bs rule: insert_location.induct)
  case (1 a)
  then show ?case by simp
next
  case (2 a b bs)
  show ?case
  proof (cases "location_le a b")
    case True
    then show ?thesis using 2 location_le_trans by auto
  next
    case False
    then have "location_le b a" using location_le_total by blast
    with False 2 show ?thesis by (auto simp: mset_insert_location)
  qed
qed

lemma set_sort_locations [simp]: "set (sort_locations ls) = set ls"
  by (induction ls) (simp_all add: sort_locations_def mset_insert_location)

lemma sorted_sort_locations: "sorted_wrt location_le (sort_locations ls)"
  by (induction ls) (simp_all add: sort_locations_def sorted_insert_location)

lemma length_sort_locations [simp]: "length (sort_locations ls) = length ls"
proof -
  have "length (insert_location a bs) = Suc (length bs)" for a bs
    by (induction a bs rule: insert_location.induct) auto
  then show ?thesis by (induction ls) (simp_all add: sort_locations_def)
qed

lemma set_map_filter: "set (List.map_filter f xs) = {y. \<exists>x\<in>set xs. f x = Some y}"
  by (induction xs) (auto simp: List.map_filter_def split: option.splits)

lemma set_take_sorted_below:
  assumes "sorted_wrt P xs" and "y \<in> set xs" and "y \<notin> set (take n xs)" and "x \<in> set (take n xs)"
  shows "P x y"
proof -
  have "y \<in> set (drop n xs)" using assms(2,3) by (metis append_take_drop_id Un_iff set_append)
  moreover have "sorted_wrt P (take n xs @ drop n xs)" using assms(1) by simp
  ultimately show ?thesis using assms(4) unfolding sorted_wrt_append by blast
qed

lemma sorted_wrt_take: "sorted_wrt P xs \<Longrightarrow> sorted_wrt P (take n xs)"
  by (metis append_take_drop_id sorted_wrt_append)

text \<open>The workspace locations of a name, as a set.\<close>

definition workspace_locations :: "indexer \<Rightarrow> str \<Rightarrow> location set" where
  "workspace_locations ix name =
     {loc. \<exists>l\<in>set (postings (ix_definitions ix) name).
        ft_location (ix_file_table ix) l = Some loc \<and> loc_uri loc \<notin> ix_library_uris ix}"

lemma workspace_def_candidates_eq:
  "\<exists>ls. workspace_def_candidates ix name = take MAX_BY_NAME_DEFS ls
     \<and> sorted_wrt location_le ls \<and> set ls = workspace_locations ix name"
proof (cases "Mapping.lookup (ix_definitions ix) name")
  case None
  then show ?thesis
    by (auto simp: workspace_def_candidates_def workspace_locations_def postings_def intro!: exI [of _ "[]"])
next
  case (Some locs)
  let ?f = "\<lambda>l. case ft_url (ix_file_table ix) (sl_file l) of
                 None \<Rightarrow> None
               | Some u \<Rightarrow> if u \<in> ix_library_uris ix then None else Some (Location u (sl_range l))"
  have "set (List.map_filter ?f locs) = workspace_locations ix name"
    using Some by (auto simp: set_map_filter workspace_locations_def postings_def ft_location_def
        split: option.splits if_split_asm)
  then show ?thesis
    using Some sorted_sort_locations [of "List.map_filter ?f locs"]
    by (intro exI [of _ "sort_locations (List.map_filter ?f locs)"])
       (simp add: workspace_def_candidates_def)
qed

end
