(* ===== verification/Apply.thy ===== *)
theory Apply
  imports Index_State
begin

text \<open>
  The write path of the index: \<^verbatim>\<open>src/indexer/apply.rs\<close>. A file's contributions are
  committed to the maps of the \<open>Indexer\<close>, replacing what the file contributed before
  (\<open>apply_file_result\<close>), into a fresh index (\<open>apply_workspace_result\<close>), or additively
  (\<open>apply_source_path_scan\<close>). Interning a URI may panic, so these operations are partial.

  The locale \<open>posting_merge\<close> is the contract of the three ways the program merges a file's new
  entries into a posting list (append, append without duplicates, replace by URI): what the proofs of
  the index invariant need of them is proved once.
\<close>

section \<open>Operations\<close>

definition source_set_for_uri :: "indexer \<Rightarrow> str \<Rightarrow> source_set" where
  "source_set_for_uri ix uri = classify_source_set uri (ix_source_paths_raw ix)"

definition with_classified_source_set :: "indexer \<Rightarrow> str \<Rightarrow> file_data \<Rightarrow> file_data" where
  "with_classified_source_set ix uri d =
     (let ss = source_set_for_uri ix uri
      in if fd_source_set d = ss then d else d\<lparr>fd_source_set := ss\<rparr>)"

definition register_file_uri :: "externals \<Rightarrow> str \<Rightarrow> file_table \<Rightarrow> file_table option" where
  "register_file_uri X uri_str t =
     (case x_url_parse X uri_str of None \<Rightarrow> Some t | Some uri \<Rightarrow> map_option fst (ft_intern t uri))"

definition intern_uri_str :: "externals \<Rightarrow> str \<Rightarrow> file_table \<Rightarrow> (file_table \<times> file_id option) option" where
  "intern_uri_str X uri_str t =
     (case x_url_parse X uri_str of
        None \<Rightarrow> Some (t, None)
      | Some uri \<Rightarrow> map_option (\<lambda>(t', i). (t', Some i)) (ft_intern t uri))"

definition intern_location :: "location \<Rightarrow> file_table \<Rightarrow> (file_table \<times> symbol_loc) option" where
  "intern_location loc t =
     map_option (\<lambda>(t', i). (t', \<lparr>sl_file = i, sl_range = loc_range loc\<rparr>)) (ft_intern t (loc_uri loc))"

fun intern_locations :: "location list \<Rightarrow> file_table \<Rightarrow> (file_table \<times> symbol_loc list) option" where
  "intern_locations [] t = Some (t, [])"
| "intern_locations (l # ls) t =
     Option.bind (intern_location l t) (\<lambda>(t', s).
       Option.bind (intern_locations ls t') (\<lambda>(t'', ss). Some (t'', s # ss)))"

fun intern_uri_strs :: "externals \<Rightarrow> str list \<Rightarrow> file_table \<Rightarrow> (file_table \<times> file_id list) option" where
  "intern_uri_strs X [] t = Some (t, [])"
| "intern_uri_strs X (u # us) t =
     Option.bind (intern_uri_str X u t) (\<lambda>(t', i).
       Option.bind (intern_uri_strs X us t') (\<lambda>(t'', is).
         Some (t'', case i of None \<Rightarrow> is | Some j \<Rightarrow> j # is)))"

text \<open>The three ways a posting list takes new entries.\<close>

definition append_all :: "'v list \<Rightarrow> 'v list \<Rightarrow> 'v list" where
  "append_all old new = old @ new"

definition replace_by_uri :: "extension_entry list \<Rightarrow> extension_entry list \<Rightarrow> extension_entry list" where
  "replace_by_uri slot new =
     filter (\<lambda>e. ee_file_uri e \<notin> ee_file_uri ` set new) slot @ new"

definition merge_locations ::
  "(symbol_loc list \<Rightarrow> symbol_loc list \<Rightarrow> symbol_loc list) \<Rightarrow> (str \<times> location list) list
   \<Rightarrow> file_table \<times> (str, symbol_loc list) hmap \<Rightarrow> (file_table \<times> (str, symbol_loc list) hmap) option" where
  "merge_locations merge = fold_opt (\<lambda>(name, locs) (t, m).
     Option.bind (intern_locations locs t) (\<lambda>(t', interned).
       Some (t', entry_modify name (\<lambda>old. merge old interned) m)))"

definition insert_qualified ::
  "(str \<times> location) list \<Rightarrow> file_table \<times> (str, symbol_loc) hmap
   \<Rightarrow> (file_table \<times> (str, symbol_loc) hmap) option" where
  "insert_qualified = fold_opt (\<lambda>(key, loc) (t, m).
     Option.bind (intern_location loc t) (\<lambda>(t', s). Some (t', Mapping.update key s m)))"

definition merge_packages ::
  "externals \<Rightarrow> (file_id list \<Rightarrow> file_id list \<Rightarrow> file_id list) \<Rightarrow> (str \<times> str list) list
   \<Rightarrow> file_table \<times> (str, file_id list) hmap \<Rightarrow> (file_table \<times> (str, file_id list) hmap) option" where
  "merge_packages X merge = fold_opt (\<lambda>(pkg, uris) (t, m).
     Option.bind (intern_uri_strs X uris t) (\<lambda>(t', file_ids).
       Some (t', entry_modify pkg (\<lambda>old. merge old file_ids) m)))"

definition merge_extensions ::
  "(extension_entry list \<Rightarrow> extension_entry list \<Rightarrow> extension_entry list)
   \<Rightarrow> (str \<times> extension_entry list) list \<Rightarrow> (str, extension_entry list) hmap
   \<Rightarrow> (str, extension_entry list) hmap" where
  "merge_extensions merge = fold (\<lambda>(receiver, new). entry_modify receiver (\<lambda>slot. merge slot new))"

text \<open>The common body of \<open>apply_contributions\<close> and \<open>apply_contributions_fresh\<close>.\<close>

definition commit_contributions ::
  "externals \<Rightarrow> (symbol_loc list \<Rightarrow> symbol_loc list \<Rightarrow> symbol_loc list)
   \<Rightarrow> (file_id list \<Rightarrow> file_id list \<Rightarrow> file_id list)
   \<Rightarrow> (extension_entry list \<Rightarrow> extension_entry list \<Rightarrow> extension_entry list)
   \<Rightarrow> file_contributions \<Rightarrow> indexer \<Rightarrow> indexer option" where
  "commit_contributions X mloc mid mext c ix =
     (let uri_str = fst (fc_file_data c);
          d = with_classified_source_set ix uri_str (snd (fc_file_data c));
          hashes = Mapping.update (fst (fc_content_hash c)) (snd (fc_content_hash c)) (ix_content_hashes ix)
      in Option.bind (register_file_uri X uri_str (ix_file_table ix)) (\<lambda>t1.
         Option.bind (merge_locations mloc (fc_definitions c) (t1, ix_definitions ix)) (\<lambda>(t2, defs).
         Option.bind (insert_qualified (fc_qualified c) (t2, ix_qualified ix)) (\<lambda>(t3, quals).
         Option.bind (merge_packages X mid (fc_packages c) (t3, ix_packages ix)) (\<lambda>(t4, packs).
         Option.bind (merge_locations mloc (fc_subtypes c) (t4, ix_subtypes ix)) (\<lambda>(t5, subs).
           Some (ix\<lparr>ix_content_hashes := hashes,
                    ix_files := Mapping.update uri_str d (ix_files ix),
                    ix_file_table := t5,
                    ix_definitions := defs,
                    ix_qualified := quals,
                    ix_packages := packs,
                    ix_subtypes := subs,
                    ix_extension_by_receiver :=
                      merge_extensions mext (fc_extensions c) (ix_extension_by_receiver ix)\<rparr>)))))))"

definition apply_contributions :: "externals \<Rightarrow> file_contributions \<Rightarrow> indexer \<Rightarrow> indexer option" where
  "apply_contributions X c ix =
     map_option (\<lambda>ix'. ix'\<lparr>ix_bare_names_dirty := True\<rparr>)
       (commit_contributions X push_new push_new replace_by_uri c ix)"

definition apply_contributions_fresh :: "externals \<Rightarrow> file_contributions \<Rightarrow> indexer \<Rightarrow> indexer option" where
  "apply_contributions_fresh X c ix = commit_contributions X append_all append_all append_all c ix"

definition remove_stale_for_uri :: "externals \<Rightarrow> str \<Rightarrow> indexer \<Rightarrow> indexer option" where
  "remove_stale_for_uri X uri_str ix =
     (case Mapping.lookup (ix_files ix) uri_str of
        None \<Rightarrow> Some ix
      | Some old \<Rightarrow>
          (case x_url_parse X uri_str of
             None \<Rightarrow> Some ix
           | Some uri \<Rightarrow>
               (let stale = stale_keys_for X uri old
                in Option.bind (ft_intern (ix_file_table ix) uri) (\<lambda>(t, stale_id).
                   Some (ix\<lparr>ix_file_table := t,
                            ix_definitions := fold (\<lambda>name. get_mut_modify name (filter (\<lambda>l. sl_file l \<noteq> stale_id)))
                              (sk_definition_names stale) (ix_definitions ix),
                            ix_qualified := fold Mapping.delete (sk_qualified_keys stale) (ix_qualified ix),
                            ix_packages := (case sk_package stale of
                                None \<Rightarrow> ix_packages ix
                              | Some pkg \<Rightarrow> get_mut_modify pkg (filter (\<lambda>i. i \<noteq> stale_id)) (ix_packages ix)),
                            ix_subtypes := retain_values (\<lambda>l. sl_file l \<noteq> stale_id) (ix_subtypes ix),
                            ix_extension_by_receiver :=
                              retain_values (\<lambda>e. ee_file_uri e \<noteq> uri_str) (ix_extension_by_receiver ix)\<rparr>)))))"

definition apply_file_result :: "externals \<Rightarrow> file_index_result \<Rightarrow> indexer \<Rightarrow> indexer option" where
  "apply_file_result X r ix =
     Option.bind (remove_stale_for_uri X (fr_uri r) ix) (apply_contributions X (file_contributions_of X r))"

definition importable_pairs :: "indexer \<Rightarrow> (str \<times> str) list" where
  "importable_pairs ix =
     concat (map (\<lambda>(_, d).
       case fd_package d of
         None \<Rightarrow> []
       | Some pkg \<Rightarrow>
           if pkg = [] then []
           else map (\<lambda>s. (se_name s, pkg @ lit ''.'' @ se_name s))
                  (filter (\<lambda>s. se_container s = None) (fd_symbols d)))
       (entries_of (ix_files ix)))
     @ List.map_filter (\<lambda>fqn. map_option (\<lambda>dot. (drop (Suc dot) fqn, fqn))
         (rfind_char (\<lambda>c. c = ch CHR ''.'') fqn)) (sorted_keys (ix_jar_qualified ix))"

definition rebuild_importable_fqns :: "indexer \<Rightarrow> indexer" where
  "rebuild_importable_fqns ix =
     ix\<lparr>ix_importable_fqns := Mapping.of_alist
          (map (\<lambda>(k, fqns). (k, remdups_adj (sort fqns))) (group_by_key (importable_pairs ix)))\<rparr>"

definition rebuild_bare_name_cache :: "indexer \<Rightarrow> indexer" where
  "rebuild_bare_name_cache ix =
     (if \<not> ix_bare_names_dirty ix then ix
      else (let ix0 = ix\<lparr>ix_bare_names_dirty := False\<rparr>;
                names = sorted_keys (ix_definitions ix)
                  @ filter (\<lambda>k. Mapping.lookup (ix_definitions ix) k = None) (sorted_keys (ix_jar_definitions ix))
                  @ filter (\<lambda>k. Mapping.lookup (ix_definitions ix) k = None
                       \<and> Mapping.lookup (ix_jar_definitions ix) k = None) (sorted_keys (ix_jar_bare_names ix));
                ix1 = rebuild_importable_fqns (ix0\<lparr>ix_bare_name_cache := remdups_adj (sort names)\<rparr>)
            in ix1\<lparr>ix_last_completion := None\<rparr>))"

definition ensure_bare_names_fresh :: "indexer \<Rightarrow> indexer" where
  "ensure_bare_names_fresh ix =
     (if ix_bare_names_dirty ix then rebuild_bare_name_cache ix else ix)"

definition apply_workspace_result :: "externals \<Rightarrow> workspace_index_result \<Rightarrow> indexer \<Rightarrow> indexer option" where
  "apply_workspace_result X r ix =
     Option.bind
       (fold_opt (\<lambda>fr. apply_contributions_fresh X (file_contributions_of X fr)) (wr_files r)
          (reset_index_state ix))
       (\<lambda>ix'. Some (rebuild_bare_name_cache (ix'\<lparr>ix_bare_names_dirty := True\<rparr>)))"

record source_path_scan =
  sc_results :: "file_index_result list"
  sc_new_library_uris :: "str list"
  sc_cache_hits :: nat

definition apply_source_path_scan :: "externals \<Rightarrow> source_path_scan \<Rightarrow> indexer \<Rightarrow> indexer option" where
  "apply_source_path_scan X scan ix =
     (let results = strip_library_private_symbols (sc_results scan) (set (sc_new_library_uris scan))
      in Option.bind
           (fold_opt (\<lambda>fr. apply_contributions X (file_contributions_of X fr)) results ix)
           (\<lambda>ix'. Some (rebuild_bare_name_cache
              (ix'\<lparr>ix_library_uris := ix_library_uris ix' \<union> set (sc_new_library_uris scan)\<rparr>))))"

definition index_content :: "externals \<Rightarrow> url \<Rightarrow> str \<Rightarrow> indexer \<Rightarrow> (indexer \<times> file_data option) option" where
  "index_content X uri content ix =
     (let hash = hash_str content
      in if Mapping.lookup (ix_content_hashes ix) uri = Some hash then Some (ix, None)
         else
           (let ix1 = ix\<lparr>ix_parse_count := ix_parse_count ix + 1,
                         ix_completion_cache := ix_completion_cache ix - {uri}\<rparr>;
                ix2 = (invalidate_completion_cache ix1)\<lparr>ix_sig_cache := Mapping.empty, ix_sig_fast_cache := Mapping.empty\<rparr>;
                r = parse_file X uri content
            in Option.bind (apply_file_result X r ix2) (\<lambda>ix3.
                 let ix4 = ix3\<lparr>ix_bare_names_dirty := True\<rparr>
                 in Some (ix4, Some (with_classified_source_set ix4 uri (fr_data r))))))"

text \<open>\<open>Indexer::ensure_indexed\<close>; the argument is what reading the file from disk gives.\<close>

definition ensure_indexed :: "externals \<Rightarrow> (path \<Rightarrow> str option) \<Rightarrow> url \<Rightarrow> indexer \<Rightarrow> indexer option" where
  "ensure_indexed X read_to_string uri ix =
     (if ix_indexing_in_progress ix then Some ix
      else if Mapping.lookup (ix_files ix) uri \<noteq> None then Some ix
      else (case Option.bind (x_url_to_file_path X uri) read_to_string of
              None \<Rightarrow> Some ix
            | Some content \<Rightarrow> map_option fst (index_content X uri content ix)))"

end
