(* ===== verification/Index_Inv.thy ===== *)
theory Index_Inv
  imports Apply
begin

text \<open>
  The invariant of the index and its preservation. The abstract specification of the posting maps is
  what the indexed files contribute, file by file (\<open>exact_postings\<close>); \<open>index_inv\<close> says that
  the maps of an \<open>Indexer\<close> are exactly that. Committing and removing one file are proved for
  any posting map, once, under the contract \<open>posting_merge\<close>.
\<close>

section \<open>Posting maps\<close>

text \<open>The entries of a key are those the indexed files contribute to it.\<close>

definition exact_postings ::
  "('k, 'v list) hmap \<Rightarrow> (str, 'd) hmap \<Rightarrow> (str \<Rightarrow> 'd \<Rightarrow> 'k \<Rightarrow> 'v set) \<Rightarrow> bool" where
  "exact_postings m files contrib \<longleftrightarrow>
     (\<forall>k x. x \<in> set (postings m k) \<longleftrightarrow> (\<exists>u d. Mapping.lookup files u = Some d \<and> x \<in> contrib u d k))"

lemma exact_postings_cong:
  assumes "\<And>u d k. Mapping.lookup files u = Some d \<Longrightarrow> contrib u d k = contrib' u d k"
  shows "exact_postings m files contrib \<longleftrightarrow> exact_postings m files contrib'"
  using assms unfolding exact_postings_def by metis

lemma exact_postingsE:
  assumes "exact_postings m files contrib" and "x \<in> set (postings m k)"
  obtains v d where "Mapping.lookup files v = Some d" "x \<in> contrib v d k"
  using assms unfolding exact_postings_def by blast

text \<open>Removing the entries of one owner is removing its file.\<close>

lemma exact_postings_remove:
  assumes exact: "exact_postings m files contrib"
    and own: "\<And>v d k x. Mapping.lookup files v = Some d \<Longrightarrow> x \<in> contrib v d k \<Longrightarrow> owner x = own v"
    and inj: "\<And>v. Mapping.lookup files v \<noteq> None \<Longrightarrow> own v = own u \<Longrightarrow> v = u"
    and m': "\<And>k x. x \<in> set (postings m' k) \<longleftrightarrow> x \<in> set (postings m k) \<and> owner x \<noteq> own u"
  shows "exact_postings m' (Mapping.delete u files) contrib"
proof -
  have "x \<in> set (postings m' k) \<longleftrightarrow>
      (\<exists>v d. Mapping.lookup (Mapping.delete u files) v = Some d \<and> x \<in> contrib v d k)" for k x
  proof
    assume "x \<in> set (postings m' k)"
    then have "x \<in> set (postings m k)" "owner x \<noteq> own u" using m' by auto
    then obtain v d where v: "Mapping.lookup files v = Some d" "x \<in> contrib v d k"
      using exact unfolding exact_postings_def by blast
    then have "v \<noteq> u" using own \<open>owner x \<noteq> own u\<close> by blast
    with v show "\<exists>v d. Mapping.lookup (Mapping.delete u files) v = Some d \<and> x \<in> contrib v d k"
      by auto
  next
    assume "\<exists>v d. Mapping.lookup (Mapping.delete u files) v = Some d \<and> x \<in> contrib v d k"
    then obtain v d where v: "v \<noteq> u" "Mapping.lookup files v = Some d" "x \<in> contrib v d k"
      by (fastforce split: if_split_asm)
    then have "owner x \<noteq> own u" using own inj by (metis option.distinct(1))
    moreover have "x \<in> set (postings m k)" using v exact unfolding exact_postings_def by blast
    ultimately show "x \<in> set (postings m' k)" using m' by blast
  qed
  then show ?thesis by (simp add: exact_postings_def)
qed

locale posting_merge =
  fixes merge :: "'v list \<Rightarrow> 'v list \<Rightarrow> 'v list"
    and owner :: "'v \<Rightarrow> 'o"
  assumes merge_new: "x \<in> set new \<Longrightarrow> x \<in> set (merge old new)"
    and merge_upper: "x \<in> set (merge old new) \<Longrightarrow> x \<in> set old \<or> x \<in> set new"
    and merge_foreign: "x \<in> set old \<Longrightarrow> owner x \<notin> owner ` set new \<Longrightarrow> x \<in> set (merge old new)"
begin

lemma set_merge_foreign:
  assumes "\<And>x. x \<in> set new \<Longrightarrow> owner x = o'" and "\<And>x. x \<in> set old \<Longrightarrow> owner x \<noteq> o'"
  shows "set (merge old new) = set old \<union> set new"
proof
  show "set (merge old new) \<subseteq> set old \<union> set new" using merge_upper by blast
  show "set old \<union> set new \<subseteq> set (merge old new)"
    using assms merge_new merge_foreign by (auto simp: image_iff)
qed

text \<open>Committing what a file contributes, where nothing of it is left.\<close>

lemma commit_exact:
  assumes exact: "exact_postings m (Mapping.delete u files) contrib"
    and own: "\<And>v d k x. Mapping.lookup files v = Some d \<Longrightarrow> x \<in> contrib v d k \<Longrightarrow> owner x = own v"
    and own_new: "\<And>k x. x \<in> contrib u d k \<Longrightarrow> owner x = own u"
    and inj: "\<And>v. Mapping.lookup files v \<noteq> None \<Longrightarrow> own v = own u \<Longrightarrow> v = u"
    and dist: "distinct (map fst c)"
    and h_Nil: "h [] = []"
    and c: "\<And>k. set (h (al_get c k)) = contrib u d k"
  shows "exact_postings (fold (\<lambda>(k, vs). entry_modify k (\<lambda>old. merge old (h vs))) c m)
           (Mapping.update u d files) contrib"
proof -
  let ?m = "fold (\<lambda>(k, vs). entry_modify k (\<lambda>old. merge old (h vs))) c m"
  have foreign: "owner x \<noteq> own u" if "x \<in> set (postings m k)" for x k
  proof -
    from that obtain v e where v: "Mapping.lookup (Mapping.delete u files) v = Some e" "x \<in> contrib v e k"
      using exact unfolding exact_postings_def by blast
    then have "v \<noteq> u" "Mapping.lookup files v = Some e" by (auto split: if_split_asm)
    then show ?thesis using own [OF _ v(2)] inj [of v] by auto
  qed
  have set_m: "set (postings ?m k) = set (postings m k) \<union> contrib u d k" for k
  proof (cases "k \<in> fst ` set c")
    case True
    have "postings ?m k = merge (postings m k) (h (al_get c k))"
      using postings_fold_entry_modify [OF dist, of merge h m k] True by simp
    moreover have "set (merge (postings m k) (h (al_get c k))) = set (postings m k) \<union> contrib u d k"
      unfolding c [symmetric]
      by (rule set_merge_foreign [of _ "own u"]) (use own_new c foreign in auto)
    ultimately show ?thesis by simp
  next
    case False
    have "postings ?m k = postings m k"
      using postings_fold_entry_modify [OF dist, of merge h m k] False by simp
    moreover have "contrib u d k = set (h [])"
      using c [of k] al_get_absent [OF False] by simp
    moreover have "set (h []) = {}"
      using h_Nil by simp
    ultimately show ?thesis by simp
  qed
  show ?thesis
    using exact unfolding exact_postings_def set_m
    by (auto split: if_split_asm)
qed

end

interpretation append_locs: posting_merge append_all sl_file
  by unfold_locales (auto simp: append_all_def)

interpretation dedup_locs: posting_merge push_new sl_file
  by unfold_locales auto

interpretation append_ids: posting_merge append_all "\<lambda>i :: file_id. i"
  by unfold_locales (auto simp: append_all_def)

interpretation dedup_ids: posting_merge push_new "\<lambda>i :: file_id. i"
  by unfold_locales auto

interpretation append_exts: posting_merge append_all ee_file_uri
  by unfold_locales (auto simp: append_all_def)

interpretation replace_exts: posting_merge replace_by_uri ee_file_uri
  by unfold_locales (auto simp: replace_by_uri_def)

section \<open>Interning a known URI\<close>

lemma ft_intern_lookup_known: "Mapping.lookup (ft_by_uri t) u = Some i \<Longrightarrow> ft_intern t u = Some (t, i)"
  by (simp add: ft_intern_def)

definition compact :: "file_id \<Rightarrow> location list \<Rightarrow> symbol_loc list" where
  "compact i = map (\<lambda>l. \<lparr>sl_file = i, sl_range = loc_range l\<rparr>)"

lemma compact_Nil [simp]: "compact i [] = []"
  by (simp add: compact_def)

lemma intern_locations_known:
  "Mapping.lookup (ft_by_uri t) u = Some i \<Longrightarrow> (\<And>l. l \<in> set ls \<Longrightarrow> loc_uri l = u) \<Longrightarrow>
     intern_locations ls t = Some (t, compact i ls)"
  by (induction ls) (simp_all add: intern_location_def ft_intern_lookup_known compact_def)

lemma merge_locations_known:
  "Mapping.lookup (ft_by_uri t) u = Some i \<Longrightarrow>
   (\<And>k ls l. (k, ls) \<in> set c \<Longrightarrow> l \<in> set ls \<Longrightarrow> loc_uri l = u) \<Longrightarrow>
     merge_locations merge c (t, m) =
       Some (t, fold (\<lambda>(k, ls). entry_modify k (\<lambda>old. merge old (compact i ls))) c m)"
proof (induction c arbitrary: m)
  case Nil
  then show ?case by (simp add: merge_locations_def)
next
  case (Cons kv c)
  obtain k ls where kv: "kv = (k, ls)" by (cases kv)
  have "intern_locations ls t = Some (t, compact i ls)"
    by (rule intern_locations_known [OF Cons.prems(1)]) (use Cons.prems(2) kv in auto)
  moreover have "merge_locations merge c (t, m') =
      Some (t, fold (\<lambda>(k, ls). entry_modify k (\<lambda>old. merge old (compact i ls))) c m')" for m'
    by (rule Cons.IH [OF Cons.prems(1)]) (use Cons.prems(2) in auto)
  ultimately show ?case by (simp add: kv merge_locations_def)
qed

lemma insert_qualified_known:
  "Mapping.lookup (ft_by_uri t) u = Some i \<Longrightarrow> (\<And>k l. (k, l) \<in> set c \<Longrightarrow> loc_uri l = u) \<Longrightarrow>
     insert_qualified c (t, m) =
       Some (t, fold (\<lambda>(k, l). Mapping.update k \<lparr>sl_file = i, sl_range = loc_range l\<rparr>) c m)"
proof (induction c arbitrary: m)
  case Nil
  then show ?case by (simp add: insert_qualified_def)
next
  case (Cons kv c)
  obtain k l where kv: "kv = (k, l)" by (cases kv)
  have "loc_uri l = u" using Cons.prems(2) [of k l] kv by simp
  then have "intern_location l t = Some (t, \<lparr>sl_file = i, sl_range = loc_range l\<rparr>)"
    using Cons.prems(1) by (simp add: intern_location_def ft_intern_lookup_known)
  moreover have "insert_qualified c (t, m') =
      Some (t, fold (\<lambda>(k, l). Mapping.update k \<lparr>sl_file = i, sl_range = loc_range l\<rparr>) c m')" for m'
    by (rule Cons.IH [OF Cons.prems(1)]) (use Cons.prems(2) in auto)
  ultimately show ?case by (simp add: kv insert_qualified_def)
qed

lemma merge_packages_known:
  assumes "Mapping.lookup (ft_by_uri t) u = Some i" and "x_url_parse X u = Some u"
  shows "merge_packages X merge (case p of None \<Rightarrow> [] | Some pkg \<Rightarrow> [(pkg, [u])]) (t, m) =
    Some (t, fold (\<lambda>(k, us). entry_modify k (\<lambda>old. merge old (map (\<lambda>_. i) us)))
               (case p of None \<Rightarrow> [] | Some pkg \<Rightarrow> [(pkg, [u])]) m)"
  using assms
  by (cases p) (simp_all add: merge_packages_def intern_uri_str_def ft_intern_lookup_known)

section \<open>What one file contributes\<close>

definition id_of :: "file_table \<Rightarrow> url \<Rightarrow> file_id" where
  "id_of t u = the (Mapping.lookup (ft_by_uri t) u)"

definition def_of :: "file_table \<Rightarrow> url \<Rightarrow> file_data \<Rightarrow> str \<Rightarrow> symbol_loc set" where
  "def_of t u d k = {\<lparr>sl_file = id_of t u, sl_range = se_selection_range s\<rparr> |s.
     s \<in> set (fd_symbols d) \<and> se_name s = k}"

definition pkg_of :: "file_table \<Rightarrow> url \<Rightarrow> file_data \<Rightarrow> str \<Rightarrow> file_id set" where
  "pkg_of t u d k = (if fd_package d = Some k then {id_of t u} else {})"

definition sub_of :: "file_table \<Rightarrow> url \<Rightarrow> file_data \<Rightarrow> str \<Rightarrow> symbol_loc set" where
  "sub_of t u d k = {\<lparr>sl_file = id_of t u, sl_range = loc_range l\<rparr> |l.
     (k, l) \<in> set (derive_supertypes u d)}"

definition ext_of :: "url \<Rightarrow> file_data \<Rightarrow> str \<Rightarrow> extension_entry set" where
  "ext_of u d k = {extension_entry_of u d s |s.
     s \<in> set (fd_symbols d) \<and> extension_receiver s = k \<and> k \<noteq> []}"

lemma source_set_irrelevant [simp]:
  "def_of t u (d\<lparr>fd_source_set := ss\<rparr>) k = def_of t u d k"
  "pkg_of t u (d\<lparr>fd_source_set := ss\<rparr>) k = pkg_of t u d k"
  "sub_of t u (d\<lparr>fd_source_set := ss\<rparr>) k = sub_of t u d k"
  "ext_of u (d\<lparr>fd_source_set := ss\<rparr>) k = ext_of u d k"
  "build_qualified_keys (d\<lparr>fd_source_set := ss\<rparr>) stem = build_qualified_keys d stem"
  by (simp_all add: def_of_def pkg_of_def sub_of_def ext_of_def derive_supertypes_def
      extension_entry_of_def build_qualified_keys_def split: option.split)

lemma classified_fields [simp]:
  "fd_symbols (with_classified_source_set ix v d) = fd_symbols d"
  "fd_package (with_classified_source_set ix v d) = fd_package d"
  "derive_supertypes u (with_classified_source_set ix v d) = derive_supertypes u d"
  by (simp_all add: with_classified_source_set_def Let_def derive_supertypes_def cong: if_cong)

lemma classified_contributes [simp]:
  "def_of t u (with_classified_source_set ix v d) k = def_of t u d k"
  "pkg_of t u (with_classified_source_set ix v d) k = pkg_of t u d k"
  "sub_of t u (with_classified_source_set ix v d) k = sub_of t u d k"
  "ext_of u (with_classified_source_set ix v d) k = ext_of u d k"
  "build_qualified_keys (with_classified_source_set ix v d) stem = build_qualified_keys d stem"
  by (simp_all add: with_classified_source_set_def Let_def)

lemma derive_supertypes_uri: "(k, l) \<in> set (derive_supertypes u d) \<Longrightarrow> loc_uri l = u"
  by (auto simp: derive_supertypes_def split: if_split_asm)

lemma group_member: "(k, ls) \<in> set (group_by_key kvs) \<Longrightarrow> ls = map snd (filter (\<lambda>kv. fst kv = k) kvs)"
  using al_get_member [OF distinct_group_by_key, of k ls kvs] by (simp add: al_get_group_by_key)

text \<open>A committed file, in closed form.\<close>

lemma commit_contributions_eq:
  assumes parse: "x_url_parse X u = Some u" and i: "ft_intern (ix_file_table ix) u = Some (t', i)"
  shows "commit_contributions X ml mi me (contributions_from_data X u d h (derive_supertypes u d)) ix =
    Some (ix\<lparr>ix_content_hashes := Mapping.update u h (ix_content_hashes ix),
             ix_files := Mapping.update u (with_classified_source_set ix u d) (ix_files ix),
             ix_file_table := t',
             ix_definitions := fold (\<lambda>(k, ls). entry_modify k (\<lambda>old. ml old (compact i ls)))
               (group_by_key (map (\<lambda>s. (se_name s, Location u (se_selection_range s))) (fd_symbols d)))
               (ix_definitions ix),
             ix_qualified := fold (\<lambda>(k, l). Mapping.update k \<lparr>sl_file = i, sl_range = loc_range l\<rparr>)
               (collect_map (map (\<lambda>(key, r). (key, Location u r))
                  (build_qualified_keys d (file_stem_from_uri X u)))) (ix_qualified ix),
             ix_packages := fold (\<lambda>(k, us). entry_modify k (\<lambda>old. mi old (map (\<lambda>_. i) us)))
               (case fd_package d of None \<Rightarrow> [] | Some pkg \<Rightarrow> [(pkg, [u])]) (ix_packages ix),
             ix_subtypes := fold (\<lambda>(k, ls). entry_modify k (\<lambda>old. ml old (compact i ls)))
               (group_by_key (derive_supertypes u d)) (ix_subtypes ix),
             ix_extension_by_receiver := fold (\<lambda>(r, new). entry_modify r (\<lambda>slot. me slot new))
               (group_by_key (map (\<lambda>s. (extension_receiver s, extension_entry_of u d s))
                 (filter (\<lambda>s. extension_receiver s \<noteq> []) (fd_symbols d))))
               (ix_extension_by_receiver ix)\<rparr>)"
proof -
  have known: "Mapping.lookup (ft_by_uri t') u = Some i" using i by (rule ft_intern_lookup)
  have "merge_locations ml (group_by_key (map (\<lambda>s. (se_name s, Location u (se_selection_range s))) (fd_symbols d)))
      (t', m) = Some (t', fold (\<lambda>(k, ls). entry_modify k (\<lambda>old. ml old (compact i ls)))
        (group_by_key (map (\<lambda>s. (se_name s, Location u (se_selection_range s))) (fd_symbols d))) m)" for m
    by (rule merge_locations_known [OF known]) (auto dest!: group_member)
  moreover have "merge_locations ml (group_by_key (derive_supertypes u d)) (t', m) =
      Some (t', fold (\<lambda>(k, ls). entry_modify k (\<lambda>old. ml old (compact i ls)))
        (group_by_key (derive_supertypes u d)) m)" for m
    by (rule merge_locations_known [OF known]) (auto dest!: group_member derive_supertypes_uri)
  moreover have "insert_qualified (collect_map (map (\<lambda>(key, r). (key, Location u r))
        (build_qualified_keys d (file_stem_from_uri X u)))) (t', m) =
      Some (t', fold (\<lambda>(k, l). Mapping.update k \<lparr>sl_file = i, sl_range = loc_range l\<rparr>)
        (collect_map (map (\<lambda>(key, r). (key, Location u r))
          (build_qualified_keys d (file_stem_from_uri X u)))) m)" for m
    by (rule insert_qualified_known [OF known]) (auto dest!: set_collect_map [THEN subsetD])
  moreover note merge_packages_known [OF known parse, of mi "fd_package d"]
  ultimately show ?thesis
    using parse i
    by (simp add: commit_contributions_def contributions_from_data_def register_file_uri_def Let_def
        merge_extensions_def)
qed

section \<open>The invariant\<close>

text \<open>The maps hold what the files \<open>F\<close> contribute; a qualified name, which several files may
  declare, is some file's.\<close>

definition maps_match :: "externals \<Rightarrow> indexer \<Rightarrow> (str, file_data) hmap \<Rightarrow> bool" where
  "maps_match X ix F \<longleftrightarrow>
     exact_postings (ix_definitions ix) F (def_of (ix_file_table ix))
     \<and> exact_postings (ix_packages ix) F (pkg_of (ix_file_table ix))
     \<and> exact_postings (ix_subtypes ix) F (sub_of (ix_file_table ix))
     \<and> exact_postings (ix_extension_by_receiver ix) F ext_of
     \<and> (\<forall>k l. Mapping.lookup (ix_qualified ix) k = Some l \<longrightarrow>
          (\<exists>u d. Mapping.lookup F u = Some d \<and> sl_file l = id_of (ix_file_table ix) u
             \<and> (k, sl_range l) \<in> set (build_qualified_keys d (file_stem_from_uri X u))))"

definition files_registered :: "externals \<Rightarrow> indexer \<Rightarrow> bool" where
  "files_registered X ix \<longleftrightarrow> ft_wf (ix_file_table ix)
     \<and> (\<forall>u. Mapping.lookup (ix_files ix) u \<noteq> None \<longrightarrow>
          x_url_parse X u = Some u \<and> Mapping.lookup (ft_by_uri (ix_file_table ix)) u \<noteq> None)
     \<and> Mapping.keys (ix_content_hashes ix) = Mapping.keys (ix_files ix)"

definition index_inv :: "externals \<Rightarrow> indexer \<Rightarrow> bool" where
  "index_inv X ix \<longleftrightarrow> files_registered X ix \<and> maps_match X ix (ix_files ix)"

lemma index_inv_new: "index_inv X (indexer_new sidecar)"
  by (simp add: index_inv_def files_registered_def maps_match_def indexer_new_def exact_postings_def
      ft_wf_new)

lemma ft_intern_lookup_stable:
  "ft_intern t u = Some (t', i) \<Longrightarrow> Mapping.lookup (ft_by_uri t) v = Some j \<Longrightarrow>
     Mapping.lookup (ft_by_uri t') v = Some j"
  by (erule ft_intern_cases) auto

lemma id_of_stable:
  "ft_intern t u = Some (t', i) \<Longrightarrow> Mapping.lookup (ft_by_uri t) v \<noteq> None \<Longrightarrow> id_of t' v = id_of t v"
  by (auto simp: id_of_def dest: ft_intern_lookup_stable)

lemma id_of_inj:
  assumes "ft_wf t" and "Mapping.lookup (ft_by_uri t) u \<noteq> None"
    and "Mapping.lookup (ft_by_uri t) v \<noteq> None" and "id_of t u = id_of t v"
  shows "u = v"
  using assms ft_url_wf [of t] by (auto simp: id_of_def) (metis option.inject)

lemma keys_lookup: "k \<in> Mapping.keys m \<longleftrightarrow> Mapping.lookup m k \<noteq> None"
  by (simp add: keys_is_none_rep Option.is_none_def)

lemma maps_match_table:
  assumes "maps_match X ix F" and "\<And>v. Mapping.lookup F v \<noteq> None \<Longrightarrow> id_of t v = id_of (ix_file_table ix) v"
  shows "maps_match X (ix\<lparr>ix_file_table := t\<rparr>) F"
proof -
  have "def_of t u d k = def_of (ix_file_table ix) u d k"
    "pkg_of t u d k = pkg_of (ix_file_table ix) u d k"
    "sub_of t u d k = sub_of (ix_file_table ix) u d k" if "Mapping.lookup F u = Some d" for u d k
    using assms(2) [of u] that by (simp_all add: def_of_def pkg_of_def sub_of_def)
  then have cong: "exact_postings m F (def_of t) = exact_postings m F (def_of (ix_file_table ix))"
    "exact_postings m' F (pkg_of t) = exact_postings m' F (pkg_of (ix_file_table ix))"
    "exact_postings m F (sub_of t) = exact_postings m F (sub_of (ix_file_table ix))" for m m'
    by (auto intro!: exact_postings_cong)
  show ?thesis using assms unfolding maps_match_def by (simp add: cong) (metis option.distinct(1))
qed

section \<open>Removing a file's contributions\<close>

lemma postings_fold_filter:
  "postings (fold (\<lambda>n. get_mut_modify n (filter p)) ns m) k =
     (if k \<in> set ns then filter p (postings m k) else postings m k)"
  by (induction ns arbitrary: m) (auto simp: postings_get_mut_filter)

lemma lookup_fold_delete:
  "Mapping.lookup (fold Mapping.delete ks m) k = (if k \<in> set ks then None else Mapping.lookup m k)"
  by (induction ks arbitrary: m) auto

lemma delete_absent: "Mapping.lookup m k = None \<Longrightarrow> Mapping.delete k m = m"
  by (rule mapping_eqI) auto

text \<open>The state \<open>remove_stale_for_uri\<close> leaves for an indexed file.\<close>

definition without_file :: "externals \<Rightarrow> url \<Rightarrow> file_data \<Rightarrow> indexer \<Rightarrow> indexer" where
  "without_file X u old ix =
     (let i = id_of (ix_file_table ix) u
      in ix\<lparr>ix_definitions := fold (\<lambda>name. get_mut_modify name (filter (\<lambda>l. sl_file l \<noteq> i)))
              (map se_name (fd_symbols old)) (ix_definitions ix),
            ix_qualified := fold Mapping.delete
              (map fst (build_qualified_keys old (file_stem_from_uri X u))) (ix_qualified ix),
            ix_packages := (case fd_package old of None \<Rightarrow> ix_packages ix
              | Some pkg \<Rightarrow> get_mut_modify pkg (filter (\<lambda>j. j \<noteq> i)) (ix_packages ix)),
            ix_subtypes := retain_values (\<lambda>l. sl_file l \<noteq> i) (ix_subtypes ix),
            ix_extension_by_receiver :=
              retain_values (\<lambda>e. ee_file_uri e \<noteq> u) (ix_extension_by_receiver ix)\<rparr>)"

lemma remove_stale_eq:
  assumes "files_registered X ix"
  shows "remove_stale_for_uri X u ix =
    Some (case Mapping.lookup (ix_files ix) u of None \<Rightarrow> ix | Some old \<Rightarrow> without_file X u old ix)"
proof (cases "Mapping.lookup (ix_files ix) u")
  case None
  then show ?thesis by (simp add: remove_stale_for_uri_def)
next
  case (Some old)
  then obtain i where "x_url_parse X u = Some u" "Mapping.lookup (ft_by_uri (ix_file_table ix)) u = Some i"
    using assms by (auto simp: files_registered_def)
  then show ?thesis
    using Some by (simp add: remove_stale_for_uri_def ft_intern_lookup_known Let_def stale_keys_for_def
        without_file_def id_of_def)
qed

lemma maps_match_without_file:
  assumes inv: "index_inv X ix" and old: "Mapping.lookup (ix_files ix) u = Some old"
  shows "maps_match X (without_file X u old ix) (Mapping.delete u (ix_files ix))"
proof -
  let ?T = "ix_file_table ix" and ?F = "ix_files ix" and ?i = "id_of (ix_file_table ix) u"
  let ?ix = "without_file X u old ix"
  have T: "ix_file_table ?ix = ?T" by (simp add: without_file_def Let_def)
  have mm: "maps_match X ix ?F" and reg: "files_registered X ix"
    using inv by (auto simp: index_inv_def)
  have inj: "v = u" if "Mapping.lookup ?F v \<noteq> None" "id_of ?T v = ?i" for v
    using id_of_inj [of ?T v u] that reg old by (auto simp: files_registered_def)
  have mine: "v = u" if "Mapping.lookup ?F v = Some d" "id_of ?T v = ?i" for v d
    using inj [of v] that by simp
  have defs: "exact_postings (ix_definitions ix) ?F (def_of ?T)"
    and packs: "exact_postings (ix_packages ix) ?F (pkg_of ?T)"
    and subs: "exact_postings (ix_subtypes ix) ?F (sub_of ?T)"
    and exts: "exact_postings (ix_extension_by_receiver ix) ?F ext_of"
    using mm by (auto simp: maps_match_def)
  have "exact_postings (ix_definitions ?ix) (Mapping.delete u ?F) (def_of ?T)"
  proof (rule exact_postings_remove [OF defs, where owner = sl_file and own = "id_of ?T"])
    fix k x
    have "sl_file x \<noteq> ?i" if x: "x \<in> set (postings (ix_definitions ix) k)"
      and k: "k \<notin> se_name ` set (fd_symbols old)"
    proof
      assume own: "sl_file x = ?i"
      obtain v d where v: "Mapping.lookup ?F v = Some d" "x \<in> def_of ?T v d k"
        by (rule exact_postingsE [OF defs x])
      then have "v = u" using own mine [of v d] by (auto simp: def_of_def)
      then show False using v old k by (auto simp: def_of_def)
    qed
    then show "x \<in> set (postings (ix_definitions ?ix) k)
        \<longleftrightarrow> x \<in> set (postings (ix_definitions ix) k) \<and> sl_file x \<noteq> ?i"
      by (auto simp: without_file_def Let_def postings_fold_filter)
  qed (use inj in \<open>auto simp: def_of_def\<close>)
  moreover have "exact_postings (ix_packages ?ix) (Mapping.delete u ?F) (pkg_of ?T)"
  proof (rule exact_postings_remove [OF packs, where owner = "\<lambda>j. j" and own = "id_of ?T"])
    fix k x
    have "x \<noteq> ?i" if "x \<in> set (postings (ix_packages ix) k)" "fd_package old \<noteq> Some k"
      using packs that old mine unfolding exact_postings_def pkg_of_def
      by (metis empty_iff option.inject singletonD)
    then show "x \<in> set (postings (ix_packages ?ix) k) \<longleftrightarrow> x \<in> set (postings (ix_packages ix) k) \<and> x \<noteq> ?i"
      by (auto simp: without_file_def Let_def postings_get_mut_filter split: option.splits)
  qed (use inj in \<open>auto simp: pkg_of_def split: if_split_asm\<close>)
  moreover have "exact_postings (ix_subtypes ?ix) (Mapping.delete u ?F) (sub_of ?T)"
    by (rule exact_postings_remove [OF subs, where owner = sl_file and own = "id_of ?T"])
       (use inj in \<open>auto simp: sub_of_def without_file_def Let_def postings_retain_values\<close>)
  moreover have "exact_postings (ix_extension_by_receiver ?ix) (Mapping.delete u ?F) ext_of"
    by (rule exact_postings_remove [OF exts, where owner = ee_file_uri and own = "\<lambda>v. v"])
       (auto simp: ext_of_def extension_entry_of_def without_file_def Let_def postings_retain_values)
  moreover have "\<exists>v d. Mapping.lookup (Mapping.delete u ?F) v = Some d \<and> sl_file l = id_of ?T v
      \<and> (k, sl_range l) \<in> set (build_qualified_keys d (file_stem_from_uri X v))"
    if l: "Mapping.lookup (ix_qualified ?ix) k = Some l" for k l
  proof -
    have k: "k \<notin> fst ` set (build_qualified_keys old (file_stem_from_uri X u))"
      "Mapping.lookup (ix_qualified ix) k = Some l"
      using l by (auto simp: without_file_def Let_def lookup_fold_delete split: if_split_asm)
    then obtain v d where v: "Mapping.lookup ?F v = Some d" "sl_file l = id_of ?T v"
      "(k, sl_range l) \<in> set (build_qualified_keys d (file_stem_from_uri X v))"
      using mm unfolding maps_match_def by blast
    have "v \<noteq> u"
    proof
      assume "v = u"
      then have "k \<in> fst ` set (build_qualified_keys old (file_stem_from_uri X u))"
        using v old by force
      with k show False by blast
    qed
    with v show ?thesis by auto
  qed
  ultimately show ?thesis unfolding maps_match_def T by blast
qed

section \<open>Committing a file\<close>

lemma al_get_single: "al_get (case p of None \<Rightarrow> [] | Some pkg \<Rightarrow> [(pkg, [u])]) k
    = (if p = Some k then [u] else [])"
  by (auto simp: al_get_def split: option.splits)

lemma lookup_fold_update:
  "Mapping.lookup (fold (\<lambda>(k, v). Mapping.update k (f v)) kvs m) k =
     (case map_of (rev kvs) k of None \<Rightarrow> Mapping.lookup m k | Some v \<Rightarrow> Some (f v))"
  by (induction kvs arbitrary: m) (auto simp: map_add_def split: option.splits)

lemma postings_commit_set:
  assumes "distinct (map fst c)"
  shows "postings (fold (\<lambda>(k, vs). entry_modify k (\<lambda>old. g old vs)) c m) k =
    (if k \<in> fst ` set c then g (postings m k) (al_get c k) else postings m k)"
  using postings_fold_entry_modify [OF assms, of g "\<lambda>vs. vs"] by simp

lemma set_al_get_defs:
  "set (compact i (al_get (group_by_key (map (\<lambda>s. (se_name s, Location u (se_selection_range s))) ss)) k))
     = {\<lparr>sl_file = i, sl_range = se_selection_range s\<rparr> |s. s \<in> set ss \<and> se_name s = k}"
  by (simp add: al_get_group_by_key compact_def filter_map o_def) auto

lemma set_al_get_subs:
  "set (compact i (al_get (group_by_key kls) k)) = {\<lparr>sl_file = i, sl_range = loc_range l\<rparr> |l. (k, l) \<in> set kls}"
  by (auto simp: al_get_group_by_key compact_def image_iff)

lemma set_al_get_exts:
  "set (al_get (group_by_key (map (\<lambda>s. (f s, g s)) (filter P ss))) k) = {g s |s. s \<in> set ss \<and> P s \<and> f s = k}"
  by (auto simp: al_get_group_by_key image_iff)

lemma commit_maps_match:
  assumes ml: "posting_merge ml sl_file" and mi: "posting_merge mi (\<lambda>i :: file_id. i)"
    and me: "posting_merge me ee_file_uri"
    and parse: "x_url_parse X u = Some u" and i: "ft_intern (ix_file_table ix) u = Some (t', i)"
    and reg: "files_registered X ix" and mm: "maps_match X ix (Mapping.delete u (ix_files ix))"
    and ix': "commit_contributions X ml mi me
        (contributions_from_data X u d h (derive_supertypes u d)) ix = Some ix'"
  shows "index_inv X ix'"
proof -
  let ?F = "ix_files ix" and ?d = "with_classified_source_set ix u d"
  note eq = commit_contributions_eq [OF parse i, of ml mi me d h, unfolded ix' option.inject]
  have known: "Mapping.lookup (ft_by_uri t') u = Some i" using i by (rule ft_intern_lookup)
  then have iu: "id_of t' u = i" by (simp add: id_of_def)
  have wf: "ft_wf t'" using reg files.intern_wf [OF _ i] by (simp add: files_registered_def)
  have reg': "Mapping.lookup (ft_by_uri t') v \<noteq> None" if "Mapping.lookup ?F v \<noteq> None" for v
    using reg that ft_intern_lookup_stable [OF i] unfolding files_registered_def by blast
  have inj: "v = u" if "Mapping.lookup ?F v \<noteq> None" "id_of t' v = id_of t' u" for v
    using id_of_inj [OF wf reg' [OF that(1)]] known that(2) by auto
  have "maps_match X (ix\<lparr>ix_file_table := t'\<rparr>) (Mapping.delete u ?F)"
    by (rule maps_match_table [OF mm])
       (use reg in \<open>auto simp: files_registered_def intro!: id_of_stable [OF i] split: if_split_asm\<close>)
  then have defs: "exact_postings (ix_definitions ix) (Mapping.delete u ?F) (def_of t')"
    and packs: "exact_postings (ix_packages ix) (Mapping.delete u ?F) (pkg_of t')"
    and subs: "exact_postings (ix_subtypes ix) (Mapping.delete u ?F) (sub_of t')"
    and exts: "exact_postings (ix_extension_by_receiver ix) (Mapping.delete u ?F) ext_of"
    and quals: "\<And>k l. Mapping.lookup (ix_qualified ix) k = Some l \<Longrightarrow>
        \<exists>v e. Mapping.lookup (Mapping.delete u ?F) v = Some e \<and> sl_file l = id_of t' v
          \<and> (k, sl_range l) \<in> set (build_qualified_keys e (file_stem_from_uri X v))"
    by (auto simp: maps_match_def)
  have files': "ix_files ix' = Mapping.update u ?d ?F" "ix_file_table ix' = t'" by (simp_all add: eq)
  have "exact_postings (ix_definitions ix') (Mapping.update u ?d ?F) (def_of t')"
    unfolding eq by simp
      (rule posting_merge.commit_exact [OF ml defs, where own = "id_of t'"],
       use inj iu in \<open>auto simp: def_of_def set_al_get_defs\<close>)
  moreover have "exact_postings (ix_packages ix') (Mapping.update u ?d ?F) (pkg_of t')"
    unfolding eq by simp
      (rule posting_merge.commit_exact [OF mi packs, where own = "id_of t'"],
       use inj iu in \<open>auto simp: pkg_of_def al_get_single split: if_split_asm option.splits\<close>)
  moreover have "exact_postings (ix_subtypes ix') (Mapping.update u ?d ?F) (sub_of t')"
    unfolding eq by simp
      (rule posting_merge.commit_exact [OF ml subs, where own = "id_of t'"],
       use inj iu in \<open>auto simp: sub_of_def set_al_get_subs\<close>)
  moreover have "exact_postings (ix_extension_by_receiver ix') (Mapping.update u ?d ?F) ext_of"
    unfolding eq by simp
      (rule posting_merge.commit_exact [OF me exts, where own = "\<lambda>v. v" and h = "\<lambda>vs. vs"],
       auto simp: ext_of_def extension_entry_of_def set_al_get_exts)
  moreover have "\<exists>v e. Mapping.lookup (Mapping.update u ?d ?F) v = Some e \<and> sl_file l = id_of t' v
      \<and> (k, sl_range l) \<in> set (build_qualified_keys e (file_stem_from_uri X v))"
    if l: "Mapping.lookup (ix_qualified ix') k = Some l" for k l
  proof (cases "map_of (rev (collect_map (map (\<lambda>(key, r). (key, Location u r))
      (build_qualified_keys d (file_stem_from_uri X u))))) k")
    case None
    then have "Mapping.lookup (ix_qualified ix) k = Some l"
      using l by (simp add: eq lookup_fold_update)
    from quals [OF this] show ?thesis by (auto split: if_split_asm)
  next
    case (Some loc)
    then have "(k, loc) \<in> set (map (\<lambda>(key, r). (key, Location u r)) (build_qualified_keys d (file_stem_from_uri X u)))"
      using set_collect_map by (metis (no_types, lifting) map_of_SomeD set_rev subsetD)
    moreover have "l = \<lparr>sl_file = i, sl_range = loc_range loc\<rparr>"
      using l Some by (simp add: eq lookup_fold_update)
    ultimately show ?thesis using iu by (intro exI [of _ u]) auto
  qed
  ultimately have "maps_match X ix' (ix_files ix')"
    unfolding maps_match_def files' by blast
  moreover have "files_registered X ix'"
    using reg reg' wf parse known by (auto simp: files_registered_def eq)
  ultimately show ?thesis by (simp add: index_inv_def)
qed

end
