(* ===== verification/Index_Props.thy ===== *)
theory Index_Props
  imports Index_Inv
begin

text \<open>
  The properties of the index operations of \<^verbatim>\<open>src/indexer.rs\<close> and
  \<^verbatim>\<open>src/indexer/apply.rs\<close>, over the invariant of \<open>Index_Inv\<close>.
\<close>

section \<open>Applying files\<close>

lemma exact_merges: "posting_merge push_new (sl_file :: symbol_loc \<Rightarrow> _)"
  "posting_merge push_new (\<lambda>i :: file_id. i)" "posting_merge replace_by_uri ee_file_uri"
  "posting_merge append_all (sl_file :: symbol_loc \<Rightarrow> _)" "posting_merge append_all (\<lambda>i :: file_id. i)"
  "posting_merge append_all ee_file_uri"
  by (rule dedup_locs.posting_merge_axioms dedup_ids.posting_merge_axioms
      replace_exts.posting_merge_axioms append_locs.posting_merge_axioms
      append_ids.posting_merge_axioms append_exts.posting_merge_axioms)+

text \<open>There is room for one more URI, or it is known.\<close>

definition can_intern :: "file_table \<Rightarrow> url \<Rightarrow> bool" where
  "can_intern t u \<longleftrightarrow> Mapping.lookup (ft_by_uri t) u \<noteq> None \<or> length (ft_by_id t) < 2 ^ 32"

lemma can_intern_Some: "can_intern t u \<Longrightarrow> \<exists>t' i. ft_intern t u = Some (t', i)"
  by (auto simp: can_intern_def ft_intern_def ft_intern_locked_def Let_def split: option.splits)

lemma dirty_irrelevant [simp]:
  "index_inv X (ix\<lparr>ix_bare_names_dirty := b\<rparr>) = index_inv X ix"
  by (simp add: index_inv_def files_registered_def maps_match_def)

lemma without_file_frame [simp]:
  "ix_files (without_file X u old ix) = ix_files ix"
  "ix_file_table (without_file X u old ix) = ix_file_table ix"
  "ix_content_hashes (without_file X u old ix) = ix_content_hashes ix"
  "ix_source_paths_raw (without_file X u old ix) = ix_source_paths_raw ix"
  "ix_library_uris (without_file X u old ix) = ix_library_uris ix"
  by (simp_all add: without_file_def Let_def)

lemma classified_cong:
  "ix_source_paths_raw ix = ix_source_paths_raw ix' \<Longrightarrow>
     with_classified_source_set ix u d = with_classified_source_set ix' u d"
  by (simp add: with_classified_source_set_def source_set_for_uri_def)

lemma classified_dirty [simp]:
  "with_classified_source_set (ix\<lparr>ix_bare_names_dirty := b\<rparr>) u d = with_classified_source_set ix u d"
  by (rule classified_cong) simp

lemma apply_file_result_inv_aux:
  assumes inv: "index_inv X ix" and parse: "x_url_parse X (fr_uri r) = Some (fr_uri r)"
    and room: "can_intern (ix_file_table ix) (fr_uri r)"
    and sup: "fr_supertypes r = derive_supertypes (fr_uri r) (fr_data r)"
  shows "\<exists>ix'. apply_file_result X r ix = Some ix' \<and> index_inv X ix'
    \<and> ix_files ix' = Mapping.update (fr_uri r) (with_classified_source_set ix (fr_uri r) (fr_data r)) (ix_files ix)
    \<and> ix_content_hashes ix' = Mapping.update (fr_uri r) (fr_content_hash r) (ix_content_hashes ix)
    \<and> ix_source_paths_raw ix' = ix_source_paths_raw ix \<and> ix_library_uris ix' = ix_library_uris ix"
proof -
  let ?u = "fr_uri r"
  let ?ix0 = "case Mapping.lookup (ix_files ix) ?u of None \<Rightarrow> ix | Some old \<Rightarrow> without_file X ?u old ix"
  have reg: "files_registered X ix" and mm: "maps_match X ix (ix_files ix)"
    using inv by (auto simp: index_inv_def)
  have frame: "ix_files ?ix0 = ix_files ix" "ix_file_table ?ix0 = ix_file_table ix"
    "ix_content_hashes ?ix0 = ix_content_hashes ix" "ix_source_paths_raw ?ix0 = ix_source_paths_raw ix"
    "ix_library_uris ?ix0 = ix_library_uris ix"
    by (simp_all split: option.split)
  have mm0: "maps_match X ?ix0 (Mapping.delete ?u (ix_files ?ix0))"
  proof (cases "Mapping.lookup (ix_files ix) ?u")
    case None
    with mm show ?thesis by (simp add: delete_absent)
  next
    case (Some old)
    with maps_match_without_file [OF inv Some] show ?thesis by simp
  qed
  have reg0: "files_registered X ?ix0" using reg by (simp add: files_registered_def frame)
  obtain t' i where i: "ft_intern (ix_file_table ?ix0) ?u = Some (t', i)"
    using can_intern_Some [OF room] frame by auto
  let ?c = "contributions_from_data X ?u (fr_data r) (fr_content_hash r) (derive_supertypes ?u (fr_data r))"
  obtain ix1 where ix1: "commit_contributions X push_new push_new replace_by_uri ?c ?ix0 = Some ix1"
    using commit_contributions_eq [OF parse i] by blast
  have "index_inv X ix1"
    by (rule commit_maps_match [OF exact_merges(1-3) parse i reg0 mm0 ix1])
  moreover have "ix_files ix1 = Mapping.update ?u (with_classified_source_set ?ix0 ?u (fr_data r)) (ix_files ?ix0)"
    "ix_content_hashes ix1 = Mapping.update ?u (fr_content_hash r) (ix_content_hashes ?ix0)"
    "ix_source_paths_raw ix1 = ix_source_paths_raw ?ix0" "ix_library_uris ix1 = ix_library_uris ?ix0"
    using ix1 commit_contributions_eq [OF parse i, of push_new push_new replace_by_uri "fr_data r" "fr_content_hash r"]
    by auto
  moreover have "with_classified_source_set ?ix0 ?u (fr_data r) = with_classified_source_set ix ?u (fr_data r)"
    by (rule classified_cong) (simp add: frame)
  moreover have "apply_file_result X r ix = Some (ix1\<lparr>ix_bare_names_dirty := True\<rparr>)"
    unfolding apply_file_result_def remove_stale_eq [OF reg]
    by (simp add: apply_contributions_def file_contributions_of_def sup ix1)
  ultimately show ?thesis by (simp add: frame)
qed

text \<open>The state in which \<open>index_content\<close> applies the parsed file.\<close>

definition before_apply :: "url \<Rightarrow> indexer \<Rightarrow> indexer" where
  "before_apply uri ix = (invalidate_completion_cache
     (ix\<lparr>ix_parse_count := ix_parse_count ix + 1, ix_completion_cache := ix_completion_cache ix - {uri}\<rparr>))
     \<lparr>ix_sig_cache := Mapping.empty, ix_sig_fast_cache := Mapping.empty\<rparr>"

lemma before_apply_frame [simp]:
  "index_inv X (before_apply u ix) = index_inv X ix"
  "ix_files (before_apply u ix) = ix_files ix"
  "ix_file_table (before_apply u ix) = ix_file_table ix"
  "ix_content_hashes (before_apply u ix) = ix_content_hashes ix"
  "ix_source_paths_raw (before_apply u ix) = ix_source_paths_raw ix"
  "ix_library_uris (before_apply u ix) = ix_library_uris ix"
  by (simp_all add: before_apply_def invalidate_completion_cache_def index_inv_def files_registered_def
      maps_match_def)

lemma index_content_parsed:
  "Mapping.lookup (ix_content_hashes ix) uri \<noteq> Some (hash_str content) \<Longrightarrow>
   index_content X uri content ix =
     Option.bind (apply_file_result X (parse_file X uri content) (before_apply uri ix))
       (\<lambda>ix3. Some (ix3\<lparr>ix_bare_names_dirty := True\<rparr>,
          Some (with_classified_source_set ix3 uri (fr_data (parse_file X uri content)))))"
  by (simp add: index_content_def before_apply_def Let_def)

lemma parse_file_fields [simp]:
  "fr_uri (parse_file X u c) = u"
  "fr_supertypes (parse_file X u c) = derive_supertypes u (fr_data (parse_file X u c))"
  "fr_content_hash (parse_file X u c) = hash_str c"
  by (simp_all add: parse_file_def Let_def)

lemma index_content_props:
  assumes "index_inv X ix" and "x_url_parse X u = Some u" and "can_intern (ix_file_table ix) u"
    and "Mapping.lookup (ix_content_hashes ix) u \<noteq> Some (hash_str c)"
  shows "\<exists>ix' d. index_content X u c ix = Some (ix', Some d) \<and> index_inv X ix'
    \<and> d = with_classified_source_set ix u (fr_data (parse_file X u c))
    \<and> ix_files ix' = Mapping.update u d (ix_files ix)
    \<and> ix_content_hashes ix' = Mapping.update u (hash_str c) (ix_content_hashes ix)
    \<and> ix_library_uris ix' = ix_library_uris ix"
proof -
  note aux = apply_file_result_inv_aux [of X "before_apply u ix" "parse_file X u c",
    unfolded parse_file_fields before_apply_frame, OF assms(1-3) refl]
  obtain ix1 where ix1: "apply_file_result X (parse_file X u c) (before_apply u ix) = Some ix1"
    "index_inv X ix1"
    "ix_files ix1 = Mapping.update u (with_classified_source_set (before_apply u ix) u (fr_data (parse_file X u c))) (ix_files ix)"
    "ix_content_hashes ix1 = Mapping.update u (hash_str c) (ix_content_hashes ix)"
    "ix_source_paths_raw ix1 = ix_source_paths_raw ix" "ix_library_uris ix1 = ix_library_uris ix"
    using aux by blast
  have "with_classified_source_set (before_apply u ix) u e = with_classified_source_set ix u e"
    "with_classified_source_set ix1 u e = with_classified_source_set ix u e" for e
    by (rule classified_cong, simp add: ix1(5))+
  with ix1 show ?thesis by (simp add: index_content_parsed [OF assms(4)])
qed

section \<open>Resetting\<close>

lemma lookup_filter_key:
  "Mapping.lookup (Mapping.filter (\<lambda>u _. p u) F) u = Some d \<longleftrightarrow> Mapping.lookup F u = Some d \<and> p u"
  by (auto split: option.splits)

lemma keys_filter_key: "Mapping.keys (Mapping.filter (\<lambda>u _. p u) F) = {u \<in> Mapping.keys F. p u}"
  by (auto simp: keys_lookup split: option.splits if_split_asm)

lemma exact_postings_retain:
  assumes exact: "exact_postings m F contrib"
    and lib: "\<And>u d k x. Mapping.lookup F u = Some d \<Longrightarrow> x \<in> contrib u d k \<Longrightarrow> p x = lib u"
  shows "exact_postings (retain_nonempty p m) (Mapping.filter (\<lambda>u _. lib u) F) contrib"
proof -
  have "x \<in> set (postings (retain_nonempty p m) k) \<longleftrightarrow>
      (\<exists>u d. Mapping.lookup (Mapping.filter (\<lambda>u _. lib u) F) u = Some d \<and> x \<in> contrib u d k)" for k x
  proof -
    have "x \<in> set (postings (retain_nonempty p m) k)
        \<longleftrightarrow> p x \<and> (\<exists>u d. Mapping.lookup F u = Some d \<and> x \<in> contrib u d k)"
      using exact by (auto simp: postings_retain_nonempty exact_postings_def)
    also have "\<dots> \<longleftrightarrow> (\<exists>u d. Mapping.lookup F u = Some d \<and> lib u \<and> x \<in> contrib u d k)"
      using lib by blast
    finally show ?thesis unfolding lookup_filter_key by blast
  qed
  then show ?thesis by (simp add: exact_postings_def)
qed

lemma library_file_id_of:
  assumes "files_registered X ix" and "Mapping.lookup (ix_files ix) u \<noteq> None"
  shows "library_file ix (id_of (ix_file_table ix) u) \<longleftrightarrow> u \<in> ix_library_uris ix"
proof -
  obtain i where i: "Mapping.lookup (ft_by_uri (ix_file_table ix)) u = Some i"
    using assms by (auto simp: files_registered_def)
  then have "ft_url (ix_file_table ix) i = Some u"
    using assms ft_url_wf by (auto simp: files_registered_def)
  with i show ?thesis by (simp add: library_file_def id_of_def)
qed

lemma reset_index_inv:
  assumes "index_inv X ix"
  shows "index_inv X (reset_index_state ix)"
proof -
  let ?F = "Mapping.filter (\<lambda>u _. u \<in> ix_library_uris ix) (ix_files ix)"
  let ?ix = "reset_index_state ix"
  have reg: "files_registered X ix" and mm: "maps_match X ix (ix_files ix)"
    using assms by (auto simp: index_inv_def)
  have T: "ix_file_table ?ix = ix_file_table ix" and F: "ix_files ?ix = ?F"
    by (simp_all add: reset_index_state_def Let_def)
  have lib: "library_file ix (id_of (ix_file_table ix) u) = (u \<in> ix_library_uris ix)"
    if "Mapping.lookup (ix_files ix) u = Some d" for u d
    using library_file_id_of [OF reg, of u] that by simp
  have "exact_postings (ix_definitions ?ix) ?F (def_of (ix_file_table ix))"
    "exact_postings (ix_packages ?ix) ?F (pkg_of (ix_file_table ix))"
    "exact_postings (ix_subtypes ?ix) ?F (sub_of (ix_file_table ix))"
    "exact_postings (ix_extension_by_receiver ?ix) ?F ext_of"
    using mm unfolding maps_match_def reset_index_state_def Let_def
    by (auto intro!: exact_postings_retain simp: lib def_of_def pkg_of_def sub_of_def ext_of_def
        extension_entry_of_def split: if_split_asm)
  moreover have "\<exists>u d. Mapping.lookup ?F u = Some d \<and> sl_file l = id_of (ix_file_table ix) u
      \<and> (k, sl_range l) \<in> set (build_qualified_keys d (file_stem_from_uri X u))"
    if "Mapping.lookup (ix_qualified ?ix) k = Some l" for k l
  proof -
    have l: "Mapping.lookup (ix_qualified ix) k = Some l" "library_file ix (sl_file l)"
      using that by (auto simp: reset_index_state_def Let_def split: option.splits if_split_asm)
    then obtain u d where u: "Mapping.lookup (ix_files ix) u = Some d"
      "sl_file l = id_of (ix_file_table ix) u"
      "(k, sl_range l) \<in> set (build_qualified_keys d (file_stem_from_uri X u))"
      using mm unfolding maps_match_def by blast
    then have "u \<in> ix_library_uris ix" using l(2) lib [OF u(1)] by simp
    with u show ?thesis by (intro exI [of _ u] exI [of _ d]) simp
  qed
  ultimately have "maps_match X ?ix (ix_files ?ix)" unfolding maps_match_def T F by blast
  moreover have "files_registered X ?ix"
    using reg by (auto simp: files_registered_def reset_index_state_def Let_def keys_filter_key
        split: option.splits if_split_asm)
  ultimately show ?thesis by (simp add: index_inv_def)
qed

section \<open>Workspace results\<close>

lemma commit_fresh:
  assumes inv: "index_inv X ix" and parse: "x_url_parse X (fr_uri r) = Some (fr_uri r)"
    and sup: "fr_supertypes r = derive_supertypes (fr_uri r) (fr_data r)"
    and absent: "Mapping.lookup (ix_files ix) (fr_uri r) = None"
    and room: "length (ft_by_id (ix_file_table ix)) < 2 ^ 32"
  shows "\<exists>ix'. apply_contributions_fresh X (file_contributions_of X r) ix = Some ix' \<and> index_inv X ix'
    \<and> ix_files ix' = Mapping.update (fr_uri r) (with_classified_source_set ix (fr_uri r) (fr_data r)) (ix_files ix)
    \<and> length (ft_by_id (ix_file_table ix')) \<le> Suc (length (ft_by_id (ix_file_table ix)))
    \<and> ix_source_paths_raw ix' = ix_source_paths_raw ix \<and> ix_library_uris ix' = ix_library_uris ix"
proof -
  let ?u = "fr_uri r"
  have reg: "files_registered X ix" and mm: "maps_match X ix (Mapping.delete ?u (ix_files ix))"
    using inv absent by (auto simp: index_inv_def delete_absent)
  obtain t' i where i: "ft_intern (ix_file_table ix) ?u = Some (t', i)"
    using can_intern_Some [of "ix_file_table ix" ?u] room by (auto simp: can_intern_def)
  let ?c = "contributions_from_data X ?u (fr_data r) (fr_content_hash r) (derive_supertypes ?u (fr_data r))"
  note eq = commit_contributions_eq [OF parse i, of append_all append_all append_all "fr_data r" "fr_content_hash r"]
  obtain ix1 where ix1: "commit_contributions X append_all append_all append_all ?c ix = Some ix1"
    using eq by blast
  have "index_inv X ix1" by (rule commit_maps_match [OF exact_merges(4-6) parse i reg mm ix1])
  moreover have "length (ft_by_id t') \<le> Suc (length (ft_by_id (ix_file_table ix)))"
    using i by (rule ft_intern_cases) auto
  ultimately show ?thesis
    using eq ix1 by (auto simp: apply_contributions_fresh_def file_contributions_of_def sup)
qed

definition result_ok :: "externals \<Rightarrow> file_index_result \<Rightarrow> bool" where
  "result_ok X r \<longleftrightarrow> x_url_parse X (fr_uri r) = Some (fr_uri r)
     \<and> fr_supertypes r = derive_supertypes (fr_uri r) (fr_data r)"

lemma commit_all_fresh:
  assumes "index_inv X ix" and "\<And>r. r \<in> set rs \<Longrightarrow> result_ok X r" and "distinct (map fr_uri rs)"
    and "\<And>r. r \<in> set rs \<Longrightarrow> Mapping.lookup (ix_files ix) (fr_uri r) = None"
    and "length (ft_by_id (ix_file_table ix)) + length rs \<le> 2 ^ 32"
  shows "\<exists>ix'. fold_opt (\<lambda>fr. apply_contributions_fresh X (file_contributions_of X fr)) rs ix = Some ix'
    \<and> index_inv X ix' \<and> ix_library_uris ix' = ix_library_uris ix
    \<and> (\<forall>u. Mapping.lookup (ix_files ix') u =
        (case map_of (map (\<lambda>r. (fr_uri r, with_classified_source_set ix (fr_uri r) (fr_data r))) rs) u of
           Some d \<Rightarrow> Some d | None \<Rightarrow> Mapping.lookup (ix_files ix) u))"
  using assms
proof (induction rs arbitrary: ix)
  case Nil
  then show ?case by simp
next
  case (Cons r rs)
  have ok: "x_url_parse X (fr_uri r) = Some (fr_uri r)"
    "fr_supertypes r = derive_supertypes (fr_uri r) (fr_data r)"
    "Mapping.lookup (ix_files ix) (fr_uri r) = None"
    "length (ft_by_id (ix_file_table ix)) < 2 ^ 32"
    using Cons.prems(2) [of r] Cons.prems(4) [of r] Cons.prems(5) by (auto simp: result_ok_def)
  from commit_fresh [OF Cons.prems(1) ok]
  obtain ix1 where ix1: "apply_contributions_fresh X (file_contributions_of X r) ix = Some ix1" "index_inv X ix1"
    "ix_files ix1 = Mapping.update (fr_uri r) (with_classified_source_set ix (fr_uri r) (fr_data r)) (ix_files ix)"
    "length (ft_by_id (ix_file_table ix1)) \<le> Suc (length (ft_by_id (ix_file_table ix)))"
    "ix_source_paths_raw ix1 = ix_source_paths_raw ix" "ix_library_uris ix1 = ix_library_uris ix" by blast
  have cl: "with_classified_source_set ix1 u d = with_classified_source_set ix u d" for u d
    by (rule classified_cong) (simp add: ix1(5))
  have "Mapping.lookup (ix_files ix1) (fr_uri q) = None" if "q \<in> set rs" for q
    using Cons.prems(3,4) that ix1(3) by force
  moreover have "length (ft_by_id (ix_file_table ix1)) + length rs \<le> 2 ^ 32"
    using ix1(4) Cons.prems(5) by simp
  moreover have "distinct (map fr_uri rs)" using Cons.prems(3) by simp
  ultimately obtain ix' where ix': "fold_opt (\<lambda>fr. apply_contributions_fresh X (file_contributions_of X fr)) rs ix1 = Some ix'"
    "index_inv X ix'" "ix_library_uris ix' = ix_library_uris ix1"
    "\<forall>u. Mapping.lookup (ix_files ix') u =
        (case map_of (map (\<lambda>r. (fr_uri r, with_classified_source_set ix1 (fr_uri r) (fr_data r))) rs) u of
           Some d \<Rightarrow> Some d | None \<Rightarrow> Mapping.lookup (ix_files ix1) u)"
    using Cons.IH [OF ix1(2)] Cons.prems(2) by force
  have "fr_uri r \<notin> fr_uri ` set rs" using Cons.prems(3) by simp
  then have "map_of (map (\<lambda>r. (fr_uri r, with_classified_source_set ix (fr_uri r) (fr_data r))) rs) (fr_uri r) = None"
    by (auto simp: map_of_eq_None_iff)
  then have "Mapping.lookup (ix_files ix') u =
      (case map_of (map (\<lambda>r. (fr_uri r, with_classified_source_set ix (fr_uri r) (fr_data r))) (r # rs)) u of
         Some d \<Rightarrow> Some d | None \<Rightarrow> Mapping.lookup (ix_files ix) u)" for u
    using ix'(4) ix1(3) by (auto simp: cl split: option.split)
  with ix' ix1 show ?case by simp
qed

lemma rebuild_frame [simp]:
  "index_inv X (rebuild_bare_name_cache ix) = index_inv X ix"
  "ix_files (rebuild_bare_name_cache ix) = ix_files ix"
  "ix_library_uris (rebuild_bare_name_cache ix) = ix_library_uris ix"
  by (simp_all add: rebuild_bare_name_cache_def rebuild_importable_fqns_def Let_def index_inv_def
      files_registered_def maps_match_def)

section \<open>Reading the index\<close>

lemma registered_url:
  assumes "files_registered X ix" and "Mapping.lookup (ix_files ix) u \<noteq> None"
  shows "ft_url (ix_file_table ix) (id_of (ix_file_table ix) u) = Some u"
proof -
  obtain i where "Mapping.lookup (ft_by_uri (ix_file_table ix)) u = Some i"
    using assms by (auto simp: files_registered_def)
  then show ?thesis using assms ft_url_wf by (auto simp: files_registered_def id_of_def)
qed

lemma workspace_locations_eq:
  assumes "index_inv X ix"
  shows "workspace_locations ix name = {Location u (se_selection_range s) |u d s.
    Mapping.lookup (ix_files ix) u = Some d \<and> u \<notin> ix_library_uris ix
    \<and> s \<in> set (fd_symbols d) \<and> se_name s = name}"
proof -
  have reg: "files_registered X ix" and exact: "exact_postings (ix_definitions ix) (ix_files ix) (def_of (ix_file_table ix))"
    using assms by (auto simp: index_inv_def maps_match_def)
  have url: "ft_url (ix_file_table ix) (id_of (ix_file_table ix) u) = Some u"
    if "Mapping.lookup (ix_files ix) u = Some d" for u d
    by (rule registered_url [OF reg]) (simp add: that)
  have loc: "ft_location (ix_file_table ix) \<lparr>sl_file = id_of (ix_file_table ix) u, sl_range = r\<rparr>
      = Some (Location u r)" if "Mapping.lookup (ix_files ix) u = Some d" for u d r
    using url [OF that] by (simp add: ft_location_def)
  have mem: "x \<in> set (postings (ix_definitions ix) name) \<longleftrightarrow>
      (\<exists>u d s. Mapping.lookup (ix_files ix) u = Some d \<and> s \<in> set (fd_symbols d) \<and> se_name s = name
         \<and> x = \<lparr>sl_file = id_of (ix_file_table ix) u, sl_range = se_selection_range s\<rparr>)" for x
    using exact unfolding exact_postings_def def_of_def by blast
  show ?thesis
    unfolding workspace_locations_def Bex_def mem by (force simp: loc)
qed

lemma subtypes_of_eq:
  assumes "index_inv X ix"
  shows "set (subtypes_of ix name) = {l |u d l.
    Mapping.lookup (ix_files ix) u = Some d \<and> (name, l) \<in> set (derive_supertypes u d)}"
proof -
  have reg: "files_registered X ix" and exact: "exact_postings (ix_subtypes ix) (ix_files ix) (sub_of (ix_file_table ix))"
    using assms by (auto simp: index_inv_def maps_match_def)
  have loc: "ft_location (ix_file_table ix) \<lparr>sl_file = id_of (ix_file_table ix) u, sl_range = loc_range l\<rparr> = Some l"
    if "Mapping.lookup (ix_files ix) u = Some d" "(name, l) \<in> set (derive_supertypes u d)" for u d l
  proof -
    have "ft_url (ix_file_table ix) (id_of (ix_file_table ix) u) = Some u"
      by (rule registered_url [OF reg]) (simp add: that(1))
    moreover have "loc_uri l = u" using that(2) by (rule derive_supertypes_uri)
    ultimately show ?thesis by (cases l) (simp add: ft_location_def)
  qed
  have mem: "x \<in> set (postings (ix_subtypes ix) name) \<longleftrightarrow>
      (\<exists>u d l. Mapping.lookup (ix_files ix) u = Some d \<and> (name, l) \<in> set (derive_supertypes u d)
         \<and> x = \<lparr>sl_file = id_of (ix_file_table ix) u, sl_range = loc_range l\<rparr>)" for x
    using exact unfolding exact_postings_def sub_of_def by blast
  show ?thesis
    unfolding subtypes_of_def set_map_filter Bex_def mem by (force simp: loc)
qed

section \<open>Properties\<close>

text \<open>Externals for the witnesses: every URI parses, and a file declares one class, named by its
  content, in the package \<open>p\<close>.\<close>

definition example_externals :: externals where
  "example_externals = \<lparr>x_url_parse = Some, x_url_to_file_path = (\<lambda>u. Some (path_of_str u)),
     x_url_from_file_path = (\<lambda>p. Some (path_to_str p)), x_url_path = (\<lambda>u. u),
     x_url_scheme = (\<lambda>_. lit ''file''), x_url_cannot_be_a_base = (\<lambda>_. False),
     x_parse = (\<lambda>_ content. default_file_data\<lparr>fd_package := Some (lit ''p''),
        fd_symbols := [(example_class ''A'' 0 0)\<lparr>se_name := content\<rparr>]\<rparr>),
     x_parse_live = (\<lambda>_ _. True), x_jar_sources_dir = path_of_str (lit ''/jars'')\<rparr>"

lemma example_parse [simp]: "x_url_parse example_externals u = Some u"
  by (simp add: example_externals_def)

lemma new_can_intern [simp]: "can_intern (ix_file_table (indexer_new b)) u"
  by (simp add: can_intern_def indexer_new_def ft_new_def)

lemma new_lookups [simp]:
  "Mapping.lookup (ix_files (indexer_new b)) u = None"
  "Mapping.lookup (ix_content_hashes (indexer_new b)) u = None"
  by (simp_all add: indexer_new_def)

text \<open>C8 Indexing a file keeps the index exact: after \<open>index_content\<close> the definition, package,
  subtype and extension maps hold exactly what the indexed files contribute, the file's previous
  contributions are gone, its hash is the new content's, and no other file is touched. The operation
  does not panic while the file table has room.\<close>

theorem index_content_exact:
  assumes "index_inv X ix" and "x_url_parse X u = Some u" and "can_intern (ix_file_table ix) u"
  shows "\<exists>ix' r. index_content X u c ix = Some (ix', r) \<and> index_inv X ix'
    \<and> Mapping.lookup (ix_content_hashes ix') u = Some (hash_str c)
    \<and> (case r of
         None \<Rightarrow> ix' = ix
       | Some d \<Rightarrow> d = with_classified_source_set ix u (parse_by_extension X (x_url_path X u) c)
           \<and> ix_files ix' = Mapping.update u d (ix_files ix))"
proof (cases "Mapping.lookup (ix_content_hashes ix) u = Some (hash_str c)")
  case True
  then show ?thesis using assms(1) by (simp add: index_content_def)
next
  case False
  from index_content_props [OF assms False] show ?thesis
    by (auto simp: parse_file_def Let_def)
qed

theorem index_content_exact_witness:
  "\<exists>ix' r. index_content example_externals (lit ''a.kt'') (lit ''A'') (indexer_new False) = Some (ix', r)
     \<and> index_inv example_externals ix'
     \<and> Mapping.lookup (ix_content_hashes ix') (lit ''a.kt'') = Some (hash_str (lit ''A''))"
  using index_content_exact [of example_externals "indexer_new False" "lit ''a.kt''" "lit ''A''"]
    index_inv_new by fastforce

lemma apply_workspace_result_files:
  assumes "index_inv X ix"
    and "\<forall>r\<in>set (wr_files w). result_ok X r \<and> fr_uri r \<notin> ix_library_uris ix"
    and "distinct (map fr_uri (wr_files w))"
    and "length (ft_by_id (ix_file_table ix)) + length (wr_files w) \<le> 2 ^ 32"
  shows "\<exists>ix'. apply_workspace_result X w ix = Some ix' \<and> index_inv X ix'
    \<and> (\<forall>u. Mapping.lookup (ix_files ix') u =
        (case map_of (map (\<lambda>r. (fr_uri r, with_classified_source_set ix (fr_uri r) (fr_data r))) (wr_files w)) u of
           Some d \<Rightarrow> Some d
         | None \<Rightarrow> if u \<in> ix_library_uris ix then Mapping.lookup (ix_files ix) u else None))"
proof -
  let ?ix0 = "reset_index_state ix"
  have files0: "Mapping.lookup (ix_files ?ix0) u
      = (if u \<in> ix_library_uris ix then Mapping.lookup (ix_files ix) u else None)" for u
    by (simp add: reset_index_state_def Let_def split: option.splits)
  have cl: "with_classified_source_set ?ix0 u d = with_classified_source_set ix u d" for u d
    by (rule classified_cong) (simp add: reset_index_state_def Let_def)
  have "ix_file_table ?ix0 = ix_file_table ix" by (simp add: reset_index_state_def Let_def)
  then have room: "length (ft_by_id (ix_file_table ?ix0)) + length (wr_files w) \<le> 2 ^ 32"
    using assms(4) by simp
  obtain ix1 where ix1:
    "fold_opt (\<lambda>fr. apply_contributions_fresh X (file_contributions_of X fr)) (wr_files w) ?ix0 = Some ix1"
    "index_inv X ix1"
    "\<forall>u. Mapping.lookup (ix_files ix1) u =
        (case map_of (map (\<lambda>r. (fr_uri r, with_classified_source_set ?ix0 (fr_uri r) (fr_data r))) (wr_files w)) u of
           Some d \<Rightarrow> Some d | None \<Rightarrow> Mapping.lookup (ix_files ?ix0) u)"
    using commit_all_fresh [OF reset_index_inv [OF assms(1)] _ assms(3) _ room] assms(2) files0 by auto
  have "Mapping.lookup (ix_files ix1) u =
      (case map_of (map (\<lambda>r. (fr_uri r, with_classified_source_set ix (fr_uri r) (fr_data r))) (wr_files w)) u of
         Some d \<Rightarrow> Some d
       | None \<Rightarrow> if u \<in> ix_library_uris ix then Mapping.lookup (ix_files ix) u else None)" for u
    using ix1(3) by (simp add: cl files0 cong: option.case_cong)
  with ix1(1,2) show ?thesis by (simp add: apply_workspace_result_def)
qed

text \<open>C9 A finished workspace scan replaces the index: \<open>apply_workspace_result\<close> drops every file
  that is not a library file, adds every file of the result, and the maps are exact for the files
  there are. This needs that the index was exact before (deleting a file, scanning the sources of libraries again
  and the extensions of a materialized JAR leave one that is not), that the result names each file once and none
  that is kept, with the supertypes of its data, and that the file table has room for them.\<close>

theorem apply_workspace_result_exact:
  assumes "index_inv X ix"
    and "\<forall>r\<in>set (wr_files w). result_ok X r \<and> fr_uri r \<notin> ix_library_uris ix"
    and "distinct (map fr_uri (wr_files w))"
    and "length (ft_by_id (ix_file_table ix)) + length (wr_files w) \<le> 2 ^ 32"
  shows "\<exists>ix'. apply_workspace_result X w ix = Some ix' \<and> index_inv X ix'
    \<and> (\<forall>u. Mapping.lookup (ix_files ix') u =
        (case map_of (map (\<lambda>r. (fr_uri r, with_classified_source_set ix (fr_uri r) (fr_data r))) (wr_files w)) u of
           Some d \<Rightarrow> Some d
         | None \<Rightarrow> if u \<in> ix_library_uris ix then Mapping.lookup (ix_files ix) u else None))"
  using assms by (rule apply_workspace_result_files)

theorem apply_workspace_result_exact_witness:
  "\<exists>ix'. apply_workspace_result example_externals
      \<lparr>wr_files = [parse_file example_externals (lit ''a.kt'') (lit ''A'')],
       wr_stats = \<lparr>st_cache_hits = 0, st_files_parsed = 1, st_symbols_extracted = 1\<rparr>,
       wr_workspace_root = [], wr_aborted = False, wr_complete_scan = True\<rparr> (indexer_new False) = Some ix'
     \<and> index_inv example_externals ix'"
proof -
  let ?w = "\<lparr>wr_files = [parse_file example_externals (lit ''a.kt'') (lit ''A'')],
       wr_stats = \<lparr>st_cache_hits = 0, st_files_parsed = 1, st_symbols_extracted = 1\<rparr>,
       wr_workspace_root = [], wr_aborted = False, wr_complete_scan = True\<rparr>"
  have "\<forall>r\<in>set (wr_files ?w). result_ok example_externals r \<and> fr_uri r \<notin> ix_library_uris (indexer_new False)"
    by (simp add: result_ok_def indexer_new_def)
  moreover have "length (ft_by_id (ix_file_table (indexer_new False))) + length (wr_files ?w) \<le> 2 ^ 32"
    by (simp add: indexer_new_def ft_new_def)
  ultimately show ?thesis
    using apply_workspace_result_exact [of example_externals "indexer_new False" ?w] index_inv_new by auto
qed

text \<open>C11 A reset keeps the library files with all their entries, in each of the five maps, and forgets every other
  file and entry: what is left of a posting list is its library entries, in their order, a qualified name stays
  exactly if it is a library file's, and an extension exactly if its file is marked as a library file, be it a source
  or a JAR. An index that was exact is exact afterwards, and then no name has a location in the workspace. The
  completion epoch advances, so that a completion computed before cannot be stored after.\<close>

theorem reset_index_state_exact:
  shows "(\<forall>u. Mapping.lookup (ix_files (reset_index_state ix)) u =
        (if u \<in> ix_library_uris ix then Mapping.lookup (ix_files ix) u else None))
    \<and> postings (ix_definitions (reset_index_state ix)) name
        = filter (\<lambda>l. library_file ix (sl_file l)) (postings (ix_definitions ix) name)
    \<and> postings (ix_subtypes (reset_index_state ix)) name
        = filter (\<lambda>l. library_file ix (sl_file l)) (postings (ix_subtypes ix) name)
    \<and> postings (ix_packages (reset_index_state ix)) name = filter (library_file ix) (postings (ix_packages ix) name)
    \<and> postings (ix_extension_by_receiver (reset_index_state ix)) name
        = filter (\<lambda>e. ee_file_uri e \<in> ix_library_uris ix) (postings (ix_extension_by_receiver ix) name)
    \<and> Mapping.lookup (ix_qualified (reset_index_state ix)) name
        = (case Mapping.lookup (ix_qualified ix) name of
             Some l \<Rightarrow> if library_file ix (sl_file l) then Some l else None | None \<Rightarrow> None)
    \<and> ix_completion_epoch (reset_index_state ix) = ix_completion_epoch ix + 1
    \<and> (index_inv X ix \<longrightarrow> index_inv X (reset_index_state ix) \<and> workspace_locations (reset_index_state ix) name = {})"
proof -
  let ?ix = "reset_index_state ix"
  have files: "Mapping.lookup (ix_files ?ix) u
      = (if u \<in> ix_library_uris ix then Mapping.lookup (ix_files ix) u else None)" for u
    by (simp add: reset_index_state_def Let_def split: option.splits)
  have "u \<in> ix_library_uris ?ix" if "Mapping.lookup (ix_files ?ix) u = Some d" for u d
    using that unfolding reset_index_state_def Let_def by (auto split: option.splits if_split_asm)
  then have "index_inv X ix \<longrightarrow> index_inv X ?ix \<and> workspace_locations ?ix name = {}"
    using workspace_locations_eq [OF reset_index_inv, of X ix name] reset_index_inv [of X ix] by auto
  moreover have "Mapping.lookup (ix_qualified ?ix) name = (case Mapping.lookup (ix_qualified ix) name of
             Some l \<Rightarrow> if library_file ix (sl_file l) then Some l else None | None \<Rightarrow> None)"
    by (simp add: reset_index_state_def Let_def lookup_filter_map split: option.split)
  ultimately show ?thesis
    using files by (simp add: reset_index_state_def Let_def postings_retain_nonempty)
qed

text \<open>A library file that declares a class, before and after a reset.\<close>

theorem reset_index_state_exact_witness:
  "\<exists>ix d. index_inv example_externals ix \<and> Mapping.lookup (ix_files ix) (lit ''a.kt'') = Some d \<and> fd_symbols d \<noteq> []
     \<and> index_inv example_externals (reset_index_state ix)
     \<and> Mapping.lookup (ix_files (reset_index_state ix)) (lit ''a.kt'') = Some d"
proof -
  from index_content_props [of example_externals "indexer_new False" "lit ''a.kt''" "lit ''A''"] index_inv_new
  obtain ix d where ix: "index_inv example_externals ix"
    "d = with_classified_source_set (indexer_new False) (lit ''a.kt'')
       (fr_data (parse_file example_externals (lit ''a.kt'') (lit ''A'')))"
    "ix_files ix = Mapping.update (lit ''a.kt'') d (ix_files (indexer_new False))" by fastforce
  let ?ix = "ix\<lparr>ix_library_uris := {lit ''a.kt''}\<rparr>"
  have "index_inv example_externals ?ix"
    using ix(1) by (simp add: index_inv_def files_registered_def maps_match_def)
  moreover have "fd_symbols d \<noteq> []"
    unfolding ix(2) classified_fields by (simp add: parse_file_def parse_by_extension_def example_externals_def Let_def)
  moreover have "Mapping.lookup (ix_files ?ix) (lit ''a.kt'') = Some d" using ix(3) by simp
  ultimately show ?thesis
    using reset_index_state_exact [of ?ix "[]" example_externals] by (intro exI [of _ ?ix] exI [of _ d]) auto
qed

text \<open>Where the files of the workspace declare a name.\<close>

definition workspace_declared :: "indexer \<Rightarrow> str \<Rightarrow> location set" where
  "workspace_declared ix name = {Location u (se_selection_range s) |u d s.
     Mapping.lookup (ix_files ix) u = Some d \<and> u \<notin> ix_library_uris ix
     \<and> s \<in> set (fd_symbols d) \<and> se_name s = name}"

text \<open>C34 By-name lookup is deterministic and complete up to its cap: \<open>workspace_def_candidates\<close>
  returns, sorted by URI and position and at most 64, locations that the definition map has for the name in files
  that are no library files; a location it leaves out comes after all it returns, and where there are at most 64 it
  leaves out none. Where the index is exact these are the places where its files declare the name. (It is not after
  a file was deleted: then the map still has the deleted file's.)\<close>

theorem workspace_def_candidates_correct:
  shows "sorted_wrt location_le (workspace_def_candidates ix name)
    \<and> set (workspace_def_candidates ix name) \<subseteq> workspace_locations ix name
    \<and> length (workspace_def_candidates ix name) \<le> 64
    \<and> (\<forall>l\<in>workspace_locations ix name. l \<notin> set (workspace_def_candidates ix name) \<longrightarrow>
         length (workspace_def_candidates ix name) = 64
         \<and> (\<forall>c\<in>set (workspace_def_candidates ix name). location_le c l))
    \<and> (index_inv X ix \<longrightarrow> workspace_locations ix name = workspace_declared ix name)"
proof -
  obtain ls where ls: "workspace_def_candidates ix name = take MAX_BY_NAME_DEFS ls"
    "sorted_wrt location_le ls" "set ls = workspace_locations ix name"
    using workspace_def_candidates_eq by blast
  have sub: "set (take MAX_BY_NAME_DEFS ls) \<subseteq> set ls" using set_take_subset by fastforce
  have "length (take MAX_BY_NAME_DEFS ls) = 64"
    if "l \<in> set ls" "l \<notin> set (take MAX_BY_NAME_DEFS ls)" for l
  proof -
    have "take MAX_BY_NAME_DEFS ls \<noteq> ls" using that by auto
    then have "MAX_BY_NAME_DEFS < length ls" by (meson not_less take_all)
    then show ?thesis by (simp add: MAX_BY_NAME_DEFS_def)
  qed
  moreover have "location_le c l"
    if "l \<in> set ls" "l \<notin> set (take MAX_BY_NAME_DEFS ls)" "c \<in> set (take MAX_BY_NAME_DEFS ls)" for l c
    using set_take_sorted_below [OF ls(2)] that by blast
  moreover have "length (take MAX_BY_NAME_DEFS ls) \<le> 64" by (simp add: MAX_BY_NAME_DEFS_def)
  moreover have "workspace_locations ix name = workspace_declared ix name" if "index_inv X ix"
    unfolding workspace_declared_def by (rule workspace_locations_eq [OF that])
  ultimately show ?thesis unfolding ls(1) ls(3) [symmetric] using sub sorted_wrt_take [OF ls(2)] by blast
qed

theorem workspace_def_candidates_correct_witness:
  "\<exists>ix. index_inv example_externals ix \<and> ix_library_uris ix = {}
     \<and> workspace_def_candidates ix (lit ''A'') \<noteq> []"
proof -
  from index_content_props [of example_externals "indexer_new False" "lit ''a.kt''" "lit ''A''"] index_inv_new
  obtain ix d where ix: "index_inv example_externals ix"
    "d = with_classified_source_set (indexer_new False) (lit ''a.kt'')
       (fr_data (parse_file example_externals (lit ''a.kt'') (lit ''A'')))"
    "ix_files ix = Mapping.update (lit ''a.kt'') d (ix_files (indexer_new False))"
    "ix_library_uris ix = ix_library_uris (indexer_new False)" by fastforce
  let ?l = "Location (lit ''a.kt'') (se_selection_range (example_class ''A'' 0 0))"
  have "fd_symbols d = [(example_class ''A'' 0 0)\<lparr>se_name := lit ''A''\<rparr>]"
    unfolding ix(2) classified_fields by (simp add: parse_file_def parse_by_extension_def example_externals_def Let_def)
  then have "?l \<in> workspace_declared ix (lit ''A'')"
    unfolding workspace_declared_def using ix by (intro CollectI exI [of _ "lit ''a.kt''"] exI [of _ d]
        exI [of _ "(example_class ''A'' 0 0)\<lparr>se_name := lit ''A''\<rparr>"])
      (simp add: indexer_new_def)
  with ix(1) workspace_def_candidates_correct [of ix "lit ''A''" example_externals]
  have "workspace_def_candidates ix (lit ''A'') \<noteq> []"
    by (metis (no_types, lifting) empty_iff list.set(1) list.size(3) zero_neq_numeral)
  then show ?thesis using ix by (intro exI [of _ ix]) (simp add: indexer_new_def)
qed

text \<open>Go-to-implementation is complete and sound for the direct subtypes of a name:
  \<open>subtypes_of\<close> returns the locations of exactly the classes of indexed files whose declaration
  lists the name as a supertype.\<close>

theorem subtypes_of_correct:
  assumes "index_inv X ix"
  shows "set (subtypes_of ix name) = {Location u (se_selection_range s) |u d s args.
    Mapping.lookup (ix_files ix) u = Some d \<and> s \<in> set (fd_symbols d) \<and> se_kind s \<in> set CLASS_KINDS
    \<and> (selection_start s, name, args) \<in> set (fd_supers d)}"
proof -
  have "(name, l) \<in> set (derive_supertypes u d) \<longleftrightarrow>
      (\<exists>s args. l = Location u (se_selection_range s) \<and> s \<in> set (fd_symbols d) \<and> se_kind s \<in> set CLASS_KINDS
         \<and> (selection_start s, name, args) \<in> set (fd_supers d))" for u d l
    by (force simp: derive_supertypes_def split: if_split_asm)
  then show ?thesis unfolding subtypes_of_eq [OF assms] by blast
qed

theorem subtypes_of_correct_witness:
  "set (subtypes_of (indexer_new False) (lit ''Base'')) = {}"
  unfolding subtypes_of_correct [OF index_inv_new] by simp

section \<open>Deleted files\<close>

text \<open>A deleted file is not gone: \<open>remove_indexed_file\<close> takes it out of the file map only. Its
  declarations are still found by name, and when a file of the same content is created again,
  \<open>index_content\<close> takes it for unchanged and does not index it.\<close>

theorem deleted_file_not_reindexed:
  assumes "index_inv X ix" and "Mapping.lookup (ix_files ix) u = Some d"
    and "Mapping.lookup (ix_content_hashes ix) u = Some (hash_str c)"
    and "u \<notin> ix_library_uris ix" and "s \<in> set (fd_symbols d)"
  shows "index_content X u c (remove_indexed_file u ix) = Some (remove_indexed_file u ix, None)
    \<and> Mapping.lookup (ix_files (remove_indexed_file u ix)) u = None
    \<and> Location u (se_selection_range s) \<in> workspace_locations (remove_indexed_file u ix) (se_name s)"
proof -
  have "workspace_locations (remove_indexed_file u ix) n = workspace_locations ix n" for n
    by (simp add: workspace_locations_def remove_indexed_file_def)
  then show ?thesis
    using assms(2-5) by (auto simp: index_content_def remove_indexed_file_def workspace_locations_eq [OF assms(1)])
qed

theorem deleted_file_not_reindexed_witness:
  "\<exists>ix. Mapping.lookup (ix_files ix) (lit ''a.kt'') = None
     \<and> index_content example_externals (lit ''a.kt'') (lit ''A'') ix = Some (ix, None)
     \<and> workspace_locations ix (lit ''A'') \<noteq> {}"
proof -
  from index_content_props [of example_externals "indexer_new False" "lit ''a.kt''" "lit ''A''"] index_inv_new
  obtain ix d where ix: "index_inv example_externals ix"
    "d = with_classified_source_set (indexer_new False) (lit ''a.kt'')
       (fr_data (parse_file example_externals (lit ''a.kt'') (lit ''A'')))"
    "ix_files ix = Mapping.update (lit ''a.kt'') d (ix_files (indexer_new False))"
    "ix_content_hashes ix = Mapping.update (lit ''a.kt'') (hash_str (lit ''A'')) (ix_content_hashes (indexer_new False))"
    "ix_library_uris ix = ix_library_uris (indexer_new False)" by fastforce
  let ?s = "(example_class ''A'' 0 0)\<lparr>se_name := lit ''A''\<rparr>"
  have "?s \<in> set (fd_symbols d)"
    unfolding ix(2) classified_fields by (simp add: parse_file_def parse_by_extension_def example_externals_def Let_def)
  from deleted_file_not_reindexed [OF ix(1) _ _ _ this, of "lit ''a.kt''" "lit ''A''"] ix(3-5)
  show ?thesis
    by (intro exI [of _ "remove_indexed_file (lit ''a.kt'') ix"]) (auto simp: indexer_new_def)
qed

section \<open>Library rescans\<close>

lemma merge_locations_mono:
  assumes "merge_locations push_new c (t, m) = Some (t', m')" and "l \<in> set (postings m n)"
  shows "l \<in> set (postings m' n)"
proof -
  have "l \<in> set (postings (snd (t', m')) n)"
    using assms(1) unfolding merge_locations_def
  proof (rule fold_opt_invariant [where I = "\<lambda>tm. l \<in> set (postings (snd tm) n)"])
    show "l \<in> set (postings (snd (t, m)) n)" using assms(2) by simp
    fix x s s' assume "l \<in> set (postings (snd s) n)"
      and "(case x of (name, locs) \<Rightarrow> \<lambda>(t, m). Option.bind (intern_locations locs t) (\<lambda>(t', interned).
        Some (t', entry_modify name (\<lambda>old. push_new old interned) m))) s = Some s'"
    then show "l \<in> set (postings (snd s') n)"
      by (auto simp: bind_eq_Some_conv postings_entry_modify split: prod.splits if_split_asm)
  qed
  then show ?thesis by simp
qed

lemma apply_contributions_mono:
  assumes "apply_contributions X c ix = Some ix'" and "l \<in> set (postings (ix_definitions ix) n)"
  shows "l \<in> set (postings (ix_definitions ix') n)"
  using assms
  by (auto simp: apply_contributions_def commit_contributions_def Let_def bind_eq_Some_conv
      dest: merge_locations_mono)

lemma declared_posting:
  assumes "index_inv X ix" and "Mapping.lookup (ix_files ix) u = Some d" and "s \<in> set (fd_symbols d)"
  shows "\<lparr>sl_file = id_of (ix_file_table ix) u, sl_range = se_selection_range s\<rparr>
    \<in> set (postings (ix_definitions ix) (se_name s))"
proof -
  have "exact_postings (ix_definitions ix) (ix_files ix) (def_of (ix_file_table ix))"
    using assms(1) by (simp add: index_inv_def maps_match_def)
  moreover have "\<lparr>sl_file = id_of (ix_file_table ix) u, sl_range = se_selection_range s\<rparr>
      \<in> def_of (ix_file_table ix) u d (se_name s)"
    using assms(3) by (auto simp: def_of_def)
  ultimately show ?thesis using assms(2) unfolding exact_postings_def by blast
qed

text \<open>Scanning the source paths again keeps what the files no longer declare:
  \<open>apply_source_path_scan\<close> adds each file's contributions without removing its previous ones, so
  no location of any name ever leaves the definition map, not even that of a symbol renamed in the
  library file being scanned.\<close>

theorem source_path_scan_keeps_stale:
  assumes "apply_source_path_scan X scan ix = Some ix'" and "l \<in> set (postings (ix_definitions ix) n)"
  shows "l \<in> set (postings (ix_definitions ix') n)"
proof -
  let ?rs = "strip_library_private_symbols (sc_results scan) (set (sc_new_library_uris scan))"
  obtain ix1 where ix1: "fold_opt (\<lambda>fr. apply_contributions X (file_contributions_of X fr)) ?rs ix = Some ix1"
    "ix' = rebuild_bare_name_cache (ix1\<lparr>ix_library_uris := ix_library_uris ix1 \<union> set (sc_new_library_uris scan)\<rparr>)"
    using assms(1) by (auto simp: apply_source_path_scan_def bind_eq_Some_conv)
  have "l \<in> set (postings (ix_definitions ix1) n)"
    by (rule fold_opt_invariant [OF ix1(1), where I = "\<lambda>i. l \<in> set (postings (ix_definitions i) n)"])
       (use assms(2) apply_contributions_mono in auto)
  moreover have "ix_definitions (rebuild_bare_name_cache i) = ix_definitions i" for i
    by (simp add: rebuild_bare_name_cache_def rebuild_importable_fqns_def Let_def)
  ultimately show ?thesis using ix1(2) by simp
qed

text \<open>The class \<open>A\<close> of a library file is renamed to \<open>B\<close>; both are found after the scan.\<close>

theorem source_path_scan_keeps_stale_witness:
  "\<exists>ix ix' l. index_inv example_externals ix
     \<and> apply_source_path_scan example_externals
          \<lparr>sc_results = [parse_file example_externals (lit ''a.kt'') (lit ''B'')],
           sc_new_library_uris = [lit ''a.kt''], sc_cache_hits = 0\<rparr> ix = Some ix'
     \<and> l \<in> set (postings (ix_definitions ix') (lit ''A''))"
proof -
  let ?u = "lit ''a.kt''"
  from index_content_props [of example_externals "indexer_new False" ?u "lit ''A''"] index_inv_new
  obtain ix d where ix: "index_inv example_externals ix"
    "d = with_classified_source_set (indexer_new False) ?u
       (fr_data (parse_file example_externals ?u (lit ''A'')))"
    "ix_files ix = Mapping.update ?u d (ix_files (indexer_new False))" by fastforce
  let ?s = "(example_class ''A'' 0 0)\<lparr>se_name := lit ''A''\<rparr>"
  have s: "?s \<in> set (fd_symbols d)"
    unfolding ix(2) classified_fields by (simp add: parse_file_def parse_by_extension_def example_externals_def Let_def)
  have d: "Mapping.lookup (ix_files ix) ?u = Some d" using ix(3) by simp
  let ?l = "\<lparr>sl_file = id_of (ix_file_table ix) ?u, sl_range = se_selection_range ?s\<rparr>"
  have l: "?l \<in> set (postings (ix_definitions ix) (lit ''A''))"
    using declared_posting [OF ix(1) d s] by simp
  have "can_intern (ix_file_table ix) ?u"
    using ix(1) d by (auto simp: can_intern_def index_inv_def files_registered_def)
  then obtain t' i where i: "ft_intern (ix_file_table ix) ?u = Some (t', i)" using can_intern_Some by blast
  let ?r = "parse_file example_externals ?u (lit ''B'')"
  let ?scan = "\<lparr>sc_results = [?r], sc_new_library_uris = [?u], sc_cache_hits = 0\<rparr>"
  let ?d = "(fr_data ?r)\<lparr>fd_symbols := filter visible_outside (fd_symbols (fr_data ?r))\<rparr>"
  have sup: "derive_supertypes ?u ?d = []" "derive_supertypes ?u (fr_data ?r) = []"
    by (auto simp: derive_supertypes_def parse_file_def parse_by_extension_def example_externals_def
        default_file_data_def Let_def concat_eq_Nil_conv)
  obtain ix' where ix': "apply_source_path_scan example_externals ?scan ix = Some ix'"
    using commit_contributions_eq [OF example_parse i, of push_new push_new replace_by_uri ?d "fr_content_hash ?r"]
    unfolding sup by (auto simp: apply_source_path_scan_def strip_library_private_symbols_def Let_def
        file_contributions_of_def apply_contributions_def sup [simplified])
  from source_path_scan_keeps_stale [OF ix' l] ix(1) ix' show ?thesis by blast
qed

section \<open>Completion names\<close>

lemma set_entries_of:
  "finite (Mapping.keys m) \<Longrightarrow> (k, v) \<in> set (entries_of m) \<longleftrightarrow> Mapping.lookup m k = Some v"
  by (auto simp: entries_of_def set_sorted_keys keys_lookup)

lemma distinct_remdups_adj_sorted: "sorted xs \<Longrightarrow> distinct (remdups_adj xs)"
  by (induction xs rule: remdups_adj.induct) auto

lemma remdups_adj_sort:
  "set (remdups_adj (sort xs)) = set xs" "sorted (remdups_adj (sort xs))" "distinct (remdups_adj (sort xs))"
  by (simp_all add: distinct_remdups_adj_sorted)

lemma postings_of_alist_map:
  "postings (Mapping.of_alist (map (\<lambda>(k, vs). (k, f vs)) m)) k =
     (if k \<in> fst ` set m then f (al_get m k) else [])"
proof -
  have "map_of (map (\<lambda>(k, vs). (k, f vs)) m) k = map_option f (map_of m k)"
    by (induction m) auto
  then show ?thesis
    by (auto simp: postings_def lookup_of_alist al_get_def map_of_eq_None_iff split: option.splits)
       (metis map_of_eq_None_iff option.distinct(1))
qed

text \<open>The importable names of a simple name: its top-level declarations in files with a package,
  and the qualified names of the JAR manifests that end in it.\<close>

definition importable_names :: "indexer \<Rightarrow> str \<Rightarrow> str set" where
  "importable_names ix name =
     {pkg @ lit ''.'' @ name |pkg u d s. Mapping.lookup (ix_files ix) u = Some d
        \<and> fd_package d = Some pkg \<and> pkg \<noteq> [] \<and> s \<in> set (fd_symbols d)
        \<and> se_container s = None \<and> se_name s = name}
     \<union> {fqn. Mapping.lookup (ix_jar_qualified ix) fqn \<noteq> None
        \<and> (\<exists>p. fqn = p @ lit ''.'' @ name \<and> ch CHR ''.'' \<notin> set name)}"

lemma rfind_dot_split:
  "(\<exists>dot. rfind_char (\<lambda>c. c = ch CHR ''.'') fqn = Some dot \<and> drop (Suc dot) fqn = name)
     \<longleftrightarrow> (\<exists>p. fqn = p @ lit ''.'' @ name \<and> ch CHR ''.'' \<notin> set name)"
proof
  assume "\<exists>dot. rfind_char (\<lambda>c. c = ch CHR ''.'') fqn = Some dot \<and> drop (Suc dot) fqn = name"
  then obtain dot where dot: "rfind_char (\<lambda>c. c = ch CHR ''.'') fqn = Some dot" "drop (Suc dot) fqn = name" by blast
  note r = rfind_char_Some [OF dot(1)]
  have "fqn = take dot fqn @ fqn ! dot # drop (Suc dot) fqn" using r id_take_nth_drop by blast
  moreover have "ch CHR ''.'' \<notin> set name"
    using r dot(2) by (auto simp: in_set_conv_nth)
  ultimately show "\<exists>p. fqn = p @ lit ''.'' @ name \<and> ch CHR ''.'' \<notin> set name"
    using r dot(2) by (intro exI [of _ "take dot fqn"]) auto
next
  assume "\<exists>p. fqn = p @ lit ''.'' @ name \<and> ch CHR ''.'' \<notin> set name"
  then obtain p where p: "fqn = p @ 46 # name" "46 \<notin> set name" by auto
  have "find_char (\<lambda>c. c = 46) (rev name @ 46 # rev p) = Some (length name)"
    using p(2) by (induction name rule: rev_induct) auto
  then have "rfind_char (\<lambda>c. c = 46) fqn = Some (length p)" by (simp add: rfind_char_def p(1))
  then show "\<exists>dot. rfind_char (\<lambda>c. c = ch CHR ''.'') fqn = Some dot \<and> drop (Suc dot) fqn = name"
    by (simp add: p(1))
qed

lemma file_importables:
  "(name, fqn) \<in> set (case fd_package d of
       None \<Rightarrow> []
     | Some pkg \<Rightarrow>
         if pkg = [] then []
         else map (\<lambda>s. (se_name s, pkg @ lit ''.'' @ se_name s))
                (filter (\<lambda>s. se_container s = None) (fd_symbols d)))
   \<longleftrightarrow> (\<exists>pkg s. fqn = pkg @ lit ''.'' @ name \<and> fd_package d = Some pkg \<and> pkg \<noteq> []
        \<and> s \<in> set (fd_symbols d) \<and> se_container s = None \<and> se_name s = name)"
  by (cases "fd_package d") auto

lemma set_concat_entries:
  assumes "finite (Mapping.keys m)"
  shows "y \<in> set (concat (map (\<lambda>(_, d). f d) (entries_of m)))
    \<longleftrightarrow> (\<exists>u d. Mapping.lookup m u = Some d \<and> y \<in> set (f d))"
  using set_entries_of [OF assms] by fastforce

lemma importable_pairs_names:
  assumes "finite (Mapping.keys (ix_files ix))" and "finite (Mapping.keys (ix_jar_qualified ix))"
  shows "(name, fqn) \<in> set (importable_pairs ix) \<longleftrightarrow> fqn \<in> importable_names ix name"
proof -
  have "(name, fqn) \<in> set (List.map_filter (\<lambda>fqn. map_option (\<lambda>dot. (drop (Suc dot) fqn, fqn))
         (rfind_char (\<lambda>c. c = ch CHR ''.'') fqn)) (sorted_keys (ix_jar_qualified ix)))
      \<longleftrightarrow> Mapping.lookup (ix_jar_qualified ix) fqn \<noteq> None
        \<and> (\<exists>p. fqn = p @ lit ''.'' @ name \<and> ch CHR ''.'' \<notin> set name)"
    unfolding rfind_dot_split [symmetric] set_map_filter set_sorted_keys [OF assms(2)]
    by (auto simp: keys_lookup)
  moreover have "(name, fqn) \<in> set (concat (map (\<lambda>(_, d).
       case fd_package d of
         None \<Rightarrow> []
       | Some pkg \<Rightarrow>
           if pkg = [] then []
           else map (\<lambda>s. (se_name s, pkg @ lit ''.'' @ se_name s))
                  (filter (\<lambda>s. se_container s = None) (fd_symbols d)))
       (entries_of (ix_files ix))))
      \<longleftrightarrow> (\<exists>pkg u d s. fqn = pkg @ lit ''.'' @ name \<and> Mapping.lookup (ix_files ix) u = Some d
        \<and> fd_package d = Some pkg \<and> pkg \<noteq> [] \<and> s \<in> set (fd_symbols d)
        \<and> se_container s = None \<and> se_name s = name)"
    unfolding set_concat_entries [OF assms(1)] file_importables by blast
  ultimately show ?thesis
    unfolding importable_pairs_def importable_names_def set_append by blast
qed

text \<open>C35 A rebuild of the dirty completion names gives the sorted, duplicate-free list of all
  names of the definition map, the JAR definitions and the JAR manifests, offers for import of a
  simple name exactly its importable qualified names, and drops the last completion.\<close>

theorem rebuild_bare_name_cache_correct:
  assumes "ix_bare_names_dirty ix"
    and "finite (Mapping.keys (ix_definitions ix))" and "finite (Mapping.keys (ix_jar_definitions ix))"
    and "finite (Mapping.keys (ix_jar_bare_names ix))" and "finite (Mapping.keys (ix_files ix))"
    and "finite (Mapping.keys (ix_jar_qualified ix))"
  shows "sorted (ix_bare_name_cache (rebuild_bare_name_cache ix))
    \<and> distinct (ix_bare_name_cache (rebuild_bare_name_cache ix))
    \<and> set (ix_bare_name_cache (rebuild_bare_name_cache ix)) = Mapping.keys (ix_definitions ix)
        \<union> Mapping.keys (ix_jar_definitions ix) \<union> Mapping.keys (ix_jar_bare_names ix)
    \<and> set (postings (ix_importable_fqns (rebuild_bare_name_cache ix)) name) = importable_names ix name
    \<and> sorted (postings (ix_importable_fqns (rebuild_bare_name_cache ix)) name)
    \<and> \<not> ix_bare_names_dirty (rebuild_bare_name_cache ix)
    \<and> ix_last_completion (rebuild_bare_name_cache ix) = None"
proof -
  have pairs: "importable_pairs (ix\<lparr>ix_bare_names_dirty := b, ix_bare_name_cache := ns\<rparr>) = importable_pairs ix" for b ns
    by (simp add: importable_pairs_def)
  have "set (postings (ix_importable_fqns (rebuild_importable_fqns ix)) name) = importable_names ix name"
    "sorted (postings (ix_importable_fqns (rebuild_importable_fqns ix)) name)"
    using importable_pairs_names [OF assms(5,6), of name]
    by (force simp: rebuild_importable_fqns_def postings_of_alist_map remdups_adj_sort al_get_group_by_key
        keys_group_by_key image_iff)+
  moreover have "ix_importable_fqns (rebuild_bare_name_cache ix) = ix_importable_fqns (rebuild_importable_fqns ix)"
    using assms(1) by (simp add: rebuild_bare_name_cache_def rebuild_importable_fqns_def Let_def pairs)
  moreover have "ix_bare_name_cache (rebuild_bare_name_cache ix) = remdups_adj (sort (sorted_keys (ix_definitions ix)
      @ filter (\<lambda>k. Mapping.lookup (ix_definitions ix) k = None) (sorted_keys (ix_jar_definitions ix))
      @ filter (\<lambda>k. Mapping.lookup (ix_definitions ix) k = None
          \<and> Mapping.lookup (ix_jar_definitions ix) k = None) (sorted_keys (ix_jar_bare_names ix))))"
    "\<not> ix_bare_names_dirty (rebuild_bare_name_cache ix)" "ix_last_completion (rebuild_bare_name_cache ix) = None"
    using assms(1) by (simp_all add: rebuild_bare_name_cache_def rebuild_importable_fqns_def Let_def)
  ultimately show ?thesis
    using assms by (auto simp: remdups_adj_sort set_sorted_keys keys_lookup)
qed

theorem rebuild_bare_name_cache_correct_witness:
  "set (ix_bare_name_cache (rebuild_bare_name_cache ((indexer_new False)
     \<lparr>ix_jar_definitions := Mapping.update (lit ''Flow'') [] Mapping.empty\<rparr>))) = {lit ''Flow''}"
  by (subst rebuild_bare_name_cache_correct [THEN conjunct2, THEN conjunct2, THEN conjunct1])
     (simp_all add: indexer_new_def)

end
