(* ===== verification/Scan_Queue.thy ===== *)
theory Scan_Queue
  imports Rust_Path
begin

text \<open>
  The coalescing queue of workspace scans: \<^verbatim>\<open>src/workspace/scan_queue.rs\<close>. It holds at
  most one running and one waiting request; a new request replaces the waiting one.

  The locale \<open>op_queue\<close> is the contract the scan handler relies on; what a burst of requests and
  completions amounts to is proved there once, and interpreted on the program's queue. A
  \<open>oneshot\<close> sender is the number of its channel.
\<close>

section \<open>The queue\<close>

datatype scan_kind = Prioritized "path list" | FullScan

record scan_args =
  sa_root :: path
  sa_kind :: scan_kind
  sa_completion_tx :: "nat option"
  sa_expected_generation :: "64 word"
  sa_reset_before_scan :: bool

record scan_queue =
  sq_pending :: "scan_args option"
  sq_in_progress :: bool

definition sq_new :: scan_queue where
  "sq_new = \<lparr>sq_pending = None, sq_in_progress = False\<rparr>"

definition is_in_progress :: "scan_queue \<Rightarrow> bool" where
  "is_in_progress q = sq_in_progress q"

definition sq_request :: "scan_args \<Rightarrow> scan_queue \<Rightarrow> scan_queue" where
  "sq_request args q = q\<lparr>sq_pending := Some args\<rparr>"

definition sq_try_start :: "scan_queue \<Rightarrow> scan_args option \<times> scan_queue" where
  "sq_try_start q =
     (if sq_in_progress q then (None, q)
      else (case sq_pending q of
              None \<Rightarrow> (None, q)
            | Some args \<Rightarrow> (Some args, q\<lparr>sq_pending := None, sq_in_progress := True\<rparr>)))"

definition sq_completed :: "scan_queue \<Rightarrow> scan_queue" where
  "sq_completed q = q\<lparr>sq_in_progress := False\<rparr>"

section \<open>The contract of an operation queue\<close>

locale op_queue =
  fixes busy :: "'q \<Rightarrow> bool"
    and waiting :: "'q \<Rightarrow> 'a option"
    and request :: "'a \<Rightarrow> 'q \<Rightarrow> 'q"
    and try_start :: "'q \<Rightarrow> 'a option \<times> 'q"
    and completed :: "'q \<Rightarrow> 'q"
  assumes busy_request: "busy (request a q) = busy q"
    and waiting_request: "waiting (request a q) = Some a"
    and start_busy: "busy q \<Longrightarrow> try_start q = (None, q)"
    and start_idle: "\<not> busy q \<Longrightarrow> fst (try_start q) = waiting q"
    and busy_start: "\<not> busy q \<Longrightarrow> busy (snd (try_start q)) \<longleftrightarrow> waiting q \<noteq> None"
    and waiting_start: "\<not> busy q \<Longrightarrow> waiting (snd (try_start q)) = None"
    and busy_completed: "\<not> busy (completed q)"
    and waiting_completed: "waiting (completed q) = waiting q"
begin

definition submit :: "'a \<Rightarrow> 'q \<Rightarrow> 'a option \<times> 'q" where
  "submit a q = try_start (request a q)"

definition finish :: "'q \<Rightarrow> 'a option \<times> 'q" where
  "finish q = try_start (completed q)"

definition settled :: "'q \<Rightarrow> bool" where
  "settled q \<longleftrightarrow> (waiting q \<noteq> None \<longrightarrow> busy q)"

lemma submit_busy: "busy q \<Longrightarrow> fst (submit a q) = None \<and> busy (snd (submit a q)) \<and> waiting (snd (submit a q)) = Some a"
  by (simp add: submit_def start_busy busy_request waiting_request)

lemma submit_idle: "\<not> busy q \<Longrightarrow> fst (submit a q) = Some a \<and> busy (snd (submit a q)) \<and> waiting (snd (submit a q)) = None"
  by (simp add: submit_def start_idle busy_start waiting_start busy_request waiting_request)

lemma finish_result:
  "fst (finish q) = waiting q" "busy (snd (finish q)) \<longleftrightarrow> waiting q \<noteq> None" "waiting (snd (finish q)) = None"
  by (simp_all add: finish_def start_idle busy_start waiting_start busy_completed waiting_completed)

lemma settled_submit: "settled (snd (submit a q))"
  by (cases "busy q") (simp_all add: settled_def submit_busy submit_idle)

lemma settled_finish: "settled (snd (finish q))"
  by (simp add: settled_def finish_result)

lemma submit_starts_iff_idle: "fst (submit a q) \<noteq> None \<longleftrightarrow> \<not> busy q"
  using submit_busy submit_idle by (cases "busy q") auto

text \<open>Requests that arrive while the queue is busy: none starts, the last one waits.\<close>

lemma burst:
  assumes "busy q"
  shows "busy (fold (\<lambda>a q. snd (submit a q)) as q)
    \<and> waiting (fold (\<lambda>a q. snd (submit a q)) as q) = (if as = [] then waiting q else Some (last as))"
  using assms
proof (induction as arbitrary: q)
  case Nil
  then show ?case by simp
next
  case (Cons a as)
  have "busy (snd (submit a q))" and "waiting (snd (submit a q)) = Some a"
    using submit_busy [OF Cons.prems] by auto
  then show ?case using Cons.IH [of "snd (submit a q)"] by simp
qed

lemma burst_then_finish:
  assumes "busy q" and "as \<noteq> []"
  shows "fst (finish (fold (\<lambda>a q. snd (submit a q)) as q)) = Some (last as)"
    and "\<not> busy (snd (finish (snd (finish (fold (\<lambda>a q. snd (submit a q)) as q)))))"
  using burst [OF assms(1), of as] assms(2) by (simp_all add: finish_result)

end

interpretation scans: op_queue is_in_progress sq_pending sq_request sq_try_start sq_completed
  by unfold_locales
    (auto simp: is_in_progress_def sq_request_def sq_try_start_def sq_completed_def split: option.splits)

text \<open>A burst of scan requests coalesces: while a scan runs, no request of the burst starts, and
  when the running scan completes exactly the last request of the burst starts, leaving nothing
  waiting; when that one completes the queue is idle.\<close>

theorem burst_runs_last_request:
  assumes "sq_in_progress q" and "as \<noteq> []"
  shows "(\<forall>i<length as. fst (sq_try_start (sq_request (as ! i)
            (fold (\<lambda>a q. snd (sq_try_start (sq_request a q))) (take i as) q))) = None)
    \<and> (\<exists>q'. sq_try_start (sq_completed (fold (\<lambda>a q. snd (sq_try_start (sq_request a q))) as q))
          = (Some (last as), q')
        \<and> sq_in_progress q' \<and> sq_pending q' = None
        \<and> sq_try_start (sq_completed q') = (None, sq_new))"
proof -
  let ?run = "\<lambda>as. fold (\<lambda>a q. snd (sq_try_start (sq_request a q))) as q"
  have run: "sq_in_progress (?run as') \<and> sq_pending (?run as') = (if as' = [] then sq_pending q else Some (last as'))"
    for as' using scans.burst [of q as'] assms(1) by (simp add: is_in_progress_def scans.submit_def)
  have "fst (sq_try_start (sq_request (as ! i) (?run (take i as)))) = None" for i
    using run [of "take i as"] by (simp add: sq_try_start_def sq_request_def)
  moreover have "sq_pending (?run as) = Some (last as)" using run [of as] assms(2) by simp
  then have "sq_try_start (sq_completed (?run as))
      = (Some (last as), \<lparr>sq_pending = None, sq_in_progress = True\<rparr>)"
    by (simp add: sq_try_start_def sq_completed_def)
  ultimately show ?thesis
    by (auto simp: sq_try_start_def sq_completed_def sq_new_def)
qed

definition example_args :: "path \<Rightarrow> scan_args" where
  "example_args root = \<lparr>sa_root = root, sa_kind = FullScan, sa_completion_tx = None,
     sa_expected_generation = 0, sa_reset_before_scan = True\<rparr>"

theorem burst_runs_last_request_witness:
  "\<exists>q'. sq_try_start (sq_completed (fold (\<lambda>a q. snd (sq_try_start (sq_request a q)))
        [example_args [RootDir], example_args [CurDir]] \<lparr>sq_pending = None, sq_in_progress = True\<rparr>))
      = (Some (example_args [CurDir]), q')"
  using burst_runs_last_request [of "\<lparr>sq_pending = None, sq_in_progress = True\<rparr>"
      "[example_args [RootDir], example_args [CurDir]]"]
  by auto

end
