(* ===== verification/Workspace_Config.thy ===== *)
theory Workspace_Config
  imports Index_State
begin

text \<open>
  The workspace's configuration, lifecycle phase and events: \<^verbatim>\<open>src/workspace/mod.rs\<close>,
  \<^verbatim>\<open>phase.rs\<close> and \<^verbatim>\<open>event.rs\<close>.

  What the program reads of the disk (\<^verbatim>\<open>src/workspace_json.rs\<close> on \<^verbatim>\<open>workspace.json\<close>
  and the build files, the home directory, the file system) is the record \<open>disk\<close>.
\<close>

record disk =
  dk_source_paths :: "path \<Rightarrow> path list"
  dk_build_layout_source_paths :: "path \<Rightarrow> path list"
  dk_configured_source_paths :: "path \<Rightarrow> path list option"
  dk_android_sdk_source_paths :: "path \<Rightarrow> path list"
  dk_module_dependencies :: "path \<Rightarrow> (path, gradle_meta set) hmap"
  dk_configured_jar_paths :: "path \<Rightarrow> path list"
  dk_resolve_jar_path_specs :: "str list \<Rightarrow> path \<Rightarrow> path list"
  dk_android_sdk_jar_path :: "path \<Rightarrow> path list"
  dk_android_r_class_jars :: "path \<Rightarrow> path list"
  dk_gradle_jars :: "path list"
  dk_home_dir :: "path option"
  dk_is_dir :: "path \<Rightarrow> bool"
  dk_exists :: "path \<Rightarrow> bool"
  dk_canonicalize :: "path \<Rightarrow> path option"
  dk_read_to_string :: "path \<Rightarrow> str option"

section \<open>Configuration\<close>

record config =
  cf_root :: path
  cf_explicit_source_paths :: "str list"
  cf_ignore_patterns :: "str list"
  cf_jar_paths :: "str list"
  cf_pin_workspace :: bool

text \<open>The closure \<open>push\<close> of \<open>resolve_sources\<close>, over the set of paths seen and the paths
  in order.\<close>

definition push_unseen :: "str \<Rightarrow> str set \<times> str list \<Rightarrow> str set \<times> str list" where
  "push_unseen s st =
     (if s \<in> fst st then st else (insert s (fst st), snd st @ [s]))"

definition resolve_sources :: "disk \<Rightarrow> config \<Rightarrow> str list" where
  "resolve_sources D c =
     (let root = cf_root c;
          push_paths = (\<lambda>ps. fold (\<lambda>p. push_unseen (path_to_str p)) ps);
          st1 = fold push_unseen (cf_explicit_source_paths c) ({}, []);
          json_paths = dk_source_paths D root;
          st2 = push_paths json_paths st1;
          st3 = (if json_paths = [] then push_paths (dk_build_layout_source_paths D root) st2 else st2);
          st4 = (case dk_configured_source_paths D root of
                   Some configured_paths \<Rightarrow> push_paths configured_paths st3
                 | None \<Rightarrow>
                     (case dk_home_dir D of
                        None \<Rightarrow> st3
                      | Some home \<Rightarrow>
                          (let default_sources =
                                 path_join (path_join home [Normal (lit ''.kmp-lsp'')]) [Normal (lit ''sources'')]
                           in if dk_is_dir D default_sources
                              then push_unseen (path_to_str default_sources) st3 else st3)));
          st5 = push_paths (dk_android_sdk_source_paths D root) st4
      in snd st5)"

section \<open>Lifecycle\<close>

record ready_state =
  rs_root :: path
  rs_source_paths :: "str list"

definition from_config :: "disk \<Rightarrow> config \<Rightarrow> ready_state" where
  "from_config D c = \<lparr>rs_root = cf_root c, rs_source_paths = resolve_sources D c\<rparr>"

datatype ws_state = Uninitialized | Ready ready_state

definition ready :: "ws_state \<Rightarrow> ready_state option" where
  "ready s = (case s of Ready d \<Rightarrow> Some d | Uninitialized \<Rightarrow> None)"

definition set_state :: "ready_state \<Rightarrow> ws_state \<Rightarrow> ws_state" where
  "set_state d s = Ready d"

text \<open>A content change carries the whole text: the server asks for full synchronisation.\<close>

datatype event =
    Initialize config "nat option"
  | Reindex
  | ChangeRoot path
  | FileOpened url str str
  | FileChanged url "str list"
  | FileSaved url
  | FileClosed url
  | FileDeleted url

section \<open>Source paths\<close>

text \<open>The first occurrence of every element, in order.\<close>

definition first_occurrences :: "'a list \<Rightarrow> 'a list" where
  "first_occurrences xs = rev (remdups (rev xs))"

lemma first_occurrences_snoc:
  "first_occurrences (xs @ [x]) = (if x \<in> set xs then first_occurrences xs else first_occurrences xs @ [x])"
  by (simp add: first_occurrences_def)

lemma set_first_occurrences [simp]: "set (first_occurrences xs) = set xs"
  by (simp add: first_occurrences_def)

lemma distinct_first_occurrences [simp]: "distinct (first_occurrences xs)"
  by (simp add: first_occurrences_def)

lemma fold_push_unseen:
  "fold push_unseen ys (set xs, first_occurrences xs) = (set (xs @ ys), first_occurrences (xs @ ys))"
proof (induction ys arbitrary: xs)
  case Nil
  then show ?case by simp
next
  case (Cons y ys)
  have "push_unseen y (set xs, first_occurrences xs) = (set (xs @ [y]), first_occurrences (xs @ [y]))"
    by (auto simp: push_unseen_def first_occurrences_snoc)
  then show ?case using Cons.IH [of "xs @ [y]"] by simp
qed

lemma fold_push_unseen_paths:
  "fold (\<lambda>p. push_unseen (path_to_str p)) ps (set xs, first_occurrences xs)
     = (set (xs @ map path_to_str ps), first_occurrences (xs @ map path_to_str ps))"
  using fold_push_unseen [of "map path_to_str ps" xs] by (simp add: fold_map comp_def)

text \<open>The sources in the documented order of priority, with duplicates.\<close>

definition source_path_priority :: "disk \<Rightarrow> config \<Rightarrow> str list" where
  "source_path_priority D c =
     (let root = cf_root c; default_sources = (\<lambda>home. home @ [Normal (lit ''.kmp-lsp''), Normal (lit ''sources'')])
      in cf_explicit_source_paths c
         @ map path_to_str (dk_source_paths D root)
         @ (if dk_source_paths D root = [] then map path_to_str (dk_build_layout_source_paths D root) else [])
         @ (case dk_configured_source_paths D root of
              Some ps \<Rightarrow> map path_to_str ps
            | None \<Rightarrow> (case dk_home_dir D of
                 Some home \<Rightarrow> if dk_is_dir D (default_sources home) then [path_to_str (default_sources home)] else []
               | None \<Rightarrow> []))
         @ map path_to_str (dk_android_sdk_source_paths D root))"

text \<open>\<open>resolve_sources\<close> returns the first occurrences, in order, of: the explicit paths,
  those of \<^verbatim>\<open>workspace.json\<close>, the build layout's when that gave none, the configured
  library paths or (only when there is no such key) the existing default directory, and the
  Android SDK's. A home directory, when there is one, is not the empty path.\<close>

theorem resolve_sources_priority:
  assumes "\<And>home. dk_home_dir D = Some home \<Longrightarrow> home \<noteq> []"
  shows "resolve_sources D c = first_occurrences (source_path_priority D c)"
proof -
  have join: "dk_home_dir D = Some home \<Longrightarrow>
      path_join (path_join home [Normal a]) [Normal b] = home @ [Normal a, Normal b]" for home a b
    using assms by (simp add: path_join_def path_is_absolute_def)
  have one: "push_unseen y (set xs, first_occurrences xs) = (set (xs @ [y]), first_occurrences (xs @ [y]))" for y xs
    using fold_push_unseen [of "[y]" xs] by simp
  have zero: "({}, []) = (set ([] :: str list), first_occurrences ([] :: str list))"
    by (simp add: first_occurrences_def)
  show ?thesis
    unfolding resolve_sources_def Let_def zero source_path_priority_def
    apply (cases "dk_configured_source_paths D (cf_root c)"; cases "dk_home_dir D";
        cases "dk_source_paths D (cf_root c)")
         apply (simp_all only: fold_push_unseen fold_push_unseen_paths join one option.case if_True if_False
        append_assoc append_Nil append_Nil2 snd_conv refl list.distinct list.map simp_thms if_distrib
        split: if_split)
     apply blast+
    done
qed

definition empty_disk :: disk where
  "empty_disk = \<lparr>dk_source_paths = \<lambda>_. [], dk_build_layout_source_paths = \<lambda>_. [],
     dk_configured_source_paths = \<lambda>_. None, dk_android_sdk_source_paths = \<lambda>_. [],
     dk_module_dependencies = \<lambda>_. Mapping.empty, dk_configured_jar_paths = \<lambda>_. [],
     dk_resolve_jar_path_specs = \<lambda>_ _. [], dk_android_sdk_jar_path = \<lambda>_. [],
     dk_android_r_class_jars = \<lambda>_. [], dk_gradle_jars = [], dk_home_dir = None,
     dk_is_dir = \<lambda>_. False, dk_exists = \<lambda>_. False, dk_canonicalize = Some, dk_read_to_string = \<lambda>_. None\<rparr>"

definition example_config :: "path \<Rightarrow> config" where
  "example_config root = \<lparr>cf_root = root, cf_explicit_source_paths = [lit ''lib'', lit ''gen'', lit ''lib''],
     cf_ignore_patterns = [], cf_jar_paths = [], cf_pin_workspace = False\<rparr>"

theorem resolve_sources_priority_witness:
  "resolve_sources (empty_disk\<lparr>dk_home_dir := Some [RootDir, Normal (lit ''h'')], dk_is_dir := \<lambda>_. True\<rparr>)
     (example_config [RootDir])
   = [lit ''lib'', lit ''gen'', lit ''/h/.kmp-lsp/sources'']"
proof -
  let ?D = "empty_disk\<lparr>dk_home_dir := Some [RootDir, Normal (lit ''h'')], dk_is_dir := \<lambda>_. True\<rparr>"
  have "resolve_sources ?D (example_config [RootDir])
      = first_occurrences (source_path_priority ?D (example_config [RootDir]))"
    by (rule resolve_sources_priority) (auto simp: empty_disk_def)
  then show ?thesis
    by (simp add: source_path_priority_def empty_disk_def example_config_def first_occurrences_def
        path_to_str_def lit_def)
qed

end
