(* ===== verification/Scan_Handler.thy ===== *)
theory Scan_Handler
  imports Scan_Queue Workspace_Config
begin

text \<open>
  The handler of everything that starts a scan: \<^verbatim>\<open>src/workspace/scan_handler.rs\<close>, with the
  gate of the JAR pipeline (\<^verbatim>\<open>src/indexer/jar.rs\<close>).

  The handler's state has the shared index, the queue, the two channels to the actor (as the number of
  messages in them), and the tasks it has spawned. A task is where its next check of the workspace
  generation finds it, so that every other operation may run between two of its steps. What a scan
  and the JAR indexers compute are the functions of \<open>scan_env\<close>.
\<close>

section \<open>State\<close>

record compiled_jars_outcome =
  co_paths :: "path list"
  co_gradle_count :: nat
  co_compiled_total :: nat
  co_sidecar_alive :: bool
  co_workspace_uses_gradle_cache :: bool

datatype scan_task = ScanSpawned scan_args | ScanRunning scan_args

datatype jar_task =
    JarSpawned "64 word" "str list"
  | JarGating "64 word" "str list"
  | JarGated "64 word" "str list" bool
  | JarCompiled "64 word" compiled_jars_outcome
  | JarSourced "64 word" compiled_jars_outcome nat

record scan_handler =
  sh_indexer :: indexer
  sh_state :: ws_state
  sh_queue :: scan_queue
  sh_scan_done :: nat
  sh_jar_done :: nat
  sh_jar_indexing_in_progress :: bool
  sh_configured_jar_paths :: "str list"
  sh_scan_tasks :: "scan_task list"
  sh_jar_tasks :: "jar_task list"
  sh_completions :: "nat list"

record scan_env =
  se_index_workspace :: "scan_kind \<Rightarrow> path \<Rightarrow> indexer \<Rightarrow> indexer"
  se_build_jar_manifest :: "path list \<Rightarrow> indexer \<Rightarrow> indexer \<times> nat"
  se_index_sources_jars :: "indexer \<Rightarrow> indexer \<times> nat"

definition sh_new :: "indexer \<Rightarrow> scan_handler" where
  "sh_new ix = \<lparr>sh_indexer = ix, sh_state = Uninitialized, sh_queue = sq_new, sh_scan_done = 0,
     sh_jar_done = 0, sh_jar_indexing_in_progress = False, sh_configured_jar_paths = [],
     sh_scan_tasks = [], sh_jar_tasks = [], sh_completions = []\<rparr>"

definition generation :: "scan_handler \<Rightarrow> 64 word" where
  "generation h = ws_generation (ix_workspace_root (sh_indexer h))"

definition current_root :: "scan_handler \<Rightarrow> path option" where
  "current_root h = ws_path (ix_workspace_root (sh_indexer h))"

definition is_scanning :: "scan_handler \<Rightarrow> bool" where
  "is_scanning h = is_in_progress (sh_queue h)"

definition map_indexer :: "(indexer \<Rightarrow> indexer) \<Rightarrow> scan_handler \<Rightarrow> scan_handler" where
  "map_indexer f h = h\<lparr>sh_indexer := f (sh_indexer h)\<rparr>"

section \<open>Scans\<close>

definition execute_scan :: "scan_args \<Rightarrow> scan_handler \<Rightarrow> scan_handler" where
  "execute_scan args h = h\<lparr>sh_scan_tasks := sh_scan_tasks h @ [ScanSpawned args]\<rparr>"

definition on_scan_completed :: "scan_handler \<Rightarrow> scan_handler" where
  "on_scan_completed h =
     (let (maybe_next, queue) = sq_try_start (sq_completed (sh_queue h));
          h1 = h\<lparr>sh_queue := queue\<rparr>
      in case maybe_next of Some args \<Rightarrow> execute_scan args h1 | None \<Rightarrow> h1)"

definition enqueue_scan :: "scan_args \<Rightarrow> scan_handler \<Rightarrow> scan_handler" where
  "enqueue_scan args h =
     (let h1 = (if is_in_progress (sh_queue h)
                then map_indexer (\<lambda>ix. ix\<lparr>ix_workspace_root := bump_generation (ix_workspace_root ix)\<rparr>) h
                else h);
          args' = args\<lparr>sa_expected_generation := generation h1\<rparr>;
          (maybe_args, queue) = sq_try_start (sq_request args' (sh_queue h1));
          h2 = h1\<lparr>sh_queue := queue\<rparr>
      in case maybe_args of Some a \<Rightarrow> execute_scan a h2 | None \<Rightarrow> h2)"

text \<open>The two halves of the task of \<open>execute_scan\<close>: up to the index run, and after it.\<close>

definition scan_task_start :: "scan_args \<Rightarrow> scan_handler \<Rightarrow> scan_handler \<times> scan_task option" where
  "scan_task_start args h =
     (if generation h \<noteq> sa_expected_generation args
      then (h\<lparr>sh_scan_done := sh_scan_done h + 1\<rparr>, None)
      else (if sa_reset_before_scan args then map_indexer reset_index_state h else h,
            Some (ScanRunning args)))"

definition scan_task_finish :: "scan_env \<Rightarrow> scan_args \<Rightarrow> scan_handler \<Rightarrow> scan_handler" where
  "scan_task_finish E args h =
     (let h1 = map_indexer (se_index_workspace E (sa_kind args) (sa_root args)) h;
          h2 = h1\<lparr>sh_scan_done := sh_scan_done h1 + 1\<rparr>
      in if generation h2 = sa_expected_generation args
         then (case sa_completion_tx args of
                 Some tx \<Rightarrow> h2\<lparr>sh_completions := sh_completions h2 @ [tx]\<rparr>
               | None \<Rightarrow> h2)
         else h2)"

section \<open>Configuration\<close>

text \<open>\<open>apply_config\<close> with \<open>set_root\<close>, \<open>apply_ignore_patterns\<close> and the
  \<open>write_*\<close> functions.\<close>

definition apply_ignore_patterns :: "str list \<Rightarrow> path \<Rightarrow> indexer \<Rightarrow> indexer" where
  "apply_ignore_patterns patterns root ix =
     ix\<lparr>ix_ignore_matcher := (if patterns \<noteq> [] then Some (patterns, root) else None)\<rparr>"

definition write_workspace_source_roots :: "disk \<Rightarrow> path \<Rightarrow> indexer \<Rightarrow> indexer" where
  "write_workspace_source_roots D root ix =
     ix\<lparr>ix_workspace_source_roots := map path_to_str (dk_source_paths D root)\<rparr>"

definition write_module_dependencies :: "disk \<Rightarrow> path \<Rightarrow> indexer \<Rightarrow> indexer" where
  "write_module_dependencies D root ix = ix\<lparr>ix_module_dependencies := dk_module_dependencies D root\<rparr>"

definition apply_config :: "disk \<Rightarrow> config \<Rightarrow> scan_handler \<Rightarrow> scan_handler \<times> ready_state" where
  "apply_config D c h =
     (let data = from_config D c;
          h1 = h\<lparr>sh_configured_jar_paths := cf_jar_paths c\<rparr>;
          h2 = map_indexer (\<lambda>ix. ix\<lparr>ix_workspace_root := ws_set (rs_root data) (ix_workspace_root ix)\<rparr>) h1;
          h3 = map_indexer (apply_ignore_patterns (cf_ignore_patterns c) (rs_root data)) h2;
          h4 = map_indexer (\<lambda>ix. ix\<lparr>ix_workspace_pinned := cf_pin_workspace c\<rparr>) h3;
          h5 = map_indexer (\<lambda>ix. ix\<lparr>ix_source_paths_raw := rs_source_paths data\<rparr>) h4;
          h6 = map_indexer (write_workspace_source_roots D (rs_root data)) h5;
          h7 = map_indexer (write_module_dependencies D (rs_root data)) h6
      in (h7\<lparr>sh_state := set_state data (sh_state h7)\<rparr>, data))"

section \<open>JAR indexing\<close>

text \<open>\<open>spawn_jar_indexing\<close>; the argument says whether the sidecar's lock is held.\<close>

definition spawn_jar_indexing :: "bool \<Rightarrow> scan_handler \<Rightarrow> scan_handler" where
  "spawn_jar_indexing sidecar_locked h =
     (if sidecar_locked then h
      else if \<not> ix_jar_sidecar_alive (sh_indexer h) then h
      else if sh_jar_indexing_in_progress h then h
      else (let h1 = h\<lparr>sh_jar_indexing_in_progress := True\<rparr>;
                h2 = map_indexer (\<lambda>ix. ix\<lparr>ix_jar_phase := JarInProgress\<rparr>) h1
            in h2\<lparr>sh_jar_tasks := sh_jar_tasks h2 @ [JarSpawned (generation h2) (sh_configured_jar_paths h2)]\<rparr>))"

definition abandon_stale_jar_scan :: "scan_handler \<Rightarrow> scan_handler" where
  "abandon_stale_jar_scan h =
     (let h1 = h\<lparr>sh_jar_indexing_in_progress := False\<rparr>;
          h2 = map_indexer (\<lambda>ix.
                 if ix_jar_phase ix = JarInProgress \<or> ix_jar_phase ix = JarPending
                 then ix\<lparr>ix_jar_phase := JarReady (card (Mapping.keys (ix_jar_definitions ix)))\<rparr> else ix) h1
      in h2\<lparr>sh_jar_done := sh_jar_done h2 + 1\<rparr>)"

definition push_absent :: "path list \<Rightarrow> path list \<Rightarrow> path list" where
  "push_absent new = fold (\<lambda>jar paths. if jar \<in> set paths then paths else paths @ [jar]) new"

definition compiled_jar_paths_with_android_sdk :: "disk \<Rightarrow> path option \<Rightarrow> bool \<Rightarrow> path list \<Rightarrow> path list" where
  "compiled_jar_paths_with_android_sdk D workspace_root uses_gradle_cache gradle_paths =
     (if uses_gradle_cache then
        (case workspace_root of
           None \<Rightarrow> gradle_paths
         | Some root \<Rightarrow> push_absent (dk_android_r_class_jars D root)
                          (push_absent (dk_android_sdk_jar_path D root) gradle_paths))
      else gradle_paths)"

definition workspace_has_jvm_sources :: "indexer \<Rightarrow> bool" where
  "workspace_has_jvm_sources ix \<longleftrightarrow>
     list_ex (\<lambda>(uri, d). fd_source_set d \<noteq> Library
        \<and> (ends_with uri (lit ''.kt'') \<or> ends_with uri (lit ''.kts'') \<or> ends_with uri (lit ''.java'')))
       (entries_of (ix_files ix))"

datatype gate = GateStale | GateVerdict bool | GateWait

text \<open>One turn of the loop of \<open>wait_for_jvm_sources_gate\<close>.\<close>

definition gate_poll :: "bool \<Rightarrow> bool \<Rightarrow> bool \<Rightarrow> gate" where
  "gate_poll generation_ok has_jvm_sources scanning =
     (if \<not> generation_ok then GateStale
      else if has_jvm_sources then GateVerdict True
      else if \<not> scanning then GateVerdict has_jvm_sources
      else GateWait)"

definition clear_jar_maps :: "indexer \<Rightarrow> indexer" where
  "clear_jar_maps ix =
     ix\<lparr>ix_jar_files := Mapping.empty, ix_jar_definitions := Mapping.empty,
        ix_jar_uri_to_defs := Mapping.empty, ix_jar_symbol_packages := Mapping.empty\<rparr>"

text \<open>\<open>index_compiled_jars_phase\<close> after the gate's verdict.\<close>

definition compiled_jar_paths :: "disk \<Rightarrow> str list \<Rightarrow> bool \<Rightarrow> scan_handler \<Rightarrow> path list" where
  "compiled_jar_paths D specs uses_gradle_cache h =
     (let gradle_paths = (if uses_gradle_cache then dk_gradle_jars D else []);
          paths = compiled_jar_paths_with_android_sdk D (current_root h) uses_gradle_cache gradle_paths
      in case current_root h of
           None \<Rightarrow> paths
         | Some root \<Rightarrow>
             push_absent (dk_configured_jar_paths D root @ dk_resolve_jar_path_specs D specs root) paths)"

definition index_compiled_jars :: "disk \<Rightarrow> scan_env \<Rightarrow> str list \<Rightarrow> bool \<Rightarrow> scan_handler
   \<Rightarrow> scan_handler \<times> compiled_jars_outcome" where
  "index_compiled_jars D E specs uses_gradle_cache h =
     (let paths = compiled_jar_paths D specs uses_gradle_cache h;
          (ix, total) = se_build_jar_manifest E paths (clear_jar_maps (sh_indexer h))
      in (h\<lparr>sh_indexer := ix\<rparr>,
          \<lparr>co_paths = paths,
           co_gradle_count = length (if uses_gradle_cache then dk_gradle_jars D else []),
           co_compiled_total = total, co_sidecar_alive = ix_jar_sidecar_alive ix,
           co_workspace_uses_gradle_cache = uses_gradle_cache\<rparr>))"

definition final_jar_phase :: "compiled_jars_outcome \<Rightarrow> nat \<Rightarrow> jar_phase" where
  "final_jar_phase compiled sources_total =
     (let total = sources_total + co_compiled_total compiled
      in if \<not> co_sidecar_alive compiled \<and> co_compiled_total compiled > 0
         then JarFailed (lit ''sidecar died mid-index; '' @ decimal total
                @ lit '' symbols partially loaded ('' @ decimal sources_total @ lit '' from sources, ''
                @ decimal (co_compiled_total compiled) @ lit '' from compiled)'')
         else JarReady total)"

definition set_jar_phase :: "jar_phase \<Rightarrow> scan_handler \<Rightarrow> scan_handler" where
  "set_jar_phase p = map_indexer (\<lambda>ix. ix\<lparr>ix_jar_phase := p\<rparr>)"

definition jar_task_ended :: "scan_handler \<Rightarrow> scan_handler" where
  "jar_task_ended h = h\<lparr>sh_jar_indexing_in_progress := False, sh_jar_done := sh_jar_done h + 1\<rparr>"

text \<open>The task of \<open>spawn_jar_indexing\<close>, from one check of the generation to the next.\<close>

fun jar_task_step :: "disk \<Rightarrow> scan_env \<Rightarrow> jar_task \<Rightarrow> scan_handler \<Rightarrow> scan_handler \<times> jar_task option" where
  "jar_task_step D E (JarSpawned gen specs) h =
     (if generation h \<noteq> gen then (abandon_stale_jar_scan h, None)
      else (h, Some (JarGating gen specs)))"
| "jar_task_step D E (JarGating gen specs) h =
     (case gate_poll (generation h = gen) (workspace_has_jvm_sources (sh_indexer h)) (is_scanning h) of
        GateStale \<Rightarrow> (abandon_stale_jar_scan h, None)
      | GateVerdict uses_gradle_cache \<Rightarrow> (h, Some (JarGated gen specs uses_gradle_cache))
      | GateWait \<Rightarrow> (h, Some (JarGating gen specs)))"
| "jar_task_step D E (JarGated gen specs uses_gradle_cache) h =
     (if generation h \<noteq> gen then (abandon_stale_jar_scan h, None)
      else (let (h1, outcome) = index_compiled_jars D E specs uses_gradle_cache h
            in (h1, Some (JarCompiled gen outcome))))"
| "jar_task_step D E (JarCompiled gen outcome) h =
     (if generation h \<noteq> gen then (abandon_stale_jar_scan h, None)
      else if co_workspace_uses_gradle_cache outcome
      then (let (ix, sources_total) = se_index_sources_jars E (sh_indexer h)
            in (h\<lparr>sh_indexer := ix\<rparr>, Some (JarSourced gen outcome sources_total)))
      else (h, Some (JarSourced gen outcome 0)))"
| "jar_task_step D E (JarSourced gen outcome sources_total) h =
     (if co_paths outcome = [] \<and> sources_total = 0
      then (jar_task_ended (set_jar_phase (JarReady 0) h), None)
      else if generation h \<noteq> gen then (abandon_stale_jar_scan h, None)
      else (jar_task_ended (map_indexer invalidate_completion_cache
              (set_jar_phase (final_jar_phase outcome sources_total) h)), None))"

section \<open>Handlers\<close>

definition handle_initialize :: "disk \<Rightarrow> bool \<Rightarrow> config \<Rightarrow> nat option \<Rightarrow> scan_handler \<Rightarrow> scan_handler" where
  "handle_initialize D locked c completion_tx h =
     (let (h1, data) = apply_config D c h
      in spawn_jar_indexing locked
           (enqueue_scan \<lparr>sa_root = rs_root data, sa_kind = Prioritized [],
              sa_completion_tx = completion_tx, sa_expected_generation = 0,
              sa_reset_before_scan = False\<rparr> h1))"

definition handle_reindex :: "bool \<Rightarrow> scan_handler \<Rightarrow> scan_handler" where
  "handle_reindex locked h =
     (case current_root h of
        None \<Rightarrow> h
      | Some root \<Rightarrow>
          (let h1 = map_indexer (\<lambda>ix. ix\<lparr>ix_materialized := {}, ix_materialization_failed := {},
                      ix_jar_qualified := Mapping.empty, ix_jar_bare_names := Mapping.empty,
                      ix_jar_extension_receivers := Mapping.empty\<rparr>) h
           in spawn_jar_indexing locked
                (enqueue_scan \<lparr>sa_root = root, sa_kind = FullScan, sa_completion_tx = None,
                   sa_expected_generation = 0, sa_reset_before_scan = True\<rparr> h1)))"

definition root_switch_config :: "path \<Rightarrow> config" where
  "root_switch_config root = \<lparr>cf_root = root, cf_explicit_source_paths = [], cf_ignore_patterns = [],
     cf_jar_paths = [], cf_pin_workspace = True\<rparr>"

definition handle_change_root :: "disk \<Rightarrow> bool \<Rightarrow> path \<Rightarrow> scan_handler \<Rightarrow> scan_handler" where
  "handle_change_root D locked root h =
     (let h1 = map_indexer clear_jar_index h;
          (h2, data) = apply_config D (root_switch_config root) h1
      in spawn_jar_indexing locked
           (enqueue_scan \<lparr>sa_root = rs_root data, sa_kind = FullScan, sa_completion_tx = None,
              sa_expected_generation = 0, sa_reset_before_scan = True\<rparr> h2))"

definition switch_workspace_root_for_opened_document ::
  "disk \<Rightarrow> bool \<Rightarrow> path \<Rightarrow> path option \<Rightarrow> scan_handler \<Rightarrow> scan_handler" where
  "switch_workspace_root_for_opened_document D locked workspace_root opened_file_path h =
     (let (h1, data) = apply_config D (root_switch_config workspace_root) h
      in spawn_jar_indexing locked
           (enqueue_scan \<lparr>sa_root = rs_root data,
              sa_kind = Prioritized (case opened_file_path of None \<Rightarrow> [] | Some p \<Rightarrow> [p]),
              sa_completion_tx = None, sa_expected_generation = 0, sa_reset_before_scan = True\<rparr> h1))"

end
