(* ===== verification/Scan_Props.thy ===== *)
theory Scan_Props
  imports Scan_Handler
begin

text \<open>
  The scan handler as a step relation: what the actor makes it do, one event or message at a time, and
  the steps of the tasks it spawned, in any interleaving. The invariants that keep scans and JAR
  indexing from running twice or getting stuck, and that all requested work ends.
\<close>

section \<open>Steps\<close>

definition task_list :: "'a option \<Rightarrow> 'a list" where
  "task_list t = (case t of None \<Rightarrow> [] | Some x \<Rightarrow> [x])"

text \<open>What needs no further request: a task moves, or the actor takes a completion message.\<close>

inductive scan_internal :: "scan_env \<Rightarrow> scan_handler \<Rightarrow> scan_handler \<Rightarrow> bool" for E where
  TaskStart: "sh_scan_tasks h = us @ ScanSpawned a # vs \<Longrightarrow> scan_task_start a h = (h', t)
    \<Longrightarrow> scan_internal E h (h'\<lparr>sh_scan_tasks := us @ task_list t @ vs\<rparr>)"
| TaskFinish: "sh_scan_tasks h = us @ ScanRunning a # vs
    \<Longrightarrow> scan_internal E h ((scan_task_finish E a h)\<lparr>sh_scan_tasks := us @ vs\<rparr>)"
| ScanDone: "sh_scan_done h = Suc n
    \<Longrightarrow> scan_internal E h (on_scan_completed (h\<lparr>sh_scan_done := n\<rparr>))"

text \<open>What happens without a request to the scan handler. Other code changes the index, but neither the
  workspace root nor the JAR phase.\<close>

inductive background_step :: "disk \<Rightarrow> scan_env \<Rightarrow> scan_handler \<Rightarrow> scan_handler \<Rightarrow> bool" for D E where
  Internal: "scan_internal E h h' \<Longrightarrow> background_step D E h h'"
| JarStep: "sh_jar_tasks h = us @ j # vs \<Longrightarrow> jar_task_step D E j h = (h', t)
    \<Longrightarrow> background_step D E h (h'\<lparr>sh_jar_tasks := us @ task_list t @ vs\<rparr>)"
| JarDone: "sh_jar_done h = Suc n \<Longrightarrow> background_step D E h (h\<lparr>sh_jar_done := n\<rparr>)"
| IndexStep: "ix_workspace_root ix = ix_workspace_root (sh_indexer h)
    \<Longrightarrow> ix_jar_phase ix = ix_jar_phase (sh_indexer h)
    \<Longrightarrow> background_step D E h (h\<lparr>sh_indexer := ix\<rparr>)"

text \<open>Whoever holds the sidecar's lock (the JAR task, or a look-up that materializes a JAR on demand), a
  handler may find it held.\<close>

inductive scan_step :: "disk \<Rightarrow> scan_env \<Rightarrow> scan_handler \<Rightarrow> scan_handler \<Rightarrow> bool" for D E where
  Background: "background_step D E h h' \<Longrightarrow> scan_step D E h h'"
| InitializeStep: "scan_step D E h (handle_initialize D locked c tx h)"
| ReindexStep: "scan_step D E h (handle_reindex locked h)"
| ChangeRootStep: "scan_step D E h (handle_change_root D locked root h)"
| SwitchRootStep: "scan_step D E h (switch_workspace_root_for_opened_document D locked root opened h)"

definition env_ok :: "scan_env \<Rightarrow> bool" where
  "env_ok E \<longleftrightarrow>
     (\<forall>k r ix. let ix' = se_index_workspace E k r ix
        in ix_workspace_root ix' = ix_workspace_root ix \<and> ix_jar_phase ix' = ix_jar_phase ix
         \<and> ix_jar_sidecar_alive ix' = ix_jar_sidecar_alive ix)
   \<and> (\<forall>ps ix. ix_workspace_root (fst (se_build_jar_manifest E ps ix)) = ix_workspace_root ix)
   \<and> (\<forall>ix. ix_workspace_root (fst (se_index_sources_jars E ix)) = ix_workspace_root ix)"

section \<open>Scans run one at a time\<close>

definition scan_inv :: "scan_handler \<Rightarrow> bool" where
  "scan_inv h \<longleftrightarrow>
     length (sh_scan_tasks h) + sh_scan_done h = (if sq_in_progress (sh_queue h) then 1 else 0)
   \<and> (\<forall>a. sq_pending (sh_queue h) = Some a \<longrightarrow>
        sq_in_progress (sh_queue h) \<and> sa_expected_generation a = generation h)"

definition jar_inv :: "scan_handler \<Rightarrow> bool" where
  "jar_inv h \<longleftrightarrow>
     length (sh_jar_tasks h) = (if sh_jar_indexing_in_progress h then 1 else 0)
   \<and> (ix_jar_phase (sh_indexer h) = JarInProgress \<longrightarrow> sh_jar_indexing_in_progress h)"

lemmas handler_defs = map_indexer_def generation_def current_root_def execute_scan_def enqueue_scan_def
  on_scan_completed_def sq_try_start_def sq_request_def sq_completed_def is_in_progress_def

lemma spawn_jar_indexing_keeps [simp]:
  "sh_queue (spawn_jar_indexing l h) = sh_queue h"
  "sh_scan_tasks (spawn_jar_indexing l h) = sh_scan_tasks h"
  "sh_scan_done (spawn_jar_indexing l h) = sh_scan_done h"
  "sh_state (spawn_jar_indexing l h) = sh_state h"
  "sh_completions (spawn_jar_indexing l h) = sh_completions h"
  "generation (spawn_jar_indexing l h) = generation h"
  "ix_workspace_root (sh_indexer (spawn_jar_indexing l h)) = ix_workspace_root (sh_indexer h)"
  by (simp_all add: spawn_jar_indexing_def handler_defs Let_def)

lemma scan_inv_spawn [simp]: "scan_inv (spawn_jar_indexing l h) = scan_inv h"
  by (simp add: scan_inv_def)

lemma apply_config_keeps [simp]:
  "sh_queue (fst (apply_config D c h)) = sh_queue h"
  "sh_scan_tasks (fst (apply_config D c h)) = sh_scan_tasks h"
  "sh_scan_done (fst (apply_config D c h)) = sh_scan_done h"
  "sh_jar_tasks (fst (apply_config D c h)) = sh_jar_tasks h"
  "sh_jar_indexing_in_progress (fst (apply_config D c h)) = sh_jar_indexing_in_progress h"
  "ix_jar_phase (sh_indexer (fst (apply_config D c h))) = ix_jar_phase (sh_indexer h)"
  "ix_jar_sidecar_alive (sh_indexer (fst (apply_config D c h))) = ix_jar_sidecar_alive (sh_indexer h)"
  by (simp_all add: apply_config_def Let_def map_indexer_def apply_ignore_patterns_def
      write_workspace_source_roots_def write_module_dependencies_def)

lemma apply_config_sets:
  "sh_state (fst (apply_config D c h)) = Ready (snd (apply_config D c h))"
  "snd (apply_config D c h) = from_config D c"
  "ws_path (ix_workspace_root (sh_indexer (fst (apply_config D c h)))) = Some (cf_root c)"
  "generation (fst (apply_config D c h)) = generation h + 1"
  by (simp_all add: apply_config_def Let_def map_indexer_def apply_ignore_patterns_def generation_def
      write_workspace_source_roots_def write_module_dependencies_def set_state_def from_config_def ws_set_def)

text \<open>Whatever the generation was, \<open>enqueue_scan\<close> leaves the queue settled: it needs only the
  counting half of the invariant.\<close>

definition scan_count :: "scan_handler \<Rightarrow> bool" where
  "scan_count h \<longleftrightarrow>
     length (sh_scan_tasks h) + sh_scan_done h = (if sq_in_progress (sh_queue h) then 1 else 0)
   \<and> (sq_pending (sh_queue h) \<noteq> None \<longrightarrow> sq_in_progress (sh_queue h))"

lemma scan_count_of_inv: "scan_inv h \<Longrightarrow> scan_count h"
  by (auto simp: scan_inv_def scan_count_def)

lemma enqueue_scan_inv: "scan_count h \<Longrightarrow> scan_inv (enqueue_scan a h)"
  by (auto simp: scan_inv_def scan_count_def handler_defs Let_def bump_generation_def split: option.splits)

lemma enqueue_scan_keeps [simp]:
  "sh_jar_tasks (enqueue_scan a h) = sh_jar_tasks h"
  "sh_jar_indexing_in_progress (enqueue_scan a h) = sh_jar_indexing_in_progress h"
  "sh_state (enqueue_scan a h) = sh_state h"
  "ix_jar_phase (sh_indexer (enqueue_scan a h)) = ix_jar_phase (sh_indexer h)"
  "ix_jar_sidecar_alive (sh_indexer (enqueue_scan a h)) = ix_jar_sidecar_alive (sh_indexer h)"
  "ws_path (ix_workspace_root (sh_indexer (enqueue_scan a h))) = ws_path (ix_workspace_root (sh_indexer h))"
  by (simp_all add: handler_defs Let_def bump_generation_def split: option.splits)

lemma scan_count_map_indexer [simp]: "scan_count (map_indexer f h) = scan_count h"
  by (simp add: scan_count_def map_indexer_def)

lemma scan_count_apply_config [simp]: "scan_count (fst (apply_config D c h)) = scan_count h"
  by (simp add: scan_count_def)

lemma handlers_scan_inv:
  assumes "scan_inv h"
  shows "scan_inv (handle_initialize D l c tx h)"
    and "scan_inv (handle_reindex l h)"
    and "scan_inv (handle_change_root D l root h)"
    and "scan_inv (switch_workspace_root_for_opened_document D l root opened h)"
  using scan_count_of_inv [OF assms] assms
  by (simp_all add: handle_initialize_def handle_reindex_def handle_change_root_def Let_def
      switch_workspace_root_for_opened_document_def case_prod_beta enqueue_scan_inv split: option.split)

lemma scan_task_start_cases:
  assumes "scan_task_start a h = (h', t)"
  shows "sh_queue h' = sh_queue h" "generation h' = generation h" "sh_completions h' = sh_completions h"
    "length (task_list t) + sh_scan_done h' = Suc (sh_scan_done h)"
    "generation h = sa_expected_generation a \<Longrightarrow> t = Some (ScanRunning a)"
    "sh_jar_tasks h' = sh_jar_tasks h" "sh_jar_indexing_in_progress h' = sh_jar_indexing_in_progress h"
    "sh_state h' = sh_state h" "ix_jar_phase (sh_indexer h') = ix_jar_phase (sh_indexer h)"
    "ix_jar_sidecar_alive (sh_indexer h') = ix_jar_sidecar_alive (sh_indexer h)"
  using assms by (auto simp: scan_task_start_def task_list_def map_indexer_def generation_def
      reset_index_state_def Let_def split: if_splits)

lemma scan_task_finish_keeps:
  assumes "env_ok E"
  shows "sh_queue (scan_task_finish E a h) = sh_queue h" "generation (scan_task_finish E a h) = generation h"
    "sh_scan_done (scan_task_finish E a h) = Suc (sh_scan_done h)"
    "sh_jar_tasks (scan_task_finish E a h) = sh_jar_tasks h"
    "sh_jar_indexing_in_progress (scan_task_finish E a h) = sh_jar_indexing_in_progress h"
    "sh_state (scan_task_finish E a h) = sh_state h"
    "ix_jar_phase (sh_indexer (scan_task_finish E a h)) = ix_jar_phase (sh_indexer h)"
    "ix_jar_sidecar_alive (sh_indexer (scan_task_finish E a h)) = ix_jar_sidecar_alive (sh_indexer h)"
    "set (sh_completions h) \<subseteq> set (sh_completions (scan_task_finish E a h))"
    "generation h = sa_expected_generation a \<Longrightarrow> sa_completion_tx a = Some tx
       \<Longrightarrow> tx \<in> set (sh_completions (scan_task_finish E a h))"
  using assms by (auto simp: scan_task_finish_def env_ok_def map_indexer_def generation_def Let_def
      split: option.splits)

lemma on_scan_completed_keeps:
  "generation (on_scan_completed h) = generation h" "sh_scan_done (on_scan_completed h) = sh_scan_done h"
  "sh_completions (on_scan_completed h) = sh_completions h"
  "sh_jar_tasks (on_scan_completed h) = sh_jar_tasks h"
  "sh_jar_indexing_in_progress (on_scan_completed h) = sh_jar_indexing_in_progress h"
  "sh_state (on_scan_completed h) = sh_state h" "sh_indexer (on_scan_completed h) = sh_indexer h"
  "sh_scan_tasks (on_scan_completed h) = sh_scan_tasks h
     @ (case sq_pending (sh_queue h) of None \<Rightarrow> [] | Some a \<Rightarrow> [ScanSpawned a])"
  "sq_pending (sh_queue (on_scan_completed h)) = None"
  "sq_in_progress (sh_queue (on_scan_completed h)) \<longleftrightarrow> sq_pending (sh_queue h) \<noteq> None"
  by (simp_all add: handler_defs split: option.split)


lemma generation_update [simp]:
  "generation (h\<lparr>sh_scan_tasks := ts\<rparr>) = generation h" "generation (h\<lparr>sh_scan_done := n\<rparr>) = generation h"
  "generation (h\<lparr>sh_jar_tasks := js\<rparr>) = generation h" "generation (h\<lparr>sh_jar_done := n\<rparr>) = generation h"
  by (simp_all add: generation_def)

lemma scan_internal_inv:
  assumes "scan_internal E h h'" and "env_ok E" and "scan_inv h"
  shows "scan_inv h'"
  using assms
proof cases
  case (TaskStart us a vs h1 t)
  then show ?thesis using assms(3) scan_task_start_cases [OF TaskStart(3)]
    by (auto simp: scan_inv_def split: if_split_asm)
next
  case (TaskFinish us a vs)
  then show ?thesis using assms(3) scan_task_finish_keeps [OF assms(2), where a = a and h = h]
    by (auto simp: scan_inv_def split: if_split_asm)
next
  case (ScanDone n)
  then show ?thesis using assms(3)
    by (auto simp: scan_inv_def on_scan_completed_keeps split: if_split_asm option.split)
qed

lemma scan_internal_jar_inv:
  assumes "scan_internal E h h'" and "env_ok E"
  shows "jar_inv h' = jar_inv h"
  using assms
proof cases
  case (TaskStart us a vs h1 t)
  then show ?thesis using scan_task_start_cases [OF TaskStart(3)] by (simp add: jar_inv_def)
next
  case (TaskFinish us a vs)
  then show ?thesis using scan_task_finish_keeps [OF assms(2), where a = a and h = h] by (simp add: jar_inv_def)
next
  case (ScanDone n)
  then show ?thesis by (simp add: jar_inv_def on_scan_completed_keeps)
qed

section \<open>JAR indexing runs once\<close>

lemma spawn_jar_inv: "jar_inv h \<Longrightarrow> jar_inv (spawn_jar_indexing l h)"
  by (auto simp: jar_inv_def spawn_jar_indexing_def Let_def map_indexer_def)

lemma jar_inv_enqueue [simp]: "jar_inv (enqueue_scan a h) = jar_inv h"
  by (simp add: jar_inv_def)

lemma jar_inv_apply_config [simp]: "jar_inv (fst (apply_config D c h)) = jar_inv h"
  by (simp add: jar_inv_def)

lemma handlers_jar_inv:
  assumes "jar_inv h"
  shows "jar_inv (handle_initialize D l c tx h)"
    and "jar_inv (handle_reindex l h)"
    and "jar_inv (handle_change_root D l root h)"
    and "jar_inv (switch_workspace_root_for_opened_document D l root opened h)"
proof -
  show "jar_inv (handle_initialize D l c tx h)"
    using assms by (simp add: handle_initialize_def case_prod_beta spawn_jar_inv)
  have "jar_inv (map_indexer (\<lambda>ix. ix\<lparr>ix_materialized := {}, ix_materialization_failed := {},
                      ix_jar_qualified := Mapping.empty, ix_jar_bare_names := Mapping.empty,
                      ix_jar_extension_receivers := Mapping.empty\<rparr>) h)"
    using assms by (simp add: jar_inv_def map_indexer_def)
  then show "jar_inv (handle_reindex l h)"
    using assms by (simp add: handle_reindex_def Let_def spawn_jar_inv split: option.split)
  have "jar_inv (map_indexer clear_jar_index h)"
    using assms by (auto simp: jar_inv_def map_indexer_def clear_jar_index_def)
  then show "jar_inv (handle_change_root D l root h)"
    by (simp add: handle_change_root_def case_prod_beta Let_def spawn_jar_inv)
  show "jar_inv (switch_workspace_root_for_opened_document D l root opened h)"
    using assms by (simp add: switch_workspace_root_for_opened_document_def case_prod_beta spawn_jar_inv)
qed

lemma abandon_not_loading: "\<not> is_loading (ix_jar_phase (sh_indexer (abandon_stale_jar_scan h)))"
  by (simp add: abandon_stale_jar_scan_def map_indexer_def is_loading_def Let_def)

lemma abandon_keeps [simp]:
  "sh_queue (abandon_stale_jar_scan h) = sh_queue h"
  "sh_scan_tasks (abandon_stale_jar_scan h) = sh_scan_tasks h"
  "sh_scan_done (abandon_stale_jar_scan h) = sh_scan_done h"
  "sh_jar_tasks (abandon_stale_jar_scan h) = sh_jar_tasks h"
  "sh_completions (abandon_stale_jar_scan h) = sh_completions h"
  "sh_state (abandon_stale_jar_scan h) = sh_state h"
  "generation (abandon_stale_jar_scan h) = generation h"
  "\<not> sh_jar_indexing_in_progress (abandon_stale_jar_scan h)"
  "sh_jar_done (abandon_stale_jar_scan h) = Suc (sh_jar_done h)"
  by (simp_all add: abandon_stale_jar_scan_def map_indexer_def generation_def Let_def)

lemma final_phase_not_loading: "\<not> is_loading (final_jar_phase c n)"
  by (simp add: final_jar_phase_def is_loading_def Let_def)

text \<open>A JAR task that ends releases the guard, leaves the phase not loading and sends a message.\<close>

definition jar_step_ok :: "scan_handler \<Rightarrow> scan_handler \<times> jar_task option \<Rightarrow> bool" where
  "jar_step_ok h r \<longleftrightarrow>
     sh_queue (fst r) = sh_queue h \<and> sh_scan_tasks (fst r) = sh_scan_tasks h
   \<and> sh_scan_done (fst r) = sh_scan_done h
   \<and> sh_jar_tasks (fst r) = sh_jar_tasks h \<and> sh_state (fst r) = sh_state h \<and> generation (fst r) = generation h
   \<and> (case snd r of
         None \<Rightarrow> \<not> sh_jar_indexing_in_progress (fst r) \<and> \<not> is_loading (ix_jar_phase (sh_indexer (fst r)))
           \<and> sh_jar_done (fst r) = Suc (sh_jar_done h)
       | Some _ \<Rightarrow> sh_jar_indexing_in_progress (fst r) = sh_jar_indexing_in_progress h)"

lemma jar_step_ok_abandon: "jar_step_ok h (abandon_stale_jar_scan h, None)"
  by (simp add: jar_step_ok_def abandon_not_loading)

lemma jar_step_ok_same: "jar_step_ok h (h, Some t)"
  by (simp add: jar_step_ok_def)

lemma jar_step_ok_indexer:
  "ix_workspace_root ix = ix_workspace_root (sh_indexer h) \<Longrightarrow> jar_step_ok h (h\<lparr>sh_indexer := ix\<rparr>, Some t)"
  by (simp add: jar_step_ok_def generation_def)

lemma jar_step_ok_ended:
  "\<not> is_loading p \<Longrightarrow> jar_step_ok h (jar_task_ended (set_jar_phase p h), None)"
  "\<not> is_loading p \<Longrightarrow>
     jar_step_ok h (jar_task_ended (map_indexer invalidate_completion_cache (set_jar_phase p h)), None)"
  by (simp_all add: jar_step_ok_def jar_task_ended_def set_jar_phase_def map_indexer_def generation_def
      invalidate_completion_cache_def)

lemma index_compiled_jars_indexer:
  assumes "env_ok E"
  shows "\<exists>ix. fst (index_compiled_jars D E specs b h) = h\<lparr>sh_indexer := ix\<rparr>
    \<and> ix_workspace_root ix = ix_workspace_root (sh_indexer h)"
proof -
  let ?r = "se_build_jar_manifest E (compiled_jar_paths D specs b h) (clear_jar_maps (sh_indexer h))"
  have "ix_workspace_root (fst ?r) = ix_workspace_root (clear_jar_maps (sh_indexer h))"
    using assms unfolding env_ok_def by blast
  then show ?thesis
    by (intro exI [of _ "fst ?r"]) (simp add: index_compiled_jars_def clear_jar_maps_def Let_def case_prod_beta)
qed

lemma jar_task_step_ok:
  assumes "env_ok E"
  shows "jar_step_ok h (jar_task_step D E j h)"
proof (cases j)
  case (JarSpawned gen specs)
  then show ?thesis by (simp add: jar_step_ok_abandon jar_step_ok_same)
next
  case (JarGating gen specs)
  then show ?thesis by (simp add: jar_step_ok_abandon jar_step_ok_same split: gate.split)
next
  case (JarGated gen specs b)
  obtain ix where "fst (index_compiled_jars D E specs b h) = h\<lparr>sh_indexer := ix\<rparr>"
    and "ix_workspace_root ix = ix_workspace_root (sh_indexer h)"
    using index_compiled_jars_indexer [OF assms] by blast
  then show ?thesis unfolding JarGated
    by (simp add: jar_step_ok_abandon jar_step_ok_indexer case_prod_beta Let_def)
next
  case (JarCompiled gen c)
  have "ix_workspace_root (fst (se_index_sources_jars E (sh_indexer h))) = ix_workspace_root (sh_indexer h)"
    using assms by (simp add: env_ok_def)
  then show ?thesis unfolding JarCompiled
    by (simp add: jar_step_ok_abandon jar_step_ok_indexer jar_step_ok_same case_prod_beta Let_def)
next
  case (JarSourced gen c n)
  have "\<not> is_loading (JarReady 0)" by (simp add: is_loading_def)
  then show ?thesis unfolding JarSourced
    by (simp add: jar_step_ok_abandon jar_step_ok_ended final_phase_not_loading)
qed

lemma background_step_inv:
  assumes "background_step D E h h'" and "env_ok E" and "scan_inv h" and "jar_inv h"
  shows "scan_inv h' \<and> jar_inv h'"
  using assms(1)
proof cases
  case Internal
  then show ?thesis using assms scan_internal_inv scan_internal_jar_inv by blast
next
  case (JarStep us j vs h1 t)
  have j: "jar_step_ok h (h1, t)" using jar_task_step_ok [OF assms(2)] JarStep(3) by metis
  have "sh_jar_indexing_in_progress h" and "us = []" and "vs = []"
    using assms(4) JarStep(2) by (auto simp: jar_inv_def split: if_split_asm)
  then show ?thesis using JarStep(1) j assms(3,4)
    by (cases t) (auto simp: jar_step_ok_def scan_inv_def jar_inv_def task_list_def is_loading_def)
next
  case (IndexStep ix)
  then show ?thesis using assms(3,4) by (auto simp: scan_inv_def jar_inv_def generation_def)
next
  case (JarDone n)
  then show ?thesis using assms(3,4) by (simp add: scan_inv_def jar_inv_def)
qed

lemma scan_step_inv:
  assumes "scan_step D E h h'" and "env_ok E" and "scan_inv h" and "jar_inv h"
  shows "scan_inv h' \<and> jar_inv h'"
  using assms(1) handlers_scan_inv [OF assms(3)] handlers_jar_inv [OF assms(4)]
    background_step_inv [OF _ assms(2-4)]
  by cases auto

definition reachable :: "disk \<Rightarrow> scan_env \<Rightarrow> bool \<Rightarrow> scan_handler \<Rightarrow> bool" where
  "reachable D E sidecar h \<longleftrightarrow> (scan_step D E)\<^sup>*\<^sup>* (sh_new (indexer_new sidecar)) h"

lemma reachable_inv:
  assumes "env_ok E" and "reachable D E sidecar h"
  shows "scan_inv h \<and> jar_inv h"
  using assms(2) unfolding reachable_def
proof (induction rule: rtranclp_induct)
  case base
  show ?case by (simp add: scan_inv_def jar_inv_def sh_new_def sq_new_def indexer_new_def is_loading_def)
next
  case (step h h')
  then show ?case using scan_step_inv assms(1) by blast
qed


text \<open>C1 In every reachable state, however events, scan tasks and JAR tasks interleave: at most one
  scan is running or reporting that it is done, a waiting request has the current generation (so it
  will not be taken for superseded when it starts), at most one JAR task runs and exactly while the
  guard is set, and the JAR phase reads as in progress only while that task runs. (It may read as
  pending without one.) Scans and the JAR indexers leave the workspace root alone, and scans the JAR phase
  and the sidecar, as the program's do.\<close>

theorem scans_never_overlap:
  assumes "env_ok E" and "reachable D E sidecar h"
  shows "length (sh_scan_tasks h) + sh_scan_done h \<le> 1
    \<and> (is_scanning h \<longleftrightarrow> length (sh_scan_tasks h) + sh_scan_done h = 1)
    \<and> (\<forall>a. sq_pending (sh_queue h) = Some a \<longrightarrow> is_scanning h \<and> sa_expected_generation a = generation h)
    \<and> (sh_jar_indexing_in_progress h \<longleftrightarrow> length (sh_jar_tasks h) = 1)
    \<and> length (sh_jar_tasks h) \<le> 1
    \<and> (ix_jar_phase (sh_indexer h) = JarInProgress \<longrightarrow> sh_jar_indexing_in_progress h)"
  using reachable_inv [OF assms]
  by (auto simp: scan_inv_def jar_inv_def is_scanning_def is_in_progress_def split: if_split_asm)

definition idle_env :: scan_env where
  "idle_env = \<lparr>se_index_workspace = \<lambda>_ _ ix. ix, se_build_jar_manifest = \<lambda>_ ix. (ix, 0),
     se_index_sources_jars = \<lambda>ix. (ix, 0)\<rparr>"

lemma idle_env_ok [simp]: "env_ok idle_env"
  by (simp add: env_ok_def idle_env_def)

lemma reachable_handler:
  "reachable D E sidecar (handle_initialize D False c tx (sh_new (indexer_new sidecar)))"
  unfolding reachable_def by (intro r_into_rtranclp scan_step.InitializeStep)

theorem scans_never_overlap_witness:
  "length (sh_scan_tasks (handle_initialize empty_disk False (example_config [RootDir]) None
      (sh_new (indexer_new True)))) \<le> 1"
  using scans_never_overlap [OF idle_env_ok reachable_handler
      [where D = empty_disk and sidecar = True and c = "example_config [RootDir]" and tx = None]]
  by simp

section \<open>All requested work ends\<close>

text \<open>The work left: three steps for a scan that has not started, and one to start a waiting one.\<close>

definition task_work :: "scan_task \<Rightarrow> nat" where
  "task_work t = (case t of ScanSpawned _ \<Rightarrow> 3 | ScanRunning _ \<Rightarrow> 2)"

definition scan_work :: "scan_handler \<Rightarrow> nat" where
  "scan_work h = (if sq_pending (sh_queue h) = None then 0 else 3)
     + sum_list (map task_work (sh_scan_tasks h)) + sh_scan_done h"

lemma scan_work_decreases:
  assumes "scan_internal E h h'" and "env_ok E"
  shows "scan_work h' < scan_work h"
  using assms(1)
proof cases
  case (TaskStart us a vs h1 t)
  then show ?thesis using scan_task_start_cases(1,4) [OF TaskStart(3)] TaskStart(3)
    by (auto simp: scan_work_def task_work_def task_list_def scan_task_start_def split: if_split_asm option.splits)
next
  case (TaskFinish us a vs)
  then show ?thesis using scan_task_finish_keeps [OF assms(2), where a = a and h = h]
    by (simp add: scan_work_def task_work_def)
next
  case (ScanDone n)
  then show ?thesis by (simp add: scan_work_def on_scan_completed_keeps task_work_def split: option.split)
qed

lemma scan_internal_progress:
  assumes "scan_inv h" and "sq_in_progress (sh_queue h)"
  shows "\<exists>h'. scan_internal E h h'"
proof (cases "sh_scan_done h")
  case 0
  then obtain t where t: "sh_scan_tasks h = [] @ t # []"
    using assms by (cases "sh_scan_tasks h") (auto simp: scan_inv_def)
  show ?thesis
  proof (cases t)
    case (ScanSpawned a)
    obtain h1 r where "scan_task_start a h = (h1, r)" by fastforce
    then show ?thesis using scan_internal.TaskStart [of h "[]" a "[]" h1 r E] t ScanSpawned by blast
  next
    case (ScanRunning a)
    then show ?thesis using scan_internal.TaskFinish [of h "[]" a "[]" E] t by blast
  qed
next
  case (Suc n)
  then show ?thesis using scan_internal.ScanDone by blast
qed

text \<open>A caller waits on channel \<open>tx\<close>: it has been told, or its request is on its way and has
  not been superseded.\<close>

definition awaiting :: "nat \<Rightarrow> scan_handler \<Rightarrow> bool" where
  "awaiting tx h \<longleftrightarrow> tx \<in> set (sh_completions h)
     \<or> (\<exists>a. sa_completion_tx a = Some tx \<and> sa_expected_generation a = generation h
          \<and> (sq_pending (sh_queue h) = Some a \<or> ScanSpawned a \<in> set (sh_scan_tasks h)
             \<or> ScanRunning a \<in> set (sh_scan_tasks h)))"

lemma awaiting_internal:
  assumes "scan_internal E h h'" and "env_ok E" and "awaiting tx h"
  shows "awaiting tx h'"
  using assms(1)
proof cases
  case (TaskStart us a vs h1 t)
  note start = scan_task_start_cases [OF TaskStart(3)]
  show ?thesis using assms(3) TaskStart(1,2) start(1-3) start(5)
    unfolding awaiting_def by (auto simp: task_list_def)
next
  case (TaskFinish us a vs)
  note finish = scan_task_finish_keeps [OF assms(2), where a = a and h = h]
  show ?thesis using assms(3) TaskFinish finish(1,2,9,10)
    unfolding awaiting_def by (auto; blast)
next
  case (ScanDone n)
  show ?thesis using assms(3) unfolding awaiting_def ScanDone(1)
    by (auto simp: on_scan_completed_keeps split: option.splits)
qed

lemma internal_run:
  assumes "(scan_internal E)\<^sup>*\<^sup>* h h'" and "env_ok E" and "scan_inv h"
  shows "scan_inv h' \<and> (awaiting tx h \<longrightarrow> awaiting tx h') \<and> scan_work h' \<le> scan_work h"
  using assms(1)
proof (induction rule: rtranclp_induct)
  case base
  show ?case using assms(3) by simp
next
  case (step h1 h2)
  show ?case
    using step scan_internal_inv [OF step.hyps(2) assms(2)] awaiting_internal [OF step.hyps(2) assms(2)]
      scan_work_decreases [OF step.hyps(2) assms(2)] by auto
qed

lemma internal_run_ends:
  assumes "env_ok E"
  shows "\<exists>h'. (scan_internal E)\<^sup>*\<^sup>* h h' \<and> (\<nexists>h''. scan_internal E h' h'')"
proof (induction "scan_work h" arbitrary: h rule: less_induct)
  case less
  show ?case
  proof (cases "\<exists>h1. scan_internal E h h1")
    case True
    then obtain h1 where h1: "scan_internal E h h1" by blast
    then obtain h' where "(scan_internal E)\<^sup>*\<^sup>* h1 h'" and "\<nexists>h''. scan_internal E h' h''"
      using less scan_work_decreases [OF h1 assms] by blast
    then show ?thesis using h1 converse_rtranclp_into_rtranclp by metis
  qed blast
qed

lemma scan_work_bound: "scan_inv h \<Longrightarrow> scan_work h \<le> 6"
  by (cases "sh_scan_tasks h") (auto simp: scan_inv_def scan_work_def task_work_def split: if_split_asm scan_task.split)

lemma internal_run_length:
  assumes "env_ok E"
  shows "(scan_internal E ^^ n) h h' \<Longrightarrow> n + scan_work h' \<le> scan_work h"
proof (induction n arbitrary: h')
  case (Suc n)
  then obtain h1 where "(scan_internal E ^^ n) h h1" and "scan_internal E h1 h'" by auto
  then show ?case using Suc.IH [of h1] scan_work_decreases [OF _ assms, of h1 h'] by simp
qed simp

text \<open>C2 When no further request arrives, every run of the scan tasks and completion messages ends, after at
  most six steps (start, finish and report of the running and of the waiting scan), and where it cannot go on the
  queue is idle: no scan running, waiting or reporting. A caller whose request was not superseded has then been
  told that its scan is done. The state is a reachable one, and scans leave the workspace root alone.\<close>

theorem requested_scans_complete:
  assumes "env_ok E" and "reachable D E sidecar h"
  shows "(\<forall>n h'. (scan_internal E ^^ n) h h' \<longrightarrow> n \<le> 6)
    \<and> (\<forall>h'. (scan_internal E)\<^sup>*\<^sup>* h h' \<and> (\<nexists>h''. scan_internal E h' h'') \<longrightarrow>
         sh_queue h' = sq_new \<and> sh_scan_tasks h' = [] \<and> sh_scan_done h' = 0
         \<and> (\<forall>tx. awaiting tx h \<longrightarrow> tx \<in> set (sh_completions h')))"
proof (intro conjI allI impI)
  fix n h' assume "(scan_internal E ^^ n) h h'"
  then show "n \<le> 6"
    using internal_run_length [OF assms(1), of n h h'] scan_work_bound [of h] reachable_inv [OF assms] by simp
next
  fix h' assume "(scan_internal E)\<^sup>*\<^sup>* h h' \<and> (\<nexists>h''. scan_internal E h' h'')"
  then have run: "(scan_internal E)\<^sup>*\<^sup>* h h'" and stuck: "\<nexists>h''. scan_internal E h' h''" by auto
  have inv: "scan_inv h'" and aw: "\<And>tx. awaiting tx h \<longrightarrow> awaiting tx h'"
    using internal_run [OF run assms(1)] reachable_inv [OF assms] by auto
  have idle: "\<not> sq_in_progress (sh_queue h')" using scan_internal_progress inv stuck by blast
  then have "sq_pending (sh_queue h') = None"
    using inv by (cases "sq_pending (sh_queue h')") (auto simp: scan_inv_def)
  with idle inv show "sh_queue h' = sq_new" "sh_scan_tasks h' = []" "sh_scan_done h' = 0"
    by (auto simp: scan_inv_def sq_new_def)
  then show "tx \<in> set (sh_completions h')" if "awaiting tx h" for tx
    using aw that by (auto simp: awaiting_def sq_new_def)
qed

theorem requested_scans_complete_witness:
  "\<exists>h'. (scan_internal idle_env)\<^sup>*\<^sup>* (handle_initialize empty_disk False (example_config [RootDir]) (Some 7)
      (sh_new (indexer_new True))) h' \<and> sh_queue h' = sq_new \<and> 7 \<in> set (sh_completions h')"
proof -
  let ?h = "handle_initialize empty_disk False (example_config [RootDir]) (Some 7) (sh_new (indexer_new True))"
  have "awaiting 7 ?h"
    by (simp add: awaiting_def handle_initialize_def case_prod_beta enqueue_scan_def handler_defs
        sq_new_def apply_config_def Let_def sh_new_def spawn_jar_indexing_def indexer_new_def)
  then show ?thesis
    using requested_scans_complete [OF idle_env_ok reachable_handler
      [where D = empty_disk and sidecar = True and c = "example_config [RootDir]" and tx = "Some 7"]]
      internal_run_ends [OF idle_env_ok, of ?h]
    by blast
qed


section \<open>Requests and superseded work\<close>

lemma word_plus_one_neq [simp]: "(g :: 64 word) + 1 \<noteq> g" "g + 1 + 1 \<noteq> g" "g \<noteq> g + 1"
proof -
  show "g + 1 \<noteq> g" by simp
  show "g \<noteq> g + 1" by simp
  have "g + 1 + 1 = g + 2" by simp
  moreover have "g + 2 \<noteq> g" by simp
  ultimately show "g + 1 + 1 \<noteq> g" by simp
qed

lemma enqueue_scan_generation:
  "generation (enqueue_scan a h) = (if is_scanning h then generation h + 1 else generation h)"
  by (simp add: handler_defs Let_def is_scanning_def bump_generation_def split: option.split)

lemma enqueue_scan_stamps:
  assumes "scan_count h"
  shows "let a' = a\<lparr>sa_expected_generation := generation (enqueue_scan a h)\<rparr>
     in if is_scanning h
        then sq_pending (sh_queue (enqueue_scan a h)) = Some a' \<and> sh_scan_tasks (enqueue_scan a h) = sh_scan_tasks h
        else sq_pending (sh_queue (enqueue_scan a h)) = None \<and> sh_scan_tasks (enqueue_scan a h) = [ScanSpawned a']"
  using assms by (auto simp: handler_defs Let_def is_scanning_def bump_generation_def scan_count_def split: option.split)

text \<open>A root change takes effect at once and supersedes what runs: the state is ready for the
  new root with its resolved sources, the root is pinned, the request carries the generation the
  workspace has now and either starts (when idle) or replaces whatever waited, and a task that was
  current before it bails out at its next check, changing nothing but reporting that it is done.\<close>

theorem change_root_supersedes:
  assumes "scan_inv h"
  shows "let h' = handle_change_root D locked root h;
             a = \<lparr>sa_root = root, sa_kind = FullScan, sa_completion_tx = None,
                  sa_expected_generation = generation h', sa_reset_before_scan = True\<rparr>
     in sh_state h' = Ready \<lparr>rs_root = root, rs_source_paths = resolve_sources D (root_switch_config root)\<rparr>
      \<and> current_root h' = Some root \<and> ix_workspace_pinned (sh_indexer h')
      \<and> (if is_scanning h then sq_pending (sh_queue h') = Some a \<and> sh_scan_tasks h' = sh_scan_tasks h
         else sq_pending (sh_queue h') = None \<and> sh_scan_tasks h' = [ScanSpawned a])
      \<and> (\<forall>b. sa_expected_generation b = generation h \<longrightarrow>
           scan_task_start b h' = (h'\<lparr>sh_scan_done := sh_scan_done h' + 1\<rparr>, None))"
proof -
  let ?c = "fst (apply_config D (root_switch_config root) (map_indexer clear_jar_index h))"
  let ?a = "\<lparr>sa_root = root, sa_kind = FullScan, sa_completion_tx = None,
       sa_expected_generation = 0, sa_reset_before_scan = True\<rparr>"
  let ?e = "enqueue_scan ?a ?c"
  have h': "handle_change_root D locked root h = spawn_jar_indexing locked ?e"
    by (simp add: handle_change_root_def Let_def case_prod_beta apply_config_sets from_config_def root_switch_config_def)
  have count: "scan_count ?c" using scan_count_of_inv [OF assms] by simp
  have scanning: "is_scanning ?c = is_scanning h" and tasks: "sh_scan_tasks ?c = sh_scan_tasks h"
    by (simp_all add: is_scanning_def map_indexer_def)
  have "generation ?c = generation h + 1"
    by (simp add: apply_config_sets(4)) (simp add: generation_def map_indexer_def clear_jar_index_def)
  then have stale: "generation ?e \<noteq> generation h"
    using word_plus_one_neq [of "generation h"] by (simp add: enqueue_scan_generation)
  have "sh_state ?e = Ready \<lparr>rs_root = root, rs_source_paths = resolve_sources D (root_switch_config root)\<rparr>"
    by (simp add: apply_config_sets from_config_def) (simp add: root_switch_config_def)
  moreover have "ws_path (ix_workspace_root (sh_indexer ?e)) = Some root"
    by (simp add: apply_config_sets) (simp add: root_switch_config_def)
  moreover have "ix_workspace_pinned (sh_indexer (spawn_jar_indexing locked ?e))"
    by (simp add: spawn_jar_indexing_def map_indexer_def Let_def enqueue_scan_def handler_defs apply_config_def
        apply_ignore_patterns_def write_workspace_source_roots_def write_module_dependencies_def
        root_switch_config_def split: option.split)
  ultimately show ?thesis
    using enqueue_scan_stamps [OF count, of ?a] stale unfolding h' Let_def scanning tasks
    by (simp add: current_root_def scan_task_start_def)
qed

theorem change_root_supersedes_witness:
  "current_root (handle_change_root empty_disk False [RootDir] (sh_new (indexer_new True))) = Some [RootDir]"
  using change_root_supersedes [of "sh_new (indexer_new True)" empty_disk False "[RootDir]"]
  by (simp add: Let_def scan_inv_def sh_new_def sq_new_def)

section \<open>What the JAR pipeline loses\<close>

fun jar_task_generation :: "jar_task \<Rightarrow> 64 word" where
  "jar_task_generation (JarSpawned gen _) = gen"
| "jar_task_generation (JarGating gen _) = gen"
| "jar_task_generation (JarGated gen _ _) = gen"
| "jar_task_generation (JarCompiled gen _) = gen"
| "jar_task_generation (JarSourced gen _ _) = gen"

fun found_no_jars :: "jar_task \<Rightarrow> bool" where
  "found_no_jars (JarSourced _ c n) \<longleftrightarrow> co_paths c = [] \<and> n = 0"
| "found_no_jars _ \<longleftrightarrow> False"

lemma spawn_jar_indexing_blocked: "l \<or> sh_jar_indexing_in_progress h \<Longrightarrow> spawn_jar_indexing l h = h"
  by (auto simp: spawn_jar_indexing_def)

lemma stale_jar_task_abandons:
  assumes "jar_task_generation j \<noteq> generation h" and "\<not> found_no_jars j"
  shows "jar_task_step D E j h = (abandon_stale_jar_scan h, None)"
  using assms by (cases j) (auto simp: gate_poll_def)

text \<open>A root change while JAR indexing runs leaves the new root without JAR symbols: no JAR task
  is started for it (the guard is set), the running one was started for the old root and is abandoned
  at its next check, and the phase then reads ready, with no JAR file in the index and nothing left
  that would index any.\<close>

theorem change_root_loses_jar_symbols:
  assumes "sh_jar_indexing_in_progress h" and "sh_jar_tasks h = [j]"
    and "jar_task_generation j = generation h" and "\<not> found_no_jars j"
    and "ix_jar_sidecar_alive (sh_indexer h)"
  shows "let h1 = handle_change_root D locked root h; (h2, t) = jar_task_step D E j h1
     in sh_jar_tasks h1 = [j] \<and> t = None \<and> \<not> sh_jar_indexing_in_progress h2
      \<and> ix_jar_phase (sh_indexer h2) = JarReady 0
      \<and> Mapping.keys (ix_jar_files (sh_indexer h2)) = {}"
proof -
  let ?c = "fst (apply_config D (root_switch_config root) (map_indexer clear_jar_index h))"
  let ?e = "enqueue_scan \<lparr>sa_root = root, sa_kind = FullScan, sa_completion_tx = None,
       sa_expected_generation = 0, sa_reset_before_scan = True\<rparr> ?c"
  have h1: "handle_change_root D locked root h = ?e"
    using assms(1) by (simp add: handle_change_root_def Let_def case_prod_beta apply_config_sets from_config_def
        root_switch_config_def spawn_jar_indexing_def) (simp add: map_indexer_def)
  have "generation ?c = generation h + 1"
    by (simp add: apply_config_sets(4)) (simp add: generation_def map_indexer_def clear_jar_index_def)
  then have "generation ?e \<noteq> generation h"
    using word_plus_one_neq [of "generation h"] by (simp add: enqueue_scan_generation)
  then have step: "jar_task_step D E j ?e = (abandon_stale_jar_scan ?e, None)"
    using stale_jar_task_abandons assms(3,4) by metis
  have "sh_jar_tasks ?e = [j]" using assms(2) by (simp add: map_indexer_def)
  moreover have "ix_jar_phase (sh_indexer ?e) = JarPending"
    using assms(5) by (simp add: map_indexer_def clear_jar_index_def)
  moreover have "ix_jar_files (sh_indexer ?e) = Mapping.empty \<and> ix_jar_definitions (sh_indexer ?e) = Mapping.empty"
    by (simp add: enqueue_scan_def handler_defs Let_def apply_config_def apply_ignore_patterns_def
        write_workspace_source_roots_def write_module_dependencies_def clear_jar_index_def split: option.split)
  ultimately show ?thesis unfolding h1 Let_def step
    by (simp add: abandon_stale_jar_scan_def map_indexer_def Let_def case_prod_beta del: apply_config_keeps)
qed

theorem change_root_loses_jar_symbols_witness:
  "let h = handle_initialize empty_disk False (example_config [RootDir]) None (sh_new (indexer_new True));
       h1 = handle_change_root empty_disk False [RootDir, Normal (lit ''b'')] h;
       (h2, t) = jar_task_step empty_disk idle_env (hd (sh_jar_tasks h)) h1
   in t = None \<and> ix_jar_phase (sh_indexer h2) = JarReady 0"
proof -
  let ?h = "handle_initialize empty_disk False (example_config [RootDir]) None (sh_new (indexer_new True))"
  let ?e = "enqueue_scan \<lparr>sa_root = [RootDir], sa_kind = Prioritized [], sa_completion_tx = None,
     sa_expected_generation = 0, sa_reset_before_scan = False\<rparr>
     (fst (apply_config empty_disk (example_config [RootDir]) (sh_new (indexer_new True))))"
  have h: "?h = spawn_jar_indexing False ?e"
    by (simp add: handle_initialize_def case_prod_beta apply_config_sets from_config_def example_config_def)
  have "ix_jar_sidecar_alive (sh_indexer ?e)" "\<not> sh_jar_indexing_in_progress ?e" "sh_jar_tasks ?e = []"
    by (simp_all add: sh_new_def indexer_new_def)
  then have facts: "sh_jar_indexing_in_progress ?h" "\<exists>sp. sh_jar_tasks ?h = [JarSpawned (generation ?h) sp]"
    "ix_jar_sidecar_alive (sh_indexer ?h)"
    unfolding h by (simp_all add: spawn_jar_indexing_def map_indexer_def generation_def Let_def)
  then obtain sp where "sh_jar_tasks ?h = [JarSpawned (generation ?h) sp]" by blast
  then show ?thesis
    using change_root_loses_jar_symbols [OF facts(1) _ _ _ facts(3), of "JarSpawned (generation ?h) sp" empty_disk False
        "[RootDir, Normal (lit ''b'')]" idle_env]
    unfolding Let_def by (auto split: prod.splits)
qed

text \<open>A reindex clears the names of the JARs and starts no JAR task when one is running or the
  sidecar's lock is held. When the running task is past the manifest and no scan runs, it finishes as
  current: the phase reads ready although the index has no JAR name, and no task is left to add any.\<close>

theorem reindex_loses_jar_names:
  assumes "current_root h = Some root" and "sh_jar_indexing_in_progress h \<or> locked"
  shows "let h1 = handle_reindex locked h
     in Mapping.keys (ix_jar_qualified (sh_indexer h1)) = {}
      \<and> Mapping.keys (ix_jar_bare_names (sh_indexer h1)) = {}
      \<and> ix_materialized (sh_indexer h1) = {}
      \<and> sh_jar_tasks h1 = sh_jar_tasks h
      \<and> (\<not> is_scanning h \<and> co_paths c \<noteq> [] \<longrightarrow>
           (let (h2, t) = jar_task_step D E (JarSourced (generation h) c n) h1
            in t = None \<and> ix_jar_phase (sh_indexer h2) = final_jar_phase c n
             \<and> Mapping.keys (ix_jar_qualified (sh_indexer h2)) = {}))"
proof -
  let ?c = "map_indexer (\<lambda>ix. ix\<lparr>ix_materialized := {}, ix_materialization_failed := {},
                      ix_jar_qualified := Mapping.empty, ix_jar_bare_names := Mapping.empty,
                      ix_jar_extension_receivers := Mapping.empty\<rparr>) h"
  let ?a = "\<lparr>sa_root = root, sa_kind = FullScan, sa_completion_tx = None,
                   sa_expected_generation = 0, sa_reset_before_scan = True\<rparr>"
  let ?e = "enqueue_scan ?a ?c"
  have h1: "handle_reindex locked h = ?e"
    using assms by (simp add: handle_reindex_def Let_def spawn_jar_indexing_blocked disj_commute)
      (subst spawn_jar_indexing_blocked, simp_all add: map_indexer_def disj_commute)
  have maps: "ix_jar_qualified (sh_indexer ?e) = Mapping.empty"
    "ix_jar_bare_names (sh_indexer ?e) = Mapping.empty" "ix_materialized (sh_indexer ?e) = {}"
    by (simp_all add: enqueue_scan_def handler_defs Let_def split: option.split)
  have "is_scanning ?c = is_scanning h" "generation ?c = generation h"
    by (simp_all add: is_scanning_def map_indexer_def generation_def)
  then have gen: "generation ?e = generation h" if "\<not> is_scanning h"
    using that by (simp add: enqueue_scan_generation)
  have "sh_jar_tasks ?e = sh_jar_tasks h" by (simp add: map_indexer_def)
  then show ?thesis unfolding h1 Let_def using maps gen
    by (simp add: jar_task_ended_def set_jar_phase_def map_indexer_def invalidate_completion_cache_def)
qed

theorem reindex_loses_jar_names_witness:
  "let h = sh_new (indexer_new True)\<lparr>sh_indexer := (indexer_new True)
             \<lparr>ix_workspace_root := ws_set [RootDir] ws_new,
              ix_jar_qualified := Mapping.update (lit ''a.B'') (JarId 0) Mapping.empty\<rparr>\<rparr>
   in Mapping.keys (ix_jar_qualified (sh_indexer (handle_reindex True h))) = {}
    \<and> sh_jar_tasks (handle_reindex True h) = []"
  using reindex_loses_jar_names [of "sh_new (indexer_new True)\<lparr>sh_indexer := (indexer_new True)
             \<lparr>ix_workspace_root := ws_set [RootDir] ws_new,
              ix_jar_qualified := Mapping.update (lit ''a.B'') (JarId 0) Mapping.empty\<rparr>\<rparr>" "[RootDir]" True]
  by (simp add: Let_def current_root_def ws_set_def sh_new_def)

text \<open>The steps that no handler makes leave the phase and the guard as they are, where no JAR task is there
  to move.\<close>

lemma background_step_no_task:
  assumes "background_step D E h h'" and "env_ok E" and "sh_jar_tasks h = []"
  shows "sh_jar_tasks h' = [] \<and> ix_jar_phase (sh_indexer h') = ix_jar_phase (sh_indexer h)
    \<and> current_root h' = current_root h"
  using assms(1)
proof cases
  case Internal
  then show ?thesis
  proof cases
    case (TaskStart us a vs h1 t)
    then show ?thesis using assms(3) scan_task_start_cases [OF TaskStart(3)]
      by (auto simp: scan_task_start_def current_root_def map_indexer_def reset_index_state_def Let_def split: if_splits)
  next
    case (TaskFinish us a vs)
    then show ?thesis using assms(2,3) scan_task_finish_keeps [OF assms(2), where a = a and h = h]
      by (auto simp: scan_task_finish_def env_ok_def current_root_def map_indexer_def Let_def split: option.splits)
  next
    case (ScanDone n)
    then show ?thesis using assms(3) by (simp add: on_scan_completed_keeps current_root_def)
  qed
qed (use assms(3) in \<open>auto simp: current_root_def\<close>)

text \<open>C31 A root change that finds the sidecar's lock held by a look-up gets no JAR indexing at all: where the sidecar
  is available and no JAR task runs, but a hover or completion request happens to be materializing a JAR while the actor handles the change, no
  JAR task is started for the new root (the handler takes the held lock for a running scan), and the JAR phase,
  which the change has put back to pending, reads as still loading until the next request to the scan handler,
  whatever tasks and look-ups run meanwhile. Had the lock been free, a JAR task would run.\<close>

theorem change_root_during_look_up_stays_pending:
  assumes "env_ok E" and "reachable D E sidecar h" and "\<not> sh_jar_indexing_in_progress h"
    and "ix_jar_sidecar_alive (sh_indexer h)"
  shows "(\<forall>h'. (background_step D E)\<^sup>*\<^sup>* (handle_change_root D True root h) h' \<longrightarrow>
        sh_jar_tasks h' = [] \<and> is_loading (ix_jar_phase (sh_indexer h')) \<and> current_root h' = Some root)
    \<and> length (sh_jar_tasks (handle_change_root D False root h)) = 1"
proof (intro conjI allI impI)
  let ?c = "fst (apply_config D (root_switch_config root) (map_indexer clear_jar_index h))"
  let ?e = "enqueue_scan \<lparr>sa_root = root, sa_kind = FullScan, sa_completion_tx = None,
       sa_expected_generation = 0, sa_reset_before_scan = True\<rparr> ?c"
  have eq: "handle_change_root D l root h = spawn_jar_indexing l ?e" for l
    by (simp add: handle_change_root_def Let_def case_prod_beta apply_config_sets from_config_def root_switch_config_def)
  have "jar_inv h" using reachable_inv [OF assms(1,2)] ..
  then have none: "sh_jar_tasks h = []" using assms(3) by (simp add: jar_inv_def)
  have e: "sh_jar_tasks ?e = []" "ix_jar_phase (sh_indexer ?e) = JarPending" "current_root ?e = Some root"
    using none assms(4)
    by (simp_all add: current_root_def apply_config_sets root_switch_config_def)
      (simp_all add: map_indexer_def clear_jar_index_def)
  show "length (sh_jar_tasks (handle_change_root D False root h)) = 1"
    using e(1) assms(3,4) unfolding eq
    by (simp add: spawn_jar_indexing_def Let_def) (simp add: map_indexer_def clear_jar_index_def)
  fix h' assume "(background_step D E)\<^sup>*\<^sup>* (handle_change_root D True root h) h'"
  then have "sh_jar_tasks h' = [] \<and> ix_jar_phase (sh_indexer h') = JarPending \<and> current_root h' = Some root"
    unfolding eq
  proof (induction rule: rtranclp_induct)
    case base
    then show ?case using e by (simp add: spawn_jar_indexing_def)
  next
    case (step h1 h2)
    then show ?case using background_step_no_task [OF _ assms(1), of D h1 h2] by simp
  qed
  then show "sh_jar_tasks h' = []" "is_loading (ix_jar_phase (sh_indexer h'))" "current_root h' = Some root"
    by (simp_all add: is_loading_def)
qed

theorem change_root_during_look_up_stays_pending_witness:
  "sh_jar_tasks (handle_change_root empty_disk True [RootDir] (sh_new (indexer_new True))) = []
   \<and> is_loading (ix_jar_phase (sh_indexer (handle_change_root empty_disk True [RootDir] (sh_new (indexer_new True)))))
   \<and> length (sh_jar_tasks (handle_change_root empty_disk False [RootDir] (sh_new (indexer_new True)))) = 1"
proof -
  have "reachable empty_disk idle_env True (sh_new (indexer_new True))" by (simp add: reachable_def)
  from change_root_during_look_up_stays_pending [OF idle_env_ok this, of "[RootDir]"]
  show ?thesis by (simp add: sh_new_def indexer_new_def)
qed

end
