(* ===== verification/Document_Handler.thy ===== *)
theory Document_Handler
  imports Scan_Handler Index_Props
begin

text \<open>
  What the server does with the documents the editor opens, saves, closes and deletes:
  \<^verbatim>\<open>src/workspace/document_handler.rs\<close>, from finding the workspace root of an opened
  file to the tasks that index it and publish its diagnostics.

  The single diagnostics (\<^verbatim>\<open>src/features\<close>), the sidecar's materialization of a JAR and the
  prewarming of a completion cache are the functions of \<open>doc_env\<close>; a diagnostic is an opaque
  string. A spawned task is a value whose steps are the stretches between its suspension points.
\<close>

type_synonym diagnostic = str

record doc_env =
  de_syntax_diagnostics :: "syntax_error list \<Rightarrow> diagnostic list"
  de_when_diagnostics :: "indexer \<Rightarrow> url \<Rightarrow> diagnostic list"
  de_call_arg_diagnostics :: "indexer \<Rightarrow> url \<Rightarrow> str \<Rightarrow> diagnostic list"
  de_nullable_dot_call_diagnostics :: "indexer \<Rightarrow> url \<Rightarrow> str \<Rightarrow> diagnostic list"
  de_missing_import_diagnostics :: "indexer \<Rightarrow> url \<Rightarrow> str \<Rightarrow> diagnostic list"
  de_unused_import_diagnostics :: "str \<Rightarrow> diagnostic list"
  de_missing_package_diagnostic :: "str list \<Rightarrow> url \<Rightarrow> diagnostic option"
  de_ensure_jar_materialized :: "str \<Rightarrow> indexer \<Rightarrow> indexer"
  de_prewarm_completion_cache :: "url \<Rightarrow> indexer \<Rightarrow> indexer"

section \<open>Finding the workspace root\<close>

definition STRONG_BUILD_MARKERS :: "str list" where
  "STRONG_BUILD_MARKERS = [lit ''build.gradle'', lit ''settings.gradle'', lit ''build.gradle.kts'',
     lit ''Cargo.toml'', lit ''pom.xml'', lit ''settings.gradle.kts'']"

definition WEAK_BUILD_MARKERS :: "str list" where
  "WEAK_BUILD_MARKERS = [lit ''Package.swift'']"

definition has_any_marker :: "disk \<Rightarrow> path \<Rightarrow> str list \<Rightarrow> bool" where
  "has_any_marker D directory markers \<longleftrightarrow>
     list_ex (\<lambda>marker. dk_exists D (path_join directory [Normal marker])) markers"

definition is_git_root :: "disk \<Rightarrow> path \<Rightarrow> bool" where
  "is_git_root D directory = dk_exists D (path_join directory [Normal (lit ''.git'')])"

text \<open>The loop of \<open>auto_detect_workspace_root\<close>, with its three candidates.\<close>

function marker_search ::
  "disk \<Rightarrow> path option \<Rightarrow> path option \<Rightarrow> path option \<Rightarrow> path option \<times> path option \<times> path option" where
  "marker_search D None strong weak = (strong, None, weak)"
| "marker_search D (Some directory) strong weak =
     (let strong' = (if strong = None \<and> has_any_marker D directory STRONG_BUILD_MARKERS
                     then Some directory else strong)
      in if is_git_root D directory then (strong', Some directory, weak)
         else marker_search D (path_parent directory) strong'
                (if weak = None \<and> has_any_marker D directory WEAK_BUILD_MARKERS
                 then Some directory else weak))"
  by pat_completeness auto
termination
  by (relation "measure (\<lambda>(D, c, s, w). case c of None \<Rightarrow> 0 | Some d \<Rightarrow> Suc (length d))")
    (auto simp: path_parent_shorter split: option.split)

definition or_else :: "'a option \<Rightarrow> 'a option \<Rightarrow> 'a option" where
  "or_else a b = (case a of Some x \<Rightarrow> Some x | None \<Rightarrow> b)"

definition auto_detect_workspace_root :: "disk \<Rightarrow> path \<Rightarrow> path option" where
  "auto_detect_workspace_root D opened_file_path =
     (let (strong, git, weak) = marker_search D (path_parent opened_file_path) None None
      in or_else strong (or_else git (or_else weak (path_parent opened_file_path))))"

definition canonicalize_or_clone :: "disk \<Rightarrow> path \<Rightarrow> path" where
  "canonicalize_or_clone D p = (case dk_canonicalize D p of Some q \<Rightarrow> q | None \<Rightarrow> p)"

definition should_switch_workspace_root :: "disk \<Rightarrow> path option \<Rightarrow> path \<Rightarrow> path \<Rightarrow> bool" where
  "should_switch_workspace_root D root opened_file_path candidate =
     (case root of
        None \<Rightarrow> True
      | Some current \<Rightarrow>
          \<not> path_starts_with (canonicalize_or_clone D opened_file_path) (canonicalize_or_clone D current)
          \<and> canonicalize_or_clone D candidate \<noteq> canonicalize_or_clone D current)"

definition is_outside_pinned_workspace_root :: "disk \<Rightarrow> path option \<Rightarrow> bool \<Rightarrow> path option \<Rightarrow> bool" where
  "is_outside_pinned_workspace_root D root workspace_pinned opened_file_path =
     (if \<not> workspace_pinned then False
      else (case (opened_file_path, root) of
              (Some opened, Some current) \<Rightarrow>
                \<not> path_starts_with (canonicalize_or_clone D opened) (canonicalize_or_clone D current)
            | _ \<Rightarrow> False))"

definition detect_workspace_root_switch :: "disk \<Rightarrow> path option \<Rightarrow> bool \<Rightarrow> path option \<Rightarrow> path option" where
  "detect_workspace_root_switch D root workspace_pinned opened_file_path =
     (if workspace_pinned then None
      else Option.bind opened_file_path (\<lambda>opened.
           Option.bind (auto_detect_workspace_root D opened) (\<lambda>candidate.
             if should_switch_workspace_root D root opened candidate then Some candidate else None)))"

definition is_extracted_jar_source :: "externals \<Rightarrow> url \<Rightarrow> bool" where
  "is_extracted_jar_source X uri =
     (case x_url_to_file_path X uri of Some p \<Rightarrow> path_starts_with p (x_jar_sources_dir X) | None \<Rightarrow> False)"

section \<open>Tasks of documents\<close>

datatype doc_task =
    OpenIndex url str
  | OpenPromote url str "file_data option"
  | OpenDiagnose url "(file_data option \<times> str) option"
  | OutsideIndex url str
  | SavedIndex url
  | RepublishPromote "url list"
  | RepublishOne url

record documents =
  do_client :: bool
  do_tasks :: "doc_task list"
  do_published :: "(url \<times> diagnostic list) list"

definition publish :: "url \<Rightarrow> diagnostic list \<Rightarrow> documents \<Rightarrow> documents" where
  "publish uri ds d = (if do_client d then d\<lparr>do_published := do_published d @ [(uri, ds)]\<rparr> else d)"

definition spawn_doc_task :: "doc_task \<Rightarrow> documents \<Rightarrow> documents" where
  "spawn_doc_task t d = d\<lparr>do_tasks := do_tasks d @ [t]\<rparr>"

definition promote_file_imports :: "doc_env \<Rightarrow> url \<Rightarrow> indexer \<Rightarrow> indexer" where
  "promote_file_imports V uri ix =
     (case Mapping.lookup (ix_files ix) uri of
        None \<Rightarrow> ix
      | Some d \<Rightarrow> fold (\<lambda>i. de_ensure_jar_materialized V (ie_local_name i))
                    (filter (\<lambda>i. \<not> ie_is_star i) (fd_imports d)) ix)"

definition option_list :: "'a option \<Rightarrow> 'a list" where
  "option_list x = (case x of None \<Rightarrow> [] | Some y \<Rightarrow> [y])"

text \<open>\<open>lang_for_path(path).and_then(|lang| parse_live(text, lang))\<close>: whether there is a tree.\<close>

definition parses_live :: "externals \<Rightarrow> url \<Rightarrow> str \<Rightarrow> bool" where
  "parses_live X uri content =
     (case lang_for_path (x_url_path X uri) of None \<Rightarrow> False | Some lang \<Rightarrow> x_parse_live X content lang)"

definition live_doc_diagnostics :: "doc_env \<Rightarrow> indexer \<Rightarrow> url \<Rightarrow> str \<Rightarrow> diagnostic list" where
  "live_doc_diagnostics V ix uri doc =
     de_call_arg_diagnostics V ix uri doc @ de_nullable_dot_call_diagnostics V ix uri doc
     @ de_missing_import_diagnostics V ix uri doc @ de_unused_import_diagnostics V doc"

definition package_diagnostics :: "doc_env \<Rightarrow> indexer \<Rightarrow> url \<Rightarrow> diagnostic list" where
  "package_diagnostics V ix uri =
     option_list (de_missing_package_diagnostic V
       (case mem_lines_for ix uri of None \<Rightarrow> [] | Some ls \<Rightarrow> ls) uri)"

definition indexed_syntax_diagnostics :: "doc_env \<Rightarrow> indexer \<Rightarrow> url \<Rightarrow> diagnostic list" where
  "indexed_syntax_diagnostics V ix uri =
     (case Mapping.lookup (ix_files ix) uri of
        None \<Rightarrow> [] | Some d \<Rightarrow> de_syntax_diagnostics V (fd_syntax_errors d))"

text \<open>The last stretch of \<open>spawn_open_document_indexing\<close>; the argument is \<open>None\<close> when a
  task before it panicked.\<close>

definition open_document_diagnostics ::
  "externals \<Rightarrow> doc_env \<Rightarrow> indexer \<Rightarrow> url \<Rightarrow> (file_data option \<times> str) option \<Rightarrow> diagnostic list" where
  "open_document_diagnostics X V ix uri result =
     (let diagnostics_text = (case result of Some (_, t) \<Rightarrow> t | None \<Rightarrow> []);
          syntax = (case result of
                      Some (Some indexed, _) \<Rightarrow> de_syntax_diagnostics V (fd_syntax_errors indexed)
                    | Some (None, _) \<Rightarrow> indexed_syntax_diagnostics V ix uri
                    | None \<Rightarrow> []);
          semantic = (if ix_indexing_in_progress ix then []
                      else de_when_diagnostics V ix uri
                         @ (if parses_live X uri diagnostics_text
                            then live_doc_diagnostics V ix uri diagnostics_text else []))
      in syntax @ semantic @ package_diagnostics V ix uri)"

definition republished_diagnostics :: "doc_env \<Rightarrow> indexer \<Rightarrow> url \<Rightarrow> diagnostic list" where
  "republished_diagnostics V ix uri =
     indexed_syntax_diagnostics V ix uri @ de_when_diagnostics V ix uri
     @ (case Mapping.lookup (ix_live_trees ix) uri of
          None \<Rightarrow> [] | Some doc \<Rightarrow> live_doc_diagnostics V ix uri doc)
     @ package_diagnostics V ix uri"

text \<open>One stretch of a task: the index and the documents after it, and the tasks it becomes. A panic
  of \<open>index_content\<close> is caught where the blocking task is joined; what the index is then is not
  modelled, so it is left as it was.\<close>

fun doc_task_step :: "externals \<Rightarrow> doc_env \<Rightarrow> disk \<Rightarrow> doc_task \<Rightarrow> indexer \<times> documents
   \<Rightarrow> (indexer \<times> documents) \<times> doc_task list" where
  "doc_task_step X V D (OpenIndex uri content) (ix, d) =
     (case index_content X uri content ix of
        Some (ix', data) \<Rightarrow> ((ix', d), [OpenPromote uri content data])
      | None \<Rightarrow> ((ix, d), [OpenDiagnose uri None]))"
| "doc_task_step X V D (OpenPromote uri content data) (ix, d) =
     ((de_prewarm_completion_cache V uri (promote_file_imports V uri ix), d),
      [OpenDiagnose uri (Some (data, content))])"
| "doc_task_step X V D (OpenDiagnose uri result) (ix, d) =
     ((ix, publish uri (open_document_diagnostics X V ix uri result) d), [])"
| "doc_task_step X V D (OutsideIndex uri content) (ix, d) =
     (case index_content X uri content ix of
        Some (ix', _) \<Rightarrow> ((ix', d), []) | None \<Rightarrow> ((ix, d), []))"
| "doc_task_step X V D (SavedIndex uri) (ix, d) =
     (case Option.bind (x_url_to_file_path X uri) (dk_read_to_string D) of
        None \<Rightarrow> ((ix, d), [])
      | Some content \<Rightarrow>
          (case index_content X uri content ix of
             Some (ix', _) \<Rightarrow> ((ix', d), []) | None \<Rightarrow> ((ix, d), [])))"
| "doc_task_step X V D (RepublishPromote uris) (ix, d) =
     ((fold (promote_file_imports V) uris ix, d), map RepublishOne uris)"
| "doc_task_step X V D (RepublishOne uri) (ix, d) =
     ((ix, publish uri (republished_diagnostics V ix uri) d), [])"

section \<open>Handlers\<close>

definition republish_open_file_diagnostics :: "externals \<Rightarrow> indexer \<Rightarrow> documents \<Rightarrow> documents" where
  "republish_open_file_diagnostics X ix =
     spawn_doc_task (RepublishPromote (List.map_filter (x_url_parse X) (sorted_keys (ix_live_trees ix))))"

definition store_live_document_state :: "externals \<Rightarrow> url \<Rightarrow> str \<Rightarrow> indexer \<Rightarrow> indexer" where
  "store_live_document_state X uri content ix = store_live_tree X uri content (set_live_lines uri content ix)"

definition handle_file_opened ::
  "externals \<Rightarrow> disk \<Rightarrow> bool \<Rightarrow> url \<Rightarrow> str \<Rightarrow> scan_handler \<times> documents \<Rightarrow> scan_handler \<times> documents" where
  "handle_file_opened X D locked uri content = (\<lambda>(h, d).
     let opened_file_path = x_url_to_file_path X uri;
         workspace_pinned = ix_workspace_pinned (sh_indexer h);
         store = map_indexer (store_live_document_state X uri content)
     in if is_extracted_jar_source X uri then (store h, d)
        else
          (let h1 = (case detect_workspace_root_switch D (current_root h) workspace_pinned opened_file_path of
                       Some root \<Rightarrow> switch_workspace_root_for_opened_document D locked root opened_file_path h
                     | None \<Rightarrow> h)
           in if is_outside_pinned_workspace_root D (current_root h1) workspace_pinned opened_file_path
              then (store h1, spawn_doc_task (OutsideIndex uri content) d)
              else (store h1, spawn_doc_task (OpenIndex uri content) d)))"

definition handle_file_saved :: "url \<Rightarrow> documents \<Rightarrow> documents" where
  "handle_file_saved uri = spawn_doc_task (SavedIndex uri)"

text \<open>The part of \<open>handle_file_closed\<close> and \<open>handle_file_deleted\<close> after the pending
  re-index is cancelled.\<close>

definition handle_file_closed :: "url \<Rightarrow> indexer \<times> documents \<Rightarrow> indexer \<times> documents" where
  "handle_file_closed uri = (\<lambda>(ix, d). (remove_live_lines uri (remove_live_tree uri ix), publish uri [] d))"

definition handle_file_deleted :: "url \<Rightarrow> indexer \<times> documents \<Rightarrow> indexer \<times> documents" where
  "handle_file_deleted uri = (\<lambda>(ix, d).
     (remove_live_lines uri (remove_live_tree uri (remove_indexed_file uri ix)), publish uri [] d))"


section \<open>The detected root\<close>

text \<open>The directories the search looks at: upwards from the file's, to the repository root.\<close>

function searched_directories :: "disk \<Rightarrow> path option \<Rightarrow> path list" where
  "searched_directories D None = []"
| "searched_directories D (Some d) =
     d # (if is_git_root D d then [] else searched_directories D (path_parent d))"
  by pat_completeness auto
termination
  by (relation "measure (\<lambda>(D, c). case c of None \<Rightarrow> 0 | Some d \<Rightarrow> Suc (length d))")
    (auto simp: path_parent_shorter split: option.split)

lemma or_else_simps [simp]: "or_else None b = b" "or_else (Some x) b = Some x" "or_else a None = a"
  by (auto simp: or_else_def split: option.split)

lemma or_else_SomeD: "or_else a b = Some x \<Longrightarrow> a = Some x \<or> b = Some x"
  by (auto simp: or_else_def split: option.splits)

lemma or_else_eq_None: "or_else a b = None \<longleftrightarrow> a = None \<and> b = None"
  by (auto simp: or_else_def split: option.split)

lemma marker_search_eq:
  "\<exists>weak'. marker_search D c strong weak =
     (or_else strong (find (\<lambda>d. has_any_marker D d STRONG_BUILD_MARKERS) (searched_directories D c)),
      find (is_git_root D) (searched_directories D c), weak')
   \<and> (find (is_git_root D) (searched_directories D c) = None \<longrightarrow>
        weak' = or_else weak (find (\<lambda>d. has_any_marker D d WEAK_BUILD_MARKERS) (searched_directories D c)))"
proof (induction D c strong weak rule: marker_search.induct)
  case (1 D strong weak)
  then show ?case by simp
next
  case (2 D directory strong weak)
  show ?case
  proof (cases "is_git_root D directory")
    case True
    then show ?thesis by (cases strong) (auto simp: Let_def)
  next
    case False
    then show ?thesis using 2 [OF refl False]
      by (cases strong; cases weak) (simp_all add: Let_def split: if_splits)
  qed
qed

lemma searched_directories_contain:
  "d \<in> set (searched_directories D c) \<Longrightarrow> c = Some p \<Longrightarrow> path_starts_with p d"
proof (induction D c arbitrary: p rule: searched_directories.induct)
  case (1 D)
  then show ?case by simp
next
  case (2 D d0)
  show ?case
  proof (cases "d = d0")
    case True
    then show ?thesis using 2 by simp
  next
    case False
    then have git: "\<not> is_git_root D d0" and d: "d \<in> set (searched_directories D (path_parent d0))"
      using 2 by (auto split: if_split_asm)
    then obtain q where q: "path_parent d0 = Some q" by (cases "path_parent d0") auto
    then have "path_starts_with q d" using 2 git d by blast
    then show ?thesis using q 2 path_parent_prefix path_starts_with_trans by blast
  qed
qed

lemma searched_directories_path:
  assumes "d \<in> set (searched_directories D (path_parent p))"
  shows "path_starts_with p d"
proof (cases "path_parent p")
  case None
  then show ?thesis using assms by simp
next
  case (Some q)
  show ?thesis
    using path_starts_with_trans [OF path_parent_prefix [OF Some] searched_directories_contain [OF assms Some]] .
qed

lemma find_mem: "find P xs = Some x \<Longrightarrow> x \<in> set xs \<and> P x"
  by (induction xs) (auto split: if_split_asm)

text \<open>The root detected for an opened file is, among the directories from the file's own up to
  the one that holds \<^verbatim>\<open>.git\<close>, the nearest with a strong build marker; without one the
  repository root; without a repository the nearest with a weak marker; and else the file's directory.
  It always contains the file, and there is one unless the path has no parent.\<close>

theorem auto_detect_workspace_root_correct:
  "auto_detect_workspace_root D p =
     or_else (find (\<lambda>d. has_any_marker D d STRONG_BUILD_MARKERS) (searched_directories D (path_parent p)))
       (or_else (find (is_git_root D) (searched_directories D (path_parent p)))
         (or_else (find (\<lambda>d. has_any_marker D d WEAK_BUILD_MARKERS) (searched_directories D (path_parent p)))
            (path_parent p)))
   \<and> (\<forall>root. auto_detect_workspace_root D p = Some root \<longrightarrow> path_starts_with p root)
   \<and> (auto_detect_workspace_root D p = None \<longleftrightarrow> path_parent p = None)"
proof (intro conjI allI impI iffI)
  let ?dirs = "searched_directories D (path_parent p)"
  let ?strong = "find (\<lambda>d. has_any_marker D d STRONG_BUILD_MARKERS) ?dirs"
    and ?git = "find (is_git_root D) ?dirs" and ?weak = "find (\<lambda>d. has_any_marker D d WEAK_BUILD_MARKERS) ?dirs"
  obtain weak where s: "marker_search D (path_parent p) None None = (?strong, ?git, weak)"
    and weak: "?git = None \<longrightarrow> weak = ?weak"
    using marker_search_eq [of D "path_parent p" None None] by auto
  show eq: "auto_detect_workspace_root D p = or_else ?strong (or_else ?git (or_else ?weak (path_parent p)))"
    using weak by (cases ?git) (simp_all add: auto_detect_workspace_root_def s)
  show "path_starts_with p root" if "auto_detect_workspace_root D p = Some root" for root
    using that unfolding eq
    by (auto dest!: or_else_SomeD dest: find_mem intro: searched_directories_path path_parent_prefix)
  show "path_parent p = None" if "auto_detect_workspace_root D p = None"
    using that unfolding eq or_else_eq_None by simp
  show "auto_detect_workspace_root D p = None" if "path_parent p = None"
    using that unfolding eq or_else_eq_None by simp
qed

lemma auto_detect_contains:
  assumes "auto_detect_workspace_root D p = Some root"
  shows "path_starts_with p root"
proof -
  let ?dirs = "searched_directories D (path_parent p)"
  obtain weak where s: "marker_search D (path_parent p) None None =
      (find (\<lambda>d. has_any_marker D d STRONG_BUILD_MARKERS) ?dirs, find (is_git_root D) ?dirs, weak)"
    and weak: "find (is_git_root D) ?dirs = None \<longrightarrow> weak = find (\<lambda>d. has_any_marker D d WEAK_BUILD_MARKERS) ?dirs"
    using marker_search_eq [of D "path_parent p" None None] by auto
  have "root \<in> set ?dirs \<or> path_parent p = Some root"
    using assms weak by (cases "find (is_git_root D) ?dirs")
      (auto simp: auto_detect_workspace_root_def s dest!: or_else_SomeD dest: find_mem)
  then show ?thesis using searched_directories_path by (auto intro: path_parent_prefix)
qed

text \<open>A repository with a build file in a module: the module is the root.\<close>

definition example_disk :: disk where
  "example_disk = empty_disk\<lparr>dk_exists := (\<lambda>p. p \<in>
     {[RootDir, Normal (lit ''r''), Normal (lit ''.git'')],
      [RootDir, Normal (lit ''r''), Normal (lit ''m''), Normal (lit ''pom.xml'')]})\<rparr>"

theorem auto_detect_workspace_root_correct_witness:
  "path_starts_with [RootDir, Normal (lit ''r''), Normal (lit ''m''), Normal (lit ''a.kt'')]
     [RootDir, Normal (lit ''r''), Normal (lit ''m'')]"
  using auto_detect_workspace_root_correct [of example_disk
      "[RootDir, Normal (lit ''r''), Normal (lit ''m''), Normal (lit ''a.kt'')]"]
  by (simp add: auto_detect_workspace_root_def path_parent_def has_any_marker_def STRONG_BUILD_MARKERS_def
      is_git_root_def path_join_def path_is_absolute_def example_disk_def empty_disk_def lit_def Let_def)


section \<open>Opening a file\<close>

lemma store_live_document_state_keeps [simp]:
  "ix_workspace_root (store_live_document_state X uri c ix) = ix_workspace_root ix"
  "ix_workspace_pinned (store_live_document_state X uri c ix) = ix_workspace_pinned ix"
  "ix_jar_phase (store_live_document_state X uri c ix) = ix_jar_phase ix"
  "ix_jar_sidecar_alive (store_live_document_state X uri c ix) = ix_jar_sidecar_alive ix"
  "ix_live_lines (store_live_document_state X uri c ix) = Mapping.update uri (str_lines c) (ix_live_lines ix)"
  "ix_files (store_live_document_state X uri c ix) = ix_files ix"
  by (simp_all add: store_live_document_state_def store_live_tree_def set_live_lines_def Let_def)

lemma switch_workspace_root_sets:
  "current_root (switch_workspace_root_for_opened_document D l root opened h) = Some root"
  "ix_workspace_pinned (sh_indexer (switch_workspace_root_for_opened_document D l root opened h))"
  by (simp_all add: switch_workspace_root_for_opened_document_def spawn_jar_indexing_def map_indexer_def Let_def
      enqueue_scan_def current_root_def generation_def is_in_progress_def sq_try_start_def sq_request_def
      execute_scan_def apply_config_def apply_ignore_patterns_def write_workspace_source_roots_def
      write_module_dependencies_def root_switch_config_def from_config_def ws_set_def bump_generation_def
      split: option.split)

lemma detected_switch_contains:
  "detect_workspace_root_switch D cur pinned opened = Some r \<Longrightarrow>
     \<exists>p. opened = Some p \<and> path_starts_with p r \<and> \<not> pinned"
  using auto_detect_contains
  by (auto simp: detect_workspace_root_switch_def Option.bind_eq_Some_conv split: if_splits)

text \<open>Opening a file stores its text as live state, whatever else happens. An extracted library
  source is not indexed; any other file gets exactly one indexing task. The workspace root changes only
  when it is not pinned, then to a directory that contains the file, and it is pinned from then on; a
  pinned root starts no scan.\<close>

theorem file_opened_routing:
  "let (h', d') = handle_file_opened X D locked uri content (h, d);
       pinned = ix_workspace_pinned (sh_indexer h)
   in Mapping.lookup (ix_live_lines (sh_indexer h')) uri = Some (str_lines content)
    \<and> do_tasks d' = do_tasks d @
        (if is_extracted_jar_source X uri then []
         else if is_outside_pinned_workspace_root D (current_root h') pinned (x_url_to_file_path X uri)
         then [OutsideIndex uri content] else [OpenIndex uri content])
    \<and> do_published d' = do_published d
    \<and> (pinned \<longrightarrow> current_root h' = current_root h \<and> sh_queue h' = sh_queue h
         \<and> sh_scan_tasks h' = sh_scan_tasks h)
    \<and> (current_root h' \<noteq> current_root h \<longrightarrow>
         (\<exists>p r. x_url_to_file_path X uri = Some p \<and> current_root h' = Some r \<and> path_starts_with p r
            \<and> ix_workspace_pinned (sh_indexer h')))"
proof (cases "is_extracted_jar_source X uri")
  case True
  then show ?thesis by (simp add: handle_file_opened_def Let_def map_indexer_def current_root_def)
next
  case False
  let ?pinned = "ix_workspace_pinned (sh_indexer h)" and ?path = "x_url_to_file_path X uri"
  let ?switch = "detect_workspace_root_switch D (current_root h) ?pinned ?path"
  let ?h1 = "case ?switch of
     Some root \<Rightarrow> switch_workspace_root_for_opened_document D locked root ?path h | None \<Rightarrow> h"
  let ?h2 = "map_indexer (store_live_document_state X uri content) ?h1"
  have root2: "current_root ?h2 = current_root ?h1" and pin2: "ix_workspace_pinned (sh_indexer ?h2) = ix_workspace_pinned (sh_indexer ?h1)"
    by (simp_all add: current_root_def map_indexer_def)
  have opened: "handle_file_opened X D locked uri content (h, d) =
     (?h2, spawn_doc_task (if is_outside_pinned_workspace_root D (current_root ?h1) ?pinned ?path
        then OutsideIndex uri content else OpenIndex uri content) d)"
    using False by (simp add: handle_file_opened_def Let_def)
  have lines: "Mapping.lookup (ix_live_lines (sh_indexer ?h2)) uri = Some (str_lines content)"
    by (simp add: map_indexer_def)
  have pinned: "?pinned \<Longrightarrow> ?h1 = h" by (simp add: detect_workspace_root_switch_def)
  have switched: "\<exists>p r. ?path = Some p \<and> current_root ?h1 = Some r \<and> path_starts_with p r
      \<and> ix_workspace_pinned (sh_indexer ?h1)" if "current_root ?h1 \<noteq> current_root h"
    using that detected_switch_contains [of D "current_root h" ?pinned ?path] switch_workspace_root_sets
    by (cases ?switch) auto
  show ?thesis
    unfolding opened Let_def prod.case root2 pin2
    using lines pinned switched False by (auto simp: spawn_doc_task_def map_indexer_def)
qed


theorem file_opened_routing_witness:
  "let h = sh_new ((indexer_new False)\<lparr>ix_workspace_pinned := True\<rparr>);
       (h', d') = handle_file_opened example_externals example_disk False (lit ''/r/m/a.kt'') (lit ''A'')
          (h, \<lparr>do_client = True, do_tasks = [], do_published = []\<rparr>)
   in current_root h' = None \<and> sh_queue h' = sq_new
    \<and> Mapping.lookup (ix_live_lines (sh_indexer h')) (lit ''/r/m/a.kt'') = Some [lit ''A'']"
proof -
  have "str_lines (lit ''A'') = [lit ''A'']" by code_simp
  then show ?thesis
    using file_opened_routing [of example_externals example_disk False "lit ''/r/m/a.kt''" "lit ''A''"
        "sh_new ((indexer_new False)\<lparr>ix_workspace_pinned := True\<rparr>)" "\<lparr>do_client = True, do_tasks = [], do_published = []\<rparr>"]
    by (simp add: Let_def case_prod_beta current_root_def sh_new_def indexer_new_def ws_new_def)
qed

end
