(* ===== verification/File_Change_Handler.thy ===== *)
theory File_Change_Handler
  imports Document_Handler
begin

text \<open>
  Edits: \<^verbatim>\<open>src/workspace/file_change_handler.rs\<close>. Every edit is visible in the live lines at
  once; re-indexing and diagnostics wait for a pause and are abandoned when a newer edit comes.

  \<open>Arc<AtomicU64>\<close> counters are numbers of cells of a store, because a task keeps its counter after
  the map has dropped it; a \<open>JoinHandle\<close> is the number of its task. \<open>abort\<close> ends a task at its
  suspension point, but a blocking closure that has been handed to the pool still runs: it is then
  detached.
\<close>

section \<open>State\<close>

datatype debounce_task =
    Sleeping url str nat "64 word"
  | Indexing url str nat "64 word"
  | Indexed url nat "64 word" "(file_data option \<times> str) option"
  | Diagnosed url nat "64 word" "diagnostic list"

record change_handler =
  fc_client :: bool
  fc_pending_reindex :: "(str, nat) hmap"
  fc_diagnostic_generation :: "(str, nat) hmap"
  fc_counters :: "64 word list"
  fc_next_task :: nat
  fc_tasks :: "(nat \<times> debounce_task) list"
  fc_detached :: "(url \<times> str) list"
  fc_tree_updates :: "(url \<times> str) list"

definition fc_new :: "bool \<Rightarrow> change_handler" where
  "fc_new client = \<lparr>fc_client = client, fc_pending_reindex = Mapping.empty,
     fc_diagnostic_generation = Mapping.empty, fc_counters = [], fc_next_task = 0, fc_tasks = [],
     fc_detached = [], fc_tree_updates = []\<rparr>"

section \<open>Edits\<close>

definition drain_file_changed_batch :: "str list \<Rightarrow> str option" where
  "drain_file_changed_batch changes = (if changes = [] then None else Some (last changes))"

text \<open>\<open>diagnostic_generation.entry(key).or_insert_with(..)\<close>.\<close>

definition generation_counter :: "str \<Rightarrow> change_handler \<Rightarrow> nat \<times> change_handler" where
  "generation_counter key f =
     (case Mapping.lookup (fc_diagnostic_generation f) key of
        Some c \<Rightarrow> (c, f)
      | None \<Rightarrow> (length (fc_counters f),
          f\<lparr>fc_counters := fc_counters f @ [0],
            fc_diagnostic_generation :=
              Mapping.update key (length (fc_counters f)) (fc_diagnostic_generation f)\<rparr>))"

definition bump_counter :: "nat \<Rightarrow> change_handler \<Rightarrow> change_handler" where
  "bump_counter c f = f\<lparr>fc_counters := (fc_counters f)[c := fc_counters f ! c + 1]\<rparr>"

definition abort_task :: "nat \<Rightarrow> change_handler \<Rightarrow> change_handler" where
  "abort_task tid f =
     f\<lparr>fc_tasks := filter (\<lambda>(i, _). i \<noteq> tid) (fc_tasks f),
       fc_detached := fc_detached f @
         List.map_filter (\<lambda>(i, t). case t of
           Indexing uri text _ _ \<Rightarrow> if i = tid then Some (uri, text) else None | _ \<Rightarrow> None) (fc_tasks f)\<rparr>"

definition remove_and_abort :: "str \<Rightarrow> change_handler \<Rightarrow> change_handler" where
  "remove_and_abort key f =
     (case Mapping.lookup (fc_pending_reindex f) key of
        None \<Rightarrow> f
      | Some tid \<Rightarrow> abort_task tid (f\<lparr>fc_pending_reindex := Mapping.delete key (fc_pending_reindex f)\<rparr>))"

definition reschedule_debounced_reindex :: "url \<Rightarrow> str \<Rightarrow> change_handler \<Rightarrow> change_handler" where
  "reschedule_debounced_reindex uri text f =
     (let f1 = f\<lparr>fc_pending_reindex :=
                Mapping.filter (\<lambda>_ tid. tid \<in> set (map fst (fc_tasks f))) (fc_pending_reindex f)\<rparr>;
          f2 = remove_and_abort uri f1;
          (c, f3) = generation_counter uri f2;
          my_generation = fc_counters f3 ! c;
          tid = fc_next_task f3
      in f3\<lparr>fc_next_task := tid + 1,
            fc_tasks := fc_tasks f3 @ [(tid, Sleeping uri text c my_generation)],
            fc_pending_reindex := Mapping.update uri tid (fc_pending_reindex f3)\<rparr>)"

definition handle_file_changed ::
  "url \<Rightarrow> str list \<Rightarrow> change_handler \<times> indexer \<Rightarrow> change_handler \<times> indexer" where
  "handle_file_changed uri changes = (\<lambda>(f, ix).
     case drain_file_changed_batch changes of
       None \<Rightarrow> (f, ix)
     | Some text \<Rightarrow>
         (let (c, f1) = generation_counter uri f;
              f2 = bump_counter c f1;
              f3 = f2\<lparr>fc_tree_updates := fc_tree_updates f2 @ [(uri, text)]\<rparr>
          in (reschedule_debounced_reindex uri text f3, set_live_lines uri text ix)))"

definition cancel_pending_reindex :: "url \<Rightarrow> change_handler \<Rightarrow> change_handler" where
  "cancel_pending_reindex uri f =
     (let f1 = remove_and_abort uri f
      in f1\<lparr>fc_diagnostic_generation := Mapping.delete uri (fc_diagnostic_generation f1)\<rparr>)"

section \<open>Tasks\<close>

definition is_open :: "indexer \<Rightarrow> url \<Rightarrow> bool" where
  "is_open ix uri \<longleftrightarrow> Mapping.lookup (ix_live_lines ix) uri \<noteq> None"

text \<open>The closure of \<open>spawn_live_tree_update\<close>.\<close>

definition live_tree_update :: "externals \<Rightarrow> url \<times> str \<Rightarrow> indexer \<Rightarrow> indexer" where
  "live_tree_update X = (\<lambda>(uri, text) ix. if is_open ix uri then store_live_tree X uri text ix else ix)"

text \<open>The blocking closure of the debounce task: what the index is after it, and what it returns;
  \<open>None\<close> when it panicked.\<close>

definition debounced_index :: "externals \<Rightarrow> url \<Rightarrow> str \<Rightarrow> indexer \<Rightarrow> indexer \<times> (file_data option \<times> str) option" where
  "debounced_index X uri text ix =
     (if \<not> is_open ix uri then (ix, Some (None, text))
      else (case index_content X uri text ix of
              Some (ix', data) \<Rightarrow> (ix', Some (data, text))
            | None \<Rightarrow> (ix, None)))"

definition compute_debounced_semantic_diagnostics ::
  "externals \<Rightarrow> doc_env \<Rightarrow> indexer \<Rightarrow> url \<Rightarrow> str \<Rightarrow> bool \<Rightarrow> diagnostic list" where
  "compute_debounced_semantic_diagnostics X V ix uri diagnostics_text text_is_current =
     de_when_diagnostics V ix uri
     @ (if parses_live X uri diagnostics_text then live_doc_diagnostics V ix uri diagnostics_text else [])
     @ (if text_is_current then option_list (de_missing_package_diagnostic V (str_lines diagnostics_text) uri)
        else [])"

definition debounced_diagnostics ::
  "externals \<Rightarrow> doc_env \<Rightarrow> indexer \<Rightarrow> url \<Rightarrow> (file_data option \<times> str) option \<Rightarrow> diagnostic list" where
  "debounced_diagnostics X V ix uri result =
     (let join_succeeded = (result \<noteq> None);
          (index_result, diagnostics_text) = (case result of Some r \<Rightarrow> r | None \<Rightarrow> (None, []));
          syntax = (case index_result of
                      Some data \<Rightarrow> de_syntax_diagnostics V (fd_syntax_errors data)
                    | None \<Rightarrow> indexed_syntax_diagnostics V ix uri)
      in syntax @ compute_debounced_semantic_diagnostics X V ix uri diagnostics_text join_succeeded)"

fun debounce_step :: "externals \<Rightarrow> doc_env \<Rightarrow> change_handler \<Rightarrow> debounce_task \<Rightarrow> indexer
   \<Rightarrow> indexer \<times> debounce_task option \<times> (url \<times> diagnostic list) option" where
  "debounce_step X V f (Sleeping uri text c my_generation) ix =
     (ix, Some (Indexing uri text c my_generation), None)"
| "debounce_step X V f (Indexing uri text c my_generation) ix =
     (let (ix', result) = debounced_index X uri text ix
      in (ix', Some (Indexed uri c my_generation result), None))"
| "debounce_step X V f (Indexed uri c my_generation result) ix =
     (if \<not> fc_client f then (ix, None, None)
      else if fc_counters f ! c \<noteq> my_generation then (ix, None, None)
      else (ix, Some (Diagnosed uri c my_generation (debounced_diagnostics X V ix uri result)), None))"
| "debounce_step X V f (Diagnosed uri c my_generation diagnostics) ix =
     (if fc_counters f ! c \<noteq> my_generation then (ix, None, None)
      else (ix, None, Some (uri, diagnostics)))"

text \<open>One step of the \<open>n\<close>-th live task.\<close>

definition run_debounce :: "externals \<Rightarrow> doc_env \<Rightarrow> nat \<Rightarrow> change_handler \<times> indexer
   \<Rightarrow> (change_handler \<times> indexer) \<times> (url \<times> diagnostic list) option" where
  "run_debounce X V n = (\<lambda>(f, ix).
     let (tid, t) = fc_tasks f ! n;
         (ix', t', published) = debounce_step X V f t ix
     in ((f\<lparr>fc_tasks := take n (fc_tasks f)
              @ (case t' of None \<Rightarrow> [] | Some u \<Rightarrow> [(tid, u)]) @ drop (Suc n) (fc_tasks f)\<rparr>, ix'), published))"

section \<open>Steps\<close>

text \<open>What happens to the open documents: edits, closing and deleting, tasks and closures, and any
  other work on the index, which opens only files that are not open.\<close>

inductive edit_step :: "externals \<Rightarrow> doc_env \<Rightarrow> change_handler \<times> indexer
   \<Rightarrow> (url \<times> diagnostic list) option \<Rightarrow> change_handler \<times> indexer \<Rightarrow> bool" for X V where
  Changed: "edit_step X V s None (handle_file_changed uri changes s)"
| Closed: "edit_step X V (f, ix) None (cancel_pending_reindex uri f,
     remove_live_lines uri (remove_live_tree uri ix))"
| Deleted: "edit_step X V (f, ix) None (cancel_pending_reindex uri f,
     remove_live_lines uri (remove_live_tree uri (remove_indexed_file uri ix)))"
| Opened: "\<not> is_open ix uri \<Longrightarrow> edit_step X V (f, ix) None (f, store_live_document_state X uri text ix)"
| Debounce: "n < length (fc_tasks f) \<Longrightarrow> run_debounce X V n (f, ix) = (s', published)
     \<Longrightarrow> edit_step X V (f, ix) published s'"
| Detached: "fc_detached f = us @ (uri, text) # vs
     \<Longrightarrow> edit_step X V (f, ix) None (f\<lparr>fc_detached := us @ vs\<rparr>, fst (debounced_index X uri text ix))"
| TreeUpdate: "fc_tree_updates f = us @ u # vs
     \<Longrightarrow> edit_step X V (f, ix) None (f\<lparr>fc_tree_updates := us @ vs\<rparr>, live_tree_update X u ix)"
| Other: "ix_live_lines ix' = ix_live_lines ix \<Longrightarrow> edit_step X V (f, ix) None (f, ix')"


section \<open>The invariant of edits\<close>

fun task_url :: "debounce_task \<Rightarrow> url" where
  "task_url (Sleeping u _ _ _) = u" | "task_url (Indexing u _ _ _) = u"
| "task_url (Indexed u _ _ _) = u" | "task_url (Diagnosed u _ _ _) = u"

fun task_counter :: "debounce_task \<Rightarrow> nat" where
  "task_counter (Sleeping _ _ c _) = c" | "task_counter (Indexing _ _ c _) = c"
| "task_counter (Indexed _ c _ _) = c" | "task_counter (Diagnosed _ c _ _) = c"

fun task_generation :: "debounce_task \<Rightarrow> 64 word" where
  "task_generation (Sleeping _ _ _ g) = g" | "task_generation (Indexing _ _ _ g) = g"
| "task_generation (Indexed _ _ g _) = g" | "task_generation (Diagnosed _ _ g _) = g"

text \<open>Tasks and the map of pending ones agree: a live task is the one its file is waiting for.\<close>

definition linked :: "change_handler \<Rightarrow> bool" where
  "linked f \<longleftrightarrow>
     (\<forall>i t. (i, t) \<in> set (fc_tasks f) \<longrightarrow>
        Mapping.lookup (fc_pending_reindex f) (task_url t) = Some i \<and> i < fc_next_task f)
   \<and> (\<forall>k i. Mapping.lookup (fc_pending_reindex f) k = Some i \<longrightarrow>
        i < fc_next_task f \<and> (\<forall>t. (i, t) \<in> set (fc_tasks f) \<longrightarrow> task_url t = k))"

lemma linked_task:
  assumes "linked f" and "(i, t) \<in> set (fc_tasks f)"
  shows "Mapping.lookup (fc_pending_reindex f) (task_url t) = Some i" and "i < fc_next_task f"
  using assms unfolding linked_def by blast+

lemma linked_pending:
  assumes "linked f" and "Mapping.lookup (fc_pending_reindex f) k = Some i"
  shows "i < fc_next_task f" and "(i, t) \<in> set (fc_tasks f) \<Longrightarrow> task_url t = k"
  using assms unfolding linked_def by blast+

text \<open>Counters of open generations exist and belong to one file; a live task's is current.\<close>

definition counted :: "change_handler \<Rightarrow> bool" where
  "counted f \<longleftrightarrow>
     (\<forall>k c. Mapping.lookup (fc_diagnostic_generation f) k = Some c \<longrightarrow> c < length (fc_counters f))
   \<and> (\<forall>k k' c. Mapping.lookup (fc_diagnostic_generation f) k = Some c
        \<and> Mapping.lookup (fc_diagnostic_generation f) k' = Some c \<longrightarrow> k = k')
   \<and> (\<forall>i t. (i, t) \<in> set (fc_tasks f) \<longrightarrow>
        Mapping.lookup (fc_diagnostic_generation f) (task_url t) = Some (task_counter t)
        \<and> fc_counters f ! task_counter t = task_generation t)"

lemma counted_task:
  assumes "counted f" and "(i, t) \<in> set (fc_tasks f)"
  shows "Mapping.lookup (fc_diagnostic_generation f) (task_url t) = Some (task_counter t)"
    and "fc_counters f ! task_counter t = task_generation t"
  using assms unfolding counted_def by blast+

text \<open>What a task has computed comes from the text the editor shows now.\<close>

definition result_current :: "externals \<Rightarrow> indexer \<Rightarrow> url \<Rightarrow> (file_data option \<times> str) option \<Rightarrow> bool" where
  "result_current X ix uri r \<longleftrightarrow> is_open ix uri
     \<and> (\<forall>d text. r = Some (d, text) \<longrightarrow> Mapping.lookup (ix_live_lines ix) uri = Some (str_lines text)
          \<and> (\<forall>data. d = Some data \<longrightarrow> fd_syntax_errors data = fd_syntax_errors (fr_data (parse_file X uri text))))"

text \<open>Diagnostics were computed on an index \<open>ix0\<close> of the past (of which \<open>H\<close> holds).\<close>

definition diagnostics_current ::
  "externals \<Rightarrow> doc_env \<Rightarrow> (indexer \<Rightarrow> bool) \<Rightarrow> indexer \<Rightarrow> url \<Rightarrow> diagnostic list \<Rightarrow> bool" where
  "diagnostics_current X V H ix uri ds \<longleftrightarrow>
     (\<exists>ix0 r. H ix0 \<and> Mapping.lookup (ix_live_lines ix0) uri = Mapping.lookup (ix_live_lines ix) uri
        \<and> ds = debounced_diagnostics X V ix0 uri r \<and> result_current X ix uri r)"

fun task_current :: "externals \<Rightarrow> doc_env \<Rightarrow> (indexer \<Rightarrow> bool) \<Rightarrow> indexer \<Rightarrow> debounce_task \<Rightarrow> bool" where
  "task_current X V H ix (Sleeping u text _ _) \<longleftrightarrow> Mapping.lookup (ix_live_lines ix) u = Some (str_lines text)"
| "task_current X V H ix (Indexing u text _ _) \<longleftrightarrow> Mapping.lookup (ix_live_lines ix) u = Some (str_lines text)"
| "task_current X V H ix (Indexed u _ _ r) \<longleftrightarrow> result_current X ix u r"
| "task_current X V H ix (Diagnosed u _ _ ds) \<longleftrightarrow> diagnostics_current X V H ix u ds"

definition edit_inv :: "externals \<Rightarrow> doc_env \<Rightarrow> (indexer \<Rightarrow> bool) \<Rightarrow> change_handler \<times> indexer \<Rightarrow> bool" where
  "edit_inv X V H = (\<lambda>(f, ix). linked f \<and> counted f
     \<and> (\<forall>i t. (i, t) \<in> set (fc_tasks f) \<longrightarrow> task_current X V H ix t))"

lemma task_current_cong:
  "Mapping.lookup (ix_live_lines ix') (task_url t) = Mapping.lookup (ix_live_lines ix) (task_url t)
     \<Longrightarrow> task_current X V H ix' t = task_current X V H ix t"
  by (cases t) (simp_all add: result_current_def diagnostics_current_def is_open_def)

lemma remove_and_abort_tasks:
  assumes "linked f"
  shows "fc_tasks (remove_and_abort uri f) = filter (\<lambda>(i, t). task_url t \<noteq> uri) (fc_tasks f)"
proof (cases "Mapping.lookup (fc_pending_reindex f) uri")
  case None
  then have "task_url t \<noteq> uri" if "(i, t) \<in> set (fc_tasks f)" for i t
    using assms that by (auto simp: linked_def)
  then have "filter (\<lambda>(i, t). task_url t \<noteq> uri) (fc_tasks f) = fc_tasks f"
    by (intro filter_True) auto
  then show ?thesis using None by (simp add: remove_and_abort_def)
next
  case (Some tid)
  have "i = tid \<longleftrightarrow> task_url t = uri" if "(i, t) \<in> set (fc_tasks f)" for i t
    using assms that Some by (auto simp: linked_def)
  then have "filter (\<lambda>(i, _). i \<noteq> tid) (fc_tasks f) = filter (\<lambda>(i, t). task_url t \<noteq> uri) (fc_tasks f)"
    by (intro filter_cong) auto
  then show ?thesis using Some by (simp add: remove_and_abort_def abort_task_def)
qed

lemma remove_and_abort_keeps [simp]:
  "fc_next_task (remove_and_abort uri f) = fc_next_task f"
  "fc_counters (remove_and_abort uri f) = fc_counters f"
  "fc_diagnostic_generation (remove_and_abort uri f) = fc_diagnostic_generation f"
  "fc_client (remove_and_abort uri f) = fc_client f"
  "Mapping.lookup (fc_pending_reindex (remove_and_abort uri f)) k
     = (if k = uri then None else Mapping.lookup (fc_pending_reindex f) k)"
  by (auto simp: remove_and_abort_def abort_task_def split: option.split)

lemma linked_remove_and_abort:
  assumes "linked f"
  shows "linked (remove_and_abort uri f)"
  unfolding linked_def
proof (intro conjI allI impI)
  fix i t assume "(i, t) \<in> set (fc_tasks (remove_and_abort uri f))"
  then have t: "(i, t) \<in> set (fc_tasks f)" "task_url t \<noteq> uri" by (auto simp: remove_and_abort_tasks [OF assms])
  then show "Mapping.lookup (fc_pending_reindex (remove_and_abort uri f)) (task_url t) = Some i"
    and "i < fc_next_task (remove_and_abort uri f)" using assms by (simp_all add: linked_def)
next
  fix k i assume k: "Mapping.lookup (fc_pending_reindex (remove_and_abort uri f)) k = Some i"
  then have "Mapping.lookup (fc_pending_reindex f) k = Some i" by (simp split: if_split_asm)
  then have i: "i < fc_next_task f" "\<And>t. (i, t) \<in> set (fc_tasks f) \<Longrightarrow> task_url t = k"
    using assms by (auto simp: linked_def)
  then show "i < fc_next_task (remove_and_abort uri f)" by simp
  show "task_url t = k" if "(i, t) \<in> set (fc_tasks (remove_and_abort uri f))" for t
    using that i(2) by (auto simp: remove_and_abort_tasks [OF assms])
qed

lemma edit_inv_cancel:
  assumes "edit_inv X V H (f, ix)"
    and "\<And>k. k \<noteq> uri \<Longrightarrow> Mapping.lookup (ix_live_lines ix') k = Mapping.lookup (ix_live_lines ix) k"
  shows "edit_inv X V H (cancel_pending_reindex uri f, ix')"
proof -
  have l: "linked f" and c: "counted f" and cur: "\<And>i t. (i, t) \<in> set (fc_tasks f) \<Longrightarrow> task_current X V H ix t"
    using assms(1) by (auto simp: edit_inv_def)
  let ?f1 = "remove_and_abort uri f" and ?f = "cancel_pending_reindex uri f"
  have tasks: "fc_tasks ?f = filter (\<lambda>(i, t). task_url t \<noteq> uri) (fc_tasks f)"
    by (simp add: cancel_pending_reindex_def Let_def remove_and_abort_tasks [OF l])
  have link: "linked ?f" using linked_remove_and_abort [OF l] by (simp add: linked_def cancel_pending_reindex_def Let_def)
  have gen: "Mapping.lookup (fc_diagnostic_generation ?f) k
      = (if k = uri then None else Mapping.lookup (fc_diagnostic_generation f) k)" for k
    by (simp add: cancel_pending_reindex_def Let_def)
  have counters: "fc_counters ?f = fc_counters f" by (simp add: cancel_pending_reindex_def Let_def)
  have "counted ?f" unfolding counted_def gen counters
  proof (intro conjI allI impI)
    show "cc < length (fc_counters f)"
      if "(if k = uri then None else Mapping.lookup (fc_diagnostic_generation f) k) = Some cc" for k cc
      using c that by (auto simp: counted_def split: if_split_asm)
    show "k = k'"
      if "(if k = uri then None else Mapping.lookup (fc_diagnostic_generation f) k) = Some cc
        \<and> (if k' = uri then None else Mapping.lookup (fc_diagnostic_generation f) k') = Some cc" for k k' cc
      using c that unfolding counted_def by (simp split: if_split_asm)
    fix i t assume "(i, t) \<in> set (fc_tasks ?f)"
    then have "(i, t) \<in> set (fc_tasks f)" "task_url t \<noteq> uri" by (auto simp: tasks)
    then show "(if task_url t = uri then None else Mapping.lookup (fc_diagnostic_generation f) (task_url t))
        = Some (task_counter t)"
      and "fc_counters f ! task_counter t = task_generation t"
      using c by (simp_all add: counted_def)
  qed
  moreover have "task_current X V H ix' t" if t: "(i, t) \<in> set (fc_tasks ?f)" for i t
proof -
    have "(i, t) \<in> set (fc_tasks f)" and "task_url t \<noteq> uri" using t by (auto simp: tasks)
    then show ?thesis using cur task_current_cong [OF assms(2)] by blast
  qed
  ultimately show ?thesis using link by (simp add: edit_inv_def)
qed

lemma edit_inv_cong:
  assumes "edit_inv X V H (f, ix)"
    and "fc_tasks f' = fc_tasks f" "fc_pending_reindex f' = fc_pending_reindex f"
      "fc_diagnostic_generation f' = fc_diagnostic_generation f" "fc_counters f' = fc_counters f"
      "fc_next_task f' = fc_next_task f"
    and "\<And>k. Mapping.lookup (ix_live_lines ix) k \<noteq> None
      \<Longrightarrow> Mapping.lookup (ix_live_lines ix') k = Mapping.lookup (ix_live_lines ix) k"
  shows "edit_inv X V H (f', ix')"
proof -
  have open_task: "Mapping.lookup (ix_live_lines ix) (task_url t) \<noteq> None" if "task_current X V H ix t" for t
    using that by (cases t) (auto simp: result_current_def diagnostics_current_def is_open_def)
  have "task_current X V H ix' t" if "task_current X V H ix t" for t
    using task_current_cong [OF assms(7) [OF open_task [OF that]]] that by blast
  then show ?thesis using assms(1) by (simp add: edit_inv_def linked_def counted_def assms(2-6))
qed

subsection \<open>An edit\<close>

text \<open>What \<open>handle_file_changed\<close> does, without its intermediate states.\<close>

lemma generation_counter_keeps [simp]:
  "fc_tasks (snd (generation_counter k f)) = fc_tasks f"
  "fc_pending_reindex (snd (generation_counter k f)) = fc_pending_reindex f"
  "fc_next_task (snd (generation_counter k f)) = fc_next_task f"
  "Mapping.lookup (fc_diagnostic_generation (snd (generation_counter k f))) k = Some (fst (generation_counter k f))"
  "k' \<noteq> k \<Longrightarrow> Mapping.lookup (fc_diagnostic_generation (snd (generation_counter k f))) k'
     = Mapping.lookup (fc_diagnostic_generation f) k'"
  by (auto simp: generation_counter_def split: option.split)

lemma generation_counter_again:
  "Mapping.lookup (fc_diagnostic_generation f) k = Some c \<Longrightarrow> generation_counter k f = (c, f)"
  by (simp add: generation_counter_def)

lemma linked_tasks_only:
  assumes "linked f" and "fc_tasks f' = fc_tasks f" and "fc_next_task f' = fc_next_task f"
    and "\<And>k i. Mapping.lookup (fc_pending_reindex f') k = Some i \<Longrightarrow> Mapping.lookup (fc_pending_reindex f) k = Some i"
    and "\<And>k i t. (i, t) \<in> set (fc_tasks f) \<Longrightarrow> Mapping.lookup (fc_pending_reindex f') (task_url t) = Some i"
  shows "linked f'"
  unfolding linked_def
proof (intro conjI allI impI)
  fix i t assume "(i, t) \<in> set (fc_tasks f')"
  then show "Mapping.lookup (fc_pending_reindex f') (task_url t) = Some i" and "i < fc_next_task f'"
    using assms linked_task [OF assms(1)] by simp_all
next
  fix k i assume "Mapping.lookup (fc_pending_reindex f') k = Some i"
  then have "Mapping.lookup (fc_pending_reindex f) k = Some i" by (rule assms(4))
  then show "i < fc_next_task f'" and "\<And>t. (i, t) \<in> set (fc_tasks f') \<Longrightarrow> task_url t = k"
    using assms(2,3) linked_pending [OF assms(1)] by simp_all
qed

lemma reschedule_eq:
  assumes "linked f" and c: "Mapping.lookup (fc_diagnostic_generation f) uri = Some c"
  shows "let f' = reschedule_debounced_reindex uri text f
     in fc_tasks f' = filter (\<lambda>(i, t). task_url t \<noteq> uri) (fc_tasks f)
          @ [(fc_next_task f, Sleeping uri text c (fc_counters f ! c))]
      \<and> fc_next_task f' = Suc (fc_next_task f)
      \<and> fc_counters f' = fc_counters f \<and> fc_diagnostic_generation f' = fc_diagnostic_generation f
      \<and> linked f'"
proof -
  let ?f1 = "f\<lparr>fc_pending_reindex :=
     Mapping.filter (\<lambda>_ tid. tid \<in> set (map fst (fc_tasks f))) (fc_pending_reindex f)\<rparr>"
  let ?f2 = "remove_and_abort uri ?f1"
  let ?t = "(fc_next_task f, Sleeping uri text c (fc_counters f ! c))"
  let ?f' = "?f2\<lparr>fc_next_task := fc_next_task f + 1, fc_tasks := fc_tasks ?f2 @ [?t],
     fc_pending_reindex := Mapping.update uri (fc_next_task f) (fc_pending_reindex ?f2)\<rparr>"
  have l1: "linked ?f1"
  proof (rule linked_tasks_only [OF assms(1)])
    fix k i t assume "(i, t) \<in> set (fc_tasks f)"
    then have "i \<in> set (map fst (fc_tasks f))"
      using imageI [of "(i, t)" "set (fc_tasks f)" fst] by simp
    with \<open>(i, t) \<in> set (fc_tasks f)\<close> show "Mapping.lookup (fc_pending_reindex ?f1) (task_url t) = Some i"
      using linked_task(1) [OF assms(1)] by (simp add: lookup_filter_map)
  qed (auto simp: lookup_filter_map split: option.splits if_split_asm)
  note l2 = linked_remove_and_abort [OF l1, of uri]
  have r: "reschedule_debounced_reindex uri text f = ?f'"
    using c by (simp add: reschedule_debounced_reindex_def Let_def generation_counter_again)
  have old: "task_url t \<noteq> uri" "(i, t) \<in> set (fc_tasks f)" if "(i, t) \<in> set (fc_tasks ?f2)" for i t
    using that unfolding remove_and_abort_tasks [OF l1] by auto
  have "linked ?f'"
    unfolding linked_def
  proof (intro conjI allI impI)
    fix i t assume t: "(i, t) \<in> set (fc_tasks ?f')"
    show "Mapping.lookup (fc_pending_reindex ?f') (task_url t) = Some i"
    proof (cases "(i, t) \<in> set (fc_tasks ?f2)")
      case True
      then have "Mapping.lookup (fc_pending_reindex ?f2) (task_url t) = Some i"
        by (rule linked_task(1) [OF l2])
      then show ?thesis using old(1) [OF True] by simp
    next
      case False
      then show ?thesis using t by simp
    qed
    show "i < fc_next_task ?f'" using t linked_task(2) [OF l2] by fastforce
  next
    fix k i assume k: "Mapping.lookup (fc_pending_reindex ?f') k = Some i"
    have new: "i < fc_next_task f" if "(i, t) \<in> set (fc_tasks ?f2)" for t
      using linked_task(2) [OF l2 that] by simp
    show "i < fc_next_task ?f'" using k linked_pending(1) [OF l2, of k i] by (auto split: if_split_asm)
    show "task_url t = k" if t: "(i, t) \<in> set (fc_tasks ?f')" for t
    proof (cases "k = uri")
      case True
      then have "i = fc_next_task f" using k by simp
      then have "(i, t) \<notin> set (fc_tasks ?f2)" using new by blast
      then show ?thesis using t True by simp
    next
      case False
      then have k2: "Mapping.lookup (fc_pending_reindex ?f2) k = Some i" using k by simp
      have "i \<noteq> fc_next_task f" using linked_pending(1) [OF l2 k2] by simp
      then have "(i, t) \<in> set (fc_tasks ?f2)" using t by simp
      then show ?thesis by (rule linked_pending(2) [OF l2 k2])
    qed
  qed
  moreover have "fc_tasks ?f2 = filter (\<lambda>(i, t). task_url t \<noteq> uri) (fc_tasks f)"
    unfolding remove_and_abort_tasks [OF l1] by simp
  ultimately show ?thesis unfolding r Let_def by simp
qed


lemma handle_file_changed_eq:
  assumes "linked f" and "counted f" and "changes \<noteq> []"
  shows "\<exists>c f'. handle_file_changed uri changes (f, ix) = (f', set_live_lines uri (last changes) ix)
    \<and> linked f' \<and> c < length (fc_counters f')
    \<and> fc_tasks f' = filter (\<lambda>(i, t). task_url t \<noteq> uri) (fc_tasks f)
        @ [(fc_next_task f, Sleeping uri (last changes) c (fc_counters f' ! c))]
    \<and> (\<forall>k c'. Mapping.lookup (fc_diagnostic_generation f) k = Some c' \<and> k \<noteq> uri \<longrightarrow>
          c' \<noteq> c \<and> c' < length (fc_counters f') \<and> fc_counters f' ! c' = fc_counters f ! c')
    \<and> (\<forall>k. Mapping.lookup (fc_diagnostic_generation f') k
          = (if k = uri then Some c else Mapping.lookup (fc_diagnostic_generation f) k))"
proof -
  obtain c f1 where g: "generation_counter uri f = (c, f1)" by fastforce
  have f1: "fc_tasks f1 = fc_tasks f" "fc_pending_reindex f1 = fc_pending_reindex f" "fc_next_task f1 = fc_next_task f"
    "Mapping.lookup (fc_diagnostic_generation f1) uri = Some c"
    "\<And>k. k \<noteq> uri \<Longrightarrow> Mapping.lookup (fc_diagnostic_generation f1) k = Mapping.lookup (fc_diagnostic_generation f) k"
    using generation_counter_keeps [where k = uri and f = f] by (auto simp: g)
  have bounded: "c' < length (fc_counters f)" if "Mapping.lookup (fc_diagnostic_generation f) k = Some c'" for k c'
    using assms(2) that by (auto simp: counted_def)
  have c: "c < length (fc_counters f1)" "\<And>c'. c' < length (fc_counters f) \<Longrightarrow> c' < length (fc_counters f1)"
    "\<And>c'. c' < length (fc_counters f) \<Longrightarrow> fc_counters f1 ! c' = fc_counters f ! c'"
    using g bounded by (auto simp: generation_counter_def nth_append split: option.splits)
  have other: "c' \<noteq> c" if "Mapping.lookup (fc_diagnostic_generation f) k = Some c'" "k \<noteq> uri" for k c'
  proof (cases "Mapping.lookup (fc_diagnostic_generation f) uri")
    case None
    then show ?thesis using g bounded [OF that(1)] by (auto simp: generation_counter_def)
  next
    case (Some d)
    then have "c = d" using g by (simp add: generation_counter_def)
    then show ?thesis using Some that assms(2) unfolding counted_def by blast
  qed
  let ?f3 = "(bump_counter c f1)\<lparr>fc_tree_updates := fc_tree_updates (bump_counter c f1) @ [(uri, last changes)]\<rparr>"
  have "linked ?f3"
    using assms(1) by (rule linked_tasks_only) (use linked_task(1) [OF assms(1)] f1 in \<open>auto simp: bump_counter_def\<close>)
  moreover have "Mapping.lookup (fc_diagnostic_generation ?f3) uri = Some c" using f1 by (simp add: bump_counter_def)
  ultimately have r: "let f' = reschedule_debounced_reindex uri (last changes) ?f3
     in fc_tasks f' = filter (\<lambda>(i, t). task_url t \<noteq> uri) (fc_tasks ?f3)
          @ [(fc_next_task ?f3, Sleeping uri (last changes) c (fc_counters ?f3 ! c))]
      \<and> fc_next_task f' = Suc (fc_next_task ?f3)
      \<and> fc_counters f' = fc_counters ?f3 \<and> fc_diagnostic_generation f' = fc_diagnostic_generation ?f3
      \<and> linked f'"
    by (rule reschedule_eq)
  let ?f' = "reschedule_debounced_reindex uri (last changes) ?f3"
  have eq: "handle_file_changed uri changes (f, ix) = (?f', set_live_lines uri (last changes) ix)"
    using assms(3) by (simp add: handle_file_changed_def drain_file_changed_batch_def g Let_def)
  have counters: "fc_counters ?f3 = (fc_counters f1)[c := fc_counters f1 ! c + 1]" by (simp add: bump_counter_def)
  have keeps: "fc_tasks ?f3 = fc_tasks f" "fc_next_task ?f3 = fc_next_task f"
    "fc_diagnostic_generation ?f3 = fc_diagnostic_generation f1" using f1 by (simp_all add: bump_counter_def)
  have nth: "fc_counters ?f3 ! c' = fc_counters f ! c'" "c' < length (fc_counters ?f3)"
    if "Mapping.lookup (fc_diagnostic_generation f) k = Some c'" "k \<noteq> uri" for k c'
    using other [OF that] bounded [OF that(1)] c by (simp_all add: counters)
  have "c < length (fc_counters ?f3)" using c by (simp add: counters)
  moreover have "\<forall>k c'. Mapping.lookup (fc_diagnostic_generation f) k = Some c' \<and> k \<noteq> uri \<longrightarrow>
      c' \<noteq> c \<and> c' < length (fc_counters ?f3) \<and> fc_counters ?f3 ! c' = fc_counters f ! c'"
    using nth other by blast
  moreover have "\<forall>k. Mapping.lookup (fc_diagnostic_generation f1) k
      = (if k = uri then Some c else Mapping.lookup (fc_diagnostic_generation f) k)"
    using f1(4,5) by simp
  moreover note r [unfolded Let_def keeps]
  ultimately have "linked ?f' \<and> c < length (fc_counters ?f')
    \<and> fc_tasks ?f' = filter (\<lambda>(i, t). task_url t \<noteq> uri) (fc_tasks f)
        @ [(fc_next_task f, Sleeping uri (last changes) c (fc_counters ?f' ! c))]
    \<and> (\<forall>k c'. Mapping.lookup (fc_diagnostic_generation f) k = Some c' \<and> k \<noteq> uri \<longrightarrow>
          c' \<noteq> c \<and> c' < length (fc_counters ?f') \<and> fc_counters ?f' ! c' = fc_counters f ! c')
    \<and> (\<forall>k. Mapping.lookup (fc_diagnostic_generation ?f') k
          = (if k = uri then Some c else Mapping.lookup (fc_diagnostic_generation f) k))"
    by (elim conjE) (intro conjI, simp_all only: simp_thms)
  then show ?thesis using eq by blast
qed

lemma edit_inv_changed:
  assumes "edit_inv X V H (f, ix)"
  shows "edit_inv X V H (handle_file_changed uri changes (f, ix))"
proof (cases "changes = []")
  case True
  then show ?thesis using assms by (simp add: handle_file_changed_def drain_file_changed_batch_def)
next
  case False
  have l: "linked f" and cnt: "counted f" and cur: "\<And>i t. (i, t) \<in> set (fc_tasks f) \<Longrightarrow> task_current X V H ix t"
    using assms by (auto simp: edit_inv_def)
  obtain c f' where eq: "handle_file_changed uri changes (f, ix) = (f', set_live_lines uri (last changes) ix)"
    and l': "linked f'" and c: "c < length (fc_counters f')"
    and tasks: "fc_tasks f' = filter (\<lambda>(i, t). task_url t \<noteq> uri) (fc_tasks f)
        @ [(fc_next_task f, Sleeping uri (last changes) c (fc_counters f' ! c))]"
    and old: "\<And>k c'. Mapping.lookup (fc_diagnostic_generation f) k = Some c' \<Longrightarrow> k \<noteq> uri \<Longrightarrow>
          c' \<noteq> c \<and> c' < length (fc_counters f') \<and> fc_counters f' ! c' = fc_counters f ! c'"
    and gen: "\<And>k. Mapping.lookup (fc_diagnostic_generation f') k
          = (if k = uri then Some c else Mapping.lookup (fc_diagnostic_generation f) k)"
    using handle_file_changed_eq [OF l cnt False, of uri ix] by blast
  have inj: "\<And>k k' c. Mapping.lookup (fc_diagnostic_generation f) k = Some c \<Longrightarrow>
      Mapping.lookup (fc_diagnostic_generation f) k' = Some c \<Longrightarrow> k = k'"
    using cnt unfolding counted_def by blast
  have live: "task_current X V H (set_live_lines uri (last changes) ix) t" if "task_current X V H ix t" "task_url t \<noteq> uri" for t
    using that task_current_cong [of "set_live_lines uri (last changes) ix" t ix X V] by (simp add: set_live_lines_def)
  have task: "t = Sleeping uri (last changes) c (fc_counters f' ! c) \<or> (i, t) \<in> set (fc_tasks f) \<and> task_url t \<noteq> uri"
    if "(i, t) \<in> set (fc_tasks f')" for i t
    using that unfolding tasks by auto
  have "counted f'"
    unfolding counted_def
  proof (intro conjI allI impI)
    show "d < length (fc_counters f')" if "Mapping.lookup (fc_diagnostic_generation f') k = Some d" for k d
    proof (cases "k = uri")
      case True
      then show ?thesis using that c by (simp add: gen)
    next
      case False
      then show ?thesis using that old [of k d] by (simp add: gen)
    qed
    show "k = k'" if "Mapping.lookup (fc_diagnostic_generation f') k = Some d
        \<and> Mapping.lookup (fc_diagnostic_generation f') k' = Some d" for k k' d
      using that old [of k d] old [of k' d] inj [of k d k'] by (simp add: gen split: if_split_asm)
    fix i t assume t: "(i, t) \<in> set (fc_tasks f')"
    show "Mapping.lookup (fc_diagnostic_generation f') (task_url t) = Some (task_counter t)"
      using task [OF t] counted_task(1) [OF cnt, of i t] by (auto simp: gen)
    show "fc_counters f' ! task_counter t = task_generation t"
    proof (cases "t = Sleeping uri (last changes) c (fc_counters f' ! c)")
      case True
      show ?thesis by (subst (1 2) True) simp
    next
      case False
      then have o: "(i, t) \<in> set (fc_tasks f)" "task_url t \<noteq> uri" using task [OF t] by auto
      show ?thesis using old [OF counted_task(1) [OF cnt o(1)] o(2)] counted_task(2) [OF cnt o(1)] by simp
    qed
  qed
  moreover have "task_current X V H (set_live_lines uri (last changes) ix) t" if t: "(i, t) \<in> set (fc_tasks f')" for i t
    using task [OF t] cur live by (auto simp: set_live_lines_def)
  ultimately show ?thesis using l' by (simp add: eq edit_inv_def)
qed


subsection \<open>A task's step\<close>

lemma index_content_live_lines:
  assumes "index_content X u c ix = Some (ix', d)"
  shows "ix_live_lines ix' = ix_live_lines ix"
  using assms
  by (auto simp: index_content_def apply_file_result_def remove_stale_for_uri_def apply_contributions_def
      commit_contributions_def invalidate_completion_cache_def bind_eq_Some_conv Let_def
      split: if_splits option.splits)

lemma index_content_syntax_errors:
  assumes "index_content X u c ix = Some (ix', Some d)"
  shows "fd_syntax_errors d = fd_syntax_errors (fr_data (parse_file X u c))"
  using assms
  by (auto simp: index_content_def with_classified_source_set_def bind_eq_Some_conv Let_def split: if_splits)

lemma debounced_index_keeps:
  assumes "debounced_index X uri text ix = (ix', r)"
  shows "ix_live_lines ix' = ix_live_lines ix" and "\<And>d s. r = Some (d, s) \<Longrightarrow> s = text"
    and "\<And>data s. r = Some (Some data, s) \<Longrightarrow> fd_syntax_errors data = fd_syntax_errors (fr_data (parse_file X uri text))"
  using assms index_content_live_lines index_content_syntax_errors by (auto simp: debounced_index_def split: if_splits option.splits)

text \<open>What every step of a task keeps, and what it may publish.\<close>

definition debounce_ok :: "externals \<Rightarrow> doc_env \<Rightarrow> (indexer \<Rightarrow> bool) \<Rightarrow> change_handler \<Rightarrow> debounce_task \<Rightarrow> indexer
   \<Rightarrow> indexer \<times> debounce_task option \<times> (url \<times> diagnostic list) option \<Rightarrow> bool" where
  "debounce_ok X V H f t ix = (\<lambda>(ix', t', published).
     ix_live_lines ix' = ix_live_lines ix
   \<and> (\<forall>u. t' = Some u \<longrightarrow> task_url u = task_url t \<and> task_counter u = task_counter t
        \<and> task_generation u = task_generation t \<and> task_current X V H ix' u)
   \<and> (\<forall>uri ds. published = Some (uri, ds) \<longrightarrow> uri = task_url t \<and> diagnostics_current X V H ix uri ds
        \<and> fc_counters f ! task_counter t = task_generation t))"

lemma debounce_step_ok:
  assumes "task_current X V H ix t" and "H ix"
  shows "debounce_ok X V H f t ix (debounce_step X V f t ix)"
proof (cases t)
  case (Sleeping uri content c g)
  then show ?thesis using assms by (simp add: debounce_ok_def)
next
  case (Indexing uri content c g)
  obtain ix1 r where d: "debounced_index X uri content ix = (ix1, r)" by fastforce
  show ?thesis using assms debounced_index_keeps [OF d] unfolding Indexing
    by (auto simp: d debounce_ok_def result_current_def is_open_def)
next
  case (Indexed uri c g r)
  then show ?thesis using assms by (auto simp: debounce_ok_def diagnostics_current_def)
next
  case (Diagnosed uri c g ds)
  then show ?thesis using assms by (simp add: debounce_ok_def)
qed

lemma edit_inv_debounce:
  assumes "edit_inv X V H (f, ix)" and "n < length (fc_tasks f)"
    and "run_debounce X V n (f, ix) = ((f', ix'), published)" and "H ix"
  shows "edit_inv X V H (f', ix')
    \<and> (\<forall>uri ds. published = Some (uri, ds) \<longrightarrow> diagnostics_current X V H ix uri ds
        \<and> Mapping.lookup (fc_diagnostic_generation f) uri \<noteq> None)"
proof -
  have l: "linked f" and cnt: "counted f" and cur: "\<And>i t. (i, t) \<in> set (fc_tasks f) \<Longrightarrow> task_current X V H ix t"
    using assms(1) by (auto simp: edit_inv_def)
  obtain tid t where nth: "fc_tasks f ! n = (tid, t)" by fastforce
  then have mem: "(tid, t) \<in> set (fc_tasks f)" using assms(2) nth_mem by metis
  obtain ix1 t' p where step: "debounce_step X V f t ix = (ix1, t', p)" by (metis prod_cases3)
  let ?new = "case t' of None \<Rightarrow> [] | Some u \<Rightarrow> [(tid, u)]"
  have eqs: "ix' = ix1" "published = p" and f': "f' = f\<lparr>fc_tasks := take n (fc_tasks f) @ ?new @ drop (Suc n) (fc_tasks f)\<rparr>"
    using assms(3) by (auto simp: run_debounce_def nth step)
  have ok: "ix_live_lines ix' = ix_live_lines ix"
    "\<And>u. t' = Some u \<Longrightarrow> task_url u = task_url t \<and> task_counter u = task_counter t
        \<and> task_generation u = task_generation t \<and> task_current X V H ix' u"
    "\<And>uri ds. published = Some (uri, ds) \<Longrightarrow> uri = task_url t \<and> diagnostics_current X V H ix uri ds"
    using debounce_step_ok [OF cur [OF mem] assms(4), of f] by (auto simp: step debounce_ok_def eqs)
  have task: "(i, u) \<in> set (fc_tasks f) \<or> i = tid \<and> t' = Some u" if "(i, u) \<in> set (fc_tasks f')" for i u
    using that by (auto simp: f' dest: in_set_takeD in_set_dropD split: option.splits)
  have "linked f'"
    unfolding linked_def
  proof (intro conjI allI impI)
    fix i u assume "(i, u) \<in> set (fc_tasks f')"
    then show "Mapping.lookup (fc_pending_reindex f') (task_url u) = Some i" and "i < fc_next_task f'"
      using task [of i u] linked_task [OF l] mem ok(2) by (auto simp: f')
  next
    fix k i assume "Mapping.lookup (fc_pending_reindex f') k = Some i"
    then have k: "Mapping.lookup (fc_pending_reindex f) k = Some i" by (simp add: f')
    show "i < fc_next_task f'" using linked_pending(1) [OF l k] by (simp add: f')
    show "task_url u = k" if "(i, u) \<in> set (fc_tasks f')" for u
      using task [OF that] linked_pending(2) [OF l k] mem ok(2) by auto
  qed
  moreover have "counted f'"
    unfolding counted_def
  proof (intro conjI allI impI)
    show "d < length (fc_counters f')" if "Mapping.lookup (fc_diagnostic_generation f') k = Some d" for k d
      using that cnt by (simp add: f' counted_def)
    show "k = k'" if "Mapping.lookup (fc_diagnostic_generation f') k = Some d
        \<and> Mapping.lookup (fc_diagnostic_generation f') k' = Some d" for k k' d
      using that cnt unfolding counted_def f' by auto
    fix i u assume "(i, u) \<in> set (fc_tasks f')"
    then show "Mapping.lookup (fc_diagnostic_generation f') (task_url u) = Some (task_counter u)"
      and "fc_counters f' ! task_counter u = task_generation u"
      using task [of i u] counted_task [OF cnt] mem ok(2) by (auto simp: f')
  qed
  moreover have "task_current X V H ix' u" if "(i, u) \<in> set (fc_tasks f')" for i u
    using task [OF that] cur ok(2) task_current_cong [of ix' u ix X V H] by (auto simp: ok(1))
  ultimately show ?thesis
    using ok(3) counted_task(1) [OF cnt mem] by (auto simp: edit_inv_def)
qed

lemma edit_inv_step:
  assumes "edit_step X V s published s'" and "edit_inv X V H s" and "H (snd s)"
  shows "edit_inv X V H s'
    \<and> (\<forall>uri ds. published = Some (uri, ds) \<longrightarrow> diagnostics_current X V H (snd s) uri ds)"
  using assms(1)
proof cases
  case (Changed uri changes)
  then show ?thesis using edit_inv_changed assms(2) by (cases s) simp
next
  case (Closed f ix uri)
  then show ?thesis using edit_inv_cancel assms(2) by (simp add: remove_live_lines_def remove_live_tree_def)
next
  case (Deleted f ix uri)
  then show ?thesis using edit_inv_cancel assms(2)
    by (simp add: remove_live_lines_def remove_live_tree_def remove_indexed_file_def)
next
  case (Opened ix uri f content)
  have "Mapping.lookup (ix_live_lines (store_live_document_state X uri content ix)) k = Mapping.lookup (ix_live_lines ix) k"
    if "Mapping.lookup (ix_live_lines ix) k \<noteq> None" for k
    using that Opened by (auto simp: is_open_def)
  then show ?thesis using edit_inv_cong [of X V H f ix f "store_live_document_state X uri content ix"] assms(2) Opened
    by simp
next
  case (Debounce n f ix)
  then show ?thesis using edit_inv_debounce assms(2,3) by (cases s') auto
next
  case (Detached f us uri content vs ix)
  have "ix_live_lines (fst (debounced_index X uri content ix)) = ix_live_lines ix"
    using debounced_index_keeps(1) [of X uri content ix] by (metis prod.collapse)
  then show ?thesis using edit_inv_cong [of X V H f ix "f\<lparr>fc_detached := us @ vs\<rparr>"] assms(2) Detached by simp
next
  case (TreeUpdate f us u vs ix)
  have "ix_live_lines (live_tree_update X u ix) = ix_live_lines ix"
    by (simp add: live_tree_update_def store_live_tree_def Let_def split: prod.split)
  then show ?thesis using edit_inv_cong [of X V H f ix "f\<lparr>fc_tree_updates := us @ vs\<rparr>"] assms(2) TreeUpdate by simp
next
  case (Other ix' ix f)
  then show ?thesis using edit_inv_cong [of X V H f ix f] assms(2) by simp
qed


section \<open>Properties\<close>

definition edit_reachable :: "externals \<Rightarrow> doc_env \<Rightarrow> bool \<Rightarrow> indexer \<Rightarrow> change_handler \<times> indexer \<Rightarrow> bool" where
  "edit_reachable X V client ix0 s \<longleftrightarrow> (\<lambda>a b. \<exists>p. edit_step X V a p b)\<^sup>*\<^sup>* (fc_new client, ix0) s"

lemma edit_reachable_inv:
  assumes "edit_reachable X V client ix0 s"
  shows "edit_inv X V (\<lambda>ix. \<exists>f. edit_reachable X V client ix0 (f, ix)) s"
  using assms unfolding edit_reachable_def
proof (induction rule: rtranclp_induct)
  case base
  show ?case by (simp add: edit_inv_def linked_def counted_def fc_new_def)
next
  case (step s s')
  have "\<exists>f. (\<lambda>a b. \<exists>p. edit_step X V a p b)\<^sup>*\<^sup>* (fc_new client, ix0) (f, snd s)"
    using step.hyps(1) by (intro exI [of _ "fst s"]) simp
  then show ?case using edit_inv_step [OF _ step.IH] step.hyps(2) by blast
qed


definition silent_env :: doc_env where
  "silent_env = \<lparr>de_syntax_diagnostics = \<lambda>_. [], de_when_diagnostics = \<lambda>_ _. [],
     de_call_arg_diagnostics = \<lambda>_ _ _. [], de_nullable_dot_call_diagnostics = \<lambda>_ _ _. [],
     de_missing_import_diagnostics = \<lambda>_ _ _. [], de_unused_import_diagnostics = \<lambda>d. [d],
     de_missing_package_diagnostic = \<lambda>_ _. None, de_ensure_jar_materialized = \<lambda>_ ix. ix,
     de_prewarm_completion_cache = \<lambda>_ ix. ix\<rparr>"

text \<open>For the witnesses: one edit of a file that is already indexed with the edited text.\<close>

definition example_index :: "url \<Rightarrow> str \<Rightarrow> indexer" where
  "example_index uri content = (indexer_new False)\<lparr>ix_content_hashes := Mapping.update uri (hash_str content) Mapping.empty\<rparr>"

definition example_edit :: "url \<Rightarrow> str \<Rightarrow> change_handler \<times> indexer" where
  "example_edit uri content = handle_file_changed uri [content] (fc_new True, example_index uri content)"

lemma example_edit_fields:
  "fc_tasks (fst (example_edit u b)) = [(0, Sleeping u b 0 1)]" "fc_counters (fst (example_edit u b)) = [1]"
  "fc_client (fst (example_edit u b))" "snd (example_edit u b) = set_live_lines u b (example_index u b)"
  by (simp_all add: example_edit_def handle_file_changed_def drain_file_changed_batch_def generation_counter_def
      fc_new_def bump_counter_def reschedule_debounced_reindex_def remove_and_abort_def Let_def
      lookup_filter_map)

lemma example_edit_reachable: "edit_reachable X V True (example_index u b) (example_edit u b)"
  unfolding edit_reachable_def example_edit_def by (rule r_into_rtranclp) (blast intro: edit_step.Changed)




text \<open>Closing or deleting a file ends everything that was pending for it: no task of the file is
  left, and an indexing closure or tree update that had already been handed to the pool finds the file
  not open and leaves the index as it is. Other files keep their tasks.\<close>

theorem closed_file_stays_silent:
  assumes "edit_reachable X V client ix0 (f, ix)"
  shows "let f' = cancel_pending_reindex uri f; ix' = remove_live_lines uri (remove_live_tree uri ix)
     in fc_tasks f' = filter (\<lambda>(i, t). task_url t \<noteq> uri) (fc_tasks f)
      \<and> Mapping.lookup (fc_pending_reindex f') uri = None
      \<and> (\<forall>content. debounced_index X uri content ix' = (ix', Some (None, content))
           \<and> live_tree_update X (uri, content) ix' = ix')"
proof -
  have "linked f" using edit_reachable_inv [OF assms] by (simp add: edit_inv_def)
  moreover have "\<not> is_open (remove_live_lines uri (remove_live_tree uri ix)) uri"
    by (simp add: is_open_def remove_live_lines_def)
  ultimately show ?thesis
    by (simp add: Let_def cancel_pending_reindex_def remove_and_abort_tasks debounced_index_def live_tree_update_def)
qed

theorem closed_file_stays_silent_witness:
  "fc_tasks (cancel_pending_reindex (lit ''a.kt'') (fst (example_edit (lit ''a.kt'') (lit ''A'')))) = []"
proof -
  let ?e = "example_edit (lit ''a.kt'') (lit ''A'')"
  have "edit_reachable example_externals silent_env True (example_index (lit ''a.kt'') (lit ''A'')) (fst ?e, snd ?e)"
    unfolding prod.collapse by (rule example_edit_reachable)
  from closed_file_stays_silent [OF this, of "lit ''a.kt''"] show ?thesis
    unfolding Let_def by (simp add: example_edit_fields(1))
qed

text \<open>An indexing closure is not stopped by a newer edit: when an edit comes while the closure of
  the previous one is with the pool, the closure stays, and whenever it runs while the file is open
  (after the newer text has been indexed, too) the index afterwards holds the older text, although the
  live lines are the newer one's.\<close>

theorem aborted_closure_reindexes_old_text:
  assumes "linked f" and "(tid, Indexing uri old c g) \<in> set (fc_tasks f)"
    and "handle_file_changed uri [new] (f, ix) = (f', ix')"
    and "index_inv X ix2" and "x_url_parse X uri = Some uri" and "can_intern (ix_file_table ix2) uri"
    and "is_open ix2 uri"
  shows "(uri, old) \<in> set (fc_detached f') \<and> Mapping.lookup (ix_live_lines ix') uri = Some (str_lines new)
    \<and> Mapping.lookup (ix_content_hashes (fst (debounced_index X uri old ix2))) uri = Some (hash_str old)"
proof -
  have "\<exists>ix3 r. index_content X uri old ix2 = Some (ix3, r)
      \<and> Mapping.lookup (ix_content_hashes ix3) uri = Some (hash_str old)"
  proof (cases "Mapping.lookup (ix_content_hashes ix2) uri = Some (hash_str old)")
    case True
    then show ?thesis by (simp add: index_content_def)
  next
    case False
    from index_content_props [OF assms(4-6) False] show ?thesis by fastforce
  qed
  then have hash: "Mapping.lookup (ix_content_hashes (fst (debounced_index X uri old ix2))) uri = Some (hash_str old)"
    using assms(7) by (auto simp: debounced_index_def)
  obtain c1 f1 where g: "generation_counter uri f = (c1, f1)" by fastforce
  have f1: "fc_tasks f1 = fc_tasks f" "fc_pending_reindex f1 = fc_pending_reindex f"
    using generation_counter_keeps [where k = uri and f = f] by (auto simp: g)
  have pending: "Mapping.lookup (fc_pending_reindex f) uri = Some tid"
    using linked_task(1) [OF assms(1,2)] by simp
  have tid: "tid \<in> fst ` set (fc_tasks f)" using imageI [OF assms(2), of fst] by simp
  have detached: "(uri, old) \<in> set (List.map_filter (\<lambda>(i, t). case t of
           Indexing u w _ _ \<Rightarrow> if i = tid then Some (u, w) else None | _ \<Rightarrow> None) (fc_tasks f))"
    using assms(2) by (force simp: set_map_filter)
  have "fc_detached (snd (generation_counter uri h)) = fc_detached h" for h
    by (simp add: generation_counter_def split: option.split)
  then have "(uri, old) \<in> set (fc_detached f')"
    using assms(3) detached tid pending f1
    by (auto simp: handle_file_changed_def drain_file_changed_batch_def g reschedule_debounced_reindex_def
        bump_counter_def remove_and_abort_def abort_task_def lookup_filter_map case_prod_beta Let_def)
  moreover have "ix' = set_live_lines uri new ix"
    using assms(3) by (auto simp: handle_file_changed_def drain_file_changed_batch_def g Let_def)
  ultimately show ?thesis using hash by (simp add: set_live_lines_def)
qed


theorem aborted_closure_reindexes_old_text_witness:
  "let f = (fst (example_edit (lit ''a.kt'') (lit ''A'')))\<lparr>fc_tasks := [(0, Indexing (lit ''a.kt'') (lit ''A'') 0 1)]\<rparr>
   in (lit ''a.kt'', lit ''A'') \<in> set (fc_detached (fst (handle_file_changed (lit ''a.kt'') [lit ''B''] (f, indexer_new False))))"
proof -
  let ?u = "lit ''a.kt''" and ?a = "lit ''A''" and ?b = "lit ''B''"
  let ?f = "(fst (example_edit ?u ?a))\<lparr>fc_tasks := [(0, Indexing ?u ?a 0 1)]\<rparr>"
  let ?ix = "set_live_lines ?u ?b (indexer_new False)"
  have "linked ?f"
    by (auto simp: linked_def example_edit_def handle_file_changed_def drain_file_changed_batch_def
        generation_counter_def fc_new_def bump_counter_def reschedule_debounced_reindex_def remove_and_abort_def
        lookup_filter_map Let_def split: if_split_asm)
  moreover obtain f' ix' where "handle_file_changed ?u [?b] (?f, indexer_new False) = (f', ix')" by fastforce
  moreover have "index_inv example_externals ?ix"
    using index_inv_new [of example_externals False]
    by (simp add: index_inv_def files_registered_def maps_match_def set_live_lines_def)
  moreover have "can_intern (ix_file_table ?ix) ?u" by (simp add: set_live_lines_def)
  moreover have "is_open ?ix ?u" by (simp add: is_open_def set_live_lines_def)
  ultimately show ?thesis
    using aborted_closure_reindexes_old_text [of ?f 0 ?u ?a 0 1 ?b "indexer_new False" f' ix' example_externals ?ix]
    by (simp add: Let_def)
qed

end
