(* ===== verification/Actor.thy ===== *)
theory Actor
  imports Scan_Props File_Change_Handler
begin

text \<open>
  The workspace actor: \<^verbatim>\<open>src/workspace/actor.rs\<close>. One message at a time it changes the
  scan handler, the pending edits and the documents, and it notices when the workspace becomes ready.

  The actor's turns and the steps of the tasks it spawned form a step relation. What the scan handler
  goes through in it is a run of \<open>scan_step\<close>, so that the invariants of \<open>Scan_Props\<close> hold for the
  composed system.
\<close>

section \<open>The actor\<close>

record actor =
  ac_scan :: scan_handler
  ac_changes :: change_handler
  ac_documents :: documents
  ac_was_ready :: bool

definition actor_new :: "indexer \<Rightarrow> bool \<Rightarrow> actor" where
  "actor_new ix client = \<lparr>ac_scan = sh_new ix, ac_changes = fc_new client,
     ac_documents = \<lparr>do_client = client, do_tasks = [], do_published = []\<rparr>, ac_was_ready = False\<rparr>"

definition is_ready :: "actor \<Rightarrow> bool" where
  "is_ready a \<longleftrightarrow> ready (sh_state (ac_scan a)) \<noteq> None \<and> \<not> is_scanning (ac_scan a)"

definition actor_index :: "actor \<Rightarrow> indexer" where
  "actor_index a = sh_indexer (ac_scan a)"

text \<open>Another part of the server works on the shared index.\<close>

definition with_index :: "indexer \<Rightarrow> actor \<Rightarrow> actor" where
  "with_index ix a = a\<lparr>ac_scan := (ac_scan a)\<lparr>sh_indexer := ix\<rparr>\<rparr>"

definition on_became_ready :: "externals \<Rightarrow> actor \<Rightarrow> actor" where
  "on_became_ready X a =
     a\<lparr>ac_documents := republish_open_file_diagnostics X (actor_index a) (ac_documents a)\<rparr>"

definition handle_event :: "externals \<Rightarrow> disk \<Rightarrow> bool \<Rightarrow> event \<Rightarrow> actor \<Rightarrow> actor" where
  "handle_event X D locked e a =
     (case e of
        Initialize c tx \<Rightarrow> a\<lparr>ac_scan := handle_initialize D locked c tx (ac_scan a)\<rparr>
      | Reindex \<Rightarrow> a\<lparr>ac_scan := handle_reindex locked (ac_scan a)\<rparr>
      | ChangeRoot root \<Rightarrow> a\<lparr>ac_scan := handle_change_root D locked root (ac_scan a)\<rparr>
      | FileOpened uri _ content \<Rightarrow>
          (let (h, d) = handle_file_opened X D locked uri content (ac_scan a, ac_documents a)
           in a\<lparr>ac_scan := h, ac_documents := d\<rparr>)
      | FileChanged uri changes \<Rightarrow>
          (let (f, ix) = handle_file_changed uri changes (ac_changes a, actor_index a)
           in with_index ix (a\<lparr>ac_changes := f\<rparr>))
      | FileSaved uri \<Rightarrow> a\<lparr>ac_documents := handle_file_saved uri (ac_documents a)\<rparr>
      | FileClosed uri \<Rightarrow>
          (let (ix, d) = handle_file_closed uri (actor_index a, ac_documents a)
           in with_index ix (a\<lparr>ac_changes := cancel_pending_reindex uri (ac_changes a), ac_documents := d\<rparr>))
      | FileDeleted uri \<Rightarrow>
          (let (ix, d) = handle_file_deleted uri (actor_index a, ac_documents a)
           in with_index ix (a\<lparr>ac_changes := cancel_pending_reindex uri (ac_changes a), ac_documents := d\<rparr>)))"

datatype message = EventMsg event | ScanDoneMsg | JarDoneMsg

text \<open>One turn of the loop of \<open>run\<close>, with whether it called \<open>on_became_ready\<close>. Receiving takes
  the message off its channel.\<close>

definition receive :: "message \<Rightarrow> actor \<Rightarrow> actor option" where
  "receive m a =
     (case m of
        EventMsg _ \<Rightarrow> Some a
      | ScanDoneMsg \<Rightarrow>
          (case sh_scan_done (ac_scan a) of
             0 \<Rightarrow> None | Suc n \<Rightarrow> Some (a\<lparr>ac_scan := (ac_scan a)\<lparr>sh_scan_done := n\<rparr>\<rparr>))
      | JarDoneMsg \<Rightarrow>
          (case sh_jar_done (ac_scan a) of
             0 \<Rightarrow> None | Suc n \<Rightarrow> Some (a\<lparr>ac_scan := (ac_scan a)\<lparr>sh_jar_done := n\<rparr>\<rparr>)))"

definition handle_message :: "externals \<Rightarrow> disk \<Rightarrow> bool \<Rightarrow> message \<Rightarrow> actor \<Rightarrow> actor" where
  "handle_message X D locked m a =
     (case m of
        EventMsg e \<Rightarrow> handle_event X D locked e a
      | ScanDoneMsg \<Rightarrow> a\<lparr>ac_scan := on_scan_completed (ac_scan a)\<rparr>
      | JarDoneMsg \<Rightarrow>
          a\<lparr>ac_documents := republish_open_file_diagnostics X (actor_index a) (ac_documents a)\<rparr>)"

definition notice_readiness :: "externals \<Rightarrow> actor \<Rightarrow> actor \<times> bool" where
  "notice_readiness X a =
     (let is_ready = is_ready a;
          fires = \<not> ac_was_ready a \<and> is_ready;
          a' = (if fires then on_became_ready X a else a)
      in (a'\<lparr>ac_was_ready := is_ready\<rparr>, fires))"

definition actor_turn :: "externals \<Rightarrow> disk \<Rightarrow> bool \<Rightarrow> message \<Rightarrow> actor \<Rightarrow> (actor \<times> bool) option" where
  "actor_turn X D locked m a =
     map_option (\<lambda>a1. notice_readiness X (handle_message X D locked m a1)) (receive m a)"

section \<open>Steps\<close>

inductive actor_step :: "externals \<Rightarrow> disk \<Rightarrow> scan_env \<Rightarrow> doc_env \<Rightarrow> actor \<Rightarrow> bool \<Rightarrow> actor \<Rightarrow> bool"
  for X D E V where
  Turn: "actor_turn X D locked m a = Some (a', fired)
    \<Longrightarrow> actor_step X D E V a fired a'"
| ScanTaskStart: "sh_scan_tasks (ac_scan a) = us @ ScanSpawned args # vs
    \<Longrightarrow> scan_task_start args (ac_scan a) = (h, t)
    \<Longrightarrow> actor_step X D E V a False (a\<lparr>ac_scan := h\<lparr>sh_scan_tasks := us @ task_list t @ vs\<rparr>\<rparr>)"
| ScanTaskFinish: "sh_scan_tasks (ac_scan a) = us @ ScanRunning args # vs
    \<Longrightarrow> actor_step X D E V a False
          (a\<lparr>ac_scan := (scan_task_finish E args (ac_scan a))\<lparr>sh_scan_tasks := us @ vs\<rparr>\<rparr>)"
| JarTask: "sh_jar_tasks (ac_scan a) = us @ j # vs \<Longrightarrow> jar_task_step D E j (ac_scan a) = (h, t)
    \<Longrightarrow> actor_step X D E V a False (a\<lparr>ac_scan := h\<lparr>sh_jar_tasks := us @ task_list t @ vs\<rparr>\<rparr>)"
| DocTask: "do_tasks (ac_documents a) = us @ t # vs
    \<Longrightarrow> doc_task_step X V D t (actor_index a, (ac_documents a)) = ((ix, d), ts)
    \<Longrightarrow> actor_step X D E V a False (with_index ix (a\<lparr>ac_documents := d\<lparr>do_tasks := us @ ts @ vs\<rparr>\<rparr>))"
| DebounceTask: "n < length (fc_tasks (ac_changes a))
    \<Longrightarrow> run_debounce X V n (ac_changes a, actor_index a) = ((f, ix), published)
    \<Longrightarrow> actor_step X D E V a False (with_index ix (a\<lparr>ac_changes := f,
          ac_documents := (case published of None \<Rightarrow> ac_documents a
             | Some (uri, ds) \<Rightarrow> publish uri ds (ac_documents a))\<rparr>))"
| DetachedClosure: "fc_detached (ac_changes a) = us @ (uri, content) # vs
    \<Longrightarrow> actor_step X D E V a False (with_index (fst (debounced_index X uri content (actor_index a)))
          (a\<lparr>ac_changes := (ac_changes a)\<lparr>fc_detached := us @ vs\<rparr>\<rparr>))"
| TreeClosure: "fc_tree_updates (ac_changes a) = us @ u # vs
    \<Longrightarrow> actor_step X D E V a False (with_index (live_tree_update X u (actor_index a))
          (a\<lparr>ac_changes := (ac_changes a)\<lparr>fc_tree_updates := us @ vs\<rparr>\<rparr>))"

definition actor_reachable :: "externals \<Rightarrow> disk \<Rightarrow> scan_env \<Rightarrow> doc_env \<Rightarrow> bool \<Rightarrow> bool \<Rightarrow> actor \<Rightarrow> bool" where
  "actor_reachable X D E V sidecar client a \<longleftrightarrow>
     (\<lambda>a b. \<exists>fired. actor_step X D E V a fired b)\<^sup>*\<^sup>* (actor_new (indexer_new sidecar) client) a"

text \<open>Materializing a JAR and prewarming a cache leave the workspace root and the JAR phase alone.\<close>

definition doc_env_ok :: "doc_env \<Rightarrow> bool" where
  "doc_env_ok V \<longleftrightarrow>
     (\<forall>n ix. ix_workspace_root (de_ensure_jar_materialized V n ix) = ix_workspace_root ix
        \<and> ix_jar_phase (de_ensure_jar_materialized V n ix) = ix_jar_phase ix)
   \<and> (\<forall>u ix. ix_workspace_root (de_prewarm_completion_cache V u ix) = ix_workspace_root ix
        \<and> ix_jar_phase (de_prewarm_completion_cache V u ix) = ix_jar_phase ix)"


section \<open>The scan handler inside the actor\<close>

definition same_lifecycle :: "indexer \<Rightarrow> indexer \<Rightarrow> bool" where
  "same_lifecycle ix ix' \<longleftrightarrow>
     ix_workspace_root ix' = ix_workspace_root ix \<and> ix_jar_phase ix' = ix_jar_phase ix"

lemma same_lifecycle_refl [simp]: "same_lifecycle ix ix"
  by (simp add: same_lifecycle_def)

lemma same_lifecycle_trans: "same_lifecycle a b \<Longrightarrow> same_lifecycle b c \<Longrightarrow> same_lifecycle a c"
  by (simp add: same_lifecycle_def)

lemma index_content_lifecycle:
  assumes "index_content X u c ix = Some (ix', d)"
  shows "same_lifecycle ix ix' \<and> ix_jar_sidecar_alive ix' = ix_jar_sidecar_alive ix"
  using assms
  by (auto simp: same_lifecycle_def index_content_def apply_file_result_def remove_stale_for_uri_def
      apply_contributions_def commit_contributions_def invalidate_completion_cache_def bind_eq_Some_conv Let_def
      split: if_splits option.splits)

lemma debounced_index_lifecycle:
  "debounced_index X u c ix = (ix', r) \<Longrightarrow>
     same_lifecycle ix ix' \<and> ix_jar_sidecar_alive ix' = ix_jar_sidecar_alive ix"
  using index_content_lifecycle by (auto simp: debounced_index_def split: if_splits option.splits)

lemma promote_file_imports_lifecycle:
  assumes "doc_env_ok V"
  shows "same_lifecycle ix (promote_file_imports V uri ix)"
proof -
  have "same_lifecycle ix (fold (\<lambda>i. de_ensure_jar_materialized V (ie_local_name i)) is ix)" for "is" :: "import_entry list"
  proof (induction "is" arbitrary: ix)
    case (Cons i "is")
    have "same_lifecycle ix (de_ensure_jar_materialized V (ie_local_name i) ix)"
      using assms by (simp add: doc_env_ok_def same_lifecycle_def)
    then show ?case using Cons same_lifecycle_trans by simp
  qed simp
  then show ?thesis by (simp add: promote_file_imports_def split: option.split)
qed

lemma fold_promote_lifecycle:
  "doc_env_ok V \<Longrightarrow> same_lifecycle ix (fold (promote_file_imports V) uris ix)"
proof (induction uris arbitrary: ix)
  case (Cons u uris)
  then show ?case using promote_file_imports_lifecycle same_lifecycle_trans by simp blast
qed simp

lemma doc_task_step_lifecycle:
  assumes "doc_env_ok V" and "doc_task_step X V D t (ix, d) = ((ix', d'), ts)"
  shows "same_lifecycle ix ix'"
proof (cases t)
  case (OpenPromote uri content data)
  have "same_lifecycle (promote_file_imports V uri ix) ix'"
    using assms OpenPromote by (auto simp: doc_env_ok_def same_lifecycle_def)
  then show ?thesis using promote_file_imports_lifecycle [OF assms(1)] same_lifecycle_trans by blast
next
  case (RepublishPromote uris)
  then show ?thesis using assms fold_promote_lifecycle by auto
qed (use assms index_content_lifecycle in \<open>auto split: option.splits\<close>)

lemma index_scan_step:
  assumes "same_lifecycle (sh_indexer h) ix"
  shows "scan_step D E h (h\<lparr>sh_indexer := ix\<rparr>)"
  using assms by (intro scan_step.Background background_step.IndexStep) (simp_all add: same_lifecycle_def)

lemma handle_file_opened_scan_steps:
  "(scan_step D E)\<^sup>*\<^sup>* h (fst (handle_file_opened X D locked uri content (h, d)))"
proof -
  have store: "scan_step D E k (map_indexer (store_live_document_state X uri content) k)" for k
    unfolding map_indexer_def by (rule index_scan_step) (simp_all add: same_lifecycle_def)
  have switch: "(scan_step D E)\<^sup>*\<^sup>* h (case detect_workspace_root_switch D r p o' of
      Some root \<Rightarrow> switch_workspace_root_for_opened_document D locked root o' h | None \<Rightarrow> h)" for r p o'
    by (auto intro: scan_step.SwitchRootStep split: option.split)
  show ?thesis
    using store switch rtranclp.rtrancl_into_rtrancl
    by (simp add: handle_file_opened_def Let_def) (blast intro: rtranclp.rtrancl_into_rtrancl)
qed

lemma with_index_scan: "ac_scan (with_index ix a) = (ac_scan a)\<lparr>sh_indexer := ix\<rparr>"
  by (simp add: with_index_def)

lemma handle_event_scan_steps:
  "(scan_step D E)\<^sup>*\<^sup>* (ac_scan a) (ac_scan (handle_event X D locked e a))"
proof (cases e)
  case (FileOpened uri l content)
  then show ?thesis
    using handle_file_opened_scan_steps [of D E "ac_scan a" X locked uri content "ac_documents a"]
    by (simp add: handle_event_def case_prod_beta)
next
  case (FileChanged uri changes)
  have "same_lifecycle (actor_index a) (snd (handle_file_changed uri changes (ac_changes a, actor_index a)))
      \<and> ix_jar_sidecar_alive (snd (handle_file_changed uri changes (ac_changes a, actor_index a)))
        = ix_jar_sidecar_alive (actor_index a)"
    by (simp add: handle_file_changed_def set_live_lines_def same_lifecycle_def Let_def case_prod_beta
        split: option.split)
  then show ?thesis unfolding FileChanged handle_event_def event.case
    by (auto simp: case_prod_beta with_index_scan actor_index_def intro!: r_into_rtranclp index_scan_step)
next
  case (FileClosed uri)
  show ?thesis unfolding FileClosed handle_event_def event.case
    by (auto simp: case_prod_beta with_index_scan actor_index_def handle_file_closed_def same_lifecycle_def
        remove_live_lines_def remove_live_tree_def intro!: r_into_rtranclp index_scan_step)
next
  case (FileDeleted uri)
  show ?thesis unfolding FileDeleted handle_event_def event.case
    by (auto simp: case_prod_beta with_index_scan actor_index_def handle_file_deleted_def same_lifecycle_def
        remove_live_lines_def remove_live_tree_def remove_indexed_file_def
        intro!: r_into_rtranclp index_scan_step)
qed (auto simp: handle_event_def intro!: r_into_rtranclp scan_step.intros(2-5))


lemma receive_scan:
  "receive m a = Some a1 \<Longrightarrow> is_ready a1 = is_ready a \<and> ac_was_ready a1 = ac_was_ready a
     \<and> ac_documents a1 = ac_documents a"
  by (auto simp: receive_def is_ready_def is_scanning_def split: message.splits nat.splits)

lemma notice_readiness_scan [simp]: "ac_scan (fst (notice_readiness X a)) = ac_scan a"
  by (simp add: notice_readiness_def on_became_ready_def Let_def)

lemma actor_turn_scan_steps:
  assumes "actor_turn X D locked m a = Some (a', fired)"
  shows "(scan_step D E)\<^sup>*\<^sup>* (ac_scan a) (ac_scan a')"
proof -
  obtain a1 where rec: "receive m a = Some a1" and a': "(a', fired) = notice_readiness X (handle_message X D locked m a1)"
    using assms by (auto simp: actor_turn_def)
  then have scan: "ac_scan a' = ac_scan (handle_message X D locked m a1)"
    by (metis fst_conv notice_readiness_scan)
  show ?thesis
  proof (cases m)
    case (EventMsg e)
    then have "a1 = a" using rec by (simp add: receive_def)
    then show ?thesis using handle_event_scan_steps EventMsg by (simp add: scan handle_message_def)
  next
    case ScanDoneMsg
    then obtain n where "sh_scan_done (ac_scan a) = Suc n" and "ac_scan a1 = (ac_scan a)\<lparr>sh_scan_done := n\<rparr>"
      using rec by (auto simp: receive_def split: nat.splits)
    then show ?thesis using scan_step.Background [OF background_step.Internal, OF scan_internal.ScanDone] ScanDoneMsg
      by (auto simp: scan handle_message_def)
  next
    case JarDoneMsg
    then obtain n where "sh_jar_done (ac_scan a) = Suc n" and "ac_scan a1 = (ac_scan a)\<lparr>sh_jar_done := n\<rparr>"
      using rec by (auto simp: receive_def split: nat.splits)
    then show ?thesis using scan_step.Background [OF background_step.JarDone] JarDoneMsg by (auto simp: scan handle_message_def)
  qed
qed

lemma actor_step_scan_steps:
  assumes "actor_step X D E V a fired a'" and "doc_env_ok V"
  shows "(scan_step D E)\<^sup>*\<^sup>* (ac_scan a) (ac_scan a')"
  using assms(1)
proof cases
  case (Turn locked m)
  then show ?thesis using actor_turn_scan_steps by blast
next
  case (ScanTaskStart us args vs h t)
  then show ?thesis using scan_step.Background [OF background_step.Internal, OF scan_internal.TaskStart] by simp blast
next
  case (ScanTaskFinish us args vs)
  then show ?thesis using scan_step.Background [OF background_step.Internal, OF scan_internal.TaskFinish] by simp blast
next
  case (JarTask us j vs h t)
  then show ?thesis using scan_step.Background [OF background_step.JarStep] by simp blast
next
  case (DocTask us t vs ix d ts)
  have "same_lifecycle (actor_index a) ix" using doc_task_step_lifecycle [OF assms(2) DocTask(4)] .
  then show ?thesis using DocTask
    by (auto simp: with_index_scan actor_index_def intro!: r_into_rtranclp index_scan_step)
next
  case (DebounceTask n f ix published)
  obtain i t where t: "fc_tasks (ac_changes a) ! n = (i, t)" by fastforce
  have "same_lifecycle (actor_index a) ix \<and> ix_jar_sidecar_alive ix = ix_jar_sidecar_alive (actor_index a)"
    using DebounceTask(4) debounced_index_lifecycle
    by (cases t) (auto simp: run_debounce_def t split: prod.splits if_splits)
  then show ?thesis using DebounceTask
    by (auto simp: with_index_scan actor_index_def intro!: r_into_rtranclp index_scan_step)
next
  case (DetachedClosure us uri content vs)
  obtain ix r where "debounced_index X uri content (actor_index a) = (ix, r)" by fastforce
  then show ?thesis using DetachedClosure debounced_index_lifecycle
    by (auto simp: with_index_scan actor_index_def intro!: r_into_rtranclp index_scan_step)
next
  case (TreeClosure us u vs)
  have "same_lifecycle ix (live_tree_update X u ix) \<and>
      ix_jar_sidecar_alive (live_tree_update X u ix) = ix_jar_sidecar_alive ix" for ix
    by (simp add: same_lifecycle_def live_tree_update_def store_live_tree_def Let_def split: prod.split)
  then show ?thesis using TreeClosure
    by (auto simp: with_index_scan actor_index_def intro!: r_into_rtranclp index_scan_step)
qed

lemma actor_reachable_scan:
  assumes "actor_reachable X D E V sidecar client a" and "doc_env_ok V"
  shows "reachable D E sidecar (ac_scan a)"
  using assms(1) unfolding actor_reachable_def reachable_def
proof (induction rule: rtranclp_induct)
  case base
  show ?case by (simp add: actor_new_def)
next
  case (step a a')
  then show ?case using actor_step_scan_steps [OF _ assms(2)] rtranclp_trans by meson
qed

section \<open>Properties\<close>

text \<open>C6 The actor with all its tasks refines the scan handler's step relation: whatever it does in a
  step, its scan handler goes through a run of scan-handler steps, and every state of the scan handler
  it reaches is one that relation reaches from the initial state. So its invariants hold in the
  composed system: one scan, one JAR task, no phase in progress without one. Scans,
  materializing a JAR and prewarming a cache leave the workspace root and the JAR phase alone, the JAR
  indexers the root.\<close>

theorem actor_refines_scan_handler:
  assumes "env_ok E" and "doc_env_ok V" and "actor_reachable X D E V sidecar client a"
  shows "reachable D E sidecar (ac_scan a)
    \<and> (\<forall>fired a'. actor_step X D E V a fired a' \<longrightarrow> (scan_step D E)\<^sup>*\<^sup>* (ac_scan a) (ac_scan a'))
    \<and> scan_inv (ac_scan a) \<and> jar_inv (ac_scan a)"
  using actor_reachable_scan [OF assms(3,2)] actor_step_scan_steps [OF _ assms(2)]
    reachable_inv [OF assms(1)] by blast

lemma silent_env_ok [simp]: "doc_env_ok silent_env"
  by (simp add: doc_env_ok_def silent_env_def)

definition example_actor :: actor where
  "example_actor = fst (the (actor_turn example_externals empty_disk False
     (EventMsg (Initialize (example_config [RootDir]) None)) (actor_new (indexer_new True) True)))"

lemma example_actor_reachable:
  "actor_reachable example_externals empty_disk E V True True example_actor"
proof -
  let ?m = "EventMsg (Initialize (example_config [RootDir]) None)"
  let ?a = "actor_new (indexer_new True) True"
  obtain a' f where t: "actor_turn example_externals empty_disk False ?m ?a = Some (a', f)"
    by (cases "actor_turn example_externals empty_disk False ?m ?a") (auto simp: actor_turn_def receive_def)
  then have "actor_step example_externals empty_disk E V ?a f a'" by (intro actor_step.Turn) simp_all
  then show ?thesis unfolding actor_reachable_def example_actor_def t by auto
qed

theorem actor_refines_scan_handler_witness: "scan_inv (ac_scan example_actor) \<and> jar_inv (ac_scan example_actor)"
  using actor_refines_scan_handler [OF idle_env_ok silent_env_ok example_actor_reachable] by blast

subsection \<open>Becoming ready\<close>

lemma actor_was_ready:
  assumes "actor_reachable X D E V sidecar client a" and "env_ok E"
  shows "ac_was_ready a = is_ready a"
  using assms(1) unfolding actor_reachable_def
proof (induction rule: rtranclp_induct)
  case base
  show ?case by (simp add: actor_new_def is_ready_def sh_new_def ready_def)
next
  case (step a a')
  then obtain fired where "actor_step X D E V a fired a'" by blast
  then show ?case using step.IH
  proof cases
    case (Turn locked m)
    then show ?thesis
      by (auto simp: actor_turn_def notice_readiness_def on_became_ready_def is_ready_def Let_def)
  next
    case (ScanTaskStart us args vs h t)
    then show ?thesis using step.IH scan_task_start_cases(1,8) [OF ScanTaskStart(4)]
      by (simp add: is_ready_def is_scanning_def)
  next
    case (ScanTaskFinish us args vs)
    then show ?thesis using step.IH scan_task_finish_keeps(1,6) [OF assms(2)]
      by (simp add: is_ready_def is_scanning_def)
  next
    case (JarTask us j vs h t)
    have "jar_step_ok (ac_scan a) (h, t)" using jar_task_step_ok [OF assms(2)] JarTask(4) by metis
    then show ?thesis using JarTask step.IH by (simp add: jar_step_ok_def is_ready_def is_scanning_def)
  qed (simp_all add: is_ready_def is_scanning_def with_index_def)
qed

text \<open>C7 \<open>on_became_ready\<close> runs exactly when the workspace turns from not ready to ready: never
  while it stays ready and never missed. At that moment no scan runs, waits or is about to report, and
  one task is spawned that republishes the diagnostics of every open file.\<close>

theorem became_ready_exactly_once:
  assumes "env_ok E" and "doc_env_ok V" and "actor_reachable X D E V sidecar client a"
    and "actor_step X D E V a fired a'"
  shows "(fired \<longleftrightarrow> \<not> is_ready a \<and> is_ready a')
    \<and> (fired \<longrightarrow> sh_queue (ac_scan a') = sq_new \<and> sh_scan_tasks (ac_scan a') = []
         \<and> sh_scan_done (ac_scan a') = 0
         \<and> last (do_tasks (ac_documents a'))
             = RepublishPromote (List.map_filter (x_url_parse X) (sorted_keys (ix_live_trees (actor_index a')))))"
proof -
  have reach: "actor_reachable X D E V sidecar client a'"
    using assms(3) unfolding actor_reachable_def
    by (rule rtranclp.rtrancl_into_rtrancl) (use assms(4) in blast)
  have was: "ac_was_ready a = is_ready a" "ac_was_ready a' = is_ready a'"
    using actor_was_ready assms(1,3) reach by blast+
  have inv: "scan_inv (ac_scan a')" using reachable_inv [OF assms(1) actor_reachable_scan [OF reach assms(2)]] ..
  have idle: "sh_queue (ac_scan a') = sq_new \<and> sh_scan_tasks (ac_scan a') = [] \<and> sh_scan_done (ac_scan a') = 0"
    if "is_ready a'"
  proof -
    have "\<not> sq_in_progress (sh_queue (ac_scan a'))" using that by (simp add: is_ready_def is_scanning_def is_in_progress_def)
    moreover from this have "sq_pending (sh_queue (ac_scan a')) = None"
      using inv by (cases "sq_pending (sh_queue (ac_scan a'))") (auto simp: scan_inv_def)
    ultimately show ?thesis using inv by (simp add: scan_inv_def sq_new_def)
  qed
  show ?thesis
    using assms(4)
  proof cases
    case (Turn locked m)
    obtain a1 where rec: "receive m a = Some a1"
      and a': "(a', fired) = notice_readiness X (handle_message X D locked m a1)"
      using Turn by (auto simp: actor_turn_def)
    have "handle_message X D locked m a1 = b \<Longrightarrow> ac_was_ready b = ac_was_ready a" for b
      using receive_scan [OF rec]
      by (auto simp: handle_message_def handle_event_def with_index_def case_prod_beta Let_def
          split: message.splits event.splits)
    then have "fired \<longleftrightarrow> \<not> is_ready a \<and> is_ready a'"
      and "fired \<Longrightarrow> ac_documents a' = republish_open_file_diagnostics X (actor_index a')
             (ac_documents (handle_message X D locked m a1))"
      using a' was(1) by (auto simp: notice_readiness_def on_became_ready_def is_ready_def actor_index_def Let_def)
    then show ?thesis using idle
      by (auto simp: republish_open_file_diagnostics_def spawn_doc_task_def)
  qed (use was in \<open>simp_all add: with_index_def\<close>)
qed


theorem became_ready_exactly_once_witness:
  "\<exists>fired a'. actor_step example_externals empty_disk idle_env silent_env example_actor fired a'
     \<and> (fired \<longleftrightarrow> \<not> is_ready example_actor \<and> is_ready a')"
proof -
  obtain a' fired where "actor_turn example_externals empty_disk True (EventMsg (FileSaved (lit ''a.kt''))) example_actor
      = Some (a', fired)"
    by (cases "actor_turn example_externals empty_disk True (EventMsg (FileSaved (lit ''a.kt''))) example_actor")
      (auto simp: actor_turn_def receive_def)
  moreover have "sh_jar_indexing_in_progress (ac_scan example_actor)"
    by (simp add: example_actor_def actor_turn_def receive_def handle_message_def handle_event_def actor_new_def
        handle_initialize_def case_prod_beta spawn_jar_indexing_def Let_def)
      (simp add: map_indexer_def sh_new_def indexer_new_def)
  ultimately have "actor_step example_externals empty_disk idle_env silent_env example_actor fired a'"
    by (intro actor_step.Turn) simp_all
  then show ?thesis
    using became_ready_exactly_once [OF idle_env_ok silent_env_ok example_actor_reachable] by blast
qed

end
