(* ===== verification/Cache.thy ===== *)
theory Cache
  imports Apply
begin

text \<open>
  The on-disk index cache: \<^verbatim>\<open>src/indexer/cache.rs\<close>. The workspace cache is one file,
  replaced by a rename; the library cache is a directory of chunks with a manifest, which is deleted
  first and written last.

  The files of the cache directory are a \<open>store\<close> from paths to bytes. How each file operation
  ends is part of the environment \<open>cache_env\<close>: it succeeds, fails (a failed write may leave a
  part of the bytes), or the process dies in it. \<open>bincode\<close>, SHA-256, environment variables and
  the metadata of source files are the other fields of \<open>cache_env\<close>. Hash maps are iterated in
  key order.
\<close>

section \<open>Data\<close>

definition CACHE_VERSION :: "32 word" where
  "CACHE_VERSION = 35"

record file_cache_entry =
  en_mtime_secs :: "64 word"
  en_file_size :: "64 word"
  en_content_hash :: "64 word"
  en_file_data :: file_data
  en_qualified_keys :: "(str \<times> lsp_range) list"

record index_cache =
  ic_version :: "32 word"
  ic_complete_scan :: bool
  ic_entries :: "(str, file_cache_entry) hmap"

definition LIBRARY_CHUNK_SIZE :: nat where
  "LIBRARY_CHUNK_SIZE = 2000"

definition MAX_LIBRARY_CHUNKS :: "32 word" where
  "MAX_LIBRARY_CHUNKS = 10000"

record library_manifest =
  lm_version :: "32 word"
  lm_chunk_count :: "32 word"

section \<open>The environment\<close>

type_synonym bytes = "nat list"
type_synonym store = "(path, bytes) hmap"

text \<open>\<open>md_modified\<close>: nanoseconds since the Unix epoch, where \<open>modified()\<close> is
  supported.\<close>

record file_meta =
  md_modified :: "int option"
  md_len :: "64 word"

datatype write_outcome = Wrote | OpenFailed | WriteFailed nat | DiedBeforeOpen | DiedWriting nat

datatype action_outcome = Done | Failed | DiedBefore | DiedAfter

datatype io_status = IoOk | IoErr | IoDead

record cache_env =
  ce_xdg_cache_home :: "str option"
  ce_home_dir :: "path option"
  ce_canonicalize :: "path \<Rightarrow> path option"
  ce_sha256 :: "bytes \<Rightarrow> bytes"
  ce_metadata :: "path \<Rightarrow> file_meta option"
  ce_manifest_modified :: "path \<Rightarrow> int option"
  ce_encode :: "index_cache \<Rightarrow> bytes option"
  ce_decode :: "bytes \<Rightarrow> index_cache option"
  ce_encode_manifest :: "library_manifest \<Rightarrow> bytes option"
  ce_decode_manifest :: "bytes \<Rightarrow> library_manifest option"
  ce_create_dir_all :: "path \<Rightarrow> action_outcome"
  ce_write :: "path \<Rightarrow> write_outcome"
  ce_rename :: "path \<Rightarrow> action_outcome"
  ce_remove :: "path \<Rightarrow> action_outcome"

text \<open>\<open>std::fs::write\<close>, \<open>rename\<close>, \<open>remove_file\<close> and
  \<open>create_dir_all\<close>.\<close>

definition fs_write :: "cache_env \<Rightarrow> path \<Rightarrow> bytes \<Rightarrow> store \<Rightarrow> store \<times> io_status" where
  "fs_write E p b s =
     (case ce_write E p of
        Wrote \<Rightarrow> (Mapping.update p b s, IoOk)
      | OpenFailed \<Rightarrow> (s, IoErr)
      | WriteFailed n \<Rightarrow> (Mapping.update p (take n b) s, IoErr)
      | DiedBeforeOpen \<Rightarrow> (s, IoDead)
      | DiedWriting n \<Rightarrow> (Mapping.update p (take n b) s, IoDead))"

definition fs_rename :: "cache_env \<Rightarrow> path \<Rightarrow> path \<Rightarrow> store \<Rightarrow> store \<times> io_status" where
  "fs_rename E p q s =
     (case Mapping.lookup s p of
        None \<Rightarrow> (s, IoErr)
      | Some b \<Rightarrow>
          (let moved = Mapping.update q b (Mapping.delete p s)
           in case ce_rename E p of
                Done \<Rightarrow> (moved, IoOk) | Failed \<Rightarrow> (s, IoErr)
              | DiedBefore \<Rightarrow> (s, IoDead) | DiedAfter \<Rightarrow> (moved, IoDead)))"

definition fs_remove :: "cache_env \<Rightarrow> path \<Rightarrow> store \<Rightarrow> store \<times> io_status" where
  "fs_remove E p s =
     (if Mapping.lookup s p = None then (s, if ce_remove E p \<in> {DiedBefore, DiedAfter} then IoDead else IoErr)
      else case ce_remove E p of
             Done \<Rightarrow> (Mapping.delete p s, IoOk) | Failed \<Rightarrow> (s, IoErr)
           | DiedBefore \<Rightarrow> (s, IoDead) | DiedAfter \<Rightarrow> (Mapping.delete p s, IoDead))"

definition fs_create_dir_all :: "cache_env \<Rightarrow> path \<Rightarrow> io_status" where
  "fs_create_dir_all E p =
     (case ce_create_dir_all E p of Done \<Rightarrow> IoOk | Failed \<Rightarrow> IoErr | DiedBefore \<Rightarrow> IoDead | DiedAfter \<Rightarrow> IoDead)"

text \<open>\<open>m.modified().ok()?.duration_since(UNIX_EPOCH).ok()?.as_secs()\<close>.\<close>

definition modified_secs :: "file_meta \<Rightarrow> 64 word option" where
  "modified_secs m =
     (case md_modified m of
        None \<Rightarrow> None
      | Some ns \<Rightarrow> if ns < 0 then None else Some (of_int (ns div 1000000000)))"

section \<open>Paths\<close>

definition xdg_cache_base :: "cache_env \<Rightarrow> path" where
  "xdg_cache_base E =
     (case ce_xdg_cache_home E of
        Some d \<Rightarrow> path_of_str d
      | None \<Rightarrow>
          (let home = (case ce_home_dir E of Some h \<Rightarrow> h | None \<Rightarrow> path_of_str (lit ''/tmp''))
           in path_join home [Normal (lit ''.cache'')]))"

text \<open>\<open>u64::from_be_bytes(digest[..8])\<close>.\<close>

definition digest_prefix :: "bytes \<Rightarrow> 64 word" where
  "digest_prefix digest = foldl (\<lambda>w b. w * 256 + of_nat b) 0 (take 8 digest)"

definition workspace_cache_path :: "cache_env \<Rightarrow> path \<Rightarrow> path" where
  "workspace_cache_path E root =
     (let canonical = (case ce_canonicalize E root of Some p \<Rightarrow> p | None \<Rightarrow> root);
          root_hash = digest_prefix (ce_sha256 E (utf8_bytes (path_to_str canonical)))
      in path_join (path_join (path_join (xdg_cache_base E) [Normal (lit ''kmp-lsp'')])
           [Normal (hex16 root_hash)]) [Normal (lit ''index.bin'')])"

text \<open>\<open>path.with_extension(ext)\<close>.\<close>

definition with_extension :: "path \<Rightarrow> str \<Rightarrow> path" where
  "with_extension p ext =
     (case path_file_stem p of
        None \<Rightarrow> p
      | Some stem \<Rightarrow> butlast p @ [Normal (stem @ lit ''.'' @ ext)])"

definition library_chunks_dir :: "cache_env \<Rightarrow> str list \<Rightarrow> path" where
  "library_chunks_dir E source_paths =
     (let input = concat (map (\<lambda>p. utf8_bytes p @ [0]) (sort source_paths));
          hash = digest_prefix (ce_sha256 E input)
      in path_join (path_join (xdg_cache_base E) [Normal (lit ''kmp-lsp'')])
           [Normal (lit ''library-'' @ hex16 hash @ lit ''-chunks'')])"

definition library_manifest_path :: "path \<Rightarrow> path" where
  "library_manifest_path dir = path_join dir [Normal (lit ''manifest.bin'')]"

definition library_chunk_path :: "path \<Rightarrow> nat \<Rightarrow> path" where
  "library_chunk_path dir chunk_number =
     path_join dir [Normal (lit ''chunk-'' @ zero_padded 4 (decimal chunk_number) @ lit ''.bin'')]"

section \<open>The workspace cache\<close>

definition try_load_cache :: "cache_env \<Rightarrow> store \<Rightarrow> path \<Rightarrow> index_cache option" where
  "try_load_cache E s root =
     (case Mapping.lookup s (workspace_cache_path E root) of
        None \<Rightarrow> None
      | Some bytes \<Rightarrow>
          (case ce_decode E bytes of
             None \<Rightarrow> None
           | Some cache \<Rightarrow> if ic_version cache \<noteq> CACHE_VERSION then None else Some cache))"

definition cache_entry_to_file_result :: "url \<Rightarrow> file_cache_entry \<Rightarrow> file_index_result" where
  "cache_entry_to_file_result uri e =
     (let data = en_file_data e
      in \<lparr>fr_uri = uri, fr_data = data, fr_supertypes = derive_supertypes uri data,
          fr_content_hash = en_content_hash e, fr_error = None\<rparr>)"

definition meta_mtime :: "file_meta option \<Rightarrow> 64 word" where
  "meta_mtime meta = (case Option.bind meta modified_secs of Some t \<Rightarrow> t | None \<Rightarrow> 0)"

definition meta_size :: "file_meta option \<Rightarrow> 64 word" where
  "meta_size meta = (case meta of Some m \<Rightarrow> md_len m | None \<Rightarrow> 0)"

definition cache_entry_of :: "cache_env \<Rightarrow> path \<Rightarrow> 64 word option \<Rightarrow> file_data \<Rightarrow> str option \<Rightarrow> file_cache_entry" where
  "cache_entry_of E p hash d file_stem =
     \<lparr>en_mtime_secs = meta_mtime (ce_metadata E p), en_file_size = meta_size (ce_metadata E p),
      en_content_hash = (case hash of Some h \<Rightarrow> h | None \<Rightarrow> 0), en_file_data = d,
      en_qualified_keys = build_qualified_keys d file_stem\<rparr>"

text \<open>The body of the loop over \<open>files\<close>.\<close>

definition save_cache_entry ::
  "externals \<Rightarrow> cache_env \<Rightarrow> indexer \<Rightarrow> str \<times> file_data \<Rightarrow> (str, file_cache_entry) hmap \<Rightarrow> (str, file_cache_entry) hmap" where
  "save_cache_entry X E ix = (\<lambda>(uri_str, d) entries.
     if uri_str \<in> ix_library_uris ix then entries
     else case x_url_parse X uri_str of
            None \<Rightarrow> entries
          | Some url \<Rightarrow>
              (case x_url_to_file_path X url of
                 None \<Rightarrow> entries
               | Some p \<Rightarrow>
                   Mapping.update (path_to_str p)
                     (cache_entry_of E p (Mapping.lookup (ix_content_hashes ix) uri_str) d
                        (file_stem_from_uri X url)) entries))"

definition cache_of_index :: "externals \<Rightarrow> cache_env \<Rightarrow> indexer \<Rightarrow> bool \<Rightarrow> index_cache" where
  "cache_of_index X E ix complete_scan =
     \<lparr>ic_version = CACHE_VERSION, ic_complete_scan = complete_scan,
      ic_entries = fold (save_cache_entry X E ix) (entries_of (ix_files ix)) Mapping.empty\<rparr>"

text \<open>The end of \<open>save_cache\<close>: write a sibling and rename it.\<close>

definition write_and_rename :: "cache_env \<Rightarrow> path \<Rightarrow> bytes \<Rightarrow> store \<Rightarrow> store" where
  "write_and_rename E cache_path bytes s =
     (let tmp_path = with_extension cache_path (lit ''bin.tmp'');
          (s1, st1) = fs_write E tmp_path bytes s;
          (s2, st2) = (if st1 = IoOk then fs_rename E tmp_path cache_path s1 else (s1, st1))
      in if st2 = IoErr then fst (fs_remove E tmp_path s2) else s2)"

definition save_cache ::
  "externals \<Rightarrow> cache_env \<Rightarrow> path \<Rightarrow> indexer \<Rightarrow> bool \<Rightarrow> bool \<Rightarrow> store \<Rightarrow> store" where
  "save_cache X E root ix complete_scan allow_shrink s =
     (let cache_path = workspace_cache_path E root;
          dir_status = (case path_parent cache_path of
                          Some parent \<Rightarrow> fs_create_dir_all E parent | None \<Rightarrow> IoOk)
      in if dir_status \<noteq> IoOk then s
         else case ce_encode E (cache_of_index X E ix complete_scan) of
                None \<Rightarrow> s
              | Some bytes \<Rightarrow>
                  if \<not> allow_shrink
                     \<and> (case Mapping.lookup s cache_path of
                          Some old \<Rightarrow> length old > length bytes | None \<Rightarrow> False)
                  then s
                  else write_and_rename E cache_path bytes s)"

section \<open>The library cache\<close>

definition try_load_library_manifest :: "cache_env \<Rightarrow> store \<Rightarrow> str list \<Rightarrow> (path \<times> nat) option" where
  "try_load_library_manifest E s source_paths =
     (let dir = library_chunks_dir E source_paths
      in case Option.bind (Mapping.lookup s (library_manifest_path dir)) (ce_decode_manifest E) of
           None \<Rightarrow> None
         | Some manifest \<Rightarrow>
             if lm_version manifest \<noteq> CACHE_VERSION then None
             else if lm_chunk_count manifest > MAX_LIBRARY_CHUNKS then None
             else if lm_chunk_count manifest > 0 \<and> Mapping.lookup s (library_chunk_path dir 0) = None then None
             else Some (dir, unat (lm_chunk_count manifest)))"

definition load_library_chunk :: "cache_env \<Rightarrow> store \<Rightarrow> path \<Rightarrow> nat \<Rightarrow> (str, file_cache_entry) hmap option" where
  "load_library_chunk E s dir chunk_number =
     (case Option.bind (Mapping.lookup s (library_chunk_path dir chunk_number)) (ce_decode E) of
        None \<Rightarrow> None
      | Some cache \<Rightarrow> if ic_version cache \<noteq> CACHE_VERSION then None else Some (ic_entries cache))"

text \<open>\<open>iter.step_by(n)\<close>.\<close>

fun step_by :: "nat \<Rightarrow> 'a list \<Rightarrow> 'a list" where
  "step_by n [] = []"
| "step_by n (x # xs) = x # step_by n (drop (n - 1) xs)"

definition entry_fresh :: "cache_env \<Rightarrow> str \<times> file_cache_entry \<Rightarrow> bool" where
  "entry_fresh E = (\<lambda>(path_str, e).
     case ce_metadata E (path_of_str path_str) of
       None \<Rightarrow> False
     | Some m \<Rightarrow>
         (case modified_secs m of Some t \<Rightarrow> t = en_mtime_secs e | None \<Rightarrow> False)
         \<and> md_len m = en_file_size e)"

definition sample_entries :: "'a list \<Rightarrow> nat \<Rightarrow> 'a list" where
  "sample_entries chunk limit =
     (let sample_size = min limit (length chunk)
      in if sample_size = 0 then []
         else (let stride = max (length chunk div sample_size) 1
               in take sample_size (step_by stride chunk)))"

definition sample_entries_fresh :: "cache_env \<Rightarrow> (str, file_cache_entry) hmap \<Rightarrow> nat \<Rightarrow> bool" where
  "sample_entries_fresh E chunk limit = list_all (entry_fresh E) (sample_entries (entries_of chunk) limit)"

definition library_cache_is_fresh ::
  "cache_env \<Rightarrow> store \<Rightarrow> path list \<Rightarrow> path \<Rightarrow> (str, file_cache_entry) hmap \<Rightarrow> path \<Rightarrow> nat \<Rightarrow> bool" where
  "library_cache_is_fresh E s source_paths manifest_path first_chunk_entries cache_dir chunk_count =
     (case ce_manifest_modified E manifest_path of
        None \<Rightarrow> False
      | Some cache_mtime \<Rightarrow>
          (let dirs_fresh = list_all (\<lambda>p. case Option.bind (ce_metadata E p) md_modified of
                               Some dir_mtime \<Rightarrow> cache_mtime \<ge> dir_mtime | None \<Rightarrow> False) source_paths;
               chunk_ok = (\<lambda>i limit. case load_library_chunk E s cache_dir i of
                             Some chunk \<Rightarrow> sample_entries_fresh E chunk limit | None \<Rightarrow> True)
           in if \<not> dirs_fresh then False
              else if \<not> sample_entries_fresh E first_chunk_entries 128 then False
              else if chunk_count > 1 \<and> \<not> chunk_ok (chunk_count - 1) 128 then False
              else if chunk_count > 2 \<and> \<not> chunk_ok (chunk_count div 2) 64 then False
              else True))"

definition strip_library_file_data :: "file_data \<Rightarrow> file_data" where
  "strip_library_file_data d =
     d\<lparr>fd_symbols := filter (\<lambda>s. se_visibility s \<noteq> Private \<and> se_visibility s \<noteq> Internal) (fd_symbols d),
       fd_lines := [], fd_declared_names := [], fd_imports := [], fd_rhs_types := [],
       fd_method_call_rhs := [], fd_field_access_rhs := []\<rparr>"

definition library_entry ::
  "externals \<Rightarrow> cache_env \<Rightarrow> indexer \<Rightarrow> str \<times> file_data \<Rightarrow> (str \<times> file_cache_entry) option" where
  "library_entry X E ix = (\<lambda>(uri_str, d).
     if uri_str \<notin> ix_library_uris ix then None
     else Option.bind (Option.bind (x_url_parse X uri_str) (x_url_to_file_path X)) (\<lambda>p.
       Some (path_to_str p, cache_entry_of E p (Mapping.lookup (ix_content_hashes ix) uri_str)
         (strip_library_file_data d) (path_file_stem p))))"

definition collect_library_entries :: "externals \<Rightarrow> cache_env \<Rightarrow> indexer \<Rightarrow> (str \<times> file_cache_entry) list" where
  "collect_library_entries X E ix = List.map_filter (library_entry X E ix) (entries_of (ix_files ix))"

definition div_ceil :: "nat \<Rightarrow> nat \<Rightarrow> nat" where
  "div_ceil a b = (if a mod b = 0 then a div b else a div b + 1)"

text \<open>The chunk count is cast to \<open>u32\<close>; the entries not yet taken are the argument.\<close>

definition chunk_cache :: "(str \<times> file_cache_entry) list \<Rightarrow> index_cache" where
  "chunk_cache es = \<lparr>ic_version = CACHE_VERSION, ic_complete_scan = True,
     ic_entries = Mapping.of_alist (rev (take LIBRARY_CHUNK_SIZE es))\<rparr>"

primrec write_chunks_from ::
  "cache_env \<Rightarrow> path \<Rightarrow> nat \<Rightarrow> nat \<Rightarrow> (str \<times> file_cache_entry) list \<Rightarrow> store \<Rightarrow> store \<times> io_status" where
  "write_chunks_from E dir 0 i es s = (s, IoOk)"
| "write_chunks_from E dir (Suc n) i es s =
     (case ce_encode E (chunk_cache es) of
        None \<Rightarrow> (s, IoErr)
      | Some bytes \<Rightarrow>
          (let (s', st) = fs_write E (library_chunk_path dir i) bytes s
           in if st = IoOk then write_chunks_from E dir n (Suc i) (drop LIBRARY_CHUNK_SIZE es) s'
              else (s', st)))"

definition library_chunk_count :: "(str \<times> file_cache_entry) list \<Rightarrow> 32 word" where
  "library_chunk_count es = of_nat (div_ceil (length es) LIBRARY_CHUNK_SIZE)"

definition write_library_chunks ::
  "cache_env \<Rightarrow> path \<Rightarrow> (str \<times> file_cache_entry) list \<Rightarrow> store \<Rightarrow> store \<times> io_status" where
  "write_library_chunks E dir es s = write_chunks_from E dir (unat (library_chunk_count es)) 0 es s"

definition commit_library_manifest :: "cache_env \<Rightarrow> path \<Rightarrow> 32 word \<Rightarrow> store \<Rightarrow> store" where
  "commit_library_manifest E manifest_path chunk_count s =
     (case ce_encode_manifest E \<lparr>lm_version = CACHE_VERSION, lm_chunk_count = chunk_count\<rparr> of
        None \<Rightarrow> s
      | Some bytes \<Rightarrow> fst (fs_write E manifest_path bytes s))"

definition save_library_cache :: "externals \<Rightarrow> cache_env \<Rightarrow> str list \<Rightarrow> indexer \<Rightarrow> store \<Rightarrow> store" where
  "save_library_cache X E source_paths ix s =
     (let dir = library_chunks_dir E source_paths;
          manifest_path = library_manifest_path dir
      in if fs_create_dir_all E dir \<noteq> IoOk then s
         else (let (s1, st1) = fs_remove E manifest_path s
               in if st1 = IoDead then s1
                  else (let entries = collect_library_entries X E ix;
                            (s2, st2) = write_library_chunks E dir entries s1
                        in if st2 \<noteq> IoOk then s2
                           else commit_library_manifest E manifest_path (library_chunk_count entries) s2)))"

end
