(* ===== verification/Cache_Props.thy ===== *)
theory Cache_Props
  imports Cache Index_Props "HOL-Library.Sublist"
begin

text \<open>
  The properties of the index caches of \<^verbatim>\<open>src/indexer/cache.rs\<close>: the workspace cache is
  replaced as a whole or not at all, a library manifest that loads announces only chunks that load and
  together hold what was saved, and the freshness check samples what it promises.
\<close>

section \<open>File operations\<close>

lemma fs_write_frame: "fs_write E p b s = (s', st) \<Longrightarrow> q \<noteq> p \<Longrightarrow> Mapping.lookup s' q = Mapping.lookup s q"
  by (auto simp: fs_write_def split: write_outcome.splits)

lemma fs_write_Ok: "fs_write E p b s = (s', IoOk) \<Longrightarrow> s' = Mapping.update p b s"
  by (auto simp: fs_write_def split: write_outcome.splits)

lemma fs_rename_cases:
  assumes "fs_rename E p q s = (s', st)"
  obtains "s' = s" "st \<noteq> IoOk"
  | b where "Mapping.lookup s p = Some b" "s' = Mapping.update q b (Mapping.delete p s)" "st \<noteq> IoErr"
  using assms by (auto simp: fs_rename_def Let_def split: option.splits action_outcome.splits)

lemma fs_remove_cases:
  assumes "fs_remove E p s = (s', st)"
  obtains "s' = s" | "s' = Mapping.delete p s"
  using assms by (auto simp: fs_remove_def split: if_splits action_outcome.splits)

lemma fs_remove_frame: "q \<noteq> p \<Longrightarrow> Mapping.lookup (fst (fs_remove E p s)) q = Mapping.lookup s q"
  by (auto simp: fs_remove_def split: action_outcome.split)

section \<open>Paths of the cache\<close>

lemma path_join_Normal: "path_join base [Normal w] = base @ [Normal w]"
  by (simp add: path_join_def path_is_absolute_def)

lemma workspace_cache_path_eq:
  "\<exists>dir. workspace_cache_path E root = dir @ [Normal (lit ''index.bin'')]"
  by (auto simp: workspace_cache_path_def Let_def path_join_Normal)

lemma workspace_tmp_path:
  "with_extension (dir @ [Normal (lit ''index.bin'')]) (lit ''bin.tmp'') = dir @ [Normal (lit ''index.bin.tmp'')]"
  by (cases dir) (simp_all add: with_extension_def path_file_stem_def name_stem_def rfind_char_def)

lemma workspace_tmp_differs:
  "with_extension (workspace_cache_path E root) (lit ''bin.tmp'') \<noteq> workspace_cache_path E root"
  using workspace_cache_path_eq [of E root] by (auto simp only: workspace_tmp_path) auto

lemma library_chunk_path_inj: "library_chunk_path dir i = library_chunk_path dir j \<longleftrightarrow> i = j"
  by (auto simp: library_chunk_path_def path_join_Normal dest: zero_padded_decimal_inj)

lemma library_chunk_not_manifest: "library_chunk_path dir i \<noteq> library_manifest_path dir"
  by (simp add: library_chunk_path_def library_manifest_path_def path_join_Normal)

section \<open>The workspace cache\<close>

lemma write_and_rename_frame:
  assumes tmp: "with_extension p (lit ''bin.tmp'') \<noteq> p"
  shows "q \<noteq> p \<Longrightarrow> q \<noteq> with_extension p (lit ''bin.tmp'') \<Longrightarrow>
      Mapping.lookup (write_and_rename E p bytes s) q = Mapping.lookup s q"
    and "Mapping.lookup (write_and_rename E p bytes s) p \<in> {Mapping.lookup s p, Some bytes}"
proof -
  define tmp where "tmp = with_extension p (lit ''bin.tmp'')"
  obtain s1 st1 where w: "fs_write E tmp bytes s = (s1, st1)" by (cases "fs_write E tmp bytes s")
  obtain s2 st2 where r: "(if st1 = IoOk then fs_rename E tmp p s1 else (s1, st1)) = (s2, st2)"
    by (cases "if st1 = IoOk then fs_rename E tmp p s1 else (s1, st1)")
  have res: "write_and_rename E p bytes s = (if st2 = IoErr then fst (fs_remove E tmp s2) else s2)"
    unfolding write_and_rename_def Let_def tmp_def [symmetric] w prod.case r by simp
  have other: "Mapping.lookup s2 q = Mapping.lookup s q" if "q \<noteq> tmp" "q \<noteq> p" for q
    using r fs_write_frame [OF w, of q] that
    by (auto split: if_split_asm elim!: fs_rename_cases)
  have main: "Mapping.lookup s2 p \<in> {Mapping.lookup s p, Some bytes}"
  proof (cases "st1 = IoOk")
    case True
    then have s1: "s1 = Mapping.update tmp bytes s" using w fs_write_Ok by simp
    with True r tmp show ?thesis by (auto simp: tmp_def [symmetric] elim!: fs_rename_cases)
  next
    case False
    with r have "s2 = s1" by simp
    with fs_write_frame [OF w, of p] tmp show ?thesis by (simp add: tmp_def)
  qed
  show "q \<noteq> p \<Longrightarrow> q \<noteq> with_extension p (lit ''bin.tmp'') \<Longrightarrow>
      Mapping.lookup (write_and_rename E p bytes s) q = Mapping.lookup s q"
    using other [of q] fs_remove_frame [of q tmp E s2] unfolding res tmp_def [symmetric] by simp
  show "Mapping.lookup (write_and_rename E p bytes s) p \<in> {Mapping.lookup s p, Some bytes}"
    using main tmp fs_remove_frame [of p tmp E s2] unfolding res tmp_def [symmetric] by simp
qed

text \<open>What \<open>save_cache\<close> can leave behind.\<close>

lemma save_cache_cases:
  obtains "save_cache X E root ix complete_scan allow_shrink s = s"
  | bytes where "ce_encode E (cache_of_index X E ix complete_scan) = Some bytes"
      "allow_shrink \<or> (\<forall>old. Mapping.lookup s (workspace_cache_path E root) = Some old \<longrightarrow> length old \<le> length bytes)"
      "save_cache X E root ix complete_scan allow_shrink s = write_and_rename E (workspace_cache_path E root) bytes s"
proof (cases "ce_encode E (cache_of_index X E ix complete_scan)")
  case None
  then have "save_cache X E root ix complete_scan allow_shrink s = s"
    by (simp add: save_cache_def Let_def)
  then show thesis by (rule that(1))
next
  case (Some bytes)
  let ?p = "workspace_cache_path E root"
  let ?longer = "case Mapping.lookup s ?p of Some old \<Rightarrow> length old > length bytes | None \<Rightarrow> False"
  have eq: "save_cache X E root ix complete_scan allow_shrink s =
      (if (case path_parent ?p of Some parent \<Rightarrow> fs_create_dir_all E parent | None \<Rightarrow> IoOk) \<noteq> IoOk
         \<or> (\<not> allow_shrink \<and> ?longer) then s else write_and_rename E ?p bytes s)"
    by (simp only: save_cache_def Let_def Some option.case if_distrib) simp
  have "allow_shrink \<or> (\<forall>old. Mapping.lookup s ?p = Some old \<longrightarrow> length old \<le> length bytes)"
    if "\<not> (\<not> allow_shrink \<and> ?longer)" using that by auto
  with eq that(1) that(2) [OF Some] show thesis by (metis (no_types, lifting))
qed

text \<open>C38 Saving the workspace cache is atomic: however the directory creation, the write, the rename
  and the removal end, the process dying in any of them included, the cache file afterwards is the old
  file or the whole new one; without leave to shrink, a longer cache stays; and only the cache file and
  its temporary sibling are ever written.\<close>

theorem save_cache_atomic:
  assumes p: "p = workspace_cache_path E root"
    and s': "s' = save_cache X E root ix complete_scan allow_shrink s"
  shows "(Mapping.lookup s' p = Mapping.lookup s p
      \<or> (Mapping.lookup s' p \<noteq> None \<and> Mapping.lookup s' p = ce_encode E (cache_of_index X E ix complete_scan)))
    \<and> (\<forall>old. Mapping.lookup s p = Some old \<longrightarrow>
         (\<exists>new. Mapping.lookup s' p = Some new \<and> (allow_shrink \<or> length old \<le> length new)))
    \<and> (\<forall>q. q \<noteq> p \<longrightarrow> q \<noteq> with_extension p (lit ''bin.tmp'') \<longrightarrow> Mapping.lookup s' q = Mapping.lookup s q)"
proof (cases rule: save_cache_cases [of X E root ix complete_scan allow_shrink s])
  case 1
  then show ?thesis by (simp add: p s')
next
  case (2 bytes)
  note frame = write_and_rename_frame [OF workspace_tmp_differs, of _ E root, where bytes = bytes and s = s]
  show ?thesis
    using 2(2) frame(2) [of E] frame(1) [of _ E] unfolding p s' 2(1,3) by fastforce
qed

text \<open>An environment for the witnesses: \<open>c0\<close> is the only cache there is to encode.\<close>

definition example_cache_env :: "index_cache \<Rightarrow> cache_env" where
  "example_cache_env c0 = \<lparr>ce_xdg_cache_home = None, ce_home_dir = None, ce_canonicalize = Some,
     ce_sha256 = (\<lambda>_. replicate 32 0),
     ce_metadata = (\<lambda>_. Some \<lparr>md_modified = Some 5000000000, md_len = 7\<rparr>),
     ce_manifest_modified = (\<lambda>_. Some 6000000000),
     ce_encode = (\<lambda>c. if c = c0 then Some [7, 2] else None),
     ce_decode = (\<lambda>b. if b = [7, 2]
        then Some (c0\<lparr>ic_entries := Mapping.map_values (\<lambda>_ e. e\<lparr>en_file_data := (en_file_data e)\<lparr>fd_syntax_errors := []\<rparr>\<rparr>) (ic_entries c0)\<rparr>)
        else None),
     ce_encode_manifest = (\<lambda>m. Some [unat (lm_version m), unat (lm_chunk_count m)]),
     ce_decode_manifest = (\<lambda>b. if length b = 2
        then Some \<lparr>lm_version = of_nat (b ! 0), lm_chunk_count = of_nat (b ! 1)\<rparr> else None),
     ce_create_dir_all = (\<lambda>_. Done), ce_write = (\<lambda>_. Wrote), ce_rename = (\<lambda>_. Done), ce_remove = (\<lambda>_. Done)\<rparr>"

lemma example_cache_env_fields [simp]:
  "ce_metadata (example_cache_env c0) q = Some \<lparr>md_modified = Some 5000000000, md_len = 7\<rparr>"
  "ce_encode (example_cache_env c0) c = (if c = c0 then Some [7, 2] else None)"
  "ce_write (example_cache_env c0) q = Wrote" "ce_rename (example_cache_env c0) q = Done"
  "ce_remove (example_cache_env c0) q = Done" "ce_create_dir_all (example_cache_env c0) q = Done"
  "ce_encode_manifest (example_cache_env c0) m = Some [unat (lm_version m), unat (lm_chunk_count m)]"
  "ce_decode_manifest (example_cache_env c0) [a, b] = Some \<lparr>lm_version = of_nat a, lm_chunk_count = of_nat b\<rparr>"
  by (simp_all add: example_cache_env_def)

lemma cache_of_index_cong:
  assumes "ce_metadata E = ce_metadata E'"
  shows "cache_of_index X E ix b = cache_of_index X E' ix b"
proof -
  have "save_cache_entry X E ix = save_cache_entry X E' ix"
    unfolding save_cache_entry_def cache_entry_of_def assms by simp
  then show ?thesis by (simp add: cache_of_index_def)
qed

text \<open>The process dies while it writes the temporary file.\<close>

theorem save_cache_atomic_witness:
  "\<exists>E s s' p. p = workspace_cache_path E [RootDir]
     \<and> s' = save_cache example_externals E [RootDir] (indexer_new False) True True s
     \<and> Mapping.lookup s p = Some [9, 9, 9] \<and> Mapping.lookup s' p = Some [9, 9, 9]
     \<and> Mapping.lookup s' (with_extension p (lit ''bin.tmp'')) = Some [7]
     \<and> (\<exists>new. Mapping.lookup s' p = Some new)"
proof -
  define E where "E = (example_cache_env (cache_of_index example_externals (example_cache_env undefined)
    (indexer_new False) True))\<lparr>ce_write := \<lambda>_. DiedWriting 1\<rparr>"
  define p where "p = workspace_cache_path E [RootDir]"
  define s where "s = Mapping.update p [9, 9, 9] (Mapping.empty :: store)"
  let ?s' = "save_cache example_externals E [RootDir] (indexer_new False) True True s"
  have enc: "ce_encode E (cache_of_index example_externals E (indexer_new False) True) = Some [7, 2]"
    using cache_of_index_cong [of E "example_cache_env undefined"]
    by (simp add: E_def fun_eq_iff)
  have dir: "fs_create_dir_all E q = IoOk" for q by (simp add: E_def fs_create_dir_all_def)
  have "?s' = Mapping.update (with_extension p (lit ''bin.tmp'')) [7] s"
    unfolding save_cache_def Let_def p_def [symmetric] enc dir
    by (simp add: write_and_rename_def fs_write_def E_def option.case_eq_if)
  moreover have "with_extension p (lit ''bin.tmp'') \<noteq> p" unfolding p_def by (rule workspace_tmp_differs)
  moreover have "\<exists>new. Mapping.lookup ?s' p = Some new"
    using save_cache_atomic [where E = E and root = "[RootDir]" and s = s and X = example_externals
        and ix = "indexer_new False" and complete_scan = True and allow_shrink = True, OF refl refl]
    unfolding p_def [symmetric] by (simp add: s_def)
  ultimately show ?thesis
    by (intro exI [of _ E] exI [of _ s] exI [of _ ?s'] exI [of _ p]) (simp add: p_def s_def)
qed

section \<open>The library cache\<close>

text \<open>What the code relies on of \<open>bincode\<close>: a value reads back as it was written, but for the
  skipped field \<open>syntax_errors\<close>, and a manifest cut short does not read back.\<close>

definition forget_skipped :: "file_cache_entry \<Rightarrow> file_cache_entry" where
  "forget_skipped e = e\<lparr>en_file_data := (en_file_data e)\<lparr>fd_syntax_errors := []\<rparr>\<rparr>"

definition forget_skipped_cache :: "index_cache \<Rightarrow> index_cache" where
  "forget_skipped_cache c = c\<lparr>ic_entries := Mapping.map_values (\<lambda>_. forget_skipped) (ic_entries c)\<rparr>"

definition codec_ok :: "cache_env \<Rightarrow> bool" where
  "codec_ok E \<longleftrightarrow>
     (\<forall>c b. ce_encode E c = Some b \<longrightarrow> ce_decode E b = Some (forget_skipped_cache c))
     \<and> (\<forall>m b. ce_encode_manifest E m = Some b \<longrightarrow> ce_decode_manifest E b = Some m
          \<and> (\<forall>n<length b. ce_decode_manifest E (take n b) = None))"

lemma write_chunks_from_frame:
  "(\<And>j. q \<noteq> library_chunk_path dir j) \<Longrightarrow>
     Mapping.lookup (fst (write_chunks_from E dir n i es s)) q = Mapping.lookup s q"
proof (induction n arbitrary: i es s)
  case 0
  then show ?case by simp
next
  case (Suc n)
  show ?case
  proof (cases "ce_encode E (chunk_cache es)")
    case None
    then show ?thesis by simp
  next
    case (Some b)
    obtain s1 st where w: "fs_write E (library_chunk_path dir i) b s = (s1, st)"
      by (cases "fs_write E (library_chunk_path dir i) b s")
    have "Mapping.lookup s1 q = Mapping.lookup s q" using fs_write_frame [OF w] Suc.prems by blast
    then show ?thesis using Some w Suc.IH [OF Suc.prems] by simp
  qed
qed

lemma write_chunks_from_earlier:
  "write_chunks_from E dir n i es s = (s', st) \<Longrightarrow> j < i \<Longrightarrow>
     Mapping.lookup s' (library_chunk_path dir j) = Mapping.lookup s (library_chunk_path dir j)"
proof (induction n arbitrary: i es s)
  case 0
  then show ?case by simp
next
  case (Suc n)
  show ?case
  proof (cases "ce_encode E (chunk_cache es)")
    case None
    then show ?thesis using Suc.prems by simp
  next
    case (Some b)
    obtain s1 st1 where w: "fs_write E (library_chunk_path dir i) b s = (s1, st1)"
      by (cases "fs_write E (library_chunk_path dir i) b s")
    have "Mapping.lookup s1 (library_chunk_path dir j) = Mapping.lookup s (library_chunk_path dir j)"
      using fs_write_frame [OF w] Suc.prems(2) by (simp add: library_chunk_path_inj)
    then show ?thesis
      using Suc.prems Some w Suc.IH [of "Suc i" "drop LIBRARY_CHUNK_SIZE es" s1]
      by (simp split: if_split_asm)
  qed
qed

lemma write_chunks_from_Ok:
  "write_chunks_from E dir n i es s = (s', IoOk) \<Longrightarrow> j < n \<Longrightarrow>
     \<exists>b. ce_encode E (chunk_cache (drop (j * LIBRARY_CHUNK_SIZE) es)) = Some b
       \<and> Mapping.lookup s' (library_chunk_path dir (i + j)) = Some b"
proof (induction n arbitrary: i es s j)
  case 0
  then show ?case by simp
next
  case (Suc n)
  then obtain b s1 where b: "ce_encode E (chunk_cache es) = Some b"
    and w: "fs_write E (library_chunk_path dir i) b s = (s1, IoOk)"
    and rest: "write_chunks_from E dir n (Suc i) (drop LIBRARY_CHUNK_SIZE es) s1 = (s', IoOk)"
    by (auto split: option.splits prod.splits if_split_asm)
  show ?case
  proof (cases j)
    case 0
    have "Mapping.lookup s' (library_chunk_path dir i) = Mapping.lookup s1 (library_chunk_path dir i)"
      by (rule write_chunks_from_earlier [OF rest]) simp
    with 0 b fs_write_Ok [OF w] show ?thesis by simp
  next
    case (Suc k)
    have "k < n" using Suc \<open>j < Suc n\<close> by simp
    from Suc.IH [OF rest this] Suc show ?thesis by (simp add: add.commute)
  qed
qed

text \<open>A manifest that is there after a save was there before, or was committed last.\<close>

lemma save_library_cache_cases:
  assumes manifest: "Mapping.lookup (save_library_cache X E sps ix s)
      (library_manifest_path (library_chunks_dir E sps)) = Some b"
    and removed: "ce_remove E (library_manifest_path (library_chunks_dir E sps)) \<noteq> Failed"
  obtains "save_library_cache X E sps ix s = s"
  | s2 bytes where "write_library_chunks E (library_chunks_dir E sps) (collect_library_entries X E ix)
        (fst (fs_remove E (library_manifest_path (library_chunks_dir E sps)) s)) = (s2, IoOk)"
      "ce_encode_manifest E \<lparr>lm_version = CACHE_VERSION,
         lm_chunk_count = library_chunk_count (collect_library_entries X E ix)\<rparr> = Some bytes"
      "\<exists>n. b = take n bytes"
      "\<And>q. q \<noteq> library_manifest_path (library_chunks_dir E sps) \<Longrightarrow>
         Mapping.lookup (save_library_cache X E sps ix s) q = Mapping.lookup s2 q"
proof -
  define dir where "dir = library_chunks_dir E sps"
  define mp where "mp = library_manifest_path dir"
  define es where "es = collect_library_entries X E ix"
  define s0 where "s0 = save_library_cache X E sps ix s"
  obtain s1 st1 where r: "fs_remove E mp s = (s1, st1)" by (cases "fs_remove E mp s")
  obtain s2 st2 where w: "write_library_chunks E dir es s1 = (s2, st2)" by (cases "write_library_chunks E dir es s1")
  have s0: "s0 = (if fs_create_dir_all E dir \<noteq> IoOk then s else if st1 = IoDead then s1
      else if st2 \<noteq> IoOk then s2 else commit_library_manifest E mp (library_chunk_count es) s2)"
    unfolding s0_def save_library_cache_def Let_def dir_def [symmetric] mp_def [symmetric] es_def [symmetric]
      r prod.case w by simp
  have gone: "s1 = s \<and> st1 = IoDead \<or> Mapping.lookup s1 mp = None"
    using r removed by (auto simp: fs_remove_def mp_def dir_def split: if_split_asm action_outcome.splits)
  have s2_mp: "Mapping.lookup s2 mp = Mapping.lookup s1 mp"
    using write_chunks_from_frame [of mp dir E "unat (library_chunk_count es)" 0 es s1] w
    by (simp add: write_library_chunks_def mp_def library_chunk_not_manifest [symmetric])
  have b: "Mapping.lookup s0 mp = Some b" using manifest by (simp add: s0_def mp_def dir_def)
  consider "s0 = s" | "st1 \<noteq> IoDead" "st2 = IoOk" "s0 = commit_library_manifest E mp (library_chunk_count es) s2"
    using s0 b gone s2_mp by (auto split: if_split_asm)
  then show thesis
  proof cases
    case 1
    then show thesis using that(1) by (simp add: s0_def)
  next
    case 2
    have none: "Mapping.lookup s2 mp = None" using 2(1) gone s2_mp by auto
    with b 2(3) obtain bytes where bytes: "ce_encode_manifest E \<lparr>lm_version = CACHE_VERSION,
        lm_chunk_count = library_chunk_count es\<rparr> = Some bytes"
      and s0': "s0 = fst (fs_write E mp bytes s2)"
      by (auto simp: commit_library_manifest_def split: option.splits)
    have "\<exists>n. b = take n bytes"
      using b none unfolding s0' by (auto simp: fs_write_def intro: exI [of _ "length bytes"] split: write_outcome.splits)
    moreover have "Mapping.lookup s0 q = Mapping.lookup s2 q" if "q \<noteq> mp" for q
      using fs_write_frame [of E mp bytes s2 s0 _ q] that s0' by (cases "fs_write E mp bytes s2") simp
    ultimately show thesis
      using that(2) [of s2 bytes] w 2(2) r bytes by (simp add: dir_def mp_def es_def s0_def)
  qed
qed

lemma div_ceil_bound:
  assumes "0 < b"
  shows "i < div_ceil a b \<longleftrightarrow> i * b < a"
proof (cases "a mod b = 0")
  case True
  then have "a = a div b * b" by (simp add: dvd_eq_mod_eq_0)
  moreover have "i * b < a div b * b \<longleftrightarrow> i < a div b" using assms by simp
  ultimately show ?thesis using True by (simp add: div_ceil_def)
next
  case False
  have "i \<le> a div b \<longleftrightarrow> i * b \<le> a" using assms by (rule less_eq_div_iff_mult_less_eq)
  moreover have "i * b \<noteq> a" using False by auto
  ultimately show ?thesis using False by (simp add: div_ceil_def less_Suc_eq_le) linarith
qed

text \<open>The chunks of a list hold its elements.\<close>

lemma set_chunks:
  assumes "0 < b"
  shows "(\<exists>i<div_ceil (length xs) b. x \<in> set (take b (drop (i * b) xs))) \<longleftrightarrow> x \<in> set xs"
proof
  assume "x \<in> set xs"
  then obtain j where j: "j < length xs" "xs ! j = x" by (auto simp: in_set_conv_nth)
  have split: "j = j div b * b + j mod b" by simp
  have "j div b * b \<le> j" by simp
  then have "j div b < div_ceil (length xs) b" using j(1) by (simp only: div_ceil_bound [OF assms] order.strict_trans1)
  moreover have "drop (j div b * b) xs ! (j mod b) = xs ! j"
    by (subst nth_drop) (use j \<open>j div b * b \<le> j\<close> in \<open>simp_all only: le_trans less_imp_le split [symmetric]\<close>)
  then have "x = take b (drop (j div b * b) xs) ! (j mod b)" using j(2) assms by simp
  moreover have "j mod b < length (take b (drop (j div b * b) xs))"
  proof -
    have "j mod b < length xs - j div b * b"
      using j(1) split \<open>j div b * b \<le> j\<close> by linarith
    then show ?thesis using assms by simp
  qed
  ultimately show "\<exists>i<div_ceil (length xs) b. x \<in> set (take b (drop (i * b) xs))"
    by (metis nth_mem)
qed (auto dest: in_set_takeD in_set_dropD)

lemma chunk_cache_entries:
  assumes "distinct (map fst es)"
  shows "Mapping.lookup (ic_entries (chunk_cache es)) k = Some e \<longleftrightarrow> (k, e) \<in> set (take LIBRARY_CHUNK_SIZE es)"
proof -
  have "distinct (map fst (rev (take LIBRARY_CHUNK_SIZE es)))"
    using assms by (simp add: rev_map [symmetric] take_map [symmetric])
  from map_of_eq_Some_iff [OF this, of k e] show ?thesis
    by (simp add: chunk_cache_def lookup_of_alist)
qed

lemma saved_chunk_loads:
  assumes codec: "codec_ok E"
    and w: "write_library_chunks E dir es s1 = (s2, IoOk)" and i: "i < unat (library_chunk_count es)"
    and s: "Mapping.lookup s (library_chunk_path dir i) = Mapping.lookup s2 (library_chunk_path dir i)"
  shows "load_library_chunk E s dir i
    = Some (Mapping.map_values (\<lambda>_. forget_skipped) (ic_entries (chunk_cache (drop (i * LIBRARY_CHUNK_SIZE) es))))"
proof -
  obtain b where "ce_encode E (chunk_cache (drop (i * LIBRARY_CHUNK_SIZE) es)) = Some b"
    and "Mapping.lookup s2 (library_chunk_path dir i) = Some b"
    using write_chunks_from_Ok [of E dir _ 0 es s1 s2 i] w i by (auto simp: write_library_chunks_def)
  then show ?thesis
    using codec s by (simp add: codec_ok_def load_library_chunk_def forget_skipped_cache_def chunk_cache_def)
qed

text \<open>A manifest that loads after a save: the chunks are those the save wrote, as they read back.\<close>

lemma saved_manifest_chunks:
  assumes codec: "codec_ok E"
    and removed: "ce_remove E (library_manifest_path (library_chunks_dir E sps)) \<noteq> Failed"
    and bound: "length (collect_library_entries X E ix) < 2 ^ 32"
    and load: "try_load_library_manifest E (save_library_cache X E sps ix s) sps = Some (dir, n)"
  shows "save_library_cache X E sps ix s = s
    \<or> (n = div_ceil (length (collect_library_entries X E ix)) LIBRARY_CHUNK_SIZE
       \<and> (\<forall>i<n. load_library_chunk E (save_library_cache X E sps ix s) dir i
            = Some (Mapping.map_values (\<lambda>_. forget_skipped)
                (ic_entries (chunk_cache (drop (i * LIBRARY_CHUNK_SIZE) (collect_library_entries X E ix)))))))"
proof -
  let ?s = "save_library_cache X E sps ix s"
  let ?es = "collect_library_entries X E ix"
  let ?mp = "library_manifest_path (library_chunks_dir E sps)"
  from load obtain b m where dir: "dir = library_chunks_dir E sps"
    and b: "Mapping.lookup ?s ?mp = Some b" and m: "ce_decode_manifest E b = Some m"
    and n: "n = unat (lm_chunk_count m)"
    by (auto simp: try_load_library_manifest_def Let_def bind_eq_Some_conv split: option.splits if_split_asm)
  show ?thesis
  proof (cases rule: save_library_cache_cases [OF b removed])
    case 1
    then show ?thesis by simp
  next
    case (2 s2 bytes)
    obtain l where l: "b = take l bytes" using 2(3) by blast
    have "m = \<lparr>lm_version = CACHE_VERSION, lm_chunk_count = library_chunk_count ?es\<rparr>"
      using codec 2(2) m unfolding codec_ok_def l
      by (metis (no_types, lifting) not_less option.distinct(1) option.inject take_all)
    then have n': "n = unat (library_chunk_count ?es)" by (simp add: n)
    have "div_ceil (length ?es) LIBRARY_CHUNK_SIZE < 2 ^ 32"
      using bound div_le_dividend [of "length ?es" 2000] by (simp add: div_ceil_def LIBRARY_CHUNK_SIZE_def) linarith
    then have count: "n = div_ceil (length ?es) LIBRARY_CHUNK_SIZE"
      unfolding n' library_chunk_count_def by (simp add: unat_of_nat take_bit_eq_mod)
    have chunk: "load_library_chunk E ?s dir i
        = Some (Mapping.map_values (\<lambda>_. forget_skipped) (ic_entries (chunk_cache (drop (i * LIBRARY_CHUNK_SIZE) ?es))))"
      if "i < n" for i
      by (rule saved_chunk_loads [OF codec 2(1) [folded dir]])
         (use that n' 2(4) library_chunk_not_manifest dir in auto)
    show ?thesis using count chunk by blast
  qed
qed

text \<open>C39 The manifest of the library cache is a commit point: whatever fails or dies while the
  library cache is saved, if afterwards its manifest loads, then either nothing was touched, or every
  chunk the manifest announces loads and the chunks hold exactly the entries of the library files,
  as they read back. (The removal of an old manifest, whose failure the code ignores, must not fail.)\<close>

theorem library_manifest_commits:
  assumes codec: "codec_ok E"
    and removed: "ce_remove E (library_manifest_path (library_chunks_dir E sps)) \<noteq> Failed"
    and dist: "distinct (map fst (collect_library_entries X E ix))"
    and bound: "length (collect_library_entries X E ix) < 2 ^ 32"
    and load: "try_load_library_manifest E (save_library_cache X E sps ix s) sps = Some (dir, n)"
  shows "save_library_cache X E sps ix s = s
    \<or> (n = div_ceil (length (collect_library_entries X E ix)) LIBRARY_CHUNK_SIZE
       \<and> (\<forall>i<n. load_library_chunk E (save_library_cache X E sps ix s) dir i \<noteq> None)
       \<and> (\<forall>k e. (\<exists>i<n. \<exists>chunk. load_library_chunk E (save_library_cache X E sps ix s) dir i = Some chunk
                \<and> Mapping.lookup chunk k = Some e)
            \<longleftrightarrow> (\<exists>e0. (k, e0) \<in> set (collect_library_entries X E ix) \<and> e = forget_skipped e0)))"
proof -
  let ?s = "save_library_cache X E sps ix s"
  let ?es = "collect_library_entries X E ix"
  consider "?s = s"
    | "n = div_ceil (length ?es) LIBRARY_CHUNK_SIZE"
      "\<And>i. i < n \<Longrightarrow> load_library_chunk E ?s dir i
         = Some (Mapping.map_values (\<lambda>_. forget_skipped) (ic_entries (chunk_cache (drop (i * LIBRARY_CHUNK_SIZE) ?es))))"
    using saved_manifest_chunks [OF codec removed bound load] by blast
  then show ?thesis
  proof cases
    case 1
    then show ?thesis by simp
  next
    case 2
    note count = 2(1) and chunk = 2(2)
    have held: "(\<exists>chunk. load_library_chunk E ?s dir i = Some chunk \<and> Mapping.lookup chunk k = Some e)
        \<longleftrightarrow> (\<exists>e0. (k, e0) \<in> set (take LIBRARY_CHUNK_SIZE (drop (i * LIBRARY_CHUNK_SIZE) ?es)) \<and> e = forget_skipped e0)"
      if "i < n" for i k e
    proof -
      have "distinct (map fst (drop (i * LIBRARY_CHUNK_SIZE) ?es))" using dist by (simp add: drop_map [symmetric])
      then show ?thesis
        unfolding chunk [OF that] by (auto simp: lookup_map_values chunk_cache_entries)
    qed
    have "(\<exists>i<n. \<exists>chunk. load_library_chunk E ?s dir i = Some chunk \<and> Mapping.lookup chunk k = Some e)
        \<longleftrightarrow> (\<exists>e0. (k, e0) \<in> set ?es \<and> e = forget_skipped e0)" for k e
    proof -
      have "(\<exists>i<n. \<exists>chunk. load_library_chunk E ?s dir i = Some chunk \<and> Mapping.lookup chunk k = Some e)
          \<longleftrightarrow> (\<exists>e0. (\<exists>i<n. (k, e0) \<in> set (take LIBRARY_CHUNK_SIZE (drop (i * LIBRARY_CHUNK_SIZE) ?es)))
                 \<and> e = forget_skipped e0)"
        using held by blast
      moreover have "0 < LIBRARY_CHUNK_SIZE" by (simp add: LIBRARY_CHUNK_SIZE_def)
      ultimately show ?thesis by (simp only: count set_chunks)
    qed
    then show ?thesis using count chunk by auto
  qed
qed

lemma collect_library_entries_cong:
  assumes "ce_metadata E = ce_metadata E'"
  shows "collect_library_entries X E ix = collect_library_entries X E' ix"
proof -
  have "library_entry X E ix = library_entry X E' ix"
    unfolding library_entry_def cache_entry_of_def assms by simp
  then show ?thesis by (simp add: collect_library_entries_def)
qed

lemma example_codec_ok: "codec_ok (example_cache_env c0)"
proof -
  have "n = 0 \<or> n = 1 \<Longrightarrow> ce_decode_manifest (example_cache_env c0) (take n [a, b]) = None" for n a b
    by (auto simp: example_cache_env_def)
  then show ?thesis
    by (auto simp: codec_ok_def example_cache_env_def forget_skipped_cache_def forget_skipped_def [abs_def])
qed

definition example_library_index :: indexer where
  "example_library_index = (indexer_new False)\<lparr>
     ix_files := Mapping.update (lit ''/lib/A.kt'') default_file_data Mapping.empty,
     ix_library_uris := {lit ''/lib/A.kt''}\<rparr>"

lemma entries_of_single [simp]: "entries_of (Mapping.update k v Mapping.empty) = [(k, v)]"
  by (simp add: entries_of_def sorted_keys_def Mapping.ordered_keys_def)

theorem library_manifest_commits_witness:
  "\<exists>E s dir. save_library_cache example_externals E [] example_library_index s \<noteq> s
     \<and> try_load_library_manifest E (save_library_cache example_externals E [] example_library_index s) [] = Some (dir, 1)
     \<and> load_library_chunk E (save_library_cache example_externals E [] example_library_index s) dir 0 \<noteq> None"
proof -
  define c0 where "c0 = chunk_cache (collect_library_entries example_externals
    (example_cache_env undefined) example_library_index)"
  define E where "E = example_cache_env c0"
  define s where "s = (Mapping.empty :: store)"
  define dir where "dir = library_chunks_dir E []"
  let ?es = "collect_library_entries example_externals E example_library_index"
  let ?s' = "save_library_cache example_externals E [] example_library_index s"
  have es: "?es = collect_library_entries example_externals (example_cache_env undefined) example_library_index"
    by (rule collect_library_entries_cong) (simp add: E_def fun_eq_iff)
  have one: "length ?es = 1"
    unfolding collect_library_entries_def
    by (simp add: example_library_index_def library_entry_def example_externals_def List.map_filter_def)
  have codec: "codec_ok E" unfolding E_def by (rule example_codec_ok)
  have count: "library_chunk_count ?es = 1"
    using one by (simp add: library_chunk_count_def div_ceil_def LIBRARY_CHUNK_SIZE_def)
  have s': "?s' = Mapping.update (library_manifest_path dir) [35, 1]
      (Mapping.update (library_chunk_path dir 0) [7, 2] s)"
    unfolding save_library_cache_def Let_def count write_library_chunks_def dir_def [symmetric]
    by (simp add: fs_create_dir_all_def fs_remove_def s_def commit_library_manifest_def fs_write_def
        CACHE_VERSION_def E_def c0_def es [unfolded E_def c0_def])
  have load: "try_load_library_manifest E ?s' [] = Some (dir, 1)"
    unfolding s' try_load_library_manifest_def Let_def dir_def [symmetric]
    using library_chunk_not_manifest [of dir 0]
    by (simp add: E_def CACHE_VERSION_def MAX_LIBRARY_CHUNKS_def)
  have "?s' \<noteq> s"
    unfolding s' by (metis lookup_update_map lookup_empty_map option.distinct(1) s_def)
  moreover have "?s' = s \<or> (\<forall>i<1. load_library_chunk E ?s' dir i \<noteq> None)"
    using library_manifest_commits [OF codec _ _ _ load] one
    by (auto simp: E_def length_Suc_conv)
  ultimately show ?thesis using load by blast
qed

section \<open>Freshness\<close>

lemma length_step_by: "0 < n \<Longrightarrow> length (step_by n xs) = div_ceil (length xs) n"
proof (induction n xs rule: step_by.induct)
  case (1 n)
  then show ?case by (simp add: div_ceil_def)
next
  case (2 n x xs)
  have "div_ceil (Suc (length xs)) n = Suc (div_ceil (length xs - (n - 1)) n)"
  proof (rule antisym; rule leI; rule notI)
    assume "Suc (div_ceil (length xs - (n - 1)) n) < div_ceil (Suc (length xs)) n"
    then have "\<not> div_ceil (length xs - (n - 1)) n * n < length xs - (n - 1)"
      "Suc (div_ceil (length xs - (n - 1)) n) * n < Suc (length xs)"
      using "2.prems" by (simp_all only: div_ceil_bound [symmetric] less_irrefl not_False_eq_True)
    then show False using "2.prems" by simp
  next
    assume "div_ceil (Suc (length xs)) n < Suc (div_ceil (length xs - (n - 1)) n)"
    then have le: "div_ceil (Suc (length xs)) n \<le> div_ceil (length xs - (n - 1)) n" by simp
    have pos: "0 < div_ceil (Suc (length xs)) n" using "2.prems" by (simp add: div_ceil_bound)
    then have "(div_ceil (Suc (length xs)) n - 1) * n < length xs - (n - 1)"
      using le "2.prems" by (simp add: div_ceil_bound [symmetric])
    then have "div_ceil (Suc (length xs)) n * n < Suc (length xs)"
      using pos by (cases "div_ceil (Suc (length xs)) n") auto
    then show False using "2.prems" by (simp only: div_ceil_bound [symmetric] less_irrefl)
  qed
  with 2 show ?case by simp
qed

lemma subseq_step_by: "subseq (step_by n xs) xs"
proof (induction n xs rule: step_by.induct)
  case (2 n x xs)
  have "subseq (drop (n - 1) xs) xs" by (simp add: suffix_drop suffix_imp_subseq)
  with 2 show ?case by (simp add: subseq_order.order_trans)
qed simp

lemma subseq_set_distinct: "subseq xs ys \<Longrightarrow> set xs \<subseteq> set ys \<and> (distinct ys \<longrightarrow> distinct xs)"
  by (auto simp: subseq_conv_nths dest: in_set_nthsD intro: distinct_nthsI)

lemma step_by_one [simp]: "step_by 1 xs = xs" "step_by (Suc 0) xs = xs"
  by (induction "1 :: nat" xs rule: step_by.induct) simp_all

lemma sample_entries_facts:
  "length (sample_entries xs limit) = min limit (length xs)"
  "subseq (sample_entries xs limit) xs"
  "length xs \<le> limit \<Longrightarrow> sample_entries xs limit = xs"
proof -
  define n where "n = min limit (length xs)"
  define stride where "stride = max (length xs div n) 1"
  have eq: "sample_entries xs limit = (if n = 0 then [] else take n (step_by stride xs))"
    by (simp add: sample_entries_def n_def stride_def Let_def)
  have "n \<le> length (step_by stride xs)" if "n \<noteq> 0"
  proof -
    have "n \<le> length xs" by (simp add: n_def)
    then have "0 < length xs div n" using that by (simp add: div_greater_zero_iff)
    then have "stride = length xs div n" by (simp add: stride_def max_def)
    moreover have "length xs div n * n \<le> length xs" by simp
    moreover have pos: "0 < stride" by (simp add: stride_def)
    ultimately have "(n - 1) * stride < length xs"
      using that by (metis diff_less mult.commute mult_less_cancel2 less_one not_gr_zero order_less_le_trans zero_less_diff)
    then show ?thesis using pos that by (simp add: length_step_by div_ceil_bound [symmetric])
  qed
  then show len: "length (sample_entries xs limit) = min limit (length xs)" by (simp add: eq n_def [symmetric])
  show "subseq (sample_entries xs limit) xs"
    using subseq_step_by [of stride xs] take_is_prefix [of n "step_by stride xs"]
    by (auto simp: eq intro: subseq_order.order_trans prefix_imp_subseq)
  show "sample_entries xs limit = xs" if "length xs \<le> limit"
    using that by (cases "xs = []") (simp_all add: eq n_def stride_def min_def sample_entries_def)
qed

text \<open>The freshness check of the library cache inspects exactly as many entries of a chunk as its
  limit allows, distinct ones, and a chunk that has no more entries than the limit is checked in full:
  it passes exactly where every entry has the modification time and size of its file.\<close>

theorem freshness_sample_bounds:
  assumes "finite (Mapping.keys chunk)"
  shows "length (sample_entries (entries_of chunk) limit) = min limit (Mapping.size chunk)
    \<and> distinct (sample_entries (entries_of chunk) limit)
    \<and> set (sample_entries (entries_of chunk) limit) \<subseteq> {(k, e). Mapping.lookup chunk k = Some e}
    \<and> (Mapping.size chunk \<le> limit \<longrightarrow> sample_entries_fresh E chunk limit
         = (\<forall>k e. Mapping.lookup chunk k = Some e \<longrightarrow> entry_fresh E (k, e)))"
proof -
  have size: "length (entries_of chunk) = Mapping.size chunk"
    by (simp add: entries_of_def sorted_keys_def Mapping.ordered_keys_def Mapping.size_def)
  have dist: "distinct (entries_of chunk)"
    by (simp add: entries_of_def distinct_map inj_on_def)
  have set: "set (entries_of chunk) = {(k, e). Mapping.lookup chunk k = Some e}"
    using set_entries_of [OF assms] by auto
  show ?thesis
    using sample_entries_facts [of "entries_of chunk" limit] dist set size
      subseq_set_distinct [OF sample_entries_facts(2) [of "entries_of chunk" limit]]
    by (auto simp: sample_entries_fresh_def list_all_iff)
qed

theorem freshness_sample_bounds_witness:
  "\<not> sample_entries_fresh (example_cache_env \<lparr>ic_version = 35, ic_complete_scan = True, ic_entries = Mapping.empty\<rparr>) (Mapping.update (lit ''/lib/A.kt'')
     (cache_entry_of ((example_cache_env \<lparr>ic_version = 35, ic_complete_scan = True, ic_entries = Mapping.empty\<rparr>)\<lparr>ce_metadata := \<lambda>_. None\<rparr>) [] None default_file_data None)
     Mapping.empty) 128"
  by (subst freshness_sample_bounds [THEN conjunct2, THEN conjunct2, THEN conjunct2, rule_format])
     (auto simp: entry_fresh_def cache_entry_of_def meta_mtime_def modified_secs_def Mapping.size_def)

end
