(* ===== verification/Discover.thy ===== *)
theory Discover
  imports Cache
begin

text \<open>
  Finding source files: \<^verbatim>\<open>src/indexer/discover.rs\<close>, with \<open>IgnoreMatcher\<close> of
  \<^verbatim>\<open>src/rg.rs\<close>. The \<open>fd\<close> program, the directory walk of the \<open>ignore\<close> crate, the
  glob sets of \<open>globset\<close> and what is asked of the file system are the fields of \<open>scan_fs\<close>.
  A path that the hash set of cached paths yields is taken in key order.
\<close>

section \<open>Ignore patterns\<close>

text \<open>\<open>path.strip_prefix(base)\<close>.\<close>

definition path_strip_prefix :: "path \<Rightarrow> path \<Rightarrow> path option" where
  "path_strip_prefix p base = (if path_starts_with p base then Some (drop (length base) p) else None)"

text \<open>The patterns and the root a matcher is built from, as in \<open>ix_ignore_matcher\<close>.\<close>

type_synonym ignore_matcher = "str list \<times> path"

definition pattern_globs :: "path \<Rightarrow> str \<Rightarrow> str list" where
  "pattern_globs root pat =
     (let normalized = (if path_is_absolute (path_of_str pat)
                        then map_option path_to_str (path_strip_prefix (path_of_str pat) root)
                        else Some pat)
      in case normalized of
           None \<Rightarrow> []
         | Some n \<Rightarrow>
             if ch CHR ''/'' \<notin> set n
             then [lit ''**/'' @ n, lit ''**/'' @ n @ lit ''/'', lit ''**/'' @ n @ lit ''/**'']
             else [n])"

definition ignore_globs :: "ignore_matcher \<Rightarrow> str list" where
  "ignore_globs m = concat (map (pattern_globs (snd m)) (fst m))"

definition matcher_is_empty :: "ignore_matcher \<Rightarrow> bool" where
  "matcher_is_empty m \<longleftrightarrow> fst m = []"

record scan_fs =
  sf_run_fd :: "str list \<Rightarrow> str option"
  sf_walk :: "path \<Rightarrow> ignore_matcher option \<Rightarrow> path list"
  sf_walk_unconstrained :: "path \<Rightarrow> path list"
  sf_glob_match :: "str list \<Rightarrow> str \<Rightarrow> bool"
  sf_cache_age_secs :: "path \<Rightarrow> nat option"
  sf_exists :: "path \<Rightarrow> bool"
  sf_read_to_string :: "path \<Rightarrow> str option"
  sf_find_files_for_types :: "str list \<Rightarrow> path \<Rightarrow> ignore_matcher option \<Rightarrow> path list"
  sf_env_max_files :: "str option"

definition matcher_matches :: "scan_fs \<Rightarrow> ignore_matcher \<Rightarrow> path \<Rightarrow> bool" where
  "matcher_matches F m rel_path = sf_glob_match F (ignore_globs m) (path_to_str rel_path)"

text \<open>The path relative to the root of the matcher, or as it is.\<close>

definition relative_to :: "path \<Rightarrow> path \<Rightarrow> path" where
  "relative_to root p = (case path_strip_prefix p root of Some rel \<Rightarrow> rel | None \<Rightarrow> p)"

definition filter_paths :: "scan_fs \<Rightarrow> ignore_matcher \<Rightarrow> path list \<Rightarrow> path list" where
  "filter_paths F m = filter (\<lambda>p. \<not> matcher_matches F m (relative_to (snd m) p))"

definition filter_file_strings :: "scan_fs \<Rightarrow> ignore_matcher \<Rightarrow> str list \<Rightarrow> str list" where
  "filter_file_strings F m = filter (\<lambda>f. \<not> matcher_matches F m (relative_to (snd m) (path_of_str f)))"

definition filter_locs :: "externals \<Rightarrow> scan_fs \<Rightarrow> ignore_matcher \<Rightarrow> location list \<Rightarrow> location list" where
  "filter_locs X F m = filter (\<lambda>loc. case x_url_to_file_path X (loc_uri loc) of
     Some p \<Rightarrow> \<not> matcher_matches F m (relative_to (snd m) p) | None \<Rightarrow> True)"

section \<open>Calling fd\<close>

definition SOURCE_EXTENSIONS :: "str list" where
  "SOURCE_EXTENSIONS = [lit ''kt'', lit ''java'', lit ''swift'']"

definition extension_args :: "str list" where
  "extension_args = concat (map (\<lambda>ext. [lit ''--extension'', ext]) SOURCE_EXTENSIONS)"

definition hardcoded_args :: "str list" where
  "hardcoded_args = [lit ''--absolute-path'',
     lit ''--exclude'', lit ''.git'', lit ''--exclude'', lit ''build'', lit ''--exclude'', lit ''target'',
     lit ''--exclude'', lit ''.gradle'', lit ''--exclude'', lit ''.build'',
     lit ''--exclude'', lit ''DerivedData'', lit ''--exclude'', lit ''Generated'']"

definition exclude_args :: "ignore_matcher option \<Rightarrow> str list" where
  "exclude_args matcher = (case matcher of None \<Rightarrow> []
     | Some m \<Rightarrow> concat (map (\<lambda>pat. [lit ''--exclude'', pat]) (fst m)))"

definition fd_paths :: "str \<Rightarrow> path list" where
  "fd_paths stdout = map path_of_str (filter (\<lambda>l. l \<noteq> []) (str_lines stdout))"

definition find_source_files :: "scan_fs \<Rightarrow> path \<Rightarrow> ignore_matcher option \<Rightarrow> path list" where
  "find_source_files F root matcher =
     (let fd_args = [lit ''--type'', lit ''f''] @ extension_args @ hardcoded_args @ exclude_args matcher
            @ [lit ''.'', path_to_str root]
      in case sf_run_fd F fd_args of
           Some stdout \<Rightarrow> fd_paths stdout
         | None \<Rightarrow> sf_walk F root matcher)"

definition find_source_files_unconstrained :: "scan_fs \<Rightarrow> path \<Rightarrow> path list" where
  "find_source_files_unconstrained F root =
     (let fd_args = [lit ''--type'', lit ''f''] @ extension_args
            @ [lit ''--absolute-path'', lit ''.'', path_to_str root];
          found = (case sf_run_fd F fd_args of Some stdout \<Rightarrow> fd_paths stdout | None \<Rightarrow> [])
      in if found \<noteq> [] then found else sf_walk_unconstrained F root)"

definition find_source_files_newer_than :: "scan_fs \<Rightarrow> path \<Rightarrow> nat \<Rightarrow> ignore_matcher option \<Rightarrow> path list" where
  "find_source_files_newer_than F root elapsed_secs matcher =
     (let window = decimal elapsed_secs @ lit ''s'';
          fd_args = [lit ''--type'', lit ''f'', lit ''--changed-within'', window] @ extension_args
            @ hardcoded_args @ exclude_args matcher @ [lit ''.'', path_to_str root]
      in case sf_run_fd F fd_args of Some stdout \<Rightarrow> fd_paths stdout | None \<Rightarrow> [])"

section \<open>Warm start\<close>

definition U64_MAX :: nat where
  "U64_MAX = 2 ^ 64 - 1"

definition warm_cached_paths :: "scan_fs \<Rightarrow> path \<Rightarrow> index_cache \<Rightarrow> ignore_matcher option \<Rightarrow> str list" where
  "warm_cached_paths F root cache matcher =
     filter (\<lambda>p. case matcher of
                None \<Rightarrow> True
              | Some m \<Rightarrow> matcher_is_empty m \<or> \<not> matcher_matches F m (relative_to root (path_of_str p)))
       (sorted_keys (ic_entries cache))"

definition warm_discover_files ::
  "cache_env \<Rightarrow> scan_fs \<Rightarrow> path \<Rightarrow> index_cache \<Rightarrow> ignore_matcher option \<Rightarrow> path list" where
  "warm_discover_files E F root cache matcher =
     (let elapsed_secs = (case sf_cache_age_secs F (workspace_cache_path E root) of
                            Some age \<Rightarrow> min U64_MAX (age + 2) | None \<Rightarrow> U64_MAX)
      in if elapsed_secs = U64_MAX then find_source_files F root matcher
         else (let cached_paths = warm_cached_paths F root cache matcher;
                   paths = filter (sf_exists F) (map path_of_str cached_paths);
                   newer = find_source_files_newer_than F root elapsed_secs matcher
               in paths @ filter (\<lambda>f. path_to_str f \<notin> set cached_paths) newer))"

end
