(* ===== verification/Source_Paths.thy ===== *)
theory Source_Paths
  imports Discover
begin

text \<open>
  Indexing the configured source paths: \<open>LibraryBatch\<close> and \<open>index_source_paths\<close> of
  \<^verbatim>\<open>src/indexer/apply.rs\<close>. A valid library cache is restored chunk by chunk; otherwise the
  directories are scanned, with the cached entries of unchanged files, and the cache is written anew.

  \<open>index_source_paths\<close> awaits the scan, so it is split there: \<open>index_source_paths_start\<close>
  runs up to the scan and returns the \<open>source_scan\<close> to run, \<open>source_scan_finish\<close> applies
  what the scan found, unless the root changed meanwhile. \<open>None\<close> as the new index means that the
  process does not survive. The hash maps of a batch are association
  lists with distinct keys. Finding and reading files goes through
  \<open>scan_fs\<close>.
\<close>

section \<open>Library batches\<close>

record library_batch =
  lb_files :: "(str \<times> file_data) list"
  lb_hashes :: "(str \<times> 64 word) list"
  lb_definitions :: "(str \<times> location list) list"
  lb_qualified :: "(str \<times> location) list"
  lb_packages :: "(str \<times> str list) list"
  lb_subtypes :: "(str \<times> location list) list"
  lb_extensions :: "(str \<times> extension_entry list) list"
  lb_library_uris :: "str list"

definition empty_batch :: library_batch where
  "empty_batch = \<lparr>lb_files = [], lb_hashes = [], lb_definitions = [], lb_qualified = [],
     lb_packages = [], lb_subtypes = [], lb_extensions = [], lb_library_uris = []\<rparr>"

definition collect_entry ::
  "externals \<Rightarrow> path \<Rightarrow> url \<Rightarrow> path \<Rightarrow> file_cache_entry \<Rightarrow> library_batch \<Rightarrow> library_batch" where
  "collect_entry X workspace_root uri p e b =
     (let is_library = \<not> path_starts_with p workspace_root;
          d = en_file_data e;
          keys = (if en_qualified_keys e \<noteq> [] then en_qualified_keys e
                  else build_qualified_keys d (file_stem_from_uri X uri))
      in b\<lparr>lb_definitions := fold (\<lambda>s. al_push (se_name s) (Location uri (se_selection_range s)))
             (fd_symbols d) (lb_definitions b),
           lb_qualified := fold (\<lambda>(key, r). AList.update key (Location uri r)) keys (lb_qualified b),
           lb_packages := (case fd_package d of None \<Rightarrow> lb_packages b
             | Some pkg \<Rightarrow> al_push pkg uri (lb_packages b)),
           lb_subtypes := fold (\<lambda>s m.
             if se_kind s \<notin> set CLASS_KINDS then m
             else fold (\<lambda>(_, super_name, _). al_push super_name (Location uri (se_selection_range s)))
                    (filter (\<lambda>(l, _, _). l = selection_start s) (fd_supers d)) m)
             (fd_symbols d) (lb_subtypes b),
           lb_extensions := fold (\<lambda>s m.
             if extension_receiver s = [] then m
             else al_push (extension_receiver s) (extension_entry_of uri d s) m)
             (fd_symbols d) (lb_extensions b),
           lb_files := AList.update uri d (lb_files b),
           lb_hashes := AList.update uri (en_content_hash e) (lb_hashes b),
           lb_library_uris := (if is_library then lb_library_uris b @ [uri] else lb_library_uris b)\<rparr>)"

definition flush_files :: "externals \<Rightarrow> (str \<times> file_data) list \<Rightarrow> indexer \<Rightarrow> indexer option" where
  "flush_files X = fold_opt (\<lambda>(k, d) ix.
     let file_data = with_classified_source_set ix k d
     in map_option (\<lambda>t. ix\<lparr>ix_file_table := t, ix_files := Mapping.update k file_data (ix_files ix)\<rparr>)
          (register_file_uri X k (ix_file_table ix)))"

definition flush_into :: "externals \<Rightarrow> library_batch \<Rightarrow> indexer \<Rightarrow> indexer option" where
  "flush_into X b ix =
     Option.bind (flush_files X (lb_files b)
         (ix\<lparr>ix_content_hashes := fold (\<lambda>(k, v). Mapping.update k v) (lb_hashes b) (ix_content_hashes ix)\<rparr>)) (\<lambda>ix1.
     Option.bind (merge_locations append_all (lb_definitions b) (ix_file_table ix1, ix_definitions ix1)) (\<lambda>(t2, defs).
     Option.bind (insert_qualified (lb_qualified b) (t2, ix_qualified ix1)) (\<lambda>(t3, quals).
     Option.bind (merge_packages X append_all (lb_packages b) (t3, ix_packages ix1)) (\<lambda>(t4, packs).
     Option.bind (merge_locations append_all (lb_subtypes b) (t4, ix_subtypes ix1)) (\<lambda>(t5, subs).
       Some (ix1\<lparr>ix_file_table := t5,
                 ix_definitions := defs,
                 ix_qualified := quals,
                 ix_packages := packs,
                 ix_subtypes := subs,
                 ix_extension_by_receiver :=
                   merge_extensions replace_by_uri (lb_extensions b) (ix_extension_by_receiver ix1),
                 ix_library_uris := ix_library_uris ix1 \<union> set (lb_library_uris b)\<rparr>))))))"

definition collect_chunk :: "externals \<Rightarrow> path \<Rightarrow> (str \<times> file_cache_entry) list \<Rightarrow> library_batch" where
  "collect_chunk X workspace_root chunk =
     fold (\<lambda>(path_str, e) b.
       case x_url_from_file_path X (path_of_str path_str) of
         None \<Rightarrow> b
       | Some uri \<Rightarrow> collect_entry X workspace_root uri (path_of_str path_str) e b) chunk empty_batch"

definition restore_library_chunk ::
  "externals \<Rightarrow> path \<Rightarrow> (str, file_cache_entry) hmap \<Rightarrow> indexer \<Rightarrow> indexer option" where
  "restore_library_chunk X workspace_root chunk =
     flush_into X (collect_chunk X workspace_root (entries_of chunk))"

section \<open>Scanning\<close>

definition try_cache_hit ::
  "cache_env \<Rightarrow> (str, file_cache_entry) hmap option \<Rightarrow> path \<Rightarrow> file_cache_entry option" where
  "try_cache_hit E lib_cache p =
     Option.bind lib_cache (\<lambda>cache.
     Option.bind (Mapping.lookup cache (path_to_str p)) (\<lambda>e.
     Option.bind (ce_metadata E p) (\<lambda>meta.
     Option.bind (modified_secs meta) (\<lambda>mtime.
       if en_mtime_secs e = mtime \<and> en_file_size e = md_len meta then Some e else None))))"

text \<open>One file of a source path: a cached result, or a parse task, whose result is \<open>None\<close> where
  the file cannot be read.\<close>

definition scan_source_file ::
  "externals \<Rightarrow> cache_env \<Rightarrow> scan_fs \<Rightarrow> (str, file_cache_entry) hmap option \<Rightarrow> path \<Rightarrow> path
   \<Rightarrow> source_path_scan \<times> file_index_result list \<Rightarrow> source_path_scan \<times> file_index_result list" where
  "scan_source_file X E F lib_cache workspace_root p st =
     (case x_url_from_file_path X p of
        None \<Rightarrow> st
      | Some uri \<Rightarrow>
          (let (sc, parsed) = st;
               sc1 = (if path_starts_with p workspace_root then sc
                      else sc\<lparr>sc_new_library_uris := sc_new_library_uris sc @ [uri]\<rparr>)
           in case try_cache_hit E lib_cache p of
                Some e \<Rightarrow>
                  (sc1\<lparr>sc_results := sc_results sc1 @ [cache_entry_to_file_result uri e],
                       sc_cache_hits := sc_cache_hits sc1 + 1\<rparr>, parsed)
              | None \<Rightarrow>
                  (case sf_read_to_string F p of
                     None \<Rightarrow> (sc1, parsed)
                   | Some content \<Rightarrow> (sc1, parsed @ [parse_file X uri content]))))"

definition scan_source_path ::
  "externals \<Rightarrow> cache_env \<Rightarrow> scan_fs \<Rightarrow> (str, file_cache_entry) hmap option \<Rightarrow> path \<Rightarrow> path
   \<Rightarrow> source_path_scan \<Rightarrow> source_path_scan" where
  "scan_source_path X E F lib_cache workspace_root source_path sc =
     (if \<not> sf_exists F source_path then sc
      else (let (sc1, parsed) = fold (scan_source_file X E F lib_cache workspace_root)
                  (find_source_files_unconstrained F source_path) (sc, [])
            in sc1\<lparr>sc_results := sc_results sc1 @ parsed\<rparr>))"

definition scan_source_paths_slow ::
  "externals \<Rightarrow> cache_env \<Rightarrow> scan_fs \<Rightarrow> path list \<Rightarrow> (str, file_cache_entry) hmap option \<Rightarrow> path
   \<Rightarrow> source_path_scan" where
  "scan_source_paths_slow X E F source_paths lib_cache workspace_root =
     fold (scan_source_path X E F lib_cache workspace_root) source_paths
       \<lparr>sc_results = [], sc_new_library_uris = [], sc_cache_hits = 0\<rparr>"

section \<open>Indexing the source paths\<close>

record source_scan =
  ss_generation :: "64 word"
  ss_raw_paths :: "str list"
  ss_source_paths :: "path list"
  ss_lib_cache :: "(str, file_cache_entry) hmap option"
  ss_workspace_root :: path

primrec load_chunks :: "cache_env \<Rightarrow> store \<Rightarrow> path \<Rightarrow> nat \<Rightarrow> nat \<Rightarrow> (str, file_cache_entry) hmap list option" where
  "load_chunks E s dir i 0 = Some []"
| "load_chunks E s dir i (Suc n) =
     Option.bind (load_library_chunk E s dir i) (\<lambda>chunk.
       map_option (\<lambda>chunks. chunk # chunks) (load_chunks E s dir (Suc i) n))"

text \<open>The chunks that load, later entries over earlier ones.\<close>

definition combined_chunks ::
  "cache_env \<Rightarrow> store \<Rightarrow> path \<Rightarrow> nat \<Rightarrow> (str, file_cache_entry) hmap \<Rightarrow> (str, file_cache_entry) hmap" where
  "combined_chunks E s dir chunk_count first_chunk =
     fold (\<lambda>i combined.
       case load_library_chunk E s dir i of
         None \<Rightarrow> combined
       | Some chunk \<Rightarrow> fold (\<lambda>(k, e). Mapping.update k e) (entries_of chunk) combined)
     [1..<chunk_count] first_chunk"

definition index_source_paths_start ::
  "externals \<Rightarrow> cache_env \<Rightarrow> path \<Rightarrow> store \<Rightarrow> indexer \<Rightarrow> store \<times> (indexer \<times> source_scan option) option" where
  "index_source_paths_start X E root s ix =
     (let raw_paths = ix_source_paths_raw ix
      in if raw_paths = [] then (s, Some (ix, None))
         else
           (let workspace_root = (case ce_canonicalize E root of Some p \<Rightarrow> p | None \<Rightarrow> root);
                source_paths = resolve_source_paths raw_paths workspace_root;
                scan = (\<lambda>lib_cache. \<lparr>ss_generation = ws_generation (ix_workspace_root ix),
                   ss_raw_paths = raw_paths, ss_source_paths = source_paths,
                   ss_lib_cache = lib_cache, ss_workspace_root = workspace_root\<rparr>)
            in case try_load_library_manifest E s raw_paths of
                 None \<Rightarrow> (s, Some (ix, Some (scan None)))
               | Some (cache_dir, chunk_count) \<Rightarrow>
                   if chunk_count = 0 then (s, Some (ix, None))
                   else (case load_library_chunk E s cache_dir 0 of
                      None \<Rightarrow> (s, Some (ix, Some (scan None)))
                    | Some first_chunk \<Rightarrow>
                        if \<not> library_cache_is_fresh E s source_paths (library_manifest_path cache_dir)
                               first_chunk cache_dir chunk_count
                        then (s, Some (ix, Some (scan (Some
                               (combined_chunks E s cache_dir chunk_count first_chunk)))))
                        else (case load_chunks E s cache_dir 1 (chunk_count - 1) of
                           None \<Rightarrow>
                             (let (s', st) = fs_remove E (library_manifest_path cache_dir) s
                              in (s', if st = IoDead then None else Some (ix, Some (scan None))))
                         | Some chunks \<Rightarrow>
                             (s, map_option (\<lambda>ix'.
                                   (rebuild_bare_name_cache (ix'\<lparr>ix_bare_names_dirty := True\<rparr>), None))
                                 (fold_opt (restore_library_chunk X workspace_root) (first_chunk # chunks) ix))))))"

definition source_scan_finish ::
  "externals \<Rightarrow> cache_env \<Rightarrow> scan_fs \<Rightarrow> source_scan \<Rightarrow> store \<Rightarrow> indexer \<Rightarrow> store \<times> indexer option" where
  "source_scan_finish X E F sc s ix =
     (if ws_generation (ix_workspace_root ix) \<noteq> ss_generation sc then (s, Some ix)
      else (let found = scan_source_paths_slow X E F (ss_source_paths sc) (ss_lib_cache sc) (ss_workspace_root sc)
            in case apply_source_path_scan X found ix of
                 None \<Rightarrow> (s, None)
               | Some ix' \<Rightarrow> (save_library_cache X E (ss_raw_paths sc) ix' s, Some ix')))"

end
