(* ===== verification/Source_Props.thy ===== *)
theory Source_Props
  imports Source_Paths Cache_Props "HOL-Library.Multiset"
begin

text \<open>
  The properties of source-path indexing: restoring a chunk of the library cache keeps the index
  exact, a saved library cache restores the library, and an empty library cache is never left.
\<close>

section \<open>What a batch collects\<close>

text \<open>The entries of a chunk whose path has a URI.\<close>

definition resolved_entries ::
  "externals \<Rightarrow> (str \<times> file_cache_entry) list \<Rightarrow> (url \<times> path \<times> file_cache_entry) list" where
  "resolved_entries X chunk = List.map_filter (\<lambda>(path_str, e).
     map_option (\<lambda>uri. (uri, path_of_str path_str, e)) (x_url_from_file_path X (path_of_str path_str))) chunk"

lemma collect_chunk_eq:
  "collect_chunk X root chunk = fold (\<lambda>(u, p, e). collect_entry X root u p e) (resolved_entries X chunk) empty_batch"
proof -
  have "fold (\<lambda>(path_str, e) b.
       case x_url_from_file_path X (path_of_str path_str) of
         None \<Rightarrow> b
       | Some uri \<Rightarrow> collect_entry X root uri (path_of_str path_str) e b) chunk b
     = fold (\<lambda>(u, p, e). collect_entry X root u p e) (resolved_entries X chunk) b" for b
    by (induction chunk arbitrary: b)
       (auto simp: resolved_entries_def List.map_filter_def split: option.split)
  then show ?thesis by (simp add: collect_chunk_def)
qed

definition defs_of :: "url \<Rightarrow> file_data \<Rightarrow> (str \<times> location) list" where
  "defs_of u d = map (\<lambda>s. (se_name s, Location u (se_selection_range s))) (fd_symbols d)"

definition exts_of :: "url \<Rightarrow> file_data \<Rightarrow> (str \<times> extension_entry) list" where
  "exts_of u d = map (\<lambda>s. (extension_receiver s, extension_entry_of u d s))
     (filter (\<lambda>s. extension_receiver s \<noteq> []) (fd_symbols d))"

definition pkgs_of :: "url \<Rightarrow> file_data \<Rightarrow> (str \<times> url) list" where
  "pkgs_of u d = (case fd_package d of None \<Rightarrow> [] | Some pkg \<Rightarrow> [(pkg, u)])"

definition keys_of :: "externals \<Rightarrow> url \<Rightarrow> file_cache_entry \<Rightarrow> (str \<times> location) list" where
  "keys_of X u e = map (\<lambda>(key, r). (key, Location u r))
     (if en_qualified_keys e \<noteq> [] then en_qualified_keys e
      else build_qualified_keys (en_file_data e) (file_stem_from_uri X u))"

definition push_pairs :: "('k \<times> 'v) list \<Rightarrow> ('k \<times> 'v list) list \<Rightarrow> ('k \<times> 'v list) list" where
  "push_pairs kvs m = fold (\<lambda>(k, v). al_push k v) kvs m"

lemma push_pairs_simps [simp]:
  "push_pairs [] m = m" "push_pairs ((k, v) # kvs) m = push_pairs kvs (al_push k v m)"
  "push_pairs (xs @ ys) m = push_pairs ys (push_pairs xs m)"
  by (simp_all add: push_pairs_def)

lemma push_pairs_group: "push_pairs kvs [] = group_by_key kvs"
  by (simp add: push_pairs_def group_by_key_def)

lemma push_pairs_map: "push_pairs (map (\<lambda>s. (f s, g s)) xs) m = fold (\<lambda>s. al_push (f s) (g s)) xs m"
  by (induction xs arbitrary: m) simp_all

lemma push_pairs_filter:
  "push_pairs (map (\<lambda>s. (f s, g s)) (filter P xs)) m = fold (\<lambda>s m. if \<not> P s then m else al_push (f s) (g s) m) xs m"
  by (induction xs arbitrary: m) simp_all

lemma push_pairs_supertypes:
  "fold (\<lambda>s m.
     if se_kind s \<notin> set CLASS_KINDS then m
     else fold (\<lambda>(_, super_name, _). al_push super_name (Location u (se_selection_range s)))
            (filter (\<lambda>(l, _, _). l = selection_start s) (fd_supers d)) m) ss m
   = push_pairs (concat (map (\<lambda>s.
       if se_kind s \<notin> set CLASS_KINDS then []
       else map (\<lambda>(_, super_name, _). (super_name, Location u (se_selection_range s)))
              (filter (\<lambda>(l, _, _). l = selection_start s) (fd_supers d))) ss)) m"
proof (induction ss arbitrary: m)
  case Nil
  then show ?case by simp
next
  case (Cons s ss)
  have "fold (\<lambda>(_, super_name, _). al_push super_name r) xs m
      = push_pairs (map (\<lambda>(_, super_name, _). (super_name, r)) xs) m" for r :: location and xs :: "(nat \<times> str \<times> str list) list" and m
    by (induction xs arbitrary: m) auto
  then show ?case using Cons by simp
qed

lemma collect_entry_eq:
  "collect_entry X root u p e b = b\<lparr>
     lb_definitions := push_pairs (defs_of u (en_file_data e)) (lb_definitions b),
     lb_qualified := fold (\<lambda>(k, v). AList.update k v) (keys_of X u e) (lb_qualified b),
     lb_packages := push_pairs (pkgs_of u (en_file_data e)) (lb_packages b),
     lb_subtypes := push_pairs (derive_supertypes u (en_file_data e)) (lb_subtypes b),
     lb_extensions := push_pairs (exts_of u (en_file_data e)) (lb_extensions b),
     lb_files := AList.update u (en_file_data e) (lb_files b),
     lb_hashes := AList.update u (en_content_hash e) (lb_hashes b),
     lb_library_uris := lb_library_uris b @ (if path_starts_with p root then [] else [u])\<rparr>"
proof -
  have keys: "fold (\<lambda>(key, r). AList.update key (Location u r)) ks m
      = fold (\<lambda>(k, v). AList.update k v) (map (\<lambda>(key, r). (key, Location u r)) ks) m" for ks m
    by (induction ks arbitrary: m) auto
  have exts: "push_pairs (exts_of u d) m = fold (\<lambda>s m. if extension_receiver s = [] then m
      else al_push (extension_receiver s) (extension_entry_of u d s) m) (fd_symbols d) m" for d m
    unfolding exts_of_def push_pairs_filter by simp
  have defs: "push_pairs (defs_of u d) m
      = fold (\<lambda>s. al_push (se_name s) (Location u (se_selection_range s))) (fd_symbols d) m" for d m
    unfolding defs_of_def by (rule push_pairs_map)
  have pkgs: "push_pairs (pkgs_of u d) m = (case fd_package d of None \<Rightarrow> m | Some pkg \<Rightarrow> al_push pkg u m)" for d m
    by (simp add: pkgs_of_def split: option.split)
  show ?thesis
    by (simp add: collect_entry_def Let_def exts defs pkgs keys_of_def keys derive_supertypes_def
        push_pairs_supertypes)
qed

lemma fold_collect_entries:
  fixes X :: externals and root :: path and es :: "(url \<times> path \<times> file_cache_entry) list"
  defines "C \<equiv> fold (\<lambda>(u, p, e). collect_entry X root u p e) es"
  shows "lb_definitions (C b) = push_pairs (concat (map (\<lambda>(u, _, e). defs_of u (en_file_data e)) es)) (lb_definitions b)"
    and "lb_qualified (C b) = fold (\<lambda>(k, v). AList.update k v)
          (concat (map (\<lambda>(u, _, e). keys_of X u e) es)) (lb_qualified b)"
    and "lb_packages (C b) = push_pairs (concat (map (\<lambda>(u, _, e). pkgs_of u (en_file_data e)) es)) (lb_packages b)"
    and "lb_subtypes (C b) = push_pairs (concat (map (\<lambda>(u, _, e). derive_supertypes u (en_file_data e)) es)) (lb_subtypes b)"
    and "lb_extensions (C b) = push_pairs (concat (map (\<lambda>(u, _, e). exts_of u (en_file_data e)) es)) (lb_extensions b)"
    and "lb_files (C b) = fold (\<lambda>(u, _, e). AList.update u (en_file_data e)) es (lb_files b)"
    and "lb_hashes (C b) = fold (\<lambda>(u, _, e). AList.update u (en_content_hash e)) es (lb_hashes b)"
    and "lb_library_uris (C b) = lb_library_uris b
          @ map fst (filter (\<lambda>(_, p, _). \<not> path_starts_with p root) es)"
  unfolding C_def
  by (induction es arbitrary: b) (auto simp: collect_entry_eq)

lemma fold_update_fresh:
  "distinct (map f xs) \<Longrightarrow> (\<And>x. x \<in> set xs \<Longrightarrow> f x \<notin> fst ` set m) \<Longrightarrow>
     fold (\<lambda>x. AList.update (f x) (g x)) xs m = m @ map (\<lambda>x. (f x, g x)) xs"
proof (induction xs arbitrary: m)
  case Nil
  then show ?case by simp
next
  case (Cons x xs)
  have "AList.update k v m = m @ [(k, v)]" if "k \<notin> fst ` set m" for k v
    using that by (induction m) auto
  then have "AList.update (f x) (g x) m = m @ [(f x, g x)]" using Cons.prems(2) by simp
  moreover have "fold (\<lambda>x. AList.update (f x) (g x)) xs (m @ [(f x, g x)])
      = (m @ [(f x, g x)]) @ map (\<lambda>x. (f x, g x)) xs"
    by (rule Cons.IH) (use Cons.prems in \<open>auto simp: image_iff\<close>)
  ultimately show ?case by simp
qed

section \<open>Interning known URIs\<close>

definition known_uri :: "file_table \<Rightarrow> url \<Rightarrow> bool" where
  "known_uri t u \<longleftrightarrow> Mapping.lookup (ft_by_uri t) u \<noteq> None"

lemma known_intern: "known_uri t u \<Longrightarrow> ft_intern t u = Some (t, id_of t u)"
  by (auto simp: known_uri_def id_of_def ft_intern_lookup_known)

definition compact_loc :: "file_table \<Rightarrow> location \<Rightarrow> symbol_loc" where
  "compact_loc t l = \<lparr>sl_file = id_of t (loc_uri l), sl_range = loc_range l\<rparr>"

lemma intern_locations_all_known:
  "(\<And>l. l \<in> set ls \<Longrightarrow> known_uri t (loc_uri l)) \<Longrightarrow> intern_locations ls t = Some (t, map (compact_loc t) ls)"
  by (induction ls) (simp_all add: intern_location_def known_intern compact_loc_def)

lemma merge_locations_all_known:
  "(\<And>k ls l. (k, ls) \<in> set c \<Longrightarrow> l \<in> set ls \<Longrightarrow> known_uri t (loc_uri l)) \<Longrightarrow>
     merge_locations merge c (t, m) =
       Some (t, fold (\<lambda>(k, ls). entry_modify k (\<lambda>old. merge old (map (compact_loc t) ls))) c m)"
proof (induction c arbitrary: m)
  case Nil
  then show ?case by (simp add: merge_locations_def)
next
  case (Cons kv c)
  obtain k ls where kv: "kv = (k, ls)" by (cases kv)
  have "intern_locations ls t = Some (t, map (compact_loc t) ls)"
    by (rule intern_locations_all_known) (use Cons.prems kv in auto)
  moreover have "merge_locations merge c (t, m') =
      Some (t, fold (\<lambda>(k, ls). entry_modify k (\<lambda>old. merge old (map (compact_loc t) ls))) c m')" for m'
    by (rule Cons.IH) (use Cons.prems in auto)
  ultimately show ?case by (simp add: kv merge_locations_def)
qed

lemma insert_qualified_all_known:
  "(\<And>k l. (k, l) \<in> set c \<Longrightarrow> known_uri t (loc_uri l)) \<Longrightarrow>
     insert_qualified c (t, m) = Some (t, fold (\<lambda>(k, l). Mapping.update k (compact_loc t l)) c m)"
proof (induction c arbitrary: m)
  case Nil
  then show ?case by (simp add: insert_qualified_def)
next
  case (Cons kv c)
  obtain k l where kv: "kv = (k, l)" by (cases kv)
  have "intern_location l t = Some (t, compact_loc t l)"
    using Cons.prems [of k l] kv by (simp add: intern_location_def known_intern compact_loc_def)
  moreover have "insert_qualified c (t, m') = Some (t, fold (\<lambda>(k, l). Mapping.update k (compact_loc t l)) c m')" for m'
    by (rule Cons.IH) (use Cons.prems in auto)
  ultimately show ?case by (simp add: kv insert_qualified_def)
qed

lemma intern_uri_strs_all_known:
  "(\<And>u. u \<in> set us \<Longrightarrow> known_uri t u \<and> x_url_parse X u = Some u) \<Longrightarrow>
     intern_uri_strs X us t = Some (t, map (id_of t) us)"
  by (induction us) (simp_all add: intern_uri_str_def known_intern)

lemma merge_packages_all_known:
  "(\<And>k us u. (k, us) \<in> set c \<Longrightarrow> u \<in> set us \<Longrightarrow> known_uri t u \<and> x_url_parse X u = Some u) \<Longrightarrow>
     merge_packages X merge c (t, m) =
       Some (t, fold (\<lambda>(k, us). entry_modify k (\<lambda>old. merge old (map (id_of t) us))) c m)"
proof (induction c arbitrary: m)
  case Nil
  then show ?case by (simp add: merge_packages_def)
next
  case (Cons kv c)
  obtain k us where kv: "kv = (k, us)" by (cases kv)
  have "intern_uri_strs X us t = Some (t, map (id_of t) us)"
    by (rule intern_uri_strs_all_known) (use Cons.prems kv in auto)
  moreover have "merge_packages X merge c (t, m') =
      Some (t, fold (\<lambda>(k, us). entry_modify k (\<lambda>old. merge old (map (id_of t) us))) c m')" for m'
    by (rule Cons.IH) (use Cons.prems in auto)
  ultimately show ?case by (simp add: kv merge_packages_def)
qed

section \<open>Registering the files\<close>

lemma flush_files_exact:
  assumes "ft_wf (ix_file_table ix)"
    and "\<And>u d. (u, d) \<in> set N \<Longrightarrow> x_url_parse X u = Some u"
    and "length (ft_by_id (ix_file_table ix)) + length N \<le> 2 ^ 32"
  shows "\<exists>t. flush_files X N ix = Some (ix\<lparr>ix_file_table := t,
        ix_files := fold (\<lambda>(u, d). Mapping.update u (with_classified_source_set ix u d)) N (ix_files ix)\<rparr>)
    \<and> ft_wf t \<and> length (ft_by_id t) \<le> length (ft_by_id (ix_file_table ix)) + length N
    \<and> (\<forall>u\<in>fst ` set N. known_uri t u)
    \<and> (\<forall>v j. Mapping.lookup (ft_by_uri (ix_file_table ix)) v = Some j \<longrightarrow> Mapping.lookup (ft_by_uri t) v = Some j)"
  using assms
proof (induction N arbitrary: ix)
  case Nil
  then show ?case by (intro exI [of _ "ix_file_table ix"]) (simp add: flush_files_def)
next
  case (Cons ud N)
  obtain u d where ud: "ud = (u, d)" by (cases ud)
  have parse: "x_url_parse X u = Some u" using Cons.prems(2) [of u d] ud by simp
  have "can_intern (ix_file_table ix) u" using Cons.prems(3) by (simp add: can_intern_def)
  then obtain t1 i where i: "ft_intern (ix_file_table ix) u = Some (t1, i)" using can_intern_Some by blast
  let ?ix1 = "ix\<lparr>ix_file_table := t1, ix_files := Mapping.update u (with_classified_source_set ix u d) (ix_files ix)\<rparr>"
  have step: "flush_files X ((u, d) # N) ix = flush_files X N ?ix1"
    by (simp add: flush_files_def register_file_uri_def parse i)
  have wf: "ft_wf t1" using Cons.prems(1) i by (rule files.intern_wf)
  have len: "length (ft_by_id t1) \<le> Suc (length (ft_by_id (ix_file_table ix)))"
    using i by (rule ft_intern_cases) auto
  have cl: "with_classified_source_set ?ix1 v e = with_classified_source_set ix v e" for v e
    by (rule classified_cong) simp
  obtain t where t: "flush_files X N ?ix1 = Some (?ix1\<lparr>ix_file_table := t,
        ix_files := fold (\<lambda>(u, d). Mapping.update u (with_classified_source_set ?ix1 u d)) N (ix_files ?ix1)\<rparr>)"
    "ft_wf t" "length (ft_by_id t) \<le> length (ft_by_id t1) + length N" "\<forall>u\<in>fst ` set N. known_uri t u"
    "\<forall>v j. Mapping.lookup (ft_by_uri t1) v = Some j \<longrightarrow> Mapping.lookup (ft_by_uri t) v = Some j"
    using Cons.IH [of ?ix1] wf len Cons.prems(2,3) by auto
  have "known_uri t u" using t(5) ft_intern_lookup [OF i] by (simp add: known_uri_def)
  moreover have "Mapping.lookup (ft_by_uri t) v = Some j"
    if "Mapping.lookup (ft_by_uri (ix_file_table ix)) v = Some j" for v j
    using t(5) ft_intern_lookup_stable [OF i that] by blast
  ultimately show ?case
    using t(1-4) len by (intro exI [of _ t]) (simp add: step cl ud)
qed

section \<open>Committing a batch\<close>

context posting_merge begin

text \<open>Many files at once, none of which is there yet.\<close>

lemma commit_batch_exact:
  assumes exact: "exact_postings m F contrib"
    and F': "\<And>v d. Mapping.lookup F' v = Some d \<longleftrightarrow> (v, d) \<in> set N \<or> Mapping.lookup F v = Some d"
    and own: "\<And>v d k x. Mapping.lookup F' v = Some d \<Longrightarrow> x \<in> contrib v d k \<Longrightarrow> owner x = own v"
    and disj: "\<And>v d w. Mapping.lookup F v = Some d \<Longrightarrow> w \<in> fst ` set N \<Longrightarrow> own v \<noteq> own w"
    and dist: "distinct (map fst c)"
    and h_Nil: "h [] = []"
    and c: "\<And>k x. x \<in> set (h (al_get c k)) \<longleftrightarrow> (\<exists>v d. (v, d) \<in> set N \<and> x \<in> contrib v d k)"
  shows "exact_postings (fold (\<lambda>(k, vs). entry_modify k (\<lambda>old. merge old (h vs))) c m) F' contrib"
proof -
  let ?m = "fold (\<lambda>(k, vs). entry_modify k (\<lambda>old. merge old (h vs))) c m"
  have foreign: "owner x \<notin> owner ` set (h (al_get c k))" if "x \<in> set (postings m k)" for x k
  proof
    assume "owner x \<in> owner ` set (h (al_get c k))"
    then obtain y w e where y: "owner x = owner y" "(w, e) \<in> set N" "y \<in> contrib w e k"
      using c by auto
    from that obtain v d where v: "Mapping.lookup F v = Some d" "x \<in> contrib v d k"
      by (rule exact_postingsE [OF exact])
    have "own v = own w" using own [of v d x k] own [of w e y k] F' v y by auto
    moreover have "w \<in> fst ` set N" using y(2) by force
    ultimately show False using disj v(1) by blast
  qed
  have "set (postings ?m k) = set (postings m k) \<union> set (h (al_get c k))" for k
  proof (cases "k \<in> fst ` set c")
    case True
    have "postings ?m k = merge (postings m k) (h (al_get c k))"
      using postings_fold_entry_modify [OF dist, of merge h m k] True by simp
    moreover have "set (merge (postings m k) (h (al_get c k))) = set (postings m k) \<union> set (h (al_get c k))"
      using merge_new merge_upper merge_foreign foreign by fast
    ultimately show ?thesis by simp
  next
    case False
    have "postings ?m k = postings m k"
      using postings_fold_entry_modify [OF dist, of merge h m k] False by simp
    moreover have "h (al_get c k) = []" by (simp add: al_get_absent [OF False] h_Nil)
    ultimately show ?thesis by simp
  qed
  then have "x \<in> set (postings ?m k) \<longleftrightarrow> x \<in> set (postings m k) \<or> (\<exists>v d. (v, d) \<in> set N \<and> x \<in> contrib v d k)" for x k
    by (simp add: c)
  moreover have "x \<in> set (postings m k) \<longleftrightarrow> (\<exists>v d. Mapping.lookup F v = Some d \<and> x \<in> contrib v d k)" for x k
    using exact unfolding exact_postings_def by blast
  ultimately show ?thesis unfolding exact_postings_def F' by blast
qed

end

section \<open>Restoring a chunk\<close>

text \<open>Entries that may be restored: their URIs are new to the index and distinct, and the stored
  qualified keys are those of the file, or absent.\<close>

definition restorable :: "externals \<Rightarrow> (url \<times> path \<times> file_cache_entry) list \<Rightarrow> indexer \<Rightarrow> bool" where
  "restorable X es ix \<longleftrightarrow> distinct (map fst es)
     \<and> (\<forall>(u, p, e)\<in>set es. x_url_parse X u = Some u \<and> Mapping.lookup (ix_files ix) u = None
          \<and> set (en_qualified_keys e) \<subseteq> set (build_qualified_keys (en_file_data e) (file_stem_from_uri X u)))
     \<and> length (ft_by_id (ix_file_table ix)) + length es \<le> 2 ^ 32"

definition batch_of :: "externals \<Rightarrow> (url \<times> path \<times> file_cache_entry) list \<Rightarrow> url list \<Rightarrow> library_batch" where
  "batch_of X es uris = \<lparr>
     lb_files = map (\<lambda>(u, _, e). (u, en_file_data e)) es,
     lb_hashes = map (\<lambda>(u, _, e). (u, en_content_hash e)) es,
     lb_definitions = group_by_key (concat (map (\<lambda>(u, _, e). defs_of u (en_file_data e)) es)),
     lb_qualified = collect_map (concat (map (\<lambda>(u, _, e). keys_of X u e) es)),
     lb_packages = group_by_key (concat (map (\<lambda>(u, _, e). pkgs_of u (en_file_data e)) es)),
     lb_subtypes = group_by_key (concat (map (\<lambda>(u, _, e). derive_supertypes u (en_file_data e)) es)),
     lb_extensions = group_by_key (concat (map (\<lambda>(u, _, e). exts_of u (en_file_data e)) es)),
     lb_library_uris = uris\<rparr>"

lemma collected_batch:
  assumes "distinct (map fst (resolved_entries X chunk))"
  defines "es \<equiv> resolved_entries X chunk"
  shows "collect_chunk X root chunk = batch_of X es (map fst (filter (\<lambda>(_, p, _). \<not> path_starts_with p root) es))"
proof -
  have upd: "fold (\<lambda>(u, _, e). AList.update u (g e)) es [] = map (\<lambda>(u, _, e). (u, g e)) es" for g :: "file_cache_entry \<Rightarrow> 'b"
    using fold_update_fresh [of fst es "[]" "\<lambda>x. g (snd (snd x))"] assms(1)
    by (simp add: es_def case_prod_unfold)
  show ?thesis
    unfolding collect_chunk_eq es_def [symmetric] batch_of_def
    by (rule library_batch.equality)
       (simp_all add: fold_collect_entries empty_batch_def push_pairs_group collect_map_def upd)
qed

text \<open>What a batch leaves in the index once its URIs are interned.\<close>

definition flushed :: "library_batch \<Rightarrow> file_table \<Rightarrow> indexer \<Rightarrow> indexer" where
  "flushed b t ix = ix\<lparr>
       ix_content_hashes := fold (\<lambda>(k, v). Mapping.update k v) (lb_hashes b) (ix_content_hashes ix),
       ix_files := fold (\<lambda>(u, d). Mapping.update u (with_classified_source_set ix u d)) (lb_files b) (ix_files ix),
       ix_file_table := t,
       ix_definitions := fold (\<lambda>(k, ls). entry_modify k (\<lambda>old. append_all old (map (compact_loc t) ls)))
         (lb_definitions b) (ix_definitions ix),
       ix_qualified := fold (\<lambda>(k, l). Mapping.update k (compact_loc t l)) (lb_qualified b) (ix_qualified ix),
       ix_packages := fold (\<lambda>(k, us). entry_modify k (\<lambda>old. append_all old (map (id_of t) us)))
         (lb_packages b) (ix_packages ix),
       ix_subtypes := fold (\<lambda>(k, ls). entry_modify k (\<lambda>old. append_all old (map (compact_loc t) ls)))
         (lb_subtypes b) (ix_subtypes ix),
       ix_extension_by_receiver := fold (\<lambda>(k, es). entry_modify k (\<lambda>old. replace_by_uri old es))
         (lb_extensions b) (ix_extension_by_receiver ix),
       ix_library_uris := ix_library_uris ix \<union> set (lb_library_uris b)\<rparr>"

lemma flush_into_eq:
  assumes wf: "ft_wf (ix_file_table ix)" and es: "restorable X es ix"
    and b: "b = batch_of X es uris"
  obtains t where "ft_wf t" "\<And>u. u \<in> fst ` set es \<Longrightarrow> known_uri t u"
    "\<And>v j. Mapping.lookup (ft_by_uri (ix_file_table ix)) v = Some j \<Longrightarrow> Mapping.lookup (ft_by_uri t) v = Some j"
    "length (ft_by_id t) \<le> length (ft_by_id (ix_file_table ix)) + length es"
    "flush_into X b ix = Some (flushed b t ix)"
proof -
  let ?ix = "ix\<lparr>ix_content_hashes := fold (\<lambda>(k, v). Mapping.update k v) (lb_hashes b) (ix_content_hashes ix)\<rparr>"
  have cl: "with_classified_source_set ?ix u d = with_classified_source_set ix u d" for u d
    by (rule classified_cong) simp
  have files: "lb_files b = map (\<lambda>(u, _, e). (u, en_file_data e)) es" by (simp add: b batch_of_def)
  have "\<exists>t. flush_files X (lb_files b) ?ix = Some (?ix\<lparr>ix_file_table := t,
        ix_files := fold (\<lambda>(u, d). Mapping.update u (with_classified_source_set ?ix u d)) (lb_files b) (ix_files ?ix)\<rparr>)
    \<and> ft_wf t \<and> length (ft_by_id t) \<le> length (ft_by_id (ix_file_table ?ix)) + length (lb_files b)
    \<and> (\<forall>u\<in>fst ` set (lb_files b). known_uri t u)
    \<and> (\<forall>v j. Mapping.lookup (ft_by_uri (ix_file_table ?ix)) v = Some j \<longrightarrow> Mapping.lookup (ft_by_uri t) v = Some j)"
    by (rule flush_files_exact) (use wf es in \<open>auto simp: restorable_def files\<close>)
  then obtain t where t': "flush_files X (lb_files b) ?ix = Some (?ix\<lparr>ix_file_table := t,
        ix_files := fold (\<lambda>(u, d). Mapping.update u (with_classified_source_set ?ix u d)) (lb_files b) (ix_files ?ix)\<rparr>)"
    "ft_wf t" "length (ft_by_id t) \<le> length (ft_by_id (ix_file_table ?ix)) + length (lb_files b)"
    "\<forall>u\<in>fst ` set (lb_files b). known_uri t u"
    "\<forall>v j. Mapping.lookup (ft_by_uri (ix_file_table ?ix)) v = Some j \<longrightarrow> Mapping.lookup (ft_by_uri t) v = Some j"
    by blast
  have t: "flush_files X (lb_files b) ?ix = Some (?ix\<lparr>ix_file_table := t,
        ix_files := fold (\<lambda>(u, d). Mapping.update u (with_classified_source_set ix u d)) (lb_files b) (ix_files ix)\<rparr>)"
    "ft_wf t" "length (ft_by_id t) \<le> length (ft_by_id (ix_file_table ix)) + length es"
    "\<And>v j. Mapping.lookup (ft_by_uri (ix_file_table ix)) v = Some j \<Longrightarrow> Mapping.lookup (ft_by_uri t) v = Some j"
    using t' by (simp_all add: cl files)
  have known: "known_uri t u" if "(u, p, e) \<in> set es" for u p e
    using t'(4) that by (force simp: files)
  have "known_uri t (loc_uri l)" if "(k, ls) \<in> set (lb_definitions b)" "l \<in> set ls" for k ls l
    using that known by (fastforce simp: b batch_of_def defs_of_def dest!: group_member)
  note defs = merge_locations_all_known [OF this]
  have "known_uri t (loc_uri l)" if "(k, ls) \<in> set (lb_subtypes b)" "l \<in> set ls" for k ls l
    using that known by (fastforce simp: b batch_of_def dest!: group_member derive_supertypes_uri)
  note subs = merge_locations_all_known [OF this]
  have "known_uri t (loc_uri l)" if "(k, l) \<in> set (lb_qualified b)" for k l
    using that known by (auto simp: b batch_of_def keys_of_def dest!: set_collect_map [THEN subsetD])
  note quals = insert_qualified_all_known [OF this]
  have "known_uri t u \<and> x_url_parse X u = Some u" if "(k, us) \<in> set (lb_packages b)" "u \<in> set us" for k us u
    using that known es
    by (fastforce simp: b batch_of_def pkgs_of_def restorable_def dest!: group_member split: option.splits)
  note packs = merge_packages_all_known [OF this]
  show thesis
  proof (rule that [OF t(2) _ t(4) t(3)])
    show "known_uri t u" if "u \<in> fst ` set es" for u using that known by auto
    show "flush_into X b ix = Some (flushed b t ix)"
      unfolding flush_into_def t(1) bind.bind_lunit
      by (simp add: defs quals packs subs merge_extensions_def flushed_def)
  qed
qed

text \<open>The files of a batch, as they are stored.\<close>

definition stored_files :: "indexer \<Rightarrow> (url \<times> path \<times> file_cache_entry) list \<Rightarrow> (str \<times> file_data) list" where
  "stored_files ix es = map (\<lambda>(u, _, e). (u, with_classified_source_set ix u (en_file_data e))) es"

lemma set_stored_files:
  "(v, d) \<in> set (stored_files ix es) \<longleftrightarrow> (\<exists>p e. (v, p, e) \<in> set es \<and> d = with_classified_source_set ix v (en_file_data e))"
  by (force simp: stored_files_def)

lemma fst_stored_files [simp]: "fst ` set (stored_files ix es) = fst ` set es"
  by (force simp: stored_files_def)

lemma al_get_group_iff: "x \<in> set (al_get (group_by_key kvs) k) \<longleftrightarrow> (k, x) \<in> set kvs"
  by (force simp: al_get_group_by_key)

lemma batch_postings_of:
  assumes g: "\<And>v d. g v (with_classified_source_set ix v d) k = h ` {y. (k, y) \<in> set (f v d)}"
  shows "x \<in> h ` set (al_get (group_by_key (concat (map (\<lambda>(u, _, e). f u (en_file_data e)) es))) k)
     \<longleftrightarrow> (\<exists>v d. (v, d) \<in> set (stored_files ix es) \<and> x \<in> g v d k)"
proof
  assume "x \<in> h ` set (al_get (group_by_key (concat (map (\<lambda>(u, _, e). f u (en_file_data e)) es))) k)"
  then obtain y where "x = h y" "(k, y) \<in> set (concat (map (\<lambda>(u, _, e). f u (en_file_data e)) es))"
    by (auto simp: al_get_group_iff)
  then obtain v p e where "(v, p, e) \<in> set es" "(k, y) \<in> set (f v (en_file_data e))" by auto
  with \<open>x = h y\<close> show "\<exists>v d. (v, d) \<in> set (stored_files ix es) \<and> x \<in> g v d k"
    by (intro exI [of _ v] exI [of _ "with_classified_source_set ix v (en_file_data e)"])
       (auto simp: set_stored_files g)
next
  assume "\<exists>v d. (v, d) \<in> set (stored_files ix es) \<and> x \<in> g v d k"
  then obtain v p e where v: "(v, p, e) \<in> set es" "x \<in> g v (with_classified_source_set ix v (en_file_data e)) k"
    by (auto simp: set_stored_files)
  then obtain y where y: "x = h y" "(k, y) \<in> set (f v (en_file_data e))" by (auto simp: g)
  then have "(k, y) \<in> set (concat (map (\<lambda>(u, _, e). f u (en_file_data e)) es))" using v(1) by force
  with y show "x \<in> h ` set (al_get (group_by_key (concat (map (\<lambda>(u, _, e). f u (en_file_data e)) es))) k)"
    by (auto simp: al_get_group_iff)
qed

lemma contributes_pairs:
  "def_of t v (with_classified_source_set ix v d) k = compact_loc t ` {y. (k, y) \<in> set (defs_of v d)}"
  "sub_of t v (with_classified_source_set ix v d) k = compact_loc t ` {y. (k, y) \<in> set (derive_supertypes v d)}"
  "pkg_of t v (with_classified_source_set ix v d) k = id_of t ` {y. (k, y) \<in> set (pkgs_of v d)}"
  "ext_of v (with_classified_source_set ix v d) k = (\<lambda>y. y) ` {y. (k, y) \<in> set (exts_of v d)}"
proof -
  show "def_of t v (with_classified_source_set ix v d) k = compact_loc t ` {y. (k, y) \<in> set (defs_of v d)}"
    by (force simp: def_of_def defs_of_def compact_loc_def image_iff)
  show "sub_of t v (with_classified_source_set ix v d) k = compact_loc t ` {y. (k, y) \<in> set (derive_supertypes v d)}"
    by (auto simp: sub_of_def compact_loc_def image_iff dest: derive_supertypes_uri)
  show "pkg_of t v (with_classified_source_set ix v d) k = id_of t ` {y. (k, y) \<in> set (pkgs_of v d)}"
    by (auto simp: pkg_of_def pkgs_of_def split: option.splits)
  show "ext_of v (with_classified_source_set ix v d) k = (\<lambda>y. y) ` {y. (k, y) \<in> set (exts_of v d)}"
    unfolding classified_contributes by (auto simp: ext_of_def exts_of_def)
qed

lemmas batch_postings =
  batch_postings_of [where g = "def_of t" and h = "compact_loc t" and f = defs_of for t, OF contributes_pairs(1)]
  batch_postings_of [where g = "sub_of t" and h = "compact_loc t" and f = derive_supertypes for t, OF contributes_pairs(2)]
  batch_postings_of [where g = "pkg_of t" and h = "id_of t" and f = pkgs_of for t, OF contributes_pairs(3)]
  batch_postings_of [where g = ext_of and h = "\<lambda>y. y" and f = exts_of, OF contributes_pairs(4)]

lemma set_collect_map_pairs: "(k, l) \<in> set (collect_map kvs) \<Longrightarrow> (k, l) \<in> set kvs"
  using set_collect_map by blast

lemma lookup_fold_stored:
  "distinct (map fst N) \<Longrightarrow> Mapping.lookup (fold (\<lambda>(u, d). Mapping.update u (f u d)) N m) u =
     (case map_of N u of Some d \<Rightarrow> Some (f u d) | None \<Rightarrow> Mapping.lookup m u)"
proof (induction N arbitrary: m)
  case Nil
  then show ?case by simp
next
  case (Cons ud N)
  obtain v d where ud: "ud = (v, d)" by (cases ud)
  have "map_of N v = None" using Cons.prems by (simp add: ud map_of_eq_None_iff)
  then show ?case using Cons by (auto simp: ud split: option.split)
qed

lemma keys_fold_update:
  "Mapping.keys (fold (\<lambda>(u, d). Mapping.update u (f u d)) N m) = fst ` set N \<union> Mapping.keys m"
  by (induction N arbitrary: m) auto

lemma map_of_stored:
  "map_of (map (\<lambda>(u, _, e). (u, g e)) es) u = map_option (\<lambda>(_, e). g e) (map_of es u)"
  by (induction es) auto

lemma restore_chunk_exact:
  assumes inv: "index_inv X ix" and es: "restorable X (resolved_entries X (entries_of chunk)) ix"
  defines "es \<equiv> resolved_entries X (entries_of chunk)"
  obtains ix' where "restore_library_chunk X root chunk ix = Some ix'" "index_inv X ix'"
    "\<forall>u. Mapping.lookup (ix_files ix') u = (case map_of es u of
        Some (_, e) \<Rightarrow> Some (with_classified_source_set ix u (en_file_data e))
      | None \<Rightarrow> Mapping.lookup (ix_files ix) u)"
    "ix_library_uris ix' = ix_library_uris ix \<union> fst ` {x \<in> set es. \<not> path_starts_with (fst (snd x)) root}"
    "ix_source_paths_raw ix' = ix_source_paths_raw ix"
    "length (ft_by_id (ix_file_table ix')) \<le> length (ft_by_id (ix_file_table ix)) + length es"
proof -
  define b where "b = collect_chunk X root (entries_of chunk)"
  define N where "N = stored_files ix es"
  let ?F = "ix_files ix"
  have reg: "files_registered X ix" and mm: "maps_match X ix ?F" using inv by (auto simp: index_inv_def)
  have res: "restorable X es ix" using es by (simp add: es_def)
  have dist: "distinct (map fst es)" using res by (simp add: restorable_def)
  have b: "b = batch_of X es (map fst (filter (\<lambda>(_, p, _). \<not> path_starts_with p root) es))"
    unfolding b_def es_def by (rule collected_batch [OF dist [unfolded es_def]])
  obtain t where t: "ft_wf t" "\<And>u. u \<in> fst ` set es \<Longrightarrow> known_uri t u"
    "\<And>v j. Mapping.lookup (ft_by_uri (ix_file_table ix)) v = Some j \<Longrightarrow> Mapping.lookup (ft_by_uri t) v = Some j"
    "length (ft_by_id t) \<le> length (ft_by_id (ix_file_table ix)) + length es"
    and flush: "flush_into X b ix = Some (flushed b t ix)"
    by (rule flush_into_eq [OF _ res b]) (use reg in \<open>auto simp: files_registered_def\<close>)
  define ix' where "ix' = flushed b t ix"
  let ?F' = "ix_files ix'"
  have batch: "lb_files b = map (\<lambda>(u, _, e). (u, en_file_data e)) es"
    "lb_hashes b = map (\<lambda>(u, _, e). (u, en_content_hash e)) es"
    "lb_definitions b = group_by_key (concat (map (\<lambda>(u, _, e). defs_of u (en_file_data e)) es))"
    "lb_qualified b = collect_map (concat (map (\<lambda>(u, _, e). keys_of X u e) es))"
    "lb_packages b = group_by_key (concat (map (\<lambda>(u, _, e). pkgs_of u (en_file_data e)) es))"
    "lb_subtypes b = group_by_key (concat (map (\<lambda>(u, _, e). derive_supertypes u (en_file_data e)) es))"
    "lb_extensions b = group_by_key (concat (map (\<lambda>(u, _, e). exts_of u (en_file_data e)) es))"
    "lb_library_uris b = map fst (filter (\<lambda>(_, p, _). \<not> path_starts_with p root) es)"
    by (simp_all add: b batch_of_def)
  have F': "Mapping.lookup ?F' u = (case map_of es u of
        Some (_, e) \<Rightarrow> Some (with_classified_source_set ix u (en_file_data e))
      | None \<Rightarrow> Mapping.lookup ?F u)" for u
  proof -
    have "distinct (map fst (lb_files b))" using dist by (simp add: batch(1) o_def case_prod_unfold)
    then show ?thesis
      by (simp add: ix'_def flushed_def lookup_fold_stored batch(1) map_of_stored split: option.split)
  qed
  have absent: "Mapping.lookup ?F u = None" if "u \<in> fst ` set es" for u
    using that res by (auto simp: restorable_def)
  have stored: "(v, d) \<in> set N \<longleftrightarrow>
      (\<exists>p e. map_of es v = Some (p, e) \<and> d = with_classified_source_set ix v (en_file_data e))" for v d
    unfolding map_of_eq_Some_iff [OF dist] by (simp add: N_def set_stored_files)
  have split: "Mapping.lookup ?F' v = Some d \<longleftrightarrow> (v, d) \<in> set N \<or> Mapping.lookup ?F v = Some d" for v d
  proof (cases "map_of es v")
    case None
    then show ?thesis by (simp add: F' stored)
  next
    case (Some pe)
    then have "v \<in> fst ` set es" by (metis map_of_SomeD image_eqI fst_conv)
    then show ?thesis using Some absent by (cases pe) (auto simp: F' stored)
  qed
  have T: "ix_file_table ix' = t" by (simp add: ix'_def flushed_def)
  have reg': "known_uri t v" if "Mapping.lookup ?F v \<noteq> None" for v
    using reg that t(3) unfolding files_registered_def known_uri_def by blast
  have idt: "id_of t v = id_of (ix_file_table ix) v" if "Mapping.lookup ?F v \<noteq> None" for v
    using reg that t(3) unfolding files_registered_def id_of_def by fastforce
  have disj: "id_of t v \<noteq> id_of t w" if "Mapping.lookup ?F v = Some d" "w \<in> fst ` set N" for v d w
  proof
    assume "id_of t v = id_of t w"
    moreover have "known_uri t v" "known_uri t w" using that reg' t(2) by (auto simp: N_def)
    ultimately have "v = w" using id_of_inj [OF t(1)] by (simp add: known_uri_def)
    then show False using that absent by (simp add: N_def)
  qed
  have "maps_match X (ix\<lparr>ix_file_table := t\<rparr>) ?F" by (rule maps_match_table [OF mm idt])
  then have defs: "exact_postings (ix_definitions ix) ?F (def_of t)"
    and packs: "exact_postings (ix_packages ix) ?F (pkg_of t)"
    and subs: "exact_postings (ix_subtypes ix) ?F (sub_of t)"
    and exts: "exact_postings (ix_extension_by_receiver ix) ?F ext_of"
    and quals: "\<And>k l. Mapping.lookup (ix_qualified ix) k = Some l \<Longrightarrow>
        \<exists>v e. Mapping.lookup ?F v = Some e \<and> sl_file l = id_of t v
          \<and> (k, sl_range l) \<in> set (build_qualified_keys e (file_stem_from_uri X v))"
    by (auto simp: maps_match_def)
  have own: "sl_file x = id_of t v" if "x \<in> def_of t v d k \<or> x \<in> sub_of t v d k" for x v d k
    using that by (auto simp: def_of_def sub_of_def)
  have "exact_postings (ix_definitions ix') ?F' (def_of t)"
  proof -
    have eq: "ix_definitions ix' = fold (\<lambda>(k, ls). entry_modify k (\<lambda>old. append_all old (map (compact_loc t) ls)))
        (lb_definitions b) (ix_definitions ix)" by (simp add: ix'_def flushed_def)
    show ?thesis
      unfolding eq batch
      by (rule append_locs.commit_batch_exact [where own = "id_of t" and N = N, OF defs split])
         (use own disj in \<open>auto simp: N_def batch_postings(1) [symmetric]\<close>)
  qed
  moreover have "exact_postings (ix_subtypes ix') ?F' (sub_of t)"
  proof -
    have eq: "ix_subtypes ix' = fold (\<lambda>(k, ls). entry_modify k (\<lambda>old. append_all old (map (compact_loc t) ls)))
        (lb_subtypes b) (ix_subtypes ix)" by (simp add: ix'_def flushed_def)
    show ?thesis
      unfolding eq batch
      by (rule append_locs.commit_batch_exact [where own = "id_of t" and N = N, OF subs split])
         (use own disj in \<open>auto simp: N_def batch_postings(2) [symmetric]\<close>)
  qed
  moreover have "exact_postings (ix_packages ix') ?F' (pkg_of t)"
  proof -
    have eq: "ix_packages ix' = fold (\<lambda>(k, us). entry_modify k (\<lambda>old. append_all old (map (id_of t) us)))
        (lb_packages b) (ix_packages ix)" by (simp add: ix'_def flushed_def)
    have "x = id_of t v" if "x \<in> pkg_of t v d k" for x v d k
      using that by (simp add: pkg_of_def split: if_split_asm)
    then show ?thesis
      unfolding eq batch
      by - (rule append_ids.commit_batch_exact [where own = "id_of t" and N = N, OF packs split],
         use disj in \<open>auto simp: N_def batch_postings(3) [symmetric]\<close>)
  qed
  moreover have "exact_postings (ix_extension_by_receiver ix') ?F' ext_of"
  proof -
    have eq: "ix_extension_by_receiver ix' = fold (\<lambda>(k, es). entry_modify k (\<lambda>old. replace_by_uri old es))
        (lb_extensions b) (ix_extension_by_receiver ix)" by (simp add: ix'_def flushed_def)
    have "v \<noteq> w" if "Mapping.lookup ?F v = Some d" "w \<in> fst ` set N" for v d w
      using disj [OF that] by auto
    moreover have "ee_file_uri x = v" if "x \<in> ext_of v d k" for x v d k
      using that by (auto simp: ext_of_def extension_entry_of_def)
    ultimately show ?thesis
      unfolding eq batch
      by - (rule replace_exts.commit_batch_exact [where own = "\<lambda>v. v" and h = "\<lambda>vs. vs" and N = N, OF exts split],
         auto simp: N_def batch_postings(4) [symmetric])
  qed
  moreover have "\<exists>v d. Mapping.lookup ?F' v = Some d \<and> sl_file l = id_of t v
      \<and> (k, sl_range l) \<in> set (build_qualified_keys d (file_stem_from_uri X v))"
    if l: "Mapping.lookup (ix_qualified ix') k = Some l" for k l
  proof -
    have "Mapping.lookup (fold (\<lambda>(k, l). Mapping.update k (compact_loc t l)) (lb_qualified b) (ix_qualified ix)) k = Some l"
      using l by (simp add: ix'_def flushed_def)
    then consider "Mapping.lookup (ix_qualified ix) k = Some l"
      | l0 where "(k, l0) \<in> set (lb_qualified b)" "l = compact_loc t l0"
      by (auto simp: lookup_fold_update dest!: map_of_SomeD split: option.splits)
    then show ?thesis
    proof cases
      case 1
      from quals [OF this] show ?thesis using split by blast
    next
      case 2
      then obtain v p e where v: "(v, p, e) \<in> set es" "(k, l0) \<in> set (keys_of X v e)"
        unfolding batch by (auto dest!: set_collect_map_pairs)
      then obtain r where r: "l0 = Location v r"
        "(k, r) \<in> set (build_qualified_keys (en_file_data e) (file_stem_from_uri X v))"
      proof -
        have "set (en_qualified_keys e) \<subseteq> set (build_qualified_keys (en_file_data e) (file_stem_from_uri X v))"
          using res v(1) by (fastforce simp: restorable_def)
        then show thesis using that v(2) by (fastforce simp: keys_of_def split: if_split_asm)
      qed
      have "map_of es v = Some (p, e)" using v(1) dist by simp
      then have "Mapping.lookup ?F' v = Some (with_classified_source_set ix v (en_file_data e))" by (simp add: F')
      then show ?thesis using r 2(2)
        by (intro exI [of _ v] exI [of _ "with_classified_source_set ix v (en_file_data e)"])
           (simp add: compact_loc_def)
    qed
  qed
  ultimately have mm': "maps_match X ix' ?F'" unfolding maps_match_def T by blast
  have "Mapping.keys (ix_content_hashes ix') = fst ` set es \<union> Mapping.keys (ix_content_hashes ix)"
    using keys_fold_update [of "\<lambda>_ v. v" "lb_hashes b" "ix_content_hashes ix"]
    by (simp add: ix'_def flushed_def batch image_image case_prod_unfold)
  moreover have "Mapping.keys ?F' = fst ` set es \<union> Mapping.keys ?F"
    using keys_fold_update [of "with_classified_source_set ix" "lb_files b" ?F]
    by (simp add: ix'_def flushed_def batch image_image case_prod_unfold)
  moreover have "x_url_parse X u = Some u \<and> known_uri t u" if "Mapping.lookup ?F' u \<noteq> None" for u
  proof (cases "map_of es u")
    case None
    then have "Mapping.lookup ?F u \<noteq> None" using that by (simp add: F')
    then show ?thesis using reg reg' by (simp add: files_registered_def)
  next
    case (Some pe)
    then have "u \<in> fst ` set es" by (metis map_of_SomeD image_eqI fst_conv)
    then show ?thesis using t(2) res by (auto simp: restorable_def)
  qed
  ultimately have "files_registered X ix'"
    using reg t(1) by (simp add: files_registered_def T known_uri_def)
  with mm' have inv': "index_inv X ix'" by (simp add: index_inv_def)
  show thesis
  proof (rule that [OF _ inv'])
    show "restore_library_chunk X root chunk ix = Some ix'"
      using flush by (simp add: restore_library_chunk_def b_def ix'_def)
    show "\<forall>u. Mapping.lookup ?F' u = (case map_of es u of
        Some (_, e) \<Rightarrow> Some (with_classified_source_set ix u (en_file_data e))
      | None \<Rightarrow> Mapping.lookup ?F u)" using F' by blast
    show "ix_library_uris ix' = ix_library_uris ix \<union> fst ` {x \<in> set es. \<not> path_starts_with (fst (snd x)) root}"
      by (simp add: ix'_def flushed_def batch case_prod_unfold)
  qed (simp_all add: ix'_def flushed_def t(4))
qed

section \<open>Restoring all chunks\<close>

lemma restorable_absent: "restorable X es ix \<Longrightarrow> u \<in> fst ` set es \<Longrightarrow> Mapping.lookup (ix_files ix) u = None"
  by (auto simp: restorable_def)

lemma restorable_append:
  assumes "restorable X (es @ rest) ix"
  shows "restorable X es ix" and "fst ` set es \<inter> fst ` set rest = {}"
    and "length (ft_by_id (ix_file_table ix1)) \<le> length (ft_by_id (ix_file_table ix)) + length es \<Longrightarrow>
      (\<And>u. u \<in> fst ` set rest \<Longrightarrow> Mapping.lookup (ix_files ix1) u = None) \<Longrightarrow> restorable X rest ix1"
  using assms by (auto simp: restorable_def) (fastforce+)?

lemma restore_chunks_exact:
  "index_inv X ix \<Longrightarrow> restorable X (concat (map (\<lambda>c. resolved_entries X (entries_of c)) chunks)) ix \<Longrightarrow>
   \<exists>ix'. fold_opt (restore_library_chunk X root) chunks ix = Some ix' \<and> index_inv X ix'
     \<and> (\<forall>u. Mapping.lookup (ix_files ix') u =
          (case map_of (concat (map (\<lambda>c. resolved_entries X (entries_of c)) chunks)) u of
             Some (_, e) \<Rightarrow> Some (with_classified_source_set ix u (en_file_data e))
           | None \<Rightarrow> Mapping.lookup (ix_files ix) u))
     \<and> ix_library_uris ix' = ix_library_uris ix \<union> fst ` {x \<in> set (concat (map (\<lambda>c. resolved_entries X (entries_of c)) chunks)).
          \<not> path_starts_with (fst (snd x)) root}"
proof (induction chunks arbitrary: ix)
  case Nil
  then show ?case by simp
next
  case (Cons c chunks)
  let ?es = "resolved_entries X (entries_of c)"
  let ?rest = "concat (map (\<lambda>c. resolved_entries X (entries_of c)) chunks)"
  have both: "restorable X (?es @ ?rest) ix" using Cons.prems(2) by simp
  note res = restorable_append(1) [OF both] and apart = restorable_append(2) [OF both]
  obtain ix1 where ix1: "restore_library_chunk X root c ix = Some ix1" "index_inv X ix1"
    "\<forall>u. Mapping.lookup (ix_files ix1) u = (case map_of ?es u of
        Some (_, e) \<Rightarrow> Some (with_classified_source_set ix u (en_file_data e))
      | None \<Rightarrow> Mapping.lookup (ix_files ix) u)"
    "ix_library_uris ix1 = ix_library_uris ix \<union> fst ` {x \<in> set ?es. \<not> path_starts_with (fst (snd x)) root}"
    "ix_source_paths_raw ix1 = ix_source_paths_raw ix"
    "length (ft_by_id (ix_file_table ix1)) \<le> length (ft_by_id (ix_file_table ix)) + length ?es"
    by (rule restore_chunk_exact [OF Cons.prems(1) res, where root = root])
  have cl: "with_classified_source_set ix1 u d = with_classified_source_set ix u d" for u d
    by (rule classified_cong) (rule ix1(5))
  have "Mapping.lookup (ix_files ix1) u = None" if "u \<in> fst ` set ?rest" for u
  proof -
    have "u \<notin> fst ` set ?es" using apart that by blast
    then have "map_of ?es u = None" by (simp only: map_of_eq_None_iff not_False_eq_True)
    moreover have "u \<in> fst ` set (?es @ ?rest)" using that unfolding set_append image_Un by (rule UnI2)
    ultimately show ?thesis using restorable_absent [OF both] by (simp only: ix1(3) option.case)
  qed
  then have "restorable X ?rest ix1" using restorable_append(3) [OF both ix1(6)] by blast
  from Cons.IH [OF ix1(2) this, unfolded cl] obtain ix' where
    "fold_opt (restore_library_chunk X root) chunks ix1 = Some ix'" "index_inv X ix'"
    "\<forall>u. Mapping.lookup (ix_files ix') u = (case map_of ?rest u of
             Some (_, e) \<Rightarrow> Some (with_classified_source_set ix u (en_file_data e))
           | None \<Rightarrow> Mapping.lookup (ix_files ix1) u)"
    "ix_library_uris ix' = ix_library_uris ix1 \<union> fst ` {x \<in> set ?rest. \<not> path_starts_with (fst (snd x)) root}"
    by blast
  moreover have "map_of ?rest u = None" if "map_of ?es u = Some pe" for u pe
  proof -
    have "u \<in> fst ` set ?es" using that by (metis map_of_SomeD image_eqI fst_conv)
    then have "u \<notin> fst ` set ?rest" using apart by blast
    then show ?thesis by (simp add: map_of_eq_None_iff)
  qed
  ultimately show ?case
    using ix1(1,3,4) by (auto simp: map_add_def split: option.splits)
qed

lemma concat_chunks:
  assumes "0 < b"
  shows "concat (map (\<lambda>i. take b (drop (i * b) xs)) [0..<div_ceil (length xs) b]) = xs"
proof -
  have "concat (map (\<lambda>i. take b (drop (i * b) xs)) [0..<n]) = take (n * b) xs" for n
    by (induction n) (simp_all add: take_add [of "_ * b" b, symmetric] add.commute)
  moreover have "length xs \<le> div_ceil (length xs) b * b"
    using div_ceil_bound [OF assms, of "div_ceil (length xs) b" "length xs"] by simp
  ultimately show ?thesis by simp
qed

lemma load_chunks_Some:
  "(\<And>j. i \<le> j \<Longrightarrow> j < i + n \<Longrightarrow> load_library_chunk E s dir j = Some (c j)) \<Longrightarrow>
     load_chunks E s dir i n = Some (map c [i..<i + n])"
proof (induction n arbitrary: i)
  case 0
  then show ?case by simp
next
  case (Suc n)
  have "load_chunks E s dir (Suc i) n = Some (map c [Suc i..<Suc i + n])"
    by (rule Suc.IH) (use Suc.prems in auto)
  then show ?case using Suc.prems [of i] by (simp add: upt_conv_Cons del: upt_Suc)
qed

section \<open>A library cache written and read\<close>

text \<open>The URIs of the indexed library files are in normal form: they denote a path, and the path's
  text denotes the URI.\<close>

definition library_paths_ok :: "externals \<Rightarrow> indexer \<Rightarrow> bool" where
  "library_paths_ok X ix \<longleftrightarrow> (\<forall>u d. u \<in> ix_library_uris ix \<longrightarrow> Mapping.lookup (ix_files ix) u = Some d \<longrightarrow>
     x_url_parse X u = Some u
     \<and> (\<exists>p. x_url_to_file_path X u = Some p \<and> x_url_from_file_path X (path_of_str (path_to_str p)) = Some u))"

definition path_uri :: "externals \<Rightarrow> str \<Rightarrow> url" where
  "path_uri X k = the (x_url_from_file_path X (path_of_str k))"

definition restored_entry :: "externals \<Rightarrow> str \<times> file_cache_entry \<Rightarrow> url \<times> path \<times> file_cache_entry" where
  "restored_entry X = (\<lambda>(k, e). (path_uri X k, path_of_str k, forget_skipped e))"

lemma set_collected:
  assumes "library_paths_ok X ix" and "finite (Mapping.keys (ix_files ix))"
  shows "(k, e) \<in> set (collect_library_entries X E ix) \<longleftrightarrow>
    (\<exists>u d p. u \<in> ix_library_uris ix \<and> Mapping.lookup (ix_files ix) u = Some d \<and> x_url_to_file_path X u = Some p
       \<and> k = path_to_str p \<and> path_uri X k = u \<and> x_url_from_file_path X (path_of_str k) = Some u
       \<and> e = cache_entry_of E p (Mapping.lookup (ix_content_hashes ix) u) (strip_library_file_data d) (path_file_stem p))"
    (is "?l \<longleftrightarrow> ?r")
proof
  assume ?l
  then obtain u d where u: "Mapping.lookup (ix_files ix) u = Some d" "library_entry X E ix (u, d) = Some (k, e)"
    by (auto simp: collect_library_entries_def set_map_filter set_entries_of [OF assms(2)])
  then have "u \<in> ix_library_uris ix" by (simp add: library_entry_def split: if_split_asm)
  with u assms(1) show ?r
    unfolding library_paths_ok_def library_entry_def path_uri_def by fastforce
next
  assume ?r
  then obtain u d p where u: "u \<in> ix_library_uris ix" "Mapping.lookup (ix_files ix) u = Some d"
    "x_url_to_file_path X u = Some p" "k = path_to_str p"
    "e = cache_entry_of E p (Mapping.lookup (ix_content_hashes ix) u) (strip_library_file_data d) (path_file_stem p)"
    by blast
  then have "library_entry X E ix (u, d) = Some (k, e)"
    using assms(1) by (auto simp: library_entry_def library_paths_ok_def)
  then show ?l
    using u(2) by (force simp: collect_library_entries_def set_map_filter set_entries_of [OF assms(2)])
qed

lemma library_entry_uri:
  assumes "library_paths_ok X ix" and "Mapping.lookup (ix_files ix) u = Some d"
    and e: "library_entry X E ix (u, d) = Some (k, e)"
  shows "x_url_from_file_path X (path_of_str k) = Some u"
proof -
  have lib: "u \<in> ix_library_uris ix" using e by (simp add: library_entry_def split: if_split_asm)
  then obtain p where "x_url_parse X u = Some u" "x_url_to_file_path X u = Some p"
    "x_url_from_file_path X (path_of_str (path_to_str p)) = Some u"
    using assms(1,2) unfolding library_paths_ok_def by blast
  then show ?thesis using e lib by (simp add: library_entry_def)
qed

lemma distinct_collected_keys:
  assumes "library_paths_ok X ix" and "finite (Mapping.keys (ix_files ix))"
  shows "distinct (map fst (collect_library_entries X E ix))"
proof -
  have inj: "u = v" if "library_entry X E ix (u, d) = Some (k, e)" "library_entry X E ix (v, d') = Some (k, e')"
    "Mapping.lookup (ix_files ix) u = Some d" "Mapping.lookup (ix_files ix) v = Some d'" for u v d d' k e e'
    using library_entry_uri [OF assms(1) that(3,1)] library_entry_uri [OF assms(1) that(4,2)] by simp
  have "distinct (map fst (List.map_filter (library_entry X E ix) es))"
    if "distinct (map fst es)" "set es \<subseteq> set (entries_of (ix_files ix))" for es
    using that
  proof (induction es)
    case Nil
    then show ?case by (simp add: List.map_filter_simps)
  next
    case (Cons ud es)
    obtain u d where ud: "ud = (u, d)" by (cases ud)
    show ?case
    proof (cases "library_entry X E ix ud")
      case None
      then show ?thesis using Cons by (simp add: List.map_filter_simps)
    next
      case (Some ke)
      obtain k e where ke: "ke = (k, e)" by (cases ke)
      have "k \<noteq> k'" if "(v, d') \<in> set es" "library_entry X E ix (v, d') = Some (k', e')" for v d' k' e'
      proof
        assume "k = k'"
        then have "u = v"
          using inj [of u d k e v d' e'] Some ke ud that Cons.prems(2) set_entries_of [OF assms(2)] by auto
        then show False using Cons.prems(1) that(1) ud by force
      qed
      then show ?thesis
        using Cons Some ke by (fastforce simp: List.map_filter_simps set_map_filter)
    qed
  qed
  moreover have "map fst (entries_of (ix_files ix)) = sorted_keys (ix_files ix)"
    by (simp add: entries_of_def o_def)
  ultimately show ?thesis by (simp add: collect_library_entries_def)
qed

text \<open>A chunk that was read back, as a list.\<close>

lemma mset_read_chunk:
  assumes "distinct (map fst ys)"
  shows "mset (entries_of (Mapping.map_values (\<lambda>_. forget_skipped) (Mapping.of_alist (rev ys))))
    = mset (map (\<lambda>(k, e). (k, forget_skipped e)) ys)"
proof -
  let ?m = "Mapping.map_values (\<lambda>_. forget_skipped) (Mapping.of_alist (rev ys))"
  have lk: "Mapping.lookup ?m k = Some e \<longleftrightarrow> (\<exists>e0. (k, e0) \<in> set ys \<and> e = forget_skipped e0)" for k e
  proof -
    have "distinct (map fst (rev ys))" using assms by (simp add: rev_map [symmetric])
    from map_of_eq_Some_iff [OF this, of k] show ?thesis
      by (auto simp: lookup_map_values lookup_of_alist)
  qed
  have "Mapping.keys ?m \<subseteq> fst ` set ys"
    using lk by (force simp: keys_lookup)
  then have fin: "finite (Mapping.keys ?m)" by (rule finite_subset) simp
  have "distinct (entries_of ?m)" by (simp add: entries_of_def distinct_map inj_on_def)
  moreover have "distinct (map (\<lambda>(k, e). (k, forget_skipped e)) ys)"
  proof -
    have "distinct ys" using assms by (simp add: distinct_map)
    then show ?thesis using eq_key_imp_eq_value [OF assms] by (auto simp: distinct_map intro!: inj_onI)
  qed
  moreover have "set (entries_of ?m) = set (map (\<lambda>(k, e). (k, forget_skipped e)) ys)"
    using set_entries_of [OF fin] lk by fastforce
  ultimately show ?thesis by (rule set_eq_iff_mset_eq_distinct [THEN iffD1])
qed

lemma resolved_map:
  "(\<And>k e. (k, e) \<in> set ys \<Longrightarrow> x_url_from_file_path X (path_of_str k) \<noteq> None) \<Longrightarrow>
     resolved_entries X ys = map (\<lambda>(k, e). (path_uri X k, path_of_str k, e)) ys"
proof (induction ys)
  case Nil
  then show ?case by (simp add: resolved_entries_def List.map_filter_simps)
next
  case (Cons y ys)
  obtain k e where y: "y = (k, e)" by (cases y)
  then obtain u where "x_url_from_file_path X (path_of_str k) = Some u"
    using Cons.prems [of k e] by auto
  moreover have "resolved_entries X ys = map (\<lambda>(k, e). (path_uri X k, path_of_str k, e)) ys"
    by (rule Cons.IH) (use Cons.prems in auto)
  ultimately show ?case by (simp add: y resolved_entries_def List.map_filter_simps path_uri_def)
qed

lemma mset_resolved:
  "mset ys = mset zs \<Longrightarrow> (\<And>k e. (k, e) \<in> set zs \<Longrightarrow> x_url_from_file_path X (path_of_str k) \<noteq> None) \<Longrightarrow>
     mset (resolved_entries X ys) = mset (map (\<lambda>(k, e). (path_uri X k, path_of_str k, e)) zs)"
  by (subst resolved_map) (use mset_eq_setD in \<open>blast, simp\<close>)

lemma build_qualified_keys_stem:
  "set (build_qualified_keys d None) \<subseteq> set (build_qualified_keys d stem)"
  by (auto simp: build_qualified_keys_def split: option.split)

lemma saved_keys_valid:
  assumes "x_url_to_file_path X u = Some p"
  shows "set (build_qualified_keys d (path_file_stem p)) \<subseteq> set (build_qualified_keys d (file_stem_from_uri X u))"
  using assms build_qualified_keys_stem [of d] by (cases "path_file_stem p") (auto simp: file_stem_from_uri_def)

lemma build_qualified_keys_syntax [simp]:
  "build_qualified_keys (d\<lparr>fd_syntax_errors := es\<rparr>) stem = build_qualified_keys d stem"
  by (simp add: build_qualified_keys_def split: option.split)

text \<open>What the chunks of a saved library hold can be restored into an index without these files.\<close>

lemma saved_library_restorable:
  fixes es :: "(url \<times> path \<times> file_cache_entry) list"
  assumes ok: "library_paths_ok X ix" and fin: "finite (Mapping.keys (ix_files ix))"
    and es: "mset es = mset (map (restored_entry X) (collect_library_entries X E ix))"
    and new: "\<And>u. u \<in> ix_library_uris ix \<Longrightarrow> Mapping.lookup (ix_files ix) u \<noteq> None \<Longrightarrow> Mapping.lookup (ix_files ix0) u = None"
    and room: "length (ft_by_id (ix_file_table ix0)) + length (collect_library_entries X E ix) \<le> 2 ^ 32"
  shows "restorable X es ix0"
    and "map_of es u = (if u \<in> ix_library_uris ix then
        map_option (\<lambda>d. (path_of_str (path_to_str (the (x_url_to_file_path X u))),
          forget_skipped (cache_entry_of E (the (x_url_to_file_path X u)) (Mapping.lookup (ix_content_hashes ix) u)
            (strip_library_file_data d) (path_file_stem (the (x_url_to_file_path X u))))))
          (Mapping.lookup (ix_files ix) u) else None)"
proof -
  let ?xs = "collect_library_entries X E ix"
  have set_es: "set es = restored_entry X ` set ?xs" using es mset_eq_setD by fastforce
  have "inj_on (\<lambda>x. path_uri X (fst x)) (set ?xs)"
  proof (rule inj_onI)
    fix x y assume x: "x \<in> set ?xs" and y: "y \<in> set ?xs" and eq: "path_uri X (fst x) = path_uri X (fst y)"
    obtain k e k' e' where xy: "x = (k, e)" "y = (k', e')" by fastforce
    have key: "j = path_to_str (the (x_url_to_file_path X (path_uri X j)))" if "(j, f) \<in> set ?xs" for j f
      using that unfolding set_collected [OF ok fin] by fastforce
    have "k = k'"
      using key x y eq unfolding xy by (metis fst_conv)
    then show "x = y"
      using x y eq_key_imp_eq_value [OF distinct_collected_keys [OF ok fin]] unfolding xy by auto
  qed
  moreover have "distinct ?xs" using distinct_collected_keys [OF ok fin] by (simp add: distinct_map)
  ultimately have "distinct (map (\<lambda>x. path_uri X (fst x)) ?xs)" by (simp add: distinct_map)
  then have "distinct (map fst (map (restored_entry X) ?xs))"
    by (simp add: o_def restored_entry_def case_prod_unfold)
  then have dist: "distinct (map fst es)"
    using es by (metis mset_eq_imp_distinct_iff mset_map)
  have len: "length es = length ?xs" using es by (metis length_map mset_eq_length)
  have mem: "(u, p', e) \<in> set es \<longleftrightarrow> (\<exists>d p. u \<in> ix_library_uris ix \<and> Mapping.lookup (ix_files ix) u = Some d
      \<and> x_url_to_file_path X u = Some p \<and> p' = path_of_str (path_to_str p)
      \<and> e = forget_skipped (cache_entry_of E p (Mapping.lookup (ix_content_hashes ix) u)
          (strip_library_file_data d) (path_file_stem p)))" (is "_ \<longleftrightarrow> ?r") for u p' e
  proof
    assume "(u, p', e) \<in> set es"
    then show ?r unfolding set_es by (auto simp: restored_entry_def set_collected [OF ok fin])
  next
    assume ?r
    then obtain d p where r: "u \<in> ix_library_uris ix" "Mapping.lookup (ix_files ix) u = Some d"
      "x_url_to_file_path X u = Some p" "p' = path_of_str (path_to_str p)"
      "e = forget_skipped (cache_entry_of E p (Mapping.lookup (ix_content_hashes ix) u)
          (strip_library_file_data d) (path_file_stem p))" by blast
    moreover have "x_url_from_file_path X (path_of_str (path_to_str p)) = Some u"
      using ok r(1-3) unfolding library_paths_ok_def by fastforce
    ultimately have "(path_to_str p, cache_entry_of E p (Mapping.lookup (ix_content_hashes ix) u)
        (strip_library_file_data d) (path_file_stem p)) \<in> set ?xs" "path_uri X (path_to_str p) = u"
      by (auto simp: set_collected [OF ok fin] path_uri_def)
    with r(4,5) show "(u, p', e) \<in> set es" unfolding set_es restored_entry_def by force
  qed
  show "restorable X es ix0"
    unfolding restorable_def
  proof (intro conjI dist)
    show "length (ft_by_id (ix_file_table ix0)) + length es \<le> 2 ^ 32" using room len by simp
    show "\<forall>(u, p, e)\<in>set es. x_url_parse X u = Some u \<and> Mapping.lookup (ix_files ix0) u = None
          \<and> set (en_qualified_keys e) \<subseteq> set (build_qualified_keys (en_file_data e) (file_stem_from_uri X u))"
      using ok new saved_keys_valid
      by (force simp: mem library_paths_ok_def forget_skipped_def cache_entry_of_def)
  qed
  show "map_of es u = (if u \<in> ix_library_uris ix then
        map_option (\<lambda>d. (path_of_str (path_to_str (the (x_url_to_file_path X u))),
          forget_skipped (cache_entry_of E (the (x_url_to_file_path X u)) (Mapping.lookup (ix_content_hashes ix) u)
            (strip_library_file_data d) (path_file_stem (the (x_url_to_file_path X u))))))
          (Mapping.lookup (ix_files ix) u) else None)" (is "_ = ?m")
  proof (cases ?m)
    case None
    then have "u \<notin> fst ` set es" by (auto simp: mem split: if_split_asm)
    then show ?thesis using None by (simp add: map_of_eq_None_iff)
  next
    case (Some pe)
    obtain p e where pe: "pe = (p, e)" by (cases pe)
    have "(u, p, e) \<in> set es" using Some ok pe unfolding mem library_paths_ok_def
      by (auto split: if_split_asm)
    then show ?thesis using Some pe map_of_eq_Some_iff [OF dist] by simp
  qed
qed

text \<open>A library file as the cache keeps it.\<close>

definition restored_data :: "file_data \<Rightarrow> file_data" where
  "restored_data d = (strip_library_file_data d)\<lparr>fd_syntax_errors := []\<rparr>"

definition canonical_root :: "cache_env \<Rightarrow> path \<Rightarrow> path" where
  "canonical_root E root = (case ce_canonicalize E root of Some p \<Rightarrow> p | None \<Rightarrow> root)"

lemma mset_concat_map: "(\<And>x. x \<in> set xs \<Longrightarrow> mset (f x) = mset (g x)) \<Longrightarrow>
    mset (concat (map f xs)) = mset (concat (map g xs))"
  by (induction xs) auto

lemma read_library_chunks:
  fixes E :: cache_env
  assumes ok: "library_paths_ok X ix" and fin: "finite (Mapping.keys (ix_files ix))"
  defines "xs \<equiv> collect_library_entries X E ix"
  shows "mset (concat (map (\<lambda>i. resolved_entries X (entries_of (Mapping.map_values (\<lambda>_. forget_skipped)
      (ic_entries (chunk_cache (drop (i * LIBRARY_CHUNK_SIZE) xs)))))) [0..<div_ceil (length xs) LIBRARY_CHUNK_SIZE]))
    = mset (map (restored_entry X) xs)"
proof -
  let ?ys = "\<lambda>i. take LIBRARY_CHUNK_SIZE (drop (i * LIBRARY_CHUNK_SIZE) xs)"
  have "mset (resolved_entries X (entries_of (Mapping.map_values (\<lambda>_. forget_skipped)
      (ic_entries (chunk_cache (drop (i * LIBRARY_CHUNK_SIZE) xs)))))) = mset (map (restored_entry X) (?ys i))" for i
  proof -
    have dist: "distinct (map fst (?ys i))"
      using distinct_collected_keys [OF ok fin] unfolding xs_def
      by (simp add: take_map [symmetric] drop_map [symmetric])
    have "x_url_from_file_path X (path_of_str k) \<noteq> None"
      if mem: "(k, e) \<in> set (map (\<lambda>(k, e). (k, forget_skipped e)) (?ys i))" for k e
    proof -
      obtain e0 where "(k, e0) \<in> set (?ys i)" using mem by force
      then have "(k, e0) \<in> set xs" by (meson in_set_takeD in_set_dropD)
      then show ?thesis unfolding xs_def set_collected [OF ok fin] by auto
    qed
    from mset_resolved [OF mset_read_chunk [OF dist] this] show ?thesis
      by (simp add: chunk_cache_def restored_entry_def case_prod_unfold o_def image_mset.compositionality)
  qed
  then have "mset (concat (map (\<lambda>i. resolved_entries X (entries_of (Mapping.map_values (\<lambda>_. forget_skipped)
      (ic_entries (chunk_cache (drop (i * LIBRARY_CHUNK_SIZE) xs)))))) [0..<div_ceil (length xs) LIBRARY_CHUNK_SIZE]))
    = mset (concat (map (\<lambda>i. map (restored_entry X) (?ys i)) [0..<div_ceil (length xs) LIBRARY_CHUNK_SIZE]))"
    by (intro mset_concat_map) simp
  also have "concat (map (\<lambda>i. map (restored_entry X) (?ys i)) [0..<div_ceil (length xs) LIBRARY_CHUNK_SIZE])
      = map (restored_entry X) (concat (map ?ys [0..<div_ceil (length xs) LIBRARY_CHUNK_SIZE]))"
    by (simp add: map_concat o_def)
  also have "concat (map ?ys [0..<div_ceil (length xs) LIBRARY_CHUNK_SIZE]) = xs"
    by (rule concat_chunks) (simp add: LIBRARY_CHUNK_SIZE_def)
  finally show ?thesis .
qed

lemma fst_marked_entries:
  assumes "distinct (map fst es)"
    and "\<And>u. map_of es u = (if u \<in> L then map_option (\<lambda>d. (h u, k u d)) (F u) else None)"
  shows "fst ` {x \<in> set es. P (fst (snd x))} = {u \<in> L. F u \<noteq> None \<and> P (h u)}"
proof -
  have "fst ` {x \<in> set es. P (fst (snd x))} = {u. \<exists>p e. map_of es u = Some (p, e) \<and> P p}"
    using assms(1) by (force simp: map_of_eq_Some_iff)
  also have "\<dots> = {u \<in> L. F u \<noteq> None \<and> P (h u)}" unfolding assms(2) by (auto split: if_split_asm)
  finally show ?thesis .
qed

text \<open>C40 A library cache warm-starts the server: where the library of an index was saved into a
  directory without a manifest (a stale chunk could be removed, the manifest was committed, and what
  is encoded is decoded again) and the saved cache is still fresh, \<open>index_source_paths\<close> of a
  server that has none of these files restores every library file without scanning, stripped of private
  symbols, lines and right-hand sides, and keeps the index exact. The library files grow by exactly
  the restored files outside the canonical workspace root. The URIs of the saved files are in normal
  form (each denotes a path whose text denotes the URI again), and the file table has room for them.\<close>

theorem library_warm_start:
  assumes inv: "index_inv X ix0" and raw: "raw = ix_source_paths_raw ix0" "raw \<noteq> []"
    and codec: "codec_ok E"
    and removed: "ce_remove E (library_manifest_path (library_chunks_dir E raw)) \<noteq> Failed"
    and none: "Mapping.lookup s (library_manifest_path (library_chunks_dir E raw)) = None"
    and s': "s' = save_library_cache X E raw ix s"
    and load: "try_load_library_manifest E s' raw = Some (dir, n)" "n \<noteq> 0"
    and fresh: "library_cache_is_fresh E s' (resolve_source_paths raw (canonical_root E root))
        (library_manifest_path dir) (the (load_library_chunk E s' dir 0)) dir n"
    and ok: "library_paths_ok X ix" and fin: "finite (Mapping.keys (ix_files ix))"
    and new: "\<And>u. u \<in> ix_library_uris ix \<Longrightarrow> Mapping.lookup (ix_files ix) u \<noteq> None \<Longrightarrow> Mapping.lookup (ix_files ix0) u = None"
    and room: "length (ft_by_id (ix_file_table ix0)) + length (collect_library_entries X E ix) \<le> 2 ^ 32 - 1"
  shows "\<exists>ix1. index_source_paths_start X E root s' ix0 = (s', Some (ix1, None))
    \<and> index_inv X ix1
    \<and> (\<forall>u. Mapping.lookup (ix_files ix1) u =
        (case if u \<in> ix_library_uris ix then Mapping.lookup (ix_files ix) u else None of
           Some d \<Rightarrow> Some (with_classified_source_set ix0 u (restored_data d))
         | None \<Rightarrow> Mapping.lookup (ix_files ix0) u))
    \<and> ix_library_uris ix1 = ix_library_uris ix0 \<union> {u \<in> ix_library_uris ix. Mapping.lookup (ix_files ix) u \<noteq> None
        \<and> \<not> path_starts_with (path_of_str (path_to_str (the (x_url_to_file_path X u)))) (canonical_root E root)}"
proof -
  let ?xs = "collect_library_entries X E ix"
  let ?c = "\<lambda>i. Mapping.map_values (\<lambda>_. forget_skipped) (ic_entries (chunk_cache (drop (i * LIBRARY_CHUNK_SIZE) ?xs)))"
  let ?es = "concat (map (\<lambda>c. resolved_entries X (entries_of c)) (map ?c [0..<n]))"
  have dir: "dir = library_chunks_dir E raw"
    using load(1) by (auto simp: try_load_library_manifest_def Let_def split: option.splits if_split_asm)
  have "s' \<noteq> s"
    using load(1) none by (auto simp: try_load_library_manifest_def Let_def)
  then have n: "n = div_ceil (length ?xs) LIBRARY_CHUNK_SIZE"
    and chunk: "\<And>i. i < n \<Longrightarrow> load_library_chunk E s' dir i = Some (?c i)"
    using saved_manifest_chunks [OF codec removed, of X ix s dir n] load(1) room by (auto simp: s')
  have first: "load_library_chunk E s' dir 0 = Some (?c 0)" using chunk load(2) by simp
  have "load_chunks E s' dir 1 (n - 1) = Some (map ?c [1..<1 + (n - 1)])"
    by (rule load_chunks_Some) (use chunk in auto)
  then have rest: "load_chunks E s' dir 1 (n - 1) = Some (map ?c [1..<n])" using load(2) by simp
  have chunks: "?c 0 # map ?c [1..<n] = map ?c [0..<n]"
    using load(2) by (subst (2) upt_conv_Cons) simp_all
  have es: "mset ?es = mset (map (restored_entry X) ?xs)"
    using read_library_chunks [OF ok fin, of E] by (simp add: n o_def)
  have room': "length (ft_by_id (ix_file_table ix0)) + length ?xs \<le> 2 ^ 32" using room by simp
  note lib = saved_library_restorable [OF ok fin es new room']
  obtain ix1 where ix1: "fold_opt (restore_library_chunk X (canonical_root E root)) (map ?c [0..<n]) ix0 = Some ix1"
    "index_inv X ix1"
    "\<forall>u. Mapping.lookup (ix_files ix1) u = (case map_of ?es u of
        Some (_, e) \<Rightarrow> Some (with_classified_source_set ix0 u (en_file_data e))
      | None \<Rightarrow> Mapping.lookup (ix_files ix0) u)"
    "ix_library_uris ix1 = ix_library_uris ix0
       \<union> fst ` {x \<in> set ?es. \<not> path_starts_with (fst (snd x)) (canonical_root E root)}"
    using restore_chunks_exact [OF inv lib(1), where root = "canonical_root E root"] by blast
  let ?ix1 = "rebuild_bare_name_cache (ix1\<lparr>ix_bare_names_dirty := True\<rparr>)"
  have "index_source_paths_start X E root s' ix0 = (s', Some (?ix1, None))"
    using raw load first fresh rest chunks ix1(1)
    by (simp add: index_source_paths_start_def Let_def canonical_root_def [symmetric])
  moreover have "Mapping.lookup (ix_files ?ix1) u =
        (case if u \<in> ix_library_uris ix then Mapping.lookup (ix_files ix) u else None of
           Some d \<Rightarrow> Some (with_classified_source_set ix0 u (restored_data d))
         | None \<Rightarrow> Mapping.lookup (ix_files ix0) u)" for u
  proof -
    have es_u: "map_of ?es u = (if u \<in> ix_library_uris ix then
        map_option (\<lambda>d. (path_of_str (path_to_str (the (x_url_to_file_path X u))),
          forget_skipped (cache_entry_of E (the (x_url_to_file_path X u)) (Mapping.lookup (ix_content_hashes ix) u)
            (strip_library_file_data d) (path_file_stem (the (x_url_to_file_path X u))))))
          (Mapping.lookup (ix_files ix) u) else None)" by (rule lib(2))
    have "Mapping.lookup (ix_files ?ix1) u = Mapping.lookup (ix_files ix1) u" by simp
    also have "\<dots> = (case map_of ?es u of
        Some (_, e) \<Rightarrow> Some (with_classified_source_set ix0 u (en_file_data e))
      | None \<Rightarrow> Mapping.lookup (ix_files ix0) u)" using ix1(3) by blast
    also have "\<dots> = (case if u \<in> ix_library_uris ix then Mapping.lookup (ix_files ix) u else None of
           Some d \<Rightarrow> Some (with_classified_source_set ix0 u (restored_data d))
         | None \<Rightarrow> Mapping.lookup (ix_files ix0) u)"
      unfolding es_u by (simp add: restored_data_def forget_skipped_def cache_entry_of_def split: option.split)
    finally show ?thesis .
  qed
  moreover have "ix_library_uris ?ix1 = ix_library_uris ix0 \<union> {u \<in> ix_library_uris ix. Mapping.lookup (ix_files ix) u \<noteq> None
      \<and> \<not> path_starts_with (path_of_str (path_to_str (the (x_url_to_file_path X u)))) (canonical_root E root)}"
  proof -
    have "distinct (map fst ?es)" using lib(1) unfolding restorable_def by blast
    from fst_marked_entries [OF this lib(2), where P = "\<lambda>p. \<not> path_starts_with p (canonical_root E root)"]
    show ?thesis using ix1(4) by (simp del: set_concat set_map)
  qed
  ultimately show ?thesis using ix1(2) by (intro exI [of _ ?ix1]) simp
qed

lemma example_library_collected:
  "length (collect_library_entries example_externals E example_library_index) = 1"
  unfolding collect_library_entries_def
  by (simp add: example_library_index_def library_entry_def example_externals_def List.map_filter_def)

theorem library_warm_start_witness:
  "\<exists>E s ix0 ix1. ix_source_paths_raw ix0 = [lit ''/lib'']
     \<and> Mapping.lookup (ix_files ix0) (lit ''/lib/A.kt'') = None
     \<and> index_source_paths_start example_externals E [RootDir, Normal (lit ''w'')] s ix0 = (s, Some (ix1, None))
     \<and> Mapping.lookup (ix_files ix1) (lit ''/lib/A.kt'') \<noteq> None \<and> ix_library_uris ix1 = {lit ''/lib/A.kt''}"
proof -
  define xs where "xs = collect_library_entries example_externals (example_cache_env undefined) example_library_index"
  define E where "E = example_cache_env (chunk_cache xs)"
  define raw where "raw = [lit ''/lib'']"
  define ix0 where "ix0 = (indexer_new False)\<lparr>ix_source_paths_raw := raw\<rparr>"
  define s where "s = (Mapping.empty :: store)"
  define dir where "dir = library_chunks_dir E raw"
  define s' where "s' = save_library_cache example_externals E raw example_library_index s"
  have es: "collect_library_entries example_externals E example_library_index = xs"
    unfolding xs_def by (rule collect_library_entries_cong) (simp add: E_def fun_eq_iff)
  have xs: "xs = [(lit ''/lib/A.kt'', cache_entry_of E (path_of_str (lit ''/lib/A.kt'')) None
      (strip_library_file_data default_file_data) (Some (lit ''A'')))]"
    unfolding es [symmetric] collect_library_entries_def
    by (simp add: example_library_index_def library_entry_def example_externals_def List.map_filter_def
        path_of_str_def path_to_str_def component_of_def path_file_stem_def name_stem_def rfind_char_def
        indexer_new_def)
  have codec: "codec_ok E" unfolding E_def by (rule example_codec_ok)
  have count: "library_chunk_count xs = 1"
    by (simp add: xs library_chunk_count_def div_ceil_def LIBRARY_CHUNK_SIZE_def)
  have st: "s' = Mapping.update (library_manifest_path dir) [35, 1]
      (Mapping.update (library_chunk_path dir 0) [7, 2] s)"
    unfolding s'_def save_library_cache_def Let_def es count write_library_chunks_def dir_def [symmetric]
    by (simp add: fs_create_dir_all_def fs_remove_def s_def commit_library_manifest_def fs_write_def
        CACHE_VERSION_def E_def)
  have load: "try_load_library_manifest E s' raw = Some (dir, 1)"
    unfolding st try_load_library_manifest_def Let_def dir_def [symmetric]
    using library_chunk_not_manifest [of dir 0]
    by (simp add: E_def CACHE_VERSION_def MAX_LIBRARY_CHUNKS_def)
  have chunk: "load_library_chunk E s' dir 0 = Some (Mapping.update (lit ''/lib/A.kt'')
      (forget_skipped (snd (hd xs))) Mapping.empty)"
  proof -
    have "ce_decode E [7, 2] = Some (forget_skipped_cache (chunk_cache xs))"
      by (simp add: E_def example_cache_env_def forget_skipped_cache_def forget_skipped_def [abs_def])
    moreover have "Mapping.lookup s' (library_chunk_path dir 0) = Some [7, 2]"
      using library_chunk_not_manifest [of dir 0] by (simp add: st)
    moreover have "Mapping.map_values (\<lambda>_. forget_skipped) (Mapping.of_alist (rev xs))
        = Mapping.update (lit ''/lib/A.kt'') (forget_skipped (snd (hd xs))) Mapping.empty"
      by (rule mapping_eqI) (simp add: xs lookup_map_values lookup_of_alist)
    ultimately show ?thesis
      by (simp add: load_library_chunk_def forget_skipped_cache_def chunk_cache_def LIBRARY_CHUNK_SIZE_def xs)
  qed
  have fresh: "library_cache_is_fresh E s' (resolve_source_paths raw (canonical_root E [RootDir, Normal (lit ''w'')]))
      (library_manifest_path dir) (the (load_library_chunk E s' dir 0)) dir 1"
  proof -
    have md: "ce_metadata E q = Some \<lparr>md_modified = Some 5000000000, md_len = 7\<rparr>"
      "ce_manifest_modified E q = Some 6000000000" for q
      unfolding E_def by (simp_all add: example_cache_env_def)
    show ?thesis
      unfolding chunk option.sel
      by (simp add: library_cache_is_fresh_def sample_entries_fresh_def sample_entries_def xs forget_skipped_def
          entry_fresh_def cache_entry_of_def md meta_mtime_def modified_secs_def meta_size_def
          raw_def resolve_source_paths_def Let_def list_all_iff)
  qed
  have "\<exists>ix1. index_source_paths_start example_externals E [RootDir, Normal (lit ''w'')] s' ix0 = (s', Some (ix1, None))
    \<and> index_inv example_externals ix1
    \<and> (\<forall>u. Mapping.lookup (ix_files ix1) u =
        (case if u \<in> ix_library_uris example_library_index then Mapping.lookup (ix_files example_library_index) u else None of
           Some d \<Rightarrow> Some (with_classified_source_set ix0 u (restored_data d))
         | None \<Rightarrow> Mapping.lookup (ix_files ix0) u))
    \<and> ix_library_uris ix1 = ix_library_uris ix0 \<union> {u \<in> ix_library_uris example_library_index.
        Mapping.lookup (ix_files example_library_index) u \<noteq> None
        \<and> \<not> path_starts_with (path_of_str (path_to_str (the (x_url_to_file_path example_externals u))))
              (canonical_root E [RootDir, Normal (lit ''w'')])}"
  proof (rule library_warm_start [OF _ _ _ codec _ _ s'_def load _ fresh])
    show "index_inv example_externals ix0"
      unfolding ix0_def using index_inv_new [of example_externals False]
      by (simp add: index_inv_def files_registered_def maps_match_def)
    show "library_paths_ok example_externals example_library_index"
      by (simp add: library_paths_ok_def example_library_index_def example_externals_def
          path_of_str_def path_to_str_def component_of_def)
    show "length (ft_by_id (ix_file_table ix0)) + length (collect_library_entries example_externals E example_library_index)
        \<le> 2 ^ 32 - 1"
      unfolding example_library_collected by (simp add: ix0_def indexer_new_def ft_new_def)
  qed (simp_all add: ix0_def raw_def E_def s_def example_library_index_def indexer_new_def)
  then obtain ix1 where "index_source_paths_start example_externals E [RootDir, Normal (lit ''w'')] s' ix0 = (s', Some (ix1, None))"
    and files: "\<forall>u. Mapping.lookup (ix_files ix1) u =
        (case if u \<in> ix_library_uris example_library_index then Mapping.lookup (ix_files example_library_index) u else None of
           Some d \<Rightarrow> Some (with_classified_source_set ix0 u (restored_data d))
         | None \<Rightarrow> Mapping.lookup (ix_files ix0) u)"
    and uris: "ix_library_uris ix1 = ix_library_uris ix0 \<union> {u \<in> ix_library_uris example_library_index.
        Mapping.lookup (ix_files example_library_index) u \<noteq> None
        \<and> \<not> path_starts_with (path_of_str (path_to_str (the (x_url_to_file_path example_externals u))))
              (canonical_root E [RootDir, Normal (lit ''w'')])}" by blast
  moreover have "canonical_root E [RootDir, Normal (lit ''w'')] = [RootDir, Normal (lit ''w'')]"
    by (simp add: canonical_root_def E_def example_cache_env_def)
  then have "ix_library_uris ix1 = {lit ''/lib/A.kt''}"
    by (simp add: uris ix0_def indexer_new_def example_library_index_def example_externals_def 
        path_of_str_def path_to_str_def component_of_def path_starts_with_def Collect_conv_if)
  moreover have "Mapping.lookup (ix_files ix1) (lit ''/lib/A.kt'') \<noteq> None"
    by (simp add: files [rule_format] example_library_index_def)
  moreover have "ix_source_paths_raw ix0 = [lit ''/lib'']" "Mapping.lookup (ix_files ix0) (lit ''/lib/A.kt'') = None"
    by (simp_all add: ix0_def raw_def)
  ultimately show ?thesis by blast
qed

text \<open>An empty library cache is never left: once a library cache was saved while no library file
  was indexed, \<open>index_source_paths\<close> returns at once in every later session, before it compares
  any time stamp, whatever files the source paths have meanwhile, and asks for no scan.\<close>

theorem empty_library_cache_never_rescans:
  assumes "codec_ok E" and "ce_encode_manifest E \<lparr>lm_version = CACHE_VERSION, lm_chunk_count = 0\<rparr> = Some b"
    and "\<And>q. ce_write E q = Wrote" and "\<And>q. ce_remove E q = Done" and "\<And>q. ce_create_dir_all E q = Done"
    and "collect_library_entries X E ix = []"
    and "raw = ix_source_paths_raw ix0"
  shows "index_source_paths_start X E root (save_library_cache X E raw ix s) ix0
    = (save_library_cache X E raw ix s, Some (ix0, None))"
proof -
  let ?mp = "library_manifest_path (library_chunks_dir E raw)"
  have "Mapping.lookup (save_library_cache X E raw ix s) ?mp = Some b"
    using assms(2-6)
    by (simp add: save_library_cache_def Let_def fs_create_dir_all_def fs_remove_def write_library_chunks_def
        library_chunk_count_def div_ceil_def commit_library_manifest_def fs_write_def)
  then have "try_load_library_manifest E (save_library_cache X E raw ix s) raw = Some (library_chunks_dir E raw, 0)"
    using assms(1,2) by (simp add: try_load_library_manifest_def Let_def codec_ok_def)
  then show ?thesis by (simp add: index_source_paths_start_def Let_def assms(7))
qed

theorem empty_library_cache_never_rescans_witness:
  "\<exists>E s' ix0. ix_source_paths_raw ix0 = [lit ''/lib''] \<and> s' = save_library_cache example_externals E [lit ''/lib''] ix0 Mapping.empty
     \<and> index_source_paths_start example_externals E [RootDir] s' ix0 = (s', Some (ix0, None))"
proof -
  define ix0 where "ix0 = (indexer_new False)\<lparr>ix_source_paths_raw := [lit ''/lib'']\<rparr>"
  let ?E = "example_cache_env undefined"
  have "collect_library_entries example_externals ?E ix0 = []"
    by (simp add: collect_library_entries_def ix0_def indexer_new_def entries_of_def sorted_keys_def
        Mapping.ordered_keys_def List.map_filter_simps)
  then have "index_source_paths_start example_externals ?E [RootDir]
      (save_library_cache example_externals ?E [lit ''/lib''] ix0 Mapping.empty) ix0
    = (save_library_cache example_externals ?E [lit ''/lib''] ix0 Mapping.empty, Some (ix0, None))"
    by (intro empty_library_cache_never_rescans [OF example_codec_ok, where b = "[35, 0]"])
       (simp_all add: CACHE_VERSION_def ix0_def)
  moreover have "ix_source_paths_raw ix0 = [lit ''/lib'']" by (simp add: ix0_def)
  ultimately show ?thesis by blast
qed

end
