(* ===== verification/Scan.thy ===== *)
theory Scan
  imports Source_Paths "HOL-Library.Product_Lexorder"
begin

text \<open>
  The workspace scan: \<^verbatim>\<open>src/indexer/scan.rs\<close>. Discovery, the split into cache hits and
  files to parse, the parse tasks, and what is done with the result.

  A scan reads the generation of the workspace root between its steps, while other tasks may bump it:
  the readings are arguments (\<open>gens i\<close> is the reading before the \<open>i\<close>-th path). Progress
  notifications and the status file are left out. \<open>index_workspace_impl\<close> is given the
  readings of one run; \<open>finalize_workspace_scan\<close> awaits the task that applies the result, so
  it is split there and takes what the other tasks do to the index meanwhile as an argument.
\<close>

section \<open>Limits\<close>

definition MAX_FILES_UNLIMITED :: nat where
  "MAX_FILES_UNLIMITED = 2 ^ 64 - 1"

definition DEFAULT_MAX_INDEX_FILES :: nat where
  "DEFAULT_MAX_INDEX_FILES = MAX_FILES_UNLIMITED"

text \<open>\<open>s.parse::<usize>()\<close>.\<close>

definition parse_usize :: "str \<Rightarrow> nat option" where
  "parse_usize s =
     (let digits = (if s \<noteq> [] \<and> hd s = ch CHR ''+'' then tl s else s);
          v = digits_value digits
      in if digits = [] \<or> \<not> list_all is_ascii_digit digits then None
         else if v < 2 ^ 64 then Some v else None)"

definition resolve_max_files :: "scan_fs \<Rightarrow> nat \<Rightarrow> nat" where
  "resolve_max_files F default_max =
     (case Option.bind (sf_env_max_files F) parse_usize of Some n \<Rightarrow> n | None \<Rightarrow> default_max)"

section \<open>Discovery\<close>

text \<open>Paths compare component by component, in the order of \<open>std::path::Component\<close>.\<close>

instantiation component :: linorder
begin

definition component_rank :: "component \<Rightarrow> nat \<times> str" where
  "component_rank c =
     (case c of RootDir \<Rightarrow> (0, []) | CurDir \<Rightarrow> (1, []) | ParentDir \<Rightarrow> (2, []) | Normal w \<Rightarrow> (3, w))"

definition less_eq_component :: "component \<Rightarrow> component \<Rightarrow> bool" where
  "less_eq_component a b \<longleftrightarrow> component_rank a \<le> component_rank b"

definition less_component :: "component \<Rightarrow> component \<Rightarrow> bool" where
  "less_component a b \<longleftrightarrow> component_rank a < component_rank b"

instance
proof
  have inj: "component_rank a = component_rank b \<Longrightarrow> a = b" for a b
    by (auto simp: component_rank_def split: component.splits)
  show "x < y \<longleftrightarrow> x \<le> y \<and> \<not> y \<le> x" for x y :: component
    unfolding less_component_def less_eq_component_def by (rule less_le_not_le)
  show "x \<le> x" for x :: component by (simp add: less_eq_component_def)
  show "x \<le> y \<Longrightarrow> y \<le> z \<Longrightarrow> x \<le> z" for x y z :: component
    unfolding less_eq_component_def by (rule order_trans)
  show "x \<le> y \<Longrightarrow> y \<le> x \<Longrightarrow> x = y" for x y :: component
    using inj unfolding less_eq_component_def by (blast intro: antisym)
  show "x \<le> y \<or> y \<le> x" for x y :: component
    unfolding less_eq_component_def by (rule linear)
qed

end

definition depth_key :: "path \<Rightarrow> nat \<times> path" where
  "depth_key p = (length p, p)"

definition order_paths_shallowest_first :: "path list \<Rightarrow> path list" where
  "order_paths_shallowest_first = sort_key depth_key"

record discovered_paths =
  dp_paths :: "path list"
  dp_total :: nat
  dp_indexed_count :: nat
  dp_truncated :: bool

definition discover_workspace_paths ::
  "cache_env \<Rightarrow> scan_fs \<Rightarrow> path \<Rightarrow> nat \<Rightarrow> index_cache option \<Rightarrow> ignore_matcher option \<Rightarrow> discovered_paths" where
  "discover_workspace_paths E F root max_files cache matcher =
     (let complete = (case cache of Some c \<Rightarrow> ic_complete_scan c | None \<Rightarrow> False);
          paths = (if complete then warm_discover_files E F root (the cache) matcher
                   else find_source_files F root matcher);
          total = length paths;
          effective_max = (if complete then MAX_FILES_UNLIMITED else max_files);
          taken = take effective_max (order_paths_shallowest_first paths)
      in \<lparr>dp_paths = taken, dp_total = total, dp_indexed_count = length taken,
          dp_truncated = (total > effective_max \<and> effective_max \<noteq> MAX_FILES_UNLIMITED)\<rparr>)"

section \<open>The scan session\<close>

record partition_result =
  pr_cached :: "file_index_result list"
  pr_to_parse :: "path list"
  pr_cache_hits :: nat
  pr_aborted :: bool

record parse_work_item =
  wi_path :: path
  wi_key :: str
  wi_start_gen :: "64 word"

definition scan_mtime :: "cache_env \<Rightarrow> path \<Rightarrow> 64 word" where
  "scan_mtime E p = meta_mtime (ce_metadata E p)"

definition on_disk_size :: "cache_env \<Rightarrow> path \<Rightarrow> 64 word" where
  "on_disk_size E p = (case ce_metadata E p of Some m \<Rightarrow> md_len m | None \<Rightarrow> - 1)"

text \<open>The cached result of one path, if its entry is that of the file on disk.\<close>

definition scan_cache_hit :: "externals \<Rightarrow> cache_env \<Rightarrow> index_cache option \<Rightarrow> path \<Rightarrow> file_index_result option" where
  "scan_cache_hit X E cache p =
     Option.bind cache (\<lambda>c.
     Option.bind (Mapping.lookup (ic_entries c) (path_to_str p)) (\<lambda>e.
       if en_mtime_secs e = scan_mtime E p \<and> en_file_size e = on_disk_size E p
       then map_option (\<lambda>uri. cache_entry_to_file_result uri e) (x_url_from_file_path X p)
       else None))"

primrec partition_from ::
  "externals \<Rightarrow> cache_env \<Rightarrow> index_cache option \<Rightarrow> 64 word \<Rightarrow> (nat \<Rightarrow> 64 word) \<Rightarrow> nat \<Rightarrow> path list
   \<Rightarrow> partition_result \<Rightarrow> partition_result" where
  "partition_from X E cache start_gen gens i [] r = r"
| "partition_from X E cache start_gen gens i (p # ps) r =
     (if gens i \<noteq> start_gen then r\<lparr>pr_aborted := True\<rparr>
      else partition_from X E cache start_gen gens (Suc i) ps
        (case scan_cache_hit X E cache p of
           Some res \<Rightarrow> r\<lparr>pr_cached := pr_cached r @ [res], pr_cache_hits := pr_cache_hits r + 1\<rparr>
         | None \<Rightarrow> r\<lparr>pr_to_parse := pr_to_parse r @ [p]\<rparr>))"

definition partition_cache_hits ::
  "externals \<Rightarrow> cache_env \<Rightarrow> path list \<Rightarrow> index_cache option \<Rightarrow> 64 word \<Rightarrow> (nat \<Rightarrow> 64 word) \<Rightarrow> partition_result" where
  "partition_cache_hits X E paths cache start_gen gens =
     partition_from X E cache start_gen gens 0 paths
       \<lparr>pr_cached = [], pr_to_parse = [], pr_cache_hits = 0, pr_aborted = False\<rparr>"

definition schedule_path ::
  "cache_env \<Rightarrow> 64 word \<Rightarrow> path \<Rightarrow> (str, 64 word) hmap \<Rightarrow> (str, 64 word) hmap \<times> parse_work_item option" where
  "schedule_path E start_gen p scheduled =
     (let key = path_to_str (case ce_canonicalize E p of Some q \<Rightarrow> q | None \<Rightarrow> p);
          item = \<lparr>wi_path = p, wi_key = key, wi_start_gen = start_gen\<rparr>
      in if Mapping.lookup scheduled key = Some start_gen then (scheduled, None)
         else (Mapping.update key start_gen scheduled, Some item))"

primrec schedule_from ::
  "cache_env \<Rightarrow> 64 word \<Rightarrow> (nat \<Rightarrow> 64 word) \<Rightarrow> nat \<Rightarrow> path list
   \<Rightarrow> (str, 64 word) hmap \<times> parse_work_item list \<times> bool \<Rightarrow> (str, 64 word) hmap \<times> parse_work_item list \<times> bool" where
  "schedule_from E start_gen gens i [] st = st"
| "schedule_from E start_gen gens i (p # ps) st =
     (let (scheduled, items, aborted) = st
      in if gens i \<noteq> start_gen then (scheduled, items, True)
         else (let (scheduled', item) = schedule_path E start_gen p scheduled
               in schedule_from E start_gen gens (Suc i) ps
                    (scheduled', (case item of Some it \<Rightarrow> items @ [it] | None \<Rightarrow> items), aborted)))"

text \<open>\<open>schedule_parse_work\<close> on the cleared map of scheduled paths.\<close>

definition schedule_parse_work ::
  "cache_env \<Rightarrow> 64 word \<Rightarrow> (nat \<Rightarrow> 64 word) \<Rightarrow> path list \<Rightarrow> (str, 64 word) hmap \<times> parse_work_item list \<times> bool" where
  "schedule_parse_work E start_gen gens to_parse =
     schedule_from E start_gen gens 0 to_parse (Mapping.empty, [], False)"

text \<open>One parse task, with the generation it reads when it starts. A finished parse releases the
  path it was scheduled under.\<close>

definition parse_work_item_result ::
  "externals \<Rightarrow> scan_fs \<Rightarrow> 64 word \<Rightarrow> parse_work_item \<Rightarrow> file_index_result option" where
  "parse_work_item_result X F gen item =
     (if gen \<noteq> wi_start_gen item then None
      else Option.bind (sf_read_to_string F (wi_path item)) (\<lambda>content.
           map_option (\<lambda>uri. parse_file X uri content) (x_url_from_file_path X (wi_path item))))"

definition release_scheduled :: "parse_work_item \<Rightarrow> (str, 64 word) hmap \<Rightarrow> (str, 64 word) hmap" where
  "release_scheduled item scheduled =
     (if Mapping.lookup scheduled (wi_key item) = Some (wi_start_gen item)
      then Mapping.delete (wi_key item) scheduled else scheduled)"

definition run_parse_tasks ::
  "externals \<Rightarrow> scan_fs \<Rightarrow> (nat \<Rightarrow> 64 word) \<Rightarrow> parse_work_item list \<Rightarrow> file_index_result option list" where
  "run_parse_tasks X F gens items =
     map (\<lambda>(i, item). parse_work_item_result X F (gens i) item) (enumerate 0 items)"

section \<open>Results\<close>

definition aborted_scan_result :: "path \<Rightarrow> workspace_index_result" where
  "aborted_scan_result root =
     \<lparr>wr_files = [], wr_stats = \<lparr>st_cache_hits = 0, st_files_parsed = 0, st_symbols_extracted = 0\<rparr>,
      wr_workspace_root = root, wr_aborted = True, wr_complete_scan = False\<rparr>"

definition queue_reindex_request :: "path \<Rightarrow> nat \<Rightarrow> indexer \<Rightarrow> indexer" where
  "queue_reindex_request root max_files ix =
     ix\<lparr>ix_pending_reindex_root := Some root, ix_pending_reindex_max := max_files,
        ix_pending_reindex := True, ix_workspace_root := bump_generation (ix_workspace_root ix)\<rparr>"

definition build_workspace_result ::
  "path \<Rightarrow> discovered_paths \<Rightarrow> file_index_result list \<Rightarrow> file_index_result option list \<Rightarrow> nat \<Rightarrow> workspace_index_result" where
  "build_workspace_result root discovered cached_results results cache_hits =
     (let parsed_results = List.map_filter (\<lambda>r. r) results;
          all_results = cached_results @ parsed_results
      in \<lparr>wr_files = all_results,
          wr_stats = \<lparr>st_cache_hits = cache_hits, st_files_parsed = length parsed_results,
            st_symbols_extracted = sum_list (map (\<lambda>f. length (fd_symbols (fr_data f))) all_results)\<rparr>,
          wr_workspace_root = root, wr_aborted = False, wr_complete_scan = \<not> dp_truncated discovered\<rparr>)"

text \<open>The generation readings of one run: in the partition, in the scheduling, of the tasks, and
  after the parse.\<close>

record scan_readings =
  rd_partition :: "nat \<Rightarrow> 64 word"
  rd_schedule :: "nat \<Rightarrow> 64 word"
  rd_tasks :: "nat \<Rightarrow> 64 word"
  rd_end :: "64 word"

text \<open>The result, and whether the run holds the indexing guard.\<close>

definition index_workspace_impl ::
  "externals \<Rightarrow> cache_env \<Rightarrow> scan_fs \<Rightarrow> scan_readings \<Rightarrow> store \<Rightarrow> path \<Rightarrow> nat \<Rightarrow> indexer
   \<Rightarrow> indexer \<times> workspace_index_result \<times> bool" where
  "index_workspace_impl X E F R s root max_files ix =
     (if ix_indexing_in_progress ix
      then (queue_reindex_request root max_files ix, aborted_scan_result root, False)
      else
        (let start_gen = ws_generation (ix_workspace_root ix);
             cache = try_load_cache E s root;
             discovered = discover_workspace_paths E F root max_files cache (ix_ignore_matcher ix);
             pr = partition_cache_hits X E (dp_paths discovered) cache start_gen (rd_partition R);
             parse_count = length (pr_to_parse pr);
             (scheduled, items, scheduling_aborted) =
               schedule_parse_work E start_gen (rd_schedule R) (pr_to_parse pr);
             results = run_parse_tasks X F (rd_tasks R) items;
             finished = filter (\<lambda>(item, r). r \<noteq> None) (zip items results);
             ix1 = ix\<lparr>ix_indexing_in_progress := True,
                      ix_parse_tasks_completed := length finished, ix_parse_tasks_total := parse_count,
                      ix_scheduled_paths := fold (\<lambda>(item, r). release_scheduled item) finished scheduled\<rparr>;
             aborted_early = (pr_aborted pr \<or> scheduling_aborted \<or> rd_end R \<noteq> start_gen)
         in if aborted_early then (ix1, aborted_scan_result root, True)
            else (ix1, build_workspace_result root discovered (pr_cached pr) results (pr_cache_hits pr), True)))"

section \<open>Finishing a scan\<close>

definition drop_guard :: "indexer \<Rightarrow> indexer" where
  "drop_guard ix = ix\<lparr>ix_indexing_in_progress := False\<rparr>"

definition save_cache_to_disk :: "externals \<Rightarrow> cache_env \<Rightarrow> bool \<Rightarrow> indexer \<Rightarrow> store \<Rightarrow> store" where
  "save_cache_to_disk X E allow_shrink ix s =
     (case ws_path (ix_workspace_root ix) of
        None \<Rightarrow> s
      | Some root \<Rightarrow> save_cache X E root ix (ix_last_scan_complete ix) allow_shrink s)"

text \<open>Up to the end of the task that applies the result; \<open>None\<close> where that task panics.\<close>

definition finalize_apply :: "externals \<Rightarrow> workspace_index_result \<Rightarrow> indexer \<Rightarrow> indexer option" where
  "finalize_apply X r ix =
     apply_workspace_result X r (ix\<lparr>ix_last_scan_complete := wr_complete_scan r\<rparr>)"

definition finalize_save ::
  "externals \<Rightarrow> cache_env \<Rightarrow> workspace_index_result \<Rightarrow> indexer \<Rightarrow> store \<Rightarrow> store \<times> indexer" where
  "finalize_save X E r ix s =
     (if st_files_parsed (wr_stats r) > 0 \<or> wr_complete_scan r
      then (save_cache_to_disk X E True ix s, drop_guard ix)
      else (s, drop_guard ix))"

definition finalize_workspace_scan ::
  "externals \<Rightarrow> cache_env \<Rightarrow> workspace_index_result \<Rightarrow> (indexer \<Rightarrow> indexer) \<Rightarrow> indexer \<Rightarrow> store
   \<Rightarrow> store \<times> (indexer \<times> source_scan option) option" where
  "finalize_workspace_scan X E r meanwhile ix s =
     (let (s1, ix1) = (case finalize_apply X r ix of
                         Some ix' \<Rightarrow> finalize_save X E r (meanwhile ix') s
                       | None \<Rightarrow> (s, drop_guard (meanwhile (ix\<lparr>ix_last_scan_complete := wr_complete_scan r\<rparr>))))
      in index_source_paths_start X E (wr_workspace_root r) s1 ix1)"

datatype pending_step = NothingPending indexer | StartPending path nat indexer

text \<open>One round of \<open>run_pending_reindex\<close> up to its scan.\<close>

definition claim_pending :: "indexer \<Rightarrow> pending_step" where
  "claim_pending ix =
     (if ix_indexing_in_progress ix \<or> \<not> ix_pending_reindex ix then NothingPending ix
      else (let ix1 = ix\<lparr>ix_pending_reindex := False, ix_pending_reindex_root := None\<rparr>
            in case ix_pending_reindex_root ix of
                 Some r \<Rightarrow> StartPending r (ix_pending_reindex_max ix) ix1
               | None \<Rightarrow>
                   (case ws_path (ix_workspace_root ix) of
                      Some r \<Rightarrow> StartPending r (ix_pending_reindex_max ix) ix1
                    | None \<Rightarrow> NothingPending ix1)))"

text \<open>A queued scan that was aborted puts its request back, unless a newer one took its place.\<close>

definition requeue_aborted :: "path \<Rightarrow> indexer \<Rightarrow> indexer" where
  "requeue_aborted root ix =
     ix\<lparr>ix_pending_reindex_root :=
          (case ix_pending_reindex_root ix of None \<Rightarrow> Some root | Some r \<Rightarrow> Some r),
        ix_pending_reindex := True\<rparr>"

section \<open>Priority files\<close>

definition index_file_at :: "externals \<Rightarrow> scan_fs \<Rightarrow> path \<Rightarrow> indexer \<Rightarrow> (indexer \<times> file_data option) option" where
  "index_file_at X F p ix =
     (case (if sf_exists F p then sf_read_to_string F p else None, x_url_from_file_path X p) of
        (Some content, Some uri) \<Rightarrow> index_content X uri content ix
      | _ \<Rightarrow> Some (ix, None))"

text \<open>The first loop: index the initial files and collect the files of their supertypes. A panic of the
  task leaves the index as it was.\<close>

definition seed_priority ::
  "externals \<Rightarrow> scan_fs \<Rightarrow> path \<Rightarrow> path \<Rightarrow> path list \<times> indexer \<Rightarrow> path list \<times> indexer" where
  "seed_priority X F root p st =
     (let (priority_paths, ix) = st
      in if \<not> sf_exists F p \<or> sf_read_to_string F p = None \<or> x_url_from_file_path X p = None then st
         else (let (ix', indexed) = (case index_file_at X F p ix of Some r \<Rightarrow> r | None \<Rightarrow> (ix, None));
                   supers = (case indexed of Some d \<Rightarrow> map (\<lambda>(_, n, _). n) (fd_supers d) | None \<Rightarrow> []);
                   super_paths = (if supers = [] then []
                                  else sf_find_files_for_types F supers root (ix_ignore_matcher ix'))
               in (push_new priority_paths super_paths @ [p], ix')))"

text \<open>Both loops; the tasks of the second one index their files one after the other.\<close>

definition index_priority_files ::
  "externals \<Rightarrow> scan_fs \<Rightarrow> path \<Rightarrow> path list \<Rightarrow> indexer \<Rightarrow> indexer" where
  "index_priority_files X F root initial_paths ix =
     (if ix_indexing_in_progress ix \<or> initial_paths = [] then ix
      else (let (priority_paths, ix1) = fold (seed_priority X F root) initial_paths ([], ix)
            in fold (\<lambda>p ix. case index_file_at X F p ix of Some (ix', _) \<Rightarrow> ix' | None \<Rightarrow> ix)
                 (remdups_adj priority_paths) ix1))"

end
