(* ===== verification/Workspace_Scan.thy ===== *)
theory Workspace_Scan
  imports Scan Source_Props
begin

text \<open>
  The properties of the workspace scan: what discovery keeps of a large project, that a warm scan of
  an unchanged workspace reproduces the index that was saved, what a warm start cannot discover,
  and what happens to the cache when the root changes while a scan result is applied.
\<close>

section \<open>The saved workspace cache\<close>

text \<open>A workspace file and its path. The URIs are in normal form.\<close>

definition workspace_path :: "externals \<Rightarrow> indexer \<Rightarrow> path \<Rightarrow> url \<Rightarrow> file_data \<Rightarrow> bool" where
  "workspace_path X ix p u d \<longleftrightarrow> Mapping.lookup (ix_files ix) u = Some d \<and> u \<notin> ix_library_uris ix
     \<and> x_url_to_file_path X u = Some p"

definition workspace_paths_ok :: "externals \<Rightarrow> indexer \<Rightarrow> bool" where
  "workspace_paths_ok X ix \<longleftrightarrow> finite (Mapping.keys (ix_files ix))
     \<and> (\<forall>u d. Mapping.lookup (ix_files ix) u = Some d \<longrightarrow> u \<notin> ix_library_uris ix \<longrightarrow> x_url_parse X u = Some u
          \<and> (\<exists>p. x_url_to_file_path X u = Some p \<and> x_url_from_file_path X p = Some u
               \<and> path_of_str (path_to_str p) = p))"

definition store_works :: "cache_env \<Rightarrow> bool" where
  "store_works E \<longleftrightarrow> (\<forall>q. ce_write E q = Wrote \<and> ce_rename E q = Done \<and> ce_create_dir_all E q = Done)"

lemma workspace_path_facts:
  assumes "workspace_paths_ok X ix" and "workspace_path X ix p u d"
  shows "x_url_parse X u = Some u" "x_url_from_file_path X p = Some u" "path_of_str (path_to_str p) = p"
proof -
  obtain q where "x_url_parse X u = Some u" "x_url_to_file_path X u = Some q"
    "x_url_from_file_path X q = Some u" "path_of_str (path_to_str q) = q"
    using assms unfolding workspace_paths_ok_def workspace_path_def by blast
  moreover have "q = p" using assms(2) calculation(2) by (simp add: workspace_path_def)
  ultimately show "x_url_parse X u = Some u" "x_url_from_file_path X p = Some u" "path_of_str (path_to_str p) = p"
    by auto
qed

text \<open>Entries written by a loop of insertions.\<close>

lemma lookup_fold_insert_from:
  assumes "\<And>x m. x \<in> set xs \<Longrightarrow> f x m = (case g x of None \<Rightarrow> m | Some (k, v) \<Rightarrow> Mapping.update k v m)"
    and "Mapping.lookup (fold f xs m) k = Some v"
  shows "(\<exists>x\<in>set xs. g x = Some (k, v)) \<or> Mapping.lookup m k = Some v"
  using assms
proof (induction xs arbitrary: m)
  case (Cons x xs)
  have step: "f x m = (case g x of None \<Rightarrow> m | Some (k, v) \<Rightarrow> Mapping.update k v m)"
    using Cons.prems(1) by simp
  have "(\<exists>y\<in>set xs. g y = Some (k, v)) \<or> Mapping.lookup (f x m) k = Some v"
    using Cons.IH [of "f x m"] Cons.prems by simp
  then show ?case
    unfolding step by (cases "g x") (auto split: prod.splits if_split_asm)
qed simp

lemma lookup_fold_insert_to:
  assumes "\<And>x m. x \<in> set xs \<Longrightarrow> f x m = (case g x of None \<Rightarrow> m | Some (k, v) \<Rightarrow> Mapping.update k v m)"
    and "(\<exists>x\<in>set xs. g x = Some (k, v)) \<or> Mapping.lookup m k = Some v"
    and "\<And>x v'. x \<in> set xs \<Longrightarrow> g x = Some (k, v') \<Longrightarrow> v' = v"
  shows "Mapping.lookup (fold f xs m) k = Some v"
  using assms
proof (induction xs arbitrary: m)
  case (Cons x xs)
  have step: "f x m = (case g x of None \<Rightarrow> m | Some (k, v) \<Rightarrow> Mapping.update k v m)"
    using Cons.prems(1) by simp
  have "(\<exists>y\<in>set xs. g y = Some (k, v)) \<or> Mapping.lookup (f x m) k = Some v"
    using Cons.prems(2) Cons.prems(3) [of x] unfolding step by (auto split: option.split prod.split)
  moreover have "v' = v" if "y \<in> set xs" "g y = Some (k, v')" for y v'
    using Cons.prems(3) [of y v'] that by simp
  ultimately show ?case using Cons.IH [of "f x m"] Cons.prems(1) by simp
qed simp

definition workspace_entry :: "externals \<Rightarrow> cache_env \<Rightarrow> indexer \<Rightarrow> str \<times> file_data \<Rightarrow> (str \<times> file_cache_entry) option" where
  "workspace_entry X E ix = (\<lambda>(u, d).
     if u \<in> ix_library_uris ix then None
     else Option.bind (x_url_parse X u) (\<lambda>url. map_option (\<lambda>p. (path_to_str p,
       cache_entry_of E p (Mapping.lookup (ix_content_hashes ix) u) d (file_stem_from_uri X url)))
         (x_url_to_file_path X url)))"

lemma save_cache_entry_eq:
  "save_cache_entry X E ix x m =
     (case workspace_entry X E ix x of None \<Rightarrow> m | Some (k, e) \<Rightarrow> Mapping.update k e m)"
  by (auto simp: save_cache_entry_def workspace_entry_def split: prod.split option.split)

lemma saved_entries:
  assumes ok: "workspace_paths_ok X ix"
  shows "Mapping.lookup (ic_entries (cache_of_index X E ix b)) k = Some e \<longleftrightarrow>
    (\<exists>p u d. workspace_path X ix p u d \<and> k = path_to_str p
       \<and> e = cache_entry_of E p (Mapping.lookup (ix_content_hashes ix) u) d (file_stem_from_uri X u))"
proof -
  have fin: "finite (Mapping.keys (ix_files ix))" using ok by (simp add: workspace_paths_ok_def)
  have entry: "(\<exists>x\<in>set (entries_of (ix_files ix)). workspace_entry X E ix x = Some (k, e)) \<longleftrightarrow>
      (\<exists>p u d. workspace_path X ix p u d \<and> k = path_to_str p
         \<and> e = cache_entry_of E p (Mapping.lookup (ix_content_hashes ix) u) d (file_stem_from_uri X u))" for k e
  proof
    assume "\<exists>x\<in>set (entries_of (ix_files ix)). workspace_entry X E ix x = Some (k, e)"
    then obtain u d where u: "Mapping.lookup (ix_files ix) u = Some d" "workspace_entry X E ix (u, d) = Some (k, e)"
      using set_entries_of [OF fin] by auto
    then have lib: "u \<notin> ix_library_uris ix" by (auto simp: workspace_entry_def)
    then obtain p where "x_url_to_file_path X u = Some p" "x_url_parse X u = Some u"
      using ok u(1) unfolding workspace_paths_ok_def by blast
    then show "\<exists>p u d. workspace_path X ix p u d \<and> k = path_to_str p
         \<and> e = cache_entry_of E p (Mapping.lookup (ix_content_hashes ix) u) d (file_stem_from_uri X u)"
      using u lib by (auto simp: workspace_path_def workspace_entry_def)
  next
    assume "\<exists>p u d. workspace_path X ix p u d \<and> k = path_to_str p
         \<and> e = cache_entry_of E p (Mapping.lookup (ix_content_hashes ix) u) d (file_stem_from_uri X u)"
    then obtain p u d where p: "workspace_path X ix p u d" "k = path_to_str p"
      "e = cache_entry_of E p (Mapping.lookup (ix_content_hashes ix) u) d (file_stem_from_uri X u)" by blast
    then have "workspace_entry X E ix (u, d) = Some (k, e)" "(u, d) \<in> set (entries_of (ix_files ix))"
      using workspace_path_facts(1) [OF ok p(1)] set_entries_of [OF fin]
      by (auto simp: workspace_entry_def workspace_path_def)
    then show "\<exists>x\<in>set (entries_of (ix_files ix)). workspace_entry X E ix x = Some (k, e)" by blast
  qed
  have unique: "e = e'" if "\<exists>x\<in>set (entries_of (ix_files ix)). workspace_entry X E ix x = Some (k, e)"
    "\<exists>x\<in>set (entries_of (ix_files ix)). workspace_entry X E ix x = Some (k, e')" for e e'
  proof -
    from that obtain p u d q v c where p: "workspace_path X ix p u d" "k = path_to_str p"
      "e = cache_entry_of E p (Mapping.lookup (ix_content_hashes ix) u) d (file_stem_from_uri X u)"
      and q: "workspace_path X ix q v c" "k = path_to_str q"
      "e' = cache_entry_of E q (Mapping.lookup (ix_content_hashes ix) v) c (file_stem_from_uri X v)"
      unfolding entry by blast
    have "p = q" using workspace_path_facts(3) [OF ok p(1)] workspace_path_facts(3) [OF ok q(1)] p(2) q(2) by simp
    moreover from this have "u = v"
      using workspace_path_facts(2) [OF ok p(1)] workspace_path_facts(2) [OF ok q(1)] by simp
    moreover from this have "d = c" using p(1) q(1) by (simp add: workspace_path_def)
    ultimately show ?thesis using p(3) q(3) by simp
  qed
  let ?xs = "entries_of (ix_files ix)"
  have "Mapping.lookup (fold (save_cache_entry X E ix) ?xs Mapping.empty) k = Some e
      \<longleftrightarrow> (\<exists>x\<in>set ?xs. workspace_entry X E ix x = Some (k, e))"
  proof
    assume "Mapping.lookup (fold (save_cache_entry X E ix) ?xs Mapping.empty) k = Some e"
    then show "\<exists>x\<in>set ?xs. workspace_entry X E ix x = Some (k, e)"
      using lookup_fold_insert_from [OF save_cache_entry_eq] by fastforce
  next
    assume some: "\<exists>x\<in>set ?xs. workspace_entry X E ix x = Some (k, e)"
    show "Mapping.lookup (fold (save_cache_entry X E ix) ?xs Mapping.empty) k = Some e"
      by (rule lookup_fold_insert_to [OF save_cache_entry_eq]) (use some unique in blast)+
  qed
  then show ?thesis unfolding entry cache_of_index_def index_cache.simps .
qed

lemma save_cache_stores:
  assumes "store_works E" and "ce_encode E (cache_of_index X E ix b) = Some bytes"
  shows "Mapping.lookup (save_cache X E root ix b True s) (workspace_cache_path E root) = Some bytes"
proof -
  have dir: "fs_create_dir_all E q = IoOk" for q using assms(1) by (simp add: store_works_def fs_create_dir_all_def)
  have "save_cache X E root ix b True s = write_and_rename E (workspace_cache_path E root) bytes s"
    by (simp add: save_cache_def Let_def dir assms(2) split: option.split)
  then show ?thesis
    using assms(1) workspace_tmp_differs [of E root]
    by (simp add: write_and_rename_def Let_def fs_write_def fs_rename_def store_works_def)
qed

lemma save_then_load:
  assumes "store_works E" and "codec_ok E" and "ce_encode E (cache_of_index X E ix b) = Some bytes"
  shows "try_load_cache E (save_cache X E root ix b True s) root
    = Some (forget_skipped_cache (cache_of_index X E ix b))"
  using save_cache_stores [OF assms(1,3)] assms(2,3)
  by (simp add: try_load_cache_def codec_ok_def forget_skipped_cache_def cache_of_index_def)

section \<open>Discovery\<close>

text \<open>The files discovery finds, before it orders and truncates them.\<close>

definition found_files :: "cache_env \<Rightarrow> scan_fs \<Rightarrow> path \<Rightarrow> index_cache option \<Rightarrow> ignore_matcher option \<Rightarrow> path list" where
  "found_files E F root cache matcher =
     (case cache of
        None \<Rightarrow> find_source_files F root matcher
      | Some c \<Rightarrow> if ic_complete_scan c then warm_discover_files E F root c matcher
                  else find_source_files F root matcher)"

lemma depth_key_inj: "inj depth_key"
  by (rule injI) (simp add: depth_key_def)

lemma order_paths_facts:
  "sorted (map depth_key (order_paths_shallowest_first ps))"
  "mset (order_paths_shallowest_first ps) = mset ps"
  by (simp_all add: order_paths_shallowest_first_def)

lemma order_paths_deterministic:
  assumes "mset ps = mset qs"
  shows "order_paths_shallowest_first ps = order_paths_shallowest_first qs"
  unfolding order_paths_shallowest_first_def
  by (rule sort_key_inj_key_eq) (use assms depth_key_inj in \<open>auto intro: inj_on_subset\<close>)

lemma take_sorted_least:
  assumes "sorted (map f xs)" and "p \<in># mset xs - mset (take n xs)" and "q \<in> set (take n xs)"
  shows "f q \<le> f p"
proof -
  have "mset xs - mset (take n xs) = mset (drop n xs)"
    by (metis add_diff_cancel_left' append_take_drop_id mset_append)
  then have "p \<in> set (drop n xs)" using assms(2) by simp
  moreover have "sorted (map f (take n xs) @ map f (drop n xs))"
    by (metis append_take_drop_id assms(1) map_append)
  ultimately show ?thesis using assms(3) by (auto simp: sorted_append)
qed

lemma discover_workspace_paths_eq:
  "discover_workspace_paths E F root max_files cache matcher =
     (let found = found_files E F root cache matcher;
          limit = (if (case cache of Some c \<Rightarrow> ic_complete_scan c | None \<Rightarrow> False) then MAX_FILES_UNLIMITED else max_files);
          taken = take limit (order_paths_shallowest_first found)
      in \<lparr>dp_paths = taken, dp_total = length found, dp_indexed_count = length taken,
          dp_truncated = (length found > limit \<and> limit \<noteq> MAX_FILES_UNLIMITED)\<rparr>)"
  by (auto simp: discover_workspace_paths_def found_files_def Let_def split: option.split)

text \<open>Discovery keeps the shallowest files: what it hands to the scan is ordered by depth and
  then by path, whatever the order the files were found in, and every file a limit leaves out is at
  least as deep as every file kept. The result is marked truncated exactly when some file is left
  out, so that a truncated scan never counts as complete; a limit never applies once a complete
  cache exists.\<close>

theorem discovery_shallowest:
  assumes "length (found_files E F root cache matcher) \<le> MAX_FILES_UNLIMITED"
  shows "let found = found_files E F root cache matcher;
             d = discover_workspace_paths E F root max_files cache matcher
    in sorted (map depth_key (dp_paths d)) \<and> mset (dp_paths d) \<subseteq># mset found
     \<and> (\<forall>p \<in># mset found - mset (dp_paths d). \<forall>q\<in>set (dp_paths d). depth_key q \<le> depth_key p)
     \<and> (dp_truncated d \<longleftrightarrow> mset (dp_paths d) \<noteq> mset found)
     \<and> (wr_complete_scan (build_workspace_result root d cached results hits) \<longleftrightarrow> mset (dp_paths d) = mset found)
     \<and> (\<not> dp_truncated d \<or> length (dp_paths d) = max_files)
     \<and> (\<forall>c. cache = Some c \<longrightarrow> ic_complete_scan c \<longrightarrow> \<not> dp_truncated d)"
proof -
  define found where "found = found_files E F root cache matcher"
  define complete where "complete = (case cache of Some c \<Rightarrow> ic_complete_scan c | None \<Rightarrow> False)"
  define limit where "limit = (if complete then MAX_FILES_UNLIMITED else max_files)"
  define os where "os = order_paths_shallowest_first found"
  define d where "d = discover_workspace_paths E F root max_files cache matcher"
  have d: "d = \<lparr>dp_paths = take limit os, dp_total = length found, dp_indexed_count = length (take limit os),
      dp_truncated = (length found > limit \<and> limit \<noteq> MAX_FILES_UNLIMITED)\<rparr>"
    by (simp add: d_def discover_workspace_paths_eq Let_def found_def limit_def complete_def os_def)
  have os: "sorted (map depth_key os)" "mset os = mset found" "length os = length found"
    unfolding os_def by (simp_all add: order_paths_facts mset_eq_length [OF order_paths_facts(2)])
  have len: "length found \<le> MAX_FILES_UNLIMITED" using assms by (simp add: found_def)
  have trunc: "dp_truncated d \<longleftrightarrow> length found > limit"
    using len by (auto simp: d)
  have all: "mset (dp_paths d) = mset found \<longleftrightarrow> length found \<le> limit"
  proof
    assume "mset (dp_paths d) = mset found"
    then have "length (dp_paths d) = length found" by (rule mset_eq_length)
    then have "length (take limit os) = length found" unfolding d by simp
    then show "length found \<le> limit" by (simp add: os(3))
  qed (simp add: d os)
  have "sorted (map depth_key (dp_paths d))"
    using os(1) by (simp add: d take_map [symmetric] sorted_wrt_take)
  moreover have "mset (dp_paths d) \<subseteq># mset found"
    unfolding os(2) [symmetric] by (simp add: d) (metis append_take_drop_id mset_append mset_subset_eq_add_left)
  moreover have "\<forall>p \<in># mset found - mset (dp_paths d). \<forall>q\<in>set (dp_paths d). depth_key q \<le> depth_key p"
    using take_sorted_least [OF os(1)] by (simp add: d os(2))
  moreover have "\<not> dp_truncated d \<or> length (dp_paths d) = max_files"
    using os(3) by (auto simp: d limit_def)
  moreover have "\<forall>c. cache = Some c \<longrightarrow> ic_complete_scan c \<longrightarrow> \<not> dp_truncated d"
    using len by (simp add: d limit_def complete_def)
  ultimately show ?thesis
    unfolding Let_def d_def [symmetric] found_def [symmetric] build_workspace_result_def
    using trunc all by auto
qed

definition example_scan_fs :: "path list \<Rightarrow> scan_fs" where
  "example_scan_fs ps = \<lparr>sf_run_fd = (\<lambda>_. None), sf_walk = (\<lambda>_ _. ps), sf_walk_unconstrained = (\<lambda>_. ps),
     sf_glob_match = (\<lambda>_ _. False), sf_cache_age_secs = (\<lambda>_. Some 5), sf_exists = (\<lambda>_. True),
     sf_read_to_string = (\<lambda>_. None), sf_find_files_for_types = (\<lambda>_ _ _. []), sf_env_max_files = None\<rparr>"

theorem discovery_shallowest_witness:
  "let ps = [[RootDir, Normal (lit ''a''), Normal (lit ''B.kt'')], [RootDir, Normal (lit ''A.kt'')]];
       E = example_cache_env \<lparr>ic_version = 35, ic_complete_scan = True, ic_entries = Mapping.empty\<rparr>;
       d = discover_workspace_paths E (example_scan_fs ps) [RootDir] 1 None None
   in dp_truncated d \<and> length (dp_paths d) = 1"
proof -
  define ps where "ps = [[RootDir, Normal (lit ''a''), Normal (lit ''B.kt'')], [RootDir, Normal (lit ''A.kt'')]]"
  let ?E = "example_cache_env \<lparr>ic_version = 35, ic_complete_scan = True, ic_entries = Mapping.empty\<rparr>"
  let ?d = "discover_workspace_paths ?E (example_scan_fs ps) [RootDir] 1 None None"
  have found: "found_files ?E (example_scan_fs ps) [RootDir] None None = ps"
    by (simp add: found_files_def find_source_files_def example_scan_fs_def)
  have "length (dp_paths ?d) \<le> 1"
    unfolding discover_workspace_paths_eq by (simp add: Let_def)
  then have "mset (dp_paths ?d) \<noteq> mset ps"
    using mset_eq_length [of "dp_paths ?d" ps] by (auto simp: ps_def)
  then show ?thesis
    using discovery_shallowest [where E = ?E and F = "example_scan_fs ps" and root = "[RootDir]" and cache = None
        and matcher = None and max_files = 1] found
    unfolding Let_def ps_def [symmetric] by (auto simp: ps_def MAX_FILES_UNLIMITED_def)
qed

section \<open>Warm scans\<close>

lemma partition_all_hits:
  assumes "\<And>p. p \<in> set ps \<Longrightarrow> scan_cache_hit X E cache p = Some (g p)" and "\<And>i. gens i = start_gen"
  shows "partition_from X E cache start_gen gens i ps r
    = r\<lparr>pr_cached := pr_cached r @ map g ps, pr_cache_hits := pr_cache_hits r + length ps\<rparr>"
  using assms by (induction ps arbitrary: i r) auto

text \<open>A file of the root that the ignore patterns match.\<close>

definition ignored :: "scan_fs \<Rightarrow> path \<Rightarrow> ignore_matcher option \<Rightarrow> path \<Rightarrow> bool" where
  "ignored F root matcher p \<longleftrightarrow>
     (\<exists>m. matcher = Some m \<and> \<not> matcher_is_empty m \<and> matcher_matches F m (relative_to root p))"

text \<open>The workspace of a saved index, as a later scan with the given ignore patterns finds it: every file is
  there and none is ignored, the cache has an age, and the files changed since are files of the index.\<close>

definition unchanged_workspace ::
  "externals \<Rightarrow> cache_env \<Rightarrow> scan_fs \<Rightarrow> path \<Rightarrow> ignore_matcher option \<Rightarrow> indexer \<Rightarrow> bool" where
  "unchanged_workspace X E F root matcher ix \<longleftrightarrow>
     (\<forall>p u d. workspace_path X ix p u d \<longrightarrow> sf_exists F p \<and> ce_metadata E p \<noteq> None \<and> \<not> ignored F root matcher p)
     \<and> (\<exists>age. sf_cache_age_secs F (workspace_cache_path E root) = Some age \<and> age + 2 < U64_MAX
          \<and> (\<forall>p\<in>set (find_source_files_newer_than F root (age + 2) matcher). \<exists>u d. workspace_path X ix p u d))"

lemma saved_cache_keys:
  assumes "workspace_paths_ok X ix"
  shows "Mapping.keys (ic_entries (cache_of_index X E ix b)) = path_to_str ` {p. \<exists>u d. workspace_path X ix p u d}"
proof -
  have "k \<in> Mapping.keys (ic_entries (cache_of_index X E ix b)) \<longleftrightarrow> (\<exists>p u d. workspace_path X ix p u d \<and> k = path_to_str p)" for k
    using saved_entries [OF assms, of E b k] by (auto simp: keys_lookup)
  then show ?thesis by blast
qed

lemma saved_cache_finite:
  assumes "workspace_paths_ok X ix"
  shows "finite {p. \<exists>u d. workspace_path X ix p u d}"
proof -
  have "{p. \<exists>u d. workspace_path X ix p u d} \<subseteq> (\<lambda>u. the (x_url_to_file_path X u)) ` Mapping.keys (ix_files ix)"
  proof
    fix p
    assume "p \<in> {p. \<exists>u d. workspace_path X ix p u d}"
    then obtain u d where "workspace_path X ix p u d" by blast
    then have "u \<in> Mapping.keys (ix_files ix)" "p = the (x_url_to_file_path X u)"
      by (simp_all add: workspace_path_def keys_lookup)
    then show "p \<in> (\<lambda>u. the (x_url_to_file_path X u)) ` Mapping.keys (ix_files ix)" by blast
  qed
  then show ?thesis using assms by (meson finite_imageI finite_subset workspace_paths_ok_def)
qed

lemma warm_discovery:
  assumes ok: "workspace_paths_ok X ix" and unchanged: "unchanged_workspace X E F root M ix"
  shows "set (warm_discover_files E F root (forget_skipped_cache (cache_of_index X E ix b)) M)
      = {p. \<exists>u d. workspace_path X ix p u d}"
    and "distinct (warm_discover_files E F root (forget_skipped_cache (cache_of_index X E ix b)) M)"
proof -
  let ?c = "forget_skipped_cache (cache_of_index X E ix b)"
  let ?P = "{p. \<exists>u d. workspace_path X ix p u d}"
  obtain age where age: "sf_cache_age_secs F (workspace_cache_path E root) = Some age" "age + 2 < U64_MAX"
    and newer: "\<And>p. p \<in> set (find_source_files_newer_than F root (age + 2) M) \<Longrightarrow> p \<in> ?P"
    using unchanged unfolding unchanged_workspace_def by auto
  have fin: "finite ?P" by (rule saved_cache_finite [OF ok])
  have keys: "Mapping.keys (ic_entries ?c) = path_to_str ` ?P"
    using saved_cache_keys [OF ok] by (simp add: forget_skipped_cache_def keys_map_values)
  have inv: "path_of_str (path_to_str p) = p" if "p \<in> ?P" for p
    using workspace_path_facts(3) [OF ok] that by blast
  have kept: "\<not> ignored F root M p" if "p \<in> ?P" for p
    using unchanged that unfolding unchanged_workspace_def by blast
  have "warm_cached_paths F root ?c M = sorted_keys (ic_entries ?c)"
    unfolding warm_cached_paths_def
  proof (rule filter_True, rule ballI)
    fix k assume "k \<in> set (sorted_keys (ic_entries ?c))"
    then obtain p where p: "p \<in> ?P" "k = path_to_str p"
      using fin keys by (auto simp: sorted_keys_def Mapping.ordered_keys_def)
    then show "case M of None \<Rightarrow> True
        | Some m \<Rightarrow> matcher_is_empty m \<or> \<not> matcher_matches F m (relative_to root (path_of_str k))"
      using kept [OF p(1)] inv [OF p(1)] by (auto simp: ignored_def split: option.split)
  qed
  then have cached: "set (warm_cached_paths F root ?c M) = path_to_str ` ?P" "distinct (warm_cached_paths F root ?c M)"
    using fin keys by (simp_all add: sorted_keys_def Mapping.ordered_keys_def)
  have exists: "sf_exists F p" if "p \<in> ?P" for p
    using unchanged that unfolding unchanged_workspace_def by blast
  have set: "set (map path_of_str (warm_cached_paths F root ?c M)) = ?P"
    unfolding set_map cached(1) image_image using inv by simp
  have "filter (\<lambda>f. path_to_str f \<notin> set (warm_cached_paths F root ?c M))
      (find_source_files_newer_than F root (age + 2) M) = []"
    using newer unfolding filter_empty_conv cached by blast
  moreover have "filter (sf_exists F) (map path_of_str (warm_cached_paths F root ?c M))
      = map path_of_str (warm_cached_paths F root ?c M)"
    using exists set by (intro filter_True) blast
  ultimately have eq: "warm_discover_files E F root ?c M = map path_of_str (warm_cached_paths F root ?c M)"
    using age by (simp add: warm_discover_files_def min_def Let_def)
  show "set (warm_discover_files E F root ?c M) = ?P" unfolding eq by (rule set)
  have "inj_on path_of_str (path_to_str ` ?P)"
    by (rule inj_on_inverseI [where g = path_to_str]) (use inv in force)
  then show "distinct (warm_discover_files E F root ?c M)"
    unfolding eq by (simp add: distinct_map cached)
qed

text \<open>The result a file of the saved index gives when it is read back from the cache.\<close>

definition cached_result :: "externals \<Rightarrow> indexer \<Rightarrow> path \<Rightarrow> file_index_result" where
  "cached_result X ix p =
     (let u = the (x_url_from_file_path X p);
          d = (the (Mapping.lookup (ix_files ix) u))\<lparr>fd_syntax_errors := []\<rparr>
      in \<lparr>fr_uri = u, fr_data = d, fr_supertypes = derive_supertypes u d,
          fr_content_hash = (case Mapping.lookup (ix_content_hashes ix) u of Some h \<Rightarrow> h | None \<Rightarrow> 0),
          fr_error = None\<rparr>)"

lemma cached_result_of:
  assumes "workspace_paths_ok X ix" and "workspace_path X ix p u d"
  shows "fr_uri (cached_result X ix p) = u" "fr_data (cached_result X ix p) = d\<lparr>fd_syntax_errors := []\<rparr>"
    "result_ok X (cached_result X ix p)"
  using workspace_path_facts [OF assms] assms(2)
  by (simp_all add: cached_result_def workspace_path_def result_ok_def Let_def)

lemma saved_cache_hit:
  assumes ok: "workspace_paths_ok X ix" and p: "workspace_path X ix p u d" and md: "ce_metadata E p \<noteq> None"
  shows "scan_cache_hit X E (Some (forget_skipped_cache (cache_of_index X E ix b))) p = Some (cached_result X ix p)"
proof -
  let ?e = "cache_entry_of E p (Mapping.lookup (ix_content_hashes ix) u) d (file_stem_from_uri X u)"
  have "Mapping.lookup (ic_entries (cache_of_index X E ix b)) (path_to_str p) = Some ?e"
    using p by (auto simp: saved_entries [OF ok])
  then have "Mapping.lookup (ic_entries (forget_skipped_cache (cache_of_index X E ix b))) (path_to_str p)
      = Some (forget_skipped ?e)"
    by (simp add: forget_skipped_cache_def lookup_map_values)
  moreover obtain m where "ce_metadata E p = Some m" using md by auto
  ultimately show ?thesis
    using workspace_path_facts(2) [OF ok p] p
    by (simp add: scan_cache_hit_def forget_skipped_def cache_entry_of_def scan_mtime_def on_disk_size_def
        meta_size_def cache_entry_to_file_result_def cached_result_def workspace_path_def Let_def)
qed


text \<open>A scan of the unchanged workspace, up to its result.\<close>

lemma warm_scan_result:
  assumes ok: "workspace_paths_ok X ix" and unchanged: "unchanged_workspace X E F root (ix_ignore_matcher ix0) ix"
    and load: "try_load_cache E s root = Some (forget_skipped_cache (cache_of_index X E ix True))"
    and idle: "\<not> ix_indexing_in_progress ix0"
    and gens: "rd_partition R = (\<lambda>_. ws_generation (ix_workspace_root ix0))"
      "rd_schedule R = (\<lambda>_. ws_generation (ix_workspace_root ix0))"
      "rd_end R = ws_generation (ix_workspace_root ix0)"
    and room: "card {p. \<exists>u d. workspace_path X ix p u d} < 2 ^ 64"
  shows "\<exists>ps r. set ps = {p. \<exists>u d. workspace_path X ix p u d} \<and> distinct ps
    \<and> wr_files r = map (cached_result X ix) ps \<and> \<not> wr_aborted r \<and> wr_complete_scan r
    \<and> st_files_parsed (wr_stats r) = 0 \<and> st_cache_hits (wr_stats r) = length ps
    \<and> index_workspace_impl X E F R s root max_files ix0
        = (ix0\<lparr>ix_indexing_in_progress := True, ix_parse_tasks_completed := 0, ix_parse_tasks_total := 0,
               ix_scheduled_paths := Mapping.empty\<rparr>, r, True)"
proof -
  let ?c = "forget_skipped_cache (cache_of_index X E ix True)"
  let ?P = "{p. \<exists>u d. workspace_path X ix p u d}"
  define found where "found = warm_discover_files E F root ?c (ix_ignore_matcher ix0)"
  define d where "d = discover_workspace_paths E F root max_files (Some ?c) (ix_ignore_matcher ix0)"
  define ps where "ps = order_paths_shallowest_first found"
  have found: "set found = ?P" "distinct found"
    unfolding found_def by (rule warm_discovery [OF ok unchanged])+
  have ps: "set ps = ?P" "distinct ps"
    using found order_paths_facts(2) [of found] unfolding ps_def
    by (metis set_mset_mset, metis mset_eq_imp_distinct_iff)
  have len: "length found \<le> MAX_FILES_UNLIMITED"
    using room found by (metis distinct_card MAX_FILES_UNLIMITED_def Suc_diff_1 less_Suc_eq_le zero_less_numeral zero_less_power)
  have "length ps = length found"
    using order_paths_facts(2) [of found] unfolding ps_def by (rule mset_eq_length)
  moreover have "ic_complete_scan ?c" by (simp add: forget_skipped_cache_def cache_of_index_def)
  ultimately have d: "dp_paths d = ps" "\<not> dp_truncated d"
    using len by (simp_all add: d_def discover_workspace_paths_eq found_files_def Let_def found_def [symmetric] ps_def)
  have hit: "scan_cache_hit X E (Some ?c) p = Some (cached_result X ix p)" if mem: "p \<in> set ps" for p
    using mem unchanged saved_cache_hit [OF ok] unfolding ps(1) unchanged_workspace_def by blast
  have part: "partition_cache_hits X E ps (Some ?c) (ws_generation (ix_workspace_root ix0)) (rd_partition R)
      = \<lparr>pr_cached = map (cached_result X ix) ps, pr_to_parse = [], pr_cache_hits = length ps, pr_aborted = False\<rparr>"
    using partition_all_hits [of ps X E "Some ?c" "cached_result X ix" "rd_partition R"] hit gens
    by (simp add: partition_cache_hits_def)
  let ?r = "build_workspace_result root d (map (cached_result X ix) ps) [] (length ps)"
  have "index_workspace_impl X E F R s root max_files ix0
      = (ix0\<lparr>ix_indexing_in_progress := True, ix_parse_tasks_completed := 0, ix_parse_tasks_total := 0,
             ix_scheduled_paths := Mapping.empty\<rparr>, ?r, True)"
    unfolding index_workspace_impl_def Let_def load d_def [symmetric] d(1) part
    using idle gens by (simp add: schedule_parse_work_def run_parse_tasks_def)
  then show ?thesis
    using ps d(2) by (intro exI [of _ ps] exI [of _ ?r]) (simp add: build_workspace_result_def List.map_filter_simps)
qed

lemma map_of_workspace_results:
  assumes ok: "workspace_paths_ok X ix" and ps: "set ps = {p. \<exists>u d. workspace_path X ix p u d}" "distinct ps"
  shows "map_of (map (\<lambda>r. (fr_uri r, f (fr_uri r) (fr_data r))) (map (cached_result X ix) ps)) u
    = (if u \<in> ix_library_uris ix then None
       else map_option (\<lambda>d. f u (d\<lparr>fd_syntax_errors := []\<rparr>)) (Mapping.lookup (ix_files ix) u))"
    and "distinct (map fr_uri (map (cached_result X ix) ps))"
proof -
  have mem: "\<exists>u d. workspace_path X ix p u d" if "p \<in> set ps" for p using that ps(1) by blast
  have inj: "p = q" if pq: "p \<in> set ps" "q \<in> set ps" "fr_uri (cached_result X ix p) = fr_uri (cached_result X ix q)" for p q
  proof -
    obtain u d v c where "workspace_path X ix p u d" "workspace_path X ix q v c" using mem pq by blast
    then show ?thesis
      using pq(3) cached_result_of(1) [OF ok] by (auto simp: workspace_path_def)
  qed
  show dist: "distinct (map fr_uri (map (cached_result X ix) ps))"
    using ps(2) inj by (auto simp: distinct_map inj_on_def)
  let ?rs = "map (\<lambda>r. (fr_uri r, f (fr_uri r) (fr_data r))) (map (cached_result X ix) ps)"
  have keys: "distinct (map fst ?rs)" using dist by (simp add: comp_def)
  have entry: "(u, v) \<in> set ?rs \<longleftrightarrow> (\<exists>p d. workspace_path X ix p u d \<and> v = f u (d\<lparr>fd_syntax_errors := []\<rparr>))" for v
  proof
    assume "(u, v) \<in> set ?rs"
    then obtain p where p: "p \<in> set ps" "u = fr_uri (cached_result X ix p)"
      "v = f (fr_uri (cached_result X ix p)) (fr_data (cached_result X ix p))" by auto
    then obtain u' d where "workspace_path X ix p u' d" using mem by blast
    then show "\<exists>p d. workspace_path X ix p u d \<and> v = f u (d\<lparr>fd_syntax_errors := []\<rparr>)"
      using p cached_result_of [OF ok] by metis
  next
    assume "\<exists>p d. workspace_path X ix p u d \<and> v = f u (d\<lparr>fd_syntax_errors := []\<rparr>)"
    then obtain p d where p: "workspace_path X ix p u d" "v = f u (d\<lparr>fd_syntax_errors := []\<rparr>)" by blast
    then have "p \<in> set ps" using ps(1) by blast
    then show "(u, v) \<in> set ?rs" using cached_result_of(1,2) [OF ok p(1)] p(2) by force
  qed
  show "map_of ?rs u = (if u \<in> ix_library_uris ix then None
       else map_option (\<lambda>d. f u (d\<lparr>fd_syntax_errors := []\<rparr>)) (Mapping.lookup (ix_files ix) u))"
  proof (cases "u \<in> ix_library_uris ix \<or> Mapping.lookup (ix_files ix) u = None")
    case True
    then have "(u, v) \<notin> set ?rs" for v unfolding entry by (auto simp: workspace_path_def)
    then have "map_of ?rs u = None" by (meson map_of_SomeD not_None_eq)
    with True show ?thesis by auto
  next
    case False
    then obtain d where d: "Mapping.lookup (ix_files ix) u = Some d" by auto
    then obtain p where "workspace_path X ix p u d"
      using False ok unfolding workspace_paths_ok_def workspace_path_def by blast
    then have "(u, f u (d\<lparr>fd_syntax_errors := []\<rparr>)) \<in> set ?rs" unfolding entry by blast
    then have "map_of ?rs u = Some (f u (d\<lparr>fd_syntax_errors := []\<rparr>))" by (rule map_of_is_SomeI [OF keys])
    then show ?thesis using False d by simp
  qed
qed

text \<open>C12 A warm start reproduces the index: when the workspace cache was saved by a complete scan
  and nothing on disk changed since, the next scan parses nothing, finds every workspace file in the
  cache, is complete, and applying it yields an index that is exact, has the data of every workspace
  file that was saved (its syntax errors are not stored) and keeps the library files it already had. This is for a
  start on an exact index that is not being indexed already, whose ignore patterns match none of the saved files,
  whose root does not change meanwhile and whose file table has room, where the cache could be written and what was
  encoded decodes, the URIs of the saved files are in normal form (each denotes a path that denotes it) and none of
  them is a library file of the index the scan starts on.\<close>

theorem warm_scan_restores_workspace:
  assumes "workspace_paths_ok X ix" and "ws_path (ix_workspace_root ix) = Some root" and "ix_last_scan_complete ix"
    and "store_works E" and "codec_ok E" and "ce_encode E (cache_of_index X E ix True) \<noteq> None"
    and "unchanged_workspace X E F root (ix_ignore_matcher ix0) ix"
    and "index_inv X ix0" and "\<not> ix_indexing_in_progress ix0"
    and "rd_partition R = (\<lambda>_. ws_generation (ix_workspace_root ix0))"
    and "rd_schedule R = (\<lambda>_. ws_generation (ix_workspace_root ix0))"
    and "rd_end R = ws_generation (ix_workspace_root ix0)"
    and "\<forall>u d. Mapping.lookup (ix_files ix) u = Some d \<longrightarrow> u \<notin> ix_library_uris ix \<longrightarrow> u \<notin> ix_library_uris ix0"
    and "length (ft_by_id (ix_file_table ix0)) + card {p. \<exists>u d. workspace_path X ix p u d} \<le> 2 ^ 32"
  shows "\<exists>ix1 r ix2. index_workspace_impl X E F R (save_cache_to_disk X E True ix s) root max_files ix0 = (ix1, r, True)
    \<and> \<not> wr_aborted r \<and> wr_complete_scan r \<and> st_files_parsed (wr_stats r) = 0
    \<and> finalize_apply X r ix1 = Some ix2 \<and> index_inv X ix2
    \<and> (\<forall>u. Mapping.lookup (ix_files ix2) u =
        (case Mapping.lookup (ix_files ix) u of
           Some d \<Rightarrow> if u \<notin> ix_library_uris ix then Some (with_classified_source_set ix0 u (d\<lparr>fd_syntax_errors := []\<rparr>))
                     else if u \<in> ix_library_uris ix0 then Mapping.lookup (ix_files ix0) u else None
         | None \<Rightarrow> if u \<in> ix_library_uris ix0 then Mapping.lookup (ix_files ix0) u else None))"
proof -
  obtain bytes where bytes: "ce_encode E (cache_of_index X E ix True) = Some bytes" using assms(6) by auto
  have load: "try_load_cache E (save_cache_to_disk X E True ix s) root
      = Some (forget_skipped_cache (cache_of_index X E ix True))"
    unfolding save_cache_to_disk_def using assms(2,3) save_then_load [OF assms(4,5) bytes] by simp
  obtain ps r where ps: "set ps = {p. \<exists>u d. workspace_path X ix p u d}" "distinct ps"
    and r: "wr_files r = map (cached_result X ix) ps" "\<not> wr_aborted r" "wr_complete_scan r" "st_files_parsed (wr_stats r) = 0"
    and run: "index_workspace_impl X E F R (save_cache_to_disk X E True ix s) root max_files ix0
        = (ix0\<lparr>ix_indexing_in_progress := True, ix_parse_tasks_completed := 0, ix_parse_tasks_total := 0,
               ix_scheduled_paths := Mapping.empty\<rparr>, r, True)"
    using warm_scan_result [OF assms(1,7) load assms(9-12), of max_files] assms(14) by auto
  let ?ix1 = "ix0\<lparr>ix_indexing_in_progress := True, ix_parse_tasks_completed := 0, ix_parse_tasks_total := 0,
               ix_scheduled_paths := Mapping.empty\<rparr>"
  let ?ixs = "?ix1\<lparr>ix_last_scan_complete := wr_complete_scan r\<rparr>"
  have inv: "index_inv X ?ixs"
    using assms(8) by (simp add: index_inv_def files_registered_def maps_match_def)
  have cl: "with_classified_source_set ?ixs u d = with_classified_source_set ix0 u d" for u d
    by (rule classified_cong) simp
  have ok: "\<forall>x\<in>set (wr_files r). result_ok X x \<and> fr_uri x \<notin> ix_library_uris ?ixs"
  proof
    fix x
    assume "x \<in> set (wr_files r)"
    then obtain p u d where p: "workspace_path X ix p u d" "x = cached_result X ix p" using ps(1) r(1) by auto
    show "result_ok X x \<and> fr_uri x \<notin> ix_library_uris ?ixs"
      using assms(13) p cached_result_of [OF assms(1) p(1)] by (auto simp: workspace_path_def)
  qed
  have dist: "distinct (map fr_uri (wr_files r))"
    unfolding r(1) by (rule map_of_workspace_results(2) [OF assms(1) ps])
  have fits: "length (ft_by_id (ix_file_table ?ixs)) + length (wr_files r) \<le> 2 ^ 32"
    using assms(14) distinct_card [OF ps(2)] by (simp add: r(1) ps(1))
  obtain ix2 where ix2: "apply_workspace_result X r ?ixs = Some ix2" "index_inv X ix2"
    and files: "\<forall>u. Mapping.lookup (ix_files ix2) u =
        (case map_of (map (\<lambda>x. (fr_uri x, with_classified_source_set ?ixs (fr_uri x) (fr_data x))) (wr_files r)) u of
           Some d \<Rightarrow> Some d
         | None \<Rightarrow> if u \<in> ix_library_uris ?ixs then Mapping.lookup (ix_files ?ixs) u else None)"
    using apply_workspace_result_files [OF inv ok dist fits] by blast
  have "Mapping.lookup (ix_files ix2) u =
        (case Mapping.lookup (ix_files ix) u of
           Some d \<Rightarrow> if u \<notin> ix_library_uris ix then Some (with_classified_source_set ix0 u (d\<lparr>fd_syntax_errors := []\<rparr>))
                     else if u \<in> ix_library_uris ix0 then Mapping.lookup (ix_files ix0) u else None
         | None \<Rightarrow> if u \<in> ix_library_uris ix0 then Mapping.lookup (ix_files ix0) u else None)" for u
    unfolding files [rule_format] r(1) map_of_workspace_results(1) [OF assms(1) ps] cl
    by (simp split: option.split)
  then show ?thesis
    using run r ix2 by (intro exI [of _ ?ix1] exI [of _ r] exI [of _ ix2]) (simp add: finalize_apply_def)
qed

text \<open>An index with one workspace file, and the environment it is saved in.\<close>

definition example_workspace_index :: indexer where
  "example_workspace_index = (indexer_new False)\<lparr>
     ix_files := Mapping.update (lit ''/w/A.kt'') default_file_data Mapping.empty,
     ix_workspace_root := ws_set [RootDir, Normal (lit ''w'')] ws_new, ix_last_scan_complete := True\<rparr>"

definition example_saved_env :: cache_env where
  "example_saved_env = example_cache_env (cache_of_index example_externals
     (example_cache_env \<lparr>ic_version = 35, ic_complete_scan = True, ic_entries = Mapping.empty\<rparr>)
     example_workspace_index True)"

definition example_readings :: scan_readings where
  "example_readings = \<lparr>rd_partition = (\<lambda>_. 0), rd_schedule = (\<lambda>_. 0), rd_tasks = (\<lambda>_. 0), rd_end = 0\<rparr>"

lemma example_workspace_path:
  "workspace_path example_externals example_workspace_index p u d \<longleftrightarrow>
     p = path_of_str (lit ''/w/A.kt'') \<and> u = lit ''/w/A.kt'' \<and> d = default_file_data"
  by (auto simp: workspace_path_def example_workspace_index_def example_externals_def indexer_new_def
      lookup_update_map split: if_split_asm)

lemma example_saved:
  "workspace_paths_ok example_externals example_workspace_index"
  "ce_encode example_saved_env (cache_of_index example_externals example_saved_env example_workspace_index True) = Some [7, 2]"
  "store_works example_saved_env" "codec_ok example_saved_env"
  "unchanged_workspace example_externals example_saved_env (example_scan_fs []) root matcher example_workspace_index"
  "card {p. \<exists>u d. workspace_path example_externals example_workspace_index p u d} = 1"
proof -
  show "workspace_paths_ok example_externals example_workspace_index"
    by (simp add: workspace_paths_ok_def example_workspace_index_def example_externals_def indexer_new_def
        lookup_update_map path_of_str_def path_to_str_def component_of_def)
  show "ce_encode example_saved_env (cache_of_index example_externals example_saved_env example_workspace_index True) = Some [7, 2]"
    using cache_of_index_cong [of example_saved_env "example_cache_env \<lparr>ic_version = 35, ic_complete_scan = True, ic_entries = Mapping.empty\<rparr>"]
    by (simp add: example_saved_env_def fun_eq_iff)
  show "store_works example_saved_env" by (simp add: store_works_def example_saved_env_def)
  show "codec_ok example_saved_env" unfolding example_saved_env_def by (rule example_codec_ok)
  show "unchanged_workspace example_externals example_saved_env (example_scan_fs []) root matcher example_workspace_index"
    by (simp add: unchanged_workspace_def ignored_def matcher_matches_def example_scan_fs_def U64_MAX_def find_source_files_newer_than_def
        example_saved_env_def)
  show "card {p. \<exists>u d. workspace_path example_externals example_workspace_index p u d} = 1"
    unfolding example_workspace_path by simp
qed

theorem warm_scan_restores_workspace_witness:
  "\<exists>ix1 r ix2. index_workspace_impl example_externals example_saved_env (example_scan_fs []) example_readings
       (save_cache_to_disk example_externals example_saved_env True example_workspace_index Mapping.empty)
       [RootDir, Normal (lit ''w'')] 9 (indexer_new False) = (ix1, r, True)
     \<and> finalize_apply example_externals r ix1 = Some ix2 \<and> Mapping.lookup (ix_files ix2) (lit ''/w/A.kt'') \<noteq> None"
proof -
  let ?root = "[RootDir, Normal (lit ''w'')]"
  have "ws_path (ix_workspace_root example_workspace_index) = Some ?root" "ix_last_scan_complete example_workspace_index"
    by (simp_all add: example_workspace_index_def ws_set_def)
  moreover have "Mapping.lookup (ix_files example_workspace_index) (lit ''/w/A.kt'') = Some default_file_data"
    "lit ''/w/A.kt'' \<notin> ix_library_uris example_workspace_index"
    by (simp_all add: example_workspace_index_def indexer_new_def)
  ultimately show ?thesis
    using warm_scan_restores_workspace [OF example_saved(1) _ _ example_saved(3,4) _ example_saved(5) index_inv_new [of example_externals False],
        where root = ?root and R = example_readings and max_files = 9 and s = Mapping.empty]
    by (fastforce simp: example_saved(2,6) indexer_new_def example_readings_def ft_new_def ws_new_def)
qed

section \<open>A root change while a result is applied\<close>

lemma apply_fresh_frame:
  "apply_contributions_fresh X c ix = Some ix' \<Longrightarrow> ix_last_scan_complete ix' = ix_last_scan_complete ix
     \<and> ix_source_paths_raw ix' = ix_source_paths_raw ix \<and> ix_library_uris ix' = ix_library_uris ix"
  by (auto simp: apply_contributions_fresh_def commit_contributions_def Let_def bind_eq_Some_conv split: prod.splits)

lemma finalize_apply_frame:
  assumes "finalize_apply X r ix = Some ix'"
  shows "ix_last_scan_complete ix' = wr_complete_scan r" "ix_source_paths_raw ix' = ix_source_paths_raw ix"
    "ix_library_uris ix' = ix_library_uris (reset_index_state ix)"
proof -
  let ?ix = "ix\<lparr>ix_last_scan_complete := wr_complete_scan r\<rparr>"
  let ?I = "\<lambda>i. ix_last_scan_complete i = wr_complete_scan r \<and> ix_source_paths_raw i = ix_source_paths_raw ix
     \<and> ix_library_uris i = ix_library_uris (reset_index_state ix)"
  obtain ix1 where ix1: "fold_opt (\<lambda>fr. apply_contributions_fresh X (file_contributions_of X fr)) (wr_files r)
      (reset_index_state ?ix) = Some ix1" and ix': "ix' = rebuild_bare_name_cache (ix1\<lparr>ix_bare_names_dirty := True\<rparr>)"
    using assms by (auto simp: finalize_apply_def apply_workspace_result_def bind_eq_Some_conv)
  have start: "?I (reset_index_state ?ix)" by (simp add: reset_index_state_def Let_def)
  have "?I ix1"
    by (rule fold_opt_invariant [where I = ?I, OF ix1(1) start]) (use apply_fresh_frame in fastforce)
  then show "ix_last_scan_complete ix' = wr_complete_scan r" "ix_source_paths_raw ix' = ix_source_paths_raw ix"
    "ix_library_uris ix' = ix_library_uris (reset_index_state ix)"
    by (simp_all add: ix' rebuild_bare_name_cache_def rebuild_importable_fqns_def Let_def)
qed

lemma cache_of_index_fields:
  assumes "ix_files i = ix_files j" and "ix_library_uris i = ix_library_uris j"
    and "ix_content_hashes i = ix_content_hashes j"
  shows "cache_of_index X E i b = cache_of_index X E j b"
  unfolding cache_of_index_def save_cache_entry_def assms ..

text \<open>C33 A root change while a finished scan is being applied poisons the cache of the new root:
  \<open>finalize_workspace_scan\<close> takes the root to save under from the index, not from the result, so
  the files of the old root are stored as the complete cache of the new one. The next scan of the
  new root then trusts that cache: it indexes exactly the files of the old root, and no file of the
  new one that is older than the cache.\<close>

theorem root_change_during_apply_poisons_cache:
  assumes "finalize_apply X r ix = Some ixa" and "wr_complete_scan r" and "ix_source_paths_raw ixa = []"
    and "\<And>i. meanwhile i = i\<lparr>ix_workspace_root := ws_set new_root (ix_workspace_root i)\<rparr>"
    and "workspace_paths_ok X ixa" and "store_works E" and "codec_ok E"
    and "ce_encode E (cache_of_index X E ixa True) \<noteq> None"
    and "unchanged_workspace X E F new_root (ix_ignore_matcher ix0) ixa"
    and "\<not> ix_indexing_in_progress ix0"
    and "rd_partition R = (\<lambda>_. ws_generation (ix_workspace_root ix0))"
    and "rd_schedule R = (\<lambda>_. ws_generation (ix_workspace_root ix0))"
    and "rd_end R = ws_generation (ix_workspace_root ix0)"
    and "card {p. \<exists>u d. workspace_path X ixa p u d} < 2 ^ 64"
  shows "\<exists>s' ix1 r'. fst (finalize_workspace_scan X E r meanwhile ix s) = s'
    \<and> map_option ic_complete_scan (try_load_cache E s' new_root) = Some True
    \<and> index_workspace_impl X E F R s' new_root max_files ix0 = (ix1, r', True)
    \<and> \<not> wr_aborted r' \<and> wr_complete_scan r'
    \<and> fr_uri ` set (wr_files r') = {u. \<exists>p d. workspace_path X ixa p u d}"
proof -
  let ?ixm = "meanwhile ixa"
  let ?s = "save_cache X E new_root ?ixm True True s"
  obtain bytes where bytes: "ce_encode E (cache_of_index X E ixa True) = Some bytes" using assms(8) by auto
  have same: "cache_of_index X E ?ixm True = cache_of_index X E ixa True"
    by (rule cache_of_index_fields) (simp_all add: assms(4))
  have "ix_last_scan_complete ?ixm = True"
    using finalize_apply_frame(1) [OF assms(1)] assms(2) by (simp add: assms(4))
  then have saved: "save_cache_to_disk X E True ?ixm s = ?s"
    by (simp add: save_cache_to_disk_def assms(4) ws_set_def)
  have "ix_source_paths_raw ?ixm = []" using assms(3) by (simp add: assms(4))
  then have s': "fst (finalize_workspace_scan X E r meanwhile ix s) = ?s"
    using assms(2)
    by (simp add: finalize_workspace_scan_def assms(1) finalize_save_def saved index_source_paths_start_def
        drop_guard_def)
  have load: "try_load_cache E ?s new_root = Some (forget_skipped_cache (cache_of_index X E ixa True))"
    using save_then_load [OF assms(6,7)] bytes unfolding same [symmetric] by simp
  have complete: "ic_complete_scan (forget_skipped_cache (cache_of_index X E ixa True))"
    by (simp add: forget_skipped_cache_def cache_of_index_def)
  obtain ps r' ix1 where ps: "set ps = {p. \<exists>u d. workspace_path X ixa p u d}"
    and r': "wr_files r' = map (cached_result X ixa) ps" "\<not> wr_aborted r'" "wr_complete_scan r'"
    and run: "index_workspace_impl X E F R ?s new_root max_files ix0 = (ix1, r', True)"
    using warm_scan_result [OF assms(5,9) load assms(10-14), of max_files] by blast
  have "fr_uri ` set (wr_files r') = {u. \<exists>p d. workspace_path X ixa p u d}"
  proof -
    have "fr_uri (cached_result X ixa p) = u" if "workspace_path X ixa p u d" for p u d
      using cached_result_of(1) [OF assms(5) that] .
    then show ?thesis unfolding r'(1) by (force simp: ps image_iff)
  qed
  then show ?thesis using s' load complete r'(2,3) run by auto
qed

text \<open>The root changes from \<open>/w\<close> to \<open>/v\<close> while a scan that found \<open>/w/A.kt\<close> is applied.\<close>

theorem root_change_during_apply_poisons_cache_witness:
  "\<exists>E r ix s' ix1 r'. wr_workspace_root r = [RootDir, Normal (lit ''w'')]
     \<and> fst (finalize_workspace_scan example_externals E r
          (\<lambda>i. i\<lparr>ix_workspace_root := ws_set [RootDir, Normal (lit ''v'')] (ix_workspace_root i)\<rparr>) ix Mapping.empty) = s'
     \<and> index_workspace_impl example_externals E (example_scan_fs []) example_readings s'
          [RootDir, Normal (lit ''v'')] 9 (indexer_new False) = (ix1, r', True)
     \<and> lit ''/w/A.kt'' \<in> fr_uri ` set (wr_files r')"
proof -
  let ?v = "[RootDir, Normal (lit ''v'')]"
  let ?u = "lit ''/w/A.kt''"
  define r where "r = \<lparr>wr_files = [parse_file example_externals ?u (lit ''A'')],
       wr_stats = \<lparr>st_cache_hits = 0, st_files_parsed = 1, st_symbols_extracted = 1\<rparr>,
       wr_workspace_root = [RootDir, Normal (lit ''w'')], wr_aborted = False, wr_complete_scan = True\<rparr>"
  define ix where "ix = indexer_new False"
  have inv: "index_inv example_externals (ix\<lparr>ix_last_scan_complete := True\<rparr>)"
    using index_inv_new [of example_externals False]
    by (simp add: ix_def index_inv_def files_registered_def maps_match_def)
  have "\<exists>ix'. apply_workspace_result example_externals r (ix\<lparr>ix_last_scan_complete := True\<rparr>) = Some ix'
    \<and> index_inv example_externals ix'
    \<and> (\<forall>u. Mapping.lookup (ix_files ix') u =
        (case map_of (map (\<lambda>r. (fr_uri r, with_classified_source_set (ix\<lparr>ix_last_scan_complete := True\<rparr>) (fr_uri r) (fr_data r))) (wr_files r)) u of
           Some d \<Rightarrow> Some d
         | None \<Rightarrow> if u \<in> ix_library_uris (ix\<lparr>ix_last_scan_complete := True\<rparr>)
                   then Mapping.lookup (ix_files (ix\<lparr>ix_last_scan_complete := True\<rparr>)) u else None))"
    by (rule apply_workspace_result_files [OF inv])
       (simp_all add: r_def ix_def indexer_new_def result_ok_def ft_new_def)
  then obtain ixa where ixa: "finalize_apply example_externals r ix = Some ixa"
    and files: "\<And>u. Mapping.lookup (ix_files ixa) u = (if u = ?u then Some (with_classified_source_set
        (ix\<lparr>ix_last_scan_complete := True\<rparr>) ?u (fr_data (parse_file example_externals ?u (lit ''A'')))) else None)"
    by (auto simp: finalize_apply_def r_def ix_def indexer_new_def)
  have frame: "ix_library_uris ixa = {}" "ix_source_paths_raw ixa = []"
    using finalize_apply_frame [OF ixa] by (simp_all add: ix_def indexer_new_def reset_index_state_def Let_def)
  define e0 where "e0 = example_cache_env \<lparr>ic_version = 35, ic_complete_scan = True, ic_entries = Mapping.empty\<rparr>"
  define E where "E = example_cache_env (cache_of_index example_externals e0 ixa True)"
  have path: "workspace_path example_externals ixa p u d \<longleftrightarrow> p = path_of_str ?u \<and> u = ?u
      \<and> Mapping.lookup (ix_files ixa) ?u = Some d" for p u d
    by (auto simp: workspace_path_def files frame example_externals_def split: if_split_asm)
  have keys: "Mapping.keys (ix_files ixa) = {?u}" by (auto simp: keys_lookup files split: if_split_asm)
  have ok: "workspace_paths_ok example_externals ixa"
    unfolding workspace_paths_ok_def keys files
    by (simp add: example_externals_def path_of_str_def path_to_str_def component_of_def)
  have enc: "ce_encode E (cache_of_index example_externals E ixa True) = Some [7, 2]"
    using cache_of_index_cong [of E e0] by (simp add: E_def e0_def fun_eq_iff)
  have works: "store_works E" by (simp add: store_works_def E_def)
  have codec: "codec_ok E" unfolding E_def by (rule example_codec_ok)
  have unchanged: "unchanged_workspace example_externals E (example_scan_fs []) ?v matcher ixa" for matcher
    by (simp add: unchanged_workspace_def ignored_def matcher_matches_def example_scan_fs_def U64_MAX_def find_source_files_newer_than_def E_def)
  have one: "{p. \<exists>u d. workspace_path example_externals ixa p u d} = {path_of_str ?u}"
    by (auto simp: path files)
  have "\<exists>s' ix1 r'. fst (finalize_workspace_scan example_externals E r
        (\<lambda>i. i\<lparr>ix_workspace_root := ws_set ?v (ix_workspace_root i)\<rparr>) ix Mapping.empty) = s'
    \<and> map_option ic_complete_scan (try_load_cache E s' ?v) = Some True
    \<and> index_workspace_impl example_externals E (example_scan_fs []) example_readings s' ?v 9 (indexer_new False) = (ix1, r', True)
    \<and> \<not> wr_aborted r' \<and> wr_complete_scan r'
    \<and> fr_uri ` set (wr_files r') = {u. \<exists>p d. workspace_path example_externals ixa p u d}"
    by (rule root_change_during_apply_poisons_cache [OF ixa _ frame(2) refl ok works codec _ unchanged])
       (simp_all add: r_def enc one indexer_new_def example_readings_def ws_new_def)
  then obtain s' ix1 r' where run: "fst (finalize_workspace_scan example_externals E r
        (\<lambda>i. i\<lparr>ix_workspace_root := ws_set ?v (ix_workspace_root i)\<rparr>) ix Mapping.empty) = s'"
    "index_workspace_impl example_externals E (example_scan_fs []) example_readings s' ?v 9 (indexer_new False) = (ix1, r', True)"
    "fr_uri ` set (wr_files r') = {u. \<exists>p d. workspace_path example_externals ixa p u d}" by blast
  have "?u \<in> fr_uri ` set (wr_files r')" unfolding run(3) mem_Collect_eq path by (simp add: files)
  moreover have "wr_workspace_root r = [RootDir, Normal (lit ''w'')]" by (simp add: r_def)
  ultimately show ?thesis using run(1,2) by blast
qed

end
