(* ===== verification/Jar_Cache.thy ===== *)
theory Jar_Cache
  imports Index_State Cache
begin

text \<open>
  The cache of JAR symbols that all processes on the machine share:
  \<^verbatim>\<open>src/indexer/jar_cache.rs\<close>. There is one cache file (and one for the
  manifest, \<open>jd_manifest\<close>); \<open>jar_disk\<close> holds it together with
  its fingerprint (modification time and size) and the fingerprint this process last saw. Other
  processes may replace the file between any two operations. The file system, the clocks, bincode, zstd and
  the sidecar process are the fields of \<open>jar_env\<close>.
\<close>

section \<open>The environment\<close>

type_synonym fingerprint = "64 word \<times> 32 word \<times> 64 word"

type_synonym jar_entries = "(str, jar_cache_entry) hmap"

type_synonym manifest_entries = "(str, jar_manifest_entry) hmap"

record jar_disk =
  jd_file :: "(bytes \<times> fingerprint) option"
  jd_recorded :: "fingerprint option"
  jd_manifest :: "bytes option"

record jar_env =
  je_encode :: "32 word \<times> jar_entries \<Rightarrow> bytes option"
  je_decode :: "bytes \<Rightarrow> (32 word \<times> jar_entries) option"
  je_encode_manifest :: "32 word \<times> manifest_entries \<Rightarrow> bytes option"
  je_decode_manifest :: "bytes \<Rightarrow> (32 word \<times> manifest_entries) option"
  je_create_dir_all :: bool
  je_write :: bool
  je_rename :: bool
  je_stamp :: "64 word \<times> 32 word"
  je_now :: nat
  je_metadata :: "path \<Rightarrow> file_meta option"
  je_sidecar_index :: "path list \<Rightarrow> sidecar_symbol list list option"
  je_sidecar_free :: "jar_id \<Rightarrow> bool"

text \<open>\<open>t.duration_since(UNIX_EPOCH).unwrap_or_default()\<close>, as seconds and nanoseconds.\<close>

definition since_epoch :: "int \<Rightarrow> 64 word \<times> 32 word" where
  "since_epoch ns =
     (if ns < 0 then (0, 0) else (of_int (ns div 1000000000), of_int (ns mod 1000000000)))"

section \<open>Fingerprints\<close>

definition JAR_CACHE_VERSION :: "32 word" where
  "JAR_CACHE_VERSION = 19"

definition file_fingerprint :: "jar_disk \<Rightarrow> fingerprint option" where
  "file_fingerprint D = map_option snd (jd_file D)"

definition record_cache_file_fingerprint :: "jar_disk \<Rightarrow> jar_disk" where
  "record_cache_file_fingerprint D = D\<lparr>jd_recorded := file_fingerprint D\<rparr>"

definition cache_file_changed_since_last_seen :: "jar_disk \<Rightarrow> bool" where
  "cache_file_changed_since_last_seen D \<longleftrightarrow> file_fingerprint D \<noteq> jd_recorded D"

section \<open>Loading and saving\<close>

definition load_jar_cache :: "jar_env \<Rightarrow> jar_disk \<Rightarrow> jar_disk \<times> jar_entries" where
  "load_jar_cache J D =
     (record_cache_file_fingerprint D,
      case jd_file D of
        None \<Rightarrow> Mapping.empty
      | Some (bytes, _) \<Rightarrow>
          (case je_decode J bytes of
             Some (version, entries) \<Rightarrow> if version = JAR_CACHE_VERSION then entries else Mapping.empty
           | None \<Rightarrow> Mapping.empty))"

definition insert_entries :: "jar_entries \<Rightarrow> jar_entries \<Rightarrow> jar_entries" where
  "insert_entries entries on_disk =
     fold (\<lambda>(jar_path, e). Mapping.update jar_path e) (entries_of entries) on_disk"

definition save_jar_cache :: "jar_env \<Rightarrow> jar_entries \<Rightarrow> jar_disk \<Rightarrow> jar_disk" where
  "save_jar_cache J entries D =
     (if \<not> je_create_dir_all J then D
      else
        (let (D1, entries_to_write) =
           (if cache_file_changed_since_last_seen D
            then (let (D', on_disk) = load_jar_cache J D in (D', insert_entries entries on_disk))
            else (D, entries))
         in case je_encode J (JAR_CACHE_VERSION, entries_to_write) of
              None \<Rightarrow> D1
            | Some bytes \<Rightarrow>
                if \<not> je_write J \<or> \<not> je_rename J then D1
                else record_cache_file_fingerprint
                  (D1\<lparr>jd_file := Some (bytes, fst (je_stamp J), snd (je_stamp J), of_nat (length bytes))\<rparr>)))"

section \<open>The save throttle\<close>

definition JAR_CACHE_SAVE_PENDING_LIMIT :: nat where
  "JAR_CACHE_SAVE_PENDING_LIMIT = 16"

definition JAR_CACHE_SAVE_DEBOUNCE :: nat where
  "JAR_CACHE_SAVE_DEBOUNCE = 10000"

definition save_is_due :: "jar_env \<Rightarrow> jar_cache_throttle \<Rightarrow> bool" where
  "save_is_due J th =
     (case th_last_save th of
        None \<Rightarrow> True
      | Some t \<Rightarrow> je_now J - t \<ge> JAR_CACHE_SAVE_DEBOUNCE
                  \<or> th_pending_entries th \<ge> JAR_CACHE_SAVE_PENDING_LIMIT)"

definition maybe_save_jar_cache_throttled ::
  "jar_env \<Rightarrow> jar_entries \<Rightarrow> nat \<Rightarrow> jar_cache_throttle \<Rightarrow> jar_disk \<Rightarrow> jar_cache_throttle \<times> jar_disk" where
  "maybe_save_jar_cache_throttled J entries newly_added th D =
     (let th1 = th\<lparr>th_pending_entries := th_pending_entries th + newly_added\<rparr>
      in if \<not> save_is_due J th1 then (th1, D)
         else (\<lparr>th_pending_entries = 0, th_last_save = Some (je_now J)\<rparr>, save_jar_cache J entries D))"

definition note_jar_cache_loaded :: "jar_env \<Rightarrow> jar_cache_throttle \<Rightarrow> jar_cache_throttle" where
  "note_jar_cache_loaded J th =
     (if th_last_save th = None then th\<lparr>th_last_save := Some (je_now J)\<rparr> else th)"

definition flush_pending_jar_cache_save :: "jar_env \<Rightarrow> indexer \<Rightarrow> jar_disk \<Rightarrow> indexer \<times> jar_disk" where
  "flush_pending_jar_cache_save J ix D =
     (case ix_jar_symbol_cache ix of
        None \<Rightarrow> (ix, D)
      | Some entries \<Rightarrow>
          if th_pending_entries (ix_jar_cache_throttle ix) = 0 then (ix, D)
          else (ix\<lparr>ix_jar_cache_throttle := \<lparr>th_pending_entries = 0, th_last_save = Some (je_now J)\<rparr>\<rparr>,
                save_jar_cache J entries D))"

section \<open>Entries\<close>

definition cache_entry_is_fresh :: "jar_env \<Rightarrow> jar_cache_entry \<Rightarrow> path \<Rightarrow> bool" where
  "cache_entry_is_fresh J e jar =
     (case je_metadata J jar of
        None \<Rightarrow> False
      | Some m \<Rightarrow>
          if md_len m \<noteq> jc_file_size e then False
          else (case md_modified m of
                  None \<Rightarrow> False
                | Some t \<Rightarrow> since_epoch t = (jc_mtime_secs e, jc_mtime_nanos e)))"

definition make_cache_entry :: "jar_env \<Rightarrow> path \<Rightarrow> sidecar_symbol list \<Rightarrow> jar_cache_entry option" where
  "make_cache_entry J jar symbols =
     Option.bind (je_metadata J jar) (\<lambda>m.
       map_option (\<lambda>t. \<lparr>jc_mtime_secs = fst (since_epoch t), jc_mtime_nanos = snd (since_epoch t),
                        jc_file_size = md_len m, jc_symbols = symbols\<rparr>) (md_modified m))"

end
