(* ===== verification/Jar_Cache_Props.thy ===== *)
theory Jar_Cache_Props
  imports Jar_Cache Index_Props
begin

text \<open>
  The properties of the shared JAR symbol cache: how much a crash can lose, and that merging with what
  other processes saved does not last.
\<close>

section \<open>What is on disk\<close>

text \<open>What bincode encoded decodes; a map is encoded and no write fails.\<close>

definition jar_codec_ok :: "jar_env \<Rightarrow> bool" where
  "jar_codec_ok J \<longleftrightarrow> (\<forall>c b. je_encode J c = Some b \<longrightarrow> je_decode J b = Some c)"

definition jar_writes_ok :: "jar_env \<Rightarrow> jar_entries \<Rightarrow> bool" where
  "jar_writes_ok J entries \<longleftrightarrow> je_create_dir_all J \<and> je_write J \<and> je_rename J
     \<and> je_encode J (JAR_CACHE_VERSION, entries) \<noteq> None"

definition disk_entries :: "jar_env \<Rightarrow> jar_disk \<Rightarrow> jar_entries" where
  "disk_entries J D = snd (load_jar_cache J D)"

lemma lookup_fold_update_entries:
  "distinct (map fst xs) \<Longrightarrow>
     Mapping.lookup (fold (\<lambda>(k, v). Mapping.update k v) xs m) k
     = (case map_of xs k of Some v \<Rightarrow> Some v | None \<Rightarrow> Mapping.lookup m k)"
proof (induction xs arbitrary: m)
  case (Cons x xs)
  then show ?case
    by (cases x) (auto simp: lookup_update_map split: option.split dest: map_of_SomeD intro: rev_image_eqI)
qed simp

lemma lookup_insert_entries:
  assumes "finite (Mapping.keys entries)"
  shows "Mapping.lookup (insert_entries entries on_disk) k
    = (case Mapping.lookup entries k of Some e \<Rightarrow> Some e | None \<Rightarrow> Mapping.lookup on_disk k)"
proof -
  have "distinct (map fst (entries_of entries))" by (simp add: entries_of_def comp_def)
  moreover have "map_of (entries_of entries) k = Mapping.lookup entries k"
    using calculation set_entries_of [OF assms]
    by (cases "Mapping.lookup entries k") (auto intro: map_of_is_SomeI simp: map_of_eq_None_iff)
  ultimately show ?thesis by (simp add: insert_entries_def lookup_fold_update_entries)
qed

text \<open>What a save writes, and what a successful one leaves on disk.\<close>

definition saved_entries_of :: "jar_env \<Rightarrow> jar_entries \<Rightarrow> jar_disk \<Rightarrow> jar_entries" where
  "saved_entries_of J entries D =
     (if cache_file_changed_since_last_seen D then insert_entries entries (disk_entries J D) else entries)"

lemma disk_after_save:
  assumes "jar_codec_ok J" and "jar_writes_ok J (saved_entries_of J entries D)"
  shows "disk_entries J (save_jar_cache J entries D) = saved_entries_of J entries D"
    and "\<not> cache_file_changed_since_last_seen (save_jar_cache J entries D)"
proof -
  define W where "W = saved_entries_of J entries D"
  obtain b where b: "je_encode J (JAR_CACHE_VERSION, W) = Some b" "je_decode J b = Some (JAR_CACHE_VERSION, W)"
    using assms unfolding jar_codec_ok_def jar_writes_ok_def W_def by blast
  have "save_jar_cache J entries D = record_cache_file_fingerprint
     ((if cache_file_changed_since_last_seen D then record_cache_file_fingerprint D else D)
       \<lparr>jd_file := Some (b, fst (je_stamp J), snd (je_stamp J), of_nat (length b))\<rparr>)"
    using assms(2) b(1) unfolding W_def saved_entries_of_def
    by (cases "cache_file_changed_since_last_seen D")
       (simp_all add: save_jar_cache_def jar_writes_ok_def disk_entries_def load_jar_cache_def)
  then show "disk_entries J (save_jar_cache J entries D) = saved_entries_of J entries D"
    and "\<not> cache_file_changed_since_last_seen (save_jar_cache J entries D)"
    using b(2) by (simp_all add: disk_entries_def load_jar_cache_def record_cache_file_fingerprint_def
        cache_file_changed_since_last_seen_def file_fingerprint_def W_def)
qed

section \<open>The throttle\<close>

text \<open>The JARs of the memoized map that are not on disk as they are in memory.\<close>

definition unsaved :: "jar_env \<Rightarrow> jar_entries \<Rightarrow> jar_disk \<Rightarrow> str set" where
  "unsaved J entries D =
     {k. Mapping.lookup entries k \<noteq> None \<and> Mapping.lookup (disk_entries J D) k \<noteq> Mapping.lookup entries k}"

text \<open>The save throttle bounds what a crash can lose. As long as this process alone writes the
  cache, the pending counter is at least the number of JARs that are in memory but not on disk; after
  any throttled save it is below the limit of 16, and a flush leaves nothing unsaved.\<close>

theorem jar_cache_unsaved_bounded:
  assumes "jar_codec_ok J" and "jar_writes_ok J entries'" and "\<not> cache_file_changed_since_last_seen D"
    and "finite (Mapping.keys entries)" and "finite (Mapping.keys entries')"
    and "card (unsaved J entries D) \<le> th_pending_entries th"
    and "card {k. Mapping.lookup entries' k \<noteq> Mapping.lookup entries k} \<le> n"
    and "maybe_save_jar_cache_throttled J entries' n th D = (th', D')"
  shows "card (unsaved J entries' D') \<le> th_pending_entries th'
    \<and> th_pending_entries th' < JAR_CACHE_SAVE_PENDING_LIMIT
    \<and> unsaved J entries' (snd (flush_pending_jar_cache_save J (ix\<lparr>ix_jar_symbol_cache := Some entries', ix_jar_cache_throttle := th'\<rparr>) D')) = {}"
proof -
  have saved: "unsaved J entries' (save_jar_cache J entries' D'') = {}"
    if "\<not> cache_file_changed_since_last_seen D''" for D''
    using disk_after_save(1) [OF assms(1), of entries' D''] assms(2) that
    by (simp add: saved_entries_of_def unsaved_def)
  have fin: "finite (unsaved J entries' D'')" for D''
    by (rule finite_subset [OF _ assms(5)]) (auto simp: unsaved_def keys_lookup)
  define th1 where "th1 = th\<lparr>th_pending_entries := th_pending_entries th + n\<rparr>"
  have step: "card (unsaved J entries' D') \<le> th_pending_entries th' \<and> th_pending_entries th' < JAR_CACHE_SAVE_PENDING_LIMIT"
  proof (cases "save_is_due J th1")
    case True
    then have "th_pending_entries th' = 0" "D' = save_jar_cache J entries' D"
      using assms(8) by (auto simp: maybe_save_jar_cache_throttled_def th1_def [symmetric] Let_def)
    then show ?thesis using saved [OF assms(3)] by (simp add: JAR_CACHE_SAVE_PENDING_LIMIT_def)
  next
    case False
    then have th': "th' = th1" "D' = D" "th_pending_entries th1 < JAR_CACHE_SAVE_PENDING_LIMIT"
      using assms(8) by (auto simp: maybe_save_jar_cache_throttled_def th1_def [symmetric] Let_def
          save_is_due_def split: option.splits)
    let ?new = "{k. Mapping.lookup entries' k \<noteq> Mapping.lookup entries k}"
    have "finite ?new"
      by (rule finite_subset [OF _ finite_UnI [OF assms(4,5)]]) (auto simp: keys_lookup)
    moreover have "finite (unsaved J entries D)"
      by (rule finite_subset [OF _ assms(4)]) (auto simp: unsaved_def keys_lookup)
    moreover have "unsaved J entries' D \<subseteq> unsaved J entries D \<union> ?new" by (auto simp: unsaved_def)
    ultimately have "card (unsaved J entries' D) \<le> card (unsaved J entries D) + card ?new"
      by (meson card_Un_le card_mono finite_UnI order_trans)
    then show ?thesis using th' assms(6,7) by (simp add: th1_def)
  qed
  moreover have "\<not> cache_file_changed_since_last_seen D'"
    using assms(8,3) disk_after_save(2) [OF assms(1), of entries' D] assms(2)
    by (auto simp: maybe_save_jar_cache_throttled_def Let_def saved_entries_of_def split: if_split_asm)
  moreover have "unsaved J entries' D' = {}" if "th_pending_entries th' = 0"
    using step that fin by simp
  ultimately show ?thesis
    using saved by (simp add: flush_pending_jar_cache_save_def)
qed


definition example_jar_entry :: jar_cache_entry where
  "example_jar_entry = \<lparr>jc_mtime_secs = 5, jc_mtime_nanos = 0, jc_file_size = 7, jc_symbols = []\<rparr>"

text \<open>An environment that encodes the given maps, by their position, and stamps a file with the
  given second.\<close>

definition example_jar_env :: "jar_entries list \<Rightarrow> 64 word \<Rightarrow> jar_env" where
  "example_jar_env ms t = \<lparr>
     je_encode = (\<lambda>(v, m). if v = JAR_CACHE_VERSION then find (\<lambda>b. ms ! hd b = m) (map (\<lambda>i. [i]) [0..<length ms]) else None),
     je_decode = (\<lambda>b. Some (JAR_CACHE_VERSION, ms ! hd b)),
     je_encode_manifest = (\<lambda>_. None), je_decode_manifest = (\<lambda>_. None),
     je_create_dir_all = True, je_write = True, je_rename = True, je_stamp = (t, 0), je_now = 20000,
     je_metadata = (\<lambda>_. None), je_sidecar_index = (\<lambda>_. None), je_sidecar_free = (\<lambda>_. True)\<rparr>"

lemma example_jar_codec: "jar_codec_ok (example_jar_env ms t)"
  by (auto simp: jar_codec_ok_def example_jar_env_def find_Some_iff split: if_split_asm)

lemma example_jar_writes: "m \<in> set ms \<Longrightarrow> jar_writes_ok (example_jar_env ms t) m"
  by (auto simp: jar_writes_ok_def example_jar_env_def find_None_iff in_set_conv_nth)

definition jar_a :: jar_entries where "jar_a = Mapping.update (lit ''/a.jar'') example_jar_entry Mapping.empty"

theorem jar_cache_unsaved_bounded_witness:
  "\<exists>th D. fst (maybe_save_jar_cache_throttled (example_jar_env [jar_a] 3) jar_a 1
      \<lparr>th_pending_entries = 0, th_last_save = Some 19999\<rparr> \<lparr>jd_file = None, jd_recorded = None, jd_manifest = None\<rparr>) = th
    \<and> th_pending_entries th = 1 \<and> card (unsaved (example_jar_env [jar_a] 3) jar_a D) \<le> 1"
proof -
  let ?J = "example_jar_env [jar_a] 3"
  let ?D = "\<lparr>jd_file = None, jd_recorded = None, jd_manifest = None\<rparr>"
  let ?th = "\<lparr>th_pending_entries = 0, th_last_save = Some 19999\<rparr>"
  have run: "maybe_save_jar_cache_throttled ?J jar_a 1 ?th ?D = (?th\<lparr>th_pending_entries := 1\<rparr>, ?D)"
    by (simp add: maybe_save_jar_cache_throttled_def save_is_due_def example_jar_env_def
        JAR_CACHE_SAVE_DEBOUNCE_def JAR_CACHE_SAVE_PENDING_LIMIT_def)
  have keys: "{k. Mapping.lookup jar_a k \<noteq> Mapping.lookup Mapping.empty k} = {lit ''/a.jar''}"
    by (auto simp: jar_a_def lookup_update_map split: if_split_asm)
  have "card (unsaved ?J jar_a ?D) \<le> th_pending_entries (?th\<lparr>th_pending_entries := 1\<rparr>)"
    using jar_cache_unsaved_bounded [OF example_jar_codec example_jar_writes _ _ _ _ _ run, of Mapping.empty]
    unfolding keys
    by (simp add: cache_file_changed_since_last_seen_def file_fingerprint_def jar_a_def unsaved_def)
  then show ?thesis using run by (intro exI [of _ "?th\<lparr>th_pending_entries := 1\<rparr>"] exI [of _ ?D]) simp
qed

section \<open>Other processes\<close>

text \<open>The merge does not last. When another process wrote the cache file since this one last saw
  it, a save keeps the entries only the other process had; but they are merged into what is written,
  not into the map in memory, and the file now looks unchanged, so the very next save of this process
  writes its own map alone and erases them.\<close>

theorem second_save_loses_merged_entries:
  assumes "jar_codec_ok J" and "jar_codec_ok J'" and "finite (Mapping.keys entries)"
    and "jar_writes_ok J (insert_entries entries (disk_entries J D))" and "jar_writes_ok J' entries'"
    and "cache_file_changed_since_last_seen D"
    and "Mapping.lookup (disk_entries J D) jar = Some e"
    and "Mapping.lookup entries jar = None" and "Mapping.lookup entries' jar = None"
  shows "Mapping.lookup (disk_entries J (save_jar_cache J entries D)) jar = Some e
    \<and> Mapping.lookup (disk_entries J' (save_jar_cache J' entries' (save_jar_cache J entries D))) jar = None"
proof -
  have first: "disk_entries J (save_jar_cache J entries D) = insert_entries entries (disk_entries J D)"
    and unchanged: "\<not> cache_file_changed_since_last_seen (save_jar_cache J entries D)"
    using disk_after_save [OF assms(1), of entries D] assms(4,6) by (simp_all add: saved_entries_of_def)
  have "disk_entries J' (save_jar_cache J' entries' (save_jar_cache J entries D)) = entries'"
    using disk_after_save(1) [OF assms(2), of entries' "save_jar_cache J entries D"] assms(5) unchanged
    by (simp add: saved_entries_of_def)
  then show ?thesis
    using assms(7-9) by (simp add: first lookup_insert_entries [OF assms(3)])
qed

definition jar_b :: jar_entries where "jar_b = Mapping.update (lit ''/b.jar'') example_jar_entry Mapping.empty"

theorem second_save_loses_merged_entries_witness:
  "\<exists>J J' D. disk_entries J D = jar_b
     \<and> Mapping.lookup (disk_entries J (save_jar_cache J jar_a D)) (lit ''/b.jar'') = Some example_jar_entry
     \<and> Mapping.lookup (disk_entries J' (save_jar_cache J' jar_a (save_jar_cache J jar_a D))) (lit ''/b.jar'') = None"
proof -
  define ms where "ms = [jar_a, insert_entries jar_a jar_b, jar_b]"
  let ?J = "example_jar_env ms 3" and ?J' = "example_jar_env ms 4"
  let ?D = "\<lparr>jd_file = Some ([2], (2, 0, 1)), jd_recorded = None, jd_manifest = None\<rparr>"
  have disk: "disk_entries ?J ?D = jar_b"
    by (simp add: disk_entries_def load_jar_cache_def example_jar_env_def ms_def)
  have "Mapping.lookup (disk_entries ?J (save_jar_cache ?J jar_a ?D)) (lit ''/b.jar'') = Some example_jar_entry
    \<and> Mapping.lookup (disk_entries ?J' (save_jar_cache ?J' jar_a (save_jar_cache ?J jar_a ?D))) (lit ''/b.jar'') = None"
  proof (rule second_save_loses_merged_entries [OF example_jar_codec example_jar_codec])
    show "jar_writes_ok ?J (insert_entries jar_a (disk_entries ?J ?D))"
      unfolding disk by (rule example_jar_writes) (simp add: ms_def)
    show "jar_writes_ok ?J' jar_a" by (rule example_jar_writes) (simp add: ms_def)
  qed (simp_all add: disk jar_a_def jar_b_def cache_file_changed_since_last_seen_def file_fingerprint_def)
  then show ?thesis using disk by blast
qed

end
