(* ===== verification/Jar_Index.thy ===== *)
theory Jar_Index
  imports Jar_Cache Apply
begin

text \<open>
  Tier 2 of the JAR pipeline, \<^verbatim>\<open>src/indexer/jar.rs\<close>: what the symbols of one JAR add to the
  index, indexing a list of JARs from the symbol cache or the sidecar process, and materialization on
  demand within a budget of sidecar calls.

  A JAR is the string its path was written as. The state is the index together with the cache file;
  \<open>None\<close> is a panic (a full \<open>FileTable\<close>). The sidecar is alive exactly while
  \<open>ix_jar_sidecar_alive\<close> holds; whether its lock is free is asked of the environment per JAR.
\<close>

section \<open>Signatures\<close>

text \<open>\<open>split_params_at_depth_zero\<close> of \<^verbatim>\<open>indexer/infer/sig.rs\<close>: \<open>part\<close> is the slice from
  \<open>start\<close> on.\<close>

fun split_params_from :: "int \<Rightarrow> rchar \<Rightarrow> str \<Rightarrow> str \<Rightarrow> str list" where
  "split_params_from depth prev part [] = [part]"
| "split_params_from depth prev part (c # s) =
     (if c \<in> {ch CHR ''('', ch CHR ''<'', ch CHR ''['', ch CHR ''{''}
      then split_params_from (depth + 1) c (part @ [c]) s
      else if c \<in> {ch CHR '')'', ch CHR '']'', ch CHR ''}''}
      then split_params_from (depth - 1) c (part @ [c]) s
      else if c = ch CHR ''>'' \<and> prev \<noteq> ch CHR ''-'' \<and> depth > 0
      then split_params_from (depth - 1) c (part @ [c]) s
      else if c = ch CHR '','' \<and> depth = 0
      then part # split_params_from depth c [] s
      else split_params_from depth c (part @ [c]) s)"

definition split_params_at_depth_zero :: "str \<Rightarrow> str list" where
  "split_params_at_depth_zero text = split_params_from 0 0 [] text"

text \<open>The offset of the parenthesis that brings the depth to zero.\<close>

fun find_close :: "int \<Rightarrow> str \<Rightarrow> nat option" where
  "find_close depth [] = None"
| "find_close depth (c # s) =
     (if c = ch CHR ''('' then map_option Suc (find_close (depth + 1) s)
      else if c = ch CHR '')'' then
        (if depth - 1 = 0 then Some 0 else map_option Suc (find_close (depth - 1) s))
      else map_option Suc (find_close depth s))"

definition params_from_detail :: "str \<Rightarrow> str \<times> 8 word \<times> 8 word" where
  "params_from_detail detail =
     (case find_char (\<lambda>c. c = ch CHR ''('') detail of
        None \<Rightarrow> ([], 0, 0)
      | Some open_at \<Rightarrow>
          (case find_close 0 (drop open_at detail) of
             None \<Rightarrow> ([], 0, 0)
           | Some close_offset \<Rightarrow>
               let inner = trim (take (close_offset - 1) (drop (open_at + 1) detail))
               in if inner = [] then ([], 0, 0)
                  else let parts = split_params_at_depth_zero inner;
                           total = min (length parts) 255;
                           required = min (length (filter (\<lambda>p. ch CHR ''='' \<notin> set p) parts)) 255
                       in (inner, of_nat required, of_nat total)))"

definition extension_receiver_key :: "str \<Rightarrow> str" where
  "extension_receiver_key receiver_type =
     last_segment (strip_nullable (takeWhile (\<lambda>c. c \<noteq> ch CHR ''<'') receiver_type))"

definition kind_str_to_lsp :: "str \<Rightarrow> symbol_kind" where
  "kind_str_to_lsp kind =
     (if kind = lit ''class'' then SK_CLASS
      else if kind = lit ''interface'' then SK_INTERFACE
      else if kind = lit ''object'' then SK_OBJECT
      else if kind = lit ''fun'' then SK_FUNCTION
      else if kind = lit ''val'' then SK_PROPERTY
      else if kind = lit ''var'' then SK_VARIABLE
      else if kind = lit ''typealias'' then SK_CLASS
      else if kind = lit ''enum_member'' then SK_ENUM_MEMBER
      else SK_NULL)"

text \<open>The package a class-like symbol's detail names, and the first one of a JAR.\<close>

definition package_of_detail :: "str \<Rightarrow> str option" where
  "package_of_detail detail =
     (let after_kind = (case find_char (\<lambda>c. c = ch CHR '' '') detail of None \<Rightarrow> 0 | Some i \<Rightarrow> i + 1);
          fqn = takeWhile (\<lambda>c. c \<notin> {ch CHR ''('', ch CHR '':'', ch CHR ''<'', ch CHR '' ''})
                  (drop after_kind detail)
      in case rfind_char (\<lambda>c. c = ch CHR ''.'') fqn of
           None \<Rightarrow> None
         | Some dot \<Rightarrow>
             let candidate = take dot fqn; after_dot = drop (dot + 1) fqn;
                 segment = last_part (ch CHR ''.'') candidate
             in if after_dot \<noteq> [] \<and> is_ascii_upper (hd after_dot) \<and> segment \<noteq> []
                   \<and> is_ascii_lower (hd segment)
                then Some candidate else None)"

fun find_map :: "('a \<Rightarrow> 'b option) \<Rightarrow> 'a list \<Rightarrow> 'b option" where
  "find_map f [] = None"
| "find_map f (x # xs) = (case f x of Some y \<Rightarrow> Some y | None \<Rightarrow> find_map f xs)"

definition inferred_package :: "symbol_entry list \<Rightarrow> str option" where
  "inferred_package =
     find_map (\<lambda>s. if se_kind s \<in> {SK_CLASS, SK_INTERFACE, SK_OBJECT}
                    then package_of_detail (se_detail s) else None)"

section \<open>One JAR\<close>

definition synthetic_range :: "nat \<Rightarrow> sidecar_symbol \<Rightarrow> lsp_range" where
  "synthetic_range line_idx sy = Rng (Position line_idx 0) (Position line_idx (utf8_len (sd_name sy)))"

definition jar_symbol_entry :: "nat \<Rightarrow> sidecar_symbol \<Rightarrow> symbol_entry" where
  "jar_symbol_entry line_idx sy =
     (let (params_text, param_counts) = params_from_detail (sd_detail sy)
      in \<lparr>se_name = sd_name sy, se_kind = kind_str_to_lsp (sd_kind sy), se_visibility = Public,
          se_range = synthetic_range line_idx sy, se_selection_range = synthetic_range line_idx sy,
          se_detail = sd_detail sy, se_params = params_text, se_param_counts = param_counts,
          se_container = (if sd_top_level sy \<or> sd_container sy = [] then None else Some (sd_container sy)),
          se_cold = pack_cold_fields (sd_type_params sy)
            (extension_receiver_key (sd_extension_receiver_type sy)) (sd_extension_receiver_type sy)
            (sd_doc sy),
          se_trailing_lambda = sd_trailing_lambda sy, se_deprecated = sd_deprecated sy\<rparr>)"

definition push_jar_definition ::
  "url \<Rightarrow> nat \<times> sidecar_symbol \<Rightarrow> (str, location list) hmap \<Rightarrow> (str, location list) hmap" where
  "push_jar_definition fake_uri = (\<lambda>(i, sy).
     entry_modify (sd_name sy) (\<lambda>old. old @ [Location fake_uri (synthetic_range i sy)]))"

definition jar_fqn :: "str option \<Rightarrow> sidecar_symbol \<Rightarrow> str option" where
  "jar_fqn package sy =
     map_option (\<lambda>effective_pkg.
         if sd_top_level sy \<or> sd_container sy = []
         then effective_pkg @ lit ''.'' @ sd_name sy
         else effective_pkg @ lit ''.'' @ sd_container sy @ lit ''.'' @ sd_name sy)
       (if sd_pkg sy \<noteq> [] then Some (sd_pkg sy) else package)"

definition insert_jar_qualified ::
  "(str, file_data) hmap \<Rightarrow> url \<Rightarrow> str option \<Rightarrow> nat \<times> sidecar_symbol
   \<Rightarrow> file_table \<times> (str, symbol_loc) hmap \<Rightarrow> (file_table \<times> (str, symbol_loc) hmap) option" where
  "insert_jar_qualified files fake_uri package = (\<lambda>(i, sy) (t, qualified).
     case jar_fqn package sy of
       None \<Rightarrow> Some (t, qualified)
     | Some fqn \<Rightarrow>
         map_option (\<lambda>(t', fid).
           let synthetic_loc = \<lparr>sl_file = fid, sl_range = synthetic_range i sy\<rparr>;
               existing_is_parsed =
                 (case Option.bind (Mapping.lookup qualified fqn) (ft_location t') of
                    None \<Rightarrow> False
                  | Some existing \<Rightarrow> Mapping.lookup files (loc_uri existing) \<noteq> None)
           in (t', if existing_is_parsed then qualified else Mapping.update fqn synthetic_loc qualified))
         (ft_intern t fake_uri))"

definition jar_extension_entry :: "str \<Rightarrow> str option \<Rightarrow> sidecar_symbol \<Rightarrow> symbol_entry \<Rightarrow> extension_entry" where
  "jar_extension_entry fake_uri_str package sy s =
     \<lparr>ee_file_uri = fake_uri_str, ee_name = se_name s, ee_kind = se_kind s, ee_detail = se_detail s,
      ee_visibility = Public, ee_package = (if sd_pkg sy \<noteq> [] then Some (sd_pkg sy) else package),
      ee_trailing_lambda = se_trailing_lambda s, ee_deprecated = se_deprecated s,
      ee_container = se_container s\<rparr>"

definition push_jar_extension ::
  "str \<Rightarrow> str option \<Rightarrow> sidecar_symbol \<times> symbol_entry
   \<Rightarrow> (str, extension_entry list) hmap \<Rightarrow> (str, extension_entry list) hmap" where
  "push_jar_extension fake_uri_str package = (\<lambda>(sy, s) m.
     if extension_receiver s = [] then m
     else entry_modify (extension_receiver s)
            (\<lambda>old. old @ [jar_extension_entry fake_uri_str package sy s]) m)"

definition jar_symbols :: "sidecar_symbol list \<Rightarrow> symbol_entry list" where
  "jar_symbols sidecar_symbols =
     map (\<lambda>(i, sy). jar_symbol_entry i sy) (enumerate 0 sidecar_symbols)"

definition jar_file_data :: "sidecar_symbol list \<Rightarrow> file_data" where
  "jar_file_data sidecar_symbols =
     default_file_data\<lparr>fd_symbols := jar_symbols sidecar_symbols, fd_source_set := Library,
       fd_lines := map sd_detail sidecar_symbols,
       fd_package := inferred_package (jar_symbols sidecar_symbols),
       fd_supers := concat (map (\<lambda>(i, sy). map (\<lambda>super_name. (i, super_name, [])) (sd_supers sy))
                              (enumerate 0 sidecar_symbols))\<rparr>"

definition build_jar_file_data ::
  "externals \<Rightarrow> url \<Rightarrow> sidecar_symbol list \<Rightarrow> indexer \<Rightarrow> (indexer \<times> nat) option" where
  "build_jar_file_data X fake_uri sidecar_symbols ix =
     (let d = jar_file_data sidecar_symbols; package = fd_package d;
          numbered = enumerate 0 sidecar_symbols
      in Option.bind (fold_opt (insert_jar_qualified (ix_files ix) fake_uri package) numbered
                        (ix_file_table ix, ix_qualified ix)) (\<lambda>(t1, qualified).
         Option.bind (register_file_uri X fake_uri t1) (\<lambda>t2.
           Some (ix\<lparr>ix_jar_definitions := fold (push_jar_definition fake_uri) numbered (ix_jar_definitions ix),
                    ix_jar_uri_to_defs :=
                      Mapping.update fake_uri (map sd_name sidecar_symbols) (ix_jar_uri_to_defs ix),
                    ix_jar_symbol_packages :=
                      Mapping.update fake_uri (map sd_pkg sidecar_symbols) (ix_jar_symbol_packages ix),
                    ix_file_table := t2,
                    ix_qualified := qualified,
                    ix_extension_by_receiver :=
                      fold (push_jar_extension fake_uri package) (zip sidecar_symbols (fd_symbols d))
                        (ix_extension_by_receiver ix),
                    ix_jar_files := Mapping.update fake_uri d (ix_jar_files ix),
                    ix_library_uris := insert fake_uri (ix_library_uris ix)\<rparr>,
                 length sidecar_symbols))))"

definition remove_stale_definition ::
  "url \<Rightarrow> str \<Rightarrow> (str, location list) hmap \<Rightarrow> (str, location list) hmap" where
  "remove_stale_definition fake_uri name defs =
     (case Mapping.lookup defs name of
        None \<Rightarrow> defs
      | Some ls \<Rightarrow>
          let ls' = filter (\<lambda>l. loc_uri l \<noteq> fake_uri) ls
          in if ls' = [] then Mapping.delete name defs else Mapping.update name ls' defs)"

definition jar_uri :: "externals \<Rightarrow> str \<Rightarrow> url option" where
  "jar_uri X path =
     x_url_parse X (case x_url_from_file_path X (path_of_str path) of
        Some file_url \<Rightarrow> lit ''jar:'' @ file_url
      | None \<Rightarrow> lit ''jar:file://'' @ path)"

definition populate_from_symbols ::
  "externals \<Rightarrow> str \<Rightarrow> sidecar_symbol list \<Rightarrow> indexer \<Rightarrow> (indexer \<times> nat) option" where
  "populate_from_symbols X path sidecar_symbols ix =
     (if sidecar_symbols = [] then Some (ix, 0)
      else (case jar_uri X path of
              None \<Rightarrow> Some (ix, 0)
            | Some fake_uri \<Rightarrow>
                build_jar_file_data X fake_uri sidecar_symbols
                  (ix\<lparr>ix_jar_definitions :=
                        (case Mapping.lookup (ix_jar_uri_to_defs ix) fake_uri of
                           None \<Rightarrow> ix_jar_definitions ix
                         | Some names \<Rightarrow> fold (remove_stale_definition fake_uri) names (ix_jar_definitions ix)),
                      ix_jar_uri_to_defs := Mapping.delete fake_uri (ix_jar_uri_to_defs ix),
                      ix_jar_files := Mapping.delete fake_uri (ix_jar_files ix)\<rparr>)))"

section \<open>A list of JARs\<close>

text \<open>The memoized symbol cache, decoded on first use.\<close>

definition memoize_jar_cache :: "jar_env \<Rightarrow> indexer \<times> jar_disk \<Rightarrow> (indexer \<times> jar_disk) \<times> jar_entries" where
  "memoize_jar_cache J = (\<lambda>(ix, D).
     case ix_jar_symbol_cache ix of
       Some entries \<Rightarrow> ((ix, D), entries)
     | None \<Rightarrow>
         let (D', entries) = load_jar_cache J D
         in ((ix\<lparr>ix_jar_symbol_cache := Some entries,
                 ix_jar_cache_throttle := note_jar_cache_loaded J (ix_jar_cache_throttle ix)\<rparr>, D'),
             entries))"

text \<open>The first loop of \<open>index_jars\<close>: cache hits are populated, the others collected.\<close>

definition index_cached_jar ::
  "jar_env \<Rightarrow> externals \<Rightarrow> jar_entries \<Rightarrow> str
   \<Rightarrow> indexer \<times> nat \<times> str list \<Rightarrow> (indexer \<times> nat \<times> str list) option" where
  "index_cached_jar J X entries path = (\<lambda>(ix, total, missed).
     case Mapping.lookup entries path of
       Some entry \<Rightarrow>
         if cache_entry_is_fresh J entry (path_of_str path)
         then map_option (\<lambda>(ix', count). (ix', total + count, missed))
                (populate_from_symbols X path (jc_symbols entry) ix)
         else Some (ix, total, missed @ [path])
     | None \<Rightarrow> Some (ix, total, missed @ [path]))"

text \<open>The second loop: the sidecar's answers.\<close>

definition index_sidecar_jar ::
  "jar_env \<Rightarrow> externals \<Rightarrow> str \<times> sidecar_symbol list
   \<Rightarrow> indexer \<times> jar_entries \<times> nat \<times> nat \<Rightarrow> (indexer \<times> jar_entries \<times> nat \<times> nat) option" where
  "index_sidecar_jar J X = (\<lambda>(path, symbols) (ix, entries, total, newly).
     map_option (\<lambda>(ix', count).
         case make_cache_entry J (path_of_str path) symbols of
           Some entry \<Rightarrow> (ix', Mapping.update path entry entries, total + count, newly + 1)
         | None \<Rightarrow> (ix', entries, total + count, newly))
       (populate_from_symbols X path symbols ix))"

definition index_missed_jars ::
  "jar_env \<Rightarrow> externals \<Rightarrow> str list \<Rightarrow> indexer \<times> jar_entries \<times> nat
   \<Rightarrow> (indexer \<times> jar_entries \<times> nat \<times> nat) option" where
  "index_missed_jars J X missed = (\<lambda>(ix, entries, total).
     if missed = [] \<or> \<not> ix_jar_sidecar_alive ix then Some (ix, entries, total, 0)
     else (case je_sidecar_index J (map path_of_str missed) of
             None \<Rightarrow> Some (ix\<lparr>ix_jar_sidecar_alive := False\<rparr>, entries, total, 0)
           | Some results \<Rightarrow> fold_opt (index_sidecar_jar J X) (zip missed results) (ix, entries, total, 0)))"

definition index_jars ::
  "jar_env \<Rightarrow> externals \<Rightarrow> str list \<Rightarrow> indexer \<times> jar_disk \<Rightarrow> ((indexer \<times> jar_disk) \<times> nat) option" where
  "index_jars J X paths s =
     (if paths = [] then Some (s, 0)
      else (let ((ix0, D), entries0) = memoize_jar_cache J s
        in Option.bind (fold_opt (index_cached_jar J X entries0) paths (ix0, 0, [])) (\<lambda>(ix1, total1, missed).
           map_option (\<lambda>(ix2, entries, total, newly).
               let (th, D') = (if newly > 0
                               then maybe_save_jar_cache_throttled J entries newly (ix_jar_cache_throttle ix2) D
                               else (ix_jar_cache_throttle ix2, D));
                   ix3 = ix2\<lparr>ix_jar_symbol_cache := Some entries, ix_jar_cache_throttle := th\<rparr>
               in ((if total > 0 then note_jar_symbols_populated ix3 else ix3, D'), total))
             (index_missed_jars J X missed (ix1, entries0, total1)))))"

section \<open>Materialization on demand\<close>

definition materialize_jar_on_demand ::
  "jar_env \<Rightarrow> externals \<Rightarrow> jar_id \<Rightarrow> indexer \<times> jar_disk \<Rightarrow> ((indexer \<times> jar_disk) \<times> bool) option" where
  "materialize_jar_on_demand J X j = (\<lambda>(ix, D).
     if j \<in> ix_materialized ix then Some ((ix, D), True)
     else if j \<in> ix_materialization_failed ix then Some ((ix, D), False)
     else (case jt_path (ix_jar_table ix) j of
             None \<Rightarrow> Some ((ix\<lparr>ix_materialization_failed := insert j (ix_materialization_failed ix)\<rparr>, D), False)
           | Some path \<Rightarrow>
               map_option (\<lambda>((ix', D'), count).
                   if count > 0
                   then ((ix'\<lparr>ix_materialized := insert j (ix_materialized ix')\<rparr>, D'), True)
                   else ((ix'\<lparr>ix_materialization_failed := insert j (ix_materialization_failed ix')\<rparr>, D'), False))
                 (index_jars J X [path] (ix, D))))"

definition jar_symbol_cache_is_fresh_for ::
  "jar_env \<Rightarrow> jar_id \<Rightarrow> indexer \<times> jar_disk \<Rightarrow> (indexer \<times> jar_disk) \<times> bool" where
  "jar_symbol_cache_is_fresh_for J j s =
     (case jt_path (ix_jar_table (fst s)) j of
        None \<Rightarrow> (s, False)
      | Some path \<Rightarrow>
          let (s', entries) = memoize_jar_cache J s
          in (s', case Mapping.lookup entries path of
                    None \<Rightarrow> False
                  | Some entry \<Rightarrow> cache_entry_is_fresh J entry (path_of_str path)))"

text \<open>One candidate: the state, the budget left and whether one is materialized.\<close>

definition promote_candidate ::
  "jar_env \<Rightarrow> externals \<Rightarrow> jar_id \<Rightarrow> (indexer \<times> jar_disk) \<times> nat \<times> bool
   \<Rightarrow> ((indexer \<times> jar_disk) \<times> nat \<times> bool) option" where
  "promote_candidate J X j = (\<lambda>(s, budget, any_materialized).
     if j \<in> ix_materialized (fst s) then Some (s, budget, True)
     else if j \<in> ix_materialization_failed (fst s) then Some (s, budget, any_materialized)
     else (let (s1, cache_backed) = jar_symbol_cache_is_fresh_for J j s
           in if \<not> cache_backed \<and> budget = 0 then Some (s1, budget, any_materialized)
              else if \<not> je_sidecar_free J j then Some (s1, budget, any_materialized)
              else map_option (\<lambda>(s2, ok).
                       (s2, if cache_backed then budget else budget - 1, any_materialized \<or> ok))
                     (materialize_jar_on_demand J X j s1)))"

definition promote_candidates_bounded ::
  "jar_env \<Rightarrow> externals \<Rightarrow> jar_id list \<Rightarrow> (indexer \<times> jar_disk) \<times> nat
   \<Rightarrow> ((indexer \<times> jar_disk) \<times> nat \<times> bool) option" where
  "promote_candidates_bounded J X candidates = (\<lambda>(s, budget).
     fold_opt (promote_candidate J X) candidates (s, budget, False))"

definition promote_candidates ::
  "jar_env \<Rightarrow> externals \<Rightarrow> jar_id list \<Rightarrow> indexer \<times> jar_disk \<Rightarrow> ((indexer \<times> jar_disk) \<times> bool) option" where
  "promote_candidates J X candidates s =
     map_option (\<lambda>(s', _, any_materialized). (s', any_materialized))
       (promote_candidates_bounded J X candidates (s, 2 ^ 64 - 1))"

definition ensure_jar_materialized ::
  "jar_env \<Rightarrow> externals \<Rightarrow> str \<Rightarrow> indexer \<times> jar_disk \<Rightarrow> ((indexer \<times> jar_disk) \<times> bool) option" where
  "ensure_jar_materialized J X name s =
     (case Mapping.lookup (ix_jar_bare_names (fst s)) name of
        None \<Rightarrow> Some (s, False)
      | Some candidates \<Rightarrow> promote_candidates J X candidates s)"

definition ensure_jar_materialized_with_budget ::
  "jar_env \<Rightarrow> externals \<Rightarrow> str \<Rightarrow> (indexer \<times> jar_disk) \<times> nat
   \<Rightarrow> ((indexer \<times> jar_disk) \<times> nat \<times> bool) option" where
  "ensure_jar_materialized_with_budget J X name = (\<lambda>(s, budget).
     case Mapping.lookup (ix_jar_bare_names (fst s)) name of
       None \<Rightarrow> Some (s, budget, False)
     | Some candidates \<Rightarrow> promote_candidates_bounded J X candidates (s, budget))"

definition ensure_jar_materialized_for_extension_receiver ::
  "jar_env \<Rightarrow> externals \<Rightarrow> str \<Rightarrow> (indexer \<times> jar_disk) \<times> nat
   \<Rightarrow> ((indexer \<times> jar_disk) \<times> nat \<times> bool) option" where
  "ensure_jar_materialized_for_extension_receiver J X receiver = (\<lambda>(s, budget).
     case Mapping.lookup (ix_jar_extension_receivers (fst s)) receiver of
       None \<Rightarrow> Some (s, budget, False)
     | Some candidates \<Rightarrow> promote_candidates_bounded J X candidates (s, budget))"

definition ensure_jar_definitions_for ::
  "jar_env \<Rightarrow> externals \<Rightarrow> str \<Rightarrow> (indexer \<times> jar_disk) \<times> nat
   \<Rightarrow> ((indexer \<times> jar_disk) \<times> nat \<times> bool) option" where
  "ensure_jar_definitions_for J X name = (\<lambda>(s, budget).
     if \<not> jar_qualified_or_bare_has_candidate (fst s) name then Some (s, budget, False)
     else Option.bind (ensure_jar_materialized_with_budget J X name (s, budget)) (\<lambda>(s1, budget1, ok).
       if ok then Some (s1, budget1, True)
       else (let leaf = last_part (ch CHR ''.'') name
             in if leaf \<noteq> name \<and> leaf \<noteq> [] then ensure_jar_materialized_with_budget J X leaf (s1, budget1)
                else Some (s1, budget1, False))))"

definition extension_entries_for ::
  "jar_env \<Rightarrow> externals \<Rightarrow> str \<Rightarrow> (indexer \<times> jar_disk) \<times> nat
   \<Rightarrow> ((indexer \<times> jar_disk) \<times> nat \<times> extension_entry list option) option" where
  "extension_entries_for J X receiver = (\<lambda>(s, budget).
     map_option (\<lambda>(s1, budget1, _).
         (s1, budget1, Mapping.lookup (ix_extension_by_receiver (fst s1)) receiver))
       (if Mapping.lookup (ix_jar_extension_receivers (fst s)) receiver \<noteq> None
        then ensure_jar_materialized_for_extension_receiver J X receiver (s, budget)
        else Some (s, budget, False)))"

end
