(* ===== verification/Jar_Manifest.thy ===== *)
theory Jar_Manifest
  imports Jar_Index
begin

text \<open>
  Tier 1 of the JAR pipeline: the names a JAR declares, without their details. The manifest cache of
  \<^verbatim>\<open>src/indexer/jar_manifest_cache.rs\<close> and the functions of \<^verbatim>\<open>src/indexer/jar.rs\<close> that
  build the manifest and fill \<open>jar_bare_names\<close>, \<open>jar_qualified\<close> and
  \<open>jar_extension_receivers\<close> from it.
\<close>

section \<open>The manifest cache\<close>

definition JAR_MANIFEST_CACHE_VERSION :: "32 word" where
  "JAR_MANIFEST_CACHE_VERSION = 4"

definition load_jar_manifest_cache :: "jar_env \<Rightarrow> jar_disk \<Rightarrow> manifest_entries" where
  "load_jar_manifest_cache J D =
     (case jd_manifest D of
        None \<Rightarrow> Mapping.empty
      | Some bytes \<Rightarrow>
          (case je_decode_manifest J bytes of
             Some (version, entries) \<Rightarrow>
               if version = JAR_MANIFEST_CACHE_VERSION then entries else Mapping.empty
           | None \<Rightarrow> Mapping.empty))"

definition save_jar_manifest_cache :: "jar_env \<Rightarrow> manifest_entries \<Rightarrow> jar_disk \<Rightarrow> jar_disk" where
  "save_jar_manifest_cache J entries D =
     (if \<not> je_create_dir_all J then D
      else (case je_encode_manifest J (JAR_MANIFEST_CACHE_VERSION, entries) of
              None \<Rightarrow> D
            | Some bytes \<Rightarrow>
                if \<not> je_write J \<or> \<not> je_rename J then D else D\<lparr>jd_manifest := Some bytes\<rparr>))"

definition manifest_entry_is_fresh :: "jar_env \<Rightarrow> jar_manifest_entry \<Rightarrow> path \<Rightarrow> bool" where
  "manifest_entry_is_fresh J e jar =
     (case je_metadata J jar of
        None \<Rightarrow> False
      | Some m \<Rightarrow>
          if md_len m \<noteq> me_file_size e then False
          else (case md_modified m of
                  None \<Rightarrow> False
                | Some t \<Rightarrow> since_epoch t = (me_mtime_secs e, me_mtime_nanos e)))"

definition make_manifest_entry :: "jar_env \<Rightarrow> path \<Rightarrow> jar_manifest_name list \<Rightarrow> jar_manifest_entry option" where
  "make_manifest_entry J jar names =
     Option.bind (je_metadata J jar) (\<lambda>m.
       map_option (\<lambda>t. \<lparr>me_mtime_secs = fst (since_epoch t), me_mtime_nanos = snd (since_epoch t),
                        me_file_size = md_len m, me_names = names\<rparr>) (md_modified m))"

section \<open>Names\<close>

definition non_empty :: "str \<Rightarrow> str option" where
  "non_empty s = (if s = [] then None else Some s)"

definition manifest_name :: "sidecar_symbol \<Rightarrow> jar_manifest_name" where
  "manifest_name s =
     \<lparr>mn_name = sd_name s, mn_kind = sd_kind s, mn_container = non_empty (sd_container s),
      mn_package = non_empty (sd_pkg s),
      mn_extension_receiver =
        (if sd_extension_receiver_type s = [] then None
         else Some (extension_receiver_key (sd_extension_receiver_type s)))\<rparr>"

definition sidecar_symbols_to_manifest_names :: "sidecar_symbol list \<Rightarrow> jar_manifest_name list" where
  "sidecar_symbols_to_manifest_names = map manifest_name"

definition manifest_fqn :: "jar_manifest_name \<Rightarrow> str option" where
  "manifest_fqn entry =
     map_option (\<lambda>pkg. case Option.bind (mn_container entry) non_empty of
         Some container \<Rightarrow> pkg @ lit ''.'' @ container @ lit ''.'' @ mn_name entry
       | None \<Rightarrow> pkg @ lit ''.'' @ mn_name entry)
       (Option.bind (mn_package entry) non_empty)"

definition or_insert :: "'k \<Rightarrow> 'v \<Rightarrow> ('k, 'v) hmap \<Rightarrow> ('k, 'v) hmap" where
  "or_insert k v m = (case Mapping.lookup m k of None \<Rightarrow> Mapping.update k v m | Some _ \<Rightarrow> m)"

definition push_unless_last :: "'a \<Rightarrow> 'a list \<Rightarrow> 'a list" where
  "push_unless_last x xs = (if xs \<noteq> [] \<and> last xs = x then xs else xs @ [x])"

definition add_manifest_name :: "jar_id \<Rightarrow> jar_manifest_name \<Rightarrow> indexer \<Rightarrow> indexer" where
  "add_manifest_name j entry ix =
     ix\<lparr>ix_jar_bare_names := entry_modify (mn_name entry) (\<lambda>old. old @ [j]) (ix_jar_bare_names ix),
        ix_jar_qualified :=
          (case manifest_fqn entry of
             None \<Rightarrow> ix_jar_qualified ix
           | Some fqn \<Rightarrow> or_insert fqn j (ix_jar_qualified ix)),
        ix_jar_extension_receivers :=
          (case Option.bind (mn_extension_receiver entry) non_empty of
             None \<Rightarrow> ix_jar_extension_receivers ix
           | Some receiver \<Rightarrow> entry_modify receiver (push_unless_last j) (ix_jar_extension_receivers ix))\<rparr>"

definition populate_tier1_from_manifest :: "jar_id \<Rightarrow> jar_manifest_name list \<Rightarrow> indexer \<Rightarrow> indexer \<times> nat" where
  "populate_tier1_from_manifest j names ix = (fold (add_manifest_name j) names ix, length names)"

section \<open>Building the manifest\<close>

definition intern_jar :: "str \<Rightarrow> indexer \<Rightarrow> (indexer \<times> jar_id) option" where
  "intern_jar path ix =
     map_option (\<lambda>(t, j). (ix\<lparr>ix_jar_table := t\<rparr>, j)) (jt_intern (ix_jar_table ix) path)"

definition manifest_cached_jar ::
  "jar_env \<Rightarrow> manifest_entries \<Rightarrow> str \<Rightarrow> indexer \<times> nat \<times> str list \<Rightarrow> (indexer \<times> nat \<times> str list) option" where
  "manifest_cached_jar J entries path = (\<lambda>(ix, total, missed).
     map_option (\<lambda>(ix1, j).
         case Mapping.lookup entries path of
           Some entry \<Rightarrow>
             if manifest_entry_is_fresh J entry (path_of_str path)
             then (let (ix2, count) = populate_tier1_from_manifest j (me_names entry) ix1
                   in (ix2, total + count, missed))
             else (ix1, total, missed @ [path])
         | None \<Rightarrow> (ix1, total, missed @ [path]))
       (intern_jar path ix))"

definition manifest_sidecar_jar ::
  "jar_env \<Rightarrow> str \<times> sidecar_symbol list \<Rightarrow> indexer \<times> manifest_entries \<times> nat \<times> bool
   \<Rightarrow> (indexer \<times> manifest_entries \<times> nat \<times> bool) option" where
  "manifest_sidecar_jar J = (\<lambda>(path, symbols) (ix, entries, total, dirty).
     map_option (\<lambda>(ix1, j).
         let names = sidecar_symbols_to_manifest_names symbols;
             (ix2, count) = populate_tier1_from_manifest j names ix1
         in case make_manifest_entry J (path_of_str path) names of
              Some entry \<Rightarrow> (ix2, Mapping.update path entry entries, total + count, True)
            | None \<Rightarrow> (ix2, entries, total + count, dirty))
       (intern_jar path ix))"

definition manifest_missed_jars ::
  "jar_env \<Rightarrow> str list \<Rightarrow> indexer \<times> manifest_entries \<times> nat
   \<Rightarrow> (indexer \<times> manifest_entries \<times> nat \<times> bool) option" where
  "manifest_missed_jars J missed = (\<lambda>(ix, entries, total).
     if missed = [] \<or> \<not> ix_jar_sidecar_alive ix then Some (ix, entries, total, False)
     else (case je_sidecar_index J (map path_of_str missed) of
             None \<Rightarrow> Some (ix\<lparr>ix_jar_sidecar_alive := False\<rparr>, entries, total, False)
           | Some results \<Rightarrow> fold_opt (manifest_sidecar_jar J) (zip missed results) (ix, entries, total, False)))"

definition build_jar_manifest ::
  "jar_env \<Rightarrow> str list \<Rightarrow> indexer \<times> jar_disk \<Rightarrow> ((indexer \<times> jar_disk) \<times> nat) option" where
  "build_jar_manifest J paths = (\<lambda>(ix, D).
     if paths = [] then Some ((ix, D), 0)
     else (let entries0 = load_jar_manifest_cache J D
           in Option.bind (fold_opt (manifest_cached_jar J entries0) paths (ix, 0, [])) (\<lambda>(ix1, total1, missed).
              map_option (\<lambda>(ix2, entries, total, dirty).
                  ((if total > 0 then note_jar_symbols_populated ix2 else ix2,
                    if dirty then save_jar_manifest_cache J entries D else D), total))
                (manifest_missed_jars J missed (ix1, entries0, total1)))))"

end
