(* ===== verification/Jar_Props.thy ===== *)
theory Jar_Props
  imports Jar_Manifest Jar_Cache_Props Scan_Handler
begin

text \<open>
  The properties of the JAR pipeline: \<open>jar_definitions\<close> stays exact, promotion keeps within its
  budget, and what breaks when the root changes, a JAR is materialized again, or a top-level function
  is looked up by its qualified name.
\<close>

section \<open>The invariant of Tier 2\<close>

definition jar_locations :: "indexer \<Rightarrow> str \<Rightarrow> location set" where
  "jar_locations ix name =
     {Location u (se_selection_range s) | u d s.
        Mapping.lookup (ix_jar_files ix) u = Some d \<and> s \<in> set (fd_symbols d) \<and> se_name s = name}"

definition defs_exact :: "indexer \<Rightarrow> bool" where
  "defs_exact ix \<longleftrightarrow>
     (\<forall>name. set (postings (ix_jar_definitions ix) name) = jar_locations ix name
        \<and> distinct (postings (ix_jar_definitions ix) name)
        \<and> Mapping.lookup (ix_jar_definitions ix) name \<noteq> Some [])
     \<and> (\<forall>u d. Mapping.lookup (ix_jar_files ix) u = Some d \<longrightarrow>
          Mapping.lookup (ix_jar_uri_to_defs ix) u = Some (map se_name (fd_symbols d))
          \<and> map_option length (Mapping.lookup (ix_jar_symbol_packages ix) u) = Some (length (fd_symbols d)))"

text \<open>A JAR counted as materialized is there.\<close>

definition path_present :: "externals \<Rightarrow> indexer \<Rightarrow> str \<Rightarrow> bool" where
  "path_present X ix path \<longleftrightarrow>
     (\<exists>u. jar_uri X path = Some u \<and> Mapping.lookup (ix_jar_files ix) u \<noteq> None)"

definition jar_present :: "externals \<Rightarrow> indexer \<Rightarrow> jar_id \<Rightarrow> bool" where
  "jar_present X ix j \<longleftrightarrow>
     (\<exists>path. jt_path (ix_jar_table ix) j = Some path \<and> path_present X ix path)"

section \<open>One JAR\<close>

lemma jar_symbol_entry_fields [simp]:
  "se_name (jar_symbol_entry i sy) = sd_name sy"
  "se_selection_range (jar_symbol_entry i sy) = synthetic_range i sy"
  by (simp_all add: jar_symbol_entry_def split_def Let_def)

lemma postings_push_jar_definitions:
  "postings (fold (push_jar_definition u) ns m) name =
     postings m name @ map (\<lambda>(i, sy). Location u (synthetic_range i sy)) (filter (\<lambda>(i, sy). sd_name sy = name) ns)"
  by (induction ns arbitrary: m) (auto simp: push_jar_definition_def postings_entry_modify split_def)

lemma lookup_push_jar_definitions:
  "Mapping.lookup m name \<noteq> Some [] \<Longrightarrow> Mapping.lookup (fold (push_jar_definition u) ns m) name \<noteq> Some []"
  by (induction ns arbitrary: m) (auto simp: push_jar_definition_def lookup_entry_modify split_def)

lemma postings_remove_stale:
  "postings (fold (remove_stale_definition u) names m) name =
     (if name \<in> set names then filter (\<lambda>l. loc_uri l \<noteq> u) (postings m name) else postings m name)"
proof (induction names arbitrary: m)
  case (Cons n names)
  have "postings (remove_stale_definition u n m) name =
      (if n = name then filter (\<lambda>l. loc_uri l \<noteq> u) (postings m name) else postings m name)"
    by (auto simp: remove_stale_definition_def postings_def Let_def split: option.split)
  then show ?case using Cons.IH [of "remove_stale_definition u n m"] by auto
qed simp

lemma lookup_remove_stale:
  "Mapping.lookup m name \<noteq> Some [] \<Longrightarrow>
     Mapping.lookup (fold (remove_stale_definition u) names m) name \<noteq> Some []"
proof (induction names arbitrary: m)
  case (Cons n names)
  have "Mapping.lookup (remove_stale_definition u n m) name \<noteq> Some []"
    using Cons.prems by (auto simp: remove_stale_definition_def Let_def split: option.split)
  then show ?case using Cons.IH by simp
qed simp

text \<open>The fields that indexing a JAR leaves alone.\<close>

definition jar_core :: "indexer \<Rightarrow> jar_id set \<times> jar_id set \<times> jar_table \<times> (str, jar_id list) hmap
    \<times> (str, jar_id list) hmap \<times> bool \<times> jar_entries option \<times> jar_cache_throttle" where
  "jar_core ix = (ix_materialized ix, ix_materialization_failed ix, ix_jar_table ix, ix_jar_bare_names ix,
     ix_jar_extension_receivers ix, ix_jar_sidecar_alive ix, ix_jar_symbol_cache ix, ix_jar_cache_throttle ix)"

lemma populate_from_symbols_cases:
  assumes "populate_from_symbols X path syms ix = Some (ix', n)"
  obtains "n = 0" "ix' = ix"
  | u defs where "n > 0" "jar_uri X path = Some u"
    "defs = (case Mapping.lookup (ix_jar_uri_to_defs ix) u of None \<Rightarrow> ix_jar_definitions ix
             | Some names \<Rightarrow> fold (remove_stale_definition u) names (ix_jar_definitions ix))"
    "ix_jar_definitions ix' = fold (push_jar_definition u) (enumerate 0 syms) defs"
    "ix_jar_uri_to_defs ix' = Mapping.update u (map sd_name syms) (Mapping.delete u (ix_jar_uri_to_defs ix))"
    "ix_jar_symbol_packages ix' = Mapping.update u (map sd_pkg syms) (ix_jar_symbol_packages ix)"
    "ix_jar_files ix' = Mapping.update u (jar_file_data syms) (Mapping.delete u (ix_jar_files ix))"
    "jar_core ix' = jar_core ix"
proof (cases "syms = [] \<or> jar_uri X path = None")
  case True
  then show ?thesis using assms that(1) by (auto simp: populate_from_symbols_def split: if_split_asm option.split_asm)
next
  case False
  then obtain u where u: "jar_uri X path = Some u" and ne: "syms \<noteq> []" by auto
  let ?ix = "ix\<lparr>ix_jar_definitions :=
      (case Mapping.lookup (ix_jar_uri_to_defs ix) u of None \<Rightarrow> ix_jar_definitions ix
       | Some names \<Rightarrow> fold (remove_stale_definition u) names (ix_jar_definitions ix)),
      ix_jar_uri_to_defs := Mapping.delete u (ix_jar_uri_to_defs ix),
      ix_jar_files := Mapping.delete u (ix_jar_files ix)\<rparr>"
  have "build_jar_file_data X u syms ?ix = Some (ix', n)"
    using assms u ne by (simp add: populate_from_symbols_def)
  note b = this [unfolded build_jar_file_data_def Let_def bind_eq_Some_conv split_paired_Ex case_prod_conv
      option.inject prod.inject]
  show ?thesis
    by (rule that(2) [OF _ u refl]) (use b ne in \<open>force simp: jar_core_def\<close>)+
qed

lemma fd_symbols_jar_file_data: "fd_symbols (jar_file_data syms) = jar_symbols syms"
  by (simp add: jar_file_data_def)

lemma jar_symbols_names: "map se_name (jar_symbols syms) = map sd_name syms"
proof -
  have "map se_name (jar_symbols syms) = map sd_name (map snd (enumerate 0 syms))"
    by (simp add: jar_symbols_def split_def comp_def del: map_snd_enumerate)
  then show ?thesis by simp
qed

lemma length_jar_symbols [simp]: "length (jar_symbols syms) = length syms"
  by (simp add: jar_symbols_def)

lemma populate_core: "populate_from_symbols X path syms ix = Some (ix', n) \<Longrightarrow> jar_core ix' = jar_core ix"
  by (erule populate_from_symbols_cases) simp_all

lemma defs_exact_uri:
  assumes "defs_exact ix" and "l \<in> set (postings (ix_jar_definitions ix) name)"
  shows "\<exists>names. Mapping.lookup (ix_jar_uri_to_defs ix) (loc_uri l) = Some names \<and> name \<in> set names"
  using assms unfolding defs_exact_def jar_locations_def by fastforce

lemma populate_defs_exact:
  assumes inv: "defs_exact ix" and "populate_from_symbols X path syms ix = Some (ix', n)"
  shows "defs_exact ix'"
  using assms(2)
proof (cases rule: populate_from_symbols_cases)
  case 1
  then show ?thesis using inv by simp
next
  case (2 u defs)
  let ?new = "\<lambda>name. map (\<lambda>(i, sy). Location u (synthetic_range i sy))
    (filter (\<lambda>(i, sy). sd_name sy = name) (enumerate 0 syms))"
  have defs: "postings defs name = filter (\<lambda>l. loc_uri l \<noteq> u) (postings (ix_jar_definitions ix) name)" for name
  proof (cases "Mapping.lookup (ix_jar_uri_to_defs ix) u")
    case None
    then have "\<forall>l\<in>set (postings (ix_jar_definitions ix) name). loc_uri l \<noteq> u"
      using defs_exact_uri [OF inv, of _ name] by fastforce
    then show ?thesis using None 2(3) by (simp add: filter_id_conv)
  next
    case (Some names)
    then have "name \<notin> set names \<Longrightarrow> \<forall>l\<in>set (postings (ix_jar_definitions ix) name). loc_uri l \<noteq> u"
      using defs_exact_uri [OF inv, of _ name] by fastforce
    then show ?thesis using Some 2(3) by (auto simp: postings_remove_stale filter_id_conv)
  qed
  have post: "postings (ix_jar_definitions ix') name
      = filter (\<lambda>l. loc_uri l \<noteq> u) (postings (ix_jar_definitions ix) name) @ ?new name" for name
    using 2(4) by (simp add: postings_push_jar_definitions defs)
  have nonempty: "Mapping.lookup (ix_jar_definitions ix') name \<noteq> Some []" for name
    unfolding 2(4) using inv 2(3)
    by (intro lookup_push_jar_definitions) (auto simp: defs_exact_def lookup_remove_stale split: option.split)
  have "distinct (?new name)" for name
  proof -
    have "distinct (map fst (filter (\<lambda>(i, sy). sd_name sy = name) (enumerate 0 syms)))"
      by (simp add: distinct_map_filter)
    then show ?thesis
      by (auto simp: distinct_map inj_on_def synthetic_range_def)
  qed
  then have dist: "distinct (postings (ix_jar_definitions ix') name)" for name
    using inv by (auto simp: post defs_exact_def)
  have files: "Mapping.lookup (ix_jar_files ix') v = Some d
      \<longleftrightarrow> (v = u \<and> d = jar_file_data syms) \<or> (v \<noteq> u \<and> Mapping.lookup (ix_jar_files ix) v = Some d)" for v d
    by (auto simp: 2(7))
  have "set (postings (ix_jar_definitions ix') name) = jar_locations ix' name" for name
  proof -
    have "set (?new name) = {Location u (se_selection_range s) | s. s \<in> set (jar_symbols syms) \<and> se_name s = name}"
      by (force simp: jar_symbols_def)
    moreover have "{l \<in> jar_locations ix name. loc_uri l \<noteq> u} \<union> \<dots> = jar_locations ix' name"
      unfolding jar_locations_def files by (auto simp: fd_symbols_jar_file_data)
    ultimately show ?thesis using inv by (auto simp: post defs_exact_def)
  qed
  moreover have "Mapping.lookup (ix_jar_files ix') v = Some d \<Longrightarrow>
      Mapping.lookup (ix_jar_uri_to_defs ix') v = Some (map se_name (fd_symbols d))
      \<and> map_option length (Mapping.lookup (ix_jar_symbol_packages ix') v) = Some (length (fd_symbols d))" for v d
    using inv by (auto simp: 2(5-7) defs_exact_def fd_symbols_jar_file_data jar_symbols_names
        split: if_split_asm)
  ultimately show ?thesis using nonempty dist by (simp add: defs_exact_def)
qed

lemma populate_present:
  assumes "populate_from_symbols X path syms ix = Some (ix', n)"
  shows "path_present X ix p \<Longrightarrow> path_present X ix' p" and "n > 0 \<Longrightarrow> path_present X ix' path"
  using assms by (auto elim!: populate_from_symbols_cases simp: path_present_def)

section \<open>A list of JARs\<close>

text \<open>What every operation below the materialization flags keeps.\<close>

definition jar_ids :: "indexer \<Rightarrow> jar_id set \<times> jar_id set \<times> jar_table \<times> (str, jar_id list) hmap
    \<times> (str, jar_id list) hmap" where
  "jar_ids ix = (ix_materialized ix, ix_materialization_failed ix, ix_jar_table ix, ix_jar_bare_names ix,
     ix_jar_extension_receivers ix)"

definition tier2_step :: "externals \<Rightarrow> indexer \<Rightarrow> indexer \<Rightarrow> bool" where
  "tier2_step X ix ix' \<longleftrightarrow> (defs_exact ix \<longrightarrow> defs_exact ix')
     \<and> (\<forall>p. path_present X ix p \<longrightarrow> path_present X ix' p) \<and> jar_ids ix' = jar_ids ix"

lemma tier2_step_refl: "tier2_step X ix ix"
  by (simp add: tier2_step_def)

lemma tier2_step_trans: "tier2_step X ix ix1 \<Longrightarrow> tier2_step X ix1 ix2 \<Longrightarrow> tier2_step X ix ix2"
  by (simp add: tier2_step_def)

lemma tier2_step_same:
  assumes "ix_jar_definitions ix' = ix_jar_definitions ix" and "ix_jar_files ix' = ix_jar_files ix"
    and "ix_jar_uri_to_defs ix' = ix_jar_uri_to_defs ix"
    and "ix_jar_symbol_packages ix' = ix_jar_symbol_packages ix" and "jar_ids ix' = jar_ids ix"
  shows "tier2_step X ix ix'"
  using assms by (simp add: tier2_step_def defs_exact_def jar_locations_def path_present_def)

lemma populate_step:
  assumes "populate_from_symbols X path syms ix = Some (ix', n)"
  shows "tier2_step X ix ix'"
  using populate_defs_exact [OF _ assms] populate_present(1) [OF assms] populate_core [OF assms]
  by (simp add: tier2_step_def jar_core_def jar_ids_def)

lemma memoize_step: "tier2_step X (fst s) (fst (fst (memoize_jar_cache J s)))"
  by (cases s) (auto simp: memoize_jar_cache_def split_def Let_def jar_ids_def tier2_step_refl split: option.split intro: tier2_step_same)

lemma note_populated_step: "tier2_step X ix (note_jar_symbols_populated ix)"
  by (rule tier2_step_same) (simp_all add: note_jar_symbols_populated_def invalidate_completion_cache_def jar_ids_def)

lemma index_cached_step:
  assumes "index_cached_jar J X entries path s = Some s'"
  shows "tier2_step X (fst s) (fst s') \<and> fst (snd s) \<le> fst (snd s')"
  using assms populate_step
  by (auto simp: index_cached_jar_def split_def tier2_step_refl split: option.split_asm if_split_asm)

lemma index_cached_steps:
  assumes "fold_opt (index_cached_jar J X entries) paths s = Some s'"
  shows "tier2_step X (fst s) (fst s') \<and> fst (snd s) \<le> fst (snd s')"
proof (rule fold_opt_invariant [OF assms])
  fix path t t'
  assume "tier2_step X (fst s) (fst t) \<and> fst (snd s) \<le> fst (snd t)"
    and "index_cached_jar J X entries path t = Some t'"
  then show "tier2_step X (fst s) (fst t') \<and> fst (snd s) \<le> fst (snd t')"
    using index_cached_step tier2_step_trans le_trans by blast
qed (simp add: tier2_step_refl)

lemma index_sidecar_step:
  assumes "index_sidecar_jar J X ps s = Some s'"
  shows "tier2_step X (fst s) (fst s') \<and> fst (snd (snd s)) \<le> fst (snd (snd s'))"
  using assms populate_step
  by (auto simp: index_sidecar_jar_def split_def split: option.split_asm)

lemma index_missed_steps:
  assumes "index_missed_jars J X missed (ix, entries, tot) = Some (ix', entries', tot', newly)"
  shows "tier2_step X ix ix' \<and> tot \<le> tot'"
proof (cases "missed = [] \<or> \<not> ix_jar_sidecar_alive ix \<or> je_sidecar_index J (map path_of_str missed) = None")
  case True
  then show ?thesis using assms
    by (auto simp: index_missed_jars_def tier2_step_refl jar_ids_def split: if_split_asm intro: tier2_step_same)
next
  case False
  then obtain results where "fold_opt (index_sidecar_jar J X) (zip missed results) (ix, entries, tot, 0)
      = Some (ix', entries', tot', newly)"
    using assms by (auto simp: index_missed_jars_def)
  then have "tier2_step X ix (fst (ix', entries', tot', newly))
      \<and> tot \<le> fst (snd (snd (ix', entries', tot', newly)))"
  proof (rule fold_opt_invariant)
    fix ps t t'
    assume "tier2_step X ix (fst t) \<and> tot \<le> fst (snd (snd t))" and "index_sidecar_jar J X ps t = Some t'"
    then show "tier2_step X ix (fst t') \<and> tot \<le> fst (snd (snd t'))"
      using index_sidecar_step tier2_step_trans le_trans by blast
  qed (simp add: tier2_step_refl)
  then show ?thesis by simp
qed

lemma index_jars_cases:
  assumes "index_jars J X paths s = Some (s', n)" and "paths \<noteq> []"
  obtains ix1 tot1 missed ix2 entries newly ix3 where
    "fold_opt (index_cached_jar J X (snd (memoize_jar_cache J s))) paths (fst (fst (memoize_jar_cache J s)), 0, [])
       = Some (ix1, tot1, missed)"
    "index_missed_jars J X missed (ix1, snd (memoize_jar_cache J s), tot1) = Some (ix2, entries, n, newly)"
    "tier2_step X ix2 (fst s')" "ix_jar_symbol_cache (fst s') = Some entries"
proof -
  obtain ix0 D entries0 where m: "memoize_jar_cache J s = ((ix0, D), entries0)" by (metis prod.exhaust)
  obtain ix1 tot1 missed where f: "fold_opt (index_cached_jar J X entries0) paths (ix0, 0, []) = Some (ix1, tot1, missed)"
    using assms by (auto simp: index_jars_def m bind_eq_Some_conv)
  obtain r where r: "index_missed_jars J X missed (ix1, entries0, tot1) = Some r"
    using assms by (cases "index_missed_jars J X missed (ix1, entries0, tot1)") (auto simp: index_jars_def m f)
  obtain ix2 entries n2 newly where r2: "r = (ix2, entries, n2, newly)" by (metis prod.exhaust)
  define th where "th = fst (if newly > 0 then maybe_save_jar_cache_throttled J entries newly (ix_jar_cache_throttle ix2) D
    else (ix_jar_cache_throttle ix2, D))"
  obtain D' where s': "s' = (let ix3 = ix2\<lparr>ix_jar_symbol_cache := Some entries, ix_jar_cache_throttle := th\<rparr>
      in (if n > 0 then note_jar_symbols_populated ix3 else ix3, D'))" and n: "n2 = n"
    using assms by (auto simp: index_jars_def m f r r2 th_def Let_def split_def cong: if_cong)
  have i: "index_missed_jars J X missed (ix1, entries0, tot1) = Some (ix2, entries, n, newly)"
    using r r2 n by simp
  let ?ix3 = "ix2\<lparr>ix_jar_symbol_cache := Some entries, ix_jar_cache_throttle := th\<rparr>"
  have "tier2_step X ix2 ?ix3" by (rule tier2_step_same) (simp_all add: jar_ids_def)
  then have "tier2_step X ix2 (fst s')" using note_populated_step tier2_step_trans by (auto simp: s' Let_def)
  moreover have "ix_jar_symbol_cache (fst s') = Some entries"
    by (simp add: s' Let_def note_jar_symbols_populated_def invalidate_completion_cache_def)
  ultimately show ?thesis using that f i m by simp
qed

lemma index_jars_step:
  assumes "index_jars J X paths s = Some (s', n)"
  shows "tier2_step X (fst s) (fst s')"
proof (cases "paths = []")
  case True
  then show ?thesis using assms by (simp add: index_jars_def tier2_step_refl)
next
  case False
  from assms False show ?thesis
  proof (rule index_jars_cases)
    fix ix1 tot1 missed ix2 entries newly ix3
    let ?m = "memoize_jar_cache J s"
    assume "fold_opt (index_cached_jar J X (snd ?m)) paths (fst (fst ?m), 0, []) = Some (ix1, tot1, missed)"
      and "index_missed_jars J X missed (ix1, snd ?m, tot1) = Some (ix2, entries, n, newly)"
      and "tier2_step X ix2 (fst s')"
    then have "tier2_step X (fst (fst ?m)) ix1" "tier2_step X ix1 ix2" "tier2_step X ix2 (fst s')"
      using index_cached_steps index_missed_steps by (fastforce, blast, blast)
    then show ?thesis using memoize_step [of X s J] tier2_step_trans by blast
  qed
qed

text \<open>A JAR that gave symbols is there.\<close>

lemma index_one_jar_present:
  assumes "index_jars J X [path] s = Some (s', n)" and "n > 0"
  shows "path_present X (fst s') path"
  using assms(1)
proof (rule index_jars_cases)
  fix ix1 tot1 missed ix2 entries newly ix3
  let ?m = "memoize_jar_cache J s"
  assume one: "fold_opt (index_cached_jar J X (snd ?m)) [path] (fst (fst ?m), 0, []) = Some (ix1, tot1, missed)"
    and rest: "index_missed_jars J X missed (ix1, snd ?m, tot1) = Some (ix2, entries, n, newly)"
    and last: "tier2_step X ix2 (fst s')"
  have "(missed = [] \<and> (tot1 > 0 \<longrightarrow> path_present X ix1 path)) \<or> (missed = [path] \<and> tot1 = 0)"
    using one populate_present(2)
    by (auto simp: index_cached_jar_def bind_eq_Some_conv split: option.split_asm if_split_asm)
  then have "path_present X ix2 path"
  proof
    assume "missed = [] \<and> (tot1 > 0 \<longrightarrow> path_present X ix1 path)"
    then show ?thesis using rest assms(2) by (auto simp: index_missed_jars_def)
  next
    assume m: "missed = [path] \<and> tot1 = 0"
    then obtain results where "fold_opt (index_sidecar_jar J X) (zip [path] results) (ix1, snd ?m, 0, 0)
        = Some (ix2, entries, n, newly)"
      using rest assms(2) by (auto simp: index_missed_jars_def split: if_split_asm option.split_asm)
    then show ?thesis
      using assms(2) populate_present(2)
      by (cases results) (auto simp: index_sidecar_jar_def bind_eq_Some_conv split: option.split_asm)
  qed
  then show ?thesis using last by (simp add: tier2_step_def)
qed simp

section \<open>Promotion\<close>

definition jar_names :: "indexer \<Rightarrow> jar_table \<times> (str, jar_id list) hmap \<times> (str, jar_id list) hmap" where
  "jar_names ix = (ix_jar_table ix, ix_jar_bare_names ix, ix_jar_extension_receivers ix)"

definition tier2_inv :: "externals \<Rightarrow> indexer \<Rightarrow> bool" where
  "tier2_inv X ix \<longleftrightarrow> defs_exact ix \<and> (\<forall>j\<in>ix_materialized ix. jar_present X ix j)"

text \<open>The JARs that are materialized or have failed, and those a promotion needs no sidecar for.\<close>

definition decided :: "indexer \<Rightarrow> jar_id set" where
  "decided ix = ix_materialized ix \<union> ix_materialization_failed ix"

definition cache_backed :: "jar_env \<Rightarrow> indexer \<times> jar_disk \<Rightarrow> jar_id \<Rightarrow> bool" where
  "cache_backed J s j = snd (jar_symbol_cache_is_fresh_for J j s)"

definition entries_at :: "jar_env \<Rightarrow> indexer \<times> jar_disk \<Rightarrow> jar_entries" where
  "entries_at J s = snd (memoize_jar_cache J s)"

lemma tier2_step_tier2: "tier2_step X ix ix' \<Longrightarrow> tier2_inv X ix \<Longrightarrow> tier2_inv X ix'"
  unfolding tier2_step_def tier2_inv_def jar_present_def jar_ids_def by (simp, blast)

lemma tier2_step_ids:
  assumes "tier2_step X ix ix'"
  shows "jar_names ix' = jar_names ix" "ix_jar_table ix' = ix_jar_table ix"
    "ix_materialized ix' = ix_materialized ix"
    "ix_materialization_failed ix' = ix_materialization_failed ix" "decided ix' = decided ix"
  using assms by (simp_all add: tier2_step_def jar_ids_def jar_names_def decided_def)

lemma entries_at_memoized [simp]: "ix_jar_symbol_cache ix = Some entries \<Longrightarrow> entries_at J (ix, D) = entries"
  by (simp add: entries_at_def memoize_jar_cache_def)

lemma memoize_entries [simp]: "entries_at J (fst (memoize_jar_cache J s)) = entries_at J s"
  by (cases s) (simp add: entries_at_def memoize_jar_cache_def split_def Let_def split: option.split)

lemma cache_backed_eq:
  "cache_backed J s j \<longleftrightarrow> (case jt_path (ix_jar_table (fst s)) j of None \<Rightarrow> False
     | Some path \<Rightarrow> (case Mapping.lookup (entries_at J s) path of None \<Rightarrow> False
                     | Some entry \<Rightarrow> cache_entry_is_fresh J entry (path_of_str path)))"
  by (simp add: cache_backed_def jar_symbol_cache_is_fresh_for_def entries_at_def split_def Let_def split: option.split)

lemma probe_step:
  "tier2_step X (fst s) (fst (fst (jar_symbol_cache_is_fresh_for J j s)))
   \<and> entries_at J (fst (jar_symbol_cache_is_fresh_for J j s)) = entries_at J s"
  using memoize_step [of X s J]
  by (simp add: jar_symbol_cache_is_fresh_for_def split_def Let_def tier2_step_refl split: option.split)

lemma index_one_jar_entries:
  assumes "index_jars J X [path] s = Some (s', n)" and "q \<noteq> path"
  shows "Mapping.lookup (entries_at J s') q = Mapping.lookup (entries_at J s) q"
  using assms(1)
proof (rule index_jars_cases)
  fix ix1 tot1 missed ix2 entries newly ix3
  let ?m = "memoize_jar_cache J s"
  assume one: "fold_opt (index_cached_jar J X (snd ?m)) [path] (fst (fst ?m), 0, []) = Some (ix1, tot1, missed)"
    and rest: "index_missed_jars J X missed (ix1, snd ?m, tot1) = Some (ix2, entries, n, newly)"
    and cache: "ix_jar_symbol_cache (fst s') = Some entries"
  have missed: "missed = [] \<or> missed = [path]"
    using one by (auto simp: index_cached_jar_def bind_eq_Some_conv split: option.split_asm if_split_asm)
  have "Mapping.lookup entries q = Mapping.lookup (snd ?m) q"
  proof (cases "missed = [] \<or> \<not> ix_jar_sidecar_alive ix1 \<or> je_sidecar_index J (map path_of_str missed) = None")
    case True
    then show ?thesis using rest by (auto simp: index_missed_jars_def split: if_split_asm)
  next
    case False
    with missed obtain results where "fold_opt (index_sidecar_jar J X) (zip [path] results) (ix1, snd ?m, tot1, 0)
        = Some (ix2, entries, n, newly)"
      using rest by (auto simp: index_missed_jars_def)
    then show ?thesis
      using assms(2)
      by (cases results) (auto simp: index_sidecar_jar_def bind_eq_Some_conv split: option.split_asm)
  qed
  then show ?thesis using cache by (cases s') (simp add: entries_at_def [of J s])
qed simp

lemma materialize_undecided:
  assumes "materialize_jar_on_demand J X j s = Some (s', ok)" and "j \<notin> decided (fst s)"
  shows "jar_names (fst s') = jar_names (fst s)"
    and "tier2_inv X (fst s) \<Longrightarrow> tier2_inv X (fst s')"
    and "ix_materialized (fst s') = (if ok then {j} else {}) \<union> ix_materialized (fst s)"
    and "ix_materialization_failed (fst s') = (if ok then {} else {j}) \<union> ix_materialization_failed (fst s)"
    and "jt_path (ix_jar_table (fst s)) j \<noteq> Some q \<Longrightarrow>
      Mapping.lookup (entries_at J s') q = Mapping.lookup (entries_at J s) q"
proof -
  obtain ix D where s: "s = (ix, D)" by (cases s)
  have "jar_names (fst s') = jar_names (fst s)
    \<and> (tier2_inv X (fst s) \<longrightarrow> tier2_inv X (fst s'))
    \<and> ix_materialized (fst s') = (if ok then {j} else {}) \<union> ix_materialized (fst s)
    \<and> ix_materialization_failed (fst s') = (if ok then {} else {j}) \<union> ix_materialization_failed (fst s)
    \<and> (jt_path (ix_jar_table (fst s)) j \<noteq> Some q \<longrightarrow>
        Mapping.lookup (entries_at J s') q = Mapping.lookup (entries_at J s) q)"
  proof (cases "jt_path (ix_jar_table ix) j")
    case None
    then show ?thesis
      using assms
      by (auto simp: s materialize_jar_on_demand_def decided_def jar_names_def tier2_inv_def defs_exact_def
          jar_locations_def jar_present_def path_present_def entries_at_def memoize_jar_cache_def Let_def split_def
          split: option.split)
  next
    case (Some path)
    obtain ix1 D1 n where i: "index_jars J X [path] (ix, D) = Some ((ix1, D1), n)"
      and s': "s' = (if n > 0 then ix1\<lparr>ix_materialized := insert j (ix_materialized ix1)\<rparr>
                     else ix1\<lparr>ix_materialization_failed := insert j (ix_materialization_failed ix1)\<rparr>, D1)"
      and ok: "ok \<longleftrightarrow> n > 0"
      using assms Some by (auto simp: s materialize_jar_on_demand_def decided_def split: if_split_asm)
    note step = index_jars_step [OF i, simplified]
    have ids: "ix_jar_table ix1 = ix_jar_table ix" "ix_materialized ix1 = ix_materialized ix"
      "ix_materialization_failed ix1 = ix_materialization_failed ix" "jar_names ix1 = jar_names ix"
      using tier2_step_ids [OF step] by simp_all
    have "n > 0 \<Longrightarrow> path_present X ix1 path" using index_one_jar_present [OF i] by simp
    then have "tier2_inv X ix \<Longrightarrow> tier2_inv X (fst s')"
      using tier2_step_tier2 [OF step] Some ids
      by (auto simp: s' tier2_inv_def defs_exact_def jar_locations_def jar_present_def path_present_def)
    moreover have "entries_at J s' = entries_at J (ix1, D1)"
      by (auto simp: s' entries_at_def memoize_jar_cache_def Let_def split_def split: option.split)
    ultimately show ?thesis
      using index_one_jar_entries [OF i] ids Some ok by (auto simp: s s' jar_names_def)
  qed
  then show "jar_names (fst s') = jar_names (fst s)"
    and "tier2_inv X (fst s) \<Longrightarrow> tier2_inv X (fst s')"
    and "ix_materialized (fst s') = (if ok then {j} else {}) \<union> ix_materialized (fst s)"
    and "ix_materialization_failed (fst s') = (if ok then {} else {j}) \<union> ix_materialization_failed (fst s)"
    and "jt_path (ix_jar_table (fst s)) j \<noteq> Some q \<Longrightarrow>
      Mapping.lookup (entries_at J s') q = Mapping.lookup (entries_at J s) q"
    by blast+
qed

text \<open>What promoting candidates does to the state, the budget and the answer.\<close>

type_synonym promotion = "(indexer \<times> jar_disk) \<times> nat \<times> bool"

abbreviation pr_index :: "promotion \<Rightarrow> indexer" where
  "pr_index t \<equiv> fst (fst t)"

abbreviation pr_budget :: "promotion \<Rightarrow> nat" where
  "pr_budget t \<equiv> fst (snd t)"

definition promotes :: "jar_env \<Rightarrow> externals \<Rightarrow> jar_id list \<Rightarrow> promotion \<Rightarrow> promotion \<Rightarrow> bool" where
  "promotes J X cs t t' \<longleftrightarrow>
     jar_names (pr_index t') = jar_names (pr_index t)
   \<and> (tier2_inv X (pr_index t) \<longrightarrow> tier2_inv X (pr_index t'))
   \<and> ix_materialized (pr_index t) \<subseteq> ix_materialized (pr_index t')
   \<and> ix_materialized (pr_index t') \<subseteq> ix_materialized (pr_index t) \<union> set cs
   \<and> decided (pr_index t) \<subseteq> decided (pr_index t')
   \<and> decided (pr_index t') \<subseteq> decided (pr_index t) \<union> set cs
   \<and> (\<forall>j. j \<notin> decided (pr_index t') \<longrightarrow> cache_backed J (fst t') j = cache_backed J (fst t) j)
   \<and> card {j \<in> decided (pr_index t') - decided (pr_index t). \<not> cache_backed J (fst t) j} + pr_budget t' = pr_budget t
   \<and> (snd (snd t') \<longleftrightarrow> snd (snd t) \<or> (\<exists>j\<in>set cs. j \<in> ix_materialized (pr_index t')))
   \<and> ((\<forall>j\<in>set cs. je_sidecar_free J j) \<longrightarrow> pr_budget t' > 0 \<longrightarrow> set cs \<subseteq> decided (pr_index t'))"

lemma promotes_refl_step:
  assumes "tier2_step X (pr_index t) (pr_index t')" and "entries_at J (fst t') = entries_at J (fst t)"
    and "pr_budget t' = pr_budget t"
    and "snd (snd t') \<longleftrightarrow> snd (snd t) \<or> j \<in> ix_materialized (pr_index t)"
    and "je_sidecar_free J j \<longrightarrow> pr_budget t > 0 \<longrightarrow> j \<in> decided (pr_index t)"
  shows "promotes J X [j] t t'"
proof -
  note ids = tier2_step_ids [OF assms(1)]
  have "cache_backed J (fst t') i = cache_backed J (fst t) i" for i
    by (simp only: cache_backed_eq ids assms(2))
  then show ?thesis
    using assms(3-5) ids tier2_step_tier2 [OF assms(1)] by (auto simp: promotes_def)
qed

lemma promote_candidate_promotes:
  assumes wf: "jt_wf (ix_jar_table (pr_index t))" and run: "promote_candidate J X j t = Some t'"
  shows "promotes J X [j] t t'"
proof -
  obtain s b a where t: "t = (s, b, a)" by (metis prod.exhaust)
  obtain s1 backed where probe: "jar_symbol_cache_is_fresh_for J j s = (s1, backed)" by (metis prod.exhaust)
  have backed: "backed = cache_backed J s j" by (simp add: cache_backed_def probe)
  have step: "tier2_step X (fst s) (fst s1)" and ent: "entries_at J s1 = entries_at J s"
    using probe_step [of X s J j] by (simp_all add: probe)
  note ids = tier2_step_ids [OF step]
  show ?thesis
  proof (cases "j \<in> decided (fst s) \<or> (\<not> backed \<and> b = 0) \<or> \<not> je_sidecar_free J j")
    case True
    then show ?thesis
      using run step ent ids
      by (intro promotes_refl_step)
        (auto simp: t probe promote_candidate_def decided_def tier2_step_refl split: if_split_asm)
  next
    case False
    then obtain s2 ok where m: "materialize_jar_on_demand J X j s1 = Some (s2, ok)"
      and t': "t' = (s2, if backed then b else b - 1, a \<or> ok)"
      using run by (auto simp: t probe promote_candidate_def decided_def)
    have undecided: "j \<notin> decided (fst s1)" using False ids by simp
    note mat = materialize_undecided [OF m undecided]
    have other: "cache_backed J s2 i = cache_backed J s i" if "i \<noteq> j" for i
    proof (cases "jt_path (ix_jar_table (fst s)) i")
      case None
      then show ?thesis using mat(1) ids by (simp add: cache_backed_eq jar_names_def)
    next
      case (Some q)
      then have "jt_path (ix_jar_table (fst s1)) j \<noteq> Some q"
        using that jars.resolve_inj wf ids by (auto simp: t)
      then show ?thesis using mat(1) mat(5) [of q] ids Some ent by (simp add: cache_backed_eq jar_names_def)
    qed
    have new: "decided (fst s2) = insert j (decided (fst s))"
      using mat(3,4) ids by (auto simp: decided_def)
    have "{i \<in> decided (fst s2) - decided (fst s). \<not> cache_backed J s i} = (if backed then {} else {j})"
      using False by (auto simp: new backed)
    then have spent: "card {i \<in> decided (fst s2) - decided (fst s). \<not> cache_backed J s i}
        + (if backed then b else b - 1) = b"
      using False by auto
    have inv: "tier2_inv X (fst s) \<Longrightarrow> tier2_inv X (fst s2)" using mat(2) tier2_step_tier2 [OF step] by blast
    have "j \<in> ix_materialized (fst s2) \<longleftrightarrow> ok"
      using mat(3) undecided by (simp add: decided_def)
    moreover have "ix_materialized (fst s) \<subseteq> ix_materialized (fst s2)"
      "ix_materialized (fst s2) \<subseteq> insert j (ix_materialized (fst s))"
      using mat(3) ids by auto
    moreover have "i \<notin> decided (fst s2) \<Longrightarrow> cache_backed J s2 i = cache_backed J s i" for i
      using other new by auto
    ultimately show ?thesis
      using mat(1) ids new spent inv by (simp add: promotes_def t t' insert_commute subset_insertI)
  qed
qed

lemma promotes_trans:
  assumes p: "promotes J X cs t t1" and q: "promotes J X ds t1 t2"
  shows "promotes J X (cs @ ds) t t2"
proof -
  note p' = p [unfolded promotes_def] and q' = q [unfolded promotes_def]
  have dec: "decided (pr_index t) \<subseteq> decided (pr_index t1)" "decided (pr_index t1) \<subseteq> decided (pr_index t2)"
    "decided (pr_index t1) \<subseteq> decided (pr_index t) \<union> set cs" "decided (pr_index t2) \<subseteq> decided (pr_index t1) \<union> set ds"
    and mat: "ix_materialized (pr_index t) \<subseteq> ix_materialized (pr_index t1)"
    "ix_materialized (pr_index t1) \<subseteq> ix_materialized (pr_index t2)"
    "ix_materialized (pr_index t1) \<subseteq> ix_materialized (pr_index t) \<union> set cs"
    "ix_materialized (pr_index t2) \<subseteq> ix_materialized (pr_index t1) \<union> set ds"
    using p' q' by simp_all
  have cb: "j \<notin> decided (pr_index t1) \<Longrightarrow> cache_backed J (fst t1) j = cache_backed J (fst t) j"
    "j \<notin> decided (pr_index t2) \<Longrightarrow> cache_backed J (fst t2) j = cache_backed J (fst t1) j" for j
    using p' q' by simp_all
  let ?A = "{j \<in> decided (pr_index t1) - decided (pr_index t). \<not> cache_backed J (fst t) j}"
    and ?B = "{j \<in> decided (pr_index t2) - decided (pr_index t1). \<not> cache_backed J (fst t1) j}"
    and ?C = "{j \<in> decided (pr_index t2) - decided (pr_index t). \<not> cache_backed J (fst t) j}"
  have "?C = ?A \<union> ?B" using dec cb(1) by auto
  moreover have "finite ?A" "finite ?B"
    using dec by (auto intro: finite_subset [of _ "set cs"] finite_subset [of _ "set ds"])
  then have "card (?A \<union> ?B) = card ?A + card ?B" by (intro card_Un_disjoint) auto
  moreover have "card ?A + pr_budget t1 = pr_budget t" using p' by (elim conjE)
  moreover have b: "card ?B + pr_budget t2 = pr_budget t1" using q' by (elim conjE)
  ultimately have spent: "card ?C + pr_budget t2 = pr_budget t" by simp
  have left: "pr_budget t2 > 0 \<Longrightarrow> pr_budget t1 > 0" using b by linarith
  have answer: "snd (snd t2) \<longleftrightarrow> snd (snd t) \<or> (\<exists>j\<in>set (cs @ ds). j \<in> ix_materialized (pr_index t2))"
  proof -
    have "snd (snd t1) \<longleftrightarrow> snd (snd t) \<or> (\<exists>j\<in>set cs. j \<in> ix_materialized (pr_index t1))"
      "snd (snd t2) \<longleftrightarrow> snd (snd t1) \<or> (\<exists>j\<in>set ds. j \<in> ix_materialized (pr_index t2))"
      using p' q' by simp_all
    then show ?thesis using mat by auto
  qed
  have "(\<forall>j\<in>set cs. je_sidecar_free J j) \<longrightarrow> pr_budget t1 > 0 \<longrightarrow> set cs \<subseteq> decided (pr_index t1)"
    using p' by (elim conjE)
  moreover have "(\<forall>j\<in>set ds. je_sidecar_free J j) \<longrightarrow> pr_budget t2 > 0 \<longrightarrow> set ds \<subseteq> decided (pr_index t2)"
    using q' by (elim conjE)
  ultimately have all: "(\<forall>j\<in>set (cs @ ds). je_sidecar_free J j) \<longrightarrow> pr_budget t2 > 0 \<longrightarrow>
      set (cs @ ds) \<subseteq> decided (pr_index t2)"
    using left dec(2) by auto
  have "j \<notin> decided (pr_index t2) \<Longrightarrow> cache_backed J (fst t2) j = cache_backed J (fst t) j" for j
    using cb dec by auto
  moreover have "decided (pr_index t2) \<subseteq> decided (pr_index t) \<union> set (cs @ ds)"
    "ix_materialized (pr_index t2) \<subseteq> ix_materialized (pr_index t) \<union> set (cs @ ds)"
    "decided (pr_index t) \<subseteq> decided (pr_index t2)"
    "ix_materialized (pr_index t) \<subseteq> ix_materialized (pr_index t2)"
    using dec mat by auto
  ultimately show ?thesis
    unfolding promotes_def using spent answer all p' q' by simp
qed

lemma promote_loop:
  assumes "jt_wf (ix_jar_table (pr_index t))" and "fold_opt (promote_candidate J X) cs t = Some t'"
  shows "promotes J X cs t t'"
  using assms
proof (induction cs arbitrary: t)
  case Nil
  then show ?case by (simp add: promotes_def)
next
  case (Cons j cs)
  then obtain t1 where j: "promote_candidate J X j t = Some t1"
    and rest: "fold_opt (promote_candidate J X) cs t1 = Some t'"
    by (auto simp: bind_eq_Some_conv)
  have p: "promotes J X [j] t t1" by (rule promote_candidate_promotes [OF Cons.prems(1) j])
  then have "jt_wf (ix_jar_table (pr_index t1))"
    using Cons.prems(1) by (simp add: promotes_def jar_names_def)
  from promotes_trans [OF p Cons.IH [OF this rest]] show ?case by simp
qed

section \<open>Promotion properties\<close>

text \<open>C4 On-demand promotion keeps Tier 2 exact. Before and after it, the definitions of every name
  are exactly the symbols of that name in the indexed JARs, each once, the per-symbol package table is
  aligned with them, and every JAR that counts as materialized has been indexed. The answer says
  whether a candidate is materialized now, and then its symbols are there.\<close>

theorem promotion_keeps_tier2_exact:
  assumes "jt_wf (ix_jar_table ix)" and "tier2_inv X ix"
    and "promote_candidates_bounded J X cs ((ix, D), b) = Some ((ix', D'), b', ok)"
  shows "tier2_inv X ix' \<and> (ok \<longleftrightarrow> (\<exists>j\<in>set cs. j \<in> ix_materialized ix' \<and> jar_present X ix' j))"
proof -
  have "promotes J X cs ((ix, D), b, False) ((ix', D'), b', ok)"
    using assms by (intro promote_loop) (simp_all add: promote_candidates_bounded_def)
  then show ?thesis using assms(2) unfolding promotes_def tier2_inv_def by auto
qed

text \<open>C5 A promotion keeps within its budget. The budget is spent on exactly those JARs that were not
  decided before and had no fresh cache entry, one each, whatever the order and repetition of the
  candidates; JARs with a fresh entry are free. Materialized and failed JARs stay decided, and if the
  sidecar was never busy and budget is left over, every candidate is decided.\<close>

theorem promotion_within_budget:
  assumes "jt_wf (ix_jar_table ix)"
    and "promote_candidates_bounded J X cs ((ix, D), b) = Some ((ix', D'), b', ok)"
  shows "card {j \<in> decided ix' - decided ix. \<not> cache_backed J (ix, D) j} + b' = b
    \<and> decided ix \<subseteq> decided ix' \<and> decided ix' \<subseteq> decided ix \<union> set cs
    \<and> ((\<forall>j\<in>set cs. je_sidecar_free J j) \<and> b' > 0 \<longrightarrow> set cs \<subseteq> decided ix')"
proof -
  have "promotes J X cs ((ix, D), b, False) ((ix', D'), b', ok)"
    using assms by (intro promote_loop) (simp_all add: promote_candidates_bounded_def)
  then show ?thesis unfolding promotes_def by simp
qed

section \<open>Changing the root\<close>

definition tier2_part :: "indexer \<Rightarrow> (str, location list) hmap \<times> jar_id set" where
  "tier2_part ix = (ix_jar_definitions ix, ix_materialized ix)"

lemma tier2_part_manifest [simp]:
  "tier2_part (fold (add_manifest_name j) names ix) = tier2_part ix"
  "tier2_part (ix\<lparr>ix_jar_table := t\<rparr>) = tier2_part ix"
  "tier2_part (ix\<lparr>ix_jar_sidecar_alive := b\<rparr>) = tier2_part ix"
  "tier2_part (note_jar_symbols_populated ix) = tier2_part ix"
proof -
  show "tier2_part (fold (add_manifest_name j) names ix) = tier2_part ix"
    by (induction names arbitrary: ix) (simp_all add: add_manifest_name_def tier2_part_def)
qed (simp_all add: tier2_part_def note_jar_symbols_populated_def invalidate_completion_cache_def)

lemma manifest_cached_jar_part:
  "manifest_cached_jar J entries path (ix, k, ms) = Some t \<Longrightarrow> tier2_part (fst t) = tier2_part ix"
  by (auto simp: manifest_cached_jar_def intern_jar_def populate_tier1_from_manifest_def Let_def
      split: option.split_asm if_split_asm)

lemma manifest_sidecar_jar_part:
  "manifest_sidecar_jar J ps (ix, entries, k, b) = Some t \<Longrightarrow> tier2_part (fst t) = tier2_part ix"
  by (cases ps) (auto simp: manifest_sidecar_jar_def intern_jar_def populate_tier1_from_manifest_def Let_def
      split: option.split_asm)

lemma tier1_keeps:
  assumes "build_jar_manifest J paths (ix, D) = Some ((ix', D'), n)"
  shows "tier2_part ix' = tier2_part ix"
proof -
  let ?same = "\<lambda>i. tier2_part i = tier2_part ix"
  have cached: "?same (fst t')" if "?same (fst t)" "manifest_cached_jar J entries path t = Some t'" for entries path t t'
    using that manifest_cached_jar_part by (cases t) auto
  have answered: "?same (fst t')" if "?same (fst t)" "manifest_sidecar_jar J ps t = Some t'" for ps t t'
    using that manifest_sidecar_jar_part by (cases t) auto
  have missed: "?same (fst r)" if same: "?same i" and run: "manifest_missed_jars J missed (i, entries, k) = Some r"
    for missed i entries k r
  proof (cases "missed = [] \<or> \<not> ix_jar_sidecar_alive i \<or> je_sidecar_index J (map path_of_str missed) = None")
    case True
    then show ?thesis using that by (auto simp: manifest_missed_jars_def split: if_split_asm)
  next
    case False
    then obtain results where "fold_opt (manifest_sidecar_jar J) (zip missed results) (i, entries, k, False) = Some r"
      using run by (auto simp: manifest_missed_jars_def)
    then show ?thesis by (rule fold_opt_invariant [where I = "\<lambda>t. ?same (fst t)"]) (simp add: same, rule answered)
  qed
  have "?same ix'"
  proof (cases "paths = []")
    case True
    then show ?thesis using assms by (simp add: build_jar_manifest_def)
  next
    case False
    let ?e = "load_jar_manifest_cache J D"
    obtain ix1 k1 ms where f: "fold_opt (manifest_cached_jar J ?e) paths (ix, 0, []) = Some (ix1, k1, ms)"
      using assms False by (auto simp: build_jar_manifest_def Let_def bind_eq_Some_conv)
    have "?same (fst (ix1, k1, ms))"
      by (rule fold_opt_invariant [OF f, where I = "\<lambda>t. ?same (fst t)"]) (simp, rule cached)
    moreover obtain r where r: "manifest_missed_jars J ms (ix1, ?e, k1) = Some r"
      using assms False f by (cases "manifest_missed_jars J ms (ix1, ?e, k1)") (auto simp: build_jar_manifest_def)
    moreover have "ix' = fst r \<or> ix' = note_jar_symbols_populated (fst r)"
      using assms False f r by (auto simp: build_jar_manifest_def Let_def split_def split: if_split_asm)
    ultimately show ?thesis
      using missed [of ix1 ms ?e k1 r] by auto
  qed
  then show ?thesis .
qed

lemma promote_all_materialized:
  "set cs \<subseteq> ix_materialized (fst s) \<Longrightarrow>
     fold_opt (promote_candidate J X) cs (s, b, a) = Some (s, b, a \<or> cs \<noteq> [])"
  by (induction cs arbitrary: a) (auto simp: promote_candidate_def)

definition jar_part :: "indexer \<Rightarrow> (str, location list) hmap \<times> jar_id set \<times> jar_table \<times> (str, jar_id list) hmap \<times> bool" where
  "jar_part ix = (ix_jar_definitions ix, ix_materialized ix, ix_jar_table ix, ix_jar_bare_names ix, ix_jar_sidecar_alive ix)"

lemma change_root_jar_part:
  "jar_part (sh_indexer (handle_change_root Dk locked root h)) = jar_part (clear_jar_index (sh_indexer h))"
proof -
  have config: "jar_part (sh_indexer (fst (apply_config Dk c h))) = jar_part (sh_indexer h)" for c h
    by (simp add: apply_config_def Let_def map_indexer_def apply_ignore_patterns_def jar_part_def
        write_workspace_source_roots_def write_module_dependencies_def)
  have enqueue: "jar_part (sh_indexer (enqueue_scan a h)) = jar_part (sh_indexer h)" for a h
    by (simp add: enqueue_scan_def split_def Let_def execute_scan_def map_indexer_def jar_part_def
        split: option.split)
  have spawn: "jar_part (sh_indexer (spawn_jar_indexing locked h)) = jar_part (sh_indexer h)" for h
    by (simp add: spawn_jar_indexing_def Let_def map_indexer_def jar_part_def)
  show ?thesis
    by (simp add: handle_change_root_def split_def Let_def spawn enqueue config map_indexer_def)
qed

text \<open>Changing the root strands the JARs that are already materialized. The handler clears their
  definitions but not their flags, so once the JAR task of the new root has cleared the maps and
  rebuilt the names, a name all whose candidates were materialized for the old root is answered as
  available without anything being indexed, and it has no definition.\<close>

theorem change_root_strands_materialized_jars:
  assumes "h' = handle_change_root Dk locked root h"
    and "build_jar_manifest J paths (clear_jar_maps (sh_indexer h'), D) = Some ((ix, D'), n)"
    and "Mapping.lookup (ix_jar_bare_names ix) name = Some cs" and "cs \<noteq> []"
    and "set cs \<subseteq> ix_materialized (sh_indexer h)"
  shows "ensure_jar_materialized J X name (ix, D') = Some ((ix, D'), True)
    \<and> Mapping.lookup (ix_jar_definitions ix) name = None"
proof -
  have "ix_jar_definitions ix = Mapping.empty" "ix_materialized ix = ix_materialized (sh_indexer h)"
    using tier1_keeps [OF assms(2)] change_root_jar_part [of Dk locked root h] assms(1)
    by (simp_all add: tier2_part_def jar_part_def clear_jar_maps_def clear_jar_index_def)
  then show ?thesis
    using assms(3-5) promote_all_materialized [of cs "(ix, D')"]
    by (simp add: ensure_jar_materialized_def promote_candidates_def promote_candidates_bounded_def)
qed

section \<open>Materializing a JAR again\<close>

lemma postings_push_jar_extensions:
  "postings (fold (push_jar_extension u package) ns m) r = postings m r
     @ map (\<lambda>(sy, e). jar_extension_entry u package sy e) (filter (\<lambda>(sy, e). extension_receiver e = r \<and> r \<noteq> []) ns)"
proof (induction ns arbitrary: m)
  case (Cons n ns)
  obtain sy e where n: "n = (sy, e)" by (cases n)
  have "postings (push_jar_extension u package n m) r
      = postings m r @ (if extension_receiver e = r \<and> r \<noteq> [] then [jar_extension_entry u package sy e] else [])"
    by (auto simp: n push_jar_extension_def postings_entry_modify)
  then show ?case using Cons.IH [of "push_jar_extension u package n m"] by (simp add: n)
qed simp

definition jar_extensions :: "url \<Rightarrow> sidecar_symbol list \<Rightarrow> str \<Rightarrow> extension_entry list" where
  "jar_extensions u syms r =
     map (\<lambda>(sy, e). jar_extension_entry u (inferred_package (jar_symbols syms)) sy e)
       (filter (\<lambda>(sy, e). extension_receiver e = r \<and> r \<noteq> []) (zip syms (jar_symbols syms)))"

lemma populate_extensions:
  assumes "populate_from_symbols X path syms ix = Some (ix', n)" and "jar_uri X path = Some u" and "syms \<noteq> []"
  shows "postings (ix_extension_by_receiver ix') r = postings (ix_extension_by_receiver ix) r @ jar_extensions u syms r"
    and "u \<in> ix_library_uris ix'"
  using assms
  by (auto simp: populate_from_symbols_def build_jar_file_data_def Let_def bind_eq_Some_conv jar_extensions_def
      postings_push_jar_extensions jar_file_data_def)

text \<open>Materializing a JAR again duplicates its extensions. A reindex clears the flags and resets the
  index, which keeps the extensions of library files; indexing the JAR again replaces its definitions
  but appends its extensions a second time.\<close>

theorem rematerialized_extensions_duplicated:
  assumes "populate_from_symbols X path syms ix = Some (ix1, n)"
    and "populate_from_symbols X path syms (reset_index_state ix1) = Some (ix2, n')"
    and "jar_uri X path = Some u" and "syms \<noteq> []"
  shows "postings (ix_extension_by_receiver ix2) r
    = filter (\<lambda>e. ee_file_uri e \<in> ix_library_uris ix1) (postings (ix_extension_by_receiver ix) r)
      @ jar_extensions u syms r @ jar_extensions u syms r"
proof -
  have "\<forall>e\<in>set (jar_extensions u syms r). ee_file_uri e \<in> ix_library_uris ix1"
    using populate_extensions(2) [OF assms(1,3,4)] by (auto simp: jar_extensions_def jar_extension_entry_def)
  then show ?thesis
    using populate_extensions(1) [OF assms(2,3,4), of r] populate_extensions(1) [OF assms(1,3,4), of r]
    by (simp add: reset_index_state_def Let_def postings_retain_nonempty filter_id_conv)
qed

section \<open>Qualified names of Tier 1\<close>

text \<open>Tier 1 and Tier 2 disagree on top-level functions. They give a symbol with a package the same
  qualified name exactly unless it is a top-level declaration with a container, the file class Kotlin
  compiles it into: Tier 1 then puts that class into the name under which it is indexed and offered
  for import.\<close>

theorem tier1_fqn_agrees_iff:
  assumes "sd_pkg sy \<noteq> []"
  shows "manifest_fqn (manifest_name sy) = jar_fqn package sy \<longleftrightarrow> \<not> (sd_top_level sy \<and> sd_container sy \<noteq> [])"
  using assms by (auto simp: manifest_fqn_def manifest_name_def non_empty_def jar_fqn_def)

section \<open>An example\<close>

text \<open>A JAR with one top-level extension function, whose sidecar answers.\<close>

definition example_fun :: sidecar_symbol where
  "example_fun = \<lparr>sd_name = lit ''f'', sd_kind = lit ''fun'', sd_container = lit ''FileKt'',
     sd_detail = lit ''fun f'', sd_doc = [], sd_type_params = [], sd_extension_receiver_type = lit ''T'',
     sd_trailing_lambda = False, sd_deprecated = False, sd_pkg = lit ''p'', sd_top_level = True,
     sd_supers = []\<rparr>"

definition example_tier2_env :: jar_env where
  "example_tier2_env = (example_jar_env [] 3)\<lparr>je_sidecar_index := \<lambda>ps. Some (map (\<lambda>_. [example_fun]) ps)\<rparr>"

definition example_jar_table :: jar_table where
  "example_jar_table = \<lparr>jt_by_id = [lit ''/a.jar''], jt_by_path = Mapping.update (lit ''/a.jar'') (JarId 0) Mapping.empty\<rparr>"

definition example_jar_index :: indexer where
  "example_jar_index = (indexer_new True)\<lparr>ix_jar_table := example_jar_table,
     ix_jar_bare_names := Mapping.update (lit ''f'') [JarId 0] Mapping.empty,
     ix_jar_symbol_cache := Some Mapping.empty\<rparr>"

abbreviation example_jar_disk :: jar_disk where
  "example_jar_disk \<equiv> \<lparr>jd_file = None, jd_recorded = None, jd_manifest = None\<rparr>"

lemma example_jar_table_wf: "jt_wf example_jar_table"
proof -
  have "jt_intern jt_new (lit ''/a.jar'') = Some (example_jar_table, JarId 0)"
    by (simp add: jt_intern_def jt_intern_locked_def jt_new_def example_jar_table_def Let_def)
  then show ?thesis using jt_intern_wf jt_wf_new by blast
qed

lemma example_jar_index_fields [simp]:
  "ix_jar_table example_jar_index = example_jar_table"
  "ix_materialized example_jar_index = {}" "ix_materialization_failed example_jar_index = {}"
  "ix_jar_symbol_cache example_jar_index = Some Mapping.empty"
  "ix_jar_sidecar_alive example_jar_index" "ix_file_table example_jar_index = ft_new"
  "ix_jar_files example_jar_index = Mapping.empty" "ix_jar_definitions example_jar_index = Mapping.empty"
  by (simp_all add: example_jar_index_def indexer_new_def)

lemma example_tier2: "tier2_inv X example_jar_index"
  by (simp add: tier2_inv_def defs_exact_def jar_locations_def)

lemma example_intern: "\<exists>t i. ft_intern (ix_file_table example_jar_index) u = Some (t, i)"
  by (simp add: ft_intern_def ft_intern_locked_def ft_new_def Let_def)

lemma example_jar_uri: "jar_uri example_externals (lit ''/a.jar'') = Some (lit ''jar:/a.jar'')"
  by (simp add: jar_uri_def example_externals_def path_of_str_def path_to_str_def component_of_def)

lemma populate_example:
  assumes "ft_intern (ix_file_table ix) (lit ''jar:/a.jar'') = Some (t, i)"
  shows "\<exists>ix'. populate_from_symbols example_externals (lit ''/a.jar'') [example_fun] ix = Some (ix', 1)
    \<and> ft_intern (ix_file_table ix') (lit ''jar:/a.jar'') = Some (ix_file_table ix', i)"
proof -
  have again: "ft_intern t (lit ''jar:/a.jar'') = Some (t, i)"
    using ft_intern_lookup [OF assms] by (simp add: ft_intern_def)
  have "jar_fqn package example_fun = Some (lit ''p.f'')" for package
    by (simp add: jar_fqn_def example_fun_def)
  then show ?thesis
    using assms again
    by (simp add: populate_from_symbols_def build_jar_file_data_def example_jar_uri register_file_uri_def
      insert_jar_qualified_def Let_def del: lit_Cons)
qed

lemma example_promotion:
  "\<exists>ix' D' b' ok. promote_candidates_bounded example_tier2_env example_externals [JarId 0, JarId 0]
     ((example_jar_index, example_jar_disk), 1) = Some ((ix', D'), b', ok)"
proof -
  have path: "jt_path example_jar_table (JarId 0) = Some (lit ''/a.jar'')"
    by (simp add: jt_path_def example_jar_table_def)
  obtain ix1 where p: "populate_from_symbols example_externals (lit ''/a.jar'') [example_fun] example_jar_index = Some (ix1, 1)"
    using populate_example [of example_jar_index] example_intern by blast
  have "je_metadata example_tier2_env = (\<lambda>_. None)" "je_sidecar_free example_tier2_env = (\<lambda>_. True)"
    "je_sidecar_index example_tier2_env = (\<lambda>ps. Some (map (\<lambda>_. [example_fun]) ps))"
    by (simp_all add: example_tier2_env_def example_jar_env_def)
  note env = this
  obtain s1 where i: "index_jars example_tier2_env example_externals [lit ''/a.jar''] (example_jar_index, example_jar_disk) = Some (s1, 1)"
    using p populate_core [OF p]
    by (simp add: index_jars_def memoize_jar_cache_def index_cached_jar_def index_missed_jars_def env
        index_sidecar_jar_def make_cache_entry_def jar_core_def del: lit_def)
  obtain s2 where m: "materialize_jar_on_demand example_tier2_env example_externals (JarId 0)
      (example_jar_index, example_jar_disk) = Some (s2, True)"
    using i by (cases s1) (simp add: materialize_jar_on_demand_def path)
  have "JarId 0 \<in> ix_materialized (fst s2)"
    using materialize_undecided(3) [OF m] by (simp add: decided_def)
  then show ?thesis
    using m by (cases s2) (auto simp: promote_candidates_bounded_def promote_candidate_def env
        jar_symbol_cache_is_fresh_for_def memoize_jar_cache_def path)
qed

theorem promotion_keeps_tier2_exact_witness:
  "\<exists>ix' D' b' ok. promote_candidates_bounded example_tier2_env example_externals [JarId 0, JarId 0]
     ((example_jar_index, example_jar_disk), 1) = Some ((ix', D'), b', ok) \<and> tier2_inv example_externals ix'"
proof -
  obtain ix' D' b' ok where run: "promote_candidates_bounded example_tier2_env example_externals [JarId 0, JarId 0]
     ((example_jar_index, example_jar_disk), 1) = Some ((ix', D'), b', ok)"
    using example_promotion by blast
  have "jt_wf (ix_jar_table example_jar_index)" by (simp add: example_jar_table_wf)
  from promotion_keeps_tier2_exact [OF this example_tier2 run] run show ?thesis by blast
qed

theorem promotion_within_budget_witness:
  "\<exists>ix' D' b' ok. promote_candidates_bounded example_tier2_env example_externals [JarId 0, JarId 0]
     ((example_jar_index, example_jar_disk), 1) = Some ((ix', D'), b', ok)
   \<and> card {j \<in> decided ix' - {}. \<not> cache_backed example_tier2_env (example_jar_index, example_jar_disk) j} + b' = 1"
proof -
  obtain ix' D' b' ok where run: "promote_candidates_bounded example_tier2_env example_externals [JarId 0, JarId 0]
     ((example_jar_index, example_jar_disk), 1) = Some ((ix', D'), b', ok)"
    using example_promotion by blast
  have "jt_wf (ix_jar_table example_jar_index)" "decided example_jar_index = {}"
    by (simp_all add: example_jar_table_wf decided_def)
  with promotion_within_budget [OF _ run] run show ?thesis by metis
qed

theorem change_root_strands_materialized_jars_witness:
  "\<exists>h' ix D'. h' = handle_change_root empty_disk False [RootDir]
       (sh_new (example_jar_index\<lparr>ix_materialized := {JarId 0}\<rparr>))
     \<and> ensure_jar_materialized example_tier2_env example_externals (lit ''f'') (ix, D') = Some ((ix, D'), True)
     \<and> Mapping.lookup (ix_jar_definitions ix) (lit ''f'') = None"
proof -
  let ?h = "sh_new (example_jar_index\<lparr>ix_materialized := {JarId 0}\<rparr>)"
  let ?h' = "handle_change_root empty_disk False [RootDir] ?h"
  have names: "ix_jar_table (sh_indexer ?h') = example_jar_table"
      "ix_jar_bare_names (sh_indexer ?h') = Mapping.update (lit ''f'') [JarId 0] Mapping.empty"
      "ix_jar_sidecar_alive (sh_indexer ?h')"
    using change_root_jar_part [of empty_disk False "[RootDir]" ?h]
    by (simp_all add: jar_part_def clear_jar_index_def sh_new_def example_jar_index_def indexer_new_def)
  have env: "je_sidecar_index example_tier2_env = (\<lambda>ps. Some (map (\<lambda>_. [example_fun]) ps))"
    "je_metadata example_tier2_env = (\<lambda>_. None)"
    by (simp_all add: example_tier2_env_def example_jar_env_def)
  have jt: "jt_intern example_jar_table (lit ''/a.jar'') = Some (example_jar_table, JarId 0)"
    by (simp add: jt_intern_def example_jar_table_def)
  obtain ix where b: "build_jar_manifest example_tier2_env [lit ''/a.jar''] (clear_jar_maps (sh_indexer ?h'), example_jar_disk)
      = Some ((ix, example_jar_disk), 1)"
    and f: "Mapping.lookup (ix_jar_bare_names ix) (lit ''f'') = Some [JarId 0, JarId 0]"
    using jt
    by (simp add: build_jar_manifest_def clear_jar_maps_def manifest_cached_jar_def intern_jar_def names env
        manifest_missed_jars_def manifest_sidecar_jar_def load_jar_manifest_cache_def make_manifest_entry_def
        sidecar_symbols_to_manifest_names_def populate_tier1_from_manifest_def add_manifest_name_def
        manifest_name_def example_fun_def lookup_entry_modify postings_def note_jar_symbols_populated_def
        invalidate_completion_cache_def del: lit_Cons)
  have "ix_materialized (sh_indexer ?h) = {JarId 0}" by (simp add: sh_new_def)
  then have "ensure_jar_materialized example_tier2_env example_externals (lit ''f'') (ix, example_jar_disk)
        = Some ((ix, example_jar_disk), True)
      \<and> Mapping.lookup (ix_jar_definitions ix) (lit ''f'') = None"
    by (intro change_root_strands_materialized_jars [OF refl b f]) simp_all
  then show ?thesis by blast
qed

theorem rematerialized_extensions_duplicated_witness:
  "\<exists>ix2::indexer. postings (ix_extension_by_receiver ix2) (lit ''T'')
    = jar_extensions (lit ''jar:/a.jar'') [example_fun] (lit ''T'') @ jar_extensions (lit ''jar:/a.jar'') [example_fun] (lit ''T'')
    \<and> jar_extensions (lit ''jar:/a.jar'') [example_fun] (lit ''T'') \<noteq> []"
proof -
  obtain t i where "ft_intern (ix_file_table example_jar_index) (lit ''jar:/a.jar'') = Some (t, i)"
    using example_intern by blast
  then obtain ix1 where p1: "populate_from_symbols example_externals (lit ''/a.jar'') [example_fun] example_jar_index = Some (ix1, 1)"
    and t1: "ft_intern (ix_file_table ix1) (lit ''jar:/a.jar'') = Some (ix_file_table ix1, i)"
    using populate_example by blast
  have "ix_file_table (reset_index_state ix1) = ix_file_table ix1" by (simp add: reset_index_state_def Let_def)
  then obtain ix2 n2 where p2: "populate_from_symbols example_externals (lit ''/a.jar'') [example_fun] (reset_index_state ix1) = Some (ix2, n2)"
    using populate_example [of "reset_index_state ix1"] t1 by auto
  have "postings (ix_extension_by_receiver example_jar_index) (lit ''T'') = []"
    by (simp add: example_jar_index_def indexer_new_def)
  moreover have "jar_extensions (lit ''jar:/a.jar'') [example_fun] (lit ''T'') \<noteq> []"
    by (simp add: jar_extensions_def jar_symbols_def jar_symbol_entry_def example_fun_def split_def Let_def
        extension_receiver_def pack_cold_fields_def extension_receiver_key_def strip_nullable_def last_segment_def
        trim_end_matches_def last_part_def)
  ultimately show ?thesis
    using rematerialized_extensions_duplicated [OF p1 p2 example_jar_uri, of "lit ''T''"]
    by (intro exI [of _ ix2] conjI) simp_all
qed

theorem tier1_fqn_agrees_iff_witness:
  "manifest_fqn (manifest_name example_fun) \<noteq> jar_fqn None example_fun"
  using tier1_fqn_agrees_iff [of example_fun None] by (simp add: example_fun_def)

end
