(* ===== verification/Find_Name.thy ===== *)
theory Find_Name
  imports Index_State Str_Ext
begin

text \<open>
  Finding a declared name in one file: \<^verbatim>\<open>src/resolver/find.rs\<close>, the declaration scan of
  \<^verbatim>\<open>src/resolver/infer_lines.rs\<close> and the containers of \<^verbatim>\<open>src/resolver/container.rs\<close>.
  Files are read from the index, from the indexed JARs, or from the disk, which is an argument.
\<close>

section \<open>Scanning lines\<close>

text \<open>The argument lists of the \<open>chars().all\<close> test before a lambda arrow.\<close>

definition lambda_prefix_char :: "ucd \<Rightarrow> rchar \<Rightarrow> bool" where
  "lambda_prefix_char U c \<longleftrightarrow>
     is_whitespace c \<or> c \<in> {ch CHR ''{'', ch CHR ''('', ch CHR '','', ch CHR ''_''} \<or> is_alphanumeric U c"

definition ascii_ident_char :: "rchar \<Rightarrow> bool" where
  "ascii_ident_char c \<longleftrightarrow> is_ascii_alphanumeric c \<or> c = ch CHR ''_''"

definition is_comment_line :: "str \<Rightarrow> bool" where
  "is_comment_line line =
     (let trimmed = trim_start line
      in starts_with trimmed (lit ''//'') \<or> starts_with trimmed (lit ''*'') \<or> starts_with trimmed (lit ''/*''))"

definition name_range :: "nat \<Rightarrow> str \<Rightarrow> str \<Rightarrow> lsp_range" where
  "name_range line_num before name =
     Rng (Position line_num (utf16_len before)) (Position line_num (utf16_len before + utf16_len name))"

text \<open>\<open>name: Type\<close>: the offset of the first occurrence, if it passes the tests.\<close>

definition typed_declaration :: "ucd \<Rightarrow> str \<Rightarrow> str \<Rightarrow> nat option" where
  "typed_declaration U name line =
     (case find_sub line (name @ lit '':'') of
        None \<Rightarrow> None
      | Some pos \<Rightarrow>
          let before = take pos line
          in if \<not> (before \<noteq> [] \<and> is_id_char U (last before)) \<and> \<not> ends_with (trim_end before) [34]
             then Some pos else None)"

definition is_lambda_line :: "ucd \<Rightarrow> str \<Rightarrow> str \<Rightarrow> bool" where
  "is_lambda_line U name line =
     (let trimmed = trim_start line; arrow = name @ lit '' ->''
      in contains_sub line (lit ''{ '' @ name @ lit '' ->'')
         \<or> starts_with trimmed arrow
         \<or> starts_with trimmed (name @ lit '','')
         \<or> (contains_sub trimmed arrow
            \<and> list_all (lambda_prefix_char U)
                (take (case find_sub line arrow of None \<Rightarrow> 0 | Some i \<Rightarrow> i) line)))"

text \<open>\<open>name ->\<close>: the offset of the first occurrence of the name, if it is a whole word.\<close>

definition lambda_declaration :: "ucd \<Rightarrow> str \<Rightarrow> str \<Rightarrow> nat option" where
  "lambda_declaration U name line =
     (if \<not> contains_sub line (name @ lit '' ->'') \<or> \<not> is_lambda_line U name line then None
      else (case find_sub line name of
              None \<Rightarrow> None
            | Some pos \<Rightarrow>
                let before = take pos line; after = drop (pos + length name) line
                in if \<not> (before \<noteq> [] \<and> ascii_ident_char (last before))
                      \<and> \<not> (after \<noteq> [] \<and> ascii_ident_char (hd after))
                   then Some pos else None))"

definition declaration_in_line :: "ucd \<Rightarrow> str \<Rightarrow> str \<Rightarrow> nat option" where
  "declaration_in_line U name line =
     (if is_comment_line line then None
      else (case typed_declaration U name line of
              Some pos \<Rightarrow> Some pos
            | None \<Rightarrow> lambda_declaration U name line))"

fun find_declaration_from :: "ucd \<Rightarrow> str \<Rightarrow> nat \<Rightarrow> str list \<Rightarrow> lsp_range option" where
  "find_declaration_from U name line_num [] = None"
| "find_declaration_from U name line_num (line # rest) =
     (case declaration_in_line U name line of
        Some pos \<Rightarrow> Some (name_range line_num (take pos line) name)
      | None \<Rightarrow> find_declaration_from U name (Suc line_num) rest)"

definition find_declaration_range_in_lines :: "ucd \<Rightarrow> str list \<Rightarrow> str \<Rightarrow> lsp_range option" where
  "find_declaration_range_in_lines U file_lines name = find_declaration_from U name 0 file_lines"

definition find_declaration_range_after_line :: "ucd \<Rightarrow> str list \<Rightarrow> str \<Rightarrow> nat \<Rightarrow> lsp_range option" where
  "find_declaration_range_after_line U file_lines name start =
     (if start \<ge> length file_lines then None
      else map_option (\<lambda>r. Rng (Position (pos_line (r_start r) + start) (pos_character (r_start r)))
                                (Position (pos_line (r_end r) + start) (pos_character (r_end r))))
             (find_declaration_range_in_lines U (drop start file_lines) name))"

section \<open>Containers\<close>

definition is_container_kind :: "symbol_kind \<Rightarrow> bool" where
  "is_container_kind k \<longleftrightarrow> k \<in> {SK_CLASS, SK_INTERFACE, SK_STRUCT, SK_ENUM, SK_OBJECT}"

definition range_encloses :: "lsp_range \<Rightarrow> lsp_range \<Rightarrow> bool" where
  "range_encloses outer inner \<longleftrightarrow> r_start outer \<le> r_start inner \<and> r_end inner \<le> r_end outer"

section \<open>Files\<close>

text \<open>What the lookups of one file need: Unicode tables, URLs and parsers, and the disk.\<close>

record file_env =
  fe_ucd :: ucd
  fe_ext :: externals
  fe_read :: "path \<Rightarrow> str option"

definition ensure_file_data :: "'a file_env_scheme \<Rightarrow> indexer \<Rightarrow> url \<Rightarrow> file_data option" where
  "ensure_file_data V ix uri =
     (case Mapping.lookup (ix_files ix) uri of
        Some d \<Rightarrow> Some d
      | None \<Rightarrow>
          (case Mapping.lookup (ix_jar_files ix) uri of
             Some d \<Rightarrow> Some d
           | None \<Rightarrow>
               map_option (parse_by_extension (fe_ext V) (x_url_path (fe_ext V) uri))
                 (Option.bind (x_url_to_file_path (fe_ext V) uri) (fe_read V))))"

definition symbol_location :: "url \<Rightarrow> symbol_entry \<Rightarrow> location" where
  "symbol_location uri s = Location uri (se_selection_range s)"

definition file_at :: "'a file_env_scheme \<Rightarrow> indexer \<Rightarrow> str \<Rightarrow> (url \<times> file_data) option" where
  "file_at V ix file_uri =
     Option.bind (x_url_parse (fe_ext V) file_uri) (\<lambda>uri.
       map_option (Pair uri) (ensure_file_data V ix uri))"

definition find_name_in_uri :: "'a file_env_scheme \<Rightarrow> indexer \<Rightarrow> str \<Rightarrow> str \<Rightarrow> location list" where
  "find_name_in_uri V ix name file_uri =
     (case file_at V ix file_uri of
        None \<Rightarrow> []
      | Some (uri, d) \<Rightarrow>
          (case find (\<lambda>s. se_name s = name) (fd_symbols d) of
             Some s \<Rightarrow> [symbol_location uri s]
           | None \<Rightarrow>
               (case find_declaration_range_in_lines (fe_ucd V) (fd_lines d) name of
                  Some r \<Rightarrow> [Location uri r]
                | None \<Rightarrow> [])))"

definition members_tagged :: "url \<Rightarrow> file_data \<Rightarrow> str \<Rightarrow> str \<Rightarrow> location list" where
  "members_tagged uri d name class_name =
     map (symbol_location uri)
       (filter (\<lambda>s. se_name s = name \<and> se_container s = Some class_name) (fd_symbols d))"

definition find_all_names_with_container_in_uri ::
  "'a file_env_scheme \<Rightarrow> indexer \<Rightarrow> str \<Rightarrow> str \<Rightarrow> str \<Rightarrow> location list" where
  "find_all_names_with_container_in_uri V ix name class_name file_uri =
     (case file_at V ix file_uri of
        None \<Rightarrow> []
      | Some (uri, d) \<Rightarrow> members_tagged uri d name class_name)"

definition find_name_in_uri_after_line ::
  "'a file_env_scheme \<Rightarrow> indexer \<Rightarrow> str \<Rightarrow> str \<Rightarrow> nat \<Rightarrow> str option \<Rightarrow> location list" where
  "find_name_in_uri_after_line V ix name file_uri after_line container_name =
     (case file_at V ix file_uri of
        None \<Rightarrow> []
      | Some (uri, d) \<Rightarrow>
          let by_symbol =
            (case container_name of
               Some c \<Rightarrow> members_tagged uri d name c
             | None \<Rightarrow>
                 (case min_by_key selection_start
                         (filter (\<lambda>s. se_name s = name \<and> selection_start s \<ge> after_line) (fd_symbols d)) of
                    Some s \<Rightarrow> [symbol_location uri s]
                  | None \<Rightarrow>
                      (case find (\<lambda>s. se_name s = name) (fd_symbols d) of
                         Some s \<Rightarrow> [symbol_location uri s]
                       | None \<Rightarrow> [])))
          in if by_symbol \<noteq> [] then by_symbol
             else (case find_declaration_range_after_line (fe_ucd V) (fd_lines d) name after_line of
                     Some r \<Rightarrow> [Location uri r]
                   | None \<Rightarrow>
                       (case find_declaration_range_in_lines (fe_ucd V) (fd_lines d) name of
                          Some r \<Rightarrow> [Location uri r]
                        | None \<Rightarrow> [])))"

definition enclosed_members :: "file_data \<Rightarrow> str \<Rightarrow> symbol_entry \<Rightarrow> symbol_entry list" where
  "enclosed_members d name container =
     filter (\<lambda>s. se_name s = name \<and> se_range s \<noteq> se_range container
               \<and> range_encloses (se_range container) (se_range s)) (fd_symbols d)"

definition container_at :: "file_data \<Rightarrow> location \<Rightarrow> symbol_entry option" where
  "container_at d container = find (\<lambda>s. se_selection_range s = loc_range container) (fd_symbols d)"

definition first_of :: "'a list \<Rightarrow> 'a option" where
  "first_of xs = (case xs of [] \<Rightarrow> None | x # _ \<Rightarrow> Some x)"

definition find_name_scoped_to_container :: "'a file_env_scheme \<Rightarrow> indexer \<Rightarrow> str \<Rightarrow> location \<Rightarrow> location option" where
  "find_name_scoped_to_container V ix name container =
     Option.bind (ensure_file_data V ix (loc_uri container)) (\<lambda>d.
       let container_symbol = container_at d container
       in case Option.bind container_symbol (\<lambda>c. first_of (enclosed_members d name c)) of
            Some found \<Rightarrow> Some (symbol_location (loc_uri container) found)
          | None \<Rightarrow> first_of (find_name_in_uri_after_line V ix name (loc_uri container)
                      (pos_line (r_start (loc_range container))) (map_option se_name container_symbol)))"

definition file_has_container_metadata :: "'a file_env_scheme \<Rightarrow> indexer \<Rightarrow> str \<Rightarrow> bool" where
  "file_has_container_metadata V ix file_uri =
     (case file_at V ix file_uri of
        None \<Rightarrow> False
      | Some (_, d) \<Rightarrow> list_ex (\<lambda>s. se_container s \<noteq> None) (fd_symbols d))"

definition find_all_names_scoped_to_container :: "'a file_env_scheme \<Rightarrow> indexer \<Rightarrow> str \<Rightarrow> location \<Rightarrow> location list" where
  "find_all_names_scoped_to_container V ix name container =
     (case ensure_file_data V ix (loc_uri container) of
        None \<Rightarrow> []
      | Some d \<Rightarrow>
          let line = pos_line (r_start (loc_range container)); uri = loc_uri container
          in (case container_at d container of
                None \<Rightarrow> find_name_in_uri_after_line V ix name uri line None
              | Some c \<Rightarrow>
                  let contained = map (symbol_location uri) (enclosed_members d name c);
                      by_container = members_tagged uri d name (se_name c)
                  in if contained \<noteq> [] then contained
                     else if by_container \<noteq> [] then by_container
                     else find_name_in_uri_after_line V ix name uri line (Some (se_name c))))"

definition find_local_declaration :: "ucd \<Rightarrow> indexer \<Rightarrow> str \<Rightarrow> url \<Rightarrow> location list" where
  "find_local_declaration U ix name uri =
     (case mem_lines_for ix uri of
        None \<Rightarrow> []
      | Some file_lines \<Rightarrow>
          (case find_declaration_range_in_lines U file_lines name of
             Some r \<Rightarrow> [Location uri r]
           | None \<Rightarrow> []))"

definition enclosing_container_chain :: "indexer \<Rightarrow> location \<Rightarrow> str list" where
  "enclosing_container_chain ix loc =
     (case file_data_for ix (loc_uri loc) of
        None \<Rightarrow> []
      | Some d \<Rightarrow>
          map se_name
            (sort_key (\<lambda>s. r_start (se_range s)) (rev (sort_key (\<lambda>s. r_end (se_range s)) (rev
              (filter (\<lambda>s. is_container_kind (se_kind s) \<and> se_selection_range s \<noteq> loc_range loc
                        \<and> range_encloses (se_range s) (loc_range loc)) (fd_symbols d)))))))"

definition resolve_companion_member :: "externals \<Rightarrow> indexer \<Rightarrow> str \<Rightarrow> str \<Rightarrow> str \<Rightarrow> location list" where
  "resolve_companion_member X ix name class_name file_uri =
     (case (x_url_parse X file_uri, file_data_for ix file_uri) of
        (Some uri, Some d) \<Rightarrow>
          if Mapping.lookup (ix_jar_files ix) file_uri \<noteq> None
          then (case find (\<lambda>s. is_companion_object s \<and> se_container s = Some class_name) (fd_symbols d) of
                  None \<Rightarrow> []
                | Some companion \<Rightarrow> members_tagged uri d name (se_name companion))
          else (case find (\<lambda>s. se_name s = class_name \<and> is_container_kind (se_kind s)) (fd_symbols d) of
                  None \<Rightarrow> []
                | Some c \<Rightarrow>
                    (case find (\<lambda>s. is_companion_object s \<and> range_encloses (se_range c) (se_range s)) (fd_symbols d) of
                       None \<Rightarrow> []
                     | Some companion \<Rightarrow> map (symbol_location uri) (enclosed_members d name companion)))
      | _ \<Rightarrow> [])"

end
