(* ===== verification/Rg_Search.thy ===== *)
theory Rg_Search
  imports Discover Str_Ext
begin

text \<open>
  Running ripgrep: the searches of \<^verbatim>\<open>src/rg.rs\<close>, the lines they print, and the search for the
  definitions of a name.

  What a run prints is the field \<open>rg_run\<close> of the environment, given the arguments; it is
  \<open>None\<close> where no slot is free (see \<open>Rg_Slots\<close>), the program does not start, or its exit status
  is a failure. In the regular expressions below \<open>%\<close> stands for the backslash.
\<close>

record rg_env =
  rg_run :: "str list \<Rightarrow> str option"
  rg_canonicalize :: "path \<Rightarrow> path option"
  rg_is_dir :: "path \<Rightarrow> bool"
  rg_exists :: "path \<Rightarrow> bool"
  rg_current_dir :: "path option"

definition regex :: "string \<Rightarrow> str" where
  "regex s = map (\<lambda>c. if c = ch CHR ''%'' then 92 else c) (lit s)"

section \<open>Patterns\<close>

definition regex_escape :: "ucd \<Rightarrow> str \<Rightarrow> str" where
  "regex_escape U s = concat (map (\<lambda>c. if is_id_char U c then [c] else [92, c]) s)"

definition build_rg_pattern :: "ucd \<Rightarrow> str \<Rightarrow> str" where
  "build_rg_pattern U name =
     regex ''(?:(?:class|struct|interface|object|protocol|fun|func|val|var|let|typealias|enum%s+class)%s+|fun%s+%w[%w.]*%.|(?:public|private|protected|fileprivate|open|internal|static|abstract|final|%s)+(?:enum|class|struct|protocol)%s+|extension%s+)''
     @ regex_escape U name @ regex ''%b''"

section \<open>Roots\<close>

text \<open>The prefixes of a path are what its chain of parents runs through, the nearest first.\<close>

fun walk_to_git_root_from :: "rg_env \<Rightarrow> nat \<Rightarrow> path \<Rightarrow> path option" where
  "walk_to_git_root_from R 0 cur = None"
| "walk_to_git_root_from R (Suc n) cur =
     (if rg_exists R (path_join cur (path_of_str (lit ''.git''))) then Some cur
      else (case path_parent cur of None \<Rightarrow> None | Some p \<Rightarrow> walk_to_git_root_from R n p))"

definition walk_to_git_root :: "rg_env \<Rightarrow> path \<Rightarrow> path option" where
  "walk_to_git_root R f = (case path_parent f of None \<Rightarrow> None
     | Some p \<Rightarrow> walk_to_git_root_from R (length f) p)"

definition effective_rg_root :: "rg_env \<Rightarrow> path option \<Rightarrow> path option \<Rightarrow> path option" where
  "effective_rg_root R workspace_root open_file =
     (case open_file of
        None \<Rightarrow> (case workspace_root of Some root \<Rightarrow> Some root | None \<Rightarrow> rg_current_dir R)
      | Some fp \<Rightarrow>
          if (case workspace_root of Some root \<Rightarrow> path_starts_with fp root | None \<Rightarrow> False) then workspace_root
          else (case walk_to_git_root R fp of
                  Some g \<Rightarrow> Some g
                | None \<Rightarrow> (case path_parent fp of Some p \<Rightarrow> Some p | None \<Rightarrow> rg_current_dir R)))"

section \<open>Lines of output\<close>

text \<open>\<open>parse::<u32>()\<close>.\<close>

definition parse_u32 :: "str \<Rightarrow> nat option" where
  "parse_u32 s =
     (let digits = (if s \<noteq> [] \<and> hd s = ch CHR ''+'' then tl s else s);
          v = digits_value digits
      in if digits = [] \<or> \<not> list_all is_ascii_digit digits then None
         else if v < 2 ^ 32 then Some v else None)"

definition is_drive :: "str \<Rightarrow> bool" where
  "is_drive s =
     (case s of d # c # sep # _ \<Rightarrow>
        (is_ascii_upper d \<or> is_ascii_lower d) \<and> c = ch CHR '':'' \<and> sep \<in> {92, ch CHR ''/''}
      | _ \<Rightarrow> False)"

definition drive_prefix_len :: "str \<Rightarrow> nat" where
  "drive_prefix_len line =
     (if is_drive line then 2
      else if starts_with line [92, 92, ch CHR ''?'', 92] \<and> is_drive (drop 4 line) then 6
      else 0)"

text \<open>\<open>splitn(n, ':')\<close>, for a positive \<open>n\<close>.\<close>

fun splitn_colon :: "nat \<Rightarrow> str \<Rightarrow> str list" where
  "splitn_colon 0 s = []"
| "splitn_colon (Suc 0) s = [s]"
| "splitn_colon (Suc (Suc n)) s =
     (case split_once (ch CHR '':'') s of
        None \<Rightarrow> [s] | Some (a, b) \<Rightarrow> a # splitn_colon (Suc n) b)"

definition split_rg_fields :: "str \<Rightarrow> (str \<times> nat \<times> nat \<times> str) option" where
  "split_rg_fields line =
     (let scan_from = drive_prefix_len line
      in case splitn_colon 4 (drop scan_from line) of
           path_after # l # c # rest \<Rightarrow>
             (case (parse_u32 (trim l), parse_u32 (trim c)) of
                (Some line_num, Some col) \<Rightarrow>
                  Some (take (scan_from + length path_after) line, line_num, col,
                        case rest of [] \<Rightarrow> [] | content # _ \<Rightarrow> content)
              | _ \<Rightarrow> None)
         | _ \<Rightarrow> None)"

definition point_location :: "url \<Rightarrow> nat \<Rightarrow> nat \<Rightarrow> location" where
  "point_location uri line_num col =
     (let pos = Position (line_num - 1) (col - 1) in Location uri (Rng pos pos))"

definition parse_rg_line :: "externals \<Rightarrow> str \<Rightarrow> location option" where
  "parse_rg_line X line =
     Option.bind (split_rg_fields line) (\<lambda>(f, line_num, col, _).
       if \<not> path_is_absolute (path_of_str f) then None
       else map_option (\<lambda>uri. point_location uri line_num col) (x_url_from_file_path X (path_of_str f)))"

definition parse_rg_line_with_content_rooted ::
  "externals \<Rightarrow> rg_env \<Rightarrow> path \<Rightarrow> str \<Rightarrow> (location \<times> str) option" where
  "parse_rg_line_with_content_rooted X R root line =
     Option.bind (split_rg_fields line) (\<lambda>(f, line_num, col, content).
       let path = path_of_str f;
           joined = (if path_is_absolute path then path else path_join root path);
           abs_path = (if path_is_absolute joined then joined
                       else (case rg_canonicalize R joined of Some p \<Rightarrow> p | None \<Rightarrow> joined))
       in map_option (\<lambda>uri. (point_location uri line_num col, content)) (x_url_from_file_path X abs_path))"

section \<open>Searches\<close>

datatype rg_target = Root path | SourcePaths "str list" | Files "str list"

record rg_search =
  rs_parse_root :: path
  rs_target :: rg_target
  rs_patterns :: "str list"
  rs_word_regexp :: bool
  rs_list_files :: bool

definition rooted :: "path \<Rightarrow> rg_search" where
  "rooted root = \<lparr>rs_parse_root = root, rs_target = Root root, rs_patterns = [],
     rs_word_regexp = False, rs_list_files = False\<rparr>"

definition scoped :: "str list \<Rightarrow> path \<Rightarrow> rg_search" where
  "scoped source_paths fallback_root =
     (if source_paths = [] then rooted fallback_root
      else (rooted fallback_root)\<lparr>rs_target := SourcePaths source_paths\<rparr>)"

definition search_files :: "str list \<Rightarrow> rg_search" where
  "search_files file_names = (rooted [RootDir])\<lparr>rs_target := Files file_names\<rparr>"

definition with_patterns :: "str list \<Rightarrow> rg_search \<Rightarrow> rg_search" where
  "with_patterns ps s = s\<lparr>rs_patterns := rs_patterns s @ ps\<rparr>"

definition word_regexp :: "rg_search \<Rightarrow> rg_search" where
  "word_regexp s = s\<lparr>rs_word_regexp := True\<rparr>"

definition list_files :: "rg_search \<Rightarrow> rg_search" where
  "list_files s = s\<lparr>rs_list_files := True\<rparr>"

definition abs_source_path :: "path \<Rightarrow> str \<Rightarrow> path" where
  "abs_source_path root p =
     (if path_is_absolute (path_of_str p) then path_of_str p else path_join root (path_of_str p))"

text \<open>The directories a search covers: those of the source paths that exist, or the root if none does.\<close>

definition source_dirs :: "rg_env \<Rightarrow> path \<Rightarrow> str list \<Rightarrow> path list" where
  "source_dirs R root paths =
     (let added = filter (rg_is_dir R) (map (abs_source_path root) paths)
      in if added = [] then [root] else added)"

definition target_args :: "rg_env \<Rightarrow> rg_search \<Rightarrow> str list" where
  "target_args R s =
     (case rs_target s of
        Root root \<Rightarrow> [path_to_str root]
      | SourcePaths paths \<Rightarrow> map path_to_str (source_dirs R (rs_parse_root s) paths)
      | Files file_names \<Rightarrow> lit ''--'' # file_names)"

definition build_command :: "rg_env \<Rightarrow> rg_search \<Rightarrow> str list" where
  "build_command R s =
     (if rs_list_files s then [lit ''-l'']
      else [lit ''--no-heading'', lit ''--with-filename'', lit ''--line-number'', lit ''--column''])
     @ (if rs_word_regexp s then [lit ''--word-regexp''] else [])
     @ concat (map (\<lambda>ext. [lit ''--glob'', lit ''*.'' @ ext]) SOURCE_EXTENSIONS)
     @ concat (map (\<lambda>p. [lit ''-e'', p]) (rs_patterns s))
     @ target_args R s"

text \<open>An empty output counts as none.\<close>

definition rg_output :: "rg_env \<Rightarrow> rg_search \<Rightarrow> str option" where
  "rg_output R s =
     (case rg_run R (build_command R s) of Some stdout \<Rightarrow> if stdout = [] then None else Some stdout
      | None \<Rightarrow> None)"

definition locations_with_content :: "externals \<Rightarrow> rg_env \<Rightarrow> rg_search \<Rightarrow> (location \<times> str) list" where
  "locations_with_content X R s =
     (case rg_output R s of
        None \<Rightarrow> []
      | Some stdout \<Rightarrow>
          List.map_filter (parse_rg_line_with_content_rooted X R (rs_parse_root s)) (str_lines stdout))"

definition rg_locations :: "externals \<Rightarrow> rg_env \<Rightarrow> rg_search \<Rightarrow> location list" where
  "rg_locations X R s = map fst (locations_with_content X R s)"

definition absolute_line :: "path \<Rightarrow> str \<Rightarrow> str" where
  "absolute_line root line =
     (if path_is_absolute (path_of_str line) then line else path_to_str (path_join root (path_of_str line)))"

definition files_with_matches :: "rg_env \<Rightarrow> rg_search \<Rightarrow> str list" where
  "files_with_matches R s =
     (case rg_output R s of
        None \<Rightarrow> []
      | Some stdout \<Rightarrow>
          (case rs_target s of
             Root root \<Rightarrow> map (absolute_line root) (str_lines stdout)
           | Files _ \<Rightarrow> []
           | SourcePaths _ \<Rightarrow> map (absolute_line (rs_parse_root s)) (str_lines stdout)))"

text \<open>The root given, or the current directory (the empty path if there is none).\<close>

definition root_or_cwd :: "rg_env \<Rightarrow> path option \<Rightarrow> path" where
  "root_or_cwd R root =
     (case root of Some r \<Rightarrow> r | None \<Rightarrow> (case rg_current_dir R of Some d \<Rightarrow> d | None \<Rightarrow> []))"

definition matcher_filter :: "externals \<Rightarrow> scan_fs \<Rightarrow> ignore_matcher option \<Rightarrow> location list \<Rightarrow> location list" where
  "matcher_filter X F matcher locs = (case matcher of Some m \<Rightarrow> filter_locs X F m locs | None \<Rightarrow> locs)"

definition rg_find_definition ::
  "ucd \<Rightarrow> externals \<Rightarrow> scan_fs \<Rightarrow> rg_env \<Rightarrow> str \<Rightarrow> path option \<Rightarrow> str list \<Rightarrow> ignore_matcher option
     \<Rightarrow> location list" where
  "rg_find_definition U X F R name root source_paths matcher =
     matcher_filter X F matcher
       (rg_locations X R
         (with_patterns [build_rg_pattern U name] (scoped source_paths (root_or_cwd R root))))"

definition rg_in_package_dir ::
  "ucd \<Rightarrow> externals \<Rightarrow> scan_fs \<Rightarrow> rg_env \<Rightarrow> str \<Rightarrow> str \<Rightarrow> path option \<Rightarrow> ignore_matcher option
     \<Rightarrow> location list" where
  "rg_in_package_dir U X F R name package root matcher =
     (let pkg_path = map (\<lambda>c. if c = ch CHR ''.'' then ch CHR ''/'' else c) package
      in case rg_run R ([lit ''--no-heading'', lit ''--with-filename'', lit ''--line-number'', lit ''--column'']
                @ concat (map (\<lambda>ext. [lit ''--glob'', lit ''**/'' @ pkg_path @ lit ''/*.'' @ ext]) SOURCE_EXTENSIONS)
                @ [lit ''-e'', build_rg_pattern U name, path_to_str (root_or_cwd R root)]) of
           None \<Rightarrow> []
         | Some stdout \<Rightarrow>
             matcher_filter X F matcher (List.map_filter (parse_rg_line X) (str_lines stdout)))"

definition rg_word_search :: "ucd \<Rightarrow> externals \<Rightarrow> rg_env \<Rightarrow> str \<Rightarrow> path \<Rightarrow> str list \<Rightarrow> location list" where
  "rg_word_search U X R name root source_paths =
     rg_locations X R (with_patterns [regex_escape U name] (word_regexp (scoped source_paths root)))"

section \<open>Reading a line back\<close>

text \<open>A line as ripgrep prints it.\<close>

definition rg_line :: "str \<Rightarrow> nat \<Rightarrow> nat \<Rightarrow> str \<Rightarrow> str" where
  "rg_line f l c content = f @ lit '':'' @ decimal l @ lit '':'' @ decimal c @ lit '':'' @ content"

lemma decimal_digits: "list_all is_ascii_digit (decimal n) \<and> decimal n \<noteq> []"
proof (induction n rule: decimal.induct)
  case (1 n)
  have "is_ascii_digit (48 + n mod 10)" "n < 10 \<Longrightarrow> is_ascii_digit (48 + n)"
    using mod_less_divisor [of 10 n] by (simp_all add: is_ascii_digit_def)
  with 1 show ?case by (subst (1 2) decimal.simps) simp
qed

lemma list_all_digit_plain:
  "list_all is_ascii_digit s \<Longrightarrow> c \<in> set s \<Longrightarrow> c \<noteq> 58 \<and> \<not> is_whitespace c \<and> c \<noteq> 43 \<and> c \<noteq> 47 \<and> c \<noteq> 92"
  by (auto simp: list_all_iff is_ascii_digit_def is_whitespace_def)

lemma dropWhile_none: "\<forall>c \<in> set s. \<not> p c \<Longrightarrow> dropWhile p s = s"
  by (cases s) auto

lemma trim_plain: "\<forall>c \<in> set s. \<not> is_whitespace c \<Longrightarrow> trim s = s"
  by (simp add: trim_def trim_start_def trim_end_def trim_end_matches_def dropWhile_none)

lemma trim_decimal [simp]: "trim (decimal n) = decimal n"
  using decimal_digits [of n] list_all_digit_plain by (intro trim_plain) blast

lemma parse_u32_decimal: "n < 2 ^ 32 \<Longrightarrow> parse_u32 (decimal n) = Some n"
proof -
  assume n: "n < 2 ^ 32"
  have "hd (decimal n) \<in> set (decimal n)" using decimal_digits by simp
  then have "hd (decimal n) \<noteq> ch CHR ''+''" using decimal_digits list_all_digit_plain by fastforce
  then show ?thesis using n decimal_digits by (simp add: parse_u32_def Let_def)
qed

lemma find_char_append: "\<forall>c \<in> set s. \<not> p c \<Longrightarrow> p d \<Longrightarrow> find_char p (s @ d # t) = Some (length s)"
  by (induction s) auto

lemma split_once_append: "d \<notin> set s \<Longrightarrow> split_once d (s @ d # t) = Some (s, t)"
  unfolding split_once_def by (subst find_char_append) auto

lemma splitn_colon_line:
  "58 \<notin> set f \<Longrightarrow> splitn_colon 4 (f @ 58 # decimal l @ 58 # decimal c @ 58 # content)
     = [f, decimal l, decimal c, content]"
proof -
  assume f: "58 \<notin> set f"
  have "58 \<notin> set (decimal n)" for n using decimal_digits list_all_digit_plain by blast
  with f show ?thesis by (simp add: numeral_eq_Suc split_once_append)
qed

lemma is_drive_line:
  assumes "list_all is_ascii_digit w" "w \<noteq> []"
  shows "is_drive (f @ 58 # w @ t) = is_drive f"
proof -
  obtain d w' where w: "w = d # w'" "is_ascii_digit d" using assms by (cases w) auto
  consider "f = []" | a where "f = [a]" | a b where "f = [a, b]" | a b c g where "f = a # b # c # g"
    by (cases f rule: list.exhaust; metis list.exhaust)
  then show ?thesis
    by cases (use w in \<open>auto simp: is_drive_def is_ascii_digit_def is_ascii_upper_def is_ascii_lower_def split: list.splits\<close>)
qed

lemma starts_with_extend:
  "d \<notin> set p \<Longrightarrow> starts_with (f @ d # t) p = starts_with f p"
proof (induction p arbitrary: f)
  case Nil
  show ?case by (simp add: starts_with_def)
next
  case (Cons a p)
  then show ?case by (cases f) (auto simp: starts_with_def)
qed

lemma drive_prefix_len_line:
  assumes w: "list_all is_ascii_digit w" "w \<noteq> []"
  shows "drive_prefix_len (f @ 58 # w @ t) = drive_prefix_len f"
proof -
  have "starts_with f [92, 92, ch CHR ''?'', 92] \<Longrightarrow> drop 4 (f @ 58 # w @ t) = drop 4 f @ 58 # w @ t"
    by (auto simp: starts_with_iff)
  then show ?thesis
    by (auto simp: drive_prefix_len_def is_drive_line [OF w] starts_with_extend)
qed

lemma drive_prefix_len_le: "drive_prefix_len f \<le> length f"
  by (auto simp: drive_prefix_len_def is_drive_def starts_with_iff split: list.splits)

text \<open>A printed line is read back as what it was printed from.\<close>

lemma split_rg_fields_line:
  assumes f: "ch CHR '':'' \<notin> set (drop (drive_prefix_len f) f)" and "l < 2 ^ 32" "c < 2 ^ 32"
  shows "split_rg_fields (rg_line f l c content) = Some (f, l, c, content)"
proof -
  let ?rest = "decimal l @ 58 # decimal c @ 58 # content"
  have line: "rg_line f l c content = f @ 58 # ?rest" by (simp add: rg_line_def)
  have n: "drive_prefix_len (f @ 58 # ?rest) = drive_prefix_len f"
    using drive_prefix_len_line [of "decimal l"] decimal_digits by blast
  have "splitn_colon 4 (drop (drive_prefix_len f) (f @ 58 # ?rest))
      = [drop (drive_prefix_len f) f, decimal l, decimal c, content]"
    using f drive_prefix_len_le [of f] splitn_colon_line [of "drop (drive_prefix_len f) f"] by simp
  with assms show ?thesis
    using drive_prefix_len_le [of f]
    by (simp add: split_rg_fields_def line n Let_def parse_u32_decimal)
qed

end
