(* ===== verification/Resolve_Scope.thy ===== *)
theory Resolve_Scope
  imports Find_Name Jar_Manifest Discover Rg_Search
begin

text \<open>
  The scopes a bare name is looked up in: packages and imports
  (\<^verbatim>\<open>src/resolver/fd.rs\<close>, \<^verbatim>\<open>package.rs\<close>, \<^verbatim>\<open>imports.rs\<close>,
  \<^verbatim>\<open>package_scope.rs\<close>), the same file, and the platform equivalents of built-in types
  (\<^verbatim>\<open>platform_types.rs\<close>).

  A look-up may materialize JARs whose symbols are cached, so it passes on the state of the JAR
  pipeline; \<open>None\<close> is a panic, as there.
\<close>

section \<open>The environment\<close>

text \<open>\<open>fd\<close>, the ignore patterns and the disk are those of a scan.\<close>

record resolve_env = file_env +
  rv_jar :: jar_env
  rv_fs :: scan_fs
  rv_rg :: rg_env
  rv_sdk_source_roots :: "path \<Rightarrow> path list"

type_synonym jar_state = "indexer \<times> jar_disk"

type_synonym 'r resolved = "(jar_state \<times> 'r) option"

text \<open>\<open>ensure_jar_definitions_for(indexer, name, &mut 0)\<close>.\<close>

definition promote_cached :: "resolve_env \<Rightarrow> str \<Rightarrow> jar_state \<Rightarrow> jar_state option" where
  "promote_cached V name s =
     map_option fst (ensure_jar_definitions_for (rv_jar V) (fe_ext V) name (s, 0))"

text \<open>The first alternative that finds a location, each seeing the state the one before left.\<close>

fun first_nonempty :: "('a \<Rightarrow> jar_state \<Rightarrow> location list resolved) \<Rightarrow> 'a list \<Rightarrow> jar_state
    \<Rightarrow> location list resolved" where
  "first_nonempty f [] s = Some (s, [])"
| "first_nonempty f (x # xs) s =
     Option.bind (f x s) (\<lambda>(s1, locs). if locs \<noteq> [] then Some (s1, locs) else first_nonempty f xs s1)"

section \<open>Import paths\<close>

definition dot_segments :: "str \<Rightarrow> str list" where
  "dot_segments p = split_on (ch CHR ''.'') p"

definition package_prefix :: "ucd \<Rightarrow> str \<Rightarrow> str" where
  "package_prefix U import_path =
     join (lit ''.'') (takeWhile (starts_with_lowercase U) (dot_segments import_path))"

definition rsplit_once_dot :: "str \<Rightarrow> (str \<times> str) option" where
  "rsplit_once_dot s = map_option (\<lambda>i. (take i s, drop (Suc i) s)) (rfind_char (\<lambda>c. c = ch CHR ''.'') s)"

definition import_package_prefix :: "ucd \<Rightarrow> str \<Rightarrow> str" where
  "import_package_prefix U import_path =
     package_prefix U (case rsplit_once_dot import_path of Some (pkg, _) \<Rightarrow> pkg | None \<Rightarrow> import_path)"

definition import_file_stems :: "ucd \<Rightarrow> str \<Rightarrow> str list" where
  "import_file_stems U import_path =
     (let upper = filter (starts_with_uppercase U) (dot_segments import_path)
      in drop (length upper - 2) upper)"

definition import_container_chain :: "ucd \<Rightarrow> str \<Rightarrow> str \<Rightarrow> str list" where
  "import_container_chain U full_path symbol =
     (let segments = dot_segments full_path;
          kept = (if last segments = symbol then butlast segments else segments)
      in filter (starts_with_uppercase U) kept)"

definition dots_to_slashes :: "str \<Rightarrow> str" where
  "dots_to_slashes = map (\<lambda>c. if c = ch CHR ''.'' then ch CHR ''/'' else c)"

section \<open>The package of a location\<close>

definition jar_symbol_package :: "indexer \<Rightarrow> location \<Rightarrow> str option" where
  "jar_symbol_package ix loc =
     Option.bind (Mapping.lookup (ix_jar_symbol_packages ix) (loc_uri loc)) (\<lambda>packages.
       let i = pos_line (r_start (loc_range loc))
       in if i < length packages \<and> packages ! i \<noteq> [] then Some (packages ! i) else None)"

definition file_package :: "(str, file_data) hmap \<Rightarrow> location \<Rightarrow> str option" where
  "file_package files loc = Option.bind (Mapping.lookup files (loc_uri loc)) fd_package"

definition location_package :: "indexer \<Rightarrow> location \<Rightarrow> str option" where
  "location_package ix loc =
     (case jar_symbol_package ix loc of
        Some p \<Rightarrow> Some p
      | None \<Rightarrow> (case file_package (ix_files ix) loc of
                   Some p \<Rightarrow> Some p
                 | None \<Rightarrow> file_package (ix_jar_files ix) loc))"

section \<open>Default imports\<close>

definition KOTLIN_DEFAULT_IMPORT_PACKAGES :: "str list" where
  "KOTLIN_DEFAULT_IMPORT_PACKAGES =
     [lit ''kotlin'', lit ''kotlin.annotation'', lit ''kotlin.collections'', lit ''kotlin.comparisons'',
      lit ''kotlin.io'', lit ''kotlin.ranges'', lit ''kotlin.sequences'', lit ''kotlin.text'',
      lit ''kotlin.jvm'', lit ''java.lang'']"

definition is_default_import_package :: "str \<Rightarrow> bool" where
  "is_default_import_package pkg \<longleftrightarrow> pkg \<in> set KOTLIN_DEFAULT_IMPORT_PACKAGES"

definition is_default_import_type :: "str \<Rightarrow> bool" where
  "is_default_import_type name \<longleftrightarrow> name \<in> set (map lit
     [''Number'', ''Byte'', ''Short'', ''Int'', ''Long'', ''Float'', ''Double'', ''Char'',
      ''Boolean'', ''String'', ''CharSequence'', ''Any'', ''Unit'', ''Nothing'',
      ''Comparable'', ''Enum'', ''Annotation'', ''Function'', ''Lazy'', ''Result'',
      ''Pair'', ''Triple'', ''Throwable'', ''Exception'', ''Error'', ''RuntimeException'',
      ''Array'', ''Iterable'', ''Iterator'', ''Collection'', ''List'', ''Set'', ''Map'',
      ''MutableIterable'', ''MutableCollection'', ''MutableList'', ''MutableSet'',
      ''MutableMap'', ''ArrayList'', ''HashMap'', ''HashSet'', ''LinkedHashMap'', ''LinkedHashSet'',
      ''ByteArray'', ''CharArray'', ''ShortArray'', ''IntArray'', ''LongArray'',
      ''FloatArray'', ''DoubleArray'', ''BooleanArray'', ''Sequence''])"

definition definition_locations :: "indexer \<Rightarrow> str \<Rightarrow> location list" where
  "definition_locations ix name =
     List.map_filter (ft_location (ix_file_table ix)) (postings (ix_definitions ix) name)"

definition in_default_package :: "str option \<Rightarrow> bool" where
  "in_default_package p = (case p of None \<Rightarrow> False | Some pkg \<Rightarrow> is_default_import_package pkg)"

definition resolvable_via_default_import :: "resolve_env \<Rightarrow> str \<Rightarrow> jar_state \<Rightarrow> bool resolved" where
  "resolvable_via_default_import V name s =
     (if is_default_import_type name then Some (s, True)
      else map_option (\<lambda>s1. let ix = fst s1 in
             (s1, list_ex (\<lambda>l. in_default_package (jar_symbol_package ix l)
                            \<or> in_default_package (file_package (ix_jar_files ix) l))
                    (postings (ix_jar_definitions ix) name)
                  \<or> list_ex (\<lambda>l. in_default_package (file_package (ix_files ix) l))
                      (definition_locations ix name)))
             (promote_cached V name s))"

definition has_explicit_import :: "indexer \<Rightarrow> str \<Rightarrow> url \<Rightarrow> bool" where
  "has_explicit_import ix name from_uri =
     (case Mapping.lookup (ix_files ix) from_uri of
        None \<Rightarrow> False
      | Some d \<Rightarrow> list_ex (\<lambda>i. \<not> ie_is_star i \<and> ie_local_name i = name) (fd_imports d))"

definition is_stdlib :: "str \<Rightarrow> bool" where
  "is_stdlib pkg \<longleftrightarrow> starts_with pkg (lit ''com.sun'')
     \<or> hd (dot_segments pkg) \<in> set (map lit
         [''kotlin'', ''java'', ''javax'', ''android'', ''androidx'', ''sun'',
          ''Foundation'', ''UIKit'', ''SwiftUI'', ''Combine'', ''CoreData'',
          ''CoreGraphics'', ''CoreLocation'', ''MapKit'', ''AVFoundation'',
          ''WebKit'', ''StoreKit'', ''GameKit'', ''ARKit'', ''RealityKit'',
          ''Swift'', ''ObjectiveC'', ''Darwin'', ''Dispatch'', ''os''])"

section \<open>Packages\<close>

text \<open>The files of a package that are known, in the order they were registered.\<close>

definition package_files :: "indexer \<Rightarrow> str \<Rightarrow> (url \<times> file_data) list" where
  "package_files ix pkg =
     List.map_filter (\<lambda>fid. Option.bind (ft_url (ix_file_table ix) fid) (\<lambda>u.
         map_option (Pair u) (Mapping.lookup (ix_files ix) u)))
       (postings (ix_packages ix) pkg)"

definition find_in_files :: "str \<Rightarrow> (url \<times> file_data) list \<Rightarrow> location option" where
  "find_in_files name files =
     first_of (List.map_filter (\<lambda>(u, d).
       map_option (symbol_location u) (find (\<lambda>s. se_name s = name) (fd_symbols d))) files)"

definition find_symbol_in_package ::
  "resolve_env \<Rightarrow> str \<Rightarrow> str \<Rightarrow> jar_state \<Rightarrow> location option resolved" where
  "find_symbol_in_package V name pkg s =
     (case find_in_files name (package_files (fst s) pkg) of
        Some loc \<Rightarrow> Some (s, Some loc)
      | None \<Rightarrow>
          map_option (\<lambda>s1. let ix = fst s1 in
             (s1, find (\<lambda>l. (case jar_symbol_package ix l of
                               Some p \<Rightarrow> Some p
                             | None \<Rightarrow> file_package (ix_jar_files ix) l) = Some pkg)
                    (postings (ix_jar_definitions ix) name)))
            (promote_cached V name s))"

definition resolve_same_package :: "resolve_env \<Rightarrow> str \<Rightarrow> url \<Rightarrow> jar_state \<Rightarrow> location list resolved" where
  "resolve_same_package V name uri s =
     (case Option.bind (Mapping.lookup (ix_files (fst s)) uri) fd_package of
        None \<Rightarrow> Some (s, [])
      | Some pkg \<Rightarrow>
          if Mapping.lookup (ix_packages (fst s)) pkg = None then Some (s, [])
          else (case find_in_files name (filter (\<lambda>(u, _). u \<noteq> uri) (package_files (fst s) pkg)) of
                  Some loc \<Rightarrow> Some (s, [loc])
                | None \<Rightarrow>
                    map_option (\<lambda>s1.
                       (s1, case find (\<lambda>l. location_package (fst s1) l = Some pkg)
                                   (postings (ix_jar_definitions (fst s1)) name) of
                              Some l \<Rightarrow> [l] | None \<Rightarrow> []))
                      (promote_cached V name s)))"

definition star_import_packages :: "indexer \<Rightarrow> url \<Rightarrow> str list" where
  "star_import_packages ix uri =
     (case Mapping.lookup (ix_files ix) uri of
        None \<Rightarrow> []
      | Some d \<Rightarrow> map ie_full_path (filter (\<lambda>i. ie_is_star i \<and> \<not> is_stdlib (ie_full_path i)) (fd_imports d)))"

definition option_locations :: "location option resolved \<Rightarrow> location list resolved" where
  "option_locations r = map_option (\<lambda>(s, l). (s, case l of Some x \<Rightarrow> [x] | None \<Rightarrow> [])) r"

definition find_in_star_imports :: "resolve_env \<Rightarrow> str \<Rightarrow> str list \<Rightarrow> jar_state \<Rightarrow> location list resolved" where
  "find_in_star_imports V name star_pkgs =
     first_nonempty (\<lambda>pkg s. option_locations (find_symbol_in_package V name pkg s)) star_pkgs"

section \<open>Searching with fd\<close>

definition nonempty_lines :: "str \<Rightarrow> str list" where
  "nonempty_lines stdout = filter (\<lambda>l. l \<noteq> []) (map trim (str_lines stdout))"

text \<open>The hits of one path: its location and its package.\<close>

definition fd_hit :: "resolve_env \<Rightarrow> str \<Rightarrow> str \<Rightarrow> (location \<times> str option) option" where
  "fd_hit V symbol_name path_str =
     (case (x_url_from_file_path (fe_ext V) (path_of_str path_str), fe_read V (path_of_str path_str)) of
        (Some uri, Some content) \<Rightarrow>
          let d = parse_by_extension (fe_ext V) path_str content
          in map_option (\<lambda>s. (symbol_location uri s, fd_package d))
               (find (\<lambda>s. se_name s = symbol_name) (fd_symbols d))
      | _ \<Rightarrow> None)"

definition parse_fd_hits :: "resolve_env \<Rightarrow> str \<Rightarrow> str \<Rightarrow> str option \<Rightarrow> location list" where
  "parse_fd_hits V stdout symbol_name expected_pkg =
     (let hits = List.map_filter (fd_hit V symbol_name) (nonempty_lines stdout)
      in case expected_pkg of
           None \<Rightarrow> (case hits of [] \<Rightarrow> [] | (loc, _) # _ \<Rightarrow> [loc])
         | Some pkg \<Rightarrow>
             (case find (\<lambda>(_, p). p = Some pkg) hits of
                Some (loc, _) \<Rightarrow> [loc]
              | None \<Rightarrow> (case hits of [] \<Rightarrow> [] | (loc, _) # _ \<Rightarrow> [loc])))"

definition fd_search_by_full_path_pattern ::
  "resolve_env \<Rightarrow> str \<Rightarrow> str \<Rightarrow> str option \<Rightarrow> path \<Rightarrow> location list" where
  "fd_search_by_full_path_pattern V pattern symbol_name expected_pkg root =
     (case sf_run_fd (rv_fs V) [lit ''--type'', lit ''f'', lit ''--absolute-path'', lit ''--full-path'',
               pattern, path_to_str root] of
        None \<Rightarrow> [] | Some stdout \<Rightarrow> parse_fd_hits V stdout symbol_name expected_pkg)"

definition fd_search_file ::
  "resolve_env \<Rightarrow> str \<Rightarrow> str \<Rightarrow> str option \<Rightarrow> path option \<Rightarrow> location list" where
  "fd_search_file V file_name symbol_name expected_pkg root =
     (case sf_run_fd (rv_fs V) ([lit ''--type'', lit ''f'', lit ''--absolute-path'', lit ''--max-results'',
               lit ''10'', file_name] @ (case root of None \<Rightarrow> [] | Some r \<Rightarrow> [path_to_str r])) of
        None \<Rightarrow> [] | Some stdout \<Rightarrow> parse_fd_hits V stdout symbol_name expected_pkg)"

definition not_ignored :: "resolve_env \<Rightarrow> ignore_matcher option \<Rightarrow> location list \<Rightarrow> location list" where
  "not_ignored V matcher locs =
     (case matcher of None \<Rightarrow> locs | Some m \<Rightarrow> filter_locs (fe_ext V) (rv_fs V) m locs)"

definition full_path_pattern :: "str \<Rightarrow> str \<Rightarrow> str" where
  "full_path_pattern pkg_dir stem =
     (if pkg_dir = [] then [] else lit ''.*/'' @ pkg_dir @ lit ''/'')
     @ stem @ [92] @ lit ''.('' @ join (lit ''|'') SOURCE_EXTENSIONS @ lit '')$''"

definition fd_find_stem ::
  "resolve_env \<Rightarrow> str \<Rightarrow> str \<Rightarrow> path option \<Rightarrow> ignore_matcher option \<Rightarrow> str \<Rightarrow> location list list" where
  "fd_find_stem V symbol_name pkg root matcher stem =
     (let expected_pkg = (if pkg = [] then None else Some pkg)
      in (case root of
            None \<Rightarrow> []
          | Some r \<Rightarrow> [not_ignored V matcher (fd_search_by_full_path_pattern V
                          (full_path_pattern (dots_to_slashes pkg) stem) symbol_name expected_pkg r)])
         @ map (\<lambda>ext. not_ignored V matcher
                  (fd_search_file V (stem @ lit ''.'' @ ext) symbol_name expected_pkg root)) SOURCE_EXTENSIONS)"

definition fd_find_and_parse ::
  "resolve_env \<Rightarrow> str \<Rightarrow> str \<Rightarrow> path option \<Rightarrow> ignore_matcher option \<Rightarrow> location list" where
  "fd_find_and_parse V symbol_name full_import_path root matcher =
     (let pkg = package_prefix (fe_ucd V) full_import_path
      in case find (\<lambda>locs. locs \<noteq> [])
                (concat (map (fd_find_stem V symbol_name pkg root matcher)
                  (import_file_stems (fe_ucd V) full_import_path))) of
           Some locs \<Rightarrow> locs | None \<Rightarrow> [])"

definition rg_scope_for_path ::
  "resolve_env \<Rightarrow> indexer \<Rightarrow> path option \<Rightarrow> path option \<times> str list \<times> ignore_matcher option" where
  "rg_scope_for_path V ix open_file =
     (let effective_root = effective_rg_root (rv_rg V) (ws_path (ix_workspace_root ix)) open_file
      in (effective_root, scoped_source_roots ix effective_root, ix_ignore_matcher ix))"

definition package_dir_in_source_roots ::
  "resolve_env \<Rightarrow> str \<Rightarrow> path option \<Rightarrow> str list \<Rightarrow> bool" where
  "package_dir_in_source_roots V import_path root source_roots =
     (let pkg = import_package_prefix (fe_ucd V) import_path;
          pkg_dir = path_of_str (dots_to_slashes pkg)
      in if pkg = [] then True
         else if source_roots \<noteq> [] then list_ex (\<lambda>r. rg_is_dir (rv_rg V) (path_join (path_of_str r) pkg_dir)) source_roots
         else (case root of Some r \<Rightarrow> rg_is_dir (rv_rg V) (path_join r pkg_dir) | None \<Rightarrow> True))"

definition import_package_absent_from_source_roots ::
  "resolve_env \<Rightarrow> indexer \<Rightarrow> str \<Rightarrow> url \<Rightarrow> path option \<Rightarrow> str list \<Rightarrow> bool" where
  "import_package_absent_from_source_roots V ix name uri root source_roots =
     (case Option.bind (Mapping.lookup (ix_files ix) uri)
             (\<lambda>d. find (\<lambda>i. \<not> ie_is_star i \<and> ie_local_name i = name) (fd_imports d)) of
        None \<Rightarrow> False
      | Some imp \<Rightarrow> \<not> package_dir_in_source_roots V (ie_full_path imp) root source_roots)"

text \<open>Star imports that may search the directory of the package with ripgrep.\<close>

definition resolve_star_import :: "resolve_env \<Rightarrow> str \<Rightarrow> str \<Rightarrow> jar_state \<Rightarrow> location list resolved" where
  "resolve_star_import V name pkg s =
     map_option (\<lambda>(s1, locs).
         let (root, _, matcher) = rg_scope_for_path V (fst s1) None
         in (s1, if locs \<noteq> [] then locs
                 else rg_in_package_dir (fe_ucd V) (fe_ext V) (rv_fs V) (rv_rg V) name pkg root matcher))
       (option_locations (find_symbol_in_package V name pkg s))"

definition resolve_star_imports :: "resolve_env \<Rightarrow> str \<Rightarrow> url \<Rightarrow> jar_state \<Rightarrow> location list resolved" where
  "resolve_star_imports V name uri s =
     first_nonempty (resolve_star_import V name) (star_import_packages (fst s) uri) s"

section \<open>Explicit imports\<close>

definition package_within :: "str \<Rightarrow> str \<Rightarrow> bool" where
  "package_within expected p \<longleftrightarrow> p = expected \<or> starts_with p (expected @ lit ''.'')"

definition in_expected_package :: "indexer \<Rightarrow> str \<Rightarrow> location \<Rightarrow> bool" where
  "in_expected_package ix expected loc =
     (case jar_symbol_package ix loc of
        Some p \<Rightarrow> package_within expected p
      | None \<Rightarrow> (case file_package (ix_files ix) loc of
                   Some p \<Rightarrow> package_within expected p | None \<Rightarrow> True))"

text \<open>Sub-step ii: the candidates of the short name that fit the path of the import.\<close>

definition import_candidates :: "ucd \<Rightarrow> indexer \<Rightarrow> import_entry \<Rightarrow> location list" where
  "import_candidates U ix imp =
     (let short = last_segment (ie_full_path imp);
          chain = import_container_chain U (ie_full_path imp) short;
          filtered = filter (in_expected_package ix (import_package_prefix U (ie_full_path imp)))
                       (definition_locations ix short @ postings (ix_jar_definitions ix) short);
          chain_matches = filter (\<lambda>l. enclosing_container_chain ix l = chain) filtered
      in if chain \<noteq> [] \<and> chain_matches \<noteq> [] then chain_matches else filtered)"

definition resolve_import :: "resolve_env \<Rightarrow> str \<Rightarrow> bool \<Rightarrow> import_entry \<Rightarrow> jar_state \<Rightarrow> location list resolved" where
  "resolve_import V name allow_fd imp s =
     (case Option.bind (Mapping.lookup (ix_qualified (fst s)) (ie_full_path imp))
             (ft_location (ix_file_table (fst s))) of
        Some loc \<Rightarrow> Some (s, [loc])
      | None \<Rightarrow>
          map_option (\<lambda>s1.
             let candidates = import_candidates (fe_ucd V) (fst s1) imp;
                 (root, source_roots, matcher) = rg_scope_for_path V (fst s1) None
             in (s1, if candidates \<noteq> [] then candidates
                     else if allow_fd \<and> package_dir_in_source_roots V (ie_full_path imp) root source_roots
                     then fd_find_and_parse V name (ie_full_path imp) root matcher
                     else []))
            (promote_cached V (last_segment (ie_full_path imp)) s))"

definition resolve_via_imports ::
  "resolve_env \<Rightarrow> str \<Rightarrow> url \<Rightarrow> bool \<Rightarrow> jar_state \<Rightarrow> location list resolved" where
  "resolve_via_imports V name uri allow_fd s =
     (case Mapping.lookup (ix_files (fst s)) uri of
        None \<Rightarrow> Some (s, [])
      | Some d \<Rightarrow>
          first_nonempty (resolve_import V name allow_fd)
            (filter (\<lambda>i. \<not> ie_is_star i \<and> ie_local_name i = name) (fd_imports d)) s)"

section \<open>Definitions by name\<close>

definition lookup_definitions :: "resolve_env \<Rightarrow> str \<Rightarrow> jar_state \<Rightarrow> location list resolved" where
  "lookup_definitions V name s =
     map_option (\<lambda>s1. (s1, definition_locations (fst s) name @ postings (ix_jar_definitions (fst s1)) name))
       (promote_cached V name s)"

section \<open>Platform types\<close>

definition KOTLIN_BUILTIN_TYPE_PLATFORM_EQUIVALENTS :: "(str \<times> str) list" where
  "KOTLIN_BUILTIN_TYPE_PLATFORM_EQUIVALENTS = map (\<lambda>(a, b). (lit a, lit b))
     [(''String'', ''java.lang.String''), (''CharSequence'', ''java.lang.CharSequence''),
      (''List'', ''java.util.List''), (''MutableList'', ''java.util.List''),
      (''Set'', ''java.util.Set''), (''MutableSet'', ''java.util.Set''),
      (''Map'', ''java.util.Map''), (''MutableMap'', ''java.util.Map''),
      (''Collection'', ''java.util.Collection''), (''MutableCollection'', ''java.util.Collection''),
      (''Iterable'', ''java.lang.Iterable''), (''MutableIterable'', ''java.lang.Iterable''),
      (''Iterator'', ''java.util.Iterator''), (''MutableIterator'', ''java.util.Iterator''),
      (''Int'', ''java.lang.Integer''), (''Long'', ''java.lang.Long''),
      (''Double'', ''java.lang.Double''), (''Float'', ''java.lang.Float''),
      (''Boolean'', ''java.lang.Boolean''), (''Byte'', ''java.lang.Byte''),
      (''Short'', ''java.lang.Short''), (''Char'', ''java.lang.Character'')]"

definition resolve_in_sdk_root ::
  "resolve_env \<Rightarrow> str \<Rightarrow> path \<Rightarrow> jar_state \<Rightarrow> location list resolved" where
  "resolve_in_sdk_root V platform_fqn sdk_source_root = (\<lambda>(ix, D).
     let file_path = path_join sdk_source_root (path_of_str (dots_to_slashes platform_fqn @ lit ''.java''))
     in case x_url_from_file_path (fe_ext V) file_path of
          None \<Rightarrow> Some ((ix, D), [])
        | Some uri \<Rightarrow>
            map_option (\<lambda>ix1. case ix1 of
                None \<Rightarrow> ((ix, D), [])
              | Some ix' \<Rightarrow> ((ix', D), find_name_in_uri V ix' (last_part (ch CHR ''.'') platform_fqn) uri))
              (if Mapping.lookup (ix_files ix) uri \<noteq> None then Some (Some ix)
               else (case fe_read V file_path of
                       None \<Rightarrow> Some None
                     | Some content \<Rightarrow> map_option (\<lambda>r. Some (fst r)) (index_content (fe_ext V) uri content ix))))"

definition resolve_kotlin_builtin_type_platform_equivalent ::
  "resolve_env \<Rightarrow> str \<Rightarrow> jar_state \<Rightarrow> location list resolved" where
  "resolve_kotlin_builtin_type_platform_equivalent V name s =
     (case (map_of KOTLIN_BUILTIN_TYPE_PLATFORM_EQUIVALENTS name, ws_path (ix_workspace_root (fst s))) of
        (Some platform_fqn, Some workspace_root) \<Rightarrow>
          first_nonempty (resolve_in_sdk_root V platform_fqn) (rv_sdk_source_roots V workspace_root) s
      | _ \<Rightarrow> Some (s, []))"

section \<open>The same file\<close>

record call_shape =
  cs_arg_count :: nat
  cs_trailing_lambda :: bool

definition accepts :: "call_shape \<Rightarrow> 8 word \<Rightarrow> 8 word \<Rightarrow> bool" where
  "accepts c required all_params \<longleftrightarrow>
     (let call_arg_count = cs_arg_count c + (if cs_trailing_lambda c then 1 else 0)
      in unat required \<le> call_arg_count \<and> call_arg_count \<le> unat all_params)"

definition accepts_symbol :: "call_shape \<Rightarrow> symbol_entry \<Rightarrow> bool" where
  "accepts_symbol c s =
     (case arity_for_call_shape_check s of Some (required, all_params) \<Rightarrow> accepts c required all_params | None \<Rightarrow> True)"

definition resolve_local :: "indexer \<Rightarrow> str \<Rightarrow> url \<Rightarrow> call_shape option \<Rightarrow> location list" where
  "resolve_local ix name uri shape =
     (case Mapping.lookup (ix_files ix) uri of
        None \<Rightarrow> []
      | Some d \<Rightarrow>
          map (symbol_location uri)
            (filter (\<lambda>s. se_name s = name \<and> (case shape of None \<Rightarrow> True | Some c \<Rightarrow> accepts_symbol c s))
              (fd_symbols d)))"

end
