(* ===== verification/Tie_Break.thy ===== *)
theory Tie_Break
  imports Resolve_Scope Scan
begin

text \<open>
  Narrowing several definitions of one name down to one: \<^verbatim>\<open>src/resolver/tie_break.rs\<close>, with
  \<open>parse_jar_meta\<close> of \<^verbatim>\<open>src/gradle_cache.rs\<close>.
\<close>

section \<open>Gradle coordinates\<close>

definition is_separator :: "rchar \<Rightarrow> bool" where
  "is_separator c \<longleftrightarrow> c \<in> {ch CHR ''/'', 92}"

text \<open>The first three of the at most five parts of \<open>splitn\<close>.\<close>

fun split_separators :: "str \<Rightarrow> str \<Rightarrow> str list" where
  "split_separators part [] = [part]"
| "split_separators part (c # s) =
     (if is_separator c then part # split_separators [] s else split_separators (part @ [c]) s)"

definition parse_jar_meta :: "str \<Rightarrow> gradle_meta option" where
  "parse_jar_meta jar =
     Option.bind (find_sub jar (lit ''files-2.1'')) (\<lambda>i.
       let rest = dropWhile is_separator (drop (i + length (lit ''files-2.1'')) jar)
       in case split_separators [] rest of
            g # a # v # _ \<Rightarrow> Some \<lparr>gm_group = g, gm_artifact = a, gm_version = v\<rparr>
          | _ \<Rightarrow> None)"

definition before_sub :: "str \<Rightarrow> str \<Rightarrow> str" where
  "before_sub s p = (case find_sub s p of Some i \<Rightarrow> take i s | None \<Rightarrow> s)"

definition candidate_gradle_meta :: "externals \<Rightarrow> location \<Rightarrow> gradle_meta option" where
  "candidate_gradle_meta X loc =
     Option.bind (strip_prefix (loc_uri loc) (lit ''jar:'')) (\<lambda>rest.
     Option.bind (x_url_parse X (before_sub rest (lit ''!/''))) (\<lambda>u.
     Option.bind (path_from_uri X u) (\<lambda>jar_path. parse_jar_meta (path_to_str jar_path))))"

section \<open>The tie-breaks\<close>

definition DENYLISTED_PACKAGE_PREFIXES :: "str list" where
  "DENYLISTED_PACKAGE_PREFIXES = [lit ''com.android.internal.'']"

definition is_denylisted_package_prefix :: "indexer \<Rightarrow> location \<Rightarrow> bool" where
  "is_denylisted_package_prefix ix loc =
     (case location_package ix loc of
        None \<Rightarrow> False
      | Some package \<Rightarrow>
          list_ex (\<lambda>prefix. package = trim_end_matches (\<lambda>c. c = ch CHR ''.'') prefix \<or> starts_with package prefix)
            DENYLISTED_PACKAGE_PREFIXES)"

text \<open>The content root with the longest path that contains the file.\<close>

definition owning_module_dependencies :: "externals \<Rightarrow> indexer \<Rightarrow> url \<Rightarrow> gradle_meta set option" where
  "owning_module_dependencies X ix from_uri =
     Option.bind (path_from_uri X from_uri) (\<lambda>file_path.
       case filter (\<lambda>(content_root, _). path_starts_with file_path content_root)
              (entries_of (ix_module_dependencies ix)) of
         [] \<Rightarrow> None
       | c # cs \<Rightarrow> Some (snd (fold (\<lambda>x best. if utf8_len (path_to_str (fst x)) \<ge> utf8_len (path_to_str (fst best))
                                              then x else best) cs c)))"

datatype module_scoped_outcome = NoData | NoDependenciesSurvived | Narrowed "location list"

definition module_scoped_tie_break ::
  "externals \<Rightarrow> indexer \<Rightarrow> url \<Rightarrow> location list \<Rightarrow> module_scoped_outcome" where
  "module_scoped_tie_break X ix hierarchy_walk_origin_uri locations =
     (case owning_module_dependencies X ix hierarchy_walk_origin_uri of
        None \<Rightarrow> NoData
      | Some dependencies \<Rightarrow>
          let narrowed = filter (\<lambda>l. case candidate_gradle_meta X l of
                                       Some meta \<Rightarrow> meta \<in> dependencies | None \<Rightarrow> False) locations
          in if narrowed = [] then NoDependenciesSurvived else Narrowed narrowed)"

definition default_kotlin_import_tie_break :: "indexer \<Rightarrow> url \<Rightarrow> location list \<Rightarrow> location list" where
  "default_kotlin_import_tie_break ix origin_uri locations =
     (if from_path origin_uri \<noteq> Kotlin then locations
      else (let narrowed = filter (\<lambda>l. in_default_package (location_package ix l)) locations
            in if narrowed = [] then locations else narrowed))"

definition imported_packages :: "ucd \<Rightarrow> file_data \<Rightarrow> str set" where
  "imported_packages U d =
     set (map (\<lambda>i. if ie_is_star i then ie_full_path i else import_package_prefix U (ie_full_path i))
           (fd_imports d))"

definition import_package_tie_break :: "ucd \<Rightarrow> indexer \<Rightarrow> url \<Rightarrow> location list \<Rightarrow> location list" where
  "import_package_tie_break U ix origin_uri locations =
     (case Mapping.lookup (ix_files ix) origin_uri of
        None \<Rightarrow> []
      | Some d \<Rightarrow>
          if imported_packages U d = {} then []
          else (let narrowed = filter (\<lambda>l. case location_package ix l of
                                  Some pkg \<Rightarrow> pkg \<in> imported_packages U d | None \<Rightarrow> False) locations
                in if length narrowed = 1 then narrowed else []))"

text \<open>The last two steps, which the first two lead to with what they left.\<close>

definition after_module_scope :: "ucd \<Rightarrow> indexer \<Rightarrow> url \<Rightarrow> location list \<Rightarrow> location list" where
  "after_module_scope U ix origin_uri locations =
     (let after_default_import = default_kotlin_import_tie_break ix origin_uri locations
      in if length after_default_import = 1 then after_default_import
         else import_package_tie_break U ix origin_uri after_default_import)"

definition ambiguity_safe_tail_with_denylist ::
  "'a file_env_scheme \<Rightarrow> indexer \<Rightarrow> url \<Rightarrow> location list \<Rightarrow> location list" where
  "ambiguity_safe_tail_with_denylist V ix origin_uri locations =
     (if length locations = 1 then locations
      else if locations = [] then []
      else (let filtered = filter (\<lambda>l. \<not> is_denylisted_package_prefix ix l) locations
            in if length filtered = 1 then filtered
               else if length filtered < 2 then []
               else (case module_scoped_tie_break (fe_ext V) ix origin_uri filtered of
                       Narrowed narrowed \<Rightarrow>
                         if length narrowed = 1 then narrowed
                         else after_module_scope (fe_ucd V) ix origin_uri narrowed
                     | _ \<Rightarrow> after_module_scope (fe_ucd V) ix origin_uri filtered)))"

end
