(* ===== verification/Resolve_Chain.thy ===== *)
theory Resolve_Chain
  imports Tie_Break
begin

text \<open>
  The chain a bare name is resolved through: \<^verbatim>\<open>src/resolver/resolve.rs\<close>. Each step is tried in
  the state the one before left, and the first that finds anything ends the chain; the policy says
  which steps a caller may use. The search of the supertypes, which only \<open>Full\<close> reaches and which
  itself resolves names, is the argument \<open>inherited\<close> of \<open>resolve_chain_with\<close>.
\<close>

datatype resolve_io = Full | NoRg | IndexOnly | ScopedOnly | HierarchyAmbiguitySafe

type_synonym step = "jar_state \<Rightarrow> location list resolved"

definition or_else :: "step \<Rightarrow> step \<Rightarrow> step" where
  "or_else f g s = Option.bind (f s) (\<lambda>(s1, locs). if locs \<noteq> [] then Some (s1, locs) else g s1)"

definition nothing_found :: step where
  "nothing_found s = Some (s, [])"

definition step_if :: "bool \<Rightarrow> step \<Rightarrow> step" where
  "step_if b f = (if b then f else nothing_found)"

text \<open>A step that only reads the index.\<close>

definition reading :: "(indexer \<Rightarrow> location list) \<Rightarrow> step" where
  "reading f s = Some (s, f (fst s))"

section \<open>Steps\<close>

text \<open>0.5: the current file is indexed on demand.\<close>

definition index_on_demand :: "resolve_env \<Rightarrow> url \<Rightarrow> jar_state \<Rightarrow> jar_state option" where
  "index_on_demand V uri s =
     (if Mapping.lookup (ix_files (fst s)) uri \<noteq> None then Some s
      else (case Option.bind (x_url_to_file_path (fe_ext V) uri) (fe_read V) of
              None \<Rightarrow> Some s
            | Some content \<Rightarrow> map_option (\<lambda>r. (fst r, snd s)) (index_content (fe_ext V) uri content (fst s))))"

text \<open>2.5: in Swift, the definitions of the name, those in Swift files before the others.\<close>

definition swift_definitions :: "externals \<Rightarrow> str \<Rightarrow> indexer \<Rightarrow> location list" where
  "swift_definitions X name ix =
     (let locs = definition_locations ix name;
          swift_locs = filter (\<lambda>l. from_path (x_url_path X (loc_uri l)) = Swift) locs
      in if swift_locs \<noteq> [] then swift_locs else locs)"

definition is_swift_type :: "resolve_env \<Rightarrow> str \<Rightarrow> url \<Rightarrow> bool" where
  "is_swift_type V name uri \<longleftrightarrow>
     from_path (x_url_path (fe_ext V) uri) = Swift \<and> starts_with_uppercase (fe_ucd V) name"

text \<open>4: star imports, with or without ripgrep.\<close>

definition star_step :: "resolve_env \<Rightarrow> bool \<Rightarrow> str \<Rightarrow> url \<Rightarrow> step" where
  "star_step V star_rg name uri s =
     (if star_rg then resolve_star_imports V name uri s
      else find_in_star_imports V name (star_import_packages (fst s) uri) s)"

definition rg_location_satisfies_call_shape :: "indexer \<Rightarrow> location \<Rightarrow> str \<Rightarrow> call_shape \<Rightarrow> bool" where
  "rg_location_satisfies_call_shape ix loc name shape =
     (case Option.bind (Mapping.lookup (ix_files ix) (loc_uri loc))
             (\<lambda>d. find (\<lambda>s. se_name s = name \<and> range_encloses (se_range s) (loc_range loc)) (fd_symbols d)) of
        None \<Rightarrow> True
      | Some s \<Rightarrow> accepts_symbol shape s)"

definition shape_compatible :: "indexer \<Rightarrow> str \<Rightarrow> call_shape option \<Rightarrow> location list \<Rightarrow> location list" where
  "shape_compatible ix name shape locs =
     (case shape of
        None \<Rightarrow> locs
      | Some c \<Rightarrow> filter (\<lambda>l. rg_location_satisfies_call_shape ix l name c) locs)"

section \<open>Tails\<close>

text \<open>The look-up of every definition of the name, narrowed by \<open>f\<close>.\<close>

definition global_definitions :: "resolve_env \<Rightarrow> str \<Rightarrow> (indexer \<Rightarrow> location list \<Rightarrow> location list) \<Rightarrow> step" where
  "global_definitions V name f s =
     map_option (\<lambda>(s1, locs). (s1, f (fst s1) locs)) (lookup_definitions V name s)"

definition platform_step :: "resolve_env \<Rightarrow> str \<Rightarrow> step" where
  "platform_step V name = resolve_kotlin_builtin_type_platform_equivalent V name"

text \<open>5: the project-wide search of \<open>Full\<close>, which an import of an absent package ends.\<close>

definition project_search :: "resolve_env \<Rightarrow> str \<Rightarrow> url \<Rightarrow> call_shape option \<Rightarrow> step" where
  "project_search V name uri shape s =
     (let (root, source_roots, matcher) = rg_scope_for_path V (fst s) None
      in if import_package_absent_from_source_roots V (fst s) name uri root source_roots then Some (s, [])
         else or_else
                (reading (\<lambda>ix. shape_compatible ix name shape
                   (rg_find_definition (fe_ucd V) (fe_ext V) (rv_fs V) (rv_rg V) name root source_roots matcher)))
                (or_else (platform_step V name)
                  (global_definitions V name (\<lambda>ix locs.
                     ambiguity_safe_tail_with_denylist V ix uri (shape_compatible ix name shape locs)))) s)"

definition tail_step :: "resolve_env \<Rightarrow> str \<Rightarrow> url \<Rightarrow> resolve_io \<Rightarrow> url option \<Rightarrow> step" where
  "tail_step V name from_uri io hierarchy_walk_origin_uri =
     (case io of
        Full \<Rightarrow> nothing_found
      | ScopedOnly \<Rightarrow> nothing_found
      | NoRg \<Rightarrow> or_else (platform_step V name) (global_definitions V name (\<lambda>_ locs. take 1 locs))
      | IndexOnly \<Rightarrow>
          or_else (platform_step V name)
            (global_definitions V name (\<lambda>ix. ambiguity_safe_tail_with_denylist V ix from_uri))
      | HierarchyAmbiguitySafe \<Rightarrow>
          or_else (platform_step V name)
            (global_definitions V name (\<lambda>ix. ambiguity_safe_tail_with_denylist V ix
               (case hierarchy_walk_origin_uri of Some u \<Rightarrow> u | None \<Rightarrow> from_uri))))"

section \<open>The chain\<close>

definition scope_steps ::
  "(str \<Rightarrow> url \<Rightarrow> step) \<Rightarrow> resolve_env \<Rightarrow> str \<Rightarrow> url \<Rightarrow> resolve_io \<Rightarrow> bool \<Rightarrow> call_shape option \<Rightarrow> step list" where
  "scope_steps inherited V name from_uri io with_hierarchy shape =
     (let full_io = (io = Full); allow_fd = (io \<noteq> IndexOnly); star_rg = (io = Full)
      in [reading (\<lambda>ix. resolve_local ix name from_uri shape),
          step_if (full_io \<and> \<not> starts_with_uppercase (fe_ucd V) name)
            (reading (\<lambda>ix. find_local_declaration (fe_ucd V) ix name from_uri)),
          resolve_via_imports V name from_uri allow_fd,
          step_if (full_io \<and> is_swift_type V name from_uri) (reading (swift_definitions (fe_ext V) name)),
          resolve_same_package V name from_uri,
          star_step V star_rg name from_uri,
          step_if (full_io \<and> with_hierarchy) (inherited name from_uri)])"

definition resolve_chain_with ::
  "(str \<Rightarrow> url \<Rightarrow> step) \<Rightarrow> resolve_env \<Rightarrow> str \<Rightarrow> url \<Rightarrow> resolve_io \<Rightarrow> bool \<Rightarrow> call_shape option
     \<Rightarrow> url option \<Rightarrow> step" where
  "resolve_chain_with inherited V name from_uri io with_hierarchy shape origin s =
     Option.bind (if io = Full then index_on_demand V from_uri s else Some s)
       (or_else (first_nonempty (\<lambda>f. f) (scope_steps inherited V name from_uri io with_hierarchy shape))
         (if io = Full then project_search V name from_uri shape
          else tail_step V name from_uri io origin))"

section \<open>Without the supertypes\<close>

definition resolve_symbol_no_rg :: "resolve_env \<Rightarrow> str \<Rightarrow> url \<Rightarrow> step" where
  "resolve_symbol_no_rg V name from_uri =
     resolve_chain_with (\<lambda>_ _. nothing_found) V name from_uri NoRg False None None"

definition resolve_symbol_scoped_only :: "resolve_env \<Rightarrow> str \<Rightarrow> url \<Rightarrow> step" where
  "resolve_symbol_scoped_only V name from_uri =
     resolve_chain_with (\<lambda>_ _. nothing_found) V name from_uri ScopedOnly False None None"

definition resolve_type_index_only_simple :: "resolve_env \<Rightarrow> str \<Rightarrow> url \<Rightarrow> step" where
  "resolve_type_index_only_simple V name from_uri =
     resolve_chain_with (\<lambda>_ _. nothing_found) V name from_uri IndexOnly False None None"

definition resolve_type_index_only :: "resolve_env \<Rightarrow> str \<Rightarrow> url \<Rightarrow> step" where
  "resolve_type_index_only V name from_uri s =
     (case split_once (ch CHR ''.'') name of
        None \<Rightarrow> resolve_type_index_only_simple V name from_uri s
      | Some (outer, inner) \<Rightarrow>
          Option.bind (resolve_type_index_only_simple V outer from_uri s) (\<lambda>(s1, outer_locs).
            let locs = (case outer_locs of
                          [] \<Rightarrow> [] | outer_loc # _ \<Rightarrow> find_name_in_uri V (fst s1) inner (loc_uri outer_loc))
            in if locs \<noteq> [] then Some (s1, locs)
               else resolve_type_index_only_simple V name from_uri s1))"

text \<open>The state of a walk that still has promotions to spend: the budget is passed on with it.\<close>

type_synonym walk_state = "jar_state \<times> nat"

definition promote_budgeted :: "resolve_env \<Rightarrow> str \<Rightarrow> walk_state \<Rightarrow> walk_state option" where
  "promote_budgeted V name w =
     map_option (\<lambda>(s1, budget1, _). (s1, budget1)) (ensure_jar_definitions_for (rv_jar V) (fe_ext V) name w)"

definition resolve_symbol_hierarchy_ambiguity_safe ::
  "resolve_env \<Rightarrow> str \<Rightarrow> url \<Rightarrow> url option \<Rightarrow> walk_state \<Rightarrow> (walk_state \<times> location list) option" where
  "resolve_symbol_hierarchy_ambiguity_safe V name from_uri origin w =
     Option.bind (promote_budgeted V name w) (\<lambda>(s1, budget).
       map_option (\<lambda>(s2, locs). ((s2, budget), locs))
         (resolve_chain_with (\<lambda>_ _. nothing_found) V name from_uri HierarchyAmbiguitySafe False None origin s1))"

definition fqns_for_name :: "indexer \<Rightarrow> str \<Rightarrow> str list" where
  "fqns_for_name ix name = postings (ix_importable_fqns ix) name"

section \<open>Lemmas\<close>

lemma or_else_nothing [simp]: "or_else nothing_found g = g"
  by (rule ext) (simp add: or_else_def nothing_found_def)

lemma or_else_nothing_right [simp]: "or_else f nothing_found = f"
  by (rule ext) (auto simp: or_else_def nothing_found_def bind_eq_Some_conv split: bind_splits)

text \<open>Only \<open>Full\<close> looks into the supertypes.\<close>

lemma resolve_chain_with_not_full:
  "io \<noteq> Full \<Longrightarrow> resolve_chain_with f V name uri io wh shape origin
      = resolve_chain_with g V name uri io wh shape origin"
  by (rule ext) (simp add: resolve_chain_with_def scope_steps_def step_if_def Let_def)

end
