(* ===== verification/Walk.thy ===== *)
theory Walk
  imports Prelude
begin

text \<open>
  The two traversals of \<^verbatim>\<open>src/resolver/hierarchy.rs\<close>: depth first with one visited set for the whole
  walk, and breadth first up to the first level that gives something.

  A node is a class in a file. The successors of a node are found by an operation \<open>T\<close> that may change
  the state it reads (and panic); \<open>C\<close> is what the caller collects at a node. The locale says what the
  two walks return where the successors do not depend on when they are asked for.
\<close>

section \<open>Depth first\<close>

record ('w, 'n, 'a) walker =
  wk_state :: 'w
  wk_visited :: "'n set"
  wk_items :: "'a list"

fun walk_node ::
    "('n \<Rightarrow> 'w \<Rightarrow> ('w \<times> 'n list) option) \<Rightarrow> ('w \<Rightarrow> 'n \<Rightarrow> 'a list) \<Rightarrow> nat \<Rightarrow> 'n
     \<Rightarrow> ('w, 'n, 'a) walker \<Rightarrow> ('w, 'n, 'a) walker option"
  and walk_targets ::
    "('n \<Rightarrow> 'w \<Rightarrow> ('w \<times> 'n list) option) \<Rightarrow> ('w \<Rightarrow> 'n \<Rightarrow> 'a list) \<Rightarrow> nat \<Rightarrow> 'n list
     \<Rightarrow> ('w, 'n, 'a) walker \<Rightarrow> ('w, 'n, 'a) walker option" where
  "walk_node T C 0 n k = Some k"
| "walk_node T C (Suc depth) n k =
     Option.bind (T n (wk_state k)) (\<lambda>(w1, targets).
       walk_targets T C depth targets (k\<lparr>wk_state := w1\<rparr>))"
| "walk_targets T C depth [] k = Some k"
| "walk_targets T C depth (t # ts) k =
     (if t \<in> wk_visited k then walk_targets T C depth ts k
      else Option.bind
             (walk_node T C depth t
                (k\<lparr>wk_visited := insert t (wk_visited k), wk_items := wk_items k @ C (wk_state k) t\<rparr>))
             (\<lambda>k1. walk_targets T C depth ts k1))"

definition walk_from ::
  "('n \<Rightarrow> 'w \<Rightarrow> ('w \<times> 'n list) option) \<Rightarrow> ('w \<Rightarrow> 'n \<Rightarrow> 'a list) \<Rightarrow> nat \<Rightarrow> 'n \<Rightarrow> 'w
     \<Rightarrow> ('w, 'n, 'a) walker option" where
  "walk_from T C max_depth start w =
     walk_node T C max_depth start \<lparr>wk_state = w, wk_visited = {start}, wk_items = []\<rparr>"

section \<open>Breadth first\<close>

text \<open>One level: the nodes it adds, in order, and what they give.\<close>

record ('w, 'n, 'a) level =
  lv_state :: 'w
  lv_visited :: "'n set"
  lv_found :: "'a list"
  lv_next :: "'n list"

fun level_targets :: "('w \<Rightarrow> 'n \<Rightarrow> 'a list) \<Rightarrow> 'n list \<Rightarrow> ('w, 'n, 'a) level \<Rightarrow> ('w, 'n, 'a) level" where
  "level_targets C [] l = l"
| "level_targets C (t # ts) l =
     (if t \<in> lv_visited l then level_targets C ts l
      else level_targets C ts
             (l\<lparr>lv_visited := insert t (lv_visited l), lv_found := lv_found l @ C (lv_state l) t,
                lv_next := lv_next l @ [t]\<rparr>))"

fun level_nodes ::
  "('n \<Rightarrow> 'w \<Rightarrow> ('w \<times> 'n list) option) \<Rightarrow> ('w \<Rightarrow> 'n \<Rightarrow> 'a list) \<Rightarrow> 'n list
     \<Rightarrow> ('w, 'n, 'a) level \<Rightarrow> ('w, 'n, 'a) level option" where
  "level_nodes T C [] l = Some l"
| "level_nodes T C (n # ns) l =
     Option.bind (T n (lv_state l)) (\<lambda>(w1, targets).
       level_nodes T C ns (level_targets C targets (l\<lparr>lv_state := w1\<rparr>)))"

fun levels_from ::
  "('n \<Rightarrow> 'w \<Rightarrow> ('w \<times> 'n list) option) \<Rightarrow> ('w \<Rightarrow> 'n \<Rightarrow> 'a list) \<Rightarrow> nat \<Rightarrow> 'n set \<Rightarrow> 'n list \<Rightarrow> 'w
     \<Rightarrow> ('w \<times> 'a list) option" where
  "levels_from T C 0 visited current w = Some (w, [])"
| "levels_from T C (Suc depth) visited current w =
     Option.bind (level_nodes T C current \<lparr>lv_state = w, lv_visited = visited, lv_found = [], lv_next = []\<rparr>)
       (\<lambda>l. if lv_found l \<noteq> [] then Some (lv_state l, lv_found l)
            else if lv_next l = [] then Some (lv_state l, [])
            else levels_from T C depth (lv_visited l) (lv_next l) (lv_state l))"

definition walk_breadth_first ::
  "('n \<Rightarrow> 'w \<Rightarrow> ('w \<times> 'n list) option) \<Rightarrow> ('w \<Rightarrow> 'n \<Rightarrow> 'a list) \<Rightarrow> nat \<Rightarrow> 'n \<Rightarrow> 'w \<Rightarrow> ('w \<times> 'a list) option" where
  "walk_breadth_first T C max_depth start w = levels_from T C max_depth {start} [start] w"

section \<open>Reachability\<close>

text \<open>The nodes a graph leads to within a number of steps, and at all.\<close>

fun within :: "('n \<Rightarrow> 'n list) \<Rightarrow> nat \<Rightarrow> 'n \<Rightarrow> 'n set" where
  "within G 0 n = {n}"
| "within G (Suc d) n = insert n (\<Union>m \<in> set (G n). within G d m)"

inductive reaches :: "('n \<Rightarrow> 'n list) \<Rightarrow> 'n \<Rightarrow> 'n \<Rightarrow> bool" for G where
  refl: "reaches G n n"
| step: "reaches G n m \<Longrightarrow> k \<in> set (G m) \<Longrightarrow> reaches G n k"

lemma within_self [simp, intro]: "n \<in> within G d n"
  by (cases d) auto

lemma within_mono: "within G d n \<subseteq> within G (Suc d) n"
proof (induction d arbitrary: n)
  case (Suc d)
  show ?case by (simp only: within.simps(2)) (use Suc.IH in \<open>fastforce\<close>)
qed simp

lemma within_step: "m \<in> within G d n \<Longrightarrow> k \<in> set (G m) \<Longrightarrow> k \<in> within G (Suc d) n"
  by (induction d arbitrary: n) auto

lemma reaches_trans_step: "m \<in> set (G n) \<Longrightarrow> reaches G m k \<Longrightarrow> reaches G n k"
  by (rotate_tac, induction rule: reaches.induct) (auto intro: reaches.intros)

lemma within_reaches: "m \<in> within G d n \<Longrightarrow> reaches G n m"
  by (induction d arbitrary: n) (auto intro: reaches.refl reaches_trans_step)

lemma reaches_closed: "reaches G n m \<Longrightarrow> n \<in> S \<Longrightarrow> (\<And>k. k \<in> S \<Longrightarrow> set (G k) \<subseteq> S) \<Longrightarrow> m \<in> S"
  by (induction rule: reaches.induct) auto

lemma within_Suc: "within G (Suc d) n = within G d n \<union> (\<Union>m \<in> within G d n. set (G m))"
proof (induction d arbitrary: n)
  case 0
  then show ?case by simp
next
  case (Suc d)
  have "within G (Suc (Suc d)) n = insert n (\<Union>m \<in> set (G n). within G (Suc d) m)" by simp
  also have "\<dots> = insert n (\<Union>m \<in> set (G n). within G d m \<union> (\<Union>k \<in> within G d m. set (G k)))"
    using Suc.IH by simp
  also have "\<dots> = within G (Suc d) n \<union> (\<Union>m \<in> within G (Suc d) n. set (G m))"
    by (auto intro: within_self)
  finally show ?case .
qed

text \<open>The nodes at a distance.\<close>

definition at_distance :: "('n \<Rightarrow> 'n list) \<Rightarrow> 'n \<Rightarrow> nat \<Rightarrow> 'n set" where
  "at_distance G n d = (case d of 0 \<Rightarrow> {n} | Suc e \<Rightarrow> within G (Suc e) n - within G e n)"

lemma at_distance_within: "at_distance G n d \<subseteq> within G d n"
  by (cases d) (auto simp: at_distance_def)

lemma within_frontier:
  "within G (Suc d) n = within G d n \<union> (\<Union>m \<in> at_distance G n d. set (G m))"
proof (cases d)
  case 0
  then show ?thesis by (simp add: at_distance_def)
next
  case (Suc e)
  have "set (G m) \<subseteq> within G d n" if "m \<in> within G d n" "m \<notin> at_distance G n d" for m
    using that within_step [of m G e n] by (auto simp: Suc at_distance_def simp del: within.simps)
  then show ?thesis
    using at_distance_within [of G n d] by (subst within_Suc) blast
qed

section \<open>What the walks return\<close>

text \<open>The successors a state \<open>T\<close> works on gives are those of the graph \<open>G\<close>, and what is collected at
  a node is \<open>K\<close>, as long as the state satisfies \<open>I\<close>, which \<open>T\<close> preserves.\<close>

locale settled_walk =
  fixes T :: "'n \<Rightarrow> 'w \<Rightarrow> ('w \<times> 'n list) option"
    and C :: "'w \<Rightarrow> 'n \<Rightarrow> 'a list"
    and I :: "'w \<Rightarrow> bool"
    and G :: "'n \<Rightarrow> 'n list"
    and K :: "'n \<Rightarrow> 'a list"
  assumes targets: "I w \<Longrightarrow> \<exists>w1. T n w = Some (w1, G n) \<and> I w1"
    and collected: "I w \<Longrightarrow> C w n = K n"
begin

text \<open>A walk adds the nodes \<open>ns\<close>, each once and none it had, and collects at them in that order.\<close>

definition adds :: "('w, 'n, 'a) walker \<Rightarrow> 'n list \<Rightarrow> 'n set \<Rightarrow> ('w, 'n, 'a) walker option \<Rightarrow> bool" where
  "adds k ns bound r \<longleftrightarrow> (\<exists>k1. r = Some k1 \<and> I (wk_state k1) \<and> wk_visited k1 = wk_visited k \<union> set ns
     \<and> wk_items k1 = wk_items k @ concat (map K ns))
   \<and> distinct ns \<and> set ns \<inter> wk_visited k = {} \<and> set ns \<subseteq> bound"

lemma adds_targets:
  assumes node: "\<And>n k. I (wk_state k) \<Longrightarrow> \<exists>ns. adds k ns (within G d n) (walk_node T C d n k)"
  shows "I (wk_state k) \<Longrightarrow> \<exists>ns. adds k ns (\<Union>t \<in> set ts. within G d t) (walk_targets T C d ts k)"
proof (induction ts arbitrary: k)
  case Nil
  then show ?case by (auto simp: adds_def intro!: exI [of _ "[]"])
next
  case (Cons t ts)
  show ?case
  proof (cases "t \<in> wk_visited k")
    case True
    from Cons.IH [OF Cons.prems] obtain ns where
      "adds k ns (\<Union>t \<in> set ts. within G d t) (walk_targets T C d ts k)" by blast
    with True show ?thesis by (auto simp: adds_def)
  next
    case False
    let ?k = "k\<lparr>wk_visited := insert t (wk_visited k), wk_items := wk_items k @ C (wk_state k) t\<rparr>"
    from node [of ?k t] Cons.prems obtain ns where
      a: "adds ?k ns (within G d t) (walk_node T C d t ?k)" by auto
    then obtain k1 where k1: "walk_node T C d t ?k = Some k1" "I (wk_state k1)"
        "wk_visited k1 = insert t (wk_visited k) \<union> set ns"
        "wk_items k1 = wk_items k @ K t @ concat (map K ns)"
      using collected [OF Cons.prems] by (auto simp: adds_def)
    from Cons.IH [OF k1(2)] obtain ms where
      b: "adds k1 ms (\<Union>t \<in> set ts. within G d t) (walk_targets T C d ts k1)" by blast
    have "adds k (t # ns @ ms) (\<Union>t \<in> set (t # ts). within G d t) (walk_targets T C d (t # ts) k)"
      using a b k1 False by (auto simp: adds_def)
    then show ?thesis by blast
  qed
qed

lemma adds_node: "I (wk_state k) \<Longrightarrow> \<exists>ns. adds k ns (within G d n) (walk_node T C d n k)"
proof (induction d arbitrary: n k)
  case 0
  then show ?case by (auto simp: adds_def intro!: exI [of _ "[]"])
next
  case (Suc d)
  from targets [OF Suc.prems, of n] obtain w1 where
    w1: "T n (wk_state k) = Some (w1, G n)" "I w1" by blast
  from adds_targets [OF Suc.IH, of "k\<lparr>wk_state := w1\<rparr>" "G n"] w1 obtain ns where
    "adds (k\<lparr>wk_state := w1\<rparr>) ns (\<Union>t \<in> set (G n). within G d t) (walk_targets T C d (G n) (k\<lparr>wk_state := w1\<rparr>))"
    by auto
  then show ?case by (auto simp: adds_def w1(1))
qed

text \<open>The walk returns; it visits each class once, only classes within its depth, and collects at
  each but the first.\<close>

lemma walk_from_sound:
  "I w \<Longrightarrow> \<exists>k ns. walk_from T C d start w = Some k \<and> wk_visited k = insert start (set ns)
     \<and> distinct ns \<and> start \<notin> set ns \<and> set ns \<subseteq> within G d start \<and> wk_items k = concat (map K ns)"
  using adds_node [of "\<lparr>wk_state = w, wk_visited = {start}, wk_items = []\<rparr>" d start]
  by (auto simp: adds_def walk_from_def)

lemma walk_from_state: "I w \<Longrightarrow> walk_from T C d start w = Some k \<Longrightarrow> I (wk_state k)"
  using adds_node [of "\<lparr>wk_state = w, wk_visited = {start}, wk_items = []\<rparr>" d start]
  by (auto simp: adds_def walk_from_def)

text \<open>A walk with more depth left than classes to find leaves no successor of a visited class out.\<close>

lemma closes_targets:
  assumes fin: "finite R" and G: "\<And>m. m \<in> R \<Longrightarrow> set (G m) \<subseteq> R"
    and node: "\<And>n k k1. I (wk_state k) \<Longrightarrow> n \<in> R \<Longrightarrow> wk_visited k \<subseteq> R \<Longrightarrow> card (R - wk_visited k) < d
        \<Longrightarrow> walk_node T C d n k = Some k1
        \<Longrightarrow> wk_visited k1 \<subseteq> R \<and> (\<forall>m \<in> insert n (wk_visited k1 - wk_visited k). set (G m) \<subseteq> wk_visited k1)"
  shows "I (wk_state k) \<Longrightarrow> set ts \<subseteq> R \<Longrightarrow> wk_visited k \<subseteq> R \<Longrightarrow> card (R - wk_visited k) \<le> d
    \<Longrightarrow> walk_targets T C d ts k = Some k1
    \<Longrightarrow> wk_visited k1 \<subseteq> R \<and> set ts \<subseteq> wk_visited k1 \<and> wk_visited k \<subseteq> wk_visited k1
        \<and> (\<forall>m \<in> wk_visited k1 - wk_visited k. set (G m) \<subseteq> wk_visited k1)"
proof (induction ts arbitrary: k)
  case Nil
  then show ?case by simp
next
  case (Cons t ts)
  show ?case
  proof (cases "t \<in> wk_visited k")
    case True
    with Cons.IH [of k] Cons.prems show ?thesis by auto
  next
    case False
    let ?k = "k\<lparr>wk_visited := insert t (wk_visited k), wk_items := wk_items k @ C (wk_state k) t\<rparr>"
    from adds_node [of ?k d t] Cons.prems obtain k2 where
      k2: "walk_node T C d t ?k = Some k2" "I (wk_state k2)" "insert t (wk_visited k) \<subseteq> wk_visited k2"
      by (auto simp: adds_def split: if_splits intro: subset_insertI2)
    have fewer: "card (R - wk_visited k - {t}) < card (R - wk_visited k)"
      using False Cons.prems(2) fin by (intro card_Diff1_less) auto
    have "R - wk_visited ?k = R - wk_visited k - {t}" by auto
    with fewer Cons.prems(4) have "card (R - wk_visited ?k) < d" by simp
    with node [of ?k t k2] k2 Cons.prems have
      c: "wk_visited k2 \<subseteq> R" "\<forall>m \<in> insert t (wk_visited k2 - wk_visited ?k). set (G m) \<subseteq> wk_visited k2"
      by auto
    have "R - wk_visited k2 \<subseteq> R - wk_visited k" using k2(3) by auto
    with fin Cons.prems(4) have "card (R - wk_visited k2) \<le> d"
      by (meson card_mono finite_Diff le_trans)
    with Cons.IH [of k2] k2 c Cons.prems False have
      d: "wk_visited k1 \<subseteq> R" "set ts \<subseteq> wk_visited k1" "wk_visited k2 \<subseteq> wk_visited k1"
         "\<forall>m \<in> wk_visited k1 - wk_visited k2. set (G m) \<subseteq> wk_visited k1"
      by auto
    have "set (G m) \<subseteq> wk_visited k1" if "m \<in> wk_visited k1 - wk_visited k" for m
      using that c(2) d(3,4) by (cases "m \<in> wk_visited k2") (auto, blast+)
    with d k2(3) show ?thesis by auto
  qed
qed

lemma closes_node:
  assumes fin: "finite R" and G: "\<And>m. m \<in> R \<Longrightarrow> set (G m) \<subseteq> R"
  shows "I (wk_state k) \<Longrightarrow> n \<in> R \<Longrightarrow> wk_visited k \<subseteq> R \<Longrightarrow> card (R - wk_visited k) < d
    \<Longrightarrow> walk_node T C d n k = Some k1
    \<Longrightarrow> wk_visited k1 \<subseteq> R \<and> (\<forall>m \<in> insert n (wk_visited k1 - wk_visited k). set (G m) \<subseteq> wk_visited k1)"
proof (induction d arbitrary: n k k1)
  case 0
  then show ?case by simp
next
  case (Suc d)
  from targets [OF Suc.prems(1), of n] obtain w1 where
    w1: "T n (wk_state k) = Some (w1, G n)" "I w1" by blast
  with Suc.prems(5) have "walk_targets T C d (G n) (k\<lparr>wk_state := w1\<rparr>) = Some k1" by simp
  with closes_targets [OF fin G Suc.IH, where k = "k\<lparr>wk_state := w1\<rparr>" and ts = "G n" and ?k1.0 = k1] Suc.prems w1 G show ?case
    by auto
qed

theorem walk_from_complete:
  assumes I: "I w" and fin: "finite R" "start \<in> R" and G: "\<And>m. m \<in> R \<Longrightarrow> set (G m) \<subseteq> R"
    and d: "card R \<le> d" and k: "walk_from T C d start w = Some k"
  shows "wk_visited k = {m. reaches G start m}"
proof
  let ?k = "\<lparr>wk_state = w, wk_visited = {start}, wk_items = []\<rparr>"
  have "card (R - {start}) < d" using fin d by (metis card_Diff1_less less_le_trans)
  with closes_node [OF fin(1) G, of ?k start d k] assms have
    c: "\<forall>m \<in> insert start (wk_visited k - {start}). set (G m) \<subseteq> wk_visited k"
    by (auto simp: walk_from_def)
  from walk_from_sound [OF I, of d start] k have s: "start \<in> wk_visited k" "wk_visited k \<subseteq> within G d start"
    by auto
  show "wk_visited k \<subseteq> {m. reaches G start m}" using s(2) within_reaches by fast
  show "{m. reaches G start m} \<subseteq> wk_visited k"
    using c s(1) by (auto elim!: reaches_closed)
qed

text \<open>Breadth first: a level adds the successors of the level before that are new.\<close>

lemma level_targets_eq:
  "I (lv_state l) \<Longrightarrow> \<exists>ns. level_targets C ts l = l\<lparr>lv_visited := lv_visited l \<union> set ts,
       lv_found := lv_found l @ concat (map K ns), lv_next := lv_next l @ ns\<rparr>
     \<and> distinct ns \<and> set ns = set ts - lv_visited l"
proof (induction ts arbitrary: l)
  case Nil
  then show ?case by (auto intro!: exI [of _ "[]"])
next
  case (Cons t ts)
  show ?case
  proof (cases "t \<in> lv_visited l")
    case True
    from Cons.IH [OF Cons.prems] True show ?thesis by (auto simp: insert_absorb)
  next
    case False
    let ?l = "l\<lparr>lv_visited := insert t (lv_visited l), lv_found := lv_found l @ C (lv_state l) t,
                lv_next := lv_next l @ [t]\<rparr>"
    from Cons.IH [of ?l] Cons.prems obtain ns where
      "level_targets C ts ?l = ?l\<lparr>lv_visited := lv_visited ?l \<union> set ts,
         lv_found := lv_found ?l @ concat (map K ns), lv_next := lv_next ?l @ ns\<rparr>"
      "distinct ns" "set ns = set ts - lv_visited ?l" by auto
    with False collected [OF Cons.prems] show ?thesis by (auto intro!: exI [of _ "t # ns"])
  qed
qed

lemma level_nodes_eq:
  "I (lv_state l) \<Longrightarrow> \<exists>l1 ns. level_nodes T C current l = Some l1 \<and> I (lv_state l1)
     \<and> lv_visited l1 = lv_visited l \<union> (\<Union>n \<in> set current. set (G n))
     \<and> lv_found l1 = lv_found l @ concat (map K ns) \<and> lv_next l1 = lv_next l @ ns
     \<and> distinct ns \<and> set ns = (\<Union>n \<in> set current. set (G n)) - lv_visited l"
proof (induction current arbitrary: l)
  case Nil
  then show ?case by (auto intro!: exI [of _ "[]"])
next
  case (Cons n current)
  from targets [OF Cons.prems, of n] obtain w1 where w1: "T n (lv_state l) = Some (w1, G n)" "I w1" by blast
  from level_targets_eq [of "l\<lparr>lv_state := w1\<rparr>" "G n"] w1 obtain ns where
    ns: "level_targets C (G n) (l\<lparr>lv_state := w1\<rparr>) = l\<lparr>lv_state := w1, lv_visited := lv_visited l \<union> set (G n),
           lv_found := lv_found l @ concat (map K ns), lv_next := lv_next l @ ns\<rparr>"
        "distinct ns" "set ns = set (G n) - lv_visited l" by auto
  let ?l = "l\<lparr>lv_state := w1, lv_visited := lv_visited l \<union> set (G n),
           lv_found := lv_found l @ concat (map K ns), lv_next := lv_next l @ ns\<rparr>"
  from Cons.IH [of ?l] w1 obtain l1 ms where
    ms: "level_nodes T C current ?l = Some l1" "I (lv_state l1)"
        "lv_visited l1 = lv_visited ?l \<union> (\<Union>n \<in> set current. set (G n))"
        "lv_found l1 = lv_found ?l @ concat (map K ms)" "lv_next l1 = lv_next ?l @ ms"
        "distinct ms" "set ms = (\<Union>n \<in> set current. set (G n)) - lv_visited ?l" by auto
  have "level_nodes T C (n # current) l = Some l1" using w1 ns(1) ms(1) by simp
  with ns ms show ?case by (auto intro!: exI [of _ "ns @ ms"])
qed

text \<open>\<open>nearest d r\<close>: \<open>r\<close> is what is collected at the first distance, from 1 to \<open>d\<close>, that gives anything.\<close>

definition nearest :: "'n \<Rightarrow> nat \<Rightarrow> 'a list \<Rightarrow> bool" where
  "nearest start max_depth r \<longleftrightarrow>
     (if r = [] then \<forall>d. 0 < d \<and> d \<le> max_depth \<longrightarrow> (\<forall>m \<in> at_distance G start d. K m = [])
      else (\<exists>d ns. 0 < d \<and> d \<le> max_depth \<and> r = concat (map K ns) \<and> distinct ns
              \<and> set ns = at_distance G start d
              \<and> (\<forall>e. 0 < e \<and> e < d \<longrightarrow> (\<forall>m \<in> at_distance G start e. K m = []))))"

lemma at_distance_empty: "at_distance G n d = {} \<Longrightarrow> d \<le> e \<Longrightarrow> at_distance G n e = {}"
proof (induction e)
  case 0
  then show ?case by simp
next
  case (Suc e)
  show ?case
  proof (cases "d = Suc e")
    case False
    with Suc have "at_distance G n e = {}" by simp
    then show ?thesis using within_frontier [of G e n] by (simp add: at_distance_def)
  qed (use Suc in simp)
qed

lemma levels_from_nearest:
  "I w \<Longrightarrow> visited = within G e start \<Longrightarrow> set current = at_distance G start e
   \<Longrightarrow> (\<And>d. 0 < d \<Longrightarrow> d \<le> e \<Longrightarrow> \<forall>m \<in> at_distance G start d. K m = [])
   \<Longrightarrow> \<exists>w1 r. levels_from T C depth visited current w = Some (w1, r) \<and> nearest start (e + depth) r"
proof (induction depth arbitrary: e visited current w)
  case 0
  then show ?case by (auto simp: nearest_def)
next
  case (Suc depth)
  let ?l = "\<lparr>lv_state = w, lv_visited = visited, lv_found = [], lv_next = []\<rparr> :: ('w, 'n, 'a) level"
  from level_nodes_eq [of ?l current] Suc.prems obtain l1 ns where
    l1: "level_nodes T C current ?l = Some l1" "I (lv_state l1)"
        "lv_visited l1 = within G (Suc e) start" "lv_found l1 = concat (map K ns)" "lv_next l1 = ns"
        "distinct ns" "set ns = (\<Union>n \<in> at_distance G start e. set (G n)) - within G e start"
    using within_frontier [of G e start] by auto
  have ns: "set ns = at_distance G start (Suc e)"
    using l1(7) within_frontier [of G e start] by (auto simp: at_distance_def)
  show ?case
  proof (cases "lv_found l1 = []")
    case False
    then have "nearest start (e + Suc depth) (lv_found l1)"
      unfolding nearest_def using l1 ns Suc.prems(4)
      by (auto intro!: exI [of _ "Suc e"] exI [of _ ns] simp: less_Suc_eq_le)
    with False l1(1) show ?thesis by auto
  next
    case True
    then have none: "\<forall>m \<in> at_distance G start d. K m = []" if "0 < d" "d \<le> Suc e" for d
      using that Suc.prems(4) ns l1(4) by (cases "d = Suc e") auto
    show ?thesis
    proof (cases "ns = []")
      case True
      with ns have "at_distance G start (Suc e) = {}" by simp
      then have "at_distance G start d = {}" if "Suc e \<le> d" for d
        using at_distance_empty that by blast
      then have "nearest start (e + Suc depth) []"
        unfolding nearest_def using none by (metis empty_iff le_cases)
      with True \<open>lv_found l1 = []\<close> l1(1,5) show ?thesis by auto
    next
      case False
      from Suc.IH [OF l1(2) l1(3), of ns] ns none obtain w1 r where
        "levels_from T C depth (lv_visited l1) ns (lv_state l1) = Some (w1, r)"
        "nearest start (Suc e + depth) r" by blast
      with False \<open>lv_found l1 = []\<close> l1(1,5) show ?thesis by auto
    qed
  qed
qed

theorem walk_breadth_first_nearest:
  "I w \<Longrightarrow> \<exists>w1 r. walk_breadth_first T C max_depth start w = Some (w1, r) \<and> nearest start max_depth r"
  using levels_from_nearest [of w "{start}" 0 start "[start]" max_depth]
  by (simp add: walk_breadth_first_def at_distance_def)

lemma levels_from_state: "I w \<Longrightarrow> levels_from T C depth visited current w = Some (w1, r) \<Longrightarrow> I w1"
proof (induction depth arbitrary: visited current w)
  case (Suc depth)
  let ?l = "\<lparr>lv_state = w, lv_visited = visited, lv_found = [], lv_next = []\<rparr> :: ('w, 'n, 'a) level"
  from level_nodes_eq [of ?l current] Suc.prems(1) obtain l1 where
    "level_nodes T C current ?l = Some l1" "I (lv_state l1)" by auto
  with Suc show ?case by (auto split: if_splits)
qed simp

lemma walk_breadth_first_state: "I w \<Longrightarrow> walk_breadth_first T C d start w = Some (w1, r) \<Longrightarrow> I w1"
  by (simp add: walk_breadth_first_def levels_from_state)

end

end
