(* ===== verification/Hierarchy.thy ===== *)
theory Hierarchy
  imports Resolve_Chain Walk
begin

text \<open>
  The supertypes of a class, and the walks over them: \<^verbatim>\<open>src/resolver/hierarchy.rs\<close>, with
  \<open>resolve_from_class_hierarchy\<close> of \<^verbatim>\<open>qualified.rs\<close>, which closes the chain of
  \<open>Resolve_Chain\<close>.

  A class is its name and the URI of its file. The source's \<open>Url::to_string\<close> gives back the
  string the URL was parsed from, as everywhere in this development.
\<close>

type_synonym class_id = "str \<times> str"

definition MAX_SYNC_JAR_PROMOTIONS_PER_HIERARCHY_WALK :: nat where
  "MAX_SYNC_JAR_PROMOTIONS_PER_HIERARCHY_WALK = 3"

section \<open>The direct supertypes\<close>

definition super_names_for_class :: "file_data \<Rightarrow> str \<Rightarrow> str list" where
  "super_names_for_class d class_name =
     (let every = map (\<lambda>(_, name, _). name) (fd_supers d)
      in if class_name = [] then every
         else (case find (\<lambda>s. se_name s = class_name) (fd_symbols d) of
                 None \<Rightarrow> every
               | Some s \<Rightarrow>
                   map (\<lambda>(_, name, _). name)
                     (filter (\<lambda>(super_line, _, _). super_line = selection_start s) (fd_supers d))))"

text \<open>The place of the first element, as \<open>position\<close> returns it.\<close>

fun position_of :: "('a \<Rightarrow> bool) \<Rightarrow> 'a list \<Rightarrow> nat option" where
  "position_of p [] = None"
| "position_of p (x # xs) = (if p x then Some 0 else map_option Suc (position_of p xs))"

text \<open>The outermost type of a dotted name, in its package or as the walk resolves it.\<close>

definition outermost_type ::
  "resolve_env \<Rightarrow> url \<Rightarrow> url option \<Rightarrow> str list \<Rightarrow> nat \<Rightarrow> walk_state \<Rightarrow> (walk_state \<times> location option) option" where
  "outermost_type V uri origin segments start w =
     (if start > 0
      then map_option (\<lambda>(s1, loc). ((s1, snd w), loc))
             (find_symbol_in_package V (segments ! start) (join (lit ''.'') (take start segments)) (fst w))
      else map_option (\<lambda>(w1, locs). (w1, first_of locs))
             (resolve_symbol_hierarchy_ambiguity_safe V (segments ! start) uri origin w))"

definition nested_type :: "resolve_env \<Rightarrow> indexer \<Rightarrow> str list \<Rightarrow> location option \<Rightarrow> location option" where
  "nested_type V ix segs container =
     fold (\<lambda>seg c. Option.bind c (find_name_scoped_to_container V ix seg)) segs container"

definition dotted_supertype ::
  "resolve_env \<Rightarrow> url \<Rightarrow> url option \<Rightarrow> str \<Rightarrow> walk_state \<Rightarrow> (walk_state \<times> location option) option" where
  "dotted_supertype V uri origin super_name w =
     (if ch CHR ''.'' \<notin> set super_name then Some (w, None)
      else (let segments = dot_segments super_name
            in case position_of (starts_with_uppercase (fe_ucd V)) segments of
                 None \<Rightarrow> Some (w, None)
               | Some start \<Rightarrow>
                   map_option (\<lambda>(w1, outer).
                       (w1, nested_type V (fst (fst w1)) (drop (Suc start) segments) outer))
                     (outermost_type V uri origin segments start w)))"

definition supertype_target ::
  "resolve_env \<Rightarrow> url \<Rightarrow> url option \<Rightarrow> str \<Rightarrow> walk_state \<Rightarrow> (walk_state \<times> class_id list) option" where
  "supertype_target V uri origin super_name w =
     Option.bind (promote_budgeted V super_name w) (\<lambda>w1.
     Option.bind (dotted_supertype V uri origin super_name w1) (\<lambda>(w2, container).
       let super_leaf = last_segment super_name
       in case container of
            Some loc \<Rightarrow> Some (w2, [(super_leaf, loc_uri loc)])
          | None \<Rightarrow>
              map_option (\<lambda>(w3, locs). (w3, map (\<lambda>l. (super_leaf, loc_uri l)) locs))
                (resolve_symbol_hierarchy_ambiguity_safe V super_leaf uri origin w2)))"

fun flat_map_walk :: "('a \<Rightarrow> 'w \<Rightarrow> ('w \<times> 'b list) option) \<Rightarrow> 'a list \<Rightarrow> 'w \<Rightarrow> ('w \<times> 'b list) option" where
  "flat_map_walk f [] w = Some (w, [])"
| "flat_map_walk f (x # xs) w =
     Option.bind (f x w) (\<lambda>(w1, ys). map_option (\<lambda>(w2, zs). (w2, ys @ zs)) (flat_map_walk f xs w1))"

definition supertype_targets ::
  "resolve_env \<Rightarrow> str \<Rightarrow> class_id \<Rightarrow> walk_state \<Rightarrow> (walk_state \<times> class_id list) option" where
  "supertype_targets V origin_uri = (\<lambda>(class_name, class_uri) w.
     case file_at V (fst (fst w)) class_uri of
       None \<Rightarrow> Some (w, [])
     | Some (uri, d) \<Rightarrow>
         flat_map_walk (supertype_target V uri (x_url_parse (fe_ext V) origin_uri))
           (super_names_for_class d class_name) w)"

section \<open>The walks\<close>

text \<open>\<open>collect\<close> reads the index.\<close>

type_synonym 'a collect = "indexer \<Rightarrow> str \<Rightarrow> str \<Rightarrow> 'a list"

definition collect_at :: "'a collect \<Rightarrow> walk_state \<Rightarrow> class_id \<Rightarrow> 'a list" where
  "collect_at collect w = (\<lambda>(name, uri). collect (fst (fst w)) name uri)"

definition walk_hierarchy ::
  "resolve_env \<Rightarrow> str \<Rightarrow> str \<Rightarrow> str option \<Rightarrow> nat \<Rightarrow> nat \<Rightarrow> 'a collect \<Rightarrow> jar_state \<Rightarrow> (jar_state \<times> 'a list) option" where
  "walk_hierarchy V start_class start_uri caller_uri max_depth sidecar_budget collect s =
     (let origin_uri = (case caller_uri of Some u \<Rightarrow> u | None \<Rightarrow> start_uri)
      in map_option (\<lambda>k. (fst (wk_state k), wk_items k))
           (walk_from (supertype_targets V origin_uri) (collect_at collect) max_depth (start_class, start_uri)
             (s, sidecar_budget)))"

definition walk_hierarchy_breadth_first ::
  "resolve_env \<Rightarrow> str \<Rightarrow> str \<Rightarrow> str option \<Rightarrow> nat \<Rightarrow> nat \<Rightarrow> 'a collect \<Rightarrow> jar_state \<Rightarrow> (jar_state \<times> 'a list) option" where
  "walk_hierarchy_breadth_first V start_class start_uri caller_uri max_depth sidecar_budget collect s =
     (let origin_uri = (case caller_uri of Some u \<Rightarrow> u | None \<Rightarrow> start_uri)
      in map_option (\<lambda>(w, items). (fst w, items))
           (walk_breadth_first (supertype_targets V origin_uri) (collect_at collect) max_depth
             (start_class, start_uri) (s, sidecar_budget)))"

section \<open>Agreement of types\<close>

datatype receiver_type_agreement = Exact | Inherited | Unrelated | Unresolvable

definition supertype_chain_contains ::
  "resolve_env \<Rightarrow> str \<Rightarrow> str \<Rightarrow> str \<Rightarrow> nat \<Rightarrow> jar_state \<Rightarrow> (jar_state \<times> bool) option" where
  "supertype_chain_contains V candidate_type candidate_uri target_type sidecar_budget s =
     map_option (\<lambda>(s1, hits). (s1, hits \<noteq> []))
       (walk_hierarchy V candidate_type candidate_uri None 12 sidecar_budget
         (\<lambda>_ super_name _. if super_name = target_type then [()] else []) s)"

definition has_type_definition :: "resolve_env \<Rightarrow> str \<Rightarrow> jar_state \<Rightarrow> bool resolved" where
  "has_type_definition V name s =
     map_option (\<lambda>(s1, locs). (s1, list_ex (\<lambda>l. case file_data_for (fst s1) (loc_uri l) of
           None \<Rightarrow> False
         | Some d \<Rightarrow> list_ex (\<lambda>x. se_name x = name
             \<and> se_kind x \<in> {SK_CLASS, SK_INTERFACE, SK_ENUM, SK_OBJECT, SK_STRUCT}) (fd_symbols d)) locs))
       (lookup_definitions V name s)"

definition receiver_type_agreement_of ::
  "resolve_env \<Rightarrow> str \<Rightarrow> str \<Rightarrow> str \<Rightarrow> nat \<Rightarrow> jar_state \<Rightarrow> receiver_type_agreement resolved" where
  "receiver_type_agreement_of V candidate_type candidate_uri target_type sidecar_budget s =
     (if candidate_type = target_type then Some (s, Exact)
      else Option.bind (has_type_definition V candidate_type s) (\<lambda>(s1, known).
        if \<not> known then Some (s1, Unresolvable)
        else map_option (\<lambda>(s2, found). (s2, if found then Inherited else Unrelated))
               (supertype_chain_contains V candidate_type candidate_uri target_type sidecar_budget s1)))"

section \<open>Inherited members\<close>

definition collect_member :: "resolve_env \<Rightarrow> str \<Rightarrow> location collect" where
  "collect_member V name ix class_name class_uri =
     (let members = find_all_names_with_container_in_uri V ix name class_name class_uri
      in if members \<noteq> [] then members
         else if file_has_container_metadata V ix class_uri then []
         else find_name_in_uri V ix name class_uri)"

text \<open>The first location of each start.\<close>

definition location_start :: "location \<Rightarrow> url \<times> position" where
  "location_start l = (loc_uri l, r_start (loc_range l))"

fun dedup_by :: "('a \<Rightarrow> 'b) \<Rightarrow> 'b set \<Rightarrow> 'a list \<Rightarrow> 'a list" where
  "dedup_by key seen [] = []"
| "dedup_by key seen (x # xs) =
     (if key x \<in> seen then dedup_by key seen xs else x # dedup_by key (insert (key x) seen) xs)"

definition resolve_from_class_hierarchy_scoped ::
  "resolve_env \<Rightarrow> str \<Rightarrow> str \<Rightarrow> url \<Rightarrow> url \<Rightarrow> step" where
  "resolve_from_class_hierarchy_scoped V name start_class start_uri origin_uri s =
     map_option (\<lambda>(s1, results). (s1, dedup_by location_start {} results))
       (walk_hierarchy V start_class start_uri (Some origin_uri) 12 MAX_SYNC_JAR_PROMOTIONS_PER_HIERARCHY_WALK
         (collect_member V name) s)"

definition resolve_from_class_hierarchy :: "resolve_env \<Rightarrow> str \<Rightarrow> url \<Rightarrow> step" where
  "resolve_from_class_hierarchy V name from_uri =
     resolve_from_class_hierarchy_scoped V name [] from_uri from_uri"

section \<open>The whole chain\<close>

definition resolve_chain ::
  "resolve_env \<Rightarrow> str \<Rightarrow> url \<Rightarrow> resolve_io \<Rightarrow> bool \<Rightarrow> call_shape option \<Rightarrow> url option \<Rightarrow> step" where
  "resolve_chain V = resolve_chain_with (resolve_from_class_hierarchy V) V"

definition resolve_callee_definition :: "resolve_env \<Rightarrow> str \<Rightarrow> url \<Rightarrow> call_shape \<Rightarrow> step" where
  "resolve_callee_definition V name uri shape = resolve_chain V name uri Full True (Some shape) None"

end
