(* ===== verification/Hierarchy_Props.thy ===== *)
theory Hierarchy_Props
  imports Hierarchy
begin

text \<open>
  What name resolution and the walks over the supertypes guarantee once nothing is left to load:
  every JAR a name could be in is materialized or has failed, and the sources of the platform types
  are indexed. Then resolving does not change the state, and the supertypes form a graph, on which
  \<open>Walk\<close> is interpreted.
\<close>

section \<open>Settled states\<close>

definition jars_decided :: "indexer \<Rightarrow> bool" where
  "jars_decided ix \<longleftrightarrow>
     (\<forall>name. set (postings (ix_jar_bare_names ix) name) \<subseteq> ix_materialized ix \<union> ix_materialization_failed ix)"

definition sdk_loaded :: "resolve_env \<Rightarrow> indexer \<Rightarrow> bool" where
  "sdk_loaded V ix \<longleftrightarrow>
     (\<forall>root sdk p uri. ws_path (ix_workspace_root ix) = Some root \<longrightarrow> sdk \<in> set (rv_sdk_source_roots V root)
        \<longrightarrow> x_url_from_file_path (fe_ext V) (path_join sdk p) = Some uri
        \<longrightarrow> Mapping.lookup (ix_files ix) uri \<noteq> None \<or> fe_read V (path_join sdk p) = None)"

definition settled :: "resolve_env \<Rightarrow> jar_state \<Rightarrow> bool" where
  "settled V s \<longleftrightarrow> jars_decided (fst s) \<and> sdk_loaded V (fst s)"

definition keeps :: "('w \<Rightarrow> ('w \<times> 'r) option) \<Rightarrow> 'w \<Rightarrow> bool" where
  "keeps f w \<longleftrightarrow> (\<exists>r. f w = Some (w, r))"

lemma keepsI: "f w = Some (w, r) \<Longrightarrow> keeps f w"
  by (auto simp: keeps_def)

lemma keepsE: "keeps f w \<Longrightarrow> (\<And>r. f w = Some (w, r) \<Longrightarrow> P) \<Longrightarrow> P"
  by (auto simp: keeps_def)

lemma fold_decided:
  "set cs \<subseteq> ix_materialized (fst s) \<union> ix_materialization_failed (fst s)
   \<Longrightarrow> \<exists>ok'. fold_opt (promote_candidate J X) cs (s, b, ok) = Some (s, b, ok')"
  by (induction cs arbitrary: ok) (auto simp: promote_candidate_def)

lemma ensure_materialized_decided:
  assumes "jars_decided (fst s)"
  shows "\<exists>ok. ensure_jar_materialized_with_budget J X name (s, b) = Some (s, b, ok)"
proof (cases "Mapping.lookup (ix_jar_bare_names (fst s)) name")
  case None
  then have "ensure_jar_materialized_with_budget J X name (s, b) = Some (s, b, False)"
    by (simp add: ensure_jar_materialized_with_budget_def)
  then show ?thesis ..
next
  case (Some cs)
  with assms have "set cs \<subseteq> ix_materialized (fst s) \<union> ix_materialization_failed (fst s)"
    by (auto simp: jars_decided_def postings_def dest!: spec [of _ name])
  with Some fold_decided [of cs s J X b False] show ?thesis
    by (simp add: ensure_jar_materialized_with_budget_def promote_candidates_bounded_def)
qed

lemma ensure_definitions_decided:
  assumes "jars_decided (fst s)"
  shows "\<exists>ok. ensure_jar_definitions_for J X name (s, b) = Some (s, b, ok)"
  using ensure_materialized_decided [OF assms, of J X name b]
    ensure_materialized_decided [OF assms, of J X "last_part (ch CHR ''.'') name" b]
  by (auto simp: ensure_jar_definitions_for_def Let_def)

lemma promote_cached_settled [simp]: "settled V s \<Longrightarrow> promote_cached V name s = Some s"
  using ensure_definitions_decided [of s "rv_jar V" "fe_ext V" name 0]
  by (cases s) (auto simp: promote_cached_def settled_def)

lemma promote_budgeted_settled [simp]: "settled V (fst w) \<Longrightarrow> promote_budgeted V name w = Some w"
  using ensure_definitions_decided [of "fst w" "rv_jar V" "fe_ext V" name "snd w"]
  by (cases w) (auto simp: promote_budgeted_def settled_def)

section \<open>Steps that keep a settled state\<close>

named_theorems kept \<open>steps that leave a settled state as it is\<close>

lemma keeps_reading [kept]: "keeps (reading f) s"
  by (simp add: keeps_def reading_def)

lemma keeps_nothing [kept]: "keeps nothing_found s"
  by (simp add: keeps_def nothing_found_def)

lemma keeps_step_if [kept]: "keeps f s \<Longrightarrow> keeps (step_if b f) s"
  by (simp add: step_if_def keeps_nothing)

lemma keeps_or_else [kept]: "keeps f s \<Longrightarrow> keeps g s \<Longrightarrow> keeps (or_else f g) s"
  by (auto simp: keeps_def or_else_def)

lemma keeps_first_nonempty [kept]: "(\<And>x. x \<in> set xs \<Longrightarrow> keeps (f x) s) \<Longrightarrow> keeps (first_nonempty f xs) s"
proof (induction xs)
  case Nil
  show ?case by (simp add: keeps_def)
next
  case (Cons x xs)
  then have "keeps (f x) s" "keeps (first_nonempty f xs) s" by auto
  then show ?case by (auto simp: keeps_def)
qed

lemma keeps_find_symbol_in_package [kept]: "settled V s \<Longrightarrow> keeps (find_symbol_in_package V name pkg) s"
  by (auto simp: keeps_def find_symbol_in_package_def Let_def split: option.splits)

lemma keeps_resolve_same_package [kept]: "settled V s \<Longrightarrow> keeps (resolve_same_package V name uri) s"
  by (auto simp: keeps_def resolve_same_package_def Let_def split: option.splits)

lemma keeps_resolve_import [kept]: "settled V s \<Longrightarrow> keeps (resolve_import V name fd imp) s"
  by (auto simp: keeps_def resolve_import_def Let_def split: option.splits prod.splits)

lemma keeps_resolve_via_imports [kept]: "settled V s \<Longrightarrow> keeps (resolve_via_imports V name uri fd) s"
proof -
  assume s: "settled V s"
  show ?thesis
  proof (cases "Mapping.lookup (ix_files (fst s)) uri")
    case None
    then show ?thesis by (simp add: keeps_def resolve_via_imports_def)
  next
    case (Some d)
    have "keeps (first_nonempty (resolve_import V name fd)
        (filter (\<lambda>i. \<not> ie_is_star i \<and> ie_local_name i = name) (fd_imports d))) s"
      using s by (intro kept)
    with Some show ?thesis by (simp add: keeps_def resolve_via_imports_def)
  qed
qed

lemma keeps_option_locations [kept]:
  "keeps f s \<Longrightarrow> keeps (\<lambda>s. option_locations (f s)) s"
  by (cases s) (auto simp: keeps_def option_locations_def)

lemma keeps_star_step [kept]: "settled V s \<Longrightarrow> keeps (star_step V rg name uri) s"
proof -
  assume s: "settled V s"
  have "keeps (resolve_star_import V name pkg) s" for pkg
  proof -
    obtain locs where "option_locations (find_symbol_in_package V name pkg s) = Some (s, locs)"
      using keeps_option_locations [OF keeps_find_symbol_in_package [OF s, of name pkg]] by (auto simp: keeps_def)
    moreover obtain root roots m where "rg_scope_for_path V (fst s) None = (root, roots, m)"
      by (metis prod_cases3)
    ultimately show ?thesis by (cases s) (simp add: keeps_def resolve_star_import_def)
  qed
  then have "keeps (resolve_star_imports V name uri) s"
    using keeps_first_nonempty [of "star_import_packages (fst s) uri" "resolve_star_import V name" s]
    by (simp add: keeps_def resolve_star_imports_def)
  moreover have "keeps (find_in_star_imports V name pkgs) s" for pkgs
    unfolding find_in_star_imports_def by (intro kept s)
  ultimately show ?thesis by (auto simp: keeps_def star_step_def)
qed

lemma keeps_global_definitions [kept]: "settled V s \<Longrightarrow> keeps (global_definitions V name f) s"
  by (simp add: keeps_def global_definitions_def lookup_definitions_def)

lemma keeps_platform_step [kept]: "settled V s \<Longrightarrow> keeps (platform_step V name) s"
proof -
  assume s: "settled V s"
  have root: "keeps (resolve_in_sdk_root V fqn sdk) s"
    if "ws_path (ix_workspace_root (fst s)) = Some root" "sdk \<in> set (rv_sdk_source_roots V root)" for fqn sdk root
  proof -
    let ?p = "path_of_str (dots_to_slashes fqn @ lit ''.java'')"
    have "Mapping.lookup (ix_files (fst s)) uri \<noteq> None \<or> fe_read V (path_join sdk ?p) = None"
      if "x_url_from_file_path (fe_ext V) (path_join sdk ?p) = Some uri" for uri
      using s \<open>ws_path (ix_workspace_root (fst s)) = Some root\<close> \<open>sdk \<in> _\<close> that
      by (simp add: settled_def sdk_loaded_def)
    then show ?thesis
      by (cases s) (auto simp: keeps_def resolve_in_sdk_root_def Let_def simp del: lit_Cons split: option.splits)
  qed
  show ?thesis
  proof (cases "ws_path (ix_workspace_root (fst s))")
    case (Some r)
    with root have "keeps (first_nonempty (resolve_in_sdk_root V fqn) (rv_sdk_source_roots V r)) s" for fqn
      by (intro keeps_first_nonempty) auto
    with Some show ?thesis
      by (auto simp: keeps_def platform_step_def resolve_kotlin_builtin_type_platform_equivalent_def
          split: option.splits)
  qed (auto simp: keeps_def platform_step_def resolve_kotlin_builtin_type_platform_equivalent_def
      split: option.splits)
qed

lemma keeps_tail_step [kept]: "settled V s \<Longrightarrow> keeps (tail_step V name uri io origin) s"
  by (cases io) (simp_all add: tail_step_def kept)

text \<open>Without the supertypes and the project-wide search, resolving changes nothing.\<close>

lemma keeps_resolve_chain_with [kept]:
  assumes s: "settled V s" and io: "io \<noteq> Full"
  shows "keeps (resolve_chain_with inherited V name uri io wh shape origin) s"
proof -
  have "keeps (or_else (first_nonempty (\<lambda>f. f) (scope_steps inherited V name uri io wh shape))
      (tail_step V name uri io origin)) s"
    using s io by (intro kept) (auto simp: scope_steps_def Let_def step_if_def intro: kept s)
  with io show ?thesis by (simp add: keeps_def resolve_chain_with_def)
qed

lemma keeps_ambiguity_safe [kept]:
  assumes "settled V (fst w)"
  shows "keeps (resolve_symbol_hierarchy_ambiguity_safe V name uri origin) w"
  using keeps_resolve_chain_with [OF assms, of HierarchyAmbiguitySafe] assms
  by (cases w) (auto simp: keeps_def resolve_symbol_hierarchy_ambiguity_safe_def)

section \<open>The graph of supertypes\<close>

lemma keeps_dotted_supertype: "settled V (fst w) \<Longrightarrow> keeps (dotted_supertype V uri origin name) w"
proof -
  assume w: "settled V (fst w)"
  have "keeps (outermost_type V uri origin segs start) w" for segs start
    using keeps_find_symbol_in_package [OF w] keeps_ambiguity_safe [OF w]
    by (cases w) (auto simp: keeps_def outermost_type_def)
  then have "\<exists>r. outermost_type V uri origin segs start w = Some (w, r)" for segs start
    by (simp add: keeps_def)
  then show ?thesis
    by (cases w) (fastforce simp: keeps_def dotted_supertype_def Let_def split: option.splits)
qed

lemma keeps_supertype_target: "settled V (fst w) \<Longrightarrow> keeps (supertype_target V uri origin name) w"
proof -
  assume w: "settled V (fst w)"
  obtain c where c: "dotted_supertype V uri origin name w = Some (w, c)"
    using keeps_dotted_supertype [OF w, of uri origin name] by (auto simp: keeps_def)
  obtain locs where
    "resolve_symbol_hierarchy_ambiguity_safe V (last_segment name) uri origin w = Some (w, locs)"
    using keeps_ambiguity_safe [OF w, of "last_segment name" uri origin] by (auto simp: keeps_def)
  with c w show ?thesis by (auto simp: keeps_def supertype_target_def Let_def split: option.splits)
qed

lemma keeps_flat_map_walk: "(\<And>x. keeps (f x) w) \<Longrightarrow> keeps (flat_map_walk f xs) w"
proof (induction xs)
  case (Cons x xs)
  then have "keeps (f x) w" "keeps (flat_map_walk f xs) w" by auto
  then show ?case by (auto simp: keeps_def)
qed (simp add: keeps_def)

lemma keeps_supertype_targets: "settled V (fst w) \<Longrightarrow> keeps (supertype_targets V origin n) w"
  using keeps_flat_map_walk [of "supertype_target V uri o1" w for uri o1] keeps_supertype_target [of V w]
  by (cases n) (auto simp: keeps_def supertype_targets_def split: option.splits)

text \<open>The supertypes of a class in a settled state.\<close>

definition supertypes_in :: "resolve_env \<Rightarrow> str \<Rightarrow> walk_state \<Rightarrow> class_id \<Rightarrow> class_id list" where
  "supertypes_in V origin w n =
     (case supertype_targets V origin n w of Some (_, ts) \<Rightarrow> ts | None \<Rightarrow> [])"

lemma supertype_targets_settled:
  "settled V (fst w) \<Longrightarrow> supertype_targets V origin n w = Some (w, supertypes_in V origin w n)"
  using keeps_supertype_targets [of V w origin n] by (auto simp: keeps_def supertypes_in_def)

interpretation hw: settled_walk "supertype_targets V origin" "collect_at collect"
    "\<lambda>w. w = w0 \<and> settled V (fst w0)" "supertypes_in V origin w0" "collect_at collect w0"
  for V origin w0 and collect :: "'a collect"
  by unfold_locales (auto simp: supertype_targets_settled)

end
