(* ===== verification/Resolve_Props.thy ===== *)
theory Resolve_Props
  imports Hierarchy_Props Jar_Cache_Props Index_Props Workspace_Scan "HOL-Library.Multiset"
begin

text \<open>
  The properties of name resolution and of the walks over the supertypes, with a state in which
  they apply.
\<close>

section \<open>An index in which they apply\<close>

text \<open>Class \<open>A\<close> in \<open>/A.kt\<close> extends \<open>B\<close>, in the same file. There are no JARs.\<close>

definition example_file :: file_data where
  "example_file = default_file_data\<lparr>fd_symbols := [example_class ''A'' 0 1, example_class ''B'' 2 3],
     fd_supers := [(0, lit ''B'', [])]\<rparr>"

definition example_resolve_index :: indexer where
  "example_resolve_index = (indexer_new False)
     \<lparr>ix_files := Mapping.update (lit ''/A.kt'') example_file Mapping.empty\<rparr>"

definition example_rg_env :: rg_env where
  "example_rg_env = \<lparr>rg_run = (\<lambda>_. None), rg_canonicalize = (\<lambda>_. None), rg_is_dir = (\<lambda>_. False),
     rg_exists = (\<lambda>_. False), rg_current_dir = None\<rparr>"

definition example_resolve_env :: resolve_env where
  "example_resolve_env = \<lparr>fe_ucd = ascii_ucd, fe_ext = example_externals, fe_read = (\<lambda>_. None),
     rv_jar = example_jar_env [] 3, rv_fs = example_scan_fs [], rv_rg = example_rg_env,
     rv_sdk_source_roots = (\<lambda>_. [])\<rparr>"

abbreviation example_state :: jar_state where
  "example_state \<equiv> (example_resolve_index, \<lparr>jd_file = None, jd_recorded = None, jd_manifest = None\<rparr>)"

lemma example_settled [simp]: "settled example_resolve_env example_state"
  by (simp add: settled_def jars_decided_def sdk_loaded_def example_resolve_index_def indexer_new_def postings_def
      example_resolve_env_def)

lemma local_first:
  "resolve_local (fst s) name uri shape \<noteq> [] \<Longrightarrow> io \<noteq> Full
   \<Longrightarrow> resolve_chain_with inherited V name uri io wh shape origin s = Some (s, resolve_local (fst s) name uri shape)"
  by (simp add: resolve_chain_with_def scope_steps_def or_else_def reading_def Let_def)

lemma example_local:
  "resolve_local example_resolve_index (lit ''B'') (lit ''/A.kt'') None
     = [Location (lit ''/A.kt'') (Rng (Position 2 6) (Position 2 7))]"
  by (simp add: resolve_local_def example_resolve_index_def example_file_def example_class_def
      default_file_data_def symbol_location_def)

lemma example_resolve_B:
  "resolve_symbol_hierarchy_ambiguity_safe example_resolve_env (lit ''B'') (lit ''/A.kt'') origin (example_state, b)
     = Some ((example_state, b), [Location (lit ''/A.kt'') (Rng (Position 2 6) (Position 2 7))])"
  using local_first [of example_state "lit ''B''" "lit ''/A.kt''" None HierarchyAmbiguitySafe]
  by (simp add: resolve_symbol_hierarchy_ambiguity_safe_def example_local del: lit_Cons)

lemma example_supertypes:
  "supertypes_in example_resolve_env origin (example_state, b) (lit ''A'', lit ''/A.kt'') = [(lit ''B'', lit ''/A.kt'')]"
  "supertypes_in example_resolve_env origin (example_state, b) (lit ''B'', lit ''/A.kt'') = []"
proof -
  have f: "file_at example_resolve_env example_resolve_index (lit ''/A.kt'') = Some (lit ''/A.kt'', example_file)"
    by (simp add: file_at_def ensure_file_data_def example_resolve_index_def example_resolve_env_def example_externals_def)
  have supers: "super_names_for_class example_file (lit ''A'') = [lit ''B'']"
      "super_names_for_class example_file (lit ''B'') = []"
    by (simp_all add: super_names_for_class_def example_file_def default_file_data_def example_class_def
        selection_start_def)
  have "supertype_target example_resolve_env (lit ''/A.kt'') o1 (lit ''B'') (example_state, b)
      = Some ((example_state, b), [(lit ''B'', lit ''/A.kt'')])" for o1
    using example_resolve_B [of o1 b]
    by (simp add: supertype_target_def dotted_supertype_def last_segment_def last_part_def)
  then show "supertypes_in example_resolve_env origin (example_state, b) (lit ''A'', lit ''/A.kt'') = [(lit ''B'', lit ''/A.kt'')]"
    using f supers(1) by (simp add: supertypes_in_def supertype_targets_def del: lit_Cons)
  show "supertypes_in example_resolve_env origin (example_state, b) (lit ''B'', lit ''/A.kt'') = []"
    using f supers(2) by (simp add: supertypes_in_def supertype_targets_def del: lit_Cons)
qed

section \<open>Depth first\<close>

text \<open>In a settled state the depth-first walk changes nothing and returns; it collects at each
  ancestor of the class, once, whatever the shape of the hierarchy, cycles included, as soon as its
  depth is the number of classes of the hierarchy.\<close>

lemma walk_hierarchy_complete:
  assumes "settled V s" and "finite R" "(c, u) \<in> R" "card R \<le> max_depth"
    and "\<And>m. m \<in> R \<Longrightarrow> set (supertypes_in V (case caller of Some o1 \<Rightarrow> o1 | None \<Rightarrow> u) (s, budget) m) \<subseteq> R"
  shows "\<exists>ns. walk_hierarchy V c u caller max_depth budget collect s
           = Some (s, concat (map (\<lambda>(name, uri). collect (fst s) name uri) ns))
         \<and> distinct ns
         \<and> set ns = {m. reaches (supertypes_in V (case caller of Some o1 \<Rightarrow> o1 | None \<Rightarrow> u) (s, budget)) (c, u) m} - {(c, u)}"
proof -
  let ?o = "case caller of Some o1 \<Rightarrow> o1 | None \<Rightarrow> u"
  let ?I = "(s, budget) = (s, budget) \<and> settled V (fst (s, budget))"
  have I: ?I using assms(1) by simp
  from hw.walk_from_sound [OF I, of ?o collect max_depth "(c, u)"] obtain k ns where
    k: "walk_from (supertype_targets V ?o) (collect_at collect) max_depth (c, u) (s, budget) = Some k"
       "wk_visited k = insert (c, u) (set ns)" "distinct ns" "(c, u) \<notin> set ns"
       "wk_items k = concat (map (collect_at collect (s, budget)) ns)" by blast
  have v: "wk_visited k = {m. reaches (supertypes_in V ?o (s, budget)) (c, u) m}"
    by (rule hw.walk_from_complete [OF I assms(2,3) _ assms(4) k(1)]) (use assms(5) in auto)
  have "{m. reaches (supertypes_in V ?o (s, budget)) (c, u) m} - {(c, u)} = set ns"
    using v k(2,4) by auto
  moreover have "walk_hierarchy V c u caller max_depth budget collect s
      = Some (s, concat (map (\<lambda>(name, uri). collect (fst s) name uri) ns))"
    using k hw.walk_from_state [OF I k(1)] by (simp add: walk_hierarchy_def collect_at_def split_def)
  ultimately show ?thesis using k(3) by (intro exI [of _ ns]) simp
qed

text \<open>C13 Whether a type is among the supertypes of another is decided exactly, and the state is not
  changed: in a settled state, for a hierarchy of at most twelve classes, the answer is whether the
  graph of supertypes leads from the candidate to a class of that name other than the candidate.\<close>

theorem supertype_chain_contains_iff:
  assumes "settled V s" and "finite R" "(c, u) \<in> R" "card R \<le> 12"
    and "\<And>m. m \<in> R \<Longrightarrow> set (supertypes_in V u (s, budget) m) \<subseteq> R"
  shows "supertype_chain_contains V c u target budget s
    = Some (s, \<exists>f. reaches (supertypes_in V u (s, budget)) (c, u) (target, f) \<and> (target, f) \<noteq> (c, u))"
proof -
  let ?hit = "\<lambda>_ super_name _. if super_name = target then [()] else []"
  from walk_hierarchy_complete [of V s R c u 12 None budget ?hit] assms obtain ns where
    ns: "walk_hierarchy V c u None 12 budget ?hit s
          = Some (s, concat (map (\<lambda>(name, uri). ?hit (fst s) name uri) ns))"
        "set ns = {m. reaches (supertypes_in V u (s, budget)) (c, u) m} - {(c, u)}" by auto
  have "concat (map (\<lambda>(name, uri). ?hit (fst s) name uri) ns) \<noteq> [] \<longleftrightarrow> (\<exists>f. (target, f) \<in> set ns)"
    by (force split: if_splits)
  with ns show ?thesis by (simp add: supertype_chain_contains_def)
qed

lemma example_closed:
  "m \<in> {(lit ''A'', lit ''/A.kt''), (lit ''B'', lit ''/A.kt'')}
   \<Longrightarrow> set (supertypes_in example_resolve_env origin (example_state, b) m)
        \<subseteq> {(lit ''A'', lit ''/A.kt''), (lit ''B'', lit ''/A.kt'')}"
  using example_supertypes [of origin b] by auto

theorem supertype_chain_contains_iff_witness:
  "supertype_chain_contains example_resolve_env (lit ''A'') (lit ''/A.kt'') (lit ''B'') 3 example_state
     = Some (example_state, True)"
proof -
  let ?R = "{(lit ''A'', lit ''/A.kt''), (lit ''B'', lit ''/A.kt'')}"
  let ?G = "supertypes_in example_resolve_env (lit ''/A.kt'') (example_state, 3)"
  have "card ?R \<le> 12" by (simp add: card_insert_if)
  note h = supertype_chain_contains_iff [OF example_settled, of ?R "lit ''A''" "lit ''/A.kt''" 3 "lit ''B''",
      OF _ _ this example_closed]
  have "reaches ?G (lit ''A'', lit ''/A.kt'') (lit ''B'', lit ''/A.kt'')"
    using example_supertypes(1) [of "lit ''/A.kt''" 3] by (intro reaches.step [OF reaches.refl]) simp
  then show ?thesis by (subst h) (auto simp del: lit_Cons simp: lit_def)
qed

section \<open>Breadth first\<close>

text \<open>C14 The breadth-first walk returns what the nearest supertypes give, and only that: in a settled state (every
  JAR that declares a name is materialized or has failed, and every SDK source that could be read is indexed), the
  state does not change, and the result is collected, once each, at all the classes of the smallest distance at
  which anything is collected, and is empty only where no class within the depth gives anything. (Elsewhere a JAR
  that the budget no longer covers can hide a nearer supertype.)\<close>

theorem walk_breadth_first_is_nearest:
  assumes "settled V s"
  shows "\<exists>r. walk_hierarchy_breadth_first V c u caller max_depth budget collect s = Some (s, r)
    \<and> (let G = supertypes_in V (case caller of Some o1 \<Rightarrow> o1 | None \<Rightarrow> u) (s, budget);
           gives = (\<lambda>d. \<exists>m \<in> at_distance G (c, u) d. collect (fst s) (fst m) (snd m) \<noteq> [])
       in if r = [] then \<forall>d. 0 < d \<and> d \<le> max_depth \<longrightarrow> \<not> gives d
          else \<exists>d ns. 0 < d \<and> d \<le> max_depth \<and> (\<forall>e. 0 < e \<and> e < d \<longrightarrow> \<not> gives e)
                 \<and> distinct ns \<and> set ns = at_distance G (c, u) d
                 \<and> r = concat (map (\<lambda>(name, uri). collect (fst s) name uri) ns))"
proof -
  let ?o = "case caller of Some o1 \<Rightarrow> o1 | None \<Rightarrow> u"
  have I: "(s, budget) = (s, budget) \<and> settled V (fst (s, budget))" using assms by simp
  from hw.walk_breadth_first_nearest [OF I, of ?o collect max_depth "(c, u)"] obtain w1 r where
    r: "walk_breadth_first (supertype_targets V ?o) (collect_at collect) max_depth (c, u) (s, budget) = Some (w1, r)"
       "hw.nearest V ?o (s, budget) collect (c, u) max_depth r" by blast
  have w1: "w1 = (s, budget)" using hw.walk_breadth_first_state [OF I r(1)] by simp
  have "walk_hierarchy_breadth_first V c u caller max_depth budget collect s = Some (s, r)"
    using r(1) by (simp add: walk_hierarchy_breadth_first_def w1)
  moreover have "collect_at collect (s, budget) = (\<lambda>(name, uri). collect (fst s) name uri)"
    by (rule ext) (simp add: collect_at_def)
  ultimately show ?thesis
    using r(2) unfolding hw.nearest_def Let_def by (auto simp: split_def split: if_splits)
qed

theorem walk_breadth_first_is_nearest_witness:
  "\<exists>r. walk_hierarchy_breadth_first example_resolve_env (lit ''A'') (lit ''/A.kt'') None 8 3
      (\<lambda>_ name _. [name]) example_state = Some (example_state, r)"
  using walk_breadth_first_is_nearest [OF example_settled, of "lit ''A''" "lit ''/A.kt''" None 8 3 "\<lambda>_ name _. [name]"]
  by blast

section \<open>The depth limit\<close>

text \<open>A hierarchy in which a supertype is declared again.\<close>

definition redundant_supertypes :: "str \<Rightarrow> str list" where
  "redundant_supertypes c =
     (if c = lit ''A'' then [lit ''B'', lit ''X''] else if c = lit ''B'' then [lit ''C'']
      else if c = lit ''C'' then [lit ''D''] else if c = lit ''D'' then [lit ''X'']
      else if c = lit ''X'' then [lit ''Y''] else [])"

text \<open>The depth-first walk can miss a near supertype: one visited set serves all branches, so a class
  first met where the depth is used up is not entered again from a shorter path. Here \<open>A\<close> extends
  \<open>B\<close> and \<open>X\<close>, and \<open>X\<close> extends \<open>Y\<close>; because \<open>X\<close> is also the end of the chain \<open>B\<close>, \<open>C\<close>, \<open>D\<close>,
  a walk of depth 4 does not visit \<open>Y\<close>, though it is two steps away, and the breadth-first walk does.\<close>

theorem depth_first_misses_near_supertype:
  "(let T = \<lambda>c w. Some (w, redundant_supertypes c)
    in lit ''Y'' \<in> within redundant_supertypes 2 (lit ''A'')
       \<and> map_option wk_items (walk_from T (\<lambda>_ c. [c]) 4 (lit ''A'') ())
           = Some [lit ''B'', lit ''C'', lit ''D'', lit ''X'']
       \<and> walk_breadth_first T (\<lambda>_ c. if c = lit ''Y'' then [c] else []) 4 (lit ''A'') () = Some ((), [lit ''Y'']))"
  by (simp add: redundant_supertypes_def walk_from_def walk_breadth_first_def numeral_eq_Suc)

section \<open>The tail\<close>

lemma mset_single: "mset xs = mset ys \<Longrightarrow> length xs = 1 \<Longrightarrow> xs = ys"
  by (metis length_0_conv length_Suc_conv mset_single_iff_right One_nat_def mset.simps(2) mset.simps(1))

lemma mset_filter_cong: "mset xs = mset ys \<Longrightarrow> mset (filter p xs) = mset (filter p ys)"
  by simp

lemma mset_empty: "mset xs = mset ys \<Longrightarrow> xs = [] \<longleftrightarrow> ys = []"
  by (metis mset_zero_iff)

lemma default_kotlin_mset:
  "mset xs = mset ys \<Longrightarrow> mset (default_kotlin_import_tie_break ix u xs) = mset (default_kotlin_import_tie_break ix u ys)"
  using mset_empty [OF mset_filter_cong] by (auto simp: default_kotlin_import_tie_break_def Let_def)

lemma default_kotlin_subset: "set (default_kotlin_import_tie_break ix u xs) \<subseteq> set xs"
  by (auto simp: default_kotlin_import_tie_break_def Let_def split: if_splits)

lemma import_tie_break_mset:
  assumes "mset xs = mset ys"
  shows "import_package_tie_break U ix u xs = import_package_tie_break U ix u ys"
proof -
  have "filter p xs = filter p ys" if "length (filter p xs) = 1" for p
    using that mset_single mset_filter_cong [OF assms] by blast
  moreover have "length (filter p xs) = length (filter p ys)" for p
    using mset_eq_length mset_filter_cong [OF assms] by blast
  ultimately show ?thesis by (auto simp: import_package_tie_break_def Let_def split: option.splits)
qed

lemma after_module_scope_mset:
  assumes "mset xs = mset ys"
  shows "after_module_scope U ix u xs = after_module_scope U ix u ys"
  using default_kotlin_mset [OF assms, of ix u] mset_single [OF default_kotlin_mset [OF assms, of ix u]]
    import_tie_break_mset [OF default_kotlin_mset [OF assms, of ix u], of U ix u]
    mset_eq_length [OF default_kotlin_mset [OF assms, of ix u]]
  by (auto simp: after_module_scope_def Let_def)

lemma one_or_none: "length xs \<le> 1 \<Longrightarrow> set xs \<subseteq> A \<Longrightarrow> xs = [] \<or> (\<exists>x \<in> A. xs = [x])"
  by (cases xs) auto

lemma after_module_scope_one: "length (after_module_scope U ix u xs) \<le> 1 \<and> set (after_module_scope U ix u xs) \<subseteq> set xs"
  using default_kotlin_subset [of ix u xs]
  by (auto simp: after_module_scope_def import_package_tie_break_def Let_def split: option.splits if_splits)

lemma module_scoped_mset:
  assumes "mset xs = mset ys"
  shows "case (module_scoped_tie_break X ix u xs, module_scoped_tie_break X ix u ys) of
      (Narrowed a, Narrowed b) \<Rightarrow> mset a = mset b \<and> set a \<subseteq> set xs
    | (NoData, NoData) \<Rightarrow> True | (NoDependenciesSurvived, NoDependenciesSurvived) \<Rightarrow> True | _ \<Rightarrow> False"
  using mset_empty [OF mset_filter_cong [OF assms]] mset_filter_cong [OF assms]
  by (auto simp: module_scoped_tie_break_def Let_def split: option.splits)

text \<open>C15 Where the index-only and the hierarchy policy come to several global definitions of a name, the
  ambiguity-safe tail picks one or none: its result is empty or one of the candidates, and it is the same whatever
  order the definitions come in, so here the order in which files and JARs were loaded does not decide. (This is
  said of the tail alone: the policy without ripgrep takes the first global definition, and the earlier steps of the
  chain take first matches.)\<close>

theorem ambiguity_safe_tail_deterministic:
  assumes "mset locs' = mset locs"
  shows "ambiguity_safe_tail_with_denylist V ix origin_uri locs'
           = ambiguity_safe_tail_with_denylist V ix origin_uri locs
       \<and> (ambiguity_safe_tail_with_denylist V ix origin_uri locs = []
          \<or> (\<exists>l \<in> set locs. ambiguity_safe_tail_with_denylist V ix origin_uri locs = [l]))"
proof
  let ?f = "filter (\<lambda>l. \<not> is_denylisted_package_prefix ix l)"
  let ?m = "module_scoped_tie_break (fe_ext V) ix origin_uri"
  have f: "mset (?f locs') = mset (?f locs)" using assms by simp
  have len: "length locs' = length locs" "length (?f locs') = length (?f locs)"
    using assms f mset_eq_length by blast+
  have m: "(case (?m (?f locs'), ?m (?f locs)) of
      (Narrowed a, Narrowed b) \<Rightarrow> mset a = mset b \<and> set a \<subseteq> set (?f locs')
    | (NoData, NoData) \<Rightarrow> True | (NoDependenciesSurvived, NoDependenciesSurvived) \<Rightarrow> True | _ \<Rightarrow> False)"
    by (rule module_scoped_mset [OF f])
  have "(case ?m (?f locs') of Narrowed narrowed \<Rightarrow>
            if length narrowed = 1 then narrowed else after_module_scope (fe_ucd V) ix origin_uri narrowed
          | _ \<Rightarrow> after_module_scope (fe_ucd V) ix origin_uri (?f locs'))
      = (case ?m (?f locs) of Narrowed narrowed \<Rightarrow>
            if length narrowed = 1 then narrowed else after_module_scope (fe_ucd V) ix origin_uri narrowed
          | _ \<Rightarrow> after_module_scope (fe_ucd V) ix origin_uri (?f locs))"
    using m after_module_scope_mset [OF f, of "fe_ucd V" ix origin_uri]
    by (auto split: module_scoped_outcome.splits dest: mset_single mset_eq_length after_module_scope_mset)
  with len mset_single [OF assms] mset_single [OF f] mset_empty [OF assms]
  show "ambiguity_safe_tail_with_denylist V ix origin_uri locs'
      = ambiguity_safe_tail_with_denylist V ix origin_uri locs"
    by (auto simp: ambiguity_safe_tail_with_denylist_def Let_def)
  have sub: "case ?m (?f locs) of Narrowed a \<Rightarrow> set a \<subseteq> set locs | _ \<Rightarrow> True"
    using module_scoped_mset [of "?f locs" "?f locs" "fe_ext V" ix origin_uri]
    by (auto split: module_scoped_outcome.splits)
  show "ambiguity_safe_tail_with_denylist V ix origin_uri locs = []
      \<or> (\<exists>l \<in> set locs. ambiguity_safe_tail_with_denylist V ix origin_uri locs = [l])"
  proof (rule one_or_none)
    show "length (ambiguity_safe_tail_with_denylist V ix origin_uri locs) \<le> 1"
      using after_module_scope_one [of "fe_ucd V" ix origin_uri]
      by (auto simp: ambiguity_safe_tail_with_denylist_def Let_def split: module_scoped_outcome.splits)
    show "set (ambiguity_safe_tail_with_denylist V ix origin_uri locs) \<subseteq> set locs"
      using sub after_module_scope_one [of "fe_ucd V" ix origin_uri]
      by (fastforce simp: ambiguity_safe_tail_with_denylist_def Let_def split: module_scoped_outcome.splits if_splits)
  qed
qed

text \<open>Two definitions, one of them in a package of the platform's internals.\<close>

definition example_tail_index :: indexer where
  "example_tail_index = example_resolve_index\<lparr>ix_files := Mapping.update (lit ''/I.java'')
     (default_file_data\<lparr>fd_package := Some (lit ''com.android.internal.os'')\<rparr>) (ix_files example_resolve_index)\<rparr>"

theorem ambiguity_safe_tail_deterministic_witness:
  "\<exists>l m. l \<noteq> m
     \<and> ambiguity_safe_tail_with_denylist example_resolve_env example_tail_index (lit ''/C.kt'') [m, l]
        = ambiguity_safe_tail_with_denylist example_resolve_env example_tail_index (lit ''/C.kt'') [l, m]
     \<and> ambiguity_safe_tail_with_denylist example_resolve_env example_tail_index (lit ''/C.kt'') [l, m] = [l]"
proof -
  let ?r = "Rng (Position 0 6) (Position 0 7)"
  let ?l = "Location (lit ''/A.kt'') ?r" and ?m = "Location (lit ''/I.java'') ?r"
  have p: "location_package example_tail_index ?l = None"
      "location_package example_tail_index ?m = Some (lit ''com.android.internal.os'')"
    by (simp_all add: location_package_def jar_symbol_package_def file_package_def example_tail_index_def
        example_resolve_index_def indexer_new_def example_file_def default_file_data_def)
  have "\<not> is_denylisted_package_prefix example_tail_index ?l" "is_denylisted_package_prefix example_tail_index ?m"
    using p by (simp_all add: is_denylisted_package_prefix_def DENYLISTED_PACKAGE_PREFIXES_def starts_with_def)
  then have "ambiguity_safe_tail_with_denylist example_resolve_env example_tail_index (lit ''/C.kt'') [?l, ?m] = [?l]"
    by (simp add: ambiguity_safe_tail_with_denylist_def)
  moreover have "mset [?m, ?l] = mset [?l, ?m]" by simp
  ultimately show ?thesis
    using ambiguity_safe_tail_deterministic [of "[?m, ?l]" "[?l, ?m]" example_resolve_env example_tail_index "lit ''/C.kt''"]
    by (intro exI [of _ ?l] exI [of _ ?m]) simp
qed

section \<open>Aliased imports\<close>

text \<open>The search on disk for an imported name looks for the name the importing file uses. Where no file
  declares that name, as for an alias, nothing is found, whatever the imported file declares.\<close>

theorem alias_not_found_on_disk:
  assumes "\<And>path content s. s \<in> set (fd_symbols (parse_by_extension (fe_ext V) path content)) \<Longrightarrow> se_name s \<noteq> alias_name"
  shows "fd_find_and_parse V alias_name full_import_path root matcher = []"
proof -
  have "find (\<lambda>s. se_name s = alias_name) (fd_symbols (parse_by_extension (fe_ext V) path content)) = None"
    for path content using assms by (auto simp: find_None_iff)
  then have "fd_hit V alias_name p = None" for p
    by (auto simp: fd_hit_def Let_def split: option.splits)
  then have hit: "fd_hit V alias_name = (\<lambda>_. None)" by blast
  have "parse_fd_hits V out alias_name pkg = []" for out pkg
    by (simp add: parse_fd_hits_def hit List.map_filter_def Let_def split: option.splits)
  then have "fd_search_by_full_path_pattern V pat alias_name pkg r = []" "fd_search_file V f alias_name pkg r' = []"
    for pat pkg r f r'
    by (simp_all add: fd_search_by_full_path_pattern_def fd_search_file_def split: option.splits)
  then have "locs = []" if "locs \<in> set (fd_find_stem V alias_name pkg root matcher stem)" for pkg stem locs
    using that by (auto simp: fd_find_stem_def not_ignored_def filter_locs_def Let_def split: option.splits if_splits)
  then have "find (\<lambda>locs. locs \<noteq> []) (concat (map (fd_find_stem V alias_name pkg root matcher) stems)) = None" for pkg stems
    by (fastforce simp: find_None_iff)
  then show ?thesis by (simp add: fd_find_and_parse_def Let_def)
qed

section \<open>In memory\<close>

lemma unsearched_fields:
  "fe_ucd (V\<lparr>rv_fs := F, rv_rg := R\<rparr>) = fe_ucd V" "fe_ext (V\<lparr>rv_fs := F, rv_rg := R\<rparr>) = fe_ext V"
  by simp_all

lemma promote_cached_unsearched: "promote_cached (V\<lparr>rv_fs := F, rv_rg := R\<rparr>) = promote_cached V"
  by (intro ext) (simp cong: option.case_cong if_cong add: promote_cached_def)

lemma find_symbol_unsearched: "find_symbol_in_package (V\<lparr>rv_fs := F, rv_rg := R\<rparr>) = find_symbol_in_package V"
  by (intro ext) (simp cong: option.case_cong if_cong add: find_symbol_in_package_def promote_cached_unsearched)

lemma resolve_same_package_unsearched:
  "resolve_same_package (V\<lparr>rv_fs := F, rv_rg := R\<rparr>) = resolve_same_package V"
  by (intro ext) (simp cong: option.case_cong if_cong add: resolve_same_package_def promote_cached_unsearched)

lemma resolve_import_unsearched:
  "resolve_import (V\<lparr>rv_fs := F, rv_rg := R\<rparr>) name False = resolve_import V name False"
  by (intro ext) (simp cong: option.case_cong if_cong add: resolve_import_def promote_cached_unsearched Let_def split_def)

lemma resolve_via_imports_unsearched:
  "resolve_via_imports (V\<lparr>rv_fs := F, rv_rg := R\<rparr>) name uri False = resolve_via_imports V name uri False"
  by (intro ext) (simp cong: option.case_cong if_cong add: resolve_via_imports_def resolve_import_unsearched)

lemma star_step_unsearched:
  "star_step (V\<lparr>rv_fs := F, rv_rg := R\<rparr>) False = star_step V False"
  by (intro ext) (simp cong: option.case_cong if_cong add: star_step_def find_in_star_imports_def find_symbol_unsearched)

lemma platform_unsearched: "platform_step (V\<lparr>rv_fs := F, rv_rg := R\<rparr>) = platform_step V"
proof -
  have "find_name_in_uri (V\<lparr>rv_fs := F, rv_rg := R\<rparr>) = find_name_in_uri V"
    by (intro ext) (simp cong: option.case_cong if_cong add: find_name_in_uri_def file_at_def ensure_file_data_def)
  then have "resolve_in_sdk_root (V\<lparr>rv_fs := F, rv_rg := R\<rparr>) = resolve_in_sdk_root V"
    by (intro ext) (simp cong: option.case_cong if_cong add: resolve_in_sdk_root_def)
  then show ?thesis
    by (intro ext) (simp cong: option.case_cong if_cong add: platform_step_def resolve_kotlin_builtin_type_platform_equivalent_def)
qed

lemma tail_step_unsearched:
  "tail_step (V\<lparr>rv_fs := F, rv_rg := R\<rparr>) name uri io origin = tail_step V name uri io origin"
proof -
  have "ambiguity_safe_tail_with_denylist (V\<lparr>rv_fs := F, rv_rg := R\<rparr>) = ambiguity_safe_tail_with_denylist V"
    by (intro ext) (simp only: ambiguity_safe_tail_with_denylist_def unsearched_fields)
  moreover have "global_definitions (V\<lparr>rv_fs := F, rv_rg := R\<rparr>) = global_definitions V"
    by (intro ext) (simp cong: option.case_cong if_cong add: global_definitions_def lookup_definitions_def promote_cached_unsearched)
  ultimately show ?thesis by (cases io) (simp_all add: tail_step_def platform_unsearched)
qed

text \<open>C16 The chain that resolves a bare name runs no search program under the policy of the keystroke path:
  replacing everything \<open>fd\<close>, ripgrep and the directory walks could answer changes neither what an \<open>IndexOnly\<close>
  resolution of the chain returns nor the state it leaves, with or without inherited members, call shape and origin.
  (A name with a value as qualifier is another matter: the look-up of the value's type does not heed the policy.)\<close>

theorem index_only_runs_no_search:
  "resolve_chain (V\<lparr>rv_fs := F, rv_rg := R\<rparr>) name uri IndexOnly with_hierarchy shape origin s
     = resolve_chain V name uri IndexOnly with_hierarchy shape origin s"
  by (simp cong: if_cong add: resolve_chain_def resolve_chain_with_def scope_steps_def step_if_def Let_def
      resolve_via_imports_unsearched star_step_unsearched resolve_same_package_unsearched
      tail_step_unsearched)

end
