(* ===== verification/Detail_Text.thy ===== *)
theory Detail_Text
  imports Str_Ext Types
begin

text \<open>
  The declared type in the text of a declaration: \<^verbatim>\<open>src/detail_text.rs\<close>, and what
  \<^verbatim>\<open>src/rg.rs\<close> adds for Java methods and for matching a type with a class.

  A type name here is what precedes the first of the characters that end it, with its type
  arguments; a depth counts open angle brackets.
\<close>

section \<open>Types\<close>

definition ends_type :: "rchar \<Rightarrow> bool" where
  "ends_type c \<longleftrightarrow> c \<in> {ch CHR ''?'', ch CHR '' '', ch CHR ''='', ch CHR '','', ch CHR '')'', 10}"

fun type_from :: "nat \<Rightarrow> str \<Rightarrow> str" where
  "type_from depth [] = []"
| "type_from depth (c # s) =
     (if c = ch CHR ''<'' then c # type_from (Suc depth) s
      else if c = ch CHR ''>'' then
        (case depth of 0 \<Rightarrow> [] | Suc 0 \<Rightarrow> [c] | Suc (Suc d) \<Rightarrow> c # type_from (Suc d) s)
      else if depth = 0 \<and> ends_type c then []
      else c # type_from depth s)"

definition extract_type_with_generics :: "str \<Rightarrow> str" where
  "extract_type_with_generics s = type_from 0 s"

text \<open>The place of the first \<open>p\<close> outside angle brackets; the depth may fall below zero.\<close>

fun find_outside :: "(rchar \<Rightarrow> bool) \<Rightarrow> int \<Rightarrow> str \<Rightarrow> nat option" where
  "find_outside p depth [] = None"
| "find_outside p depth (c # s) =
     (if c = ch CHR ''<'' then map_option Suc (find_outside p (depth + 1) s)
      else if c = ch CHR ''>'' then map_option Suc (find_outside p (depth - 1) s)
      else if depth = 0 \<and> p c then Some 0
      else map_option Suc (find_outside p depth s))"

definition first_type_arg :: "str \<Rightarrow> str" where
  "first_type_arg s = (case find_outside (\<lambda>c. c = ch CHR '','') 0 s of None \<Rightarrow> s | Some i \<Rightarrow> take i s)"

definition kotlin_primitive_type_name :: "str \<Rightarrow> str option" where
  "kotlin_primitive_type_name = map_of (map (\<lambda>(a, b). (lit a, lit b))
     [(''int'', ''Int''), (''boolean'', ''Boolean''), (''long'', ''Long''), (''float'', ''Float''),
      (''double'', ''Double''), (''byte'', ''Byte''), (''short'', ''Short''), (''char'', ''Char''),
      (''void'', ''Unit'')])"

text \<open>The first of the prefixes the text has is removed.\<close>

fun strip_first :: "str list \<Rightarrow> str \<Rightarrow> str option" where
  "strip_first [] s = None"
| "strip_first (p # ps) s = (case strip_prefix s p of Some r \<Rightarrow> Some r | None \<Rightarrow> strip_first ps s)"

definition extract_property_type_from_detail :: "ucd \<Rightarrow> str \<Rightarrow> str option" where
  "extract_property_type_from_detail U detail =
     (let after_vis = (case strip_first [lit ''public '', lit ''internal '', lit ''protected '', lit ''private ''] detail of
                         Some r \<Rightarrow> r | None \<Rightarrow> detail)
      in Option.bind (strip_first [lit ''val '', lit ''var ''] after_vis) (\<lambda>after_kw.
         Option.bind (find_outside (\<lambda>c. c = ch CHR '':'') 0 after_kw) (\<lambda>colon_pos.
           let type_name = extract_type_with_generics (trim_start (drop (Suc colon_pos) after_kw))
           in case kotlin_primitive_type_name type_name of
                Some primitive \<Rightarrow> Some primitive
              | None \<Rightarrow> if starts_with_uppercase U type_name then Some type_name else None)))"

section \<open>Return types\<close>

record declared_return_text =
  dr_type_name :: str
  dr_nullable :: bool

definition declared_type_after :: "ucd \<Rightarrow> str \<Rightarrow> declared_return_text option" where
  "declared_type_after U s =
     (case strip_prefix (trim_start s) (lit '':'') of
        None \<Rightarrow> None
      | Some r \<Rightarrow>
          let type_part = trim_start r;
              type_name = extract_type_with_generics type_part;
              type_path = dotted_ident_prefix U type_name
          in if type_path \<noteq> [] \<and> starts_with_uppercase U (last_segment type_path)
             then Some \<lparr>dr_type_name = type_name,
                        dr_nullable = starts_with (drop (length type_name) type_part) (lit ''?'')\<rparr>
             else None)"

text \<open>The closing parentheses are tried from the last one: \<open>before\<close> is the text up to here, reversed.\<close>

fun declared_return_before :: "ucd \<Rightarrow> str \<Rightarrow> str \<Rightarrow> declared_return_text option" where
  "declared_return_before U [] after = None"
| "declared_return_before U (c # before) after =
     (case (if c = ch CHR '')'' then declared_type_after U after else None) of
        Some d \<Rightarrow> Some d
      | None \<Rightarrow> declared_return_before U before (c # after))"

definition ELLIPSIS :: rchar where "ELLIPSIS = 8230"

definition declared_return_in_detail :: "ucd \<Rightarrow> str \<Rightarrow> declared_return_text option" where
  "declared_return_in_detail U detail =
     (if ELLIPSIS \<in> set detail then None else declared_return_before U (rev detail) [])"

definition extract_return_type_from_detail :: "ucd \<Rightarrow> str \<Rightarrow> str option" where
  "extract_return_type_from_detail U detail = map_option dr_type_name (declared_return_in_detail U detail)"

datatype return_nullability = NonNull | Nullable | UnknownNullability

definition extract_return_nullability_from_detail :: "ucd \<Rightarrow> str \<Rightarrow> return_nullability" where
  "extract_return_nullability_from_detail U detail =
     (case declared_return_in_detail U detail of
        Some d \<Rightarrow> if dr_nullable d then Nullable else NonNull
      | None \<Rightarrow> UnknownNullability)"

section \<open>Collections\<close>

definition COLLECTION_TYPES :: "str list" where
  "COLLECTION_TYPES = map lit
     [''List'', ''MutableList'', ''ArrayList'', ''ImmutableList'', ''PersistentList'', ''ImmutableSet'',
      ''PersistentSet'', ''ImmutableCollection'', ''PersistentCollection'', ''Set'', ''MutableSet'',
      ''HashSet'', ''LinkedHashSet'', ''Collection'', ''MutableCollection'', ''Iterable'',
      ''MutableIterable'', ''Sequence'', ''Flow'', ''StateFlow'', ''SharedFlow'', ''Channel'',
      ''SendChannel'', ''ReceiveChannel'', ''Array'']"

definition is_collection_constructor :: "str \<Rightarrow> bool" where
  "is_collection_constructor type_name \<longleftrightarrow> last_segment type_name \<in> set COLLECTION_TYPES"

definition trim_question_marks :: "str \<Rightarrow> str" where
  "trim_question_marks s = trim_end_matches (\<lambda>c. c = ch CHR ''?'') (dropWhile (\<lambda>c. c = ch CHR ''?'') s)"

definition extract_collection_element_type :: "ucd \<Rightarrow> str \<Rightarrow> str option" where
  "extract_collection_element_type U raw_type =
     (if ident_prefix U raw_type \<notin> set COLLECTION_TYPES then None
      else (case (find_char (\<lambda>c. c = ch CHR ''<'') raw_type, rfind_char (\<lambda>c. c = ch CHR ''>'') raw_type) of
              (Some op, Some cl) \<Rightarrow>
                if cl \<le> op then None
                else (let inner = drop (Suc op) (take cl raw_type);
                          first = trim_question_marks (trim (first_type_arg inner));
                          prefix = trim_end_matches (\<lambda>c. c = ch CHR ''.'') (dotted_ident_prefix U first)
                      in if prefix = [] \<or> \<not> starts_with_uppercase U (hd (split_on (ch CHR ''.'') prefix))
                         then None else Some first)
            | _ \<Rightarrow> None))"

section \<open>Java and the owners of types\<close>

text \<open>Scanning back over the text before a closing parenthesis, for the one that opens it; \<open>s\<close> is
  reversed and the depth counts from one. The result is a length of the text.\<close>

fun open_backward :: "nat \<Rightarrow> str \<Rightarrow> nat option" where
  "open_backward depth [] = None"
| "open_backward depth (c # s) =
     (if c = ch CHR '')'' then open_backward (Suc depth) s
      else if c = ch CHR ''('' then
        (if depth \<le> 1 then Some (length s) else open_backward (depth - 1) s)
      else open_backward depth s)"

definition balanced_paren_open_backward :: "str \<Rightarrow> nat option" where
  "balanced_paren_open_backward s = open_backward 1 (rev s)"

text \<open>The type token at the end of a text: \<open>s\<close> is the text reversed.\<close>

fun type_token_back :: "int \<Rightarrow> str \<Rightarrow> str \<Rightarrow> str" where
  "type_token_back depth [] token = token"
| "type_token_back depth (c # s) token =
     (if c = ch CHR ''>'' then type_token_back (depth + 1) s (c # token)
      else if c = ch CHR ''<'' then type_token_back (depth - 1) s (c # token)
      else if depth = 0 \<and> is_whitespace c then token
      else type_token_back depth s (c # token))"

definition rtake_type_token :: "str \<Rightarrow> str" where
  "rtake_type_token s = trim (type_token_back 0 (rev s) [])"

text \<open>The source cuts one byte behind the white space, which is where this cuts as long as that is ASCII;
  behind a wider white space character it panics.\<close>

definition java_method_return_type :: "str \<Rightarrow> str option" where
  "java_method_return_type detail =
     (let trimmed = trim_end (trim_end_matches (\<lambda>c. c = ch CHR '';'') (trim_end detail))
      in Option.bind (rfind_char (\<lambda>c. c = ch CHR '')'') trimmed) (\<lambda>close_paren.
         Option.bind (balanced_paren_open_backward (take close_paren trimmed)) (\<lambda>paren_open.
           let head = trim_end (take paren_open trimmed)
           in Option.bind (rfind_char is_whitespace head) (\<lambda>space.
                let before_name = trim_end (take (Suc space) head)
                in if before_name \<noteq> [] then Some (rtake_type_token before_name) else None))))"

definition declared_type_from_detail :: "ucd \<Rightarrow> str \<Rightarrow> symbol_kind \<Rightarrow> str option" where
  "declared_type_from_detail U detail kind =
     (if kind = SK_FUNCTION then extract_return_type_from_detail U detail
      else if kind \<in> {SK_PROPERTY, SK_VARIABLE} then
        Option.bind (case find_sub detail (lit ''val '') of
                       Some i \<Rightarrow> Some i | None \<Rightarrow> find_sub detail (lit ''var ''))
          (\<lambda>property_start. extract_property_type_from_detail U (drop property_start detail))
      else if kind = SK_METHOD then
        (if starts_with detail (lit ''fun '') \<or> contains_sub detail (lit '' fun '')
         then extract_return_type_from_detail U detail
         else java_method_return_type detail)
      else None)"

text \<open>The lines are joined until the text is long enough.\<close>

definition MAX_FALLBACK_CHARS :: nat where "MAX_FALLBACK_CHARS = 2000"

fun join_lines :: "str \<Rightarrow> str list \<Rightarrow> str" where
  "join_lines joined [] = joined"
| "join_lines joined (l # ls) =
     (let joined' = (if joined \<noteq> [] then joined @ lit '' '' else joined) @ trim l
      in if length joined' \<ge> MAX_FALLBACK_CHARS then joined' else join_lines joined' ls)"

definition declared_type_from_raw_lines :: "ucd \<Rightarrow> str list \<Rightarrow> lsp_range \<Rightarrow> symbol_kind \<Rightarrow> str option" where
  "declared_type_from_raw_lines U file_lines r kind =
     (let start = pos_line (r_start r); stop = min (pos_line (r_end r) + 1) (length file_lines)
      in if start > stop then None
         else declared_type_from_detail U (join_lines [] (take (stop - start) (drop start file_lines))) kind)"

definition type_annotation_matches_owner :: "str \<Rightarrow> str \<Rightarrow> bool" where
  "type_annotation_matches_owner type_text owner_class =
     (let trimmed = trim_end_matches (\<lambda>c. c = ch CHR ''?'') (trim type_text)
      in if trimmed = owner_class then True
         else (case (find_char (\<lambda>c. c = ch CHR ''<'') trimmed, ends_with trimmed (lit ''>'')) of
                 (Some op, True) \<Rightarrow>
                   trim_end_matches (\<lambda>c. c = ch CHR ''?'') (trim (drop (Suc op) (butlast trimmed))) = owner_class
               | _ \<Rightarrow>
                   ch CHR ''.'' \<in> set trimmed
                   \<and> (hd (split_on (ch CHR ''.'') trimmed) = owner_class \<or> last_part (ch CHR ''.'') trimmed = owner_class)))"

definition is_unusable_producer_name :: "str \<Rightarrow> bool" where
  "is_unusable_producer_name name \<longleftrightarrow> name \<in> set (map lit [''copy'', ''values'', ''valueOf'', ''entries''])"

section \<open>Printed types are read back\<close>

text \<open>Types as they are written: a dotted name with type arguments.\<close>

datatype ktype = KType str "ktype list"

fun type_str :: "ktype \<Rightarrow> str" where
  "type_str (KType name args) =
     name @ (if args = [] then [] else ch CHR ''<'' # join (lit '', '') (map type_str args) @ [ch CHR ''>''])"

definition type_name_char :: "ucd \<Rightarrow> rchar \<Rightarrow> bool" where
  "type_name_char U c \<longleftrightarrow> (is_id_char U c \<or> c = ch CHR ''.'') \<and> \<not> is_whitespace c"

fun wf_type :: "ucd \<Rightarrow> ktype \<Rightarrow> bool" where
  "wf_type U (KType name args) \<longleftrightarrow>
     name \<noteq> [] \<and> list_all (type_name_char U) name \<and> list_all (wf_type U) args"

lemma type_name_char_plain:
  "type_name_char U c \<Longrightarrow> c \<noteq> 60 \<and> c \<noteq> 62 \<and> c \<noteq> 41 \<and> \<not> ends_type c \<and> \<not> is_whitespace c"
  by (auto simp: type_name_char_def ends_type_def is_id_char_def ascii_class_defs is_whitespace_def)

lemma type_from_plain:
  "\<forall>c \<in> set n. c \<noteq> 60 \<and> c \<noteq> 62 \<Longrightarrow> type_from (Suc d) (n @ s) = n @ type_from (Suc d) s"
  by (induction n) auto

lemma type_from_name:
  "\<forall>c \<in> set n. c \<noteq> 60 \<and> c \<noteq> 62 \<and> \<not> ends_type c \<Longrightarrow> type_from 0 (n @ s) = n @ type_from 0 s"
  by (induction n) auto

lemma type_from_inside:
  "wf_type U t \<Longrightarrow> type_from (Suc d) (type_str t @ s) = type_str t @ type_from (Suc d) s"
proof (induction t arbitrary: d s)
  case (KType name args)
  have name: "type_from (Suc d) (name @ r) = name @ type_from (Suc d) r" for r d
    using KType.prems type_name_char_plain by (intro type_from_plain) (auto simp: list_all_iff)
  have args: "type_from (Suc e) (join (lit '', '') (map type_str as) @ r)
      = join (lit '', '') (map type_str as) @ type_from (Suc e) r" if "set as \<subseteq> set args" for as e r
    using that
  proof (induction as arbitrary: r)
    case Nil
    show ?case by simp
  next
    case (Cons a as)
    then have a: "type_from (Suc e) (type_str a @ r) = type_str a @ type_from (Suc e) r" for r
      using KType by (auto simp: list_all_iff)
    have sep: "type_from (Suc e) (44 # 32 # r) = 44 # 32 # type_from (Suc e) r" for r by simp
    show ?case using Cons by (cases as) (simp_all add: a sep)
  qed
  show ?case
  proof (cases "args = []")
    case True
    then show ?thesis by (simp add: name)
  next
    case False
    with args [of args "Suc d"] show ?thesis by (simp add: name)
  qed
qed

text \<open>At the outermost level the type ends where its arguments do, or at a character that ends a name.\<close>

lemma extract_type_str:
  assumes wf: "wf_type U (KType name args)" and rest: "args \<noteq> [] \<or> rest = [] \<or> ends_type (hd rest)"
  shows "extract_type_with_generics (type_str (KType name args) @ rest) = type_str (KType name args)"
proof -
  have name: "type_from 0 (name @ r) = name @ type_from 0 r" for r
    using wf type_name_char_plain by (intro type_from_name) (auto simp: list_all_iff)
  have ends: "type_from 0 rest = []" if "args = []"
    using rest that by (cases rest) (auto simp: ends_type_def)
  have inside: "type_from (Suc 0) (join (lit '', '') (map type_str as) @ 62 # r)
      = join (lit '', '') (map type_str as) @ [62]" if "set as \<subseteq> set args" for as r
    using that
  proof (induction as)
    case Nil
    show ?case by simp
  next
    case (Cons a as)
    then have a: "type_from (Suc 0) (type_str a @ r) = type_str a @ type_from (Suc 0) r" for r
      using wf by (intro type_from_inside [of U]) (auto simp: list_all_iff)
    show ?case using Cons by (cases as) (simp_all add: a)
  qed
  show ?thesis
    using inside [of args] ends by (auto simp: extract_type_with_generics_def name)
qed

lemma declared_return_skip:
  "ch CHR '')'' \<notin> set w \<Longrightarrow> declared_return_before U (rev w @ b) a = declared_return_before U b (w @ a)"
  by (induction w arbitrary: b a rule: rev_induct) auto

lemma takeWhile_end: "\<forall>c \<in> set n. p c \<Longrightarrow> r = [] \<or> \<not> p (hd r) \<Longrightarrow> takeWhile p (n @ r) = n"
  by (cases r) (auto simp: takeWhile_append2)

lemma type_str_no_paren: "wf_type U t \<Longrightarrow> ch CHR '')'' \<notin> set (type_str t)"
proof (induction t)
  case (KType name args)
  have "41 \<notin> set (join (lit '', '') (map type_str as))" if "set as \<subseteq> set args" for as
    using that
  proof (induction as)
    case (Cons a as)
    then have "41 \<notin> set (type_str a)" using KType by (auto simp: list_all_iff)
    with Cons show ?case by (cases as) simp_all
  qed simp
  then have args: "41 \<notin> set (join (lit '', '') (map type_str args))" by blast
  have "c \<noteq> 41" if "c \<in> set name" for c
    using KType.prems type_name_char_plain [of U c] that by (simp add: list_all_iff)
  then have "41 \<notin> set name" by blast
  with args show ?case by simp
qed

text \<open>C32 The return type of a declaration is read back from its text. The type is a name or dotted
  path whose last segment starts with an uppercase letter, with type arguments of the same shape nested
  to any depth; it is returned in full, and counts as nullable exactly if a question mark follows it.
  Before the closing parenthesis of the parameters may stand any text without an ellipsis, default
  values with parentheses included. Behind the type the text ends, or goes on with a question mark, a
  space, a newline, a comma or an equals sign and holds neither a closing parenthesis nor an ellipsis. (A brace right behind the type would
  be taken for a part of it, and a text with an ellipsis is refused.)\<close>

theorem return_type_read_back:
  assumes wf: "wf_type U (KType name args)" and up: "starts_with_uppercase U (last_segment name)"
    and rest: "rest = [] \<or> ends_type (hd rest)" "ch CHR '')'' \<notin> set rest"
    and full: "ELLIPSIS \<notin> set (pre @ lit ''): '' @ type_str (KType name args) @ rest)"
  shows "declared_return_in_detail U (pre @ lit ''): '' @ type_str (KType name args) @ rest)
    = Some \<lparr>dr_type_name = type_str (KType name args), dr_nullable = starts_with rest (lit ''?'')\<rparr>"
proof -
  let ?t = "type_str (KType name args)"
  have chars: "type_name_char U c" if "c \<in> set name" for c using wf that by (simp add: list_all_iff)
  have t: "extract_type_with_generics (?t @ rest) = ?t"
    using rest(1) by (intro extract_type_str [OF wf]) (auto simp: ends_type_def)
  have path: "dotted_ident_prefix U ?t = name"
    unfolding dotted_ident_prefix_def type_str.simps
    by (rule takeWhile_end) (use chars in \<open>auto simp: type_name_char_def is_id_char_def ascii_class_defs\<close>)
  have "name \<noteq> []" using wf by simp
  then have "\<not> is_whitespace (hd name)" using chars [OF hd_in_set] type_name_char_plain by blast
  then have start: "trim_start (?t @ rest) = ?t @ rest"
    using \<open>name \<noteq> []\<close> by (cases name) (auto simp: trim_start_def)
  have after: "declared_type_after U (58 # 32 # ?t @ rest)
      = Some \<lparr>dr_type_name = ?t, dr_nullable = starts_with rest (lit ''?'')\<rparr>"
    using wf up t path start
    by (simp add: declared_type_after_def strip_prefix_def starts_with_def trim_start_def is_whitespace_def
        del: type_str.simps)
  have "ch CHR '')'' \<notin> set (58 # 32 # ?t @ rest)" using type_str_no_paren [OF wf] rest(2) by simp
  from declared_return_skip [OF this, of U "41 # rev pre" "[]"] after show ?thesis
    using full by (simp add: declared_return_in_detail_def del: type_str.simps)
qed

theorem return_type_read_back_witness:
  "declared_return_in_detail ascii_ucd (lit ''fun f(x: Int = g()): Map<K, List<V>>? = h'')
     = Some \<lparr>dr_type_name = lit ''Map<K, List<V>>'', dr_nullable = True\<rparr>"
  using return_type_read_back [of ascii_ucd "lit ''Map''" "[KType (lit ''K'') [], KType (lit ''List'') [KType (lit ''V'') []]]"
      "lit ''? = h''" "lit ''fun f(x: Int = g()''"]
  by (simp add: type_name_char_def is_id_char_def ascii_class_defs is_whitespace_def starts_with_uppercase_def
      last_segment_def last_part_def ELLIPSIS_def starts_with_def ends_type_def)

text \<open>An arrow inside type arguments is taken for a closing bracket.\<close>

theorem function_type_argument_cut:
  "extract_property_type_from_detail ascii_ucd (lit ''val f: List<(Int) -> Unit>'') = Some (lit ''List<(Int) ->'')"
  by (simp add: extract_property_type_from_detail_def extract_type_with_generics_def strip_prefix_def starts_with_def
      trim_start_def is_whitespace_def ends_type_def kotlin_primitive_type_name_def starts_with_uppercase_def
      ascii_class_defs)

end
