(* ===== verification/Rg_References.thy ===== *)
theory Rg_References
  imports Rg_Search Detail_Text
begin

text \<open>
  The text search for references: \<^verbatim>\<open>src/rg.rs\<close> from \<open>RgSearchRequest\<close> on.

  ripgrep reports columns as byte offsets, and the code slices lines at them. A slice that is out of
  range or cuts a character panics; a result of type \<open>option\<close> below is \<open>None\<close> exactly then,
  unless the source itself returns an \<open>Option\<close>.
\<close>

section \<open>Bytes of a line\<close>

text \<open>How many characters the first \<open>n\<close> bytes are, unless they end inside a character.\<close>

fun char_index :: "str \<Rightarrow> nat \<Rightarrow> nat option" where
  "char_index [] n = (if n = 0 then Some 0 else None)"
| "char_index (c # s) n =
     (if n = 0 then Some 0
      else if len_utf8 c \<le> n then map_option Suc (char_index s (n - len_utf8 c)) else None)"

text \<open>\<open>&s[..n]\<close>, \<open>&s[n..]\<close> and \<open>s.as_bytes().get(n)\<close>.\<close>

definition slice_to :: "str \<Rightarrow> nat \<Rightarrow> str option" where
  "slice_to s n = map_option (\<lambda>i. take i s) (char_index s n)"

definition slice_from :: "str \<Rightarrow> nat \<Rightarrow> str option" where
  "slice_from s n = map_option (\<lambda>i. drop i s) (char_index s n)"

definition byte_at :: "str \<Rightarrow> nat \<Rightarrow> nat option" where
  "byte_at s n = (if n < length (utf8_bytes s) then Some (utf8_bytes s ! n) else None)"

text \<open>A loop that keeps some of its elements, with a test that may panic.\<close>

fun filter_opt :: "('a \<Rightarrow> bool option) \<Rightarrow> 'a list \<Rightarrow> 'a list option" where
  "filter_opt f [] = Some []"
| "filter_opt f (x # xs) =
     Option.bind (f x) (\<lambda>b. map_option (\<lambda>ys. if b then x # ys else ys) (filter_opt f xs))"

section \<open>Requests\<close>

record producer_candidate =
  pc_file_uri :: str
  pc_member_name :: str

record rg_request =
  rq_name :: str
  rq_parent_class :: "str option"
  rq_declared_pkg :: "str option"
  rq_owner_class :: "str option"
  rq_field_owner :: "str option"
  rq_field_decl_line :: "nat option"
  rq_search_root :: path
  rq_source_paths :: "str list"
  rq_include_decl :: bool
  rq_from_uri :: url
  rq_decl_files :: "str list"
  rq_index_candidate_files :: "str list"
  rq_index_qualified_candidate_files :: "str list"
  rq_producer_candidates :: "producer_candidate list"

definition new_request ::
  "rg_env \<Rightarrow> str \<Rightarrow> str option \<Rightarrow> str option \<Rightarrow> path option \<Rightarrow> bool \<Rightarrow> url \<Rightarrow> str list \<Rightarrow> rg_request" where
  "new_request R name parent_class declared_pkg root include_decl from_uri decl_files =
     \<lparr>rq_name = name, rq_parent_class = parent_class, rq_declared_pkg = declared_pkg,
      rq_owner_class = None, rq_field_owner = None, rq_field_decl_line = None,
      rq_search_root = root_or_cwd R root, rq_source_paths = [], rq_include_decl = include_decl,
      rq_from_uri = from_uri, rq_decl_files = decl_files, rq_index_candidate_files = [],
      rq_index_qualified_candidate_files = [], rq_producer_candidates = []\<rparr>"

section \<open>Patterns\<close>

definition import_pattern :: "ucd \<Rightarrow> str \<Rightarrow> str \<Rightarrow> str \<Rightarrow> str" where
  "import_pattern U name safe_parent safe_name =
     (if starts_with_uppercase U name
      then regex ''import[^%n]*%b'' @ safe_parent @ regex ''%.'' @ safe_name @ regex ''(?:%s|;|$)|import[^%n]*%b''
             @ safe_parent @ regex ''%.%*''
      else regex ''import[^%n]*%b'' @ safe_parent @ regex ''%b'')"

definition package_pattern :: "str \<Rightarrow> str" where
  "package_pattern safe_package = regex ''^%s*package%s+'' @ safe_package @ regex ''%s*;?%s*$''"

definition build_rg_patterns :: "ucd \<Rightarrow> rg_request \<Rightarrow> str list" where
  "build_rg_patterns U q =
     (let safe_name = regex_escape U (rq_name q)
      in case rq_parent_class q of
           Some parent_class \<Rightarrow>
             (let safe_parent = regex_escape U parent_class
              in [regex ''%b'' @ safe_parent @ regex ''%.%b'' @ safe_name @ regex ''%b'',
                  import_pattern U (rq_name q) safe_parent safe_name, safe_name])
         | None \<Rightarrow>
             (case rq_declared_pkg q of
                Some declared_pkg \<Rightarrow>
                  (let safe_package = regex_escape U declared_pkg
                   in [regex ''import[^%n]*%b'' @ safe_package @ regex ''%b[^%n]*%b'' @ safe_name
                         @ regex ''%b|import[^%n]*%b'' @ safe_package @ regex ''%b%.%*'',
                       package_pattern safe_package, safe_name])
              | None \<Rightarrow> [safe_name]))"

section \<open>Tests on one hit\<close>

definition keyword_before :: "ucd \<Rightarrow> str \<Rightarrow> str \<Rightarrow> bool" where
  "keyword_before U prefix_trimmed kw =
     (let kw_trimmed = trim_end kw;
          before = take (length prefix_trimmed - length kw_trimmed) prefix_trimmed
      in ends_with prefix_trimmed kw_trimmed \<and> (before = [] \<or> \<not> is_id_char U (last before)))"

definition is_declaration_occurrence_at :: "ucd \<Rightarrow> str \<Rightarrow> nat \<Rightarrow> bool option" where
  "is_declaration_occurrence_at U content col =
     (if col = 0 then Some False
      else map_option (\<lambda>prefix.
             list_ex (keyword_before U (trim_end_matches (\<lambda>c. c = ch CHR '' '') prefix))
               REFERENCE_DECLARATION_KEYWORDS)
           (slice_to content (min col (utf8_len content))))"

definition loc_line :: "location \<Rightarrow> nat" where
  "loc_line loc = pos_line (r_start (loc_range loc))"

definition loc_col :: "location \<Rightarrow> nat" where
  "loc_col loc = pos_character (r_start (loc_range loc))"

definition should_skip_reference :: "ucd \<Rightarrow> location \<Rightarrow> str \<Rightarrow> rg_request \<Rightarrow> bool option" where
  "should_skip_reference U loc content q =
     (let trimmed = trim_start content
      in if starts_with trimmed (lit ''import '') \<or> starts_with trimmed (lit ''package '') then Some True
         else if rq_include_decl q then Some False
         else map_option (\<lambda>is_decl.
                is_decl \<and> (loc_uri loc = rq_from_uri q \<or> starts_with_uppercase U (rq_name q)))
              (is_declaration_occurrence_at U content (loc_col loc)))"

definition is_qualifier_char :: "ucd \<Rightarrow> rchar \<Rightarrow> bool" where
  "is_qualifier_char U c \<longleftrightarrow> is_alphanumeric U c \<or> c = ch CHR ''_'' \<or> c = ch CHR ''.''"

text \<open>The run of characters at the end of a text.\<close>

definition run_back :: "(rchar \<Rightarrow> bool) \<Rightarrow> str \<Rightarrow> str" where
  "run_back p s = rev (takeWhile p (rev s))"

definition dot_before :: "str \<Rightarrow> nat \<Rightarrow> bool" where
  "dot_before content col \<longleftrightarrow> col > 0 \<and> byte_at content (col - 1) = Some (ch CHR ''.'')"

definition has_wrong_qualifier_at_col :: "ucd \<Rightarrow> str \<Rightarrow> str \<Rightarrow> str \<Rightarrow> nat \<Rightarrow> bool option" where
  "has_wrong_qualifier_at_col U content name expected_parent col =
     (case slice_from content col of
        None \<Rightarrow> Some False
      | Some at \<Rightarrow>
          if \<not> starts_with at name \<or> \<not> dot_before content col then Some False
          else map_option (\<lambda>before.
                 let qualifier = dropWhile (\<lambda>c. c = ch CHR ''.'') (run_back (is_qualifier_char U) before)
                 in qualifier \<noteq> [] \<and> qualifier \<noteq> expected_parent)
               (slice_to content (col - 1)))"

definition qualifier_hints_owner :: "ucd \<Rightarrow> str \<Rightarrow> nat \<Rightarrow> str \<Rightarrow> bool option" where
  "qualifier_hints_owner U content col owner_class =
     (if \<not> dot_before content col then Some True
      else map_option (\<lambda>before.
             let qualifier = run_back (is_id_char U) before
             in qualifier = [] \<or> utf8_len qualifier < 10
                \<or> contains_ignore_ascii_case U qualifier (to_lowercase U owner_class))
           (slice_to content (col - 1)))"

fun paren_close :: "nat \<Rightarrow> str \<Rightarrow> nat option" where
  "paren_close depth [] = None"
| "paren_close depth (c # s) =
     (if c = ch CHR ''('' then map_option Suc (paren_close (Suc depth) s)
      else if c = ch CHR '')'' then
        (if depth \<le> 1 then Some 0 else map_option Suc (paren_close (depth - 1) s))
      else map_option Suc (paren_close depth s))"

definition balanced_paren_close :: "str \<Rightarrow> nat option" where
  "balanced_paren_close s = paren_close 1 s"

text \<open>The byte before the name makes it part of a longer word; \<open>None\<close> where there is no such byte.\<close>

definition word_before :: "str \<Rightarrow> nat \<Rightarrow> bool option" where
  "word_before content col =
     (if col > 0 then map_option (\<lambda>prev. is_ascii_alphanumeric prev \<or> prev = ch CHR ''_'') (byte_at content (col - 1))
      else Some False)"

definition is_java_method_declaration_at :: "str \<Rightarrow> str \<Rightarrow> nat \<Rightarrow> bool option" where
  "is_java_method_declaration_at content name col =
     (let name_end = col + utf8_len name
      in if byte_at content name_end \<noteq> Some (ch CHR ''('') then Some False
         else if dot_before content col then Some False
         else Option.bind (word_before content col) (\<lambda>inside.
                if inside then Some False
                else map_option (\<lambda>rest.
                       case balanced_paren_close rest of
                         None \<Rightarrow> False
                       | Some cl \<Rightarrow>
                           let after = trim_start (drop (Suc cl) rest)
                           in list_ex (starts_with after) [lit ''{'', lit ''throws'', lit ''default'', lit '';''])
                     (slice_from content (name_end + 1))))"

definition is_java_field_declaration_at :: "str \<Rightarrow> str \<Rightarrow> nat \<Rightarrow> bool option" where
  "is_java_field_declaration_at content name col =
     (let name_end = col + utf8_len name
      in if dot_before content col then Some False
         else Option.bind (word_before content col) (\<lambda>inside.
                if inside then Some False
                else map_option (\<lambda>rest. case trim_start rest of
                                           [] \<Rightarrow> False
                                         | c # _ \<Rightarrow> c \<in> {ch CHR '';'', ch CHR ''='', ch CHR '',''})
                     (slice_from content name_end)))"

section \<open>Files\<close>

definition rg_files_with_matches_scoped :: "rg_env \<Rightarrow> str \<Rightarrow> str list \<Rightarrow> path \<Rightarrow> str list" where
  "rg_files_with_matches_scoped R pattern source_paths root =
     files_with_matches R (with_patterns [pattern] (list_files (scoped source_paths root)))"

definition rg_word_in_files :: "externals \<Rightarrow> rg_env \<Rightarrow> str \<Rightarrow> str list \<Rightarrow> (location \<times> str) list" where
  "rg_word_in_files X R safe_name files =
     (if files = [] then []
      else locations_with_content X R (with_patterns [safe_name] (word_regexp (search_files files))))"

definition rg_pattern_in_files :: "externals \<Rightarrow> rg_env \<Rightarrow> str \<Rightarrow> str list \<Rightarrow> (location \<times> str) list" where
  "rg_pattern_in_files X R pattern files =
     (if files = [] then [] else locations_with_content X R (with_patterns [pattern] (search_files files)))"

definition file_uri_string :: "externals \<Rightarrow> str \<Rightarrow> str option" where
  "file_uri_string X path = x_url_from_file_path X (path_of_str path)"

definition filter_candidate_files :: "scan_fs \<Rightarrow> ignore_matcher option \<Rightarrow> str list \<Rightarrow> str list" where
  "filter_candidate_files F matcher candidate_files =
     (case matcher of Some m \<Rightarrow> filter_file_strings F m candidate_files | None \<Rightarrow> candidate_files)"

definition extend_unique_files :: "str list \<Rightarrow> str list \<Rightarrow> str list" where
  "extend_unique_files files new_files = push_new files new_files"

text \<open>The merge keeps the files it has seen in a hash set.\<close>

fun merge_new :: "str set \<Rightarrow> str list \<Rightarrow> str list \<Rightarrow> str list" where
  "merge_new existing files [] = files"
| "merge_new existing files (d # ds) =
     (if d \<in> existing then merge_new existing files ds else merge_new (insert d existing) (files @ [d]) ds)"

definition merge_decl_files :: "str list \<Rightarrow> str list \<Rightarrow> str list" where
  "merge_decl_files candidate_files decl_files = merge_new (set candidate_files) candidate_files decl_files"

definition scope_decl_files :: "str list \<Rightarrow> str list \<Rightarrow> str list" where
  "scope_decl_files decl_files source_paths =
     (if source_paths = [] then decl_files
      else filter (\<lambda>f. list_ex (\<lambda>sp. path_starts_with (path_of_str f) (path_of_str sp)) source_paths) decl_files)"

definition file_uri_under_source_paths :: "externals \<Rightarrow> str \<Rightarrow> str list \<Rightarrow> path option \<Rightarrow> bool" where
  "file_uri_under_source_paths X uri_str source_paths workspace_root =
     (if source_paths = [] then True
      else (case Option.bind (x_url_parse X uri_str) (x_url_to_file_path X) of
              None \<Rightarrow> False
            | Some file_path \<Rightarrow>
                list_ex (\<lambda>sp.
                  let path = path_of_str sp
                  in if path_is_absolute path then path_starts_with file_path path
                     else (case workspace_root of
                             Some root \<Rightarrow> path_starts_with file_path (path_join root path)
                           | None \<Rightarrow> False)) source_paths))"

definition resolve_effective_source_paths :: "rg_env \<Rightarrow> str list \<Rightarrow> path option \<Rightarrow> str list" where
  "resolve_effective_source_paths R source_paths workspace_root =
     (if list_ex (\<lambda>sp.
           let path = path_of_str sp
           in if path_is_absolute path then rg_is_dir R path
              else (case workspace_root of Some root \<Rightarrow> rg_is_dir R (path_join root path) | None \<Rightarrow> False))
         source_paths
      then source_paths else [])"

section \<open>Producers of the owner class\<close>

definition MAX_OWNER_PRODUCING_MEMBER_NAMES :: nat where "MAX_OWNER_PRODUCING_MEMBER_NAMES = 8"
definition MAX_PRODUCER_CANDIDATE_FILES :: nat where "MAX_PRODUCER_CANDIDATE_FILES = 256"

datatype producer_expansion = NoProducerFound | SkippedTooBroad | Found "str list"

definition producer_member_names :: "externals \<Rightarrow> rg_request \<Rightarrow> str list \<Rightarrow> str list" where
  "producer_member_names X q hop1_files =
     (let hop1_uris = List.map_filter (file_uri_string X) hop1_files
      in push_new [] (map pc_member_name
           (filter (\<lambda>c. pc_file_uri c \<in> set hop1_uris) (rq_producer_candidates q))))"

definition producers_pattern :: "ucd \<Rightarrow> str list \<Rightarrow> str" where
  "producers_pattern U names = regex ''%b(?:'' @ join (lit ''|'') (map (regex_escape U) names) @ regex '')%b''"

definition producer_scoped_candidate_files ::
  "ucd \<Rightarrow> externals \<Rightarrow> scan_fs \<Rightarrow> rg_env \<Rightarrow> rg_request \<Rightarrow> ignore_matcher option \<Rightarrow> str list \<Rightarrow> producer_expansion" where
  "producer_scoped_candidate_files U X F R q matcher hop1_files =
     (let names = producer_member_names X q hop1_files
      in if names = [] then NoProducerFound
         else if length names > MAX_OWNER_PRODUCING_MEMBER_NAMES then SkippedTooBroad
         else (let candidate_files = filter_candidate_files F matcher
                     (rg_files_with_matches_scoped R (producers_pattern U names) (rq_source_paths q)
                       (rq_search_root q))
               in if length (filter (\<lambda>f. f \<notin> set hop1_files) candidate_files) > MAX_PRODUCER_CANDIDATE_FILES
                  then SkippedTooBroad else Found candidate_files))"

text \<open>The URIs of the files that only the producers led to.\<close>

definition newly_discovered :: "externals \<Rightarrow> str list \<Rightarrow> str list \<Rightarrow> str list" where
  "newly_discovered X producer_files hop1_files =
     List.map_filter (file_uri_string X) (filter (\<lambda>f. f \<notin> set hop1_files) producer_files)"

section \<open>Unscoped search and search by package\<close>

definition run_rg_search ::
  "ucd \<Rightarrow> externals \<Rightarrow> rg_env \<Rightarrow> rg_request \<Rightarrow> str list \<Rightarrow> location list option" where
  "run_rg_search U X R q patterns =
     (let search = with_patterns patterns (scoped (rq_source_paths q) (rq_search_root q));
          search = (if rq_parent_class q = None \<and> rq_declared_pkg q = None then word_regexp search else search)
      in map_option (map fst)
           (filter_opt (\<lambda>(loc, content). map_option Not (should_skip_reference U loc content q))
             (locations_with_content X R search)))"

definition java_member_declaration_at :: "str \<Rightarrow> str \<Rightarrow> nat \<Rightarrow> bool option" where
  "java_member_declaration_at content name col =
     Option.bind (is_java_method_declaration_at content name col) (\<lambda>is_method.
       if is_method then Some True else is_java_field_declaration_at content name col)"

definition uri_extension :: "externals \<Rightarrow> url \<Rightarrow> str option" where
  "uri_extension X uri =
     (let p = path_of_str (x_url_path X uri)
      in if p = [] then None
         else (case last p of
                 Normal w \<Rightarrow> (case rfind_char (\<lambda>c. c = ch CHR ''.'') w of
                                None \<Rightarrow> None
                              | Some i \<Rightarrow> if i = 0 then None else Some (drop (Suc i) w))
               | _ \<Rightarrow> None))"

definition keep_package_hit :: "ucd \<Rightarrow> externals \<Rightarrow> rg_request \<Rightarrow> location \<times> str \<Rightarrow> bool option" where
  "keep_package_hit U X q hit =
     (case hit of (loc, content) \<Rightarrow>
        Option.bind (should_skip_reference U loc content q) (\<lambda>skip.
          if skip then Some False
          else if loc_uri loc \<noteq> rq_from_uri q \<and> uri_extension X (loc_uri loc) = Some (lit ''java'')
          then map_option Not (java_member_declaration_at content (rq_name q) (loc_col loc))
          else Some True))"

definition package_scoped_reference_locations ::
  "ucd \<Rightarrow> externals \<Rightarrow> scan_fs \<Rightarrow> rg_env \<Rightarrow> rg_request \<Rightarrow> str list \<Rightarrow> ignore_matcher option \<Rightarrow> location list option" where
  "package_scoped_reference_locations U X F R q patterns matcher =
     (let files_of = \<lambda>pattern. rg_files_with_matches_scoped R pattern (rq_source_paths q) (rq_search_root q);
          candidate_files = filter_candidate_files F matcher
            (extend_unique_files (files_of (patterns ! 0)) (files_of (patterns ! 1)))
      in if candidate_files = [] then Some []
         else map_option (map fst)
                (filter_opt (keep_package_hit U X q) (rg_word_in_files X R (patterns ! 2) candidate_files)))"

section \<open>Search by the parent class\<close>

text \<open>One hit of the bare-name pass: \<open>st\<close> is the set of keys seen and the locations so far.\<close>

definition hit_rejected :: "ucd \<Rightarrow> rg_request \<Rightarrow> str list \<Rightarrow> location \<times> str \<Rightarrow> bool option" where
  "hit_rejected U q hop2_only hit =
     (case hit of (loc, content) \<Rightarrow>
        let other_file = loc_uri loc \<noteq> rq_from_uri q
        in Option.bind (should_skip_reference U loc content q) (\<lambda>skip.
           if skip then Some True
           else Option.bind (if other_file \<and> loc_uri loc \<in> set hop2_only
                             then is_declaration_occurrence_at U content (loc_col loc) else Some False) (\<lambda>decl.
           if decl then Some True
           else Option.bind (if ends_with (loc_uri loc) (lit ''.java'') \<and> other_file
                             then is_java_method_declaration_at content (rq_name q) (loc_col loc)
                             else Some False) (\<lambda>java.
           if java then Some True
           else (case rq_parent_class q of
                   Some parent \<Rightarrow>
                     if starts_with_uppercase U (rq_name q)
                     then has_wrong_qualifier_at_col U content (rq_name q) parent (loc_col loc) else Some False
                 | None \<Rightarrow> Some False)))))"

definition reference_key :: "location \<Rightarrow> str \<times> nat \<times> nat" where
  "reference_key loc = (loc_uri loc, loc_line loc, loc_col loc)"

definition append_hit ::
  "ucd \<Rightarrow> rg_request \<Rightarrow> str list \<Rightarrow> location \<times> str \<Rightarrow> (str \<times> nat \<times> nat) set \<times> location list
     \<Rightarrow> ((str \<times> nat \<times> nat) set \<times> location list) option" where
  "append_hit U q hop2_only hit st =
     (case st of (seen, locations) \<Rightarrow>
        map_option (\<lambda>rejected.
            if rejected \<or> reference_key (fst hit) \<in> seen then (seen, locations)
            else (insert (reference_key (fst hit)) seen, locations @ [fst hit]))
          (hit_rejected U q hop2_only hit))"

definition append_unique_reference_hits ::
  "ucd \<Rightarrow> rg_request \<Rightarrow> str list \<Rightarrow> location list \<Rightarrow> (location \<times> str) list \<Rightarrow> location list option" where
  "append_unique_reference_hits U q hop2_only locations hits =
     map_option snd (fold_opt (append_hit U q hop2_only) hits (set (map reference_key locations), locations))"

definition bare_candidates ::
  "externals \<Rightarrow> scan_fs \<Rightarrow> rg_env \<Rightarrow> rg_request \<Rightarrow> str list \<Rightarrow> ignore_matcher option \<Rightarrow> str list" where
  "bare_candidates X F R q patterns matcher =
     merge_decl_files
       (filter_candidate_files F matcher
         (if rq_index_candidate_files q \<noteq> [] then rq_index_candidate_files q
          else rg_files_with_matches_scoped R (patterns ! 1) (rq_source_paths q) (rq_search_root q)))
       (scope_decl_files (rq_decl_files q) (rq_source_paths q))"

definition same_pkg_files ::
  "ucd \<Rightarrow> scan_fs \<Rightarrow> rg_env \<Rightarrow> rg_request \<Rightarrow> ignore_matcher option \<Rightarrow> str list" where
  "same_pkg_files U F R q matcher =
     (case rq_declared_pkg q of
        Some pkg \<Rightarrow> filter_candidate_files F matcher
          (rg_files_with_matches_scoped R (package_pattern (regex_escape U pkg)) (rq_source_paths q) (rq_search_root q))
      | None \<Rightarrow> [])"

text \<open>The qualified pass over the files the index offers.\<close>

definition qualified_in_files ::
  "ucd \<Rightarrow> externals \<Rightarrow> scan_fs \<Rightarrow> rg_env \<Rightarrow> rg_request \<Rightarrow> str list \<Rightarrow> ignore_matcher option \<Rightarrow> str list \<Rightarrow> str list
     \<Rightarrow> location list option" where
  "qualified_in_files U X F R q patterns matcher same_pkg candidate_files =
     (let qfiles = extend_unique_files (extend_unique_files
            (filter_candidate_files F matcher (rq_index_qualified_candidate_files q)) same_pkg) candidate_files
      in map_option (map fst)
           (filter_opt (\<lambda>(loc, content). if content = [] then Some True
                          else map_option Not (should_skip_reference U loc content q))
             (rg_pattern_in_files X R (patterns ! 0) qfiles)))"

text \<open>The files the producers of the parent lead to, and which of them nothing else led to.\<close>

definition parent_hop2 ::
  "ucd \<Rightarrow> externals \<Rightarrow> scan_fs \<Rightarrow> rg_env \<Rightarrow> rg_request \<Rightarrow> ignore_matcher option \<Rightarrow> str list \<Rightarrow> str list \<times> str list" where
  "parent_hop2 U X F R q matcher candidate_files =
     (if starts_with_uppercase U (rq_name q) \<or> rq_parent_class q = None then (candidate_files, [])
      else (case producer_scoped_candidate_files U X F R q matcher candidate_files of
              Found producer_files \<Rightarrow>
                (extend_unique_files candidate_files producer_files,
                 newly_discovered X producer_files candidate_files)
            | _ \<Rightarrow> (candidate_files, [])))"

definition parent_scoped_reference_locations ::
  "ucd \<Rightarrow> externals \<Rightarrow> scan_fs \<Rightarrow> rg_env \<Rightarrow> rg_request \<Rightarrow> str list \<Rightarrow> ignore_matcher option \<Rightarrow> location list option" where
  "parent_scoped_reference_locations U X F R q patterns matcher =
     (let candidate_files = bare_candidates X F R q patterns matcher;
          same_pkg = same_pkg_files U F R q matcher;
          is_uppercase_nested = starts_with_uppercase U (rq_name q);
          scoped_pass = (is_uppercase_nested \<and> rq_index_qualified_candidate_files q \<noteq> []);
          qualified = (if scoped_pass then qualified_in_files U X F R q patterns matcher same_pkg candidate_files
                       else run_rg_search U X R q (take 1 patterns));
          candidate_files = (if \<not> scoped_pass \<and> \<not> is_uppercase_nested
                             then extend_unique_files candidate_files same_pkg else candidate_files)
      in Option.bind qualified (\<lambda>locations.
           let (candidate_files, hop2_only) = parent_hop2 U X F R q matcher candidate_files
           in if candidate_files = [] then Some locations
              else append_unique_reference_hits U q hop2_only locations
                     (rg_word_in_files X R (patterns ! 2) candidate_files)))"

section \<open>Search by the owner of a nested member\<close>

text \<open>The files that mention a class.\<close>

definition files_mentioning ::
  "ucd \<Rightarrow> scan_fs \<Rightarrow> rg_env \<Rightarrow> str list \<Rightarrow> path \<Rightarrow> ignore_matcher option \<Rightarrow> str \<Rightarrow> str list" where
  "files_mentioning U F R source_paths root matcher name =
     filter_candidate_files F matcher
       (rg_files_with_matches_scoped R (regex ''%b'' @ regex_escape U name @ regex ''%b'') source_paths root)"

definition keep_owner_hit ::
  "ucd \<Rightarrow> rg_request \<Rightarrow> str \<Rightarrow> str list \<Rightarrow> location \<times> str \<Rightarrow> bool option" where
  "keep_owner_hit U q owner_class producer_discovered hit =
     (case hit of (loc, content) \<Rightarrow>
        Option.bind (should_skip_reference U loc content q) (\<lambda>skip.
          if skip then Some False
          else if loc_uri loc = rq_from_uri q
          then Some (rq_include_decl q \<and> is_declaration_of content (rq_name q))
          else if is_declaration_of content (rq_name q) then Some False
          else if loc_uri loc \<in> set producer_discovered then Some True
          else qualifier_hints_owner U content (loc_col loc) owner_class))"

definition owner_scoped_reference_locations ::
  "ucd \<Rightarrow> externals \<Rightarrow> scan_fs \<Rightarrow> rg_env \<Rightarrow> rg_request \<Rightarrow> str \<Rightarrow> ignore_matcher option \<Rightarrow> location list option" where
  "owner_scoped_reference_locations U X F R q owner_class matcher =
     (let hop1_files = files_mentioning U F R (rq_source_paths q) (rq_search_root q) matcher owner_class;
          (candidate_files, discovered) =
            (case producer_scoped_candidate_files U X F R q matcher hop1_files of
               Found producer_files \<Rightarrow>
                 (extend_unique_files hop1_files producer_files, newly_discovered X producer_files hop1_files)
             | _ \<Rightarrow> (hop1_files, []))
      in map_option (map fst)
           (filter_opt (keep_owner_hit U q owner_class discovered)
             (rg_word_in_files X R (regex_escape U (rq_name q)) candidate_files)))"

section \<open>Search by the class of a member\<close>

definition keep_field_hit :: "ucd \<Rightarrow> rg_request \<Rightarrow> location \<times> str \<Rightarrow> bool option" where
  "keep_field_hit U q hit =
     (case hit of (loc, content) \<Rightarrow>
        Option.bind (should_skip_reference U loc content q) (\<lambda>skip.
          if skip then Some False
          else if loc_uri loc = rq_from_uri q
          then Some (is_declaration_of content (rq_name q) \<longrightarrow>
                     (case rq_field_decl_line q of None \<Rightarrow> True | Some dl \<Rightarrow> loc_line loc = dl))
          else if is_declaration_of content (rq_name q) then Some False
          else if ends_with (loc_uri loc) (lit ''.java'')
          then map_option Not (java_member_declaration_at content (rq_name q) (loc_col loc))
          else Some True))"

definition field_scoped_reference_locations ::
  "ucd \<Rightarrow> externals \<Rightarrow> scan_fs \<Rightarrow> rg_env \<Rightarrow> rg_request \<Rightarrow> str \<Rightarrow> ignore_matcher option \<Rightarrow> location list option" where
  "field_scoped_reference_locations U X F R q field_owner matcher =
     (let hop1_files = files_mentioning U F R (rq_source_paths q) (rq_search_root q) matcher field_owner;
          candidate_files = (case producer_scoped_candidate_files U X F R q matcher hop1_files of
                               Found producer_files \<Rightarrow> extend_unique_files hop1_files producer_files
                             | _ \<Rightarrow> hop1_files);
          candidate_files = merge_decl_files candidate_files (scope_decl_files (rq_decl_files q) (rq_source_paths q))
      in map_option (map fst)
           (filter_opt (keep_field_hit U q)
             (rg_word_in_files X R (regex_escape U (rq_name q)) candidate_files)))"

section \<open>The searches the features call\<close>

definition rg_find_references ::
  "ucd \<Rightarrow> externals \<Rightarrow> scan_fs \<Rightarrow> rg_env \<Rightarrow> rg_request \<Rightarrow> ignore_matcher option \<Rightarrow> location list option" where
  "rg_find_references U X F R q matcher =
     map_option (matcher_filter X F matcher)
       (case rq_field_owner q of
          Some field_owner \<Rightarrow> field_scoped_reference_locations U X F R q field_owner matcher
        | None \<Rightarrow>
       (case rq_owner_class q of
          Some owner_class \<Rightarrow> owner_scoped_reference_locations U X F R q owner_class matcher
        | None \<Rightarrow>
            (let patterns = build_rg_patterns U q
             in if rq_parent_class q \<noteq> None then parent_scoped_reference_locations U X F R q patterns matcher
                else if rq_declared_pkg q \<noteq> None then package_scoped_reference_locations U X F R q patterns matcher
                else run_rg_search U X R q patterns)))"

definition declares_implementor :: "str \<Rightarrow> str \<Rightarrow> bool" where
  "declares_implementor name content =
     (let line = trim content; lower = map to_ascii_lower line
      in list_ex (\<lambda>kw. contains_sub lower (lit kw)) [''class '', ''struct '', ''interface'', ''enum'', ''extension '']
         \<and> contains_sub line name)"

definition rg_find_implementors ::
  "externals \<Rightarrow> scan_fs \<Rightarrow> rg_env \<Rightarrow> str \<Rightarrow> path option \<Rightarrow> str list \<Rightarrow> ignore_matcher option \<Rightarrow> location list" where
  "rg_find_implementors X F R name root source_paths matcher =
     (case root of
        None \<Rightarrow> []
      | Some root \<Rightarrow>
          matcher_filter X F matcher
            (map fst (filter (\<lambda>(loc, content). declares_implementor name content)
              (locations_with_content X R (with_patterns [name] (scoped source_paths root))))))"

definition rg_find_method_overrides ::
  "ucd \<Rightarrow> externals \<Rightarrow> scan_fs \<Rightarrow> rg_env \<Rightarrow> str \<Rightarrow> str \<Rightarrow> path option \<Rightarrow> str list \<Rightarrow> ignore_matcher option
     \<Rightarrow> location list" where
  "rg_find_method_overrides U X F R method_name declaring_class root source_paths matcher =
     (case root of
        None \<Rightarrow> []
      | Some root \<Rightarrow>
          (let candidate_files = files_mentioning U F R source_paths root matcher declaring_class
           in if candidate_files = [] then []
              else map fst (filter (\<lambda>(loc, content).
                     is_override_declaration (from_path (x_url_path X (loc_uri loc))) (trim content) method_name)
                   (rg_word_in_files X R (regex_escape U method_name) candidate_files))))"

end
