(* ===== verification/Rg_Props.thy ===== *)
theory Rg_Props
  imports Rg_References Workspace_Scan
begin

text \<open>
  Properties of the reference search: where it can panic and where not, which calls it takes for
  declarations, what its passes over producers are bounded by, and which directories they cover.
\<close>

section \<open>Byte offsets\<close>

text \<open>The offset behind a prefix is the end of its last character.\<close>

lemma char_index_append [simp]: "char_index (p @ s) (utf8_len p) = Some (length p)"
  by (induction p) (simp_all add: not_less, cases s, auto)

lemma char_index_Some: "char_index s n = Some i \<longleftrightarrow> i \<le> length s \<and> utf8_len (take i s) = n"
proof (induction s arbitrary: n i)
  case Nil
  then show ?case by auto
next
  case (Cons c s)
  show ?case
  proof (cases i)
    case 0
    then show ?thesis using len_utf8_pos [of c] by auto
  next
    case (Suc j)
    then show ?thesis using Cons [of "n - len_utf8 c" j] len_utf8_pos [of c] by auto
  qed
qed

lemma slice_to_append [simp]: "slice_to (p @ s) (utf8_len p) = Some p"
  by (simp add: slice_to_def)

lemma slice_from_append [simp]: "slice_from (p @ s) (utf8_len p) = Some s"
  by (simp add: slice_from_def)

lemma slice_from_Some: "slice_from s n = Some r \<longleftrightarrow> (\<exists>p. s = p @ r \<and> utf8_len p = n)"
proof
  assume "slice_from s n = Some r"
  then obtain i where "char_index s n = Some i" "r = drop i s" by (auto simp: slice_from_def)
  then show "\<exists>p. s = p @ r \<and> utf8_len p = n"
    by (intro exI [of _ "take i s"]) (simp add: char_index_Some)
qed auto

lemma utf8_bytes_append: "utf8_bytes (s @ t) = utf8_bytes s @ utf8_bytes t"
  by (simp add: utf8_bytes_def)

lemma encode_char_ascii: "x \<in> set (encode_char c) \<Longrightarrow> x < 128 \<Longrightarrow> encode_char c = [x] \<and> c = x"
  by (auto simp: encode_char_def split: if_splits)

text \<open>A byte below 128 is a character of its own.\<close>

lemma byte_at_ascii:
  assumes "byte_at s n = Some b" "b < 128"
  shows "\<exists>p r. s = p @ b # r \<and> utf8_len p = n"
  using assms
proof (induction s arbitrary: n)
  case Nil
  then show ?case by (simp add: byte_at_def utf8_bytes_def)
next
  case (Cons c s)
  have bytes: "utf8_bytes (c # s) = encode_char c @ utf8_bytes s" by (simp add: utf8_bytes_def)
  have len: "length (encode_char c) = len_utf8 c" by (rule length_encode_char)
  show ?case
  proof (cases "n < len_utf8 c")
    case True
    then have "encode_char c ! n = b" using Cons.prems bytes len by (auto simp: byte_at_def nth_append split: if_splits)
    then have "encode_char c = [b] \<and> c = b" using encode_char_ascii [of b c] Cons.prems(2) True len by (metis nth_mem)
    then have "n = 0 \<and> c = b" using True len by (metis One_nat_def length_Cons less_one list.size(3))
    then show ?thesis by (intro exI [of _ "[]"] exI [of _ s]) simp
  next
    case False
    then have "byte_at s (n - len_utf8 c) = Some b"
      using Cons.prems(1) bytes len by (auto simp: byte_at_def nth_append split: if_splits)
    from Cons.IH [OF this Cons.prems(2)] obtain p r where "s = p @ b # r" "utf8_len p = n - len_utf8 c" by blast
    then show ?thesis using False by (intro exI [of _ "c # p"] exI [of _ r]) simp
  qed
qed

lemma dot_before_slice:
  assumes "dot_before content col"
  shows "\<exists>p. slice_to content (col - 1) = Some p"
proof -
  obtain p r where "content = p @ 46 # r" "utf8_len p = col - 1"
    using byte_at_ascii [of content "col - 1" "ch CHR ''.''"] assms by (auto simp: dot_before_def)
  then show ?thesis using slice_to_append [of p "46 # r"] by auto
qed

section \<open>Checks that never panic\<close>

lemma has_wrong_qualifier_total: "has_wrong_qualifier_at_col U content name parent col \<noteq> None"
  using dot_before_slice [of content col] by (auto simp: has_wrong_qualifier_at_col_def Let_def split: option.splits)

lemma qualifier_hints_owner_total: "qualifier_hints_owner U content col owner \<noteq> None"
  using dot_before_slice [of content col] by (auto simp: qualifier_hints_owner_def Let_def)

lemma byte_at_less: "byte_at s n = Some b \<Longrightarrow> m \<le> n \<Longrightarrow> \<exists>b'. byte_at s m = Some b'"
  by (auto simp: byte_at_def split: if_splits)

lemma is_java_method_total: "is_java_method_declaration_at content name col \<noteq> None"
proof (cases "byte_at content (col + utf8_len name) = Some (ch CHR ''('')")
  case True
  then obtain p r where s: "content = p @ 40 # r" "utf8_len p = col + utf8_len name"
    using byte_at_ascii [of content "col + utf8_len name" 40] by auto
  then have "slice_from content (col + utf8_len name + 1) = Some r"
    using slice_from_append [of "p @ [40]" r] by (simp add: len_utf8_def)
  moreover have "word_before content col \<noteq> None"
    using byte_at_less [OF True, of "col - 1"] by (auto simp: word_before_def)
  ultimately show ?thesis by (auto simp: is_java_method_declaration_at_def Let_def)
next
  case False
  then show ?thesis by (simp add: is_java_method_declaration_at_def Let_def)
qed

section \<open>Searches that never panic\<close>

lemma filter_opt_total: "(\<And>x. x \<in> set xs \<Longrightarrow> f x \<noteq> None) \<Longrightarrow> filter_opt f xs \<noteq> None"
proof (induction xs)
  case (Cons x xs)
  then have "f x \<noteq> None" "filter_opt f xs \<noteq> None" by auto
  then show ?case by auto
qed simp

lemma filter_opt_panic: "x \<in> set xs \<Longrightarrow> f x = None \<Longrightarrow> filter_opt f xs = None"
  by (induction xs) (auto simp: bind_eq_None_conv)

text \<open>What a run reports of a file that is valid UTF-8: columns at the start of a character, and where
  only a word is searched for, of that word.\<close>

definition columns_in_text :: "externals \<Rightarrow> rg_env \<Rightarrow> bool" where
  "columns_in_text X R \<longleftrightarrow> (\<forall>s. \<forall>(loc, content) \<in> set (locations_with_content X R s).
     slice_from content (loc_col loc) \<noteq> None)"

definition columns_at_word :: "ucd \<Rightarrow> externals \<Rightarrow> rg_env \<Rightarrow> str \<Rightarrow> bool" where
  "columns_at_word U X R name \<longleftrightarrow> (\<forall>files. \<forall>(loc, content) \<in> set (rg_word_in_files X R (regex_escape U name) files).
     \<exists>at. slice_from content (loc_col loc) = Some (name @ at))"

lemma declaration_occurrence_total:
  assumes "slice_from content col \<noteq> None"
  shows "is_declaration_occurrence_at U content col \<noteq> None"
proof -
  obtain p r where "content = p @ r" "utf8_len p = col" using assms slice_from_Some by fastforce
  moreover from this have "utf8_len content \<ge> col" by (auto simp: utf8_len_def)
  ultimately show ?thesis by (auto simp: is_declaration_occurrence_at_def min_absorb1)
qed

lemma should_skip_total:
  "slice_from content (loc_col loc) \<noteq> None \<Longrightarrow> should_skip_reference U loc content q \<noteq> None"
  using declaration_occurrence_total by (auto simp: should_skip_reference_def Let_def)

lemma is_java_field_total:
  assumes "slice_from content col = Some (name @ at)"
  shows "is_java_field_declaration_at content name col \<noteq> None"
proof -
  obtain p where c: "content = p @ name @ at" "utf8_len p = col" using assms slice_from_Some by blast
  then have "slice_from content (col + utf8_len name) = Some at"
    using slice_from_append [of "p @ name" at] by (simp add: utf8_len_def)
  moreover have "word_before content col \<noteq> None"
    using c by (cases col) (auto simp: word_before_def byte_at_def length_utf8_bytes utf8_len_def)
  ultimately show ?thesis by (auto simp: is_java_field_declaration_at_def Let_def)
qed

lemma java_member_total:
  "slice_from content col = Some (name @ at) \<Longrightarrow> java_member_declaration_at content name col \<noteq> None"
  using is_java_method_total [of content name col] is_java_field_total [of content col name at]
  by (auto simp: java_member_declaration_at_def)

lemma hit_rejected_total:
  "slice_from content (loc_col loc) \<noteq> None \<Longrightarrow> hit_rejected U q hop2 (loc, content) \<noteq> None"
  using should_skip_total [of content loc U q] declaration_occurrence_total [of content "loc_col loc" U]
    is_java_method_total [of content "rq_name q" "loc_col loc"]
    has_wrong_qualifier_total [of U content "rq_name q" _ "loc_col loc"]
  by (auto simp: hit_rejected_def Let_def split: option.splits)

lemma keep_package_total:
  "slice_from content (loc_col loc) = Some (rq_name q @ at) \<Longrightarrow> keep_package_hit U X q (loc, content) \<noteq> None"
  using should_skip_total [of content loc U q] java_member_total [of content "loc_col loc" "rq_name q" at]
  by (auto simp: keep_package_hit_def)

lemma keep_field_total:
  "slice_from content (loc_col loc) = Some (rq_name q @ at) \<Longrightarrow> keep_field_hit U q (loc, content) \<noteq> None"
  using should_skip_total [of content loc U q] java_member_total [of content "loc_col loc" "rq_name q" at]
  by (auto simp: keep_field_hit_def)

lemma keep_owner_total:
  "slice_from content (loc_col loc) \<noteq> None \<Longrightarrow> keep_owner_hit U q owner found (loc, content) \<noteq> None"
  using should_skip_total [of content loc U q] qualifier_hints_owner_total [of U content "loc_col loc" owner]
  by (auto simp: keep_owner_hit_def)

lemma in_word_hits:
  "columns_in_text X R \<Longrightarrow> (loc, content) \<in> set (rg_word_in_files X R w files) \<Longrightarrow> slice_from content (loc_col loc) \<noteq> None"
  by (fastforce simp: columns_in_text_def rg_word_in_files_def split: if_splits)

lemma run_rg_search_total: "columns_in_text X R \<Longrightarrow> run_rg_search U X R q ps \<noteq> None"
  unfolding run_rg_search_def Let_def option.map_disc_iff
  by (rule filter_opt_total) (use should_skip_total in \<open>fastforce simp: columns_in_text_def\<close>)

lemma append_hits_total:
  assumes "\<And>loc content. (loc, content) \<in> set hits \<Longrightarrow> slice_from content (loc_col loc) \<noteq> None"
  shows "append_unique_reference_hits U q hop2 locs hits \<noteq> None"
proof -
  have "\<exists>st'. append_hit U q hop2 hit st = Some st' \<and> True" if "hit \<in> set hits" for hit st
    using hit_rejected_total [of "snd hit" "fst hit" U q hop2] assms [of "fst hit" "snd hit"] that
    by (cases st) (fastforce simp: append_hit_def)
  then show ?thesis
    using fold_opt_total [of "\<lambda>_. True" "(set (map reference_key locs), locs)" hits "append_hit U q hop2"]
    by (auto simp: append_unique_reference_hits_def)
qed

lemma parent_scoped_total:
  assumes ok: "columns_in_text X R"
  shows "parent_scoped_reference_locations U X F R q ps m \<noteq> None"
proof -
  have "qualified_in_files U X F R q ps m a b \<noteq> None" for a b
    unfolding qualified_in_files_def Let_def option.map_disc_iff
    by (rule filter_opt_total) (use ok should_skip_total in
        \<open>fastforce simp: columns_in_text_def rg_pattern_in_files_def split: if_splits\<close>)
  moreover have "append_unique_reference_hits U q h l (rg_word_in_files X R w fs) \<noteq> None" for h l w fs
    using append_hits_total in_word_hits [OF ok] by blast
  ultimately show ?thesis
    using run_rg_search_total [OF ok]
    by (auto simp: parent_scoped_reference_locations_def Let_def bind_eq_None_conv split: prod.splits)
qed

text \<open>C17 The reference search never panics on files that are valid UTF-8: if every run reports columns at the
  start of a character (of the name, where the name is what it searches for), then the search returns,
  whatever its scope, although it slices lines at byte columns in five places.\<close>

theorem reference_search_never_panics:
  assumes ok: "columns_in_text X R" "columns_at_word U X R (rq_name q)"
  shows "\<exists>locs. rg_find_references U X F R q m = Some locs"
proof -
  have hit: "\<exists>at. slice_from content (loc_col loc) = Some (rq_name q @ at)"
    if "(loc, content) \<in> set (rg_word_in_files X R (regex_escape U (rq_name q)) fs)" for loc content fs
    using ok(2) that by (fastforce simp: columns_at_word_def)
  have "field_scoped_reference_locations U X F R q w m \<noteq> None" for w
    unfolding field_scoped_reference_locations_def Let_def option.map_disc_iff
    by (rule filter_opt_total) (metis hit keep_field_total surj_pair)
  moreover have "filter_opt (keep_owner_hit U q w d) (rg_word_in_files X R x fs) \<noteq> None" for w d x fs
    by (rule filter_opt_total) (metis in_word_hits [OF ok(1)] keep_owner_total surj_pair)
  then have "owner_scoped_reference_locations U X F R q w m \<noteq> None" for w
    by (simp add: owner_scoped_reference_locations_def Let_def split: prod.splits del: not_None_eq)
  moreover have "package_scoped_reference_locations U X F R q (build_rg_patterns U q) m \<noteq> None"
    if "rq_parent_class q = None" "rq_declared_pkg q \<noteq> None"
  proof -
    have "build_rg_patterns U q ! 2 = regex_escape U (rq_name q)"
      using that by (auto simp: build_rg_patterns_def Let_def numeral_2_eq_2)
    moreover have "filter_opt (keep_package_hit U X q) (rg_word_in_files X R (regex_escape U (rq_name q)) fs) \<noteq> None" for fs
      by (rule filter_opt_total) (metis hit keep_package_total surj_pair)
    ultimately show ?thesis by (simp add: package_scoped_reference_locations_def Let_def)
  qed
  ultimately show ?thesis
    using parent_scoped_total [OF ok(1)] run_rg_search_total [OF ok(1)]
    by (auto simp: rg_find_references_def Let_def split: option.splits)
qed

text \<open>A run that prints one line, whatever the search.\<close>

definition printing :: "str \<Rightarrow> rg_env" where
  "printing out = \<lparr>rg_run = \<lambda>_. Some out, rg_canonicalize = Some, rg_is_dir = \<lambda>_. False, rg_exists = \<lambda>_. False,
     rg_current_dir = Some [RootDir]\<rparr>"

definition example_request :: "str \<Rightarrow> rg_request" where
  "example_request name = new_request (printing []) name None None (Some [RootDir]) False (lit ''file:///A.kt'') []"

lemma printing_hits:
  "locations_with_content X (printing out) s =
     (if out = [] then []
      else List.map_filter (parse_rg_line_with_content_rooted X (printing out) (rs_parse_root s)) (str_lines out))"
  by (simp add: locations_with_content_def rg_output_def printing_def)

definition example_hit :: "str \<Rightarrow> nat \<Rightarrow> str \<Rightarrow> location \<times> str" where
  "example_hit f col content = (point_location f 1 col, content)"

lemma rg_line_lines:
  assumes "10 \<notin> set content" "13 \<notin> set content" "10 \<notin> set f" "13 \<notin> set f"
  shows "str_lines (rg_line f l c content) = [rg_line f l c content]"
proof -
  let ?l = "rg_line f l c content"
  have "10 \<notin> set (decimal n)" "13 \<notin> set (decimal n)" for n
    using decimal_digits [of n] by (auto simp: list_all_iff is_ascii_digit_def)
  then have no: "10 \<notin> set ?l" "13 \<notin> set ?l" using assms by (auto simp: rg_line_def)
  moreover have "?l \<noteq> []" by (simp add: rg_line_def)
  ultimately show ?thesis by (simp add: str_lines_def split_on_no_sep Let_def)
qed

lemma rg_output_line:
  assumes "10 \<notin> set content" "13 \<notin> set content" "col < 2 ^ 32" and f: "f \<in> {lit ''/B.kt'', lit ''/B.java''}"
  shows "locations_with_content example_externals (printing (rg_line f 1 col content)) s = [example_hit f col content]"
proof -
  let ?l = "rg_line f 1 col content"
  have lines: "str_lines ?l = [?l]" by (rule rg_line_lines) (use assms in auto)
  have "?l \<noteq> []" by (simp add: rg_line_def)
  have "split_rg_fields ?l = Some (f, 1, col, content)"
    by (rule split_rg_fields_line) (use assms in \<open>auto simp: drive_prefix_len_def is_drive_def starts_with_def\<close>)
  then have "parse_rg_line_with_content_rooted example_externals (printing ?l) root ?l = Some (example_hit f col content)" for root
    using f by (auto simp: parse_rg_line_with_content_rooted_def example_hit_def example_externals_def Let_def
        path_of_str_def component_of_def path_is_absolute_def path_to_str_def join.simps)
  with lines \<open>?l \<noteq> []\<close> show ?thesis by (simp add: printing_hits List.map_filter_simps)
qed

lemma example_request_fields [simp]:
  "rq_name (example_request n) = n" "rq_parent_class (example_request n) = None"
  "rq_declared_pkg (example_request n) = None" "rq_owner_class (example_request n) = None"
  "rq_field_owner (example_request n) = None" "rq_include_decl (example_request n) = False"
  "rq_source_paths (example_request n) = []" "rq_from_uri (example_request n) = lit ''file:///A.kt''"
  by (simp_all add: example_request_def new_request_def)

theorem reference_search_never_panics_witness:
  "\<exists>locs. rg_find_references ascii_ucd example_externals (example_scan_fs [])
     (printing (rg_line (lit ''/B.kt'') 1 2 (lit '' foo()''))) (example_request (lit ''foo'')) None = Some locs"
proof -
  note hit = rg_output_line [of "lit '' foo()''" 2]
  have "slice_from (lit '' foo()'') 1 = Some (lit ''foo'' @ lit ''()'')"
    by (simp add: slice_from_def len_utf8_def)
  then have at: "slice_from (snd (example_hit (lit ''/B.kt'') 2 (lit '' foo()''))) (loc_col (fst (example_hit (lit ''/B.kt'') 2 (lit '' foo()''))))
      = Some (lit ''foo'' @ lit ''()'')"
    by (simp add: example_hit_def loc_col_def point_location_def Let_def)
  show ?thesis
    by (rule reference_search_never_panics)
      (use hit at in \<open>auto simp: columns_in_text_def columns_at_word_def rg_word_in_files_def example_hit_def\<close>)
qed

section \<open>Undecodable bytes\<close>

text \<open>C18 A byte that is not valid UTF-8, one character before a match, panics the search: ripgrep counts it as one
  byte of the column, the decoded line has the three bytes of a replacement character there, so where one ASCII
  character (a space, say) stands between it and the name, the column of the match lies inside the replacement
  character, and the slice up to it panics. The whole search fails, with the hits in all other files. This is for the
  search by name alone (no owner, parent class or package is known) that leaves declarations out, and a line that is
  no import and no package clause.\<close>

theorem undecodable_byte_panics:
  assumes hit: "(loc, pre @ 65533 # c # rq_name q @ post) \<in> set (locations_with_content X R
      (word_regexp (with_patterns [regex_escape U (rq_name q)] (scoped (rq_source_paths q) (rq_search_root q)))))"
    and between: "is_ascii_char c" "\<not> is_id_char U c"
    and col: "loc_col loc = utf8_len pre + 1 + len_utf8 c"
    and plain: "\<not> starts_with (trim_start (pre @ 65533 # c # rq_name q @ post)) (lit ''import '')"
      "\<not> starts_with (trim_start (pre @ 65533 # c # rq_name q @ post)) (lit ''package '')"
    and q: "rq_field_owner q = None" "rq_owner_class q = None" "rq_parent_class q = None" "rq_declared_pkg q = None"
      "\<not> rq_include_decl q"
  shows "rg_find_references U X F R q m = None"
proof -
  let ?line = "pre @ 65533 # c # rq_name q @ post"
  have len: "len_utf8 65533 = 3" "len_utf8 c = 1" using between(1) by (simp_all add: len_utf8_def is_ascii_char_def)
  have "char_index (p @ 65533 # r) (utf8_len p + 2) = None" for p r
    by (induction p) (auto simp: len_utf8_def)
  then have "should_skip_reference U loc ?line q = None"
    using plain q(5) by (simp add: should_skip_reference_def is_declaration_occurrence_at_def slice_to_def col min_def len)
  from filter_opt_panic [OF hit, of "\<lambda>(loc, content). map_option Not (should_skip_reference U loc content q)"] this
  have "run_rg_search U X R q [regex_escape U (rq_name q)] = None"
    using q by (simp add: run_rg_search_def Let_def)
  then show ?thesis using q by (simp add: rg_find_references_def build_rg_patterns_def)
qed

text \<open>The line of an output for a file in Latin-1: \<open>foo()\<close> in the third byte, after a byte that is not UTF-8 and a
  space.\<close>

theorem undecodable_byte_panics_witness:
  "rg_find_references ascii_ucd example_externals (example_scan_fs [])
     (printing (rg_line (lit ''/B.kt'') 1 3 (65533 # lit '' foo()''))) (example_request (lit ''foo'')) None = None"
proof -
  let ?out = "rg_line (lit ''/B.kt'') 1 3 (65533 # lit '' foo()'')" and ?hit = "example_hit (lit ''/B.kt'') 3 (65533 # lit '' foo()'')"
  have hits: "locations_with_content example_externals (printing ?out) s = [?hit]" for s
    by (rule rg_output_line) simp_all
  have "loc_col (fst ?hit) = utf8_len [] + 1 + len_utf8 (ch CHR '' '')"
    by (simp add: example_hit_def loc_col_def point_location_def len_utf8_def Let_def)
  then show ?thesis
    by (rule undecodable_byte_panics [where post = "lit ''()''", rotated 3])
      (unfold hits, simp_all add: example_hit_def example_request_def new_request_def starts_with_def trim_start_def
        is_whitespace_def is_ascii_char_def is_id_char_def ascii_class_defs ascii_ucd_def)
qed

section \<open>What is taken for a declaration\<close>

lemma trim_end_matches_spaces:
  assumes "b = [] \<or> last b \<noteq> 32"
  shows "trim_end_matches (\<lambda>c. c = 32) (b @ replicate n 32) = b"
proof -
  have "dropWhile (\<lambda>c. c = 32) (replicate n 32 @ rev b) = rev b"
    using assms by (subst dropWhile_append2) (simp, cases b rule: rev_cases, auto)
  then show ?thesis by (simp add: trim_end_matches_def)
qed

lemma trim_end_matches_space_split:
  "\<exists>n. p = trim_end_matches (\<lambda>c. c = 32) p @ replicate n 32"
proof -
  obtain w where w: "p = trim_end_matches (\<lambda>c. c = 32) p @ w" "list_all (\<lambda>c. c = 32) w"
    using trim_end_matches_prefix by blast
  then have "w = replicate (length w) 32" by (simp add: list_all_iff replicate_length_same)
  with w show ?thesis by metis
qed

lemma keyword_trimmed: "kw \<in> set REFERENCE_DECLARATION_KEYWORDS \<Longrightarrow> trim_end kw \<noteq> [] \<and> last (trim_end kw) \<noteq> 32"
  by (auto simp: REFERENCE_DECLARATION_KEYWORDS_def trim_end_def trim_end_matches_def is_whitespace_def)

text \<open>C19 The declaration test of a hit is exact for the text before it: the name counts as a declaration if and
  only if it follows one of the declaration keywords after spaces, where no identifier character precedes the
  keyword. (Other white space than spaces is not skipped, and the keyword may touch the name.)\<close>

theorem declaration_occurrence_exact:
  "is_declaration_occurrence_at U (p @ s) (utf8_len p) =
     Some (\<exists>kw b n. kw \<in> set REFERENCE_DECLARATION_KEYWORDS \<and> p = b @ trim_end kw @ replicate n (ch CHR '' '')
             \<and> \<not> (b \<noteq> [] \<and> is_id_char U (last b)))"
proof (cases "p = []")
  case True
  have "trim_end kw \<noteq> []" if "kw \<in> set REFERENCE_DECLARATION_KEYWORDS" for kw using keyword_trimmed that by blast
  with True show ?thesis by (auto simp: is_declaration_occurrence_at_def utf8_len_def)
next
  case False
  let ?t = "trim_end_matches (\<lambda>c. c = ch CHR '' '') p"
  have pos: "utf8_len p \<noteq> 0" using False by (cases p) (auto simp: utf8_len_def)
  have "keyword_before U ?t kw \<longleftrightarrow>
      (\<exists>b n. p = b @ trim_end kw @ replicate n 32 \<and> \<not> (b \<noteq> [] \<and> is_id_char U (last b)))"
    if kw: "kw \<in> set REFERENCE_DECLARATION_KEYWORDS" for kw
  proof
    assume k: "keyword_before U ?t kw"
    then obtain b where b: "?t = b @ trim_end kw" by (auto simp: keyword_before_def Let_def ends_with_iff)
    moreover obtain n where "p = ?t @ replicate n 32" using trim_end_matches_space_split by auto
    ultimately show "\<exists>b n. p = b @ trim_end kw @ replicate n 32 \<and> \<not> (b \<noteq> [] \<and> is_id_char U (last b))"
      using k keyword_trimmed [OF kw] by (intro exI [of _ b] exI [of _ n]) (auto simp: keyword_before_def Let_def)
  next
    assume "\<exists>b n. p = b @ trim_end kw @ replicate n 32 \<and> \<not> (b \<noteq> [] \<and> is_id_char U (last b))"
    then obtain b n where p: "p = b @ trim_end kw @ replicate n 32" and b: "\<not> (b \<noteq> [] \<and> is_id_char U (last b))" by blast
    have "?t = b @ trim_end kw"
      unfolding p using trim_end_matches_spaces [of "b @ trim_end kw" n] keyword_trimmed [OF kw] by simp
    then show "keyword_before U ?t kw" using b by (auto simp: keyword_before_def ends_with_iff)
  qed
  then have "list_ex (keyword_before U ?t) REFERENCE_DECLARATION_KEYWORDS \<longleftrightarrow>
      (\<exists>kw b n. kw \<in> set REFERENCE_DECLARATION_KEYWORDS \<and> p = b @ trim_end kw @ replicate n 32
             \<and> \<not> (b \<noteq> [] \<and> is_id_char U (last b)))"
    unfolding list_ex_iff by blast
  moreover have "min (utf8_len p) (utf8_len (p @ s)) = utf8_len p" by (simp add: utf8_len_def)
  ultimately show ?thesis using pos by (simp add: is_declaration_occurrence_at_def)
qed

section \<open>Java\<close>

lemma paren_close_plain: "40 \<notin> set s \<Longrightarrow> 41 \<notin> set s \<Longrightarrow> paren_close 1 (s @ 41 # t) = Some (length s)"
  by (induction s) auto

lemma byte_at_append: "byte_at (p @ c # s) (utf8_len p) = Some (encode_char c ! 0)"
  using length_encode_char [of c] len_utf8_pos [of c]
  by (simp add: byte_at_def utf8_bytes_append utf8_bytes_def nth_append length_utf8_bytes [unfolded utf8_bytes_def])

lemma word_before_space:
  "word_before (p @ 32 # s) (utf8_len p + 1) = Some False" "\<not> dot_before (p @ 32 # s) (utf8_len p + 1)"
  using byte_at_append [of p 32 s]
  by (simp_all add: word_before_def dot_before_def encode_char_def is_ascii_alphanumeric_def is_ascii_upper_def
      is_ascii_lower_def is_ascii_digit_def)

text \<open>In a Java file other than the declaring one, a call that is a statement of its own is never reported as
  a reference to a class member: \<open>load(x);\<close> after a space has the shape that the search takes for the
  declaration of an abstract method, and is dropped, although a subclass calls inherited methods just so.\<close>

theorem java_call_statement_dropped:
  assumes java: "ends_with (loc_uri loc) (lit ''.java'')" "loc_uri loc \<noteq> rq_from_uri q"
    and args: "ch CHR ''('' \<notin> set args" "ch CHR '')'' \<notin> set args"
    and col: "loc_col loc = utf8_len pre + 1"
  shows "keep_field_hit U q (loc, pre @ lit '' '' @ rq_name q @ lit ''('' @ args @ lit '');'' @ rest) = Some False"
proof -
  let ?name = "rq_name q" and ?c = "pre @ lit '' '' @ rq_name q @ lit ''('' @ args @ lit '');'' @ rest"
  let ?head = "pre @ 32 # ?name"
  have split: "?c = ?head @ 40 # args @ 41 # 59 # rest" "?c = pre @ 32 # ?name @ 40 # args @ 41 # 59 # rest" by simp_all
  have len: "utf8_len ?head = utf8_len pre + 1 + utf8_len ?name" by (simp add: utf8_len_def len_utf8_def)
  have "byte_at ?c (utf8_len pre + 1 + utf8_len ?name) = Some 40"
    using byte_at_append [of ?head 40] len by (simp only: split(1)) (simp add: encode_char_def)
  moreover have "slice_from ?c (utf8_len pre + 1 + utf8_len ?name + 1) = Some (args @ 41 # 59 # rest)"
    using slice_from_append [of "?head @ [40]" "args @ 41 # 59 # rest"] len
    by (simp add: utf8_len_def len_utf8_def)
  moreover have "balanced_paren_close (args @ 41 # 59 # rest) = Some (length args)"
    unfolding balanced_paren_close_def by (rule paren_close_plain) (use args in simp_all)
  ultimately have decl: "is_java_method_declaration_at ?c ?name (utf8_len pre + 1) = Some True"
    using word_before_space [of pre "?name @ 40 # args @ 41 # 59 # rest"]
    by (simp add: is_java_method_declaration_at_def Let_def starts_with_def trim_start_def is_whitespace_def)
  have "slice_from ?c (utf8_len pre + 1) \<noteq> None"
    using slice_from_append [of "pre @ [32]"] by (simp add: utf8_len_def len_utf8_def)
  then obtain skip where "should_skip_reference U loc ?c q = Some skip"
    using should_skip_total [of ?c loc U q] col by auto
  then show ?thesis
    using java decl by (simp add: keep_field_hit_def java_member_declaration_at_def col del: lit_Cons)
qed

theorem java_call_statement_dropped_witness:
  "keep_field_hit ascii_ucd (example_request (lit ''load''))
     (Location (lit ''file:///B.java'') (Rng (Position 3 8) (Position 3 8)), lit ''        load(x);'') = Some False"
  using java_call_statement_dropped [of "Location (lit ''file:///B.java'') (Rng (Position 3 8) (Position 3 8))"
      "example_request (lit ''load'')" "lit ''x''" "lit ''       ''" ascii_ucd "[]"]
  by (simp add: ends_with_def starts_with_def loc_col_def len_utf8_def)

text \<open>A field that is read at the end of a statement is dropped in the same way.\<close>

lemma java_field_read_dropped:
  assumes "ends_with (loc_uri loc) (lit ''.java'')" "loc_uri loc \<noteq> rq_from_uri q"
    and col: "loc_col loc = utf8_len pre + 1"
  shows "keep_field_hit U q (loc, pre @ lit '' '' @ rq_name q @ lit '';'' @ rest) = Some False"
proof -
  let ?name = "rq_name q" and ?c = "pre @ lit '' '' @ rq_name q @ lit '';'' @ rest"
  have at: "slice_from ?c (utf8_len pre + 1) = Some (?name @ 59 # rest)"
    using slice_from_append [of "pre @ [32]"] by (simp add: utf8_len_def len_utf8_def)
  have "slice_from ?c (utf8_len pre + 1 + utf8_len ?name) = Some (59 # rest)"
    using slice_from_append [of "pre @ 32 # ?name" "59 # rest"] by (simp add: utf8_len_def len_utf8_def add.assoc)
  then have "is_java_field_declaration_at ?c ?name (utf8_len pre + 1) = Some True"
    using word_before_space [of pre "?name @ 59 # rest"]
    by (simp add: is_java_field_declaration_at_def Let_def trim_start_def is_whitespace_def)
  then have "java_member_declaration_at ?c ?name (utf8_len pre + 1) = Some True"
    using is_java_method_total [of ?c ?name "utf8_len pre + 1"] by (auto simp: java_member_declaration_at_def)
  moreover obtain skip where "should_skip_reference U loc ?c q = Some skip"
    using should_skip_total [of ?c loc U q] at col by auto
  ultimately show ?thesis using assms by (simp add: keep_field_hit_def)
qed

text \<open>No override is found in a Java file unless a Kotlin or Swift declaration keyword stands before the
  method's name: every location reported there is on a line with \<open>fun name\<close>, \<open>func name\<close>,
  \<open>val name\<close> or the like, which a Java method declaration never has. The search is meant to accept every
  declaration of the method in a Java file.\<close>

theorem java_overrides_need_keyword:
  assumes "loc \<in> set (rg_find_method_overrides U X F R method_name declaring_class root source_paths m)"
    and "from_path (x_url_path X (loc_uri loc)) = Java"
  shows "\<exists>content kw files. (loc, content) \<in> set (rg_word_in_files X R (regex_escape U method_name) files)
     \<and> kw \<in> set REFERENCE_DECLARATION_KEYWORDS \<and> contains_sub (trim content) (kw @ method_name)"
proof -
  obtain content files where "(loc, content) \<in> set (rg_word_in_files X R (regex_escape U method_name) files)"
    "is_override_declaration Java (trim content) method_name"
    using assms by (auto simp: rg_find_method_overrides_def Let_def split: option.splits if_splits)
  then show ?thesis
    by (auto simp: is_declaration_of_def list_ex_iff contains_sub_def Let_def split: option.splits)
qed

theorem java_overrides_need_keyword_witness:
  "\<exists>content kw files. (fst (example_hit (lit ''/B.java'') 5 (lit ''fun load()'')), content)
       \<in> set (rg_word_in_files example_externals (printing (rg_line (lit ''/B.java'') 1 5 (lit ''fun load()'')))
                (regex_escape ascii_ucd (lit ''load'')) files)
     \<and> kw \<in> set REFERENCE_DECLARATION_KEYWORDS \<and> contains_sub (trim content) (kw @ lit ''load'')"
proof (rule java_overrides_need_keyword)
  let ?R = "printing (rg_line (lit ''/B.java'') 1 5 (lit ''fun load()''))"
  let ?hit = "example_hit (lit ''/B.java'') 5 (lit ''fun load()'')"
  have "locations_with_content example_externals ?R s = [?hit]" for s by (rule rg_output_line) simp_all
  moreover have "str_lines (rg_line (lit ''/B.java'') 1 5 (lit ''fun load()'')) \<noteq> []"
    by (subst rg_line_lines) simp_all
  then have "files_with_matches ?R (with_patterns ps (list_files (scoped [] root))) \<noteq> []" for ps root
    by (simp add: files_with_matches_def rg_output_def printing_def with_patterns_def list_files_def
        scoped_def rooted_def rg_line_def)
  moreover have "is_override_declaration Java (trim (lit ''fun load()'')) (lit ''load'')"
    by (simp add: is_declaration_of_def REFERENCE_DECLARATION_KEYWORDS_def trim_def trim_start_def trim_end_def
        trim_end_matches_def is_whitespace_def starts_with_def is_ascii_alphanumeric_def ascii_class_defs)
  moreover have "from_path (lit ''/B.java'') = Java"
    by (simp add: from_path_def LANGUAGE_ALL_def ends_with_def starts_with_def)
  ultimately show "fst ?hit \<in> set (rg_find_method_overrides ascii_ucd example_externals (example_scan_fs []) ?R
      (lit ''load'') (lit ''A'') (Some [RootDir]) [] None)"
    by (simp add: rg_find_method_overrides_def Let_def files_mentioning_def filter_candidate_files_def
        rg_files_with_matches_scoped_def rg_word_in_files_def example_hit_def point_location_def
        example_externals_def del: lit_Cons is_override_declaration.simps)
  show "from_path (x_url_path example_externals (loc_uri (fst ?hit))) = Java"
    by (simp add: example_hit_def point_location_def Let_def example_externals_def from_path_def LANGUAGE_ALL_def
        ends_with_def starts_with_def)
qed

section \<open>The directories searched\<close>

text \<open>C20 Producers are looked for in the directories that ripgrep searches: for an indexed file in the
  workspace, where the source paths that hold it exist, the test by the effective source paths says exactly
  whether it lies in one of the directories given to ripgrep, also where some or all configured source paths
  are missing and ripgrep falls back to the root.\<close>

theorem producers_scoped_like_rg:
  assumes uri: "Option.bind (x_url_parse X uri_str) (x_url_to_file_path X) = Some file_path"
    and root: "path_starts_with file_path root"
    and exist: "\<And>sp. sp \<in> set source_paths \<Longrightarrow> path_starts_with file_path (abs_source_path root sp)
      \<Longrightarrow> rg_is_dir R (abs_source_path root sp)"
  shows "file_uri_under_source_paths X uri_str (resolve_effective_source_paths R source_paths (Some root)) (Some root)
     \<longleftrightarrow> list_ex (path_starts_with file_path) (source_dirs R root source_paths)"
proof -
  let ?abs = "abs_source_path root"
  have effective: "resolve_effective_source_paths R source_paths (Some root) =
      (if \<exists>sp \<in> set source_paths. rg_is_dir R (?abs sp) then source_paths else [])"
    by (simp add: resolve_effective_source_paths_def abs_source_path_def list_ex_iff Let_def if_distrib cong: if_cong)
  have under: "file_uri_under_source_paths X uri_str sps (Some root) \<longleftrightarrow>
      sps = [] \<or> (\<exists>sp \<in> set sps. path_starts_with file_path (?abs sp))" for sps
    using uri by (simp add: file_uri_under_source_paths_def abs_source_path_def list_ex_iff Let_def if_distrib cong: if_cong)
  show ?thesis
  proof (cases "\<exists>sp \<in> set source_paths. rg_is_dir R (?abs sp)")
    case True
    then have "filter (rg_is_dir R) (map ?abs source_paths) \<noteq> []" "source_paths \<noteq> []" by (auto simp: filter_empty_conv)
    then show ?thesis using True exist by (auto simp: effective under source_dirs_def Let_def list_ex_iff)
  next
    case False
    then have "filter (rg_is_dir R) (map ?abs source_paths) = []" by (auto simp: filter_empty_conv)
    then show ?thesis using False root by (simp add: effective under source_dirs_def)
  qed
qed

theorem producers_scoped_like_rg_witness:
  "file_uri_under_source_paths example_externals (lit ''/w/src/A.kt'')
      (resolve_effective_source_paths (printing []) [lit ''gone''] (Some [RootDir, Normal (lit ''w'')])) (Some [RootDir, Normal (lit ''w'')])
   \<longleftrightarrow> list_ex (path_starts_with (path_of_str (lit ''/w/src/A.kt'')))
         (source_dirs (printing []) [RootDir, Normal (lit ''w'')] [lit ''gone''])"
  by (rule producers_scoped_like_rg)
    (simp_all add: example_externals_def path_of_str_def component_of_def path_starts_with_def abs_source_path_def
      path_is_absolute_def path_join_def)

end
