(* ===== verification/Rg_Slots.thy ===== *)
theory Rg_Slots
  imports Prelude
begin

text \<open>
  The slots for search processes: \<open>try_acquire_rg_slot\<close> and the guard it returns, in
  \<^verbatim>\<open>src/rg.rs\<close>.

  The counter is one atomic word shared by all threads. A thread is idle, in the loop with the value it
  last read, or holds a guard; every atomic operation is one step, and threads interleave in any order. A
  weak compare-exchange may fail although the counter has the value expected.
\<close>

section \<open>Threads and steps\<close>

definition RG_MAX_ACTIVE :: "64 word" where "RG_MAX_ACTIVE = 3"

datatype slot_pc = Idle | Trying "64 word" | Holding

record 't slots =
  rg_active :: "64 word"
  slot_pc_of :: "'t \<Rightarrow> slot_pc"

definition no_slots :: "'t slots" where
  "no_slots = \<lparr>rg_active = 0, slot_pc_of = (\<lambda>_. Idle)\<rparr>"

definition set_pc :: "'t \<Rightarrow> slot_pc \<Rightarrow> 't slots \<Rightarrow> 't slots" where
  "set_pc t pc s = s\<lparr>slot_pc_of := (slot_pc_of s)(t := pc)\<rparr>"

text \<open>One turn of the loop: the thread gives up, takes a slot, or goes on with the value the failed exchange
  read. \<open>spurious\<close> is a failure for no reason.\<close>

definition slot_turn :: "bool \<Rightarrow> 't \<Rightarrow> 64 word \<Rightarrow> 't slots \<Rightarrow> 't slots" where
  "slot_turn spurious t current s =
     (if RG_MAX_ACTIVE \<le> current then set_pc t Idle s
      else if rg_active s = current \<and> \<not> spurious then set_pc t Holding (s\<lparr>rg_active := current + 1\<rparr>)
      else set_pc t (Trying (rg_active s)) s)"

inductive slot_step :: "'t \<Rightarrow> 't slots \<Rightarrow> 't slots \<Rightarrow> bool" where
  load: "slot_pc_of s t = Idle \<Longrightarrow> slot_step t s (set_pc t (Trying (rg_active s)) s)"
| turn: "slot_pc_of s t = Trying current \<Longrightarrow> slot_step t s (slot_turn spurious t current s)"
| drop_guard: "slot_pc_of s t = Holding \<Longrightarrow> slot_step t s (set_pc t Idle (s\<lparr>rg_active := rg_active s - 1\<rparr>))"

inductive_cases slot_stepE: "slot_step t s s'"

inductive slots_reachable :: "'t slots \<Rightarrow> bool" where
  init: "slots_reachable no_slots"
| step: "slots_reachable s \<Longrightarrow> slot_step t s s' \<Longrightarrow> slots_reachable s'"

section \<open>The counter and the guards\<close>

definition holders :: "'t slots \<Rightarrow> 't set" where
  "holders s = {t. slot_pc_of s t = Holding}"

text \<open>The shape of a state: the counter is the number of guards, at most three, and so is every value that a
  thread in the loop has read.\<close>

definition slots_typed :: "'t slots \<Rightarrow> bool" where
  "slots_typed s \<longleftrightarrow> finite (holders s) \<and> unat (rg_active s) = card (holders s) \<and> card (holders s) \<le> 3
     \<and> (\<forall>t current. slot_pc_of s t = Trying current \<longrightarrow> unat current \<le> 3)"

lemma holders_set_pc:
  "holders (set_pc t pc s) = (if pc = Holding then insert t (holders s) else holders s - {t})"
  by (auto simp: holders_def set_pc_def)

lemma slot_fields [simp]:
  "rg_active (set_pc t pc s) = rg_active s" "slot_pc_of (set_pc t pc s) = (slot_pc_of s)(t := pc)"
  "holders (s\<lparr>rg_active := w\<rparr>) = holders s"
  by (simp_all add: set_pc_def holders_def)

lemma slots_typed_step:
  assumes "slot_step t s s'" "slots_typed s"
  shows "slots_typed s'"
  using assms(1)
proof (cases rule: slot_step.cases)
  case load
  then have "t \<notin> holders s" by (simp add: holders_def)
  with load assms(2) show ?thesis by (auto simp: slots_typed_def holders_set_pc)
next
  case (turn current spurious)
  have t: "t \<notin> holders s" using turn by (simp add: holders_def)
  show ?thesis
  proof (cases "RG_MAX_ACTIVE \<le> current \<or> rg_active s \<noteq> current \<or> spurious")
    case True
    with turn t assms(2) show ?thesis by (auto simp: slots_typed_def slot_turn_def holders_set_pc)
  next
    case False
    then have "unat current < 3" by (simp add: RG_MAX_ACTIVE_def word_le_nat_alt)
    then have "unat (current + 1) = Suc (unat current)" by (simp add: unat_word_ariths)
    with False turn t assms(2) \<open>unat current < 3\<close> show ?thesis
      by (auto simp: slots_typed_def slot_turn_def holders_set_pc)
  qed
next
  case drop_guard
  then have t: "t \<in> holders s" by (simp add: holders_def)
  with assms(2) have "0 < unat (rg_active s)" by (auto simp: slots_typed_def card_gt_0_iff)
  then have "unat (rg_active s - 1) = unat (rg_active s) - 1" by (simp add: unat_minus_one unat_gt_0)
  with drop_guard t assms(2) show ?thesis by (auto simp: slots_typed_def holders_set_pc)
qed

text \<open>C21 The state of the slots keeps its shape: in every reachable state, however the atomic operations of any
  number of threads interleave and whether or not weak exchanges fail, the counter is exactly the number of
  guards that are held, at most three, it never wraps below zero, and no thread acts on a value above three.\<close>

theorem slots_keep_type: "slots_reachable s \<Longrightarrow> slots_typed s"
proof (induction rule: slots_reachable.induct)
  case init
  show ?case by (simp add: slots_typed_def no_slots_def holders_def)
qed (rule slots_typed_step)

definition one_held :: "nat slots" where
  "one_held = slot_turn False 0 0 (set_pc 0 (Trying 0) no_slots)"

lemma slots_one_held: "slots_reachable one_held"
proof -
  have "slot_step 0 no_slots (set_pc (0::nat) (Trying (rg_active (no_slots :: nat slots))) no_slots)"
    by (rule slot_step.load) (simp add: no_slots_def)
  moreover have "rg_active (no_slots :: nat slots) = 0" by (simp add: no_slots_def)
  ultimately have "slots_reachable (set_pc (0::nat) (Trying 0) no_slots)"
    using slots_reachable.step [OF slots_reachable.init] by metis
  moreover have "slot_step 0 (set_pc (0::nat) (Trying 0) no_slots) one_held"
    unfolding one_held_def by (rule slot_step.turn) simp
  ultimately show ?thesis by (rule slots_reachable.step)
qed

theorem slots_keep_type_witness: "slots_typed one_held \<and> holders one_held = {0} \<and> rg_active one_held = 1"
proof (intro conjI)
  show "slots_typed one_held" by (rule slots_keep_type) (rule slots_one_held)
qed (simp_all add: one_held_def slot_turn_def RG_MAX_ACTIVE_def no_slots_def holders_set_pc, simp add: holders_def)

end
