(* ===== verification/Type_Subst.thy ===== *)
theory Type_Subst
  imports Detail_Text
begin

text \<open>
  Substituting type parameters in the text of types: \<^verbatim>\<open>src/indexer/infer/type_subst.rs\<close>,
  \<open>apply_type_subst\<close> of \<^verbatim>\<open>src/indexer/lookup.rs\<close>, and the functions of
  \<^verbatim>\<open>sig.rs\<close> and \<^verbatim>\<open>scope.rs\<close> they call.
\<close>

section \<open>Type arguments\<close>

definition type_args_inner :: "str \<Rightarrow> str option" where
  "type_args_inner type_name =
     (case (find_char (\<lambda>c. c = ch CHR ''<'') type_name, rfind_char (\<lambda>c. c = ch CHR ''>'') type_name) of
        (Some op, Some cl) \<Rightarrow> if cl \<le> op then None else Some (drop (Suc op) (take cl type_name))
      | _ \<Rightarrow> None)"

definition push_head :: "rchar \<Rightarrow> str list \<Rightarrow> str list" where
  "push_head c ws = (case ws of [] \<Rightarrow> [[c]] | w # ws' \<Rightarrow> (c # w) # ws')"

fun split_commas :: "int \<Rightarrow> str \<Rightarrow> str list" where
  "split_commas depth [] = [[]]"
| "split_commas depth (c # s) =
     (if c = ch CHR ''<'' then push_head c (split_commas (depth + 1) s)
      else if c = ch CHR ''>'' then push_head c (split_commas (depth - 1) s)
      else if c = ch CHR '','' \<and> depth = 0 then [] # split_commas depth s
      else push_head c (split_commas depth s))"

definition split_top_level_commas :: "str \<Rightarrow> str list" where
  "split_top_level_commas param_list = split_commas 0 param_list"

datatype argument_nullability = Stripped | AsWritten

definition readable_type_argument :: "str \<Rightarrow> argument_nullability \<Rightarrow> str option" where
  "readable_type_argument raw_argument nullability =
     (let trimmed = trim raw_argument
      in if trimmed = lit ''*'' \<or> starts_with trimmed (lit ''in '') then None
         else (let argument = strip_variance trimmed
               in case nullability of Stripped \<Rightarrow> Some (strip_nullable argument) | AsWritten \<Rightarrow> Some argument))"

text \<open>Collecting pairs into a hash map: a later pair replaces an earlier one.\<close>

definition collect_map :: "('k \<times> 'v) list \<Rightarrow> ('k, 'v) hmap" where
  "collect_map kvs = fold (\<lambda>(k, v). Mapping.update k v) kvs Mapping.empty"

definition build_type_arg_subst_for_params :: "str list \<Rightarrow> str \<Rightarrow> argument_nullability \<Rightarrow> (str, str) hmap" where
  "build_type_arg_subst_for_params tparams concrete_type nullability =
     (if tparams = [] then Mapping.empty
      else (case type_args_inner concrete_type of
              None \<Rightarrow> Mapping.empty
            | Some inner \<Rightarrow>
                let type_args = map (\<lambda>raw. readable_type_argument raw nullability)
                      (filter (\<lambda>raw. trim raw \<noteq> []) (split_top_level_commas inner))
                in collect_map (List.map_filter (\<lambda>(p, a). map_option (Pair p) a) (zip tparams type_args))))"

definition build_fn_subst :: "str list \<Rightarrow> str list \<Rightarrow> (str, str) hmap" where
  "build_fn_subst params args = collect_map (filter (\<lambda>(_, a). a \<noteq> lit ''_'') (zip params args))"

section \<open>Applying a substitution\<close>

definition ident_start :: "ucd \<Rightarrow> rchar \<Rightarrow> bool" where
  "ident_start U c \<longleftrightarrow> is_alphabetic U c \<or> c = ch CHR ''_''"

lemma length_dropWhile_less: "length (dropWhile p s) < Suc (length s)"
  by (simp add: le_imp_less_Suc length_dropWhile_le)

text \<open>The text from index \<open>i\<close> on; \<open>after_dot\<close> says whether the character before it is a dot. (An
  alphabetic character is alphanumeric, so an identifier has at least its first character.)\<close>

function subst_from :: "ucd \<Rightarrow> (str, str) hmap \<Rightarrow> bool \<Rightarrow> str \<Rightarrow> str" where
  "subst_from U m after_dot [] = []"
| "subst_from U m after_dot (c # s) =
     (if ident_start U c
      then (let ident = c # takeWhile (is_id_char U) s;
                rest = dropWhile (is_id_char U) s;
                before_member = (case rest of d # n # _ \<Rightarrow> d = ch CHR ''.'' \<and> ident_start U n | _ \<Rightarrow> False)
            in if after_dot \<or> before_member then ident @ subst_from U m False rest
               else (case Mapping.lookup m ident of
                       None \<Rightarrow> ident @ subst_from U m False rest
                     | Some r \<Rightarrow>
                         let already_nullable = ends_with r (lit ''?'') \<and> rest \<noteq> [] \<and> hd rest = ch CHR ''?''
                         in r @ subst_from U m False (if already_nullable then tl rest else rest)))
      else c # subst_from U m (c = ch CHR ''.'') s)"
  by pat_completeness auto

termination
  by (relation "measure (\<lambda>(U, m, d, s). length s)")
    (auto simp: length_dropWhile_less intro: le_less_trans [OF diff_le_self length_dropWhile_less])

definition apply_type_subst :: "ucd \<Rightarrow> str \<Rightarrow> (str, str) hmap \<Rightarrow> str" where
  "apply_type_subst U sig subst = (if Mapping.is_empty subst then sig else subst_from U subst False sig)"

definition apply_simple_subst :: "ucd \<Rightarrow> str \<Rightarrow> (str, str) hmap \<Rightarrow> str" where
  "apply_simple_subst U type_text subst = apply_type_subst U type_text subst"

section \<open>Matching a receiver\<close>

lemma type_args_inner_shorter: "type_args_inner s = Some t \<Longrightarrow> length t < length s"
  by (cases s) (auto simp: type_args_inner_def split: option.splits if_splits)

lemma split_commas_shorter: "w \<in> set (split_commas d s) \<Longrightarrow> length w \<le> length s"
proof (induction d s arbitrary: w rule: split_commas.induct)
  case (2 d c s)
  then show ?case
    by (auto simp: push_head_def split: if_splits list.splits) fastforce+
qed simp

lemma length_trims: "length (trim s) \<le> length s" "length (strip_nullable s) \<le> length s"
  "length (strip_variance s) \<le> length s"
proof -
  have start: "length (trim_start x) \<le> length x" for x
    by (simp add: trim_start_def length_dropWhile_le)
  have trim_end: "length (trim_end_matches p x) \<le> length x" for p x
    using length_dropWhile_le [of p "rev x"] by (simp add: trim_end_matches_def)
  show "length (trim s) \<le> length s" "length (strip_nullable s) \<le> length s"
    using start trim_end le_trans unfolding trim_def trim_end_def strip_nullable_def by blast+
  have "length (trim_start r) \<le> length s" if "strip_prefix (trim_start s) p = Some r" for p r
    using that start [of r] start [of s] by (auto simp: strip_prefix_Some)
  then show "length (strip_variance s) \<le> length s"
    using start [of s] by (auto simp: strip_variance_def Let_def split: option.splits)
qed

lemma arg_of_base_shorter:
  assumes "type_args_inner b = Some inner" "length b \<le> length s" "(a, x) \<in> set (zip (split_top_level_commas inner) ys)"
  shows "length a < length s"
  using type_args_inner_shorter [OF assms(1)] split_commas_shorter [of a 0 inner] set_zip_leftD [OF assms(3)] assms(2)
  by (simp add: split_top_level_commas_def)

function match_type_args_recursive ::
  "str \<Rightarrow> str \<Rightarrow> str list \<Rightarrow> (str, str) hmap \<Rightarrow> (str, str) hmap" where
  "match_type_args_recursive declared concrete params m =
     (let decl_base = strip_nullable (trim declared); conc_base = strip_nullable (trim concrete)
      in if decl_base = [] \<or> conc_base = [] then m
         else if decl_base \<in> set params
         then Mapping.update decl_base (if is_nullable (trim declared) then conc_base else trim concrete) m
         else (case (type_args_inner decl_base, type_args_inner conc_base) of
                 (Some d_inner, Some c_inner) \<Rightarrow>
                   fold (\<lambda>(d, c) m. match_type_args_recursive d c params m)
                     (zip (split_top_level_commas d_inner) (split_top_level_commas c_inner)) m
               | _ \<Rightarrow> m))"
  by pat_completeness auto

termination
proof (relation "measure (\<lambda>(d, c, ps, m). length d)", goal_cases)
  case (2 declared concrete params m decl_base conc_base pa pb d_inner c_inner pair d c)
  then show ?case
    using arg_of_base_shorter [of decl_base d_inner declared d c] length_trims [of declared]
      length_trims(2) [of "trim declared"] by auto
qed auto

definition build_ext_fn_type_subst :: "str \<Rightarrow> str \<Rightarrow> str list \<Rightarrow> (str, str) hmap" where
  "build_ext_fn_type_subst declared_receiver concrete_receiver fun_type_params =
     (let declared = trim declared_receiver; whole_receiver_param = strip_nullable declared
      in if whole_receiver_param \<in> set fun_type_params
         then (let concrete = trim concrete_receiver;
                   bound = (if is_nullable declared then strip_nullable concrete else concrete)
               in if bound \<noteq> [] then Mapping.update whole_receiver_param bound Mapping.empty else Mapping.empty)
         else match_type_args_recursive declared_receiver concrete_receiver fun_type_params Mapping.empty)"

definition is_declared_type_param :: "str \<Rightarrow> str list \<Rightarrow> bool" where
  "is_declared_type_param name fun_type_params \<longleftrightarrow> name \<in> set fun_type_params"

definition constructor_of :: "str \<Rightarrow> str" where
  "constructor_of type_text = last_segment (trim (hd (split_on (ch CHR ''<'') type_text)))"

definition bare_constructor :: "str \<Rightarrow> str" where
  "bare_constructor s = strip_nullable (strip_variance (trim s))"

function same_type_constructors :: "str \<Rightarrow> str \<Rightarrow> str list \<Rightarrow> bool" where
  "same_type_constructors declared written fun_type_params =
     (let declared = bare_constructor declared; written = bare_constructor written
      in if is_declared_type_param declared fun_type_params then True
         else if constructor_of declared \<noteq> constructor_of written then False
         else (case type_args_inner declared of
                 None \<Rightarrow> True
               | Some declared_inner \<Rightarrow>
                   (case type_args_inner written of
                      None \<Rightarrow> False
                    | Some written_inner \<Rightarrow>
                        let declared_args = split_top_level_commas declared_inner;
                            written_args = split_top_level_commas written_inner
                        in length declared_args = length written_args
                           \<and> list_all (\<lambda>(d, w). same_type_constructors d w fun_type_params)
                               (zip declared_args written_args))))"
  by pat_completeness auto

termination
proof (relation "measure (\<lambda>(d, w, ps). length d)", goal_cases)
  case (2 declared written ps decl writ d_inner w_inner d_args w_args pair d w)
  have "length (bare_constructor declared) \<le> length declared"
    using length_trims [of declared] length_trims(3) [of "trim declared"]
      length_trims(2) [of "strip_variance (trim declared)"] by (simp add: bare_constructor_def)
  with 2 show ?case using arg_of_base_shorter [of decl d_inner declared d w w_args] by auto
qed auto

fun split_words :: "(rchar \<Rightarrow> bool) \<Rightarrow> str \<Rightarrow> str list" where
  "split_words p [] = [[]]"
| "split_words p (c # s) = (if p c then [] # split_words p s else push_head c (split_words p s))"

definition mentions_identifier :: "ucd \<Rightarrow> str \<Rightarrow> str \<Rightarrow> bool" where
  "mentions_identifier U type_text name \<longleftrightarrow> name \<in> set (split_words (\<lambda>c. \<not> is_id_char U c) type_text)"

definition is_generic_param :: "ucd \<Rightarrow> str \<Rightarrow> bool" where
  "is_generic_param U name \<longleftrightarrow> name \<noteq> [] \<and> utf8_len name \<le> 3 \<and> list_all (is_uppercase U) name"

definition first_type_arg_raw :: "ucd \<Rightarrow> str \<Rightarrow> str option" where
  "first_type_arg_raw U type_name =
     Option.bind (type_args_inner type_name) (\<lambda>inner.
     Option.bind (readable_type_argument (first_type_arg inner) Stripped) (\<lambda>arg.
       let base = ident_prefix U arg
       in if base = [] \<or> is_generic_param U base then None else Some arg))"

section \<open>The receiver of a call chain\<close>

text \<open>Scanning back for the opening delimiter; \<open>s\<close> is reversed, the result a length of the text.\<close>

fun balanced_back :: "rchar \<Rightarrow> rchar \<Rightarrow> int \<Rightarrow> str \<Rightarrow> nat option" where
  "balanced_back op cl depth [] = None"
| "balanced_back op cl depth (c # s) =
     (if c = cl then balanced_back op cl (depth + 1) s
      else if c = op then (if depth = 1 then Some (length s) else balanced_back op cl (depth - 1) s)
      else balanced_back op cl depth s)"

definition rfind_balanced :: "str \<Rightarrow> rchar \<Rightarrow> rchar \<Rightarrow> nat option" where
  "rfind_balanced s op cl = balanced_back op cl 0 (rev s)"

definition strip_trailing_lambda :: "str \<Rightarrow> str" where
  "strip_trailing_lambda s =
     (let result = trim_end s
      in if ends_with result (lit ''}'')
         then (case rfind_balanced result (ch CHR ''{'') (ch CHR ''}'') of
                 Some op \<Rightarrow> trim_end (take op result) | None \<Rightarrow> result)
         else result)"

definition strip_trailing_call_args :: "str \<Rightarrow> str" where
  "strip_trailing_call_args s =
     (if \<not> ends_with s (lit '')'') then s
      else (case rfind_balanced s (ch CHR ''('') (ch CHR '')'') of Some i \<Rightarrow> take i s | None \<Rightarrow> s))"

definition strip_trailing_args :: "str \<Rightarrow> str" where
  "strip_trailing_args s = trim_end (strip_trailing_call_args s)"

definition capitalize_first_char :: "ucd \<Rightarrow> str \<Rightarrow> str" where
  "capitalize_first_char U s = (case s of [] \<Rightarrow> [] | c # cs \<Rightarrow> char_to_uppercase U c @ cs)"

fun last_dot :: "int \<Rightarrow> nat \<Rightarrow> nat option \<Rightarrow> str \<Rightarrow> nat option" where
  "last_dot depth i found [] = found"
| "last_dot depth i found (c # s) =
     (if c = ch CHR ''('' \<or> c = ch CHR ''['' then last_dot (depth + 1) (Suc i) found s
      else if c = ch CHR '')'' \<or> c = ch CHR '']'' then last_dot (depth - 1) (Suc i) found s
      else if c = ch CHR ''.'' \<and> depth = 0 then last_dot depth (Suc i) (Some i) s
      else last_dot depth (Suc i) found s)"

definition find_last_dot_at_depth_zero :: "str \<Rightarrow> nat option" where
  "find_last_dot_at_depth_zero s = last_dot 0 0 None s"

definition last_ident_in :: "ucd \<Rightarrow> str \<Rightarrow> str" where
  "last_ident_in U s = rev (takeWhile (is_id_char U) (rev s))"

text \<open>What the inference reads of the index: the trait \<open>InferDeps\<close>, as far as it is used here.\<close>

record infer_deps =
  id_class_type_params :: "str \<Rightarrow> str list"
  id_fun_callable_info :: "str \<Rightarrow> url \<Rightarrow> (str list \<times> str) option"
  id_var_type :: "str \<Rightarrow> url \<Rightarrow> str option"
  id_method_return_type :: "str \<Rightarrow> str \<Rightarrow> url \<Rightarrow> str option"

definition build_type_arg_subst :: "infer_deps \<Rightarrow> str \<Rightarrow> str \<Rightarrow> argument_nullability \<Rightarrow> (str, str) hmap" where
  "build_type_arg_subst D class_name concrete_type nullability =
     build_type_arg_subst_for_params (id_class_type_params D class_name) concrete_type nullability"

text \<open>\<open>base.method\<close> of a chain; \<open>None\<close> leaves the case to the variable.\<close>

definition chain_method_type :: "ucd \<Rightarrow> infer_deps \<Rightarrow> str \<Rightarrow> url \<Rightarrow> str option" where
  "chain_method_type U D stripped uri =
     Option.bind (find_last_dot_at_depth_zero stripped) (\<lambda>dot.
       let base_expr = trim (take dot stripped);
           method_name = ident_prefix U (trim (drop (Suc dot) stripped))
       in if base_expr = [] \<or> method_name = [] then None
          else (let base_var = last_ident_in U base_expr;
                    base_type = id_var_type D base_var uri;
                    base_name = (case base_type of
                        Some t \<Rightarrow> last_segment (dotted_ident_prefix U t)
                      | None \<Rightarrow> capitalize_first_char U base_var)
                in if base_name = [] then None
                   else map_option (\<lambda>return_type.
                          apply_type_subst U return_type
                            (case base_type of
                               Some t \<Rightarrow> build_type_arg_subst D base_name t Stripped
                             | None \<Rightarrow> Mapping.empty))
                        (id_method_return_type D base_name method_name uri)))"

definition resolve_chain_receiver_type :: "ucd \<Rightarrow> infer_deps \<Rightarrow> str \<Rightarrow> str \<Rightarrow> url \<Rightarrow> str option" where
  "resolve_chain_receiver_type U D before_open fn_name uri =
     (let trimmed = trim_end before_open
      in if \<not> ends_with trimmed fn_name then None
         else (let receiver_expr = trim_end (trim_end_matches (\<lambda>c. c = ch CHR ''.'')
                     (take (length trimmed - length fn_name) trimmed));
                   stripped = strip_trailing_args (strip_trailing_lambda receiver_expr)
               in if receiver_expr = [] \<or> stripped = [] then None
                  else (case chain_method_type U D stripped uri of
                          Some t \<Rightarrow> Some t
                        | None \<Rightarrow>
                            let var_name = last_ident_in U stripped
                            in if var_name \<noteq> [] then id_var_type D var_name uri else None)))"

definition try_substitute_ext_fn_type_param ::
  "ucd \<Rightarrow> infer_deps \<Rightarrow> str \<Rightarrow> str \<Rightarrow> str \<Rightarrow> url \<Rightarrow> str option" where
  "try_substitute_ext_fn_type_param U D raw_input fn_name before_open uri =
     Option.bind (id_fun_callable_info D fn_name uri) (\<lambda>(tparams, receiver_type).
       if \<not> is_declared_type_param raw_input tparams \<or> receiver_type = [] then None
       else Option.bind (resolve_chain_receiver_type U D before_open fn_name uri) (\<lambda>concrete.
              Mapping.lookup (build_ext_fn_type_subst receiver_type concrete tparams) raw_input))"

end
