(* ===== verification/Type_Subst_Props.thy ===== *)
theory Type_Subst_Props
  imports Type_Subst
begin

text \<open>
  Substitution on the text of types is substitution on types: what the functions of
  \<open>Type_Subst\<close> cut, match and replace in printed types is what the same operations do on the
  types themselves.
\<close>

section \<open>Types whose names are identifiers\<close>

definition simple_name :: "ucd \<Rightarrow> str \<Rightarrow> bool" where
  "simple_name U n \<longleftrightarrow> n \<noteq> [] \<and> ident_start U (hd n) \<and> list_all (\<lambda>c. is_id_char U c \<and> \<not> is_whitespace c) n"

fun simple_type :: "ucd \<Rightarrow> ktype \<Rightarrow> bool" where
  "simple_type U (KType name args) \<longleftrightarrow> simple_name U name \<and> list_all (simple_type U) args"

fun subst_type :: "(str \<Rightarrow> ktype option) \<Rightarrow> ktype \<Rightarrow> ktype" where
  "subst_type \<sigma> (KType name args) =
     (if args = [] then (case \<sigma> name of Some t \<Rightarrow> t | None \<Rightarrow> KType name [])
      else KType name (map (subst_type \<sigma>) args))"

text \<open>The text of a type whose parameters are replaced by text.\<close>

fun type_text :: "(str \<Rightarrow> str option) \<Rightarrow> ktype \<Rightarrow> str" where
  "type_text \<tau> (KType name args) =
     (if args = [] then (case \<tau> name of Some t \<Rightarrow> t | None \<Rightarrow> name)
      else name @ 60 # join (lit '', '') (map (type_text \<tau>) args) @ [62])"

text \<open>A type parameter takes no arguments.\<close>

fun bare_params :: "(str \<Rightarrow> 'a option) \<Rightarrow> ktype \<Rightarrow> bool" where
  "bare_params \<sigma> (KType name args) \<longleftrightarrow> (args = [] \<or> \<sigma> name = None \<and> list_all (bare_params \<sigma>) args)"

fun leaf_names :: "ktype \<Rightarrow> str set" where
  "leaf_names (KType name args) = (if args = [] then {name} else \<Union> (set (map leaf_names args)))"

definition args_text :: "ktype list \<Rightarrow> str" where
  "args_text args = join (lit '', '') (map type_str args)"

lemma type_str_args: "type_str (KType n args) = n @ (if args = [] then [] else 60 # args_text args @ [62])"
  by (simp add: args_text_def)

lemma args_text_simps:
  "args_text [] = []" "args_text [a] = type_str a" "args_text (a # b # as) = type_str a @ 44 # 32 # args_text (b # as)"
  by (simp_all add: args_text_def)

lemma id_char_plain: "is_id_char U c \<Longrightarrow> c \<notin> {60, 62, 44, 63, 46, 32, 42}"
  by (auto simp: is_id_char_def ascii_class_defs)

lemma simple_name_chars: "simple_name U n \<Longrightarrow> c \<in> set n \<Longrightarrow> is_id_char U c \<and> \<not> is_whitespace c"
  by (simp add: simple_name_def list_all_iff)

lemma simple_name_plain: "simple_name U n \<Longrightarrow> set n \<inter> {60, 62, 44, 63, 46, 32, 42} = {}"
  using simple_name_chars [of U n] id_char_plain [of U] by blast

lemma simple_subst: "simple_type U t \<Longrightarrow> (\<And>n t. \<sigma> n = Some t \<Longrightarrow> simple_type U t) \<Longrightarrow> simple_type U (subst_type \<sigma> t)"
  by (induction t) (auto simp: list_all_iff split: option.splits)

section \<open>Edges of a printed type\<close>

lemma type_str_ends:
  assumes "simple_type U t"
  shows "type_str t \<noteq> [] \<and> \<not> is_whitespace (hd (type_str t)) \<and> \<not> is_whitespace (last (type_str t))
     \<and> last (type_str t) \<noteq> 63"
proof -
  obtain n args where t: "t = KType n args" by (cases t)
  then have n: "simple_name U n" using assms by simp
  then have ne: "n \<noteq> []" by (simp add: simple_name_def)
  have "\<not> is_whitespace (hd n)" "\<not> is_whitespace (last n)" "last n \<noteq> 63"
    using simple_name_chars [OF n] simple_name_plain [OF n] hd_in_set [OF ne] last_in_set [OF ne] by blast+
  moreover have "\<not> is_whitespace 62" by (simp add: is_whitespace_def)
  ultimately show ?thesis
    unfolding t type_str_args using ne by simp
qed

lemma trim_matches_last: "s \<noteq> [] \<Longrightarrow> \<not> p (last s) \<Longrightarrow> trim_end_matches p s = s"
  by (cases s rule: rev_cases) (auto simp: trim_end_matches_def)

lemma trim_ends: "s \<noteq> [] \<Longrightarrow> \<not> is_whitespace (hd s) \<Longrightarrow> \<not> is_whitespace (last s) \<Longrightarrow> trim s = s"
  by (cases s) (simp_all add: trim_def trim_start_def trim_end_def trim_matches_last)

lemma trim_type [simp]: "simple_type U t \<Longrightarrow> trim (type_str t) = type_str t"
  using type_str_ends trim_ends by blast

lemma trim_space [simp]: "trim (32 # s) = trim s"
  by (simp add: trim_def trim_start_def is_whitespace_def)

lemma strip_nullable_last: "s \<noteq> [] \<Longrightarrow> last s \<noteq> 63 \<Longrightarrow> strip_nullable s = s"
  by (simp add: strip_nullable_def trim_matches_last)

lemma strip_nullable_type [simp]: "simple_type U t \<Longrightarrow> strip_nullable (type_str t) = type_str t"
  using type_str_ends strip_nullable_last by blast

lemma not_nullable_type [simp]: "simple_type U t \<Longrightarrow> \<not> is_nullable (type_str t)"
proof -
  assume t: "simple_type U t"
  then have "trim_end (type_str t) = type_str t"
    using type_str_ends [OF t] by (simp add: trim_end_def trim_matches_last)
  then show ?thesis using type_str_ends [OF t] by (auto simp: is_nullable_def ends_with_iff)
qed

lemma type_str_no_keyword:
  assumes "simple_type U t"
  shows "type_str t \<noteq> lit ''*''" "\<not> starts_with (type_str t) (lit ''in '')" "\<not> starts_with (type_str t) (lit ''out '')"
proof -
  obtain n args where t: "t = KType n args" by (cases t)
  then have n: "simple_name U n" using assms by simp
  then have "n \<noteq> []" "set n \<inter> {60, 62, 44, 63, 46, 32, 42} = {}"
    using simple_name_plain by (auto simp: simple_name_def)
  then show "type_str t \<noteq> lit ''*''" "\<not> starts_with (type_str t) (lit ''in '')" "\<not> starts_with (type_str t) (lit ''out '')"
    unfolding t type_str_args starts_with_iff by (auto simp: append_eq_Cons_conv Cons_eq_append_conv split: if_splits)
qed

lemma strip_variance_type: "simple_type U t \<Longrightarrow> strip_variance (type_str t) = type_str t"
proof -
  assume t: "simple_type U t"
  then have "trim_start (type_str t) = type_str t"
    using type_str_ends [OF t] by (cases "type_str t") (auto simp: trim_start_def)
  then show ?thesis using type_str_no_keyword [OF t] by (simp add: strip_variance_def strip_prefix_def del: lit_Cons)
qed

lemma readable_type:
  "simple_type U t \<Longrightarrow> trim raw = type_str t \<Longrightarrow> readable_type_argument raw k = Some (type_str t)"
  using type_str_no_keyword [of U t] strip_variance_type [of U t]
  by (cases k) (simp_all add: readable_type_argument_def del: lit_Cons)

section \<open>Cutting type arguments\<close>

definition prepend :: "str \<Rightarrow> str list \<Rightarrow> str list" where
  "prepend w ws = (case ws of [] \<Rightarrow> [w] | x # xs \<Rightarrow> (w @ x) # xs)"

lemma prepend_simps [simp]: "prepend [] (x # xs) = x # xs" "push_head c (prepend w ws) = prepend (c # w) ws"
  "prepend v (prepend w ws) = prepend (v @ w) ws"
  by (simp_all add: prepend_def push_head_def split: list.splits)

lemma split_commas_ne [simp]: "split_commas d s \<noteq> []"
  by (induction d s rule: split_commas.induct) (auto simp: push_head_def split: list.splits)

lemma prepend_Nil [simp]: "prepend [] (split_commas d s) = split_commas d s"
  by (cases "split_commas d s") (auto simp: prepend_def)

lemma push_head_prepend: "push_head c ws = prepend [c] ws"
  by (simp add: push_head_def prepend_def split: list.splits)

lemma split_plain:
  "\<forall>c \<in> set n. c \<noteq> 60 \<and> c \<noteq> 62 \<and> (c = 44 \<longrightarrow> d \<noteq> 0) \<Longrightarrow> split_commas d (n @ s) = prepend n (split_commas d s)"
  by (induction n) (auto simp: push_head_prepend)

lemma split_type:
  "simple_type U t \<Longrightarrow> 0 \<le> d \<Longrightarrow> split_commas d (type_str t @ s) = prepend (type_str t) (split_commas d s)"
proof (induction t arbitrary: d s)
  case (KType n args)
  have name: "split_commas e (n @ r) = prepend n (split_commas e r)" for e r
    by (rule split_plain) (use simple_name_plain [of U n] KType.prems in auto)
  have inside: "split_commas (d + 1) (args_text as @ r) = prepend (args_text as) (split_commas (d + 1) r)"
    if "set as \<subseteq> set args" for as r
    using that
  proof (induction as arbitrary: r rule: induct_list012)
    case (3 a b as)
    have "split_commas (d + 1) (44 # 32 # x) = prepend [44, 32] (split_commas (d + 1) x)" for x
      using KType.prems(2) by (simp add: push_head_prepend)
    with 3 KType show ?case by (simp add: args_text_simps list_all_iff)
  qed (use KType in \<open>auto simp: args_text_simps list_all_iff\<close>)
  show ?case
    using inside [of args] by (simp add: type_str_args name push_head_prepend del: type_str.simps)
qed

text \<open>The arguments are found again, all but the first with the space that follows the comma.\<close>

lemma split_args:
  "list_all (simple_type U) (a # as) \<Longrightarrow>
     split_top_level_commas (args_text (a # as)) = type_str a # map (\<lambda>t. 32 # type_str t) as"
proof (induction as arbitrary: a)
  case Nil
  then show ?case using split_type [of U a 0 "[]"] by (simp add: split_top_level_commas_def args_text_simps prepend_def)
next
  case (Cons b as)
  have "split_commas 0 (32 # args_text (b # as)) = (32 # type_str b) # map (\<lambda>t. 32 # type_str t) as"
    using Cons by (simp add: split_top_level_commas_def push_head_def)
  then show ?case
    using Cons.prems split_type [of U a 0] by (simp add: split_top_level_commas_def args_text_simps prepend_def)
qed

lemma find_char_at: "\<forall>c \<in> set a. \<not> p c \<Longrightarrow> p c \<Longrightarrow> find_char p (a @ c # b) = Some (length a)"
  by (induction a) auto

lemma type_args_type:
  assumes "simple_type U (KType n args)"
  shows "type_args_inner (type_str (KType n args)) = (if args = [] then None else Some (args_text args))"
proof (cases "args = []")
  case True
  have "find_char (\<lambda>c. c = 60) n = None" using simple_name_plain [of U n] assms by (auto simp: find_char_None)
  with True show ?thesis by (simp add: type_args_inner_def)
next
  case False
  let ?s = "n @ 60 # args_text args @ [62]"
  have "find_char (\<lambda>c. c = 60) ?s = Some (length n)"
    using simple_name_plain [of U n] assms by (intro find_char_at) auto
  moreover have "rfind_char (\<lambda>c. c = 62) ?s = Some (length n + Suc (length (args_text args)))"
    by (simp add: rfind_char_def)
  ultimately show ?thesis using False by (simp add: type_str_args type_args_inner_def del: type_str.simps)
qed

section \<open>Replacing\<close>

definition prints :: "(str, str) hmap \<Rightarrow> (str \<Rightarrow> str option) \<Rightarrow> bool" where
  "prints m \<tau> \<longleftrightarrow> (\<forall>n. Mapping.lookup m n = \<tau> n)"

lemma subst_plain:
  "\<not> ident_start U c \<Longrightarrow> c \<noteq> 46 \<Longrightarrow> subst_from U m d (c # s) = c # subst_from U m False s"
  by simp

lemma ident_start_plain: "c \<in> {60, 62, 44, 63, 46, 32} \<Longrightarrow> \<not> ident_start U c"
  by (auto simp: ident_start_def ascii_class_defs)

text \<open>A name, up to a character that cannot be part of it or make it a segment of a path.\<close>

lemma subst_name:
  assumes n: "simple_name U n" and rest: "rest = [] \<or> hd rest \<in> {60, 62, 44}"
  shows "subst_from U m False (n @ rest) =
     (case Mapping.lookup m n of None \<Rightarrow> n | Some r \<Rightarrow> r) @ subst_from U m False rest"
proof -
  obtain c cs where n': "n = c # cs" "ident_start U c" using n by (cases n) (auto simp: simple_name_def)
  have ids: "\<forall>x \<in> set cs. is_id_char U x" using n n' by (simp add: simple_name_def list_all_iff)
  have stop: "rest = [] \<or> \<not> is_id_char U (hd rest)" using rest by (auto simp: is_id_char_def ascii_class_defs)
  have "takeWhile (is_id_char U) (cs @ rest) = cs" "dropWhile (is_id_char U) (cs @ rest) = rest"
    using ids stop by (cases rest; simp)+
  moreover have "\<not> (case rest of d # e # _ \<Rightarrow> d = ch CHR ''.'' \<and> ident_start U e | _ \<Rightarrow> False)"
    "\<not> (rest \<noteq> [] \<and> hd rest = 63)"
    using rest by (auto split: list.splits)
  ultimately show ?thesis using n' by (auto simp: Let_def split: option.splits)
qed

lemma subst_printed:
  assumes "prints m \<tau>"
  shows "simple_type U t \<Longrightarrow> bare_params \<tau> t \<Longrightarrow> rest = [] \<or> hd rest \<in> {62, 44} \<Longrightarrow>
    subst_from U m False (type_str t @ rest) = type_text \<tau> t @ subst_from U m False rest"
proof (induction t arbitrary: rest)
  case (KType n args)
  have inside: "subst_from U m False (args_text as @ 62 # r)
      = join (lit '', '') (map (type_text \<tau>) as) @ subst_from U m False (62 # r)"
    if "set as \<subseteq> set args" "args \<noteq> []" for as r
    using that
  proof (induction as rule: induct_list012)
    case (3 a b as)
    have "subst_from U m False (44 # 32 # x) = 44 # 32 # subst_from U m False x" for x
      using ident_start_plain [of 44 U] ident_start_plain [of 32 U] by simp
    with 3 KType show ?case by (simp add: args_text_simps list_all_iff del: subst_from.simps)
  qed (use KType in \<open>auto simp: args_text_simps list_all_iff simp del: subst_from.simps\<close>)
  have plain: "subst_from U m False (60 # x) = 60 # subst_from U m False x"
    "subst_from U m False (62 # x) = 62 # subst_from U m False x" for x
    using ident_start_plain [of _ U] by simp_all
  have look: "Mapping.lookup m n = \<tau> n" using assms by (simp add: prints_def)
  show ?case
  proof (cases "args = []")
    case True
    then have "subst_from U m False (n @ rest) = (case Mapping.lookup m n of None \<Rightarrow> n | Some r \<Rightarrow> r) @ subst_from U m False rest"
      using KType.prems by (intro subst_name) auto
    then show ?thesis using True look by (auto split: option.splits simp del: subst_from.simps)
  next
    case False
    then have "subst_from U m False (n @ 60 # args_text args @ 62 # rest) = n @ subst_from U m False (60 # args_text args @ 62 # rest)"
      using subst_name [of U n "60 # args_text args @ 62 # rest" m] KType.prems look by (auto simp del: subst_from.simps)
    then show ?thesis
      using False inside [of args rest] by (simp add: type_str_args plain del: type_str.simps subst_from.simps)
  qed
qed

lemma join_map_cong: "(\<And>x. x \<in> set xs \<Longrightarrow> f x = g x) \<Longrightarrow> join sep (map f xs) = join sep (map g xs)"
  by (simp cong: map_cong)

lemma type_text_unchanged: "type_text (\<lambda>_. None) t = type_str t"
proof (induction t)
  case (KType n args)
  then have "join (lit '', '') (map (type_text (\<lambda>_. None)) args) = join (lit '', '') (map type_str args)"
    by (rule join_map_cong)
  then show ?case by simp
qed

lemma type_text_types: "type_text (\<lambda>n. map_option type_str (\<sigma> n)) t = type_str (subst_type \<sigma> t)"
proof (induction t)
  case (KType n args)
  then have "join (lit '', '') (map (type_text (\<lambda>n. map_option type_str (\<sigma> n))) args)
      = join (lit '', '') (map (\<lambda>t. type_str (subst_type \<sigma> t)) args)"
    by (rule join_map_cong)
  then show ?case by (simp add: comp_def split: option.split)
qed

lemma bare_params_types: "bare_params (\<lambda>n. map_option f (\<sigma> n)) t = bare_params \<sigma> t"
  by (induction t) (auto simp: list_all_iff)

lemma apply_printed:
  assumes "prints m \<tau>" "simple_type U t" "bare_params \<tau> t"
  shows "apply_type_subst U (type_str t) m = type_text \<tau> t"
proof (cases "Mapping.is_empty m")
  case True
  then have "\<tau> n = None" for n
    using assms(1) by (cases "\<tau> n") (auto simp: prints_def Mapping.is_empty_def keys_dom_lookup dom_def)
  then have "\<tau> = (\<lambda>_. None)" by auto
  then show ?thesis using True by (simp add: apply_type_subst_def type_text_unchanged)
next
  case False
  then show ?thesis using subst_printed [OF assms, of "[]"] by (simp add: apply_type_subst_def)
qed

section \<open>Reading the arguments of an instance\<close>

lemma lookup_collect: "Mapping.lookup (collect_map kvs) k = map_of (rev kvs) k"
proof -
  have "Mapping.lookup (fold (\<lambda>(k, v). Mapping.update k v) kvs m) k
      = (case map_of (rev kvs) k of Some v \<Rightarrow> Some v | None \<Rightarrow> Mapping.lookup m k)" for m
    by (induction kvs arbitrary: m) (auto simp: lookup_update' map_add_def split: option.splits)
  then show ?thesis by (simp add: collect_map_def split: option.splits)
qed

text \<open>An argument as it is written: a star, a type with \<open>in\<close>, or a type with or without \<open>out\<close> and a
  question mark.\<close>

datatype written_arg = Star | Inward ktype | Written bool ktype bool

fun arg_str :: "written_arg \<Rightarrow> str" where
  "arg_str Star = lit ''*''"
| "arg_str (Inward t) = lit ''in '' @ type_str t"
| "arg_str (Written out t q) = (if out then lit ''out '' else []) @ type_str t @ (if q then lit ''?'' else [])"

fun simple_arg :: "ucd \<Rightarrow> written_arg \<Rightarrow> bool" where
  "simple_arg U Star \<longleftrightarrow> True"
| "simple_arg U (Inward t) \<longleftrightarrow> simple_type U t"
| "simple_arg U (Written out t q) \<longleftrightarrow> simple_type U t"

text \<open>What can be read from a value of the argument's type.\<close>

fun arg_read :: "argument_nullability \<Rightarrow> written_arg \<Rightarrow> str option" where
  "arg_read k (Written out t q) = Some (type_str t @ (if q \<and> k = AsWritten then lit ''?'' else []))"
| "arg_read k _ = None"

definition instance_str :: "str \<Rightarrow> written_arg list \<Rightarrow> str" where
  "instance_str c args = c @ ch CHR ''<'' # join (lit '', '') (map arg_str args) @ lit ''>''"

lemma arg_ends:
  assumes "simple_arg U a"
  shows "arg_str a \<noteq> [] \<and> \<not> is_whitespace (hd (arg_str a)) \<and> \<not> is_whitespace (last (arg_str a))"
proof -
  have plain: "\<not> is_whitespace 42" "\<not> is_whitespace 63" "\<not> is_whitespace 105" "\<not> is_whitespace 111"
    by (simp_all add: is_whitespace_def)
  show ?thesis using assms plain type_str_ends [of U] by (cases a) (auto simp: hd_append)
qed

lemma trim_arg [simp]: "simple_arg U a \<Longrightarrow> trim (arg_str a) = arg_str a"
  using arg_ends trim_ends by blast

lemma starts_with_butlast: "c \<notin> set p \<Longrightarrow> starts_with (x @ [c]) p = starts_with x p"
  by (auto simp: starts_with_iff append_eq_append_conv2 append_eq_Cons_conv Cons_eq_append_conv)

lemma read_arg:
  assumes "simple_arg U a"
  shows "readable_type_argument (arg_str a) k = arg_read k a"
proof (cases a)
  case Star
  have "trim (lit ''*'') = lit ''*''" using trim_arg [of U Star] by simp
  then show ?thesis using Star by (simp add: readable_type_argument_def)
next
  case (Inward t)
  have "starts_with (arg_str a) (lit ''in '')" using Inward by (simp add: starts_with_iff)
  then show ?thesis using Inward trim_arg [OF assms] by (simp add: readable_type_argument_def del: lit_Cons arg_str.simps)
next
  case (Written out t q)
  define x where "x = type_str t @ (if q then [63] else [])"
  have t: "simple_type U t" using assms Written by simp
  note ends = type_str_ends [OF t]
  have x: "trim_start x = x" using ends by (cases "type_str t") (auto simp: x_def trim_start_def)
  have no: "\<not> starts_with x (lit ''in '')" "\<not> starts_with x (lit ''out '')" "x \<noteq> lit ''*''"
    using type_str_no_keyword [OF t] ends by (auto simp: x_def starts_with_butlast append_eq_Cons_conv)
  have a: "arg_str a = (if out then lit ''out '' else []) @ x" using Written by (simp add: x_def)
  have "\<not> starts_with (arg_str a) (lit ''in '')" "arg_str a \<noteq> lit ''*''"
    unfolding a using no by (auto simp: starts_with_def)
  moreover have "strip_variance (arg_str a) = x"
    unfolding a using x no
    by (auto simp: strip_variance_def strip_prefix_def trim_start_def is_whitespace_def starts_with_def Let_def)
  moreover have "strip_nullable x = type_str t"
    using strip_nullable_type [OF t] by (simp add: x_def strip_nullable_def trim_end_matches_def)
  ultimately have "readable_type_argument (arg_str a) k = Some (case k of Stripped \<Rightarrow> type_str t | AsWritten \<Rightarrow> x)"
    using trim_arg [OF assms] by (cases k) (simp_all add: readable_type_argument_def Let_def)
  then show ?thesis using Written by (cases k) (simp_all add: x_def)
qed

lemma split_arg:
  assumes "simple_arg U a"
  shows "split_commas 0 (arg_str a @ s) = prepend (arg_str a) (split_commas 0 s)"
proof -
  have plain: "split_commas 0 (lit ''*'' @ r) = prepend (lit ''*'') (split_commas 0 r)"
    "split_commas 0 (lit ''in '' @ r) = prepend (lit ''in '') (split_commas 0 r)"
    "split_commas 0 (lit ''out '' @ r) = prepend (lit ''out '') (split_commas 0 r)"
    "split_commas 0 (lit ''?'' @ r) = prepend (lit ''?'') (split_commas 0 r)" for r
    by (rule split_plain; simp)+
  show ?thesis
    using assms split_type [of U _ 0] plain by (cases a) (simp_all del: lit_Cons)
qed

lemma split_written:
  "list_all (simple_arg U) (a # as) \<Longrightarrow>
     split_top_level_commas (join (lit '', '') (map arg_str (a # as))) = arg_str a # map (\<lambda>t. 32 # arg_str t) as"
proof (induction as arbitrary: a)
  case Nil
  then show ?case using split_arg [of U a "[]"] by (simp add: split_top_level_commas_def prepend_def)
next
  case (Cons b as)
  have "split_commas 0 (32 # join (lit '', '') (map arg_str (b # as))) = (32 # arg_str b) # map (\<lambda>t. 32 # arg_str t) as"
    using Cons by (simp add: split_top_level_commas_def push_head_def)
  then show ?case
    using Cons.prems split_arg [of U a] by (simp add: split_top_level_commas_def prepend_def)
qed

lemma instance_inner:
  assumes "simple_name U c"
  shows "type_args_inner (instance_str c args) = Some (join (lit '', '') (map arg_str args))"
proof -
  let ?i = "join (lit '', '') (map arg_str args)"
  have "find_char (\<lambda>x. x = 60) (c @ 60 # ?i @ [62]) = Some (length c)"
    using simple_name_plain [OF assms] by (intro find_char_at) auto
  moreover have "rfind_char (\<lambda>x. x = 62) (c @ 60 # ?i @ [62]) = Some (length c + Suc (length ?i))"
    by (simp add: rfind_char_def)
  ultimately show ?thesis by (simp add: instance_str_def type_args_inner_def)
qed

lemma map_of_readable:
  "length ps = length rs \<Longrightarrow> distinct ps \<Longrightarrow>
     map_of (List.map_filter (\<lambda>(p, a). map_option (Pair p) a) (zip ps rs)) n = Option.bind (map_of (zip ps rs) n) id
     \<and> fst ` set (List.map_filter (\<lambda>(p, a). map_option (Pair p) a) (zip ps rs)) \<subseteq> set ps
     \<and> distinct (map fst (List.map_filter (\<lambda>(p, a). map_option (Pair p) a) (zip ps rs)))"
proof (induction ps rs rule: list_induct2)
  case (Cons p ps r rs)
  have none: "map_of (zip ps rs) p = None" using Cons.prems Cons.hyps by simp
  with Cons show ?case by (cases r) (auto simp: List.map_filter_simps none)
qed (simp add: List.map_filter_simps)

lemma instance_prints:
  assumes inst: "simple_name U c" "list_all (simple_arg U) args" and len: "length ps = length args" and "distinct ps"
  shows "prints (build_type_arg_subst_for_params ps (instance_str c args) k)
    (\<lambda>n. Option.bind (map_of (zip ps args) n) (arg_read k))"
proof (cases args)
  case Nil
  then show ?thesis using len by (simp add: prints_def build_type_arg_subst_for_params_def)
next
  case (Cons a as)
  define raws where "raws = arg_str a # map (\<lambda>t. 32 # arg_str t) as"
  have raw: "\<exists>b \<in> set args. simple_arg U b \<and> (r = arg_str b \<or> r = 32 # arg_str b)" if "r \<in> set raws" for r
    using that inst(2) Cons by (auto simp: raws_def list_all_iff)
  have "trim r \<noteq> []" if "r \<in> set raws" for r
    using raw [OF that] arg_ends by fastforce
  then have filter: "filter (\<lambda>raw. trim raw \<noteq> []) raws = raws" by (simp add: filter_id_conv)
  have space: "readable_type_argument (32 # r) k = readable_type_argument r k" for r
    by (simp add: readable_type_argument_def)
  have read: "map (\<lambda>raw. readable_type_argument raw k) raws = map (arg_read k) args"
    using inst(2) Cons read_arg [of U _ k] by (auto simp: raws_def space list_all_iff)
  let ?kvs = "List.map_filter (\<lambda>(p, a). map_option (Pair p) a) (zip ps (map (arg_read k) args))"
  have "ps \<noteq> []" using len Cons by auto
  moreover have "split_top_level_commas (join (lit '', '') (map arg_str args)) = raws"
    using split_written [of U a as] inst(2) Cons by (simp add: raws_def)
  ultimately have built: "build_type_arg_subst_for_params ps (instance_str c args) k = collect_map ?kvs"
    using instance_inner [OF inst(1)] by (simp add: build_type_arg_subst_for_params_def filter read Let_def)
  have kvs: "map_of ?kvs n = Option.bind (map_of (zip ps (map (arg_read k) args)) n) id" "distinct (map fst ?kvs)" for n
    using map_of_readable [of ps "map (arg_read k) args" n] len \<open>distinct ps\<close> by simp_all
  then have "map_of (rev ?kvs) n = map_of ?kvs n" for n
    by (metis distinct_rev map_of_eqI map_of_inject_set rev_map set_rev)
  moreover have "Option.bind (map_of (zip ps (map (arg_read k) args)) n) id = Option.bind (map_of (zip ps args) n) (arg_read k)" for n
    by (simp add: zip_map2 map_of_map) (cases "map_of (zip ps args) n"; simp)
  ultimately show ?thesis by (simp add: prints_def built lookup_collect kvs(1))
qed

text \<open>C22 Reading a member through an instance of its class substitutes: where a class has the type parameters
  \<open>ps\<close> and a receiver the printed type \<open>C<A1, ..., An>\<close>, cutting the arguments out of that text
  and replacing the parameters in the text of a member's type gives the text of that type with each parameter
  replaced by what can be read of its argument: the type itself where it is written with \<open>out\<close> or without variance,
  with its question mark only where nullability is to be kept, while a parameter whose argument is \<open>*\<close> or
  written with \<open>in\<close> stays. Arguments and member types are identifiers applied to types, nested at will; names that
  merely contain a parameter's name stay. (Function types as arguments are excluded: see below.)\<close>

theorem member_type_substituted:
  assumes "simple_name U c" "list_all (simple_arg U) args" "length ps = length args" "distinct ps"
    and "simple_type U member" "bare_params (\<lambda>n. Option.bind (map_of (zip ps args) n) (arg_read k)) member"
  shows "apply_type_subst U (type_str member) (build_type_arg_subst_for_params ps (instance_str c args) k)
     = type_text (\<lambda>n. Option.bind (map_of (zip ps args) n) (arg_read k)) member"
  using instance_prints [OF assms(1-4)] assms(5,6) by (rule apply_printed)

abbreviation leaf :: "string \<Rightarrow> ktype" where
  "leaf n \<equiv> KType (lit n) []"

theorem member_type_substituted_witness:
  "apply_type_subst ascii_ucd (lit ''Map<K, List<V>>'')
     (build_type_arg_subst_for_params [lit ''K'', lit ''V''] (lit ''Cache<out Key?, Set<Value>>'') Stripped)
   = lit ''Map<Key, List<Set<Value>>>''"
  using member_type_substituted [of ascii_ucd "lit ''Cache''"
      "[Written True (leaf ''Key'') True, Written False (KType (lit ''Set'') [leaf ''Value'']) False]"
      "[lit ''K'', lit ''V'']" "KType (lit ''Map'') [leaf ''K'', KType (lit ''List'') [leaf ''V'']]" Stripped]
  by (simp add: simple_name_def ident_start_def is_id_char_def ascii_class_defs is_whitespace_def instance_str_def)

section \<open>Matching a receiver against its declaration\<close>

declare match_type_args_recursive.simps [simp del]

lemma match_trim: "match_type_args_recursive (32 # d) c ps m = match_type_args_recursive d c ps m"
  "match_type_args_recursive d (32 # c) ps m = match_type_args_recursive d c ps m"
  by (simp_all only: match_type_args_recursive.simps [of "32 # d" c] match_type_args_recursive.simps [of d "32 # c"]
      match_type_args_recursive.simps [of d c] trim_space)

text \<open>Matching the text of a declared type with the text of one of its instances binds the parameters that
  occur in it, and nothing else.\<close>

lemma match_printed:
  assumes ps: "\<And>p. p \<in> set ps \<longleftrightarrow> \<sigma> p \<noteq> None" "\<And>p. p \<in> set ps \<Longrightarrow> simple_name U p"
    and ts: "\<And>p t. \<sigma> p = Some t \<Longrightarrow> simple_type U t"
  shows "simple_type U d \<Longrightarrow> bare_params \<sigma> d \<Longrightarrow>
    Mapping.lookup (match_type_args_recursive (type_str d) (type_str (subst_type \<sigma> d)) ps m) p =
      (if p \<in> leaf_names d \<and> p \<in> set ps then map_option type_str (\<sigma> p) else Mapping.lookup m p)"
proof (induction d arbitrary: m p)
  case (KType n args)
  let ?d = "KType n args" and ?c = "subst_type \<sigma> (KType n args)"
  have simple: "simple_type U ?c" using simple_subst [OF KType.prems(1), of \<sigma>] ts by blast
  note edges = trim_type [OF KType.prems(1)] strip_nullable_type [OF KType.prems(1)] not_nullable_type [OF KType.prems(1)]
    trim_type [OF simple] strip_nullable_type [OF simple]
    type_str_ends [OF KType.prems(1), THEN conjunct1] type_str_ends [OF simple, THEN conjunct1]
  have unfolded: "match_type_args_recursive (type_str ?d) (type_str ?c) ps m =
      (if type_str ?d \<in> set ps then Mapping.update (type_str ?d) (type_str ?c) m
       else (case (type_args_inner (type_str ?d), type_args_inner (type_str ?c)) of
               (Some d_inner, Some c_inner) \<Rightarrow>
                 fold (\<lambda>(d, c) m. match_type_args_recursive d c ps m)
                   (zip (split_top_level_commas d_inner) (split_top_level_commas c_inner)) m
             | _ \<Rightarrow> m))"
    by (subst match_type_args_recursive.simps) (simp only: edges Let_def if_False simp_thms if_True)
  show ?case
  proof (cases "args = []")
    case True
    then have d: "type_str ?d = n" by simp
    show ?thesis
    proof (cases "n \<in> set ps")
      case True
      with \<open>args = []\<close> obtain t where "\<sigma> n = Some t" using ps(1) by auto
      then show ?thesis using True unfolded d \<open>args = []\<close> by (simp add: lookup_update')
    next
      case False
      then have "type_args_inner (type_str ?d) = None" using type_args_type [OF KType.prems(1)] \<open>args = []\<close> by simp
      then show ?thesis using False unfolded d \<open>args = []\<close> by (auto simp: lookup_update')
    qed
  next
    case False
    then obtain a as where args: "args = a # as" by (cases args) auto
    have c: "?c = KType n (map (subst_type \<sigma>) args)" using False by simp
    have "60 \<in> set (type_str ?d)" using False by simp
    then have notin: "type_str ?d \<notin> set ps" using ps(2) simple_name_plain by blast
    have zipped: "fold (\<lambda>(d, c) m. match_type_args_recursive d c ps m)
          (zip (map (\<lambda>t. 32 # type_str t) bs) (map (\<lambda>t. 32 # type_str t) (map (subst_type \<sigma>) bs))) m
        = fold (\<lambda>t. match_type_args_recursive (type_str t) (type_str (subst_type \<sigma> t)) ps) bs m" for bs m
      by (induction bs arbitrary: m) (simp_all add: match_trim)
    have folded: "match_type_args_recursive (type_str ?d) (type_str ?c) ps m
        = fold (\<lambda>t. match_type_args_recursive (type_str t) (type_str (subst_type \<sigma> t)) ps) args m"
      unfolding unfolded using notin type_args_type [OF KType.prems(1)] type_args_type [of U n "map (subst_type \<sigma>) args"]
        split_args [of U a as] split_args [of U "subst_type \<sigma> a" "map (subst_type \<sigma>) as"] simple KType.prems(1) c
        zipped [of as]
      by (simp add: args del: type_str.simps)
    have "Mapping.lookup (fold (\<lambda>t. match_type_args_recursive (type_str t) (type_str (subst_type \<sigma> t)) ps) bs m) p =
        (if p \<in> \<Union> (set (map leaf_names bs)) \<and> p \<in> set ps then map_option type_str (\<sigma> p) else Mapping.lookup m p)"
      if "set bs \<subseteq> set args" for bs m
      using that
    proof (induction bs arbitrary: m)
      case (Cons b bs)
      then have "simple_type U b" "bare_params \<sigma> b" "b \<in> set args"
        using KType.prems False by (auto simp: list_all_iff)
      with Cons KType.IH show ?case by (auto simp del: type_str.simps)
    qed simp
    then show ?thesis unfolding folded using False by simp
  qed
qed

text \<open>C23 Matching inverts instantiation: where an extension function's receiver is declared as a type in which each
  of the function's type parameters occurs, and the receiver at hand is an instance of it, matching the two texts
  binds every parameter to the text it was replaced by, so replacing the parameters in the text of the function's
  result gives the result's instance. The types are identifiers applied to types, nested at will, without variance,
  question marks, paths and function types (an arrow in an argument makes the matcher bind the rest to one
  parameter).\<close>

theorem extension_result_instantiated:
  assumes ps: "\<And>p. p \<in> set ps \<longleftrightarrow> \<sigma> p \<noteq> None" "\<And>p. p \<in> set ps \<Longrightarrow> simple_name U p"
    and ts: "\<And>p t. \<sigma> p = Some t \<Longrightarrow> simple_type U t"
    and d: "simple_type U d" "bare_params \<sigma> d" and occur: "set ps \<subseteq> leaf_names d"
    and r: "simple_type U r" "bare_params \<sigma> r"
  shows "apply_type_subst U (type_str r)
       (build_ext_fn_type_subst (type_str d) (type_str (subst_type \<sigma> d)) ps)
     = type_str (subst_type \<sigma> r)"
proof -
  let ?m = "match_type_args_recursive (type_str d) (type_str (subst_type \<sigma> d)) ps Mapping.empty"
  have "Mapping.lookup ?m p = map_option type_str (\<sigma> p)" for p
    using match_printed [OF ps ts d, where m = Mapping.empty and p = p] occur ps(1) [of p] by auto
  moreover have "build_ext_fn_type_subst (type_str d) (type_str (subst_type \<sigma> d)) ps = ?m"
  proof (cases "type_str d \<in> set ps")
    case True
    have simple: "simple_type U (subst_type \<sigma> d)" using simple_subst [OF d(1), of \<sigma>] ts by blast
    show ?thesis
      using True type_str_ends [OF d(1)] type_str_ends [OF simple]
      by (subst match_type_args_recursive.simps)
        (simp add: build_ext_fn_type_subst_def trim_type [OF d(1)] strip_nullable_type [OF d(1)] not_nullable_type [OF d(1)]
          trim_type [OF simple] strip_nullable_type [OF simple])
  next
    case False
    then show ?thesis
      by (simp add: build_ext_fn_type_subst_def trim_type [OF d(1)] strip_nullable_type [OF d(1)])
  qed
  ultimately have "prints (build_ext_fn_type_subst (type_str d) (type_str (subst_type \<sigma> d)) ps) (\<lambda>n. map_option type_str (\<sigma> n))"
    by (simp add: prints_def)
  from apply_printed [OF this r(1)] r(2) show ?thesis by (simp add: bare_params_types type_text_types)
qed

theorem extension_result_instantiated_witness:
  "apply_type_subst ascii_ucd (lit ''Map<T, List<T>>'')
     (build_ext_fn_type_subst (lit ''Flow<Result<T>>'') (lit ''Flow<Result<Set<Item>>>'') [lit ''T''])
   = lit ''Map<Set<Item>, List<Set<Item>>>''"
proof -
  let ?s = "\<lambda>p. if p = lit ''T'' then Some (KType (lit ''Set'') [leaf ''Item'']) else None"
  let ?d = "KType (lit ''Flow'') [KType (lit ''Result'') [leaf ''T'']]"
  let ?r = "KType (lit ''Map'') [leaf ''T'', KType (lit ''List'') [leaf ''T'']]"
  have "apply_type_subst ascii_ucd (type_str ?r)
      (build_ext_fn_type_subst (type_str ?d) (type_str (subst_type ?s ?d)) [lit ''T'']) = type_str (subst_type ?s ?r)"
    by (rule extension_result_instantiated)
      (auto simp: simple_name_def ident_start_def is_id_char_def ascii_class_defs is_whitespace_def split: if_splits)
  then show ?thesis by simp
qed

text \<open>An arrow among the arguments ends their list: the comma behind it is not found, and the first parameter is
  bound to all that is left.\<close>

lemma function_argument_swallows_rest:
  "build_type_arg_subst_for_params [lit ''A'', lit ''B''] (lit ''Pair<(Int) -> Unit, Key>'') Stripped
   = Mapping.update (lit ''A'') (lit ''(Int) -> Unit, Key'') Mapping.empty"
  by (simp add: build_type_arg_subst_for_params_def type_args_inner_def rfind_char_def split_top_level_commas_def
      push_head_def readable_type_argument_def trim_def trim_start_def trim_end_def trim_end_matches_def
      is_whitespace_def starts_with_def strip_variance_def strip_prefix_def strip_nullable_def collect_map_def
      List.map_filter_simps Let_def)

end
