(* ===== verification/Sig_Text.thy ===== *)
theory Sig_Text
  imports Type_Subst Rg_References Resolve_Scope
begin

text \<open>
  Signatures as text: \<^verbatim>\<open>src/indexer/infer/sig.rs\<close> and the function types of
  \<^verbatim>\<open>src/indexer/infer/lambda.rs\<close>.
\<close>

section \<open>The signature a declaration shows\<close>

definition SIGNATURE_SCAN_LINES :: nat where "SIGNATURE_SCAN_LINES = 15"
definition FUN_PARAMS_SCAN_LINES :: nat where "FUN_PARAMS_SCAN_LINES = 20"

definition paren_balance :: "str \<Rightarrow> int" where
  "paren_balance s = int (length (filter (\<lambda>c. c = ch CHR ''('') s)) - int (length (filter (\<lambda>c. c = ch CHR '')'') s))"

fun signature_parts :: "int \<Rightarrow> str list \<Rightarrow> str list" where
  "signature_parts depth [] = []"
| "signature_parts depth (l # ls) =
     (let raw = trim l; depth' = depth + paren_balance raw
      in if ends_with raw (lit ''{'')
         then (let trimmed = trim_end (trim_end_matches (\<lambda>c. c = ch CHR ''{'') raw)
               in if trimmed = [] then [] else [trimmed])
         else raw # (if depth' \<le> 0 \<and> \<not> ends_with raw (lit '','') then [] else signature_parts depth' ls))"

definition collect_signature :: "str list \<Rightarrow> nat \<Rightarrow> str" where
  "collect_signature file_lines first_line =
     join [10] (signature_parts 0 (take SIGNATURE_SCAN_LINES (drop first_line file_lines)))"

section \<open>The parameter list\<close>

definition PARAM_KEYWORDS :: "str list" where
  "PARAM_KEYWORDS = map lit [''fun '', ''fun<'', ''class '', ''constructor'']"

definition params_search_from :: "str \<Rightarrow> nat" where
  "params_search_from detail =
     (case List.map_filter (\<lambda>kw. map_option (\<lambda>p. p + length kw) (find_sub detail kw)) PARAM_KEYWORDS of
        [] \<Rightarrow> 0 | x # xs \<Rightarrow> Min (set (x # xs)))"

definition extract_params_from_detail :: "str \<Rightarrow> str option" where
  "extract_params_from_detail detail =
     (if detail = [] then None
      else (let after = drop (params_search_from detail) detail
            in Option.bind (find_char (\<lambda>c. c = ch CHR ''('') after) (\<lambda>op.
                 let inner = drop (Suc op) after
                 in map_option (\<lambda>cl. trim (take cl inner)) (balanced_paren_close inner))))"

definition is_pure_annotation_line :: "str \<Rightarrow> bool" where
  "is_pure_annotation_line trimmed \<longleftrightarrow>
     starts_with trimmed (lit ''@'')
     \<and> \<not> list_ex (\<lambda>kw. contains_sub trimmed (lit kw)) ['' fun '', '' fun<'', '' class '', '' constructor'']"

definition has_declaration_keyword :: "str \<Rightarrow> bool" where
  "has_declaration_keyword trimmed \<longleftrightarrow>
     list_ex (\<lambda>kw. starts_with trimmed (lit kw)) [''fun '', ''fun<'', ''class '', ''constructor'']
     \<or> list_ex (\<lambda>kw. contains_sub trimmed (lit kw)) ['' fun '', '' fun<'', '' class '', '' constructor'']"

text \<open>The lines from the first that is no annotation on; running out of lines is \<open>None\<close>, and so is a
  window of annotations only.\<close>

fun skip_annotation_lines :: "str list \<Rightarrow> str list option" where
  "skip_annotation_lines [] = None"
| "skip_annotation_lines (l # ls) = (if is_pure_annotation_line (trim l) then skip_annotation_lines ls else Some (l # ls))"

text \<open>The scan through the characters of a line either goes on (depth, whether a parenthesis was opened, the text
  so far) or has its answer.\<close>

datatype param_scan = Scanning int bool str | Scanned "str option"

definition end_of_params :: "str \<Rightarrow> str option" where
  "end_of_params params = (if params = [] then None else Some params)"

fun scan_chars :: "bool \<Rightarrow> str \<Rightarrow> int \<Rightarrow> bool \<Rightarrow> str \<Rightarrow> param_scan" where
  "scan_chars found_keyword [] depth found_open params = Scanning depth found_open params"
| "scan_chars found_keyword (c # s) depth found_open params =
     (if c = ch CHR ''{'' \<and> \<not> found_open \<and> found_keyword then Scanned (Some [])
      else if c = ch CHR ''('' then
        (if depth + 1 = 1 then scan_chars found_keyword s (depth + 1) True params
         else scan_chars found_keyword s (depth + 1) found_open (if found_open then params @ [c] else params))
      else if c = ch CHR '')'' then
        (if found_open \<and> depth - 1 = 0 then Scanned (end_of_params params)
         else scan_chars found_keyword s (depth - 1) found_open (if found_open then params @ [c] else params))
      else scan_chars found_keyword s depth found_open (if found_open then params @ [c] else params))"

fun scan_lines :: "bool \<Rightarrow> str list \<Rightarrow> int \<Rightarrow> bool \<Rightarrow> str \<Rightarrow> str option" where
  "scan_lines found_keyword [] depth found_open params = end_of_params params"
| "scan_lines found_keyword (l # ls) depth found_open params =
     (let found_keyword' = (found_keyword \<or> has_declaration_keyword (trim l))
      in case scan_chars found_keyword' l depth found_open params of
           Scanned r \<Rightarrow> r
         | Scanning depth' found_open' params' \<Rightarrow>
             scan_lines found_keyword' ls depth' found_open' (if found_open' then params' @ [10] else params'))"

definition extract_balanced_parens :: "str list \<Rightarrow> str option" where
  "extract_balanced_parens window = scan_lines False window 0 False []"

definition collect_params_from_line :: "str list \<Rightarrow> nat \<Rightarrow> str option" where
  "collect_params_from_line file_lines first_line =
     Option.bind (skip_annotation_lines (take FUN_PARAMS_SCAN_LINES (drop first_line file_lines))) extract_balanced_parens"

section \<open>The parameters\<close>

text \<open>The list is split by \<open>split_params_at_depth_zero\<close> of \<open>Jar_Index\<close>.\<close>

definition nonempty_params :: "str \<Rightarrow> str list" where
  "nonempty_params params_text = filter (\<lambda>p. trim p \<noteq> []) (split_params_at_depth_zero params_text)"

definition nth_fun_param_type_str :: "ucd \<Rightarrow> str \<Rightarrow> nat \<Rightarrow> str option" where
  "nth_fun_param_type_str U params_text n =
     (let parts = nonempty_params params_text
      in if parts = [] then None
         else (let part = trim (if n < length parts then parts ! n else last parts);
                   param = dropWhile (\<lambda>c. \<not> is_id_char U c) part
               in map_option (\<lambda>colon. trim (drop (Suc colon) param)) (find_char (\<lambda>c. c = ch CHR '':'') param)))"

definition last_fun_param_type_str :: "ucd \<Rightarrow> str \<Rightarrow> str option" where
  "last_fun_param_type_str U params_text =
     nth_fun_param_type_str U params_text (length (nonempty_params params_text) - 1)"

section \<open>Function types\<close>

definition strip_suspend :: "str \<Rightarrow> str" where
  "strip_suspend type_name =
     (case strip_prefix type_name (lit ''suspend'') of
        Some rest \<Rightarrow> if rest \<noteq> [] \<and> is_whitespace (hd rest) then trim_start rest else type_name
      | None \<Rightarrow> type_name)"

definition lambda_type_receiver :: "ucd \<Rightarrow> str \<Rightarrow> str option" where
  "lambda_type_receiver U type_name =
     (let t = trim_start (dropWhile (\<lambda>c. c = ch CHR ''('') (strip_suspend (trim type_name)))
      in Option.bind (find_sub t (lit ''.('')) (\<lambda>dot_paren.
           let base = trim_end_matches (\<lambda>c. c = ch CHR ''.'') (dotted_ident_prefix U (trim (take dot_paren t)))
           in if base = [] then None else Some base))"

definition is_lambda_shaped :: "ucd \<Rightarrow> str \<Rightarrow> bool" where
  "is_lambda_shaped U type_text =
     (let t = trim type_text;
          t = (case strip_prefix t (lit ''suspend'') of Some r \<Rightarrow> trim_start r | None \<Rightarrow> t)
      in (starts_with t (lit ''('') \<or> lambda_type_receiver U t \<noteq> None) \<and> contains_sub t (lit ''->''))"

fun split_inputs :: "int \<Rightarrow> str \<Rightarrow> str list" where
  "split_inputs depth [] = [[]]"
| "split_inputs depth (c # s) =
     (if c \<in> {ch CHR ''('', ch CHR ''<'', ch CHR ''[''} then push_head c (split_inputs (depth + 1) s)
      else if c \<in> {ch CHR '')'', ch CHR ''>'', ch CHR '']''} then push_head c (split_inputs (depth - 1) s)
      else if c = ch CHR '','' \<and> depth = 0 then [] # split_inputs depth s
      else push_head c (split_inputs depth s))"

definition nth_input :: "ucd \<Rightarrow> str \<Rightarrow> nat \<Rightarrow> str option" where
  "nth_input U inner n =
     (let args = split_inputs 0 inner
      in if length args \<le> n then None
         else (let arg = trim (args ! n);
                   arg = (case find_char (\<lambda>c. c = ch CHR '':'') arg of Some i \<Rightarrow> trim (drop (Suc i) arg) | None \<Rightarrow> arg);
                   base = trim_end_matches (\<lambda>c. c = ch CHR ''.'') (dotted_ident_prefix U (strip_suspend arg))
               in if base = [] \<or> \<not> starts_with_uppercase U base then None else Some base))"

text \<open>What the outermost parentheses at the start of a function type hold.\<close>

definition inputs_inner :: "str \<Rightarrow> str option" where
  "inputs_inner type_name =
     (let t = strip_suspend (trim type_name)
      in if \<not> starts_with t (lit ''('') then None
         else map_option (\<lambda>cl. trim (take cl (tl t))) (balanced_paren_close (tl t)))"

lemma inputs_inner_shorter: "inputs_inner s = Some t \<Longrightarrow> length t < length s"
proof -
  assume a: "inputs_inner s = Some t"
  have start: "length (trim_start x) \<le> length x" for x by (simp add: trim_start_def length_dropWhile_le)
  have "length (trim_start r) \<le> length x" if "strip_prefix x (lit ''suspend'') = Some r" for x r
    using that start [of r] by (auto simp: strip_prefix_Some)
  then have "length (strip_suspend x) \<le> length x" for x
    by (auto simp: strip_suspend_def split: option.splits)
  then have le: "length (strip_suspend (trim s)) \<le> length s" using length_trims(1) le_trans by blast
  have paren: "starts_with (strip_suspend (trim s)) (lit ''('')"
    and "\<exists>cl. t = trim (take cl (tl (strip_suspend (trim s))))"
    using a by (auto simp: inputs_inner_def Let_def split: if_splits)
  then obtain cl where "t = trim (take cl (tl (strip_suspend (trim s))))" by blast
  moreover have ne: "strip_suspend (trim s) \<noteq> []" using paren by (auto simp: starts_with_def)
  ultimately have "length t \<le> length (tl (strip_suspend (trim s)))" using length_trims(1) by (metis length_take min.bounded_iff)
  with le ne show ?thesis by (cases "strip_suspend (trim s)") auto
qed

function lambda_type_nth_input :: "ucd \<Rightarrow> str \<Rightarrow> nat \<Rightarrow> str option" where
  "lambda_type_nth_input U type_name n =
     (case inputs_inner type_name of
        None \<Rightarrow> None
      | Some inner \<Rightarrow>
          if inner = [] then None
          else (case (if starts_with inner (lit ''('') \<and> contains_sub inner (lit ''->'')
                      then lambda_type_nth_input U inner n else None) of
                  Some t \<Rightarrow> Some t
                | None \<Rightarrow> nth_input U inner n))"
  by pat_completeness auto

termination
  by (relation "measure (\<lambda>(U, s, n). length s)") (auto simp: inputs_inner_shorter)

section \<open>Choosing among signatures\<close>

definition trusted_param_counts :: "symbol_entry \<Rightarrow> bool \<Rightarrow> 8 word \<times> 8 word" where
  "trusted_param_counts symbol is_compiled_jar =
     (if is_compiled_jar then (0, snd (se_param_counts symbol)) else se_param_counts symbol)"

definition lambda_shaped_last :: "ucd \<Rightarrow> str \<Rightarrow> bool" where
  "lambda_shaped_last U params_text =
     (case last_fun_param_type_str U params_text of Some t \<Rightarrow> is_lambda_shaped U t | None \<Rightarrow> False)"

definition candidate_applies_to_call :: "ucd \<Rightarrow> str \<Rightarrow> 8 word \<times> 8 word \<Rightarrow> call_shape \<Rightarrow> bool" where
  "candidate_applies_to_call U params_text counts shape \<longleftrightarrow>
     accepts shape (fst counts) (snd counts) \<and> (cs_trailing_lambda shape \<longrightarrow> lambda_shaped_last U params_text)"

fun index_of_score :: "'a \<Rightarrow> 'a list \<Rightarrow> nat option" where
  "index_of_score x [] = None"
| "index_of_score x (y # ys) = (if x = y then Some 0 else map_option Suc (index_of_score x ys))"

definition candidate_score :: "ucd \<Rightarrow> call_shape \<Rightarrow> str \<times> 8 word \<times> 8 word \<Rightarrow> bool \<times> bool" where
  "candidate_score U shape c =
     (accepts shape (fst (snd c)) (snd (snd c)), lambda_shaped_last U (fst c) = cs_trailing_lambda shape)"

fun first_some :: "('a \<Rightarrow> 'b option) \<Rightarrow> 'a list \<Rightarrow> 'b option" where
  "first_some f [] = None"
| "first_some f (x # xs) = (case f x of Some y \<Rightarrow> Some y | None \<Rightarrow> first_some f xs)"

definition best_candidate_index :: "ucd \<Rightarrow> (str \<times> 8 word \<times> 8 word) list \<Rightarrow> call_shape \<Rightarrow> nat option" where
  "best_candidate_index U candidates shape =
     (if candidates = [] then None
      else (let scored = map (candidate_score U shape) candidates
            in case first_some (\<lambda>wants. index_of_score wants scored) [(True, True), (False, True), (True, False)] of
                 Some i \<Rightarrow> Some i | None \<Rightarrow> Some 0))"

definition pick_candidate_matching_shape ::
  "ucd \<Rightarrow> (str \<times> 8 word \<times> 8 word) list \<Rightarrow> call_shape \<Rightarrow> str option" where
  "pick_candidate_matching_shape U candidates shape =
     Option.bind (best_candidate_index U candidates shape)
       (\<lambda>i. if i < length candidates then Some (fst (candidates ! i)) else None)"

definition is_class_like :: "symbol_kind \<Rightarrow> bool" where
  "is_class_like kind \<longleftrightarrow> kind \<in> {SK_CLASS, SK_INTERFACE, SK_STRUCT, SK_ENUM, SK_OBJECT}"

end
