(* ===== verification/Sig_Lookup.thy ===== *)
theory Sig_Lookup
  imports Sig_Text Hierarchy
begin

text \<open>
  Looking up the signature of a callee: the part of \<^verbatim>\<open>src/indexer/infer/sig.rs\<close> that reads the
  index, the compiled libraries and, on the slow path, the disk.
\<close>

section \<open>Reachability by imports\<close>

definition DEFAULT_REACHABLE_PACKAGES :: "str list" where
  "DEFAULT_REACHABLE_PACKAGES = map lit
     [''kotlin'', ''kotlin.annotation'', ''kotlin.collections'', ''kotlin.comparisons'', ''kotlin.io'',
      ''kotlin.ranges'', ''kotlin.sequences'', ''kotlin.text'', ''java.lang'']"

definition is_import_reachable :: "indexer \<Rightarrow> str \<Rightarrow> str \<Rightarrow> str \<Rightarrow> bool" where
  "is_import_reachable ix caller_uri def_uri symbol_name =
     (if caller_uri = def_uri then True
      else (case (Mapping.lookup (ix_files ix) caller_uri, Mapping.lookup (ix_files ix) def_uri) of
              (Some caller, Some def_data) \<Rightarrow>
                (case fd_package def_data of
                   None \<Rightarrow> True
                 | Some def_pkg \<Rightarrow>
                     (case fd_package caller of Some p \<Rightarrow> p | None \<Rightarrow> []) = def_pkg
                     \<or> list_ex (\<lambda>i. covers i def_pkg symbol_name) (fd_imports caller)
                     \<or> def_pkg \<in> set DEFAULT_REACHABLE_PACKAGES)
            | _ \<Rightarrow> True))"

section \<open>Parameters of the symbols of a file\<close>

definition is_callable_kind :: "bool \<Rightarrow> symbol_kind \<Rightarrow> bool" where
  "is_callable_kind is_java kind \<longleftrightarrow>
     kind \<in> {SK_FUNCTION, SK_METHOD, SK_CONSTRUCTOR, SK_STRUCT} \<or> (kind = SK_CLASS \<and> \<not> is_java)"

definition or_option :: "'a option \<Rightarrow> 'a option \<Rightarrow> 'a option" where
  "or_option a b = (case a of Some x \<Rightarrow> Some x | None \<Rightarrow> b)"

definition params_of_symbol :: "file_data \<Rightarrow> symbol_entry \<Rightarrow> str option" where
  "params_of_symbol data s =
     (if se_params s \<noteq> [] then Some (se_params s)
      else or_option (extract_params_from_detail (se_detail s))
             (collect_params_from_line (fd_lines data) (pos_line (r_start (se_range s)))))"

definition collect_all_fun_params_texts :: "str \<Rightarrow> str \<Rightarrow> indexer \<Rightarrow> str list" where
  "collect_all_fun_params_texts fn_name uri ix =
     (case Mapping.lookup (ix_files ix) uri of
        None \<Rightarrow> []
      | Some data \<Rightarrow>
          List.map_filter (params_of_symbol data)
            (filter (\<lambda>s. se_name s = fn_name \<and> is_callable_kind (ends_with uri (lit ''.java'')) (se_kind s))
              (fd_symbols data)))"

definition collect_fun_params_text :: "str \<Rightarrow> str \<Rightarrow> indexer \<Rightarrow> str option" where
  "collect_fun_params_text fn_name uri ix =
     (case collect_all_fun_params_texts fn_name uri ix of [] \<Rightarrow> None | t # _ \<Rightarrow> Some t)"

definition extract_params_or_fallback :: "symbol_entry \<Rightarrow> str list \<Rightarrow> str option" where
  "extract_params_or_fallback s file_lines =
     (if se_params s \<noteq> [] then Some (se_params s)
      else or_option (extract_params_from_detail (se_detail s))
             (or_option (collect_params_from_line file_lines (pos_line (r_start (se_range s))))
                (if se_param_counts s = (0, 0) then Some [] else None)))"

datatype resolution_scope = SameFile | CrossFile

text \<open>Which symbols of the file the name may mean, before and with a receiver.\<close>

definition sig_name_matches :: "str \<Rightarrow> resolution_scope \<Rightarrow> bool \<Rightarrow> bool \<Rightarrow> symbol_entry \<Rightarrow> bool" where
  "sig_name_matches name scope imported_by_name is_java s \<longleftrightarrow>
     se_name s = name
     \<and> \<not> (scope = CrossFile \<and> se_container s \<noteq> None \<and> se_kind s \<in> {SK_CLASS, SK_STRUCT} \<and> \<not> imported_by_name)
     \<and> is_callable_kind is_java (se_kind s)"

definition sig_receiver_matches ::
  "indexer \<Rightarrow> str \<Rightarrow> str \<Rightarrow> str \<Rightarrow> resolution_scope \<Rightarrow> str option \<Rightarrow> symbol_entry \<Rightarrow> bool" where
  "sig_receiver_matches ix caller_uri file_uri name scope receiver_base s =
     (case receiver_base of
        None \<Rightarrow> True
      | Some base \<Rightarrow>
          if se_container s = Some base then True
          else if se_container s = None \<and> extension_receiver s = base
          then scope \<noteq> CrossFile \<or> is_import_reachable ix caller_uri file_uri name
          else False)"

definition sig_candidates_of ::
  "file_data \<Rightarrow> bool \<Rightarrow> bool \<Rightarrow> symbol_entry \<Rightarrow> (str \<times> 8 word \<times> 8 word) list" where
  "sig_candidates_of data is_compiled_jar is_swift s =
     (if is_swift \<and> se_kind s \<in> {SK_STRUCT, SK_CLASS}
      then map (\<lambda>c. (se_params c, se_param_counts c))
             (filter (\<lambda>c. se_kind c = SK_CONSTRUCTOR \<and> se_container c = Some (se_name s)) (fd_symbols data))
      else (case extract_params_or_fallback s (fd_lines data) of
              None \<Rightarrow> [] | Some params_text \<Rightarrow> [(params_text, trusted_param_counts s is_compiled_jar)]))"

definition sig_file :: "indexer \<Rightarrow> str \<Rightarrow> (file_data \<times> bool) option" where
  "sig_file ix file_uri =
     (case Mapping.lookup (ix_files ix) file_uri of
        Some d \<Rightarrow> Some (d, False)
      | None \<Rightarrow> map_option (\<lambda>d. (d, True)) (Mapping.lookup (ix_jar_files ix) file_uri))"

definition collect_params_from_file ::
  "str \<Rightarrow> str \<Rightarrow> indexer \<Rightarrow> str \<Rightarrow> resolution_scope \<Rightarrow> str option \<Rightarrow> (str \<times> 8 word \<times> 8 word) list" where
  "collect_params_from_file name file_uri ix caller_uri scope receiver_base =
     (case sig_file ix file_uri of
        None \<Rightarrow> []
      | Some (data, is_compiled_jar) \<Rightarrow>
          if scope = CrossFile \<and> receiver_base = None \<and> \<not> is_import_reachable ix caller_uri file_uri name then []
          else (let imported_by_name = (scope = CrossFile \<and>
                      (case Mapping.lookup (ix_files ix) caller_uri of
                         Some d \<Rightarrow> list_ex (\<lambda>i. \<not> ie_is_star i \<and> ie_local_name i = name) (fd_imports d)
                       | None \<Rightarrow> True))
                in concat (map (sig_candidates_of data is_compiled_jar (ends_with file_uri (lit ''.swift'')))
                     (filter (sig_receiver_matches ix caller_uri file_uri name scope receiver_base)
                       (filter (sig_name_matches name scope imported_by_name (ends_with file_uri (lit ''.java'')))
                         (fd_symbols data))))))"

section \<open>The look-up\<close>

definition indexed_signature :: "indexer \<Rightarrow> str \<Rightarrow> location \<Rightarrow> str option" where
  "indexed_signature ix fn_name loc =
     Option.bind (Mapping.lookup (ix_files ix) (loc_uri loc)) (\<lambda>data.
       Option.bind (find (\<lambda>s. se_name s = fn_name
              \<and> pos_line (r_start (se_range s)) = pos_line (r_start (loc_range loc))
              \<and> se_kind s \<in> {SK_FUNCTION, SK_METHOD}) (fd_symbols data))
         (\<lambda>s. extract_params_from_detail (se_detail s)))"

definition sig_step_import_aware :: "resolve_env \<Rightarrow> str \<Rightarrow> url \<Rightarrow> jar_state \<Rightarrow> str option resolved" where
  "sig_step_import_aware V fn_name uri s =
     map_option (\<lambda>(s1, locs). (s1, first_some (indexed_signature (fst s1) fn_name) (take MAX_BY_NAME_DEFS locs)))
       (resolve_symbol_no_rg V fn_name uri s)"

definition jar_signature :: "indexer \<Rightarrow> str \<Rightarrow> location \<Rightarrow> str option" where
  "jar_signature ix fn_name loc =
     Option.bind (Mapping.lookup (ix_jar_files ix) (loc_uri loc)) (\<lambda>data.
       let line = pos_line (r_start (loc_range loc))
       in if line < length (fd_symbols data) \<and> se_name (fd_symbols data ! line) = fn_name
             \<and> se_detail (fd_symbols data ! line) \<noteq> []
          then extract_params_from_detail (se_detail (fd_symbols data ! line)) else None)"

definition sig_step_jar :: "resolve_env \<Rightarrow> str \<Rightarrow> jar_state \<Rightarrow> str option resolved" where
  "sig_step_jar V fn_name s =
     map_option (\<lambda>s1. (s1, first_some (jar_signature (fst s1) fn_name) (postings (ix_jar_definitions (fst s1)) fn_name)))
       (promote_cached V fn_name s)"

definition find_fun_signature :: "resolve_env \<Rightarrow> str \<Rightarrow> url \<Rightarrow> jar_state \<Rightarrow> str option resolved" where
  "find_fun_signature V fn_name uri s =
     Option.bind (sig_step_import_aware V fn_name uri s) (\<lambda>(s1, found).
       case or_option found (or_option (collect_fun_params_text fn_name uri (fst s1))
              (find_in_workspace_defs (fst s1) fn_name (\<lambda>loc.
                 if loc_uri loc = uri then None else collect_fun_params_text fn_name (loc_uri loc) (fst s1)))) of
         Some sig \<Rightarrow> Some (s1, Some sig)
       | None \<Rightarrow> sig_step_jar V fn_name s1)"

text \<open>The slow path: the files ripgrep finds are indexed one after the other until one has the signature.\<close>

fun index_until_found :: "resolve_env \<Rightarrow> str \<Rightarrow> location list \<Rightarrow> jar_state \<Rightarrow> str option resolved" where
  "index_until_found V fn_name [] s = Some (s, None)"
| "index_until_found V fn_name (loc # locs) s =
     Option.bind (index_on_demand V (loc_uri loc) s) (\<lambda>s1.
       case collect_fun_params_text fn_name (loc_uri loc) (fst s1) of
         Some sig \<Rightarrow> Some (s1, Some sig)
       | None \<Rightarrow> index_until_found V fn_name locs s1)"

definition find_fun_signature_full_uncached :: "resolve_env \<Rightarrow> str \<Rightarrow> url \<Rightarrow> jar_state \<Rightarrow> str option resolved" where
  "find_fun_signature_full_uncached V fn_name uri s =
     Option.bind (find_fun_signature V fn_name uri s) (\<lambda>(s1, found).
       case found of
         Some sig \<Rightarrow> Some (s1, Some sig)
       | None \<Rightarrow>
           let (root, source_roots, matcher) = rg_scope_for_path V (fst s1) (x_url_to_file_path (fe_ext V) uri)
           in index_until_found V fn_name
                (rg_find_definition (fe_ucd V) (fe_ext V) (rv_fs V) (rv_rg V) fn_name root source_roots matcher) s1)"

section \<open>The caches\<close>

definition find_fun_signature_full :: "resolve_env \<Rightarrow> str \<Rightarrow> url \<Rightarrow> jar_state \<Rightarrow> str option resolved" where
  "find_fun_signature_full V fn_name uri s =
     (case Mapping.lookup (ix_sig_cache (fst s)) (fn_name, uri) of
        Some cached \<Rightarrow> Some (s, cached)
      | None \<Rightarrow>
          map_option (\<lambda>(s1, r).
              (((fst s1)\<lparr>ix_sig_cache := Mapping.update (fn_name, uri) r (ix_sig_cache (fst s1))\<rparr>, snd s1), r))
            (find_fun_signature_full_uncached V fn_name uri s))"

definition find_fun_params_text_fast :: "resolve_env \<Rightarrow> str \<Rightarrow> url \<Rightarrow> jar_state \<Rightarrow> str option resolved" where
  "find_fun_params_text_fast V fn_name uri s =
     (case Mapping.lookup (ix_sig_fast_cache (fst s)) (fn_name, uri) of
        Some cached \<Rightarrow> Some (s, cached)
      | None \<Rightarrow>
          map_option (\<lambda>(s1, r).
              (((fst s1)\<lparr>ix_sig_fast_cache := Mapping.update (fn_name, uri) r (ix_sig_fast_cache (fst s1))\<rparr>, snd s1), r))
            (find_fun_signature V fn_name uri s))"

end
