(* ===== verification/Sig_Props.thy ===== *)
theory Sig_Props
  imports Sig_Lookup Type_Subst_Props Rg_Props Index_Props Resolve_Props
begin

text \<open>
  Signatures: what is printed as a parameter list is read back parameter by parameter, the candidate chosen for a
  call is the best one, and the caches of signatures outlive the index they were computed from.
\<close>

section \<open>Printed parameter lists\<close>

definition param_text :: "str \<times> ktype \<Rightarrow> str" where
  "param_text p = fst p @ lit '': '' @ type_str (snd p)"

definition params_text_of :: "(str \<times> ktype) list \<Rightarrow> str" where
  "params_text_of ps = join (lit '', '') (map param_text ps)"

definition simple_param :: "ucd \<Rightarrow> str \<times> ktype \<Rightarrow> bool" where
  "simple_param U p \<longleftrightarrow> simple_name U (fst p) \<and> simple_type U (snd p)"

lemma params_text_simps:
  "params_text_of [] = []" "params_text_of [p] = param_text p"
  "params_text_of (p # q # ps) = param_text p @ 44 # 32 # params_text_of (q # ps)"
  by (simp_all add: params_text_of_def)

text \<open>The characters with a meaning for the functions that take parameter lists apart.\<close>

abbreviation marks :: "rchar set" where
  "marks \<equiv> {40, 41, 91, 93, 123, 125, 45, 58}"

lemma simple_name_marks: "simple_name U n \<Longrightarrow> set n \<inter> marks = {}"
proof -
  assume n: "simple_name U n"
  have "\<not> is_id_char U c" if "c \<in> marks" for c using that by (auto simp: is_id_char_def ascii_class_defs)
  then show ?thesis using simple_name_chars [OF n] by blast
qed

lemma simple_type_marks: "simple_type U t \<Longrightarrow> set (type_str t) \<inter> marks = {}"
proof (induction t)
  case (KType n args)
  have "set (args_text as) \<inter> marks = {}" if "set as \<subseteq> set args" for as
    using that
  proof (induction as rule: induct_list012)
    case (3 a b as)
    then show ?case using KType by (simp add: args_text_simps list_all_iff Int_Un_distrib2)
  qed (use KType in \<open>auto simp: args_text_simps list_all_iff\<close>)
  from this [of args] show ?case
    using simple_name_marks [of U n] KType.prems by (simp add: type_str_args Int_Un_distrib2 del: type_str.simps)
qed

abbreviation split_params :: "rchar \<Rightarrow> int \<Rightarrow> str \<Rightarrow> str list" where
  "split_params prev depth s \<equiv> split_params_from depth prev [] s"

lemma split_params_ne [simp]: "split_params_from depth prev part s \<noteq> []"
  by (induction s arbitrary: depth prev part) simp_all

lemma split_params_part: "split_params_from depth prev part s = prepend part (split_params prev depth s)"
proof (induction s arbitrary: depth prev part)
  case Nil
  then show ?case by (simp add: prepend_def)
next
  case (Cons c s)
  have step: "split_params_from d c (part @ [c]) s = prepend part (split_params_from d c [c] s)" for d
    using Cons.IH [of d c "part @ [c]"] Cons.IH [of d c "[c]"] by simp
  have empty: "prepend part ([] # ws) = part # ws" for ws by (simp add: prepend_def)
  show ?case
    by (simp only: split_params_from.simps append_Nil if_distrib [of "prepend part"] step empty)
qed

lemma split_params_Cons:
  "split_params prev depth (c # s) =
     (if c \<in> {40, 60, 91, 123} then prepend [c] (split_params c (depth + 1) s)
      else if c \<in> {41, 93, 125} then prepend [c] (split_params c (depth - 1) s)
      else if c = 62 \<and> prev \<noteq> 45 \<and> depth > 0 then prepend [c] (split_params c (depth - 1) s)
      else if c = 44 \<and> depth = 0 then [] # split_params c depth s
      else prepend [c] (split_params c depth s))"
  by (simp add: split_params_part [of _ _ "x # xs" for x xs])

lemmas split_params_from.simps [simp del]
lemmas split_params_simps [simp] = split_params_from.simps(1) split_params_Cons

lemma split_params_prev: "p \<noteq> 45 \<Longrightarrow> q \<noteq> 45 \<Longrightarrow> split_params p d s = split_params q d s"
  by (cases s) simp_all

lemma split_params_plain:
  assumes "set n \<inter> {40, 60, 91, 123, 41, 93, 125, 62, 45} = {}" "44 \<notin> set n \<or> d \<noteq> 0"
  shows "split_params 0 d (n @ s) = prepend n (split_params 0 d s)"
  using assms
proof (induction n)
  case Nil
  then show ?case by (cases "split_params 0 d s") (auto simp: prepend_def)
next
  case (Cons c n)
  then have "split_params c d (n @ s) = prepend n (split_params 0 d s)"
    using split_params_prev [of c 0 d "n @ s"] by auto
  then show ?case using Cons.prems by (auto simp: push_head_prepend)
qed

lemma split_params_type:
  "simple_type U t \<Longrightarrow> 0 \<le> d \<Longrightarrow> split_params 0 d (type_str t @ s) = prepend (type_str t) (split_params 0 d s)"
proof (induction t arbitrary: d s)
  case (KType n args)
  have n: "simple_name U n" using KType.prems by simp
  have name: "split_params 0 e (n @ r) = prepend n (split_params 0 e r)" for e r
    by (rule split_params_plain) (use simple_name_plain [OF n] simple_name_marks [OF n] in auto)
  have inside: "split_params 0 (d + 1) (args_text as @ r) = prepend (args_text as) (split_params 0 (d + 1) r)"
    if "set as \<subseteq> set args" for as r
    using that
  proof (induction as arbitrary: r rule: induct_list012)
    case 1
    show ?case using split_params_plain [of "[]" "d + 1" r] by (simp add: args_text_simps)
  next
    case (2 a)
    then show ?case using KType by (auto simp: args_text_simps list_all_iff)
  next
    case (3 a b as)
    have "split_params 0 (d + 1) ([44, 32] @ x) = prepend [44, 32] (split_params 0 (d + 1) x)" for x
      by (rule split_params_plain) (use KType.prems(2) in auto)
    with 3 KType show ?case by (simp add: args_text_simps list_all_iff del: split_params_simps)
  qed
  have brackets: "split_params 0 d (60 # x) = prepend [60] (split_params 0 (d + 1) x)"
    "split_params 0 (d + 1) (62 # x) = prepend [62] (split_params 0 d x)" for x
    using split_params_prev [of 60 0 "d + 1" x] split_params_prev [of 62 0 d x] KType.prems(2)
    by (simp_all add: push_head_prepend)
  show ?case
    using inside [of args] by (simp add: type_str_args name brackets del: type_str.simps split_params_simps)
qed

lemma split_param:
  "simple_param U p \<Longrightarrow> split_params 0 0 (param_text p @ s) = prepend (param_text p) (split_params 0 0 s)"
  using split_params_plain [of "fst p @ [58, 32]" 0] split_params_type [of U "snd p" 0 s]
    simple_name_plain [of U "fst p"] simple_name_marks [of U "fst p"]
  by (auto simp: param_text_def simple_param_def simp del: split_params_simps)

lemma split_printed_params:
  "list_all (simple_param U) (p # ps) \<Longrightarrow>
     split_params_at_depth_zero (params_text_of (p # ps)) = param_text p # map (\<lambda>q. 32 # param_text q) ps"
proof (induction ps arbitrary: p)
  case Nil
  then show ?case using split_param [of U p "[]"] by (simp add: split_params_at_depth_zero_def params_text_simps prepend_def)
next
  case (Cons q ps)
  have "split_params 44 0 (32 # x) = prepend [32] (split_params 0 0 x)" for x
    using split_params_prev [of 32 0 0 x] by simp
  then have "split_params 0 0 (44 # 32 # params_text_of (q # ps)) = [] # (32 # param_text q) # map (\<lambda>q. 32 # param_text q) ps"
    using Cons by (simp add: split_params_at_depth_zero_def, simp add: prepend_def)
  then show ?case
    using Cons.prems split_param [of U p]
    by (simp add: split_params_at_depth_zero_def params_text_simps prepend_def del: split_params_simps)
qed

lemma param_ends:
  assumes "simple_param U p"
  shows "trim (param_text p) = param_text p" "trim (type_str (snd p)) = type_str (snd p)" "param_text p \<noteq> []"
    "dropWhile (\<lambda>c. \<not> is_id_char U c) (param_text p) = param_text p"
    "find_char (\<lambda>c. c = 58) (param_text p) = Some (length (fst p))"
proof -
  have n: "simple_name U (fst p)" and t: "simple_type U (snd p)" using assms by (auto simp: simple_param_def)
  then have ne: "fst p \<noteq> []" by (simp add: simple_name_def)
  then have hd: "is_id_char U (hd (fst p))" "\<not> is_whitespace (hd (fst p))" using simple_name_chars [OF n] by auto
  show "param_text p \<noteq> []" using ne by (simp add: param_text_def)
  show "trim (param_text p) = param_text p"
    using ne hd type_str_ends [OF t] by (intro trim_ends) (auto simp: param_text_def)
  show "trim (type_str (snd p)) = type_str (snd p)" using t by simp
  show "dropWhile (\<lambda>c. \<not> is_id_char U c) (param_text p) = param_text p"
    using ne hd by (cases "fst p") (auto simp: param_text_def)
  show "find_char (\<lambda>c. c = 58) (param_text p) = Some (length (fst p))"
    using simple_name_marks [OF n] by (auto simp: param_text_def intro!: find_char_at)
qed

lemma nth_printed_param:
  assumes ps: "list_all (simple_param U) ps" and i: "i < length ps"
  shows "nth_fun_param_type_str U (params_text_of ps) i = Some (type_str (snd (ps ! i)))"
proof -
  obtain q qs where split: "ps = q # qs" using i by (cases ps) auto
  define parts where "parts = param_text q # map (\<lambda>q. 32 # param_text q) qs"
  have each: "simple_param U p" if "p \<in> set ps" for p using ps that by (simp add: list_all_iff)
  have "trim (x :: str) \<noteq> []" if "x \<in> set parts" for x
  proof -
    have "trim x \<in> trim ` param_text ` set ps" using that by (auto simp: parts_def split)
    then obtain p where "p \<in> set ps" "trim x = trim (param_text p)" by blast
    then show ?thesis using param_ends(1,3) [OF each, of p] by simp
  qed
  then have "nonempty_params (params_text_of ps) = parts"
    using split_printed_params [of U q qs] ps by (simp add: nonempty_params_def split parts_def)
  moreover have "i < length parts" "parts \<noteq> []" using i by (simp_all add: parts_def split)
  moreover have "trim (parts ! i) = param_text (ps ! i)"
    using i param_ends(1) [OF each] by (cases i) (auto simp: parts_def split)
  moreover have "drop (Suc (length (fst (ps ! i)))) (param_text (ps ! i)) = 32 # type_str (snd (ps ! i))"
    by (simp add: param_text_def)
  ultimately show ?thesis
    using param_ends [OF each, of "ps ! i"] i by (simp add: nth_fun_param_type_str_def Let_def)
qed

lemma params_text_chars: "list_all (simple_param U) ps \<Longrightarrow> 40 \<notin> set (params_text_of ps) \<and> 41 \<notin> set (params_text_of ps)"
proof (induction ps rule: induct_list012)
  case (3 p q ps)
  then show ?case
    using simple_name_marks [of U "fst p"] simple_type_marks [of U "snd p"]
    by (auto simp: params_text_simps param_text_def simple_param_def)
next
  case (2 p)
  then show ?case
    using simple_name_marks [of U "fst p"] simple_type_marks [of U "snd p"]
    by (auto simp: params_text_simps param_text_def simple_param_def)
qed (simp add: params_text_simps)

lemma find_sub_here: "starts_with s p \<Longrightarrow> find_sub s p = Some 0"
  by (cases s) (auto simp: starts_with_def)

lemma map_filter_len:
  "x \<in> set (List.map_filter (\<lambda>kw. map_option (\<lambda>p. p + length kw) (g kw)) kws) \<Longrightarrow> \<forall>kw \<in> set kws. n \<le> length kw \<Longrightarrow> n \<le> x"
  by (induction kws) (auto simp: List.map_filter_simps split: option.splits)

lemma search_from_fun: "params_search_from (lit ''fun '' @ s) = 4"
proof -
  let ?d = "lit ''fun '' @ s"
  have f: "find_sub ?d (lit ''fun '') = Some 0" by (rule find_sub_here) (simp add: starts_with_def)
  let ?g = "\<lambda>kw. map_option (\<lambda>p. p + length kw) (find_sub ?d kw)"
  define found where "found = List.map_filter ?g PARAM_KEYWORDS"
  have kws: "PARAM_KEYWORDS = lit ''fun '' # map lit [''fun<'', ''class '', ''constructor'']"
    by (simp add: PARAM_KEYWORDS_def)
  define more where "more = List.map_filter ?g (map lit [''fun<'', ''class '', ''constructor''])"
  have "found = 4 # more"
    unfolding found_def kws more_def by (simp add: List.map_filter_simps f [simplified])
  moreover have "4 \<le> x" if "x \<in> set more" for x
    using that unfolding more_def by (rule map_filter_len) simp
  ultimately have "Min (set found) = 4" by (intro Min_eqI) auto
  then show ?thesis using \<open>found = 4 # more\<close> unfolding params_search_from_def found_def [symmetric] by simp
qed

lemma trim_spaces:
  assumes "list_all is_whitespace a" "list_all is_whitespace b" "x \<noteq> [] \<Longrightarrow> \<not> is_whitespace (hd x)"
    "x \<noteq> [] \<Longrightarrow> \<not> is_whitespace (last x)"
  shows "trim (a @ x @ b) = x"
proof -
  have a: "dropWhile is_whitespace (a @ y) = dropWhile is_whitespace y" for y
    using assms(1) by (intro dropWhile_append2) (simp add: list_all_iff)
  have b: "dropWhile is_whitespace (rev b @ y) = dropWhile is_whitespace y" for y
    using assms(2) by (intro dropWhile_append2) (simp add: list_all_iff)
  have all: "dropWhile is_whitespace b = []" using assms(2) by (simp add: list_all_iff)
  show ?thesis
  proof (cases "x = []")
    case True
    then have e: "trim_start (a @ x @ b) = []" unfolding trim_start_def using a [of b] all by (simp only: append_Nil)
    show ?thesis unfolding trim_def e trim_end_def trim_end_matches_def using True by simp
  next
    case False
    have "dropWhile is_whitespace (x @ b) = x @ b" using assms(3) [OF False] False by (cases x) simp_all
    moreover have "dropWhile is_whitespace (rev x) = rev x"
      using assms(4) [OF False] False by (cases x rule: rev_cases) simp_all
    ultimately show ?thesis using a [of "x @ b"] b [of "rev x"]
      by (simp add: trim_def trim_start_def trim_end_def trim_end_matches_def)
  qed
qed

lemma params_text_ends:
  assumes "list_all (simple_param U) ps" "params_text_of ps \<noteq> []"
  shows "\<not> is_whitespace (hd (params_text_of ps)) \<and> \<not> is_whitespace (last (params_text_of ps))"
  using assms
proof (induction ps rule: induct_list012)
  case (2 p)
  then have n: "simple_name U (fst p)" and t: "simple_type U (snd p)" by (simp_all add: simple_param_def)
  then have "fst p \<noteq> []" "\<not> is_whitespace (hd (fst p))"
    using simple_name_chars [of U "fst p" "hd (fst p)"] by (auto simp: simple_name_def)
  then show ?case using type_str_ends [OF t] by (simp add: params_text_simps param_text_def)
next
  case (3 p q ps)
  then have n: "simple_name U (fst p)" by (simp add: simple_param_def)
  then have "fst p \<noteq> []" "\<not> is_whitespace (hd (fst p))"
    using simple_name_chars [of U "fst p" "hd (fst p)"] by (auto simp: simple_name_def)
  moreover have "params_text_of (q # ps) \<noteq> []" by (cases ps) (simp_all add: params_text_simps param_text_def)
  ultimately show ?case using 3 by (simp add: params_text_simps param_text_def)
qed (simp add: params_text_simps)

text \<open>C24 The parameters of a printed function are read back: of \<open>fun name(p1: T1, ..., pn: Tn) rest\<close>, with
  any white space inside the parentheses and any text behind them, the extracted parameter list is exactly
  \<open>p1: T1, ..., pn: Tn\<close>, and the type read for the \<open>i\<close>-th parameter of it is the text of \<open>Ti\<close>, also when it
  is a generic type with commas of its own. The types are identifiers applied to types, nested at will; there are no
  default values, annotations and function types.\<close>

theorem declared_parameters_read_back:
  assumes name: "simple_name U name" and ps: "list_all (simple_param U) ps"
    and white: "list_all is_whitespace ws" "list_all is_whitespace ws'"
  shows "extract_params_from_detail
      (lit ''fun '' @ name @ lit ''('' @ ws @ params_text_of ps @ ws' @ lit '')'' @ rest) = Some (params_text_of ps)
    \<and> (\<forall>i < length ps. nth_fun_param_type_str U (params_text_of ps) i = Some (type_str (snd (ps ! i))))"
proof -
  let ?inner = "ws @ params_text_of ps @ ws'"
  let ?d = "lit ''fun '' @ name @ lit ''('' @ ?inner @ lit '')'' @ rest"
  have after: "drop (params_search_from ?d) ?d = name @ 40 # ?inner @ 41 # rest"
    unfolding search_from_fun by simp
  have "find_char (\<lambda>c. c = 40) (name @ 40 # ?inner @ 41 # rest) = Some (length name)"
    using simple_name_marks [OF name] by (intro find_char_at) auto
  moreover have "40 \<notin> set ?inner \<and> 41 \<notin> set ?inner"
    using params_text_chars [OF ps] white by (auto simp: list_all_iff is_whitespace_def)
  then have "balanced_paren_close (?inner @ 41 # rest) = Some (length ?inner)"
    unfolding balanced_paren_close_def by (intro paren_close_plain) auto
  moreover have "trim ?inner = params_text_of ps"
    using params_text_ends [OF ps] white by (intro trim_spaces) auto
  ultimately have "extract_params_from_detail ?d = Some (params_text_of ps)"
    unfolding extract_params_from_detail_def Let_def after by simp
  then show ?thesis using nth_printed_param [OF ps] by simp
qed

theorem declared_parameters_read_back_witness:
  "extract_params_from_detail (lit ''fun load( id: Long, into: Map<Key, Value> ): Job'') = Some (lit ''id: Long, into: Map<Key, Value>'')
   \<and> nth_fun_param_type_str ascii_ucd (lit ''id: Long, into: Map<Key, Value>'') 1 = Some (lit ''Map<Key, Value>'')"
proof -
  let ?ps = "[(lit ''id'', leaf ''Long''), (lit ''into'', KType (lit ''Map'') [leaf ''Key'', leaf ''Value''])]"
  have "simple_name ascii_ucd (lit ''load'')" "list_all (simple_param ascii_ucd) ?ps" "list_all is_whitespace (lit '' '')"
    by (simp_all add: simple_param_def simple_name_def ident_start_def is_id_char_def ascii_class_defs is_whitespace_def)
  from declared_parameters_read_back [OF this(1,2,3,3), of "lit '': Job''"]
  show ?thesis by (auto simp: params_text_simps param_text_def)
qed

section \<open>The best candidate\<close>

lemmas trims = trim_def trim_start_def trim_end_def trim_end_matches_def is_whitespace_def

lemma example_params:
  "last_fun_param_type_str ascii_ucd (lit ''f: () -> B'') = Some (lit ''() -> B'')"
  "last_fun_param_type_str ascii_ucd (lit ''i: A'') = Some (lit ''A'')"
  "is_lambda_shaped ascii_ucd (lit ''() -> B'')" "\<not> is_lambda_shaped ascii_ucd (lit ''A'')"
proof -
  have one: "nonempty_params (lit ''f: () -> B'') = [lit ''f: () -> B'']" "nonempty_params (lit ''i: A'') = [lit ''i: A'']"
    by (simp_all add: nonempty_params_def split_params_at_depth_zero_def prepend_def trims)
  show "last_fun_param_type_str ascii_ucd (lit ''f: () -> B'') = Some (lit ''() -> B'')"
    "last_fun_param_type_str ascii_ucd (lit ''i: A'') = Some (lit ''A'')"
    unfolding last_fun_param_type_str_def nth_fun_param_type_str_def one
    by (simp_all add: trims is_id_char_def ascii_class_defs ascii_ucd_def)
  show "is_lambda_shaped ascii_ucd (lit ''() -> B'')" "\<not> is_lambda_shaped ascii_ucd (lit ''A'')"
    by (simp_all add: is_lambda_shaped_def trims contains_sub_def strip_prefix_def starts_with_def)
qed

definition score_rank :: "bool \<times> bool \<Rightarrow> nat" where
  "score_rank s = (if snd s then 2 else 0) + (if fst s then 1 else 0)"

definition candidate_rank :: "ucd \<Rightarrow> call_shape \<Rightarrow> str \<times> 8 word \<times> 8 word \<Rightarrow> nat" where
  "candidate_rank U shape c = score_rank (candidate_score U shape c)"

lemma index_of_score_Some:
  "index_of_score x xs = Some i \<Longrightarrow> i < length xs \<and> xs ! i = x \<and> (\<forall>j < i. xs ! j \<noteq> x)"
proof (induction xs arbitrary: i)
  case (Cons y ys)
  then show ?case
    by (auto simp: less_Suc_eq_0_disj nth_Cons split: if_splits nat.splits)
qed simp

lemma index_of_score_None: "index_of_score x xs = None \<longleftrightarrow> x \<notin> set xs"
  by (induction xs) auto

text \<open>C25 Overload choice: of the candidates of a call the chosen one is in range and has the highest rank, where
  agreeing with the call on a trailing lambda counts for more than accepting the number of arguments; among
  candidates of the same rank the first is chosen, and every call with at least one candidate gets one.\<close>

theorem best_candidate_is_best:
  assumes "candidates \<noteq> []"
  shows "\<exists>i < length candidates. best_candidate_index U candidates shape = Some i
     \<and> pick_candidate_matching_shape U candidates shape = Some (fst (candidates ! i))
     \<and> (\<forall>j < length candidates. candidate_rank U shape (candidates ! j) \<le> candidate_rank U shape (candidates ! i))
     \<and> (\<forall>j < i. candidate_rank U shape (candidates ! j) < candidate_rank U shape (candidates ! i))"
proof -
  define scored where "scored = map (candidate_score U shape) candidates"
  have best: "best_candidate_index U candidates shape =
      (case first_some (\<lambda>wants. index_of_score wants scored) [(True, True), (False, True), (True, False)] of
         Some i \<Rightarrow> Some i | None \<Rightarrow> Some 0)"
    using assms(1) by (simp add: best_candidate_index_def scored_def Let_def)
  have rank: "candidate_rank U shape (candidates ! j) = score_rank (scored ! j)" if "j < length candidates" for j
    using that by (simp add: candidate_rank_def scored_def)
  have "\<exists>i < length candidates. best_candidate_index U candidates shape = Some i
     \<and> (\<forall>j < length candidates. score_rank (scored ! j) \<le> score_rank (scored ! i))
     \<and> (\<forall>j < i. score_rank (scored ! j) < score_rank (scored ! i))" (is "\<exists>i < _. ?P i")
  proof -
    have len: "length scored = length candidates" by (simp add: scored_def)
    have mem: "scored ! j \<in> set scored" if "j < length candidates" for j using that len by simp
    consider (both) i where "index_of_score (True, True) scored = Some i"
      | (lam) i where "(True, True) \<notin> set scored" "index_of_score (False, True) scored = Some i"
      | (args) i where "(True, True) \<notin> set scored" "(False, True) \<notin> set scored"
          "index_of_score (True, False) scored = Some i"
      | (none) "(True, True) \<notin> set scored" "(False, True) \<notin> set scored" "(True, False) \<notin> set scored"
      by (metis index_of_score_None option.exhaust)
    then show ?thesis
    proof cases
      case both
      note at = index_of_score_Some [OF both]
      have "score_rank s \<le> 3 \<and> (s \<noteq> (True, True) \<longrightarrow> score_rank s < 3)" for s
        by (cases s) (auto simp: score_rank_def)
      then have "?P i" using both at best by (auto simp: score_rank_def)
      then show ?thesis using at len by auto
    next
      case lam
      note at = index_of_score_Some [OF lam(2)]
      have "s \<in> set scored \<Longrightarrow> score_rank s \<le> 2 \<and> (s \<noteq> (False, True) \<longrightarrow> score_rank s < 2)" for s
        using lam(1) by (cases s; cases "fst s"; cases "snd s") (auto simp: score_rank_def)
      then have "?P i" using lam at best mem len
        by (auto simp: score_rank_def index_of_score_None [THEN iffD2])
      then show ?thesis using at len by auto
    next
      case args
      note at = index_of_score_Some [OF args(3)]
      have "s \<in> set scored \<Longrightarrow> score_rank s \<le> 1 \<and> (s \<noteq> (True, False) \<longrightarrow> score_rank s < 1)" for s
        using args(1,2) by (cases s; cases "fst s"; cases "snd s") (auto simp: score_rank_def)
      then have "?P i" using args at best mem len
        by (auto simp: score_rank_def index_of_score_None [THEN iffD2])
      then show ?thesis using at len by auto
    next
      case none
      have "s \<in> set scored \<Longrightarrow> score_rank s = 0" for s
        using none by (cases s; cases "fst s"; cases "snd s") (auto simp: score_rank_def)
      then have "?P 0" using none best mem len by (simp add: index_of_score_None [THEN iffD2])
      then show ?thesis using assms(1) by auto
    qed
  qed
  then obtain i where "i < length candidates" "?P i" by blast
  then show ?thesis using rank by (auto simp: pick_candidate_matching_shape_def intro!: exI [of _ i])
qed

theorem best_candidate_is_best_witness:
  "pick_candidate_matching_shape ascii_ucd
     [(lit ''i: A'', 1, 1), (lit ''f: () -> B'', 1, 1)] \<lparr>cs_arg_count = 0, cs_trailing_lambda = True\<rparr>
   = Some (lit ''f: () -> B'')"
proof -
  let ?s = "\<lparr>cs_arg_count = 0, cs_trailing_lambda = True\<rparr>"
    and ?a = "(lit ''i: A'', 1 :: 8 word, 1 :: 8 word)" and ?b = "(lit ''f: () -> B'', 1 :: 8 word, 1 :: 8 word)"
  have ranks: "candidate_rank ascii_ucd ?s ?a = 1" "candidate_rank ascii_ucd ?s ?b = 3"
    by (simp_all add: candidate_rank_def candidate_score_def score_rank_def accepts_def lambda_shaped_last_def example_params
        del: lit_Cons)
  have "[?a, ?b] \<noteq> []" by simp
  from best_candidate_is_best [OF this, of ascii_ucd ?s]
  obtain i where i: "i < length [?a, ?b]" "pick_candidate_matching_shape ascii_ucd [?a, ?b] ?s = Some (fst ([?a, ?b] ! i))"
    and best: "\<forall>j < length [?a, ?b]. candidate_rank ascii_ucd ?s ([?a, ?b] ! j) \<le> candidate_rank ascii_ucd ?s ([?a, ?b] ! i)"
    by blast
  have "candidate_rank ascii_ucd ?s ([?a, ?b] ! 1) \<le> candidate_rank ascii_ucd ?s ([?a, ?b] ! i)"
    using best by (auto simp del: lit_Cons)
  moreover have "i = 0 \<or> i = 1" using i(1) by (auto simp del: lit_Cons)
  ultimately have "i = 1" using ranks by (auto simp del: lit_Cons)
  then show ?thesis using i(2) by (simp del: lit_Cons)
qed

section \<open>What the scans by brackets miss\<close>

text \<open>The first input of \<open>((A) -> B, C) -> D\<close> is a function; the scan answers with the first input of that
  function. The second is not found: the \<open>>\<close> of the arrow counts as a closing bracket.\<close>

lemma function_input_confused:
  "lambda_type_nth_input ascii_ucd (lit ''((A) -> B, C) -> D'') 0 = Some (lit ''A'')"
  "lambda_type_nth_input ascii_ucd (lit ''((A) -> B, C) -> D'') 1 = None"
proof -
  let ?outer = "lit ''((A) -> B, C) -> D''" and ?inner = "lit ''(A) -> B, C''"
  have inner: "inputs_inner ?outer = Some ?inner" "inputs_inner ?inner = Some (lit ''A'')"
    by (simp_all add: inputs_inner_def strip_suspend_def strip_prefix_def starts_with_def trims balanced_paren_close_def)
  have last: "lambda_type_nth_input ascii_ucd ?inner n = nth_input ascii_ucd (lit ''A'') n" for n
    by (subst lambda_type_nth_input.simps) (simp add: inner(2) starts_with_def del: lambda_type_nth_input.simps lit_Cons,
      simp add: starts_with_def)
  have shape: "starts_with ?inner (lit ''('')" "contains_sub ?inner (lit ''->'')" "?inner \<noteq> []"
    by (simp_all add: starts_with_def contains_sub_def)
  have found: "nth_input ascii_ucd (lit ''A'') 0 = Some (lit ''A'')" "nth_input ascii_ucd (lit ''A'') 1 = None"
    "nth_input ascii_ucd ?inner 1 = None"
    by (simp_all add: nth_input_def push_head_def trims strip_suspend_def strip_prefix_def starts_with_def
        dotted_ident_prefix_def starts_with_uppercase_def is_id_char_def ascii_class_defs ascii_ucd_def)
  show "lambda_type_nth_input ascii_ucd ?outer 0 = Some (lit ''A'')" "lambda_type_nth_input ascii_ucd ?outer 1 = None"
    by (subst lambda_type_nth_input.simps; simp only: inner(1) shape last found option.case if_True if_False simp_thms)+
qed

text \<open>A parenthesis inside the default value of a parameter ends the list.\<close>

lemma default_string_cuts_params:
  "extract_params_from_detail (lit ''fun f(a: A = X(\")\"), b: B)'') = Some (lit ''a: A = X(\")\"'')"
proof -
  have "params_search_from (lit ''fun f(a: A = X(\")\"), b: B)'') = 4"
    using search_from_fun [of "lit ''f(a: A = X(\")\"), b: B)''"] by simp
  then show ?thesis
    unfolding extract_params_from_detail_def by (simp add: Let_def balanced_paren_close_def trims del: find_sub.simps)
qed

text \<open>A function without parameters has no parameter text in the scan of its lines.\<close>

lemma no_parameters_no_text:
  "extract_balanced_parens [lit ''fun foo()''] = None"
  by (simp add: extract_balanced_parens_def Let_def end_of_params_def)

section \<open>The caches and the index\<close>

lemma commit_keeps_sigs:
  "commit_contributions X mloc mid mext c ix = Some ix' \<Longrightarrow>
     ix_sig_fast_cache ix' = ix_sig_fast_cache ix \<and> ix_sig_cache ix' = ix_sig_cache ix"
  by (auto simp: commit_contributions_def Let_def bind_eq_Some_conv)

lemma rebuild_keeps_sigs:
  "ix_sig_fast_cache (rebuild_bare_name_cache ix) = ix_sig_fast_cache ix"
  "ix_sig_cache (rebuild_bare_name_cache ix) = ix_sig_cache ix"
  by (simp_all add: rebuild_bare_name_cache_def rebuild_importable_fqns_def Let_def)

lemma scan_keeps_sigs:
  assumes "apply_source_path_scan X scan ix = Some ix'"
  shows "ix_sig_fast_cache ix' = ix_sig_fast_cache ix \<and> ix_sig_cache ix' = ix_sig_cache ix"
proof -
  let ?I = "\<lambda>t. ix_sig_fast_cache t = ix_sig_fast_cache ix \<and> ix_sig_cache t = ix_sig_cache ix"
  obtain t where t: "fold_opt (\<lambda>fr. apply_contributions X (file_contributions_of X fr))
      (strip_library_private_symbols (sc_results scan) (set (sc_new_library_uris scan))) ix = Some t"
    and ix': "ix' = rebuild_bare_name_cache (t\<lparr>ix_library_uris := ix_library_uris t \<union> set (sc_new_library_uris scan)\<rparr>)"
    using assms by (auto simp: apply_source_path_scan_def Let_def bind_eq_Some_conv)
  have "?I t"
    by (rule fold_opt_invariant [OF t]) (auto simp: apply_contributions_def dest!: commit_keeps_sigs)
  then show ?thesis by (simp add: ix' rebuild_keeps_sigs)
qed


text \<open>C26 A cached signature is not recomputed when the sources of libraries are indexed: whatever a look-up on the
  index alone answered before, \<open>None\<close> included, it answers in every later state that
  \<open>apply_source_path_scan\<close> makes, also where the scan has just brought the function in.\<close>

theorem signature_cache_outlives_source_scan:
  assumes "find_fun_params_text_fast V fn_name uri s = Some (s1, r)"
    and "apply_source_path_scan X scan (fst s1) = Some ix'"
  shows "find_fun_params_text_fast V fn_name uri (ix', disk) = Some ((ix', disk), r)"
proof -
  have "Mapping.lookup (ix_sig_fast_cache (fst s1)) (fn_name, uri) = Some r"
    using assms(1) by (auto simp: find_fun_params_text_fast_def lookup_update split: option.splits)
  then show ?thesis using scan_keeps_sigs [OF assms(2)] by (simp add: find_fun_params_text_fast_def)
qed

text \<open>The class \<open>B\<close> of \<open>/A.kt\<close> has no parameter list to read; a source file that declares a \<open>B\<close> is
  indexed afterwards.\<close>

theorem signature_cache_outlives_source_scan_witness:
  "\<exists>s1 ix'. find_fun_params_text_fast example_resolve_env (lit ''B'') (lit ''/A.kt'') example_state = Some (s1, None)
     \<and> apply_source_path_scan example_externals
         \<lparr>sc_results = [parse_file example_externals (lit ''a.kt'') (lit ''B'')],
          sc_new_library_uris = [lit ''a.kt''], sc_cache_hits = 0\<rparr> (fst s1) = Some ix'
     \<and> find_fun_params_text_fast example_resolve_env (lit ''B'') (lit ''/A.kt'') (ix', snd example_state) = Some ((ix', snd example_state), None)"
proof -
  let ?B = "lit ''B''" and ?u = "lit ''/A.kt''"
  let ?ix = "example_resolve_index\<lparr>ix_sig_fast_cache :=
    Mapping.update (?B, ?u) None (ix_sig_fast_cache example_resolve_index)\<rparr>"
  have locs: "resolve_symbol_no_rg example_resolve_env ?B ?u example_state
      = Some (example_state, [Location ?u (Rng (Position 2 6) (Position 2 7))])"
    using local_first [of example_state ?B ?u None NoRg] by (simp add: resolve_symbol_no_rg_def example_local del: lit_Cons)
  have "indexed_signature example_resolve_index ?B (Location ?u (Rng (Position 2 6) (Position 2 7))) = None"
    by (simp add: indexed_signature_def example_resolve_index_def example_file_def default_file_data_def example_class_def)
  then have step: "sig_step_import_aware example_resolve_env ?B ?u example_state = Some (example_state, None)"
    by (simp add: sig_step_import_aware_def locs MAX_BY_NAME_DEFS_def del: lit_Cons)
  have "collect_fun_params_text ?B ?u example_resolve_index = None"
    by (simp add: collect_fun_params_text_def collect_all_fun_params_texts_def example_resolve_index_def example_file_def
        default_file_data_def example_class_def params_of_symbol_def or_option_def extract_params_from_detail_def
        collect_params_from_line_def is_callable_kind_def ends_with_iff List.map_filter_simps)
  moreover have "find_in_workspace_defs example_resolve_index ?B f = None" for f :: "location \<Rightarrow> str option"
    by (simp add: find_in_workspace_defs_def workspace_def_candidates_def example_resolve_index_def indexer_new_def
        postings_def List.map_filter_simps)
  moreover have "ix_jar_definitions example_resolve_index = Mapping.empty"
    by (simp add: example_resolve_index_def indexer_new_def)
  then have "sig_step_jar example_resolve_env ?B example_state = Some (example_state, None)"
    by (simp add: sig_step_jar_def postings_def del: lit_Cons)
  ultimately have "find_fun_signature example_resolve_env ?B ?u example_state = Some (example_state, None)"
    by (simp add: find_fun_signature_def step or_option_def del: lit_Cons)
  moreover have "Mapping.lookup (ix_sig_fast_cache example_resolve_index) k = None" for k
    by (simp add: example_resolve_index_def indexer_new_def)
  ultimately have s1: "find_fun_params_text_fast example_resolve_env ?B ?u example_state =
      Some ((?ix, snd example_state), None)"
    by (simp add: find_fun_params_text_fast_def del: lit_Cons)
  let ?a = "lit ''a.kt''"
  let ?r = "parse_file example_externals ?a ?B"
  let ?scan = "\<lparr>sc_results = [?r], sc_new_library_uris = [?a], sc_cache_hits = 0\<rparr>"
  let ?d = "(fr_data ?r)\<lparr>fd_symbols := filter visible_outside (fd_symbols (fr_data ?r))\<rparr>"
  have "can_intern (ix_file_table ?ix) ?a"
    by (simp add: can_intern_def example_resolve_index_def indexer_new_def ft_new_def)
  then obtain t' i where i: "ft_intern (ix_file_table ?ix) ?a = Some (t', i)" using can_intern_Some by blast
  have sup: "derive_supertypes ?a ?d = []" "derive_supertypes ?a (fr_data ?r) = []"
    by (auto simp: derive_supertypes_def parse_file_def parse_by_extension_def example_externals_def
        default_file_data_def Let_def concat_eq_Nil_conv)
  obtain ix' where ix': "apply_source_path_scan example_externals ?scan ?ix = Some ix'"
    using commit_contributions_eq [OF example_parse i, of push_new push_new replace_by_uri ?d "fr_content_hash ?r"]
    unfolding sup by (auto simp: apply_source_path_scan_def strip_library_private_symbols_def Let_def
        file_contributions_of_def apply_contributions_def sup [simplified])
  show ?thesis
    using s1 ix' signature_cache_outlives_source_scan [OF s1, of example_externals ?scan ix' "snd example_state"] by auto
qed

end
