(* ===== verification/Extension.thy ===== *)
theory Extension
  imports Sig_Lookup
begin

text \<open>
  Extension functions: which of them are in scope at a file, and the one a call binds to
  (\<^verbatim>\<open>src/resolver/extension.rs\<close>, with the rules of scope of \<^verbatim>\<open>infer.rs\<close> and the reading of
  a declaration's signature of \<^verbatim>\<open>call_signature.rs\<close>).
\<close>

section \<open>In scope\<close>

definition extension_is_in_scope ::
  "str option \<Rightarrow> str \<Rightarrow> str option \<Rightarrow> visibility \<Rightarrow> bool \<Rightarrow> file_data option \<Rightarrow> bool" where
  "extension_is_in_scope entry_package entry_name entry_container entry_visibility is_same_file caller =
     (if entry_container \<noteq> None then is_same_file \<or> entry_visibility \<notin> {Private, Protected}
      else (entry_package = None \<and> (case caller of Some d \<Rightarrow> fd_package d = None | None \<Rightarrow> False))
        \<or> (entry_package \<noteq> None \<and> Option.bind caller fd_package = entry_package)
        \<or> (case caller of
             None \<Rightarrow> False
           | Some d \<Rightarrow> list_ex (\<lambda>i. case entry_package of
                Some pkg \<Rightarrow> covers i pkg entry_name
              | None \<Rightarrow> ie_local_name i = entry_name) (fd_imports d)))"

definition extension_entry_is_in_scope :: "extension_entry \<Rightarrow> url \<Rightarrow> file_data option \<Rightarrow> bool" where
  "extension_entry_is_in_scope e from_uri caller \<longleftrightarrow>
     extension_is_in_scope (ee_package e) (ee_name e) (ee_container e) (ee_visibility e) (ee_file_uri e = from_uri) caller
     \<or> from_path from_uri = Kotlin
       \<and> (case ee_package e of Some pkg \<Rightarrow> is_default_import_package pkg | None \<Rightarrow> False)"

definition extension_declaration_matches :: "symbol_entry \<Rightarrow> str \<Rightarrow> str \<Rightarrow> str option \<Rightarrow> bool" where
  "extension_declaration_matches s name receiver_base entry_container \<longleftrightarrow>
     se_name s = name \<and> extension_receiver s = receiver_base \<and> se_container s = entry_container"

section \<open>The declaration of a registered extension\<close>

definition select_extension_symbol_index :: "file_data \<Rightarrow> str \<Rightarrow> str \<Rightarrow> str option \<Rightarrow> str \<Rightarrow> nat option" where
  "select_extension_symbol_index d name receiver_base container detail =
     or_option
       (position_of (\<lambda>s. extension_declaration_matches s name receiver_base container \<and> se_detail s = detail) (fd_symbols d))
       (position_of (\<lambda>s. extension_declaration_matches s name receiver_base container) (fd_symbols d))"

definition select_extension_symbol :: "file_data \<Rightarrow> str \<Rightarrow> str \<Rightarrow> str option \<Rightarrow> str \<Rightarrow> symbol_entry option" where
  "select_extension_symbol d name receiver_base container detail =
     map_option (\<lambda>i. fd_symbols d ! i) (select_extension_symbol_index d name receiver_base container detail)"

definition default_range :: lsp_range where
  "default_range = Rng (Position 0 0) (Position 0 0)"

definition select_extension_symbol_range :: "file_data \<Rightarrow> str \<Rightarrow> str \<Rightarrow> str option \<Rightarrow> str \<Rightarrow> lsp_range" where
  "select_extension_symbol_range d name receiver_base container detail =
     (case select_extension_symbol d name receiver_base container detail of
        Some s \<Rightarrow> se_selection_range s | None \<Rightarrow> default_range)"

text \<open>The symbol that declares the extension: its file, its index there, and whether the file is a compiled JAR's.\<close>

record extension_declaration =
  exd_uri :: url
  exd_declaring :: "(file_data \<times> nat \<times> bool) option"

definition exd_symbol :: "extension_declaration \<Rightarrow> symbol_entry option" where
  "exd_symbol d = map_option (\<lambda>(file, i, _). fd_symbols file ! i) (exd_declaring d)"

definition exd_is_compiled_jar :: "extension_declaration \<Rightarrow> bool" where
  "exd_is_compiled_jar d \<longleftrightarrow> (case exd_declaring d of Some (_, _, jar) \<Rightarrow> jar | None \<Rightarrow> False)"

definition exd_lines :: "extension_declaration \<Rightarrow> str list option" where
  "exd_lines d = map_option (\<lambda>(file, _). fd_lines file) (exd_declaring d)"

definition declaration_of_entry :: "externals \<Rightarrow> indexer \<Rightarrow> str \<Rightarrow> str \<Rightarrow> extension_entry \<Rightarrow> extension_declaration option" where
  "declaration_of_entry X ix receiver_base name e =
     map_option (\<lambda>uri. \<lparr>exd_uri = uri,
         exd_declaring = Option.bind (sig_file ix (ee_file_uri e)) (\<lambda>(file, jar).
           map_option (\<lambda>i. (file, i, jar))
             (select_extension_symbol_index file name receiver_base (ee_container e) (ee_detail e)))\<rparr>)
       (x_url_parse X (ee_file_uri e))"

definition entries_in_scope :: "indexer \<Rightarrow> str \<Rightarrow> url \<Rightarrow> extension_entry list \<Rightarrow> extension_entry list" where
  "entries_in_scope ix name from_uri entries =
     filter (\<lambda>e. ee_name e = name \<and> extension_entry_is_in_scope e from_uri (Mapping.lookup (ix_files ix) from_uri)) entries"

text \<open>\<open>extension_entries_for(indexer, receiver, &mut 0)\<close>.\<close>

definition cached_extension_entries :: "resolve_env \<Rightarrow> str \<Rightarrow> jar_state \<Rightarrow> extension_entry list option resolved" where
  "cached_extension_entries V receiver s =
     map_option (\<lambda>(s1, _, entries). (s1, entries)) (extension_entries_for (rv_jar V) (fe_ext V) receiver (s, 0))"

definition extension_declarations_in_scope ::
  "resolve_env \<Rightarrow> str \<Rightarrow> str \<Rightarrow> url \<Rightarrow> jar_state \<Rightarrow> extension_declaration list resolved" where
  "extension_declarations_in_scope V receiver_base name from_uri s =
     map_option (\<lambda>(s1, entries). (s1,
         case entries of
           None \<Rightarrow> []
         | Some es \<Rightarrow> List.map_filter (declaration_of_entry (fe_ext V) (fst s1) receiver_base name)
                       (entries_in_scope (fst s1) name from_uri es)))
       (cached_extension_entries V receiver_base s)"

definition declaration_location :: "extension_declaration \<Rightarrow> location" where
  "declaration_location d =
     Location (exd_uri d) (case exd_symbol d of Some s \<Rightarrow> se_selection_range s | None \<Rightarrow> default_range)"

definition resolve_extension_in_scope :: "resolve_env \<Rightarrow> str \<Rightarrow> str \<Rightarrow> url \<Rightarrow> step" where
  "resolve_extension_in_scope V receiver_base name from_uri s =
     map_option (\<lambda>(s1, ds). (s1, map declaration_location ds))
       (extension_declarations_in_scope V receiver_base name from_uri s)"

section \<open>Supertypes, with effects\<close>

text \<open>The breadth-first walk of \<open>Walk\<close> where what is collected at a class may materialize JARs too.\<close>

fun level_targets_with ::
  "('n \<Rightarrow> 'w \<Rightarrow> ('w \<times> 'a list) option) \<Rightarrow> 'n list \<Rightarrow> ('w, 'n, 'a) level \<Rightarrow> ('w, 'n, 'a) level option" where
  "level_targets_with C [] l = Some l"
| "level_targets_with C (t # ts) l =
     (if t \<in> lv_visited l then level_targets_with C ts l
      else Option.bind (C t (lv_state l)) (\<lambda>(w1, found).
        level_targets_with C ts
          (l\<lparr>lv_state := w1, lv_visited := insert t (lv_visited l), lv_found := lv_found l @ found,
             lv_next := lv_next l @ [t]\<rparr>)))"

fun level_nodes_with ::
  "('n \<Rightarrow> 'w \<Rightarrow> ('w \<times> 'n list) option) \<Rightarrow> ('n \<Rightarrow> 'w \<Rightarrow> ('w \<times> 'a list) option) \<Rightarrow> 'n list
     \<Rightarrow> ('w, 'n, 'a) level \<Rightarrow> ('w, 'n, 'a) level option" where
  "level_nodes_with T C [] l = Some l"
| "level_nodes_with T C (n # ns) l =
     Option.bind (T n (lv_state l)) (\<lambda>(w1, targets).
       Option.bind (level_targets_with C targets (l\<lparr>lv_state := w1\<rparr>)) (level_nodes_with T C ns))"

fun levels_from_with ::
  "('n \<Rightarrow> 'w \<Rightarrow> ('w \<times> 'n list) option) \<Rightarrow> ('n \<Rightarrow> 'w \<Rightarrow> ('w \<times> 'a list) option) \<Rightarrow> nat \<Rightarrow> 'n set \<Rightarrow> 'n list \<Rightarrow> 'w
     \<Rightarrow> ('w \<times> 'a list) option" where
  "levels_from_with T C 0 visited current w = Some (w, [])"
| "levels_from_with T C (Suc depth) visited current w =
     Option.bind (level_nodes_with T C current \<lparr>lv_state = w, lv_visited = visited, lv_found = [], lv_next = []\<rparr>)
       (\<lambda>l. if lv_found l \<noteq> [] then Some (lv_state l, lv_found l)
            else if lv_next l = [] then Some (lv_state l, [])
            else levels_from_with T C depth (lv_visited l) (lv_next l) (lv_state l))"

text \<open>What \<open>collect\<close> promotes does not count against the budget of the walk.\<close>

definition walk_nearest ::
  "resolve_env \<Rightarrow> str \<Rightarrow> str \<Rightarrow> url \<Rightarrow> (str \<Rightarrow> str \<Rightarrow> jar_state \<Rightarrow> 'a list resolved) \<Rightarrow> jar_state \<Rightarrow> 'a list resolved" where
  "walk_nearest V start_class start_uri origin_uri collect s =
     map_option (\<lambda>(w, items). (fst w, items))
       (levels_from_with (supertype_targets V origin_uri)
          (\<lambda>(name, uri) w. map_option (\<lambda>(s1, items). ((s1, snd w), items)) (collect name uri (fst w)))
          12 {(start_class, start_uri)} [(start_class, start_uri)]
          (s, MAX_SYNC_JAR_PROMOTIONS_PER_HIERARCHY_WALK))"

section \<open>The candidates of a call on a receiver\<close>

definition reachable_workspace_class_candidates :: "resolve_env \<Rightarrow> str \<Rightarrow> url option \<Rightarrow> step" where
  "reachable_workspace_class_candidates V class_base from_uri s =
     map_option (\<lambda>(s1, reachable). (s1, if reachable = [] then workspace_def_candidates (fst s1) class_base else reachable))
       (case from_uri of Some u \<Rightarrow> resolve_type_index_only V class_base u s | None \<Rightarrow> Some (s, []))"

definition reachable_class_candidates :: "resolve_env \<Rightarrow> str \<Rightarrow> url option \<Rightarrow> step" where
  "reachable_class_candidates V class_base from_uri =
     or_else (reachable_workspace_class_candidates V class_base from_uri) (lookup_definitions V class_base)"

definition declaration_signature :: "extension_declaration \<Rightarrow> (str \<times> 8 word \<times> 8 word) option" where
  "declaration_signature d =
     Option.bind (exd_symbol d) (\<lambda>s. Option.bind (exd_lines d) (\<lambda>file_lines.
       map_option (\<lambda>params. (params, trusted_param_counts s (exd_is_compiled_jar d)))
         (extract_params_or_fallback s file_lines)))"

definition takes_the_call :: "ucd \<Rightarrow> call_shape \<Rightarrow> extension_declaration \<Rightarrow> bool" where
  "takes_the_call U shape d \<longleftrightarrow>
     (case declaration_signature d of
        None \<Rightarrow> True
      | Some (params_text, counts) \<Rightarrow> candidate_applies_to_call U params_text counts shape)"

fun first_found :: "('a \<Rightarrow> jar_state \<Rightarrow> 'b list resolved) \<Rightarrow> 'a list \<Rightarrow> jar_state \<Rightarrow> 'b list resolved" where
  "first_found f [] s = Some (s, [])"
| "first_found f (x # xs) s =
     Option.bind (f x s) (\<lambda>(s1, ys). if ys \<noteq> [] then Some (s1, ys) else first_found f xs s1)"

definition receiver_base_of :: "ucd \<Rightarrow> str \<Rightarrow> str" where
  "receiver_base_of U receiver_type = last_segment (dotted_ident_prefix U receiver_type)"

definition extension_declarations_on ::
  "resolve_env \<Rightarrow> str \<Rightarrow> str \<Rightarrow> url \<Rightarrow> call_shape \<Rightarrow> jar_state \<Rightarrow> extension_declaration list resolved" where
  "extension_declarations_on V receiver_type name from_uri shape s =
     (let receiver_base = receiver_base_of (fe_ucd V) receiver_type
      in Option.bind (extension_declarations_in_scope V receiver_base name from_uri s) (\<lambda>(s1, own).
           if list_ex (takes_the_call (fe_ucd V) shape) own then Some (s1, own)
           else Option.bind (reachable_class_candidates V receiver_base (Some from_uri) s1) (\<lambda>(s2, classes).
             map_option (\<lambda>(s3, found). (s3, if found \<noteq> [] then found else own))
               (first_found (\<lambda>l. walk_nearest V receiver_base (loc_uri l) from_uri
                     (\<lambda>super_name _. extension_declarations_in_scope V super_name name from_uri))
                  (take MAX_BY_NAME_DEFS classes) s2))))"

text \<open>The type parameters of a member and of its class.\<close>

type_synonym member_type_parameters = "str list \<times> str list"

definition members_taking_call_in_file ::
  "ucd \<Rightarrow> file_data \<Rightarrow> str \<Rightarrow> str \<Rightarrow> call_shape \<Rightarrow> member_type_parameters list" where
  "members_taking_call_in_file U d class_name method_name shape =
     (let owner_class = (case find (\<lambda>s. se_name s = class_name \<and> is_class_like (se_kind s)) (fd_symbols d) of
            Some s \<Rightarrow> type_params s | None \<Rightarrow> [])
      in map (\<lambda>s. (type_params s, owner_class))
           (filter (\<lambda>s. se_name s = method_name \<and> se_kind s \<in> {SK_FUNCTION, SK_METHOD, SK_OPERATOR}
                \<and> se_container s = Some class_name
                \<and> (case extract_params_or_fallback s (fd_lines d) of
                     Some params_text \<Rightarrow> candidate_applies_to_call U params_text (se_param_counts s) shape
                   | None \<Rightarrow> False)) (fd_symbols d)))"

definition members_taking_call_at ::
  "ucd \<Rightarrow> indexer \<Rightarrow> str \<Rightarrow> str \<Rightarrow> str \<Rightarrow> call_shape \<Rightarrow> member_type_parameters list" where
  "members_taking_call_at U ix class_uri class_name method_name shape =
     (case Mapping.lookup (ix_files ix) class_uri of
        None \<Rightarrow> [] | Some d \<Rightarrow> members_taking_call_in_file U d class_name method_name shape)"

definition member_type_parameters_taking_call ::
  "resolve_env \<Rightarrow> str \<Rightarrow> str \<Rightarrow> url \<Rightarrow> call_shape \<Rightarrow> jar_state \<Rightarrow> member_type_parameters option resolved" where
  "member_type_parameters_taking_call V receiver_type name from_uri shape s =
     (let receiver_base = receiver_base_of (fe_ucd V) receiver_type
      in Option.bind (reachable_class_candidates V receiver_base (Some from_uri) s) (\<lambda>(s1, classes).
           map_option (\<lambda>(s2, found). (s2, first_of found))
             (first_found (\<lambda>l s2.
                  let declared = members_taking_call_at (fe_ucd V) (fst s2) (loc_uri l) receiver_base name shape
                  in if declared \<noteq> [] then Some (s2, declared)
                     else walk_hierarchy_breadth_first V receiver_base (loc_uri l) (Some from_uri) 12
                            MAX_SYNC_JAR_PROMOTIONS_PER_HIERARCHY_WALK
                            (\<lambda>ix super_name super_uri. members_taking_call_at (fe_ucd V) ix super_uri super_name name shape) s2)
                (take MAX_BY_NAME_DEFS classes) s1)))"

section \<open>The implicit receiver\<close>

definition has_vararg :: "symbol_entry \<Rightarrow> bool" where
  "has_vararg s \<longleftrightarrow> contains_sub (se_params s) (lit ''vararg '') \<or> contains_sub (se_params s) (lit ''vararg'' @ [9])"

definition shape_takes :: "call_shape \<Rightarrow> symbol_entry \<Rightarrow> bool" where
  "shape_takes shape s \<longleftrightarrow> has_vararg s \<or> accepts shape (fst (se_param_counts s)) (snd (se_param_counts s))"

definition loaded_file :: "indexer \<Rightarrow> str \<Rightarrow> file_data option" where
  "loaded_file ix file_uri = map_option fst (sig_file ix file_uri)"

definition implicit_extension_of_entry ::
  "externals \<Rightarrow> indexer \<Rightarrow> str \<Rightarrow> str \<Rightarrow> call_shape \<Rightarrow> extension_entry \<Rightarrow> location option" where
  "implicit_extension_of_entry X ix receiver_base name shape e =
     Option.bind (x_url_parse X (ee_file_uri e)) (\<lambda>uri.
       Option.bind (Option.bind (loaded_file ix (ee_file_uri e)) (\<lambda>d.
           select_extension_symbol d name receiver_base (ee_container e) (ee_detail e)))
         (\<lambda>s. if shape_takes shape s then Some (Location uri (se_selection_range s)) else None))"

definition implicit_receiver_extension_match ::
  "resolve_env \<Rightarrow> str \<Rightarrow> str \<Rightarrow> url \<Rightarrow> call_shape \<Rightarrow> jar_state \<Rightarrow> location option resolved" where
  "implicit_receiver_extension_match V receiver_base name from_uri shape s =
     map_option (\<lambda>(s1, entries). (s1,
         case entries of
           None \<Rightarrow> None
         | Some es \<Rightarrow> first_some (implicit_extension_of_entry (fe_ext V) (fst s1) receiver_base name shape)
                       (entries_in_scope (fst s1) name from_uri es)))
       (cached_extension_entries V receiver_base s)"

definition implicit_member_in :: "indexer \<Rightarrow> str \<Rightarrow> call_shape \<Rightarrow> location \<Rightarrow> location option" where
  "implicit_member_in ix name shape type_loc =
     Option.bind (loaded_file ix (loc_uri type_loc)) (\<lambda>d.
       map_option (symbol_location (loc_uri type_loc)) (find (\<lambda>s. se_name s = name \<and> shape_takes shape s) (fd_symbols d)))"

end
