(* ===== verification/Qualified.thy ===== *)
theory Qualified
  imports Extension
begin

text \<open>
  Access through a qualifier, \<open>receiver.member\<close>: \<^verbatim>\<open>src/resolver/qualified.rs\<close>, with the entry
  points of \<^verbatim>\<open>resolve.rs\<close> and the callee of an implicit receiver of \<^verbatim>\<open>extension.rs\<close>.

  The types of variables and fields (\<^verbatim>\<open>infer.rs\<close>, which reads syntax trees) are a parameter; what
  they answer may depend on the state and change it, as every look-up may.
\<close>

record value_types =
  vt_variable :: "str \<Rightarrow> url \<Rightarrow> jar_state \<Rightarrow> str option resolved"
  vt_field :: "str \<Rightarrow> str \<Rightarrow> jar_state \<Rightarrow> str option resolved"

section \<open>Names without a qualifier\<close>

definition resolve_unqualified_name :: "resolve_env \<Rightarrow> str \<Rightarrow> url \<Rightarrow> resolve_io \<Rightarrow> step" where
  "resolve_unqualified_name V name from_uri io s =
     (let segments = dot_segments name
      in case (if ch CHR ''.'' \<in> set name then position_of (starts_with_uppercase (fe_ucd V)) segments else None) of
           None \<Rightarrow> resolve_chain V name from_uri io True None None s
         | Some start \<Rightarrow>
             Option.bind (resolve_chain V (segments ! start) from_uri io True None None s) (\<lambda>(s1, outer_locs).
               case outer_locs of
                 [] \<Rightarrow> resolve_chain V name from_uri io True None None s1
               | outer_loc # _ \<Rightarrow>
                   Some (s1,
                     if Suc start = length segments then outer_locs
                     else (case nested_type V (fst s1) (drop (Suc start) segments) (Some outer_loc) of
                             Some l \<Rightarrow> [l] | None \<Rightarrow> []))))"

section \<open>The qualifier\<close>

datatype qualifier_root = This | Super | TypePath str "str list" | ValuePath str "str list"

definition parse_qualifier :: "ucd \<Rightarrow> str \<Rightarrow> qualifier_root" where
  "parse_qualifier U qualifier =
     (let root = hd (dot_segments qualifier); rest = tl (dot_segments qualifier)
      in if root = lit ''this'' then This
         else if root = lit ''super'' then Super
         else if starts_with_uppercase U root then TypePath root rest
         else ValuePath root rest)"

text \<open>The leading segments before the first that names a type are a package.\<close>

definition split_package_prefix :: "ucd \<Rightarrow> str \<Rightarrow> str option \<times> str" where
  "split_package_prefix U type_path =
     (let segments = dot_segments type_path
      in case position_of (starts_with_uppercase U) segments of
           None \<Rightarrow> (None, type_path)
         | Some 0 \<Rightarrow> (None, type_path)
         | Some (Suc n) \<Rightarrow> (Some (join (lit ''.'') (take (Suc n) segments)), join (lit ''.'') (drop (Suc n) segments)))"

record type_scope =
  ts_file :: url
  ts_package :: "str option"

definition in_file :: "url \<Rightarrow> type_scope" where
  "in_file file = \<lparr>ts_file = file, ts_package = None\<rparr>"

definition declared_package :: "indexer \<Rightarrow> location \<Rightarrow> str option" where
  "declared_package ix loc = Option.bind (loaded_file ix (loc_uri loc)) fd_package"

section \<open>The receiver\<close>

record receiver_anchor =
  an_declaration :: "location option"
  an_class_name :: str

definition in_package :: "indexer \<Rightarrow> str \<Rightarrow> str option \<Rightarrow> location list \<Rightarrow> location list" where
  "in_package ix root pkg locs =
     (case pkg of
        None \<Rightarrow> locs
      | Some p \<Rightarrow>
          (case Option.bind (Mapping.lookup (ix_qualified ix) (p @ lit ''.'' @ root)) (ft_location (ix_file_table ix)) of
             Some l \<Rightarrow> [l]
           | None \<Rightarrow> filter (\<lambda>l. declared_package ix l = Some p) locs))"

definition type_path_anchors ::
  "resolve_env \<Rightarrow> str \<Rightarrow> str list \<Rightarrow> type_scope \<Rightarrow> resolve_io \<Rightarrow> jar_state \<Rightarrow> receiver_anchor list resolved" where
  "type_path_anchors V root nested scope io s =
     map_option (\<lambda>(s1, locs).
         let ix = fst s1;
             root_locations = in_package ix root (ts_package scope) locs;
             anchors = List.map_filter (\<lambda>l.
               map_option (\<lambda>d. \<lparr>an_declaration = Some d, an_class_name = last (root # nested)\<rparr>)
                 (nested_type V ix nested (Some l))) root_locations
         in (s1, if anchors \<noteq> [] then anchors
                 else if nested \<noteq> [] \<and> root_locations \<noteq> [] then []
                 else [\<lparr>an_declaration = None, an_class_name = root\<rparr>]))
       (resolve_unqualified_name V root (ts_file scope) (if io = IndexOnly then IndexOnly else Full) s)"

text \<open>The first of the locations of a type, as the walk along a value path takes it.\<close>

definition resolve_first :: "resolve_env \<Rightarrow> str \<Rightarrow> url \<Rightarrow> jar_state \<Rightarrow> location option resolved" where
  "resolve_first V name uri s = map_option (\<lambda>(s1, locs). (s1, first_of locs)) (resolve_unqualified_name V name uri Full s)"

text \<open>A further segment: a nested type, or a field whose declared type is inferred.\<close>

definition value_segment ::
  "value_types \<Rightarrow> resolve_env \<Rightarrow> url \<Rightarrow> str \<Rightarrow> url \<Rightarrow> jar_state \<Rightarrow> receiver_anchor option resolved" where
  "value_segment T V from_uri segment current_uri s =
     (if starts_with_uppercase (fe_ucd V) segment
      then map_option (\<lambda>(s1, d). (s1, Some \<lparr>an_declaration = d, an_class_name = segment\<rparr>))
             (case find_name_in_uri V (fst s) segment current_uri of
                l # _ \<Rightarrow> Some (s, Some l)
              | [] \<Rightarrow> resolve_first V segment from_uri s)
      else Option.bind (vt_field T current_uri segment s) (\<lambda>(s1, field_type).
        case field_type of
          None \<Rightarrow> Some (s1, None)
        | Some t \<Rightarrow>
            map_option (\<lambda>(s2, d). (s2, Some \<lparr>an_declaration = d, an_class_name = last_segment (strip_nullable t)\<rparr>))
              (resolve_first V t current_uri s1)))"

fun value_segments ::
  "value_types \<Rightarrow> resolve_env \<Rightarrow> url \<Rightarrow> str list \<Rightarrow> receiver_anchor \<Rightarrow> jar_state \<Rightarrow> receiver_anchor option resolved" where
  "value_segments T V from_uri [] anchor s = Some (s, Some anchor)"
| "value_segments T V from_uri (segment # segments) anchor s =
     (case an_declaration anchor of
        None \<Rightarrow> Some (s, None)
      | Some l \<Rightarrow>
          Option.bind (value_segment T V from_uri segment (loc_uri l) s) (\<lambda>(s1, next_anchor).
            case next_anchor of
              None \<Rightarrow> Some (s1, None)
            | Some a \<Rightarrow> value_segments T V from_uri segments a s1))"

definition value_path_anchor ::
  "value_types \<Rightarrow> resolve_env \<Rightarrow> str \<Rightarrow> str list \<Rightarrow> url \<Rightarrow> jar_state \<Rightarrow> receiver_anchor option resolved" where
  "value_path_anchor T V root rest from_uri s =
     Option.bind (vt_variable T root from_uri s) (\<lambda>(s1, start_type).
       case start_type of
         None \<Rightarrow> Some (s1, None)
       | Some t \<Rightarrow>
           let path = dot_segments (strip_nullable t)
           in Option.bind (resolve_first V (hd path) from_uri s1) (\<lambda>(s2, d).
                value_segments T V from_uri (tl path @ rest)
                  \<lparr>an_declaration = d, an_class_name = last_segment (hd path)\<rparr> s2))"

definition anchors_for ::
  "value_types \<Rightarrow> resolve_env \<Rightarrow> qualifier_root \<Rightarrow> type_scope \<Rightarrow> url \<Rightarrow> resolve_io \<Rightarrow> jar_state
     \<Rightarrow> receiver_anchor list resolved" where
  "anchors_for T V parsed scope from_uri io s =
     (case parsed of
        This \<Rightarrow> Some (s, [])
      | Super \<Rightarrow> Some (s, [])
      | TypePath root nested \<Rightarrow> type_path_anchors V root nested scope io s
      | ValuePath root rest \<Rightarrow>
          map_option (\<lambda>(s1, a). (s1, case a of Some x \<Rightarrow> [x] | None \<Rightarrow> [])) (value_path_anchor T V root rest from_uri s))"

definition resolve_type_path_declarations :: "resolve_env \<Rightarrow> str \<Rightarrow> url \<Rightarrow> resolve_io \<Rightarrow> step" where
  "resolve_type_path_declarations V type_path scope_uri io s =
     (let (pkg, bare_path) = split_package_prefix (fe_ucd V) type_path
      in case parse_qualifier (fe_ucd V) bare_path of
           TypePath root nested \<Rightarrow>
             map_option (\<lambda>(s1, anchors). (s1, List.map_filter an_declaration anchors))
               (type_path_anchors V root nested \<lparr>ts_file = scope_uri, ts_package = pkg\<rparr> io s)
         | _ \<Rightarrow> Some (s, []))"

section \<open>The candidates\<close>

record qualified_candidates =
  qc_own_members :: "location list"
  qc_inherited_members :: "location list"
  qc_own_type_extension :: "location list"
  qc_supertype_extension :: "location list"

definition into_precedence_ordered :: "qualified_candidates \<Rightarrow> location list" where
  "into_precedence_ordered c =
     qc_own_members c @ qc_inherited_members c @ qc_own_type_extension c @ qc_supertype_extension c"

definition candidates_empty :: "qualified_candidates \<Rightarrow> bool" where
  "candidates_empty c \<longleftrightarrow> qc_own_members c = [] \<and> qc_inherited_members c = [] \<and> qc_own_type_extension c = []
     \<and> qc_supertype_extension c = []"

lemma candidates_empty_iff: "candidates_empty c \<longleftrightarrow> into_precedence_ordered c = []"
  by (simp add: candidates_empty_def into_precedence_ordered_def)

definition member_tiers ::
  "resolve_env \<Rightarrow> receiver_anchor \<Rightarrow> str \<Rightarrow> url \<Rightarrow> jar_state \<Rightarrow> (location list \<times> location list) resolved" where
  "member_tiers V anchor name from_uri s =
     (case an_declaration anchor of
        None \<Rightarrow> Some (s, [], [])
      | Some l \<Rightarrow>
          let own_members = find_all_names_scoped_to_container V (fst s) name l
          in if own_members \<noteq> [] then Some (s, own_members, [])
             else map_option (\<lambda>(s1, inherited). (s1, [], inherited))
                    (resolve_from_class_hierarchy_scoped V name (an_class_name anchor) (loc_uri l) from_uri s))"

definition kotlin_getter_name :: "ucd \<Rightarrow> str \<Rightarrow> str" where
  "kotlin_getter_name U name =
     (case name of [] \<Rightarrow> lit ''get'' | c # cs \<Rightarrow> lit ''get'' @ char_to_uppercase U c @ cs)"

definition is_java_declaring_file :: "url \<Rightarrow> bool" where
  "is_java_declaring_file uri \<longleftrightarrow> ends_with uri (lit ''.java'') \<or> ends_with uri (lit ''.class'')"

definition retain_java_declared :: "location list \<Rightarrow> location list" where
  "retain_java_declared locs = filter (\<lambda>l. is_java_declaring_file (loc_uri l)) locs"

text \<open>The members of the name, else the getters in Java files that Kotlin reads as a property of that name.\<close>

definition members_or_getters ::
  "resolve_env \<Rightarrow> receiver_anchor \<Rightarrow> str \<Rightarrow> url \<Rightarrow> jar_state \<Rightarrow> (location list \<times> location list) resolved" where
  "members_or_getters V anchor name from_uri s =
     Option.bind (member_tiers V anchor name from_uri s) (\<lambda>(s1, own, inherited).
       if own = [] \<and> inherited = []
       then map_option (\<lambda>(s2, getter_own, getter_inherited).
                (s2, retain_java_declared getter_own, retain_java_declared getter_inherited))
              (member_tiers V anchor (kotlin_getter_name (fe_ucd V) name) from_uri s1)
       else Some (s1, own, inherited))"

definition resolve_extension_via_supertype_hierarchy ::
  "resolve_env \<Rightarrow> str \<Rightarrow> url \<Rightarrow> str \<Rightarrow> url \<Rightarrow> step" where
  "resolve_extension_via_supertype_hierarchy V start_class start_uri name origin_uri =
     walk_nearest V start_class start_uri origin_uri
       (\<lambda>super_name _. resolve_extension_in_scope V super_name name origin_uri)"

definition supertype_extensions :: "resolve_env \<Rightarrow> receiver_anchor \<Rightarrow> str \<Rightarrow> url \<Rightarrow> step" where
  "supertype_extensions V anchor name from_uri =
     (case an_declaration anchor of
        None \<Rightarrow> nothing_found
      | Some l \<Rightarrow> resolve_extension_via_supertype_hierarchy V (an_class_name anchor) (loc_uri l) name from_uri)"

definition candidates_on ::
  "resolve_env \<Rightarrow> receiver_anchor \<Rightarrow> str \<Rightarrow> url \<Rightarrow> jar_state \<Rightarrow> qualified_candidates resolved" where
  "candidates_on V anchor name from_uri s =
     Option.bind (members_or_getters V anchor name from_uri s) (\<lambda>(s1, own, inherited).
     Option.bind (resolve_extension_in_scope V (an_class_name anchor) name from_uri s1) (\<lambda>(s2, own_extension).
     map_option (\<lambda>(s3, super_extension).
         (s3, \<lparr>qc_own_members = own, qc_inherited_members = inherited, qc_own_type_extension = own_extension,
               qc_supertype_extension = super_extension\<rparr>))
       (supertype_extensions V anchor name from_uri s2)))"

definition companion_member_on :: "resolve_env \<Rightarrow> indexer \<Rightarrow> receiver_anchor \<Rightarrow> str \<Rightarrow> location list" where
  "companion_member_on V ix anchor name =
     (case an_declaration anchor of
        None \<Rightarrow> []
      | Some l \<Rightarrow> resolve_companion_member (fe_ext V) ix name (an_class_name anchor) (loc_uri l))"

definition location_of_entry :: "externals \<Rightarrow> indexer \<Rightarrow> str \<Rightarrow> str \<Rightarrow> extension_entry \<Rightarrow> location option" where
  "location_of_entry X ix root name e =
     map_option (\<lambda>uri. Location uri
         (case loaded_file ix (ee_file_uri e) of
            Some d \<Rightarrow> select_extension_symbol_range d name root (ee_container e) (ee_detail e)
          | None \<Rightarrow> default_range))
       (x_url_parse X (ee_file_uri e))"

definition jar_extension_for_type_root :: "resolve_env \<Rightarrow> str \<Rightarrow> str \<Rightarrow> step" where
  "jar_extension_for_type_root V root name s =
     map_option (\<lambda>(s1, entries). (s1,
         case entries of
           None \<Rightarrow> []
         | Some es \<Rightarrow> List.map_filter (location_of_entry (fe_ext V) (fst s1) root name) (filter (\<lambda>e. ee_name e = name) es)))
       (cached_extension_entries V root s)"

section \<open>Qualified names\<close>

definition is_type_path :: "qualifier_root \<Rightarrow> bool" where
  "is_type_path parsed = (case parsed of TypePath _ _ \<Rightarrow> True | _ \<Rightarrow> False)"

definition member_of_anchor :: "resolve_env \<Rightarrow> bool \<Rightarrow> str \<Rightarrow> url \<Rightarrow> receiver_anchor \<Rightarrow> step" where
  "member_of_anchor V companion_applies name from_uri anchor =
     or_else (step_if companion_applies (reading (\<lambda>ix. companion_member_on V ix anchor name)))
       (\<lambda>s. map_option (\<lambda>(s1, c). (s1, into_precedence_ordered c)) (candidates_on V anchor name from_uri s))"

definition qualified_last_resort :: "resolve_env \<Rightarrow> qualifier_root \<Rightarrow> str \<Rightarrow> step" where
  "qualified_last_resort V parsed name =
     (case parsed of
        TypePath root nested \<Rightarrow> jar_extension_for_type_root V (last (root # nested)) name
      | _ \<Rightarrow> nothing_found)"

definition resolve_qualified_in_type_scope ::
  "value_types \<Rightarrow> resolve_env \<Rightarrow> str \<Rightarrow> str \<Rightarrow> type_scope \<Rightarrow> url \<Rightarrow> resolve_io \<Rightarrow> step" where
  "resolve_qualified_in_type_scope T V name qualifier scope from_uri io =
     (let parsed = parse_qualifier (fe_ucd V) qualifier
      in case parsed of
           This \<Rightarrow> or_else (reading (\<lambda>ix. find_name_in_uri V ix name from_uri)) (resolve_from_class_hierarchy V name from_uri)
         | Super \<Rightarrow> resolve_from_class_hierarchy V name from_uri
         | _ \<Rightarrow>
             or_else
               (\<lambda>s. Option.bind (anchors_for T V parsed scope from_uri io s) (\<lambda>(s1, anchors).
                  first_nonempty (member_of_anchor V (is_type_path parsed) name from_uri) anchors s1))
               (qualified_last_resort V parsed name))"

definition resolve_qualified :: "value_types \<Rightarrow> resolve_env \<Rightarrow> str \<Rightarrow> str \<Rightarrow> url \<Rightarrow> resolve_io \<Rightarrow> step" where
  "resolve_qualified T V name qualifier from_uri io =
     resolve_qualified_in_type_scope T V name qualifier (in_file from_uri) from_uri io"

section \<open>The entry points\<close>

definition resolve_symbol_with_io ::
  "value_types \<Rightarrow> resolve_env \<Rightarrow> str \<Rightarrow> str option \<Rightarrow> url \<Rightarrow> resolve_io \<Rightarrow> step" where
  "resolve_symbol_with_io T V name qualifier from_uri io =
     (case qualifier of
        None \<Rightarrow> resolve_unqualified_name V name from_uri io
      | Some q \<Rightarrow>
          or_else (resolve_qualified T V name q from_uri io)
            (if q = lit ''super'' \<or> q = lit ''this'' \<or> starts_with_uppercase (fe_ucd V) q then nothing_found
             else resolve_unqualified_name V name from_uri io))"

definition resolve_symbol :: "value_types \<Rightarrow> resolve_env \<Rightarrow> str \<Rightarrow> str option \<Rightarrow> url \<Rightarrow> step" where
  "resolve_symbol T V name qualifier from_uri = resolve_symbol_with_io T V name qualifier from_uri Full"

definition resolve_symbol_index_only :: "value_types \<Rightarrow> resolve_env \<Rightarrow> str \<Rightarrow> str option \<Rightarrow> url \<Rightarrow> step" where
  "resolve_symbol_index_only T V name qualifier from_uri = resolve_symbol_with_io T V name qualifier from_uri IndexOnly"

definition resolve_symbol_in_type_scope ::
  "value_types \<Rightarrow> resolve_env \<Rightarrow> str \<Rightarrow> str \<Rightarrow> type_scope \<Rightarrow> url \<Rightarrow> resolve_io \<Rightarrow> step" where
  "resolve_symbol_in_type_scope T V name qualifier scope from_uri io =
     or_else (resolve_qualified_in_type_scope T V name qualifier scope from_uri io)
       (if starts_with_uppercase (fe_ucd V) qualifier then nothing_found
        else resolve_symbol_with_io T V name (Some qualifier) from_uri io)"

definition resolve_member_only :: "value_types \<Rightarrow> resolve_env \<Rightarrow> str \<Rightarrow> str \<Rightarrow> url \<Rightarrow> step" where
  "resolve_member_only T V name qualifier from_uri = resolve_qualified T V name qualifier from_uri Full"

section \<open>The callee of a receiver\<close>

fun implicit_members :: "indexer \<Rightarrow> str \<Rightarrow> call_shape \<Rightarrow> location list \<Rightarrow> location option" where
  "implicit_members ix name shape [] = None"
| "implicit_members ix name shape (l # ls) =
     or_option (implicit_member_in ix name shape l) (implicit_members ix name shape ls)"

definition implicit_receiver_member_match ::
  "resolve_env \<Rightarrow> str \<Rightarrow> str \<Rightarrow> url \<Rightarrow> call_shape \<Rightarrow> jar_state \<Rightarrow> location option resolved" where
  "implicit_receiver_member_match V receiver_base name type_scope_uri shape s =
     map_option (\<lambda>(s1, locs). (s1, implicit_members (fst s1) name shape locs))
       (resolve_unqualified_name V receiver_base type_scope_uri Full s)"

definition resolve_receiver_callee_in_type_scope ::
  "resolve_env \<Rightarrow> str \<Rightarrow> str \<Rightarrow> url \<Rightarrow> url \<Rightarrow> call_shape \<Rightarrow> step" where
  "resolve_receiver_callee_in_type_scope V receiver_base name type_scope_uri from_uri shape =
     or_else (\<lambda>s. option_locations (implicit_receiver_extension_match V receiver_base name from_uri shape s))
       (\<lambda>s. option_locations (implicit_receiver_member_match V receiver_base name type_scope_uri shape s))"

definition resolve_implicit_receiver_callee :: "resolve_env \<Rightarrow> str \<Rightarrow> str \<Rightarrow> url \<Rightarrow> call_shape \<Rightarrow> step" where
  "resolve_implicit_receiver_callee V receiver_base name from_uri shape =
     resolve_receiver_callee_in_type_scope V receiver_base name from_uri from_uri shape"

end
