(* ===== verification/Call_Signature.thy ===== *)
theory Call_Signature
  imports Qualified
begin

text \<open>
  The signature a call is checked against: \<^verbatim>\<open>src/resolver/call_signature.rs\<close>. A call gets a
  signature only where every declaration it may bind to has the same arity; else the diagnostics skip it.

  The raw type of a receiver (\<open>infer_variable_type_raw\<close> of \<^verbatim>\<open>infer.rs\<close> and its fallback on the
  syntax tree) is a parameter, like the types of \<open>Qualified\<close>.
\<close>

section \<open>The type of a receiver\<close>

record receiver_type =
  rt_raw :: str
  rt_qualified :: str
  rt_outer :: str
  rt_leaf :: str
  rt_nullable :: bool

definition receiver_type_from_raw :: "str \<Rightarrow> receiver_type" where
  "receiver_type_from_raw raw =
     (let qualified = takeWhile (\<lambda>c. c \<noteq> ch CHR ''<'' \<and> c \<noteq> ch CHR ''?'') raw
      in \<lparr>rt_raw = raw, rt_qualified = qualified, rt_outer = hd (dot_segments qualified),
          rt_leaf = last (dot_segments qualified), rt_nullable = is_nullable raw\<rparr>)"

type_synonym receiver_inference = "str \<Rightarrow> url \<Rightarrow> jar_state \<Rightarrow> str option resolved"

definition infer_receiver_type :: "receiver_inference \<Rightarrow> str \<Rightarrow> url \<Rightarrow> jar_state \<Rightarrow> receiver_type option resolved" where
  "infer_receiver_type R name uri s =
     map_option (\<lambda>(s1, raw). (s1, map_option receiver_type_from_raw raw)) (R name uri s)"

section \<open>A signature\<close>

datatype 'a resolution = Resolved 'a | Ambiguous | Unresolved

record signature =
  sg_params_text :: str
  sg_param_counts :: "nat \<times> nat"

record call_site =
  cl_name :: str
  cl_qualifier :: "str option"
  cl_caller_uri :: url
  cl_shape :: "call_shape option"

text \<open>One declaration per arity: the first of each.\<close>

definition distinct_arities :: "(str \<times> 8 word \<times> 8 word) list \<Rightarrow> (str \<times> 8 word \<times> 8 word) list" where
  "distinct_arities entries = dedup_by snd {} entries"

definition build_result :: "(str \<times> 8 word \<times> 8 word) list \<Rightarrow> signature resolution" where
  "build_result entries =
     (case distinct_arities entries of
        [] \<Rightarrow> Unresolved
      | [(params_text, required, all_params)] \<Rightarrow>
          Resolved \<lparr>sg_params_text = params_text, sg_param_counts = (unat required, unat all_params)\<rparr>
      | _ \<Rightarrow> Ambiguous)"

definition total_definition_count :: "str \<Rightarrow> indexer \<Rightarrow> nat" where
  "total_definition_count call_name ix =
     length (postings (ix_definitions ix) call_name) + length (postings (ix_jar_definitions ix) call_name)"

definition call_locations :: "indexer \<Rightarrow> str \<Rightarrow> location list" where
  "call_locations ix call_name =
     List.map_filter (ft_location (ix_file_table ix)) (postings (ix_definitions ix) call_name)
     @ postings (ix_jar_definitions ix) call_name"

section \<open>The signature shown for a receiver\<close>

fun first_in_type_body :: "symbol_entry list \<Rightarrow> str option" where
  "first_in_type_body [] = None"
| "first_in_type_body (x # xs) =
     (if se_params x \<noteq> [] then Some (se_params x)
      else or_option (extract_params_from_detail (se_detail x)) (first_in_type_body xs))"

definition signature_in_type_file :: "indexer \<Rightarrow> str \<Rightarrow> str \<Rightarrow> location \<Rightarrow> str option" where
  "signature_in_type_file ix name outer loc =
     (case Mapping.lookup (ix_files ix) (loc_uri loc) of
        None \<Rightarrow> None
      | Some d \<Rightarrow>
          or_option (collect_fun_params_text name (loc_uri loc) ix)
            (first_in_type_body (filter (\<lambda>x. se_name x = name
                 \<and> (case find (\<lambda>t. se_name t = outer) (fd_symbols d) of
                      Some t \<Rightarrow> pos_line (r_start (se_range x)) \<le> pos_line (r_end (se_range t))
                    | None \<Rightarrow> True)) (fd_symbols d))))"

definition find_fun_signature_with_receiver ::
  "receiver_inference \<Rightarrow> resolve_env \<Rightarrow> url \<Rightarrow> str \<Rightarrow> str option \<Rightarrow> jar_state \<Rightarrow> str option resolved" where
  "find_fun_signature_with_receiver R V uri name receiver s =
     (case receiver of
        None \<Rightarrow> find_fun_signature_full V name uri s
      | Some r \<Rightarrow>
          Option.bind (infer_receiver_type R r uri s) (\<lambda>(s1, t).
            case t of
              None \<Rightarrow> Some (s1, None)
            | Some rt \<Rightarrow>
                map_option (\<lambda>(s2, locs). (s2, first_some (signature_in_type_file (fst s2) name (rt_outer rt)) locs))
                  (resolve_unqualified_name V (rt_outer rt) uri Full s1)))"

section \<open>The parameters of a method of a class\<close>

definition split_container :: "str \<Rightarrow> str option \<times> str" where
  "split_container class_name =
     (case rsplit_once_dot class_name of Some (container, base) \<Rightarrow> (Some container, base) | None \<Rightarrow> (None, class_name))"

definition declares_class :: "file_data \<Rightarrow> str option \<Rightarrow> str \<Rightarrow> bool" where
  "declares_class d container type_base \<longleftrightarrow>
     list_ex (\<lambda>s. se_name s = type_base \<and> is_class_like (se_kind s)
        \<and> (container = None \<or> se_container s = container)) (fd_symbols d)"

definition members_in_file :: "file_data \<Rightarrow> str \<Rightarrow> str \<Rightarrow> (str \<times> 8 word \<times> 8 word) list" where
  "members_in_file d type_base method_name =
     List.map_filter (\<lambda>s. map_option (\<lambda>params_text. (params_text, se_param_counts s)) (extract_params_or_fallback s (fd_lines d)))
       (filter (\<lambda>s. se_name s = method_name \<and> se_kind s \<in> {SK_FUNCTION, SK_METHOD, SK_OPERATOR}
            \<and> se_container s = Some type_base) (fd_symbols d))"

definition class_members :: "indexer \<Rightarrow> str \<Rightarrow> str \<Rightarrow> (str \<times> 8 word \<times> 8 word) list" where
  "class_members ix class_name method_name =
     (let (container, type_base) = split_container class_name
      in concat (map (\<lambda>l. case Option.bind (ft_url (ix_file_table ix) (sl_file l)) (Mapping.lookup (ix_files ix)) of
            None \<Rightarrow> []
          | Some d \<Rightarrow> if declares_class d container type_base then members_in_file d type_base method_name else [])
          (postings (ix_definitions ix) type_base)))"

definition inherited_extension_params ::
  "resolve_env \<Rightarrow> str \<Rightarrow> str \<Rightarrow> url \<Rightarrow> call_shape \<Rightarrow> jar_state \<Rightarrow> (str \<times> 8 word \<times> 8 word) list resolved" where
  "inherited_extension_params V type_base method_name caller_uri shape s =
     map_option (\<lambda>(s1, ds). (s1, List.map_filter declaration_signature ds))
       (extension_declarations_on V type_base method_name caller_uri shape s)"

definition extension_files :: "extension_entry list option \<Rightarrow> str \<Rightarrow> str list" where
  "extension_files entries method_name =
     (case entries of
        None \<Rightarrow> []
      | Some es \<Rightarrow> dedup_by id {} (map ee_file_uri (filter (\<lambda>e. ee_name e = method_name) es)))"

definition find_method_params_in_class ::
  "resolve_env \<Rightarrow> str \<Rightarrow> str \<Rightarrow> url \<Rightarrow> call_shape \<Rightarrow> jar_state \<Rightarrow> str option resolved" where
  "find_method_params_in_class V class_name method_name caller_uri shape s =
     (let type_base = snd (split_container class_name)
      in Option.bind (cached_extension_entries V type_base s) (\<lambda>(s1, entries).
           let candidates = class_members (fst s) class_name method_name
                 @ concat (map (\<lambda>file_uri. collect_params_from_file method_name file_uri (fst s1) caller_uri CrossFile (Some type_base))
                     (extension_files entries method_name))
           in map_option (\<lambda>(s2, inherited). (s2, pick_candidate_matching_shape (fe_ucd V) (candidates @ inherited) shape))
                (if list_ex (\<lambda>c. candidate_applies_to_call (fe_ucd V) (fst c) (snd c) shape) candidates then Some (s1, [])
                 else inherited_extension_params V type_base method_name caller_uri shape s1)))"

section \<open>Calls with a qualifier\<close>

definition resolve_qualified_call :: "receiver_inference \<Rightarrow> resolve_env \<Rightarrow> call_site \<Rightarrow> str \<Rightarrow> jar_state \<Rightarrow> signature resolution resolved" where
  "resolve_qualified_call R V c qualifier s =
     Option.bind (infer_receiver_type R qualifier (cl_caller_uri c) s) (\<lambda>(s1, receiver).
       case receiver of
         None \<Rightarrow> Some (s1, Unresolved)
       | Some rt \<Rightarrow>
           Option.bind (promote_cached V (cl_name c) s1) (\<lambda>s2.
             if total_definition_count (cl_name c) (fst s2) > MAX_BY_NAME_DEFS then Some (s2, Ambiguous)
             else (let params_at = (\<lambda>ix file_uri.
                         collect_params_from_file (cl_name c) file_uri ix (cl_caller_uri c) CrossFile (Some (rt_leaf rt)))
                   in map_option (\<lambda>(s3, entries). (s3, build_result
                          (concat (map (\<lambda>l. params_at (fst s2) (loc_uri l)) (call_locations (fst s2) (cl_name c)))
                           @ (case entries of
                                None \<Rightarrow> []
                              | Some es \<Rightarrow> concat (map (\<lambda>e. params_at (fst s3) (ee_file_uri e))
                                             (filter (\<lambda>e. ee_name e = cl_name c) es))))))
                      (cached_extension_entries V (rt_leaf rt) s2))))"

section \<open>Calls without one\<close>

datatype same_file_verdict =
    MemberWins "(str \<times> 8 word \<times> 8 word) list"
  | ShapeMatches "(str \<times> 8 word \<times> 8 word) list"
  | NameCollision "(str \<times> 8 word \<times> 8 word) list"
  | NotDeclared

definition classify_same_file :: "call_site \<Rightarrow> indexer \<Rightarrow> same_file_verdict" where
  "classify_same_file c ix =
     (let same_file = collect_params_from_file (cl_name c) (cl_caller_uri c) ix (cl_caller_uri c) SameFile None
      in if same_file = [] then NotDeclared
         else if (case Mapping.lookup (ix_files ix) (cl_caller_uri c) of
                    None \<Rightarrow> False
                  | Some d \<Rightarrow> list_ex (\<lambda>s. se_name s = cl_name c \<and> se_container s \<noteq> None) (fd_symbols d))
         then MemberWins same_file
         else if (case cl_shape c of
                    None \<Rightarrow> True
                  | Some shape \<Rightarrow> list_ex (\<lambda>e. accepts shape (fst (snd e)) (snd (snd e))) same_file)
         then ShapeMatches same_file
         else NameCollision same_file)"

definition source_set_of :: "indexer \<Rightarrow> str \<Rightarrow> source_set" where
  "source_set_of ix file_uri = (case loaded_file ix file_uri of Some d \<Rightarrow> fd_source_set d | None \<Rightarrow> Main)"

definition caller_source_set :: "indexer \<Rightarrow> url \<Rightarrow> source_set" where
  "caller_source_set ix uri =
     (case Mapping.lookup (ix_files ix) uri of Some d \<Rightarrow> fd_source_set d | None \<Rightarrow> Main)"

definition cross_file_locations :: "indexer \<Rightarrow> call_site \<Rightarrow> location list" where
  "cross_file_locations ix c =
     filter (\<lambda>l. loc_uri l \<noteq> cl_caller_uri c
          \<and> (source_set_of ix (loc_uri l) = Test \<longrightarrow> caller_source_set ix (cl_caller_uri c) = Test))
       (call_locations ix (cl_name c))"

definition resolve_cross_file :: "resolve_env \<Rightarrow> call_site \<Rightarrow> jar_state \<Rightarrow> signature resolution resolved" where
  "resolve_cross_file V c s =
     map_option (\<lambda>s1. (s1,
         if total_definition_count (cl_name c) (fst s1) > MAX_BY_NAME_DEFS then Ambiguous
         else build_result (concat (map (\<lambda>l.
                collect_params_from_file (cl_name c) (loc_uri l) (fst s1) (cl_caller_uri c) CrossFile None)
              (cross_file_locations (fst s1) c)))))
       (promote_cached V (cl_name c) s)"

definition resolve_unqualified_call :: "resolve_env \<Rightarrow> call_site \<Rightarrow> jar_state \<Rightarrow> signature resolution resolved" where
  "resolve_unqualified_call V c s =
     (case classify_same_file c (fst s) of
        MemberWins entries \<Rightarrow> Some (s, build_result entries)
      | ShapeMatches entries \<Rightarrow> Some (s, build_result entries)
      | NameCollision rejected \<Rightarrow>
          map_option (\<lambda>(s1, elsewhere). (s1, if elsewhere = Unresolved then build_result rejected else elsewhere))
            (resolve_cross_file V c s)
      | NotDeclared \<Rightarrow> resolve_cross_file V c s)"

definition resolve_call_signature :: "receiver_inference \<Rightarrow> resolve_env \<Rightarrow> call_site \<Rightarrow> jar_state \<Rightarrow> signature resolution resolved" where
  "resolve_call_signature R V c =
     (case cl_qualifier c of
        Some qualifier \<Rightarrow> resolve_qualified_call R V c qualifier
      | None \<Rightarrow> resolve_unqualified_call V c)"

end
