(* ===== verification/Qualified_Props.thy ===== *)
theory Qualified_Props
  imports Call_Signature Resolve_Props
begin

text \<open>
  Qualified names and calls: extensions come from the nearest supertypes, a missing nested type is not read as its
  outer one, and a call gets a signature only where its declarations agree on the arity; and the places where the
  receiver is not what the program says.
\<close>

section \<open>Walks that only read\<close>

lemma level_targets_with_pure:
  "(\<And>n. C n w = Some (w, K n)) \<Longrightarrow> lv_state l = w
    \<Longrightarrow> level_targets_with C ts l = Some (level_targets (\<lambda>_. K) ts l) \<and> lv_state (level_targets (\<lambda>_. K) ts l) = w"
  by (induction ts arbitrary: l) auto

lemma level_nodes_with_pure:
  "(\<And>n. T n w = Some (w, G n)) \<Longrightarrow> (\<And>n. C n w = Some (w, K n)) \<Longrightarrow> lv_state l = w
    \<Longrightarrow> level_nodes_with T C ns l = level_nodes T (\<lambda>_. K) ns l
      \<and> (\<forall>l1. level_nodes T (\<lambda>_. K) ns l = Some l1 \<longrightarrow> lv_state l1 = w)"
proof (induction ns arbitrary: l)
  case (Cons n ns)
  let ?l = "level_targets (\<lambda>_. K) (G n) (l\<lparr>lv_state := w\<rparr>)"
  have "level_targets_with C (G n) (l\<lparr>lv_state := w\<rparr>) = Some ?l" "lv_state ?l = w"
    using level_targets_with_pure [of C w K "l\<lparr>lv_state := w\<rparr>" "G n"] Cons.prems(2) by auto
  then show ?case using Cons.IH [of ?l] Cons.prems by simp
qed simp

lemma levels_from_with_pure:
  assumes "\<And>n. T n w = Some (w, G n)" "\<And>n. C n w = Some (w, K n)"
  shows "levels_from_with T C depth visited current w = levels_from T (\<lambda>_. K) depth visited current w"
proof (induction depth arbitrary: visited current)
  case (Suc depth)
  let ?l = "\<lparr>lv_state = w, lv_visited = visited, lv_found = [], lv_next = []\<rparr>"
  note same = level_nodes_with_pure [of T w G C K ?l current, OF assms]
  show ?case
  proof (cases "level_nodes T (\<lambda>_. K) current ?l")
    case None
    then show ?thesis using same by simp
  next
    case (Some l1)
    then have "lv_state l1 = w" using same by simp
    then show ?thesis using same Some Suc by simp
  qed
qed simp

text \<open>A walk whose classes give their items without a change of state is the plain walk.\<close>

lemma walk_nearest_settled:
  assumes s: "settled V s" and items: "\<And>name uri. collect name uri s = Some (s, items name uri)"
  shows "walk_nearest V c u origin collect s
    = walk_hierarchy_breadth_first V c u (Some origin) 12 MAX_SYNC_JAR_PROMOTIONS_PER_HIERARCHY_WALK
        (\<lambda>_. items) s"
proof -
  let ?w = "(s, MAX_SYNC_JAR_PROMOTIONS_PER_HIERARCHY_WALK)"
    and ?C = "\<lambda>(name, uri) w. map_option (\<lambda>(s1, items). ((s1, snd w), items)) (collect name uri (fst w))"
  have T: "supertype_targets V origin n ?w = Some (?w, supertypes_in V origin ?w n)" for n
    using supertype_targets_settled [of V ?w origin n] s by simp
  have C: "?C n ?w = Some (?w, case n of (name, uri) \<Rightarrow> items name uri)" for n
    by (cases n) (simp add: items)
  have "collect_at (\<lambda>_. items) = (\<lambda>_ n. case n of (name, uri) \<Rightarrow> items name uri)"
    by (intro ext) (simp add: collect_at_def split: prod.split)
  then show ?thesis
    unfolding walk_nearest_def walk_hierarchy_breadth_first_def walk_breadth_first_def Let_def
    using levels_from_with_pure [of "supertype_targets V origin" ?w "supertypes_in V origin ?w" ?C
        "\<lambda>n. case n of (name, uri) \<Rightarrow> items name uri"] T C by simp
qed

section \<open>Extensions\<close>

definition extensions_decided :: "indexer \<Rightarrow> bool" where
  "extensions_decided ix \<longleftrightarrow>
     (\<forall>r. set (postings (ix_jar_extension_receivers ix) r) \<subseteq> ix_materialized ix \<union> ix_materialization_failed ix)"

lemma cached_entries_decided:
  assumes "extensions_decided (fst s)"
  shows "cached_extension_entries V r s = Some (s, Mapping.lookup (ix_extension_by_receiver (fst s)) r)"
proof (cases "Mapping.lookup (ix_jar_extension_receivers (fst s)) r")
  case None
  then show ?thesis by (simp add: cached_extension_entries_def extension_entries_for_def)
next
  case (Some cs)
  with assms have "set cs \<subseteq> ix_materialized (fst s) \<union> ix_materialization_failed (fst s)"
    by (auto simp: extensions_decided_def postings_def dest!: spec [of _ r])
  with Some fold_decided [of cs s "rv_jar V" "fe_ext V" 0 False] show ?thesis
    by (cases s) (auto simp: cached_extension_entries_def extension_entries_for_def
        ensure_jar_materialized_for_extension_receiver_def promote_candidates_bounded_def)
qed

text \<open>The declarations of the extensions \<open>name\<close> that are registered for exactly this receiver and in scope.\<close>

definition extensions_on :: "externals \<Rightarrow> indexer \<Rightarrow> str \<Rightarrow> str \<Rightarrow> url \<Rightarrow> location list" where
  "extensions_on X ix receiver name from_uri =
     map declaration_location (List.map_filter (declaration_of_entry X ix receiver name)
       (entries_in_scope ix name from_uri (postings (ix_extension_by_receiver ix) receiver)))"

lemma extension_in_scope_decided:
  "extensions_decided (fst s) \<Longrightarrow>
     resolve_extension_in_scope V receiver name from_uri s = Some (s, extensions_on (fe_ext V) (fst s) receiver name from_uri)"
  by (simp add: resolve_extension_in_scope_def extension_declarations_in_scope_def cached_entries_decided
      extensions_on_def postings_def entries_in_scope_def List.map_filter_simps split: option.split)

text \<open>C27 The extensions a receiver inherits are those of its nearest supertypes: where nothing is left to load (every
  JAR that declares a name or an extension is materialized or has failed, and every SDK source that could be read is
  indexed), the look-up returns, with the state unchanged, the extensions in scope that are registered for the
  supertypes at the smallest distance at which there are any, each supertype once, and nothing only where no
  supertype within twelve steps has one.\<close>

theorem inherited_extensions_are_nearest:
  assumes "settled V s" and "extensions_decided (fst s)"
  shows "\<exists>r. resolve_extension_via_supertype_hierarchy V c cu name u s = Some (s, r)
    \<and> (let G = supertypes_in V u (s, MAX_SYNC_JAR_PROMOTIONS_PER_HIERARCHY_WALK);
           ext = (\<lambda>m. extensions_on (fe_ext V) (fst s) (fst m) name u);
           gives = (\<lambda>d. \<exists>m \<in> at_distance G (c, cu) d. ext m \<noteq> [])
       in if r = [] then \<forall>d. 0 < d \<and> d \<le> 12 \<longrightarrow> \<not> gives d
          else \<exists>d ns. 0 < d \<and> d \<le> 12 \<and> (\<forall>e. 0 < e \<and> e < d \<longrightarrow> \<not> gives e)
                 \<and> distinct ns \<and> set ns = at_distance G (c, cu) d \<and> r = concat (map ext ns))"
proof -
  let ?K = "\<lambda>receiver _. extensions_on (fe_ext V) (fst s) receiver name u"
    and ?w = "(s, MAX_SYNC_JAR_PROMOTIONS_PER_HIERARCHY_WALK)"
  have I: "?w = ?w \<and> settled V (fst ?w)" using assms by simp
  from hw.walk_breadth_first_nearest [OF I, of u "\<lambda>_. ?K" 12 "(c, cu)"] obtain w1 r where
    r: "walk_breadth_first (supertype_targets V u) (collect_at (\<lambda>_. ?K)) 12 (c, cu) ?w = Some (w1, r)"
       "hw.nearest V u ?w (\<lambda>_. ?K) (c, cu) 12 r" by blast
  have w1: "w1 = ?w" using hw.walk_breadth_first_state [OF I r(1)] by simp
  have "walk_nearest V c cu u (\<lambda>super_name _. resolve_extension_in_scope V super_name name u) s
      = walk_hierarchy_breadth_first V c cu (Some u) 12 MAX_SYNC_JAR_PROMOTIONS_PER_HIERARCHY_WALK (\<lambda>_. ?K) s"
    by (rule walk_nearest_settled) (simp_all add: assms extension_in_scope_decided)
  then have "resolve_extension_via_supertype_hierarchy V c cu name u s = Some (s, r)"
    using r(1) by (simp add: resolve_extension_via_supertype_hierarchy_def walk_hierarchy_breadth_first_def w1)
  moreover have "collect_at (\<lambda>_. ?K) ?w = (\<lambda>m. ?K (fst m) (snd m))" by (rule ext) (simp add: collect_at_def split_def)
  ultimately show ?thesis
    using r(2) unfolding hw.nearest_def Let_def by (auto split: if_splits)
qed

text \<open>The index of \<open>Resolve_Props\<close>, where \<open>A\<close> extends \<open>B\<close>, with an extension \<open>f\<close> of \<open>B\<close>.\<close>

definition example_extension :: extension_entry where
  "example_extension = \<lparr>ee_file_uri = lit ''/E.kt'', ee_name = lit ''f'', ee_kind = SK_FUNCTION, ee_detail = [],
     ee_visibility = Public, ee_package = None, ee_trailing_lambda = False, ee_deprecated = False, ee_container = None\<rparr>"

definition example_extension_state :: jar_state where
  "example_extension_state = (example_resolve_index\<lparr>ix_extension_by_receiver :=
     Mapping.update (lit ''B'') [example_extension] Mapping.empty\<rparr>, snd example_state)"

lemma example_extension_fields:
  "ix_files (fst example_extension_state) = Mapping.update (lit ''/A.kt'') example_file Mapping.empty"
  "ix_jar_files (fst example_extension_state) = Mapping.empty"
  by (simp_all add: example_extension_state_def example_resolve_index_def indexer_new_def)

lemma example_extension_settled:
  "settled example_resolve_env example_extension_state" "extensions_decided (fst example_extension_state)"
  by (simp_all add: settled_def jars_decided_def sdk_loaded_def extensions_decided_def example_extension_state_def
      example_resolve_index_def indexer_new_def postings_def example_resolve_env_def)

lemma example_extension_supertypes:
  "supertypes_in example_resolve_env o1 (example_extension_state, b) (lit ''A'', lit ''/A.kt'') = [(lit ''B'', lit ''/A.kt'')]"
proof -
  let ?s = example_extension_state
  have f: "file_at example_resolve_env (fst ?s) (lit ''/A.kt'') = Some (lit ''/A.kt'', example_file)"
    by (simp add: file_at_def ensure_file_data_def example_extension_fields example_resolve_env_def example_externals_def)
  have supers: "super_names_for_class example_file (lit ''A'') = [lit ''B'']"
    by (simp add: super_names_for_class_def example_file_def default_file_data_def example_class_def selection_start_def)
  have local: "resolve_local (fst ?s) (lit ''B'') (lit ''/A.kt'') None
     = [Location (lit ''/A.kt'') (Rng (Position 2 6) (Position 2 7))]"
    by (simp add: resolve_local_def example_extension_fields example_file_def example_class_def
        default_file_data_def symbol_location_def)
  have promote: "promote_budgeted example_resolve_env n (?s, b) = Some (?s, b)" for n
    using example_extension_settled(1) by simp
  have "resolve_symbol_hierarchy_ambiguity_safe example_resolve_env (lit ''B'') (lit ''/A.kt'') o2 (?s, b)
     = Some ((?s, b), [Location (lit ''/A.kt'') (Rng (Position 2 6) (Position 2 7))])" for o2
    using local_first [of ?s "lit ''B''" "lit ''/A.kt''" None HierarchyAmbiguitySafe]
      promote by (simp add: resolve_symbol_hierarchy_ambiguity_safe_def local del: lit_Cons)
  then have "supertype_target example_resolve_env (lit ''/A.kt'') o2 (lit ''B'') (?s, b)
      = Some ((?s, b), [(lit ''B'', lit ''/A.kt'')])" for o2
    using promote by (simp add: supertype_target_def dotted_supertype_def last_segment_def last_part_def)
  then show ?thesis
    using f supers by (simp add: supertypes_in_def supertype_targets_def del: lit_Cons)
qed

theorem inherited_extensions_are_nearest_witness:
  "resolve_extension_via_supertype_hierarchy example_resolve_env (lit ''A'') (lit ''/A.kt'') (lit ''f'') (lit ''/A.kt'')
      example_extension_state
   = Some (example_extension_state, [Location (lit ''/E.kt'') default_range])"
proof -
  let ?G = "supertypes_in example_resolve_env (lit ''/A.kt'') (example_extension_state, MAX_SYNC_JAR_PROMOTIONS_PER_HIERARCHY_WALK)"
    and ?A = "(lit ''A'', lit ''/A.kt'')" and ?B = "(lit ''B'', lit ''/A.kt'')"
  let ?ext = "\<lambda>m. extensions_on example_externals (fst example_extension_state) (fst m) (lit ''f'') (lit ''/A.kt'')"
  have "within ?G 1 ?A = {?A, ?B}" by (simp add: example_extension_supertypes del: lit_Cons)
  moreover have "?A \<noteq> ?B" by simp
  ultimately have one: "at_distance ?G ?A 1 = {?B}" by (simp add: at_distance_def del: lit_Cons)
  have ext: "?ext ?B = [Location (lit ''/E.kt'') default_range]"
  proof -
    let ?ix = "fst example_extension_state"
    have p: "postings (ix_extension_by_receiver ?ix) (lit ''B'') = [example_extension]"
      by (simp add: example_extension_state_def postings_def)
    have "extension_entry_is_in_scope example_extension (lit ''/A.kt'') (Some example_file)"
      by (simp add: example_extension_def extension_entry_is_in_scope_def extension_is_in_scope_def example_file_def
          default_file_data_def)
    moreover have "ee_name example_extension = lit ''f''" by (simp add: example_extension_def)
    ultimately have "entries_in_scope ?ix (lit ''f'') (lit ''/A.kt'') [example_extension] = [example_extension]"
      by (simp add: entries_in_scope_def example_extension_fields del: lit_Cons)
    moreover have "declaration_of_entry example_externals ?ix (lit ''B'') (lit ''f'') example_extension
        = Some \<lparr>exd_uri = lit ''/E.kt'', exd_declaring = None\<rparr>"
      by (simp add: declaration_of_entry_def sig_file_def example_extension_fields example_externals_def)
        (simp add: example_extension_def)
    ultimately show ?thesis
      using p by (simp add: extensions_on_def List.map_filter_simps declaration_location_def exd_symbol_def del: lit_Cons)
  qed
  then have gives: "\<exists>m \<in> at_distance ?G ?A 1. ?ext m \<noteq> []" unfolding one by simp
  have X: "fe_ext example_resolve_env = example_externals" by (simp add: example_resolve_env_def)
  from inherited_extensions_are_nearest [OF example_extension_settled, of "lit ''A''" "lit ''/A.kt''" "lit ''f''" "lit ''/A.kt''"]
  obtain r where run: "resolve_extension_via_supertype_hierarchy example_resolve_env (lit ''A'') (lit ''/A.kt'') (lit ''f'')
       (lit ''/A.kt'') example_extension_state = Some (example_extension_state, r)"
    and near: "if r = [] then \<forall>d. 0 < d \<and> d \<le> 12 \<longrightarrow> \<not> (\<exists>m \<in> at_distance ?G ?A d. ?ext m \<noteq> [])
          else \<exists>d ns. 0 < d \<and> d \<le> 12 \<and> (\<forall>e. 0 < e \<and> e < d \<longrightarrow> \<not> (\<exists>m \<in> at_distance ?G ?A e. ?ext m \<noteq> []))
                 \<and> distinct ns \<and> set ns = at_distance ?G ?A d \<and> r = concat (map ?ext ns)"
    unfolding Let_def X by blast
  have "r \<noteq> []"
  proof
    assume "r = []"
    then have all: "0 < d \<and> d \<le> 12 \<longrightarrow> \<not> (\<exists>m \<in> at_distance ?G ?A d. ?ext m \<noteq> [])" for d
      using near unfolding if_bool_eq_conj by blast
    have "0 < (1 :: nat) \<and> (1 :: nat) \<le> 12" by simp
    with all gives show False by blast
  qed
  then obtain d ns where d: "0 < d" "\<forall>e. 0 < e \<and> e < d \<longrightarrow> \<not> (\<exists>m \<in> at_distance ?G ?A e. ?ext m \<noteq> [])"
    and ns: "distinct ns" "set ns = at_distance ?G ?A d" "r = concat (map ?ext ns)"
    using near unfolding if_bool_eq_conj by blast
  have "\<not> 1 < d" using d(2) gives by (metis zero_less_one)
  with d(1) have "d = 1" by simp
  then have B: "set ns = {?B}" using ns(2) one by (simp only:)
  have "length ns = 1" using distinct_card [OF ns(1)] unfolding B by simp
  then obtain x where "ns = [x]" by (auto simp: length_Suc_conv)
  with B have "ns = [?B]" by simp
  with ns(3) ext have "r = [Location (lit ''/E.kt'') default_range]" by (simp del: lit_Cons)
  with run show ?thesis by (simp only:)
qed

section \<open>Types in types\<close>

text \<open>C29 A missing nested type is never read as its outer type: if the qualifier is a path of types whose root is found
  but of which no candidate has the nested types that follow, then no member of the root or of any type on the way
  is offered; all that is left are the extensions registered for the name of the last segment.\<close>

theorem missing_nested_type_is_not_its_outer:
  assumes q: "parse_qualifier (fe_ucd V) q = TypePath root nested" "nested \<noteq> []"
    and root: "resolve_unqualified_name V root u (if io = IndexOnly then IndexOnly else Full) s = Some (s1, locs)" "locs \<noteq> []"
    and missing: "\<forall>l \<in> set locs. nested_type V (fst s1) nested (Some l) = None"
  shows "resolve_qualified T V name q u io s = jar_extension_for_type_root V (last nested) name s1"
proof -
  have "List.map_filter (\<lambda>l. map_option (\<lambda>d. \<lparr>an_declaration = Some d, an_class_name = last (root # nested)\<rparr>)
      (nested_type V (fst s1) nested (Some l))) ls = []" if "set ls \<subseteq> set locs" for ls
    using that missing by (induction ls) (auto simp: List.map_filter_simps)
  then have "anchors_for T V (TypePath root nested) (in_file u) u io s = Some (s1, [])"
    using root q(2) by (simp add: anchors_for_def type_path_anchors_def in_file_def in_package_def Let_def)
  then show ?thesis
    using q by (simp add: resolve_qualified_def resolve_qualified_in_type_scope_def or_else_def qualified_last_resort_def Let_def)
qed

definition example_value_types :: value_types where
  "example_value_types = \<lparr>vt_variable = (\<lambda>_ _ s. Some (s, None)), vt_field = (\<lambda>_ _ s. Some (s, None))\<rparr>"

theorem missing_nested_type_is_not_its_outer_witness:
  "resolve_qualified example_value_types example_resolve_env (lit ''m'') (lit ''B.C'') (lit ''/A.kt'') IndexOnly example_state
     = jar_extension_for_type_root example_resolve_env (lit ''C'') (lit ''m'') example_state"
proof -
  let ?B = "Location (lit ''/A.kt'') (Rng (Position 2 6) (Position 2 7))"
  have "parse_qualifier (fe_ucd example_resolve_env) (lit ''B.C'') = TypePath (lit ''B'') [lit ''C'']"
    by (simp add: parse_qualifier_def dot_segments_def starts_with_uppercase_def example_resolve_env_def
        ascii_ucd_def ascii_class_defs Let_def)
  moreover have "resolve_chain example_resolve_env (lit ''B'') (lit ''/A.kt'') IndexOnly True None None example_state
      = Some (example_state, [?B])"
    using local_first [of example_state "lit ''B''" "lit ''/A.kt''" None IndexOnly]
    by (simp add: resolve_chain_def example_local del: lit_Cons)
  then have "resolve_unqualified_name example_resolve_env (lit ''B'') (lit ''/A.kt'') IndexOnly example_state
      = Some (example_state, [?B])"
    by (simp add: resolve_unqualified_name_def Let_def)
  moreover have "nested_type example_resolve_env (fst example_state) [lit ''C''] (Some ?B) = None"
    by (simp add: nested_type_def find_name_scoped_to_container_def ensure_file_data_def example_resolve_index_def
        example_resolve_env_def example_file_def example_class_def container_at_def enclosed_members_def first_of_def
        find_name_in_uri_after_line_def file_at_def example_externals_def members_tagged_def default_file_data_def
        find_declaration_range_after_line_def find_declaration_range_in_lines_def Let_def)
  ultimately show ?thesis
    using missing_nested_type_is_not_its_outer [of example_resolve_env "lit ''B.C''" "lit ''B''" "[lit ''C'']" "lit ''/A.kt''"
        IndexOnly example_state example_state "[?B]" example_value_types "lit ''m''"] by simp
qed

section \<open>Receivers that are not what they say\<close>

lemma dot_segments_dot: "ch CHR ''.'' \<notin> set a \<Longrightarrow> dot_segments (a @ ch CHR ''.'' # b) = a # dot_segments b"
  by (simp add: dot_segments_def split_on_append_sep split_on_no_sep)

lemma qualified_this_path: "resolve_qualified T V name (lit ''this.'' @ path) u io = resolve_qualified T V name (lit ''this'') u io"
proof -
  have "parse_qualifier (fe_ucd V) (lit ''this.'' @ path) = This"
    using dot_segments_dot [of "lit ''this''" path] by (simp add: parse_qualifier_def)
  moreover have "parse_qualifier (fe_ucd V) (lit ''this'') = This"
    by (simp add: parse_qualifier_def dot_segments_def split_on_no_sep)
  ultimately show ?thesis by (simp only: resolve_qualified_def resolve_qualified_in_type_scope_def qualifier_root.case Let_def)
qed

text \<open>Of a path that starts with \<open>this\<close> only that is read: \<open>this.repo.load\<close> is looked up in the file of the call,
  whatever the type of \<open>repo\<close>, and any declaration there of a \<open>load\<close>, of any class, is the answer.\<close>

theorem this_path_reads_own_file:
  assumes "find_name_in_uri V (fst s) name u \<noteq> []"
  shows "resolve_symbol T V name (Some (lit ''this.'' @ path)) u s = Some (s, find_name_in_uri V (fst s) name u)"
proof -
  have "parse_qualifier (fe_ucd V) (lit ''this'') = This"
    by (simp add: parse_qualifier_def dot_segments_def split_on_no_sep)
  then have "resolve_qualified T V name (lit ''this'') u Full s = Some (s, find_name_in_uri V (fst s) name u)"
    using assms by (simp add: resolve_qualified_def resolve_qualified_in_type_scope_def or_else_def reading_def del: lit_Cons)
  then show ?thesis
    unfolding resolve_symbol_def resolve_symbol_with_io_def option.case or_else_def qualified_this_path using assms by simp
qed

text \<open>The policy is not passed on to the types of values: on the path that runs no search program a variable's type
  is still looked up with every one.\<close>

lemma value_path_ignores_policy:
  assumes "parse_qualifier (fe_ucd V) q = ValuePath root rest"
  shows "resolve_qualified T V name q u IndexOnly = resolve_qualified T V name q u Full"
  using assms by (simp add: resolve_qualified_def resolve_qualified_in_type_scope_def anchors_for_def)

section \<open>Calls\<close>

lemma dedup_by_keys: "key ` set (dedup_by key seen xs) = key ` set xs - seen"
  by (induction xs arbitrary: seen) auto

lemma dedup_by_distinct: "distinct (map key (dedup_by key seen xs))"
proof (induction xs arbitrary: seen)
  case (Cons x xs)
  show ?case
  proof (cases "key x \<in> seen")
    case False
    have "key x \<notin> key ` set (dedup_by key (insert (key x) seen) xs)" unfolding dedup_by_keys by simp
    with False Cons [of "insert (key x) seen"] show ?thesis by simp
  qed (use Cons in simp)
qed simp

lemma distinct_arities_Cons: "\<exists>rest. distinct_arities (e # es) = e # rest"
  by (simp add: distinct_arities_def)

text \<open>C28 A call is checked against a signature only where there is one arity to check it against: from the declarations
  found, the result is the parameters of the first with its counts exactly when there are declarations and all of
  them have the same counts; two counts make the call ambiguous, and no declaration leaves it unresolved.\<close>

theorem signature_iff_one_arity:
  "build_result entries =
     (if entries = [] then Unresolved
      else if \<forall>e \<in> set entries. snd e = snd (hd entries)
      then Resolved \<lparr>sg_params_text = fst (hd entries),
             sg_param_counts = (unat (fst (snd (hd entries))), unat (snd (snd (hd entries))))\<rparr>
      else Ambiguous)"
proof (cases entries)
  case Nil
  then show ?thesis by (simp add: build_result_def distinct_arities_def)
next
  case (Cons e es)
  obtain rest where rest: "distinct_arities entries = e # rest" using distinct_arities_Cons Cons by blast
  have keys: "snd ` set (distinct_arities entries) = snd ` set entries" "distinct (map snd (distinct_arities entries))"
    using dedup_by_keys [of snd "{}" entries] dedup_by_distinct [of snd "{}" entries] by (simp_all add: distinct_arities_def)
  have one: "rest = [] \<longleftrightarrow> (\<forall>e' \<in> set entries. snd e' = snd e)"
  proof
    assume "rest = []"
    then have "snd ` set entries = {snd e}" using keys(1) rest by simp
    then show "\<forall>e' \<in> set entries. snd e' = snd e" by auto
  next
    assume all: "\<forall>e' \<in> set entries. snd e' = snd e"
    have "snd e \<notin> snd ` set rest" using keys(2) rest by simp
    moreover have "snd ` set rest \<subseteq> {snd e}" using keys(1) rest all by auto
    ultimately show "rest = []" by (cases rest) auto
  qed
  show ?thesis
  proof (cases "rest = []")
    case True
    then show ?thesis using rest one Cons by (cases e) (simp add: build_result_def)
  next
    case False
    then have "build_result entries = Ambiguous" using rest by (cases rest) (simp_all add: build_result_def split: prod.split)
    then show ?thesis using False one Cons by auto
  qed
qed

theorem signature_iff_one_arity_witness:
  "build_result [(lit ''a: A'', 1, 1), (lit ''b: B'', 1, 1)] = Resolved \<lparr>sg_params_text = lit ''a: A'', sg_param_counts = (1, 1)\<rparr>
   \<and> build_result [(lit ''a: A'', 1, 1), (lit ''b: B, c: C'', 2, 2)] = Ambiguous"
  using signature_iff_one_arity [of "[(lit ''a: A'', 1, 1), (lit ''b: B'', 1, 1)]"]
    signature_iff_one_arity [of "[(lit ''a: A'', 1, 1), (lit ''b: B, c: C'', 2, 2)]"] by simp

lemma only_declaration_collected:
  assumes loaded: "Mapping.lookup (ix_files ix) u = Some d"
    and m: "filter (\<lambda>x. se_name x = name) (fd_symbols d) = [m]" "se_kind m = SK_METHOD" "se_params m \<noteq> []"
  shows "collect_params_from_file name u ix u SameFile None = [(se_params m, se_param_counts m)]"
proof -
  have "filter (sig_name_matches name SameFile False java) (fd_symbols d)
      = filter (\<lambda>x. is_callable_kind java (se_kind x)) (filter (\<lambda>x. se_name x = name) (fd_symbols d))" for java
    by (simp, rule filter_cong) (auto simp: sig_name_matches_def)
  then have "filter (sig_name_matches name SameFile False java) (fd_symbols d) = [m]" for java
    using m(1,2) by (simp add: is_callable_kind_def)
  then show ?thesis
    using m(2,3) loaded by (simp add: collect_params_from_file_def sig_file_def sig_receiver_matches_def sig_candidates_of_def
        extract_params_or_fallback_def trusted_param_counts_def)
qed

text \<open>C30 The method of any class of the file decides a call, not only that of the class around the call: where the only
  declaration of the name in the caller's file is a method, with parameters, of some class, a call without a
  qualifier is checked against that method, wherever in the file it stands, and no import or other file is looked at.\<close>

theorem method_of_any_class_decides_call:
  assumes call: "cl_qualifier c = None" and loaded: "Mapping.lookup (ix_files (fst s)) (cl_caller_uri c) = Some d"
    and m: "filter (\<lambda>x. se_name x = cl_name c) (fd_symbols d) = [m]" "se_kind m = SK_METHOD" "se_params m \<noteq> []"
      "se_container m = Some other_class"
  shows "resolve_call_signature R V c s = Some (s, Resolved \<lparr>sg_params_text = se_params m,
     sg_param_counts = (unat (fst (se_param_counts m)), unat (snd (se_param_counts m)))\<rparr>)"
proof -
  have "m \<in> set (filter (\<lambda>x. se_name x = cl_name c) (fd_symbols d))" unfolding m(1) by simp
  then have "list_ex (\<lambda>x. se_name x = cl_name c \<and> se_container x \<noteq> None) (fd_symbols d)"
    using m(4) by (auto simp: list_ex_iff)
  then have "classify_same_file c (fst s) = MemberWins [(se_params m, se_param_counts m)]"
    using only_declaration_collected [OF loaded m(1-3)] loaded by (simp add: classify_same_file_def)
  then show ?thesis
    using call by (simp add: resolve_call_signature_def resolve_unqualified_call_def build_result_def distinct_arities_def
        split: prod.split)
qed

definition example_method :: symbol_entry where
  "example_method = (example_class ''f'' 0 1)\<lparr>se_kind := SK_METHOD, se_container := Some (lit ''K''),
     se_params := lit ''a: A'', se_param_counts := (1, 1)\<rparr>"

definition example_method_file :: file_data where
  "example_method_file = default_file_data\<lparr>fd_symbols := [example_method]\<rparr>"

theorem method_of_any_class_decides_call_witness:
  "resolve_call_signature (\<lambda>_ _ s. Some (s, None)) example_resolve_env \<lparr>cl_name = lit ''f'', cl_qualifier = None, cl_caller_uri = lit ''/F.kt'', cl_shape = None\<rparr>
     ((indexer_new False)\<lparr>ix_files := Mapping.update (lit ''/F.kt'') example_method_file Mapping.empty\<rparr>, snd example_state)
   = Some (((indexer_new False)\<lparr>ix_files := Mapping.update (lit ''/F.kt'') example_method_file Mapping.empty\<rparr>, snd example_state),
       Resolved \<lparr>sg_params_text = lit ''a: A'', sg_param_counts = (1, 1)\<rparr>)"
  by (subst method_of_any_class_decides_call [where m = example_method and other_class = "lit ''K''"
        and d = example_method_file])
    (simp_all add: example_method_file_def example_method_def example_class_def)

end
