(* ===== verification/Spec2Isabelle.thy ===== *)
theory Spec2Isabelle
  imports Prelude Rust_Str Rust_Path Str_Ext Text_Utils Types Interning
    Contributions Index_State Apply Index_Inv Index_Props
    Scan_Queue Workspace_Config Scan_Handler Scan_Props Document_Handler File_Change_Handler
    Actor
    Cache Cache_Props Discover Source_Paths Source_Props Scan Workspace_Scan
    Jar_Types Jar_Cache Jar_Cache_Props Jar_Index Jar_Manifest Jar_Props
    Find_Name Rg_Search Resolve_Scope Tie_Break Resolve_Chain Walk Hierarchy Hierarchy_Props
    Resolve_Props Detail_Text Rg_References Rg_Props Rg_Slots
    Type_Subst Type_Subst_Props Sig_Text Sig_Lookup Sig_Props
    Extension Qualified Call_Signature Qualified_Props
begin

text \<open>
  A verification development for kmp-lsp, a language server for Kotlin, Java and Swift. Paths of the
  source are relative to \<^verbatim>\<open>src/src/\<close>.

  The program. A client's notifications become events of one workspace actor
  (\<^verbatim>\<open>workspace/actor.rs\<close>), whose handlers own the life cycle of the server: the
  root and its configuration, the queue of workspace scans and the JAR pipeline
  (\<^verbatim>\<open>scan_handler.rs\<close>, \<^verbatim>\<open>scan_queue.rs\<close>), documents
  being opened, saved, closed and deleted (\<^verbatim>\<open>document_handler.rs\<close>), and edits,
  debounced per file (\<^verbatim>\<open>file_change_handler.rs\<close>). All of them read and write one
  shared index (\<^verbatim>\<open>indexer.rs\<close>), which files enter through the apply phase
  (\<^verbatim>\<open>indexer/apply.rs\<close>). A scan (\<^verbatim>\<open>indexer/scan.rs\<close>)
  discovers files (\<^verbatim>\<open>indexer/discover.rs\<close>), takes the unchanged ones from the
  on-disk cache (\<^verbatim>\<open>indexer/cache.rs\<close>), parses the others and hands the result to
  the apply phase. Compiled JARs enter the index in two tiers
  (\<^verbatim>\<open>indexer/jar.rs\<close>): the names of all of them from a manifest, the
  declarations of one of them when a look-up asks for it. Requests resolve names over this index
  (\<^verbatim>\<open>resolver/\<close>): bare names through a chain of scopes, qualified names through
  the type of their receiver, members and extensions through the class hierarchy. Signatures and the
  types of their parameters are read from the text of declarations
  (\<^verbatim>\<open>indexer/infer/\<close>, \<^verbatim>\<open>detail_text.rs\<close>), and references
  are found by running ripgrep (\<^verbatim>\<open>rg.rs\<close>).

  Conventions. Text is a list of Unicode scalar values (\<open>str\<close>), a path a list of
  components, a URL its text, a JAR the string its path was written as. A hash map is a
  \<open>mapping\<close>; where the program iterates over one, the model goes through the keys in order,
  and the properties do not depend on that order. Machine words keep their width where they can wrap.
  \<open>None\<close> as the new state of an operation is a panic, and a result of type
  \<open>resolved\<close> carries it through a look-up. Tasks are modelled by the steps between their
  awaits, so that an interleaving is a sequence of steps: what other tasks do meanwhile is the state at
  the next step, or an argument.

  Parameters. Code outside the repository is a parameter: \<open>ucd\<close> (Unicode tables),
  \<open>externals\<close> (the \<open>url\<close> crate and the tree-sitter parsers),
  \<open>disk\<close> and \<open>doc_env\<close> (what handlers ask of the disk and of the diagnostics),
  \<open>cache_env\<close> (file system, SHA-256 and bincode), \<open>scan_fs\<close>
  (\<open>fd\<close>, directory walks, glob sets and file contents), \<open>jar_env\<close> (the shared
  cache files, the clocks and the sidecar process), \<open>rg_env\<close> (what a ripgrep run prints),
  \<open>file_env\<close> and \<open>resolve_env\<close> (files read and searched while resolving). The
  code over syntax trees is a parameter too, where a modelled function calls it:
  \<open>infer_deps\<close> (the trait \<open>InferDeps\<close>), \<open>value_types\<close> and
  \<open>receiver_inference\<close> (the types of variables, fields and receivers, which
  \<^verbatim>\<open>resolver/infer.rs\<close> reads from trees). What the proofs need of a parameter is
  a named hypothesis of the property (\<open>codec_ok\<close>: what was encoded decodes;
  \<open>store_works\<close>: no write fails), and each is met by a concrete instance in the property's
  witness.

  The theories, by component:
  \<^item> \<open>Prelude\<close>, \<open>Rust_Str\<close>, \<open>Rust_Path\<close>: hash maps and
    partial folds, the string and path operations of the standard library, formatted numbers.
  \<^item> \<open>Str_Ext\<close> (\<^verbatim>\<open>str_ext.rs\<close>), \<open>Text_Utils\<close>
    (\<^verbatim>\<open>text_utils.rs\<close>): identifiers at a cursor, whole-word search and
    replacement. A word search ends and returns exactly the standalone occurrences, a replacement
    renames exactly those and can be undone, the word at a UTF-16 column is maximal.
  \<^item> \<open>Types\<close> (\<^verbatim>\<open>types.rs\<close>,
    \<^verbatim>\<open>language/\<close>): the data model; the innermost class at a line.
  \<^item> \<open>Interning\<close> (\<^verbatim>\<open>types.rs\<close>): \<open>FileTable\<close> and
    \<open>JarTable\<close>; threads that intern at the same time agree on the identifiers, through the
    locale \<open>interner\<close>.
  \<^item> \<open>Contributions\<close>, \<open>Apply\<close>
    (\<^verbatim>\<open>indexer/apply.rs\<close>), \<open>Index_State\<close>
    (\<^verbatim>\<open>indexer.rs\<close>): what a file adds to the index, the ways it is committed,
    resets and look-ups. \<open>Index_Inv\<close> has the invariant \<open>index_inv\<close>: the
    posting maps hold exactly what the indexed files contribute. The three merges of a posting list
    share the locale \<open>posting_merge\<close>. \<open>Index_Props\<close> has the properties:
    indexing keeps the invariant, what a scan result, a reset, the candidates of a name and the
    bare-name cache hold, and what deletion and source-path scans break. The invariant holds of an index
    of source files; a deleted file, a library rescan and a materialized JAR extension leave it.
  \<^item> \<open>Scan_Queue\<close> (\<^verbatim>\<open>workspace/scan_queue.rs\<close>),
    \<open>Workspace_Config\<close> (\<^verbatim>\<open>workspace/mod.rs\<close>,
    \<^verbatim>\<open>phase.rs\<close>, \<^verbatim>\<open>event.rs\<close>),
    \<open>Scan_Handler\<close> with \<open>Scan_Props\<close>: the queue is the instance of the locale
    \<open>op_queue\<close>; the handler's operations and the steps of its tasks form the relation
    \<open>scan_step\<close>. The sidecar's lock is no part of the handler's state: a JAR task holds it
    and so does any look-up that materializes a JAR, so each handler step takes any answer to its
    attempt to lock. Scans never overlap, every run of the tasks alone ends after at most six steps with
    all requested scans reported, and a root change during a look-up starts no JAR indexing.
  \<^item> \<open>Document_Handler\<close>, \<open>File_Change_Handler\<close>, \<open>Actor\<close>
    (\<^verbatim>\<open>workspace/\<close>): the diagnostics of a debounced edit are those of the text
    the document then has, the actor's turns refine \<open>scan_step\<close>, and it notices exactly
    once that the workspace became ready.
  \<^item> \<open>Cache\<close> with \<open>Cache_Props\<close>
    (\<^verbatim>\<open>indexer/cache.rs\<close>): the workspace cache and the chunked library cache, on
    a store where every write may fail or be cut short. Saving is atomic, and a library manifest that
    loads vouches for its chunks.
  \<^item> \<open>Discover\<close> (\<^verbatim>\<open>indexer/discover.rs\<close>,
    \<open>IgnoreMatcher\<close> of \<^verbatim>\<open>rg.rs\<close>), \<open>Source_Paths\<close> with
    \<open>Source_Props\<close> (\<open>LibraryBatch\<close> and \<open>index_source_paths\<close> of
    \<^verbatim>\<open>indexer/apply.rs\<close>): a warm start restores the library files exactly and
    marks those outside the workspace.
  \<^item> \<open>Scan\<close> with \<open>Workspace_Scan\<close>
    (\<^verbatim>\<open>indexer/scan.rs\<close>): discovery keeps the shallowest files, a warm scan of
    an unchanged workspace reproduces the saved index, and a root change at the wrong moment stores the
    wrong cache.
  \<^item> \<open>Jar_Types\<close> (\<^verbatim>\<open>sidecar.rs\<close>,
    \<^verbatim>\<open>indexer/jar_cache.rs\<close>,
    \<^verbatim>\<open>indexer/jar_manifest_cache.rs\<close>): the data of the JAR pipeline.
    \<open>Jar_Cache\<close> with \<open>Jar_Cache_Props\<close>: the symbol cache that all processes
    share, its fingerprint, merge and save throttle. \<open>Jar_Index\<close> (Tier 2: one JAR's symbols
    into the index, and promotion on demand, \<^verbatim>\<open>indexer/jar.rs\<close>) and
    \<open>Jar_Manifest\<close> (Tier 1, the names) with \<open>Jar_Props\<close>: promotion keeps the
    JAR definitions exact and stays within its budget of sidecar calls.
  \<^item> \<open>Find_Name\<close> (\<^verbatim>\<open>resolver/find.rs\<close>,
    \<^verbatim>\<open>container.rs\<close>, the declaration scan of
    \<^verbatim>\<open>infer_lines.rs\<close>): a declared name in one file.
  \<^item> \<open>Rg_Search\<close>, \<open>Rg_References\<close>, \<open>Rg_Slots\<close> with
    \<open>Rg_Props\<close> (\<^verbatim>\<open>rg.rs\<close>): the commands, the lines a run prints,
    the search for definitions and the search for references in all its scopes, and the slots that bound
    the processes. The reference search does not panic on what ripgrep documents, and does where a byte
    that is no UTF-8 precedes the match; which calls count as declarations; the producers of a type are
    searched where ripgrep is; the slot counter never exceeds its bound, under all interleavings.
  \<^item> \<open>Detail_Text\<close> (\<^verbatim>\<open>detail_text.rs\<close>): the declared type in
    the text of a declaration is read back.
  \<^item> \<open>Resolve_Scope\<close> (\<^verbatim>\<open>resolver/fd.rs\<close>,
    \<^verbatim>\<open>package.rs\<close>, \<^verbatim>\<open>imports.rs\<close>,
    \<^verbatim>\<open>package_scope.rs\<close>, \<^verbatim>\<open>platform_types.rs\<close>),
    \<open>Tie_Break\<close> (\<^verbatim>\<open>tie_break.rs\<close>), \<open>Resolve_Chain\<close>
    (\<^verbatim>\<open>resolve.rs\<close>): the scopes of a bare name, the ways several definitions are
    narrowed down to one, and the chain under every policy.
  \<^item> \<open>Walk\<close> and \<open>Hierarchy\<close> with \<open>Hierarchy_Props\<close> and
    \<open>Resolve_Props\<close> (\<^verbatim>\<open>resolver/hierarchy.rs\<close>,
    \<^verbatim>\<open>infer_deps.rs\<close>): the depth-first and the breadth-first walk. The locale
    \<open>settled_walk\<close> states what they return where the successors of a class do not depend on
    the moment they are asked for; it is interpreted on \<open>supertype_targets\<close> in
    \<open>settled\<close> states, in which every JAR has been materialized or has failed and the
    platform sources are indexed. There the walks decide reachability and find the nearest level. The
    ambiguity-safe tail does not depend on the order of its candidates, and the policy of keystrokes
    resolves a bare name without a search program.
  \<^item> \<open>Type_Subst\<close> with \<open>Type_Subst_Props\<close>
    (\<^verbatim>\<open>indexer/infer/type_subst.rs\<close>, \<open>apply_type_subst\<close> of
    \<^verbatim>\<open>indexer/lookup.rs\<close>): on the text of types, substitution and matching do
    what they do on types, for the shapes of types the properties name; and where an arrow breaks them.
  \<^item> \<open>Sig_Text\<close>, \<open>Sig_Lookup\<close> with \<open>Sig_Props\<close>
    (\<^verbatim>\<open>indexer/infer/sig.rs\<close>, the function types of
    \<^verbatim>\<open>lambda.rs\<close>): parameter lists are read back, the best of several candidates
    is chosen, and the caches of signatures outlive the index they come from.
  \<^item> \<open>Extension\<close> (\<^verbatim>\<open>resolver/extension.rs\<close>),
    \<open>Qualified\<close> (\<^verbatim>\<open>resolver/qualified.rs\<close>),
    \<open>Call_Signature\<close> (\<^verbatim>\<open>resolver/call_signature.rs\<close>) with
    \<open>Qualified_Props\<close>: inherited extensions come from the nearest supertypes, a missing
    nested type is not its outer one, and a call has a signature exactly if its declarations agree on
    one arity.

  Bounds and fuel. No definition takes fuel: loops are structural recursions or have a measure, the
  length of what is left of a text or a path; the search for whole words, whose loop does not end for an
  empty word, is a \<open>partial_function\<close>, proved to end for every other word. The depth limits
  of the walks are the program's own. Tables hold at most \<open>2 ^ 32\<close> entries, the size of
  their identifiers; the properties that need room in them say so.

  Not modelled.
  \<^item> Parsers (\<^verbatim>\<open>parser.rs\<close>, \<^verbatim>\<open>queries.rs\<close>,
    \<^verbatim>\<open>node_ext.rs\<close>), type inference on trees
    (\<^verbatim>\<open>resolver/infer.rs\<close>, the rest of
    \<^verbatim>\<open>indexer/infer/\<close>), scopes and symbols of a tree
    (\<^verbatim>\<open>indexer/scope.rs\<close>, \<^verbatim>\<open>resolution.rs\<close>,
    \<^verbatim>\<open>walk.rs\<close>, \<^verbatim>\<open>cst_folding.rs\<close>), semantic tokens and
    inlay hints, and the single diagnostics of \<^verbatim>\<open>features/\<close>: case analyses over
    the node kinds of tree-sitter grammars, which are no part of the repository. What the modelled code
    asks of them is a parameter.
  \<^item> Completion (\<^verbatim>\<open>resolver/complete.rs\<close>,
    \<^verbatim>\<open>features/completion.rs\<close>), navigation and edits (the rest of
    \<^verbatim>\<open>features/\<close>), the facade of the resolver
    (\<^verbatim>\<open>resolver/api.rs\<close>, \<^verbatim>\<open>identity.rs\<close> and others):
    they put together answers of the modelled look-ups and of syntax trees.
  \<^item> Documentation and hover (\<^verbatim>\<open>indexer/doc.rs\<close>,
    \<^verbatim>\<open>html_md.rs\<close>, \<^verbatim>\<open>enrich.rs\<close>): rendering of comments
    as Markdown. The tables of the standard library (\<^verbatim>\<open>stdlib.rs\<close>): constants.
  \<^item> Type inference by lines (\<^verbatim>\<open>resolver/infer_lines.rs\<close>, apart from the
    declaration scan), and the discovery of JARs in Gradle caches and SDK directories
    (\<^verbatim>\<open>indexer/jar.rs\<close>).
  \<^item> Source JARs (\<^verbatim>\<open>indexer/sources_jar_cache.rs\<close>), the description of a
    workspace (\<^verbatim>\<open>workspace_json.rs\<close>), the LSP transport, the command line and
    the subprocesses (\<^verbatim>\<open>backend/\<close>, \<^verbatim>\<open>cli/\<close>,
    \<^verbatim>\<open>main.rs\<close>, \<^verbatim>\<open>sidecar.rs\<close>): input and output; the
    configuration read is a parameter.
  \<^item> Logging, progress notifications, the task runner and the status file: they do not feed back
    into the state.
\<close>

end
